(* ===== verification/Rvx_Prelude.thy ===== *)
theory Rvx_Prelude
  imports Complex_Main "HOL-Library.Monad_Syntax"
begin

text \<open>
  Shared vocabulary of the development.

  \<^item> Fallible Rust code returns \<open>Result<T, E>\<close>; the model returns \<open>'e + 'a\<close>, with \<open>Inl\<close> for
    \<open>Err\<close>. \<open>rbind\<close> is the \<open>?\<close> operator, \<open>ensure\<close> an early \<open>return Err\<close>, \<open>for_each\<close> a
    \<open>for\<close> loop whose body may return early, \<open>try_fold\<close> the same with a running value.
  \<^item> Machine integers: \<open>u64\<close>, \<open>u32\<close> and \<open>usize\<close> values are \<open>nat\<close>, \<open>i64\<close> values are \<open>int\<close>;
    every operation of the source that can leave the range at run time is one of the
    \<open>checked_\<close> / \<open>saturating_\<close> functions below.
  \<^item> The collection \<open>res_simps\<close> unfolds the result combinators, \<open>bounds\<close> the size limits.
\<close>

named_theorems res_simps "unfolding of the result combinators"
named_theorems bounds "the numeric limits of the source"

subsection \<open>Results\<close>

type_synonym ('e, 'a) result = "'e + 'a"

definition rbind :: "'e + 'a \<Rightarrow> ('a \<Rightarrow> 'e + 'b) \<Rightarrow> 'e + 'b" where
  "rbind m f = (case m of Inl e \<Rightarrow> Inl e | Inr x \<Rightarrow> f x)"

definition ensure :: "bool \<Rightarrow> 'e \<Rightarrow> 'e + unit" where
  "ensure ok e = (if ok then Inr () else Inl e)"

definition map_err :: "('e \<Rightarrow> 'f) \<Rightarrow> 'e + 'a \<Rightarrow> 'f + 'a" where
  "map_err g m = (case m of Inl e \<Rightarrow> Inl (g e) | Inr x \<Rightarrow> Inr x)"

definition ok_or :: "'e \<Rightarrow> 'a option \<Rightarrow> 'e + 'a" where
  "ok_or e m = (case m of None \<Rightarrow> Inl e | Some x \<Rightarrow> Inr x)"

fun for_each :: "('a \<Rightarrow> 'e + unit) \<Rightarrow> 'a list \<Rightarrow> 'e + unit" where
  "for_each f [] = Inr ()"
| "for_each f (x # xs) = rbind (f x) (\<lambda>_. for_each f xs)"

fun try_fold :: "('s \<Rightarrow> 'a \<Rightarrow> 'e + 's) \<Rightarrow> 's \<Rightarrow> 'a list \<Rightarrow> 'e + 's" where
  "try_fold f s [] = Inr s"
| "try_fold f s (x # xs) = rbind (f s x) (\<lambda>s'. try_fold f s' xs)"

fun try_map :: "('a \<Rightarrow> 'e + 'b) \<Rightarrow> 'a list \<Rightarrow> 'e + 'b list" where
  "try_map f [] = Inr []"
| "try_map f (x # xs) = rbind (f x) (\<lambda>y. rbind (try_map f xs) (\<lambda>ys. Inr (y # ys)))"

definition is_ok :: "'e + 'a \<Rightarrow> bool" where
  "is_ok m = (case m of Inl _ \<Rightarrow> False | Inr _ \<Rightarrow> True)"

subsection \<open>Integers of fixed width\<close>

text \<open>The casts \<open>as i64\<close> and \<open>as u64\<close> reinterpret the 64 bits.\<close>

definition u64_as_i64 :: "nat \<Rightarrow> int" where
  "u64_as_i64 n = (if n < 9223372036854775808 then int n else int n - 18446744073709551616)"

definition i64_as_u64 :: "int \<Rightarrow> nat" where
  "i64_as_u64 i = nat (if i < 0 then i + 18446744073709551616 else i)"

abbreviation (input) i64_max :: int where "i64_max \<equiv> 9223372036854775807"
abbreviation (input) i64_min :: int where "i64_min \<equiv> - 9223372036854775808"
abbreviation (input) i64_max_u :: nat where "i64_max_u \<equiv> 9223372036854775807"
abbreviation (input) u64_max :: nat where "u64_max \<equiv> 18446744073709551615"

definition sat_i64 :: "int \<Rightarrow> int" where
  "sat_i64 x = max i64_min (min i64_max x)"

definition saturating_add_i64 :: "int \<Rightarrow> int \<Rightarrow> int" where
  "saturating_add_i64 a b = sat_i64 (a + b)"

definition saturating_sub_i64 :: "int \<Rightarrow> int \<Rightarrow> int" where
  "saturating_sub_i64 a b = sat_i64 (a - b)"

definition saturating_mul_i64 :: "int \<Rightarrow> int \<Rightarrow> int" where
  "saturating_mul_i64 a b = sat_i64 (a * b)"

definition checked_add_i64 :: "int \<Rightarrow> int \<Rightarrow> int option" where
  "checked_add_i64 a b = (if i64_min \<le> a + b \<and> a + b \<le> i64_max then Some (a + b) else None)"

definition checked_add_u64 :: "nat \<Rightarrow> nat \<Rightarrow> nat option" where
  "checked_add_u64 a b = (if a + b \<le> u64_max then Some (a + b) else None)"

definition saturating_add_u64 :: "nat \<Rightarrow> nat \<Rightarrow> nat" where
  "saturating_add_u64 a b = min u64_max (a + b)"

definition in_i64 :: "int \<Rightarrow> bool" where
  "in_i64 x \<longleftrightarrow> i64_min \<le> x \<and> x \<le> i64_max"

text \<open>Decimal digits of an unsigned integer, as \<open>Display\<close> prints them.\<close>

definition digit_char :: "nat \<Rightarrow> char" where
  "digit_char d = char_of (48 + d)"

fun show_nat :: "nat \<Rightarrow> string" where
  "show_nat n = (if n < 10 then [digit_char n] else show_nat (n div 10) @ [digit_char (n mod 10)])"

definition show_int :: "int \<Rightarrow> string" where
  "show_int i = (if i < 0 then CHR ''-'' # show_nat (nat (- i)) else show_nat (nat i))"

declare show_nat.simps [simp del]

text \<open>\<open>u64::ilog10\<close> of a positive number (0 for 0, as \<open>checked_ilog10().unwrap_or(0)\<close>).\<close>

fun ilog10 :: "nat \<Rightarrow> nat" where
  "ilog10 n = (if n < 10 then 0 else Suc (ilog10 (n div 10)))"

declare ilog10.simps [simp del]

section \<open>Lemmas on results\<close>

lemma rbind_simps [simp, res_simps]:
  "rbind (Inl e) f = Inl e"
  "rbind (Inr x) f = f x"
  by (simp_all add: rbind_def)

lemma rbind_cong [fundef_cong]:
  "m = m' \<Longrightarrow> (\<And>x. m' = Inr x \<Longrightarrow> f x = g x) \<Longrightarrow> rbind m f = rbind m' g"
  by (simp add: rbind_def split: sum.splits)

lemma rbind_eq_Inr: "rbind m f = Inr y \<longleftrightarrow> (\<exists>x. m = Inr x \<and> f x = Inr y)"
  by (cases m) auto

lemma rbind_eq_Inl: "rbind m f = Inl e \<longleftrightarrow> m = Inl e \<or> (\<exists>x. m = Inr x \<and> f x = Inl e)"
  by (cases m) auto

lemma rbind_assoc: "rbind (rbind m f) g = rbind m (\<lambda>x. rbind (f x) g)"
  by (cases m) auto

lemma ensure_simps [simp, res_simps]:
  "ensure True e = Inr ()"
  "ensure False e = Inl e"
  by (simp_all add: ensure_def)

lemma ensure_eq_Inr: "ensure b e = Inr u \<longleftrightarrow> b"
  by (simp add: ensure_def)

lemma ensure_eq_Inl: "ensure b e = Inl e' \<longleftrightarrow> \<not> b \<and> e' = e"
  by (auto simp: ensure_def)

lemma map_err_simps [simp, res_simps]:
  "map_err g (Inl e) = Inl (g e)"
  "map_err g (Inr x) = Inr x"
  by (simp_all add: map_err_def)

lemma map_err_eq_Inr: "map_err g m = Inr x \<longleftrightarrow> m = Inr x"
  by (cases m) auto

lemma ok_or_eq_Inr: "ok_or e m = Inr x \<longleftrightarrow> m = Some x"
  by (cases m) (auto simp: ok_or_def)

lemma ok_or_simps [simp, res_simps]:
  "ok_or e None = Inl e"
  "ok_or e (Some x) = Inr x"
  by (simp_all add: ok_or_def)

lemma is_ok_simps [simp]: "\<not> is_ok (Inl e)" "is_ok (Inr x)"
  by (simp_all add: is_ok_def)

lemma is_ok_iff: "is_ok m \<longleftrightarrow> (\<exists>x. m = Inr x)"
  by (cases m) auto

lemma for_each_eq_Inr: "for_each f xs = Inr u \<longleftrightarrow> (\<forall>x \<in> set xs. f x = Inr ())"
  by (induction xs) (auto simp: rbind_eq_Inr)

lemma for_each_append:
  "for_each f (xs @ ys) = rbind (for_each f xs) (\<lambda>_. for_each f ys)"
  by (induction xs) (simp_all add: rbind_assoc)

lemma try_fold_append:
  "try_fold f s (xs @ ys) = rbind (try_fold f s xs) (\<lambda>s'. try_fold f s' ys)"
  by (induction xs arbitrary: s) (simp_all add: rbind_assoc)

lemma try_fold_cong [fundef_cong]:
  "xs = ys \<Longrightarrow> s = t \<Longrightarrow> (\<And>s x. x \<in> set ys \<Longrightarrow> f s x = g s x) \<Longrightarrow> try_fold f s xs = try_fold g t ys"
proof (induction xs arbitrary: ys s t)
  case (Cons x xs)
  then show ?case by (cases "g t x") auto
qed simp

lemma for_each_cong [fundef_cong]:
  "xs = ys \<Longrightarrow> (\<And>x. x \<in> set ys \<Longrightarrow> f x = g x) \<Longrightarrow> for_each f xs = for_each g ys"
proof (induction xs arbitrary: ys)
  case (Cons x xs)
  then show ?case by (cases "g x") auto
qed simp

lemma try_fold_invariant:
  assumes "\<And>s x s'. P s \<Longrightarrow> x \<in> set xs \<Longrightarrow> f s x = Inr s' \<Longrightarrow> P s'"
    and "P s" and "try_fold f s xs = Inr s'"
  shows "P s'"
  using assms
proof (induction xs arbitrary: s)
  case Nil
  then show ?case by simp
next
  case (Cons x xs)
  from Cons.prems(3) obtain t where t: "f s x = Inr t" "try_fold f t xs = Inr s'"
    by (auto simp: rbind_eq_Inr)
  have "P t" by (rule Cons.prems(1) [OF Cons.prems(2) _ t(1)]) simp
  with t(2) Cons.prems(1) show ?case
    by (intro Cons.IH [of t]) (simp_all, blast)
qed

lemmas result_iffs = rbind_eq_Inr ensure_eq_Inr map_err_eq_Inr ok_or_eq_Inr for_each_eq_Inr

section \<open>Lemmas on integers\<close>

lemma sat_i64_in [simp]: "in_i64 (sat_i64 x)"
  by (simp add: in_i64_def sat_i64_def)

lemma sat_i64_id [simp]: "in_i64 x \<Longrightarrow> sat_i64 x = x"
  by (simp add: in_i64_def sat_i64_def)

lemma checked_add_i64_Some:
  "checked_add_i64 a b = Some c \<longleftrightarrow> c = a + b \<and> in_i64 c"
  by (auto simp: checked_add_i64_def in_i64_def)

lemma checked_add_u64_Some:
  "checked_add_u64 a b = Some c \<longleftrightarrow> c = a + b \<and> c \<le> u64_max"
  by (auto simp: checked_add_u64_def)

lemma saturating_sub_i64_mono: "a \<le> b \<Longrightarrow> saturating_sub_i64 a c \<le> saturating_sub_i64 b c"
  by (simp add: saturating_sub_i64_def sat_i64_def)

section \<open>Decimal printing\<close>

lemma show_nat_nonempty [simp]: "show_nat n \<noteq> []"
  by (subst show_nat.simps) simp

lemma length_show_nat_pos [simp]: "0 < length (show_nat n)"
  using show_nat_nonempty [of n] by simp

lemma length_show_nat_le: "n < 10 ^ k \<Longrightarrow> 0 < k \<Longrightarrow> length (show_nat n) \<le> k"
proof (induction k arbitrary: n)
  case 0
  then show ?case by simp
next
  case (Suc k)
  show ?case
  proof (cases "n < 10")
    case True
    then show ?thesis by (subst show_nat.simps) simp
  next
    case False
    with Suc.prems have "0 < k" by (cases k) auto
    moreover have "n div 10 < 10 ^ k" using Suc.prems(1) by (simp add: less_mult_imp_div_less)
    ultimately have "length (show_nat (n div 10)) \<le> k" using Suc.IH by blast
    with False show ?thesis by (subst show_nat.simps) simp
  qed
qed

lemma length_show_nat: "length (show_nat n) = ilog10 n + 1"
proof (induction n rule: show_nat.induct)
  case (1 n)
  then show ?case
    by (cases "n < 10") (simp_all add: show_nat.simps [of n] ilog10.simps [of n])
qed

lemma ilog10_le: "n \<le> u64_max \<Longrightarrow> ilog10 n \<le> 19"
  using length_show_nat_le [of n 20] by (simp add: length_show_nat)

lemma ilog10_0 [simp]: "ilog10 0 = 0"
  by (simp add: ilog10.simps)

lemma of_char_digit_char: "d < 10 \<Longrightarrow> of_char (digit_char d) = (48 + d :: nat)"
  by (simp add: digit_char_def)

lemma i64_as_u64_as_i64: "n \<le> 18446744073709551615 \<Longrightarrow> i64_as_u64 (u64_as_i64 n) = n"
  by (simp add: i64_as_u64_def u64_as_i64_def)

lemma try_map_eq_Inr: "try_map f xs = Inr ys \<longleftrightarrow> list_all2 (\<lambda>x y. f x = Inr y) xs ys"
proof (induction xs arbitrary: ys)
  case (Cons x xs)
  then show ?case by (cases ys) (auto simp: rbind_eq_Inr)
qed auto

section \<open>Tables that grow\<close>

text \<open>
  A table is a list of rows in insertion order. \<open>grows R xs ys\<close>: \<open>ys\<close> is \<open>xs\<close> with each row
  updated in place, as \<open>R\<close> allows, and further rows appended.
\<close>

definition grows :: "('a \<Rightarrow> 'a \<Rightarrow> bool) \<Rightarrow> 'a list \<Rightarrow> 'a list \<Rightarrow> bool" where
  "grows R xs ys \<longleftrightarrow> list_all2 R xs (take (length xs) ys)"

lemma grows_refl: "(\<And>x. x \<in> set xs \<Longrightarrow> R x x) \<Longrightarrow> grows R xs xs"
  by (simp add: grows_def list.rel_refl_strong)

lemma grows_append: "(\<And>x. x \<in> set xs \<Longrightarrow> R x x) \<Longrightarrow> grows R xs (xs @ ys)"
  by (simp add: grows_def list.rel_refl_strong)

lemma grows_map: "(\<And>x. x \<in> set xs \<Longrightarrow> R x (f x)) \<Longrightarrow> grows R xs (map f xs)"
  by (simp add: grows_def list_all2_conv_all_nth)

lemma grows_length: "grows R xs ys \<Longrightarrow> length xs \<le> length ys"
  by (auto simp: grows_def dest: list_all2_lengthD)

lemma grows_nth: "grows R xs ys \<Longrightarrow> i < length xs \<Longrightarrow> R (xs ! i) (ys ! i)"
  unfolding grows_def list_all2_conv_all_nth by auto

lemma growsI: "length xs \<le> length ys \<Longrightarrow> (\<And>i. i < length xs \<Longrightarrow> R (xs ! i) (ys ! i)) \<Longrightarrow> grows R xs ys"
  by (simp add: grows_def list_all2_conv_all_nth)

lemma grows_trans:
  assumes "grows R xs ys" and "grows R ys zs" and "\<And>x y z. R x y \<Longrightarrow> R y z \<Longrightarrow> R x z"
  shows "grows R xs zs"
proof (rule growsI)
  show "length xs \<le> length zs" using grows_length [OF assms(1)] grows_length [OF assms(2)] by simp
  fix i
  assume i: "i < length xs"
  then have "i < length ys" using grows_length [OF assms(1)] by simp
  then show "R (xs ! i) (zs ! i)" using assms(3) grows_nth [OF assms(1) i] grows_nth [OF assms(2)] by blast
qed

lemma grows_mono: "grows R xs ys \<Longrightarrow> (\<And>x y. x \<in> set xs \<Longrightarrow> R x y \<Longrightarrow> S x y) \<Longrightarrow> grows S xs ys"
  by (intro growsI) (auto dest: grows_length grows_nth)

lemma grows_row:
  assumes "grows R xs ys" and "x \<in> set xs"
  obtains y where "y \<in> set ys" and "R x y"
proof -
  obtain i where "i < length xs" "x = xs ! i" using assms(2) by (auto simp: in_set_conv_nth)
  with grows_nth [OF assms(1)] grows_length [OF assms(1)] that [of "ys ! i"] show thesis by auto
qed

end
