(* ===== verification/Btree_Map.thy ===== *)
theory Btree_Map
  imports Rvx_Prelude "HOL-Library.Char_ord" "HOL-Library.List_Lexorder"
begin

text \<open>
  \<open>std::collections::BTreeMap\<close> and \<open>BTreeSet\<close> as the source uses them: association lists
  (lists) in strictly increasing key order. Keys are byte strings almost everywhere, ordered
  lexicographically by byte, which \<open>List_Lexorder\<close> and \<open>Char_ord\<close> give to \<open>string\<close>.

  The interface is the locale \<open>ordered_map\<close>: what an insertion changes, what iteration yields.
  Clients use its lemmas through the interpretation \<open>bm\<close>.
\<close>

type_synonym ('k, 'v) bmap = "('k \<times> 'v) list"

definition bm_get :: "('k, 'v) bmap \<Rightarrow> 'k \<Rightarrow> 'v option" where
  "bm_get m k = map_of m k"

fun bm_insert :: "'k::linorder \<Rightarrow> 'v \<Rightarrow> ('k, 'v) bmap \<Rightarrow> ('k, 'v) bmap" where
  "bm_insert k v [] = [(k, v)]"
| "bm_insert k v ((k', v') # m) =
     (if k < k' then (k, v) # (k', v') # m
      else if k = k' then (k, v) # m
      else (k', v') # bm_insert k v m)"

definition bm_keys :: "('k, 'v) bmap \<Rightarrow> 'k list" where
  "bm_keys m = map fst m"

definition bm_contains :: "('k, 'v) bmap \<Rightarrow> 'k \<Rightarrow> bool" where
  "bm_contains m k \<longleftrightarrow> bm_get m k \<noteq> None"

text \<open>\<open>Extend::extend\<close> and \<open>FromIterator\<close>: insert the entries in iteration order.\<close>

fun bm_extend :: "('k::linorder, 'v) bmap \<Rightarrow> ('k \<times> 'v) list \<Rightarrow> ('k, 'v) bmap" where
  "bm_extend m [] = m"
| "bm_extend m ((k, v) # xs) = bm_extend (bm_insert k v m) xs"

definition bm_of_list :: "('k::linorder \<times> 'v) list \<Rightarrow> ('k, 'v) bmap" where
  "bm_of_list xs = bm_extend [] xs"

definition bm_sorted :: "('k::linorder, 'v) bmap \<Rightarrow> bool" where
  "bm_sorted m \<longleftrightarrow> sorted_wrt (<) (map fst m)"

text \<open>\<open>BTreeSet\<close> of the elements of an iterator: sorted, without duplicates.\<close>

definition bset_of_list :: "'k::linorder list \<Rightarrow> 'k list" where
  "bset_of_list ks = bm_keys (bm_of_list (map (\<lambda>k. (k, ())) ks))"

section \<open>The map interface\<close>

locale ordered_map =
  fixes empty :: "'m"
    and get :: "'m \<Rightarrow> 'k::linorder \<Rightarrow> 'v option"
    and put :: "'k \<Rightarrow> 'v \<Rightarrow> 'm \<Rightarrow> 'm"
    and entries :: "'m \<Rightarrow> ('k \<times> 'v) list"
    and invar :: "'m \<Rightarrow> bool"
  assumes get_empty: "get empty k = None"
    and invar_empty: "invar empty"
    and get_put: "invar m \<Longrightarrow> get (put k v m) k' = (if k' = k then Some v else get m k')"
    and invar_put: "invar m \<Longrightarrow> invar (put k v m)"
    and get_entries: "invar m \<Longrightarrow> get m = map_of (entries m)"
    and sorted_entries: "invar m \<Longrightarrow> sorted_wrt (<) (map fst (entries m))"
begin

primrec puts :: "('k \<times> 'v) list \<Rightarrow> 'm \<Rightarrow> 'm" where
  "puts [] m = m"
| "puts (kv # kvs) m = puts kvs (put (fst kv) (snd kv) m)"

lemma invar_puts: "invar m \<Longrightarrow> invar (puts kvs m)"
  by (induction kvs arbitrary: m) (simp_all add: invar_put)

text \<open>After a batch of insertions the last one for a key wins, and untouched keys stay.\<close>

lemma get_puts:
  "invar m \<Longrightarrow>
   get (puts kvs m) k = (case map_of (rev kvs) k of None \<Rightarrow> get m k | Some v \<Rightarrow> Some v)"
proof (induction kvs arbitrary: m)
  case Nil
  then show ?case by simp
next
  case (Cons kv kvs)
  have "invar (put (fst kv) (snd kv) m)" using Cons.prems by (rule invar_put)
  from Cons.IH [OF this] Cons.prems show ?case
    by (cases kv) (auto simp: get_put map_add_def split: option.splits)
qed

lemma entries_distinct: "invar m \<Longrightarrow> distinct (map fst (entries m))"
  using sorted_entries by (simp add: strict_sorted_iff)

lemma get_iff_entry: "invar m \<Longrightarrow> get m k = Some v \<longleftrightarrow> (k, v) \<in> set (entries m)"
  by (simp add: get_entries entries_distinct)

text \<open>Iteration order is determined by the contents.\<close>

lemma entries_unique:
  assumes "invar m" and "invar n" and "\<And>k. get m k = get n k"
  shows "entries m = entries n"
proof -
  have s: "set (entries m) = set (entries n)"
    using assms by (auto simp flip: get_iff_entry)
  then have "set (map fst (entries m)) = set (map fst (entries n))" by simp
  then have keys: "map fst (entries m) = map fst (entries n)"
    using sorted_entries [OF assms(1)] sorted_entries [OF assms(2)]
    by (simp add: strict_sorted_equal)
  have "entries m ! i = entries n ! i" if "i < length (entries m)" for i
  proof -
    have len: "length (entries m) = length (entries n)"
      using keys by (metis length_map)
    have "fst (entries m ! i) = fst (entries n ! i)"
      using keys that len by (metis nth_map)
    moreover have "get m (fst (entries m ! i)) = Some (snd (entries m ! i))"
      using that by (simp add: get_iff_entry [OF assms(1)])
    moreover have "get n (fst (entries n ! i)) = Some (snd (entries n ! i))"
      using that len by (simp add: get_iff_entry [OF assms(2)])
    ultimately show ?thesis using assms(3) by (metis option.inject prod.expand)
  qed
  moreover have "length (entries m) = length (entries n)" using keys by (metis length_map)
  ultimately show ?thesis by (simp add: nth_equalityI)
qed

end

section \<open>The sorted association list implements it\<close>

lemma set_bm_insert: "fst ` set (bm_insert k v m) = insert k (fst ` set m)"
  by (induction k v m rule: bm_insert.induct) auto

lemma bm_get_insert:
  "bm_get (bm_insert k v m) k' = (if k' = k then Some v else bm_get m k')"
  if "bm_sorted m"
  using that
  by (induction k v m rule: bm_insert.induct) (auto simp: bm_get_def bm_sorted_def)

lemma bm_sorted_insert: "bm_sorted m \<Longrightarrow> bm_sorted (bm_insert k v m)"
proof (induction k v m rule: bm_insert.induct)
  case (1 k v)
  then show ?case by (simp add: bm_sorted_def)
next
  case (2 k v k' v' m)
  have ks: "x \<in> fst ` set (bm_insert k v m) \<longleftrightarrow> x = k \<or> x \<in> fst ` set m" for x
    by (simp add: set_bm_insert)
  from 2 show ?case
    by (auto simp: bm_sorted_def ks simp flip: set_map) (use ks in force)+
qed

interpretation bm: ordered_map "[]" bm_get bm_insert "\<lambda>m. m" bm_sorted
proof unfold_locales
  show "bm_get m = map_of m" for m :: "('a, 'b) bmap"
    by (simp add: bm_get_def fun_eq_iff)
qed (simp_all add: bm_get_insert bm_sorted_insert, simp_all add: bm_get_def bm_sorted_def)

lemma bm_extend_puts: "bm_extend m xs = bm.puts xs m"
  by (induction m xs rule: bm_extend.induct) simp_all

lemma bm_sorted_extend [simp, intro]: "bm_sorted m \<Longrightarrow> bm_sorted (bm_extend m xs)"
  by (simp add: bm_extend_puts bm.invar_puts)

lemma bm_sorted_Nil [simp]: "bm_sorted []"
  by (simp add: bm_sorted_def)

lemma bm_sorted_of_list [simp]: "bm_sorted (bm_of_list xs)"
  by (simp add: bm_of_list_def)

lemma bm_get_extend:
  "bm_sorted m \<Longrightarrow>
   bm_get (bm_extend m xs) k = (case map_of (rev xs) k of None \<Rightarrow> bm_get m k | Some v \<Rightarrow> Some v)"
  by (simp add: bm_extend_puts bm.get_puts)

lemma bm_get_Nil [simp]: "bm_get [] k = None"
  by (simp add: bm_get_def)

lemma bm_contains_iff: "bm_contains m k \<longleftrightarrow> k \<in> fst ` set m"
  unfolding bm_contains_def bm_get_def by (metis map_of_eq_None_iff)

lemma fst_set_bm_extend: "fst ` set (bm_extend m xs) = fst ` set m \<union> fst ` set xs"
  by (induction m xs rule: bm_extend.induct) (auto simp: set_bm_insert)

lemma bset_of_list_set [simp]: "set (bset_of_list ks) = set ks"
  by (simp add: bset_of_list_def bm_keys_def bm_of_list_def fst_set_bm_extend image_image)

lemma bset_of_list_sorted: "sorted_wrt (<) (bset_of_list ks)"
  using bm_sorted_of_list by (simp add: bset_of_list_def bm_keys_def bm_sorted_def)

lemma bset_of_list_distinct [simp]: "distinct (bset_of_list ks)"
  using bset_of_list_sorted [of ks] by (simp add: strict_sorted_iff)

text \<open>The idiom \<open>xs.iter().collect::<BTreeSet<_>>().len() != xs.len()\<close> tests for duplicates.\<close>

lemma length_bset_of_list: "length (bset_of_list ks) = length ks \<longleftrightarrow> distinct ks"
proof -
  have "length (bset_of_list ks) = card (set ks)"
    by (metis bset_of_list_distinct bset_of_list_set distinct_card)
  then show ?thesis by (metis card_distinct distinct_card)
qed

end
