(* ===== verification/F64.thy ===== *)
theory F64
  imports Rvx_Prelude "HOL-Library.Log_Nat"
begin

text \<open>
  Rust's \<open>f64\<close>: IEEE 754 binary64. A value is NaN, an infinity, the negative zero or
  \<open>Fin r\<close> for the rational it denotes (\<open>Fin 0\<close> is the positive zero). Arithmetic is computed
  exactly on rationals and rounded once, to nearest with ties to even, by \<open>round_f64\<close>;
  results that reach \<open>2 ^ 1024\<close> become infinite, results that round to zero keep their sign.
\<close>

datatype f64 = NaN | PosInf | NegInf | NegZero | Fin rat

definition f64_zero :: f64 where "f64_zero = Fin 0"

fun f64_is_finite :: "f64 \<Rightarrow> bool" where
  "f64_is_finite (Fin _) = True"
| "f64_is_finite NegZero = True"
| "f64_is_finite _ = False"

fun f64_is_nan :: "f64 \<Rightarrow> bool" where
  "f64_is_nan NaN = True"
| "f64_is_nan _ = False"

fun f64_is_infinite :: "f64 \<Rightarrow> bool" where
  "f64_is_infinite PosInf = True"
| "f64_is_infinite NegInf = True"
| "f64_is_infinite _ = False"

text \<open>The rational value of a finite number; 0 where there is none.\<close>

fun f64_val :: "f64 \<Rightarrow> rat" where
  "f64_val (Fin r) = r"
| "f64_val _ = 0"

fun f64_sign_neg :: "f64 \<Rightarrow> bool" where
  "f64_sign_neg (Fin r) = (r < 0)"
| "f64_sign_neg NegZero = True"
| "f64_sign_neg NegInf = True"
| "f64_sign_neg _ = False"

subsection \<open>Rounding\<close>

text \<open>\<open>rat_log2 a\<close> is the exponent \<open>e\<close> with \<open>2 ^ e \<le> a < 2 ^ (e + 1)\<close>, for positive \<open>a\<close>.\<close>

definition rat_log2 :: "rat \<Rightarrow> int" where
  "rat_log2 a =
     (let (p, q) = quotient_of a;
          e = int (floorlog 2 (nat p)) - int (floorlog 2 (nat q))
      in if a < power_int 2 e then e - 1 else e)"

definition round_half_even :: "rat \<Rightarrow> int" where
  "round_half_even q =
     (let n = floor q; f = q - of_int n
      in if f < 1 / 2 then n
         else if 1 / 2 < f then n + 1
         else if even n then n else n + 1)"

definition signed_zero :: "bool \<Rightarrow> f64" where
  "signed_zero neg = (if neg then NegZero else Fin 0)"

definition signed_inf :: "bool \<Rightarrow> f64" where
  "signed_inf neg = (if neg then NegInf else PosInf)"

definition round_f64 :: "bool \<Rightarrow> rat \<Rightarrow> f64" where
  "round_f64 neg_zero r =
     (if r = 0 then signed_zero neg_zero
      else
        let a = \<bar>r\<bar>;
            e = max (rat_log2 a) (- 1022) - 52;
            v = of_int (round_half_even (a / power_int 2 e)) * power_int 2 e
        in if power_int 2 1024 \<le> v then signed_inf (r < 0)
           else if v = 0 then signed_zero (r < 0)
           else Fin (if r < 0 then - v else v))"

definition f64_of_int :: "int \<Rightarrow> f64" where
  "f64_of_int i = round_f64 False (of_int i)"

definition f64_of_nat :: "nat \<Rightarrow> f64" where
  "f64_of_nat n = f64_of_int (int n)"

text \<open>\<open>x as i64\<close>: truncation, saturating, NaN to 0.\<close>

fun f64_to_i64 :: "f64 \<Rightarrow> int" where
  "f64_to_i64 NaN = 0"
| "f64_to_i64 PosInf = i64_max"
| "f64_to_i64 NegInf = i64_min"
| "f64_to_i64 NegZero = 0"
| "f64_to_i64 (Fin r) = sat_i64 (if r < 0 then - floor (- r) else floor r)"

subsection \<open>Arithmetic\<close>

fun f64_neg :: "f64 \<Rightarrow> f64" where
  "f64_neg NaN = NaN"
| "f64_neg PosInf = NegInf"
| "f64_neg NegInf = PosInf"
| "f64_neg NegZero = Fin 0"
| "f64_neg (Fin r) = (if r = 0 then NegZero else Fin (- r))"

definition f64_add :: "f64 \<Rightarrow> f64 \<Rightarrow> f64" where
  "f64_add x y =
     (if f64_is_nan x \<or> f64_is_nan y then NaN
      else if f64_is_infinite x then (if f64_is_infinite y \<and> x \<noteq> y then NaN else x)
      else if f64_is_infinite y then y
      else round_f64 (x = NegZero \<and> y = NegZero) (f64_val x + f64_val y))"

definition f64_sub :: "f64 \<Rightarrow> f64 \<Rightarrow> f64" where
  "f64_sub x y = f64_add x (f64_neg y)"

definition f64_is_zero :: "f64 \<Rightarrow> bool" where
  "f64_is_zero x \<longleftrightarrow> x = NegZero \<or> x = Fin 0"

definition f64_mul :: "f64 \<Rightarrow> f64 \<Rightarrow> f64" where
  "f64_mul x y =
     (let neg = (f64_sign_neg x \<noteq> f64_sign_neg y)
      in if f64_is_nan x \<or> f64_is_nan y then NaN
         else if f64_is_infinite x \<or> f64_is_infinite y
           then (if f64_is_zero x \<or> f64_is_zero y then NaN else signed_inf neg)
         else round_f64 neg (f64_val x * f64_val y))"

definition f64_div :: "f64 \<Rightarrow> f64 \<Rightarrow> f64" where
  "f64_div x y =
     (let neg = (f64_sign_neg x \<noteq> f64_sign_neg y)
      in if f64_is_nan x \<or> f64_is_nan y then NaN
         else if f64_is_infinite x then (if f64_is_infinite y then NaN else signed_inf neg)
         else if f64_is_infinite y then signed_zero neg
         else if f64_is_zero y then (if f64_is_zero x then NaN else signed_inf neg)
         else round_f64 neg (f64_val x / f64_val y))"

text \<open>\<open>%\<close>: the remainder of truncated division, exact, with the sign of the dividend.\<close>

definition rat_trunc :: "rat \<Rightarrow> int" where
  "rat_trunc q = (if q < 0 then - floor (- q) else floor q)"

definition f64_rem :: "f64 \<Rightarrow> f64 \<Rightarrow> f64" where
  "f64_rem x y =
     (if f64_is_nan x \<or> f64_is_nan y \<or> f64_is_infinite x \<or> f64_is_zero y then NaN
      else if f64_is_infinite y \<or> f64_is_zero x then x
      else let r = f64_val x - f64_val y * of_int (rat_trunc (f64_val x / f64_val y))
           in if r = 0 then signed_zero (f64_sign_neg x) else Fin r)"

subsection \<open>Comparison\<close>

fun f64_less :: "f64 \<Rightarrow> f64 \<Rightarrow> bool" where
  "f64_less NaN _ = False"
| "f64_less _ NaN = False"
| "f64_less PosInf _ = False"
| "f64_less _ NegInf = False"
| "f64_less NegInf _ = True"
| "f64_less _ PosInf = True"
| "f64_less x y = (f64_val x < f64_val y)"

definition f64_eq :: "f64 \<Rightarrow> f64 \<Rightarrow> bool" where
  "f64_eq x y \<longleftrightarrow>
     \<not> f64_is_nan x \<and> \<not> f64_is_nan y \<and>
     (if f64_is_finite x \<and> f64_is_finite y then f64_val x = f64_val y else x = y)"

definition f64_le :: "f64 \<Rightarrow> f64 \<Rightarrow> bool" where
  "f64_le x y \<longleftrightarrow> f64_less x y \<or> f64_eq x y"

text \<open>\<open>f64::min\<close> and \<open>f64::max\<close> ignore a NaN operand.\<close>

definition f64_min :: "f64 \<Rightarrow> f64 \<Rightarrow> f64" where
  "f64_min x y = (if f64_is_nan x then y else if f64_is_nan y then x
                  else if f64_less y x then y else x)"

definition f64_max :: "f64 \<Rightarrow> f64 \<Rightarrow> f64" where
  "f64_max x y = (if f64_is_nan x then y else if f64_is_nan y then x
                  else if f64_less x y then y else x)"

section \<open>Lemmas\<close>

lemma f64_finite_cases: "f64_is_finite x \<longleftrightarrow> \<not> f64_is_nan x \<and> \<not> f64_is_infinite x"
  by (cases x) simp_all

lemma f64_less_finite:
  "f64_is_finite x \<Longrightarrow> f64_is_finite y \<Longrightarrow> f64_less x y \<longleftrightarrow> f64_val x < f64_val y"
  by (cases x; cases y) simp_all

lemma f64_eq_finite:
  "f64_is_finite x \<Longrightarrow> f64_is_finite y \<Longrightarrow> f64_eq x y \<longleftrightarrow> f64_val x = f64_val y"
  by (cases x; cases y) (simp_all add: f64_eq_def)

lemma f64_le_finite:
  "f64_is_finite x \<Longrightarrow> f64_is_finite y \<Longrightarrow> f64_le x y \<longleftrightarrow> f64_val x \<le> f64_val y"
  by (auto simp: f64_le_def f64_less_finite f64_eq_finite)

lemma f64_is_zero_val: "f64_is_finite x \<Longrightarrow> f64_is_zero x \<longleftrightarrow> f64_val x = 0"
  by (cases x) (simp_all add: f64_is_zero_def)

lemma f64_is_zero_eq: "f64_is_zero x \<longleftrightarrow> f64_eq x (Fin 0)"
  by (cases x) (simp_all add: f64_is_zero_def f64_eq_def)

lemma f64_neg_neg [simp]: "f64_neg (f64_neg x) = x"
  by (cases x) simp_all

lemma f64_add_commute: "f64_add x y = f64_add y x"
  by (cases x; cases y) (auto simp: f64_add_def add.commute)

lemma f64_mul_commute: "f64_mul x y = f64_mul y x"
  by (cases x; cases y)
    (auto simp: f64_mul_def mult.commute Let_def intro!: arg_cong2 [where f = round_f64])

lemma f64_finite_neg [simp]: "f64_is_finite (f64_neg x) = f64_is_finite x"
  by (cases x) simp_all

lemma f64_to_i64_in [simp]: "in_i64 (f64_to_i64 x)"
  by (cases x) (simp_all add: in_i64_def sat_i64_def)

end
