(* ===== verification/Json_Value.thy ===== *)
theory Json_Value
  imports Rust_Str F64
begin

text \<open>
  \<open>serde_json::Value\<close>. Objects are \<open>BTreeMap\<close>s, so association lists in key order. With the
  feature \<open>arbitrary_precision\<close>, which \<open>rvx-core\<close> enables, a number is its decimal token; how
  a token is classified and converted is library code and enters the model through
  \<open>number_ext\<close>, an argument of the definitions that look at numbers.
\<close>

datatype json =
    JNull
  | JBool bool
  | JNumber string
  | JString string
  | JArray "json list"
  | JObject "(string \<times> json) list"

record number_ext =
  num_is_i64 :: "string \<Rightarrow> bool"
  num_is_u64 :: "string \<Rightarrow> bool"
  num_is_f64 :: "string \<Rightarrow> bool"
  num_as_f64 :: "string \<Rightarrow> f64 option"
  num_of_f64 :: "f64 \<Rightarrow> json"

fun is_object :: "json \<Rightarrow> bool" where
  "is_object (JObject _) = True"
| "is_object _ = False"

fun as_object :: "json \<Rightarrow> (string \<times> json) list option" where
  "as_object (JObject kvs) = Some kvs"
| "as_object _ = None"

fun as_str :: "json \<Rightarrow> string option" where
  "as_str (JString s) = Some s"
| "as_str _ = None"

fun is_null :: "json \<Rightarrow> bool" where
  "is_null JNull = True"
| "is_null _ = False"

fun as_f64 :: "number_ext \<Rightarrow> json \<Rightarrow> f64 option" where
  "as_f64 N (JNumber t) = num_as_f64 N t"
| "as_f64 N _ = None"

text \<open>\<open>Value::get\<close> with a string key: the member of an object, \<open>None\<close> for any other value.\<close>

fun json_get :: "json \<Rightarrow> string \<Rightarrow> json option" where
  "json_get (JObject kvs) k = map_of kvs k"
| "json_get _ k = None"

fun json_children :: "json \<Rightarrow> json list" where
  "json_children (JArray vs) = vs"
| "json_children (JObject kvs) = map snd kvs"
| "json_children _ = []"

section \<open>Measures of a tree\<close>

lemma json_children_size: "c \<in> set (json_children v) \<Longrightarrow> size c < size v"
proof (cases v)
  case (JObject kvs)
  assume "c \<in> set (json_children v)"
  with JObject obtain k where "(k, c) \<in> set kvs" by auto
  then have "size c < size_list (size_prod (\<lambda>_. 0) size) kvs"
    by (induction kvs) auto
  with JObject show ?thesis by (simp add: prod.size_gen_o_map)
next
  case (JArray vs)
  assume "c \<in> set (json_children v)"
  with JArray show ?thesis using size_list_estimation' [of c vs "size c" size] by simp
qed simp_all

text \<open>The number of nodes and the height (levels of nesting below the root) of a value.\<close>

function json_nodes :: "json \<Rightarrow> nat" where
  "json_nodes v = Suc (sum_list (map json_nodes (json_children v)))"
  by pat_completeness auto
termination
  by (relation "measure size") (auto dest: json_children_size)

function json_height :: "json \<Rightarrow> nat" where
  "json_height v = foldr max (map (\<lambda>c. Suc (json_height c)) (json_children v)) 0"
  by pat_completeness auto
termination
  by (relation "measure size") (auto dest: json_children_size)

text \<open>All the values of a tree, the root first.\<close>

function json_subvalues :: "json \<Rightarrow> json list" where
  "json_subvalues v = v # concat (map json_subvalues (json_children v))"
  by pat_completeness auto
termination
  by (relation "measure size") (auto dest: json_children_size)

declare json_nodes.simps [simp del] json_height.simps [simp del] json_subvalues.simps [simp del]

lemma json_nodes_simps [simp]:
  "json_nodes JNull = 1" "json_nodes (JBool b) = 1" "json_nodes (JNumber t) = 1"
  "json_nodes (JString t) = 1"
  "json_nodes (JArray vs) = Suc (sum_list (map json_nodes vs))"
  "json_nodes (JObject kvs) = Suc (sum_list (map (json_nodes \<circ> snd) kvs))"
  by (simp_all add: json_nodes.simps [of "JNull"] json_nodes.simps [of "JBool b"]
      json_nodes.simps [of "JNumber t"] json_nodes.simps [of "JString t"]
      json_nodes.simps [of "JArray vs"] json_nodes.simps [of "JObject kvs"])

lemma foldr_max_le: "foldr max xs (0::nat) \<le> b \<longleftrightarrow> (\<forall>x \<in> set xs. x \<le> b)"
  by (induction xs) auto

lemma json_height_le:
  "json_height v \<le> b \<longleftrightarrow> (\<forall>c \<in> set (json_children v). Suc (json_height c) \<le> b)"
  by (subst json_height.simps) (simp add: foldr_max_le)

lemma json_subvalues_iff:
  "w \<in> set (json_subvalues v) \<longleftrightarrow> w = v \<or> (\<exists>c \<in> set (json_children v). w \<in> set (json_subvalues c))"
  by (subst json_subvalues.simps) simp

lemma json_nodes_pos [simp]: "0 < json_nodes v"
  by (subst json_nodes.simps) simp

lemma length_json_subvalues: "length (json_subvalues v) = json_nodes v"
proof (induction v rule: json_nodes.induct)
  case (1 v)
  then have "map (length \<circ> json_subvalues) (json_children v) = map json_nodes (json_children v)"
    by simp
  then show ?case
    by (subst json_subvalues.simps, subst json_nodes.simps)
      (simp only: length_concat map_map list.size)
qed

end
