(* ===== verification/Core_Snapshots.thy ===== *)
theory Core_Snapshots
  imports Json_Value
begin

text \<open>
  \<open>rvx-core\<close>: the snapshot protocol (\<open>rust/rvx-core/src/snapshots.rs\<close>), the tracker record header
  (\<open>tracker.rs\<close>) and the shared validators (\<open>lib.rs\<close>). Data types are records and datatypes with
  the source's fields; every validator is a function into \<open>protocol_error + unit\<close> with the
  checks in the source's order.

  The serializer is library code. \<open>serde_ext\<close> collects what the protocol code calls of it, and
  every definition that serializes takes it as an argument.
\<close>

subsection \<open>Errors, limits\<close>

datatype protocol_error =
    Empty string
  | UnsupportedVersion nat
  | TooManyAxes
  | SessionMismatch
  | NonIncreasingSequence
  | InvalidNextSequence
  | InvalidSnapshot string

text \<open>The \<open>Display\<close> text of the errors.\<close>

fun protocol_error_text :: "protocol_error \<Rightarrow> string" where
  "protocol_error_text (Empty field) = field @ '' must not be empty''"
| "protocol_error_text (UnsupportedVersion v) = ''unsupported protocol version '' @ show_nat v"
| "protocol_error_text TooManyAxes = ''snapshot contains too many logical axes''"
| "protocol_error_text SessionMismatch =
     ''snapshot session does not match the response session''"
| "protocol_error_text NonIncreasingSequence =
     ''snapshot sequence must be strictly increasing within a batch''"
| "protocol_error_text InvalidNextSequence =
     ''next_sequence must be greater than every returned sequence''"
| "protocol_error_text (InvalidSnapshot m) = ''invalid snapshot: '' @ m"

abbreviation (input) PROTOCOL_VERSION :: nat where "PROTOCOL_VERSION \<equiv> 1"
abbreviation (input) MAX_SNAPSHOT_AXES :: nat where "MAX_SNAPSHOT_AXES \<equiv> 64"
abbreviation (input) SNAPSHOT_SCHEMA_VERSION :: nat where "SNAPSHOT_SCHEMA_VERSION \<equiv> 1"
abbreviation (input) MAX_SNAPSHOT_BYTES :: nat where "MAX_SNAPSHOT_BYTES \<equiv> 4194304"
abbreviation (input) MAX_SNAPSHOT_PAGE_BYTES :: nat where "MAX_SNAPSHOT_PAGE_BYTES \<equiv> 16777216"
abbreviation (input) MAX_SNAPSHOT_DEPTH :: nat where "MAX_SNAPSHOT_DEPTH \<equiv> 64"
abbreviation (input) MAX_SNAPSHOT_NODES :: nat where "MAX_SNAPSHOT_NODES \<equiv> 100000"
abbreviation (input) DEFAULT_SNAPSHOT_HISTORY_LIMIT :: nat where "DEFAULT_SNAPSHOT_HISTORY_LIMIT \<equiv> 64"
abbreviation (input) MAX_SNAPSHOT_HISTORY_LIMIT :: nat where "MAX_SNAPSHOT_HISTORY_LIMIT \<equiv> 256"
abbreviation (input) TRACKER_RECORD_VERSION :: nat where "TRACKER_RECORD_VERSION \<equiv> 1"

subsection \<open>Data\<close>

record snapshot_descriptor =
  d_protocol_version :: nat
  d_source_session_id :: string
  d_project :: string
  d_experiment :: string
  d_run_id :: string
  d_attempt_id :: string
  d_role :: string
  d_rank :: "int option"
  d_node_id :: "string option"
  d_pid :: "nat option"
  d_labels :: "(string, string) bmap"
  d_schema_version :: nat

record state_snapshot =
  s_source_session_id :: string
  s_sequence :: nat
  s_observed_at_ns :: int
  s_schema_version :: nat
  s_axes :: "(string, int) bmap"
  s_state :: json

record snapshot_history_response =
  h_protocol_version :: nat
  h_source_session_id :: string
  h_oldest_sequence :: nat
  h_next_sequence :: nat
  h_dropped_before :: "nat option"
  h_snapshots :: "state_snapshot list"

datatype tracker_record_kind = Observation | Event

record tracker_header =
  th_record_version :: nat
  th_kind :: tracker_record_kind
  th_step :: int
  th_status :: string
  th_commit :: nat
  th_nonfinite :: "string list"

record serde_ext = number_ext +
  to_vec_snapshot :: "state_snapshot \<Rightarrow> string + string"
  from_str_snapshot :: "string \<Rightarrow> string + state_snapshot"
  to_vec_page :: "snapshot_history_response \<Rightarrow> string + string"
  from_value_header :: "json \<Rightarrow> string + tracker_header"

subsection \<open>Validators\<close>

definition validate_name :: "string \<Rightarrow> string \<Rightarrow> protocol_error + unit" where
  "validate_name field value = ensure (\<not> blank value) (Empty field)"

definition tracker_header :: "serde_ext \<Rightarrow> json \<Rightarrow> protocol_error + tracker_header option" where
  "tracker_header X state =
     (case json_get state ''tracker'' of
        None \<Rightarrow> Inr None
      | Some v \<Rightarrow>
          (if json_get v ''record_version'' = None then Inr None
           else rbind (map_err (\<lambda>e. InvalidSnapshot (''invalid tracker header: '' @ e))
                         (from_value_header X v))
             (\<lambda>header.
                if th_record_version header \<noteq> TRACKER_RECORD_VERSION \<or> th_step header < 0
                then Inl (InvalidSnapshot ''unsupported tracker record version or step'')
                else Inr (Some header))))"

definition is_tracker_event :: "serde_ext \<Rightarrow> json \<Rightarrow> protocol_error + bool" where
  "is_tracker_event X state =
     rbind (tracker_header X state)
       (\<lambda>h. Inr (case h of None \<Rightarrow> False | Some h \<Rightarrow> th_kind h = Event))"

definition validate_snapshot_descriptor :: "snapshot_descriptor \<Rightarrow> protocol_error + unit" where
  "validate_snapshot_descriptor descriptor =
     rbind (ensure (d_protocol_version descriptor = PROTOCOL_VERSION)
              (UnsupportedVersion (d_protocol_version descriptor))) (\<lambda>_.
     rbind (ensure (d_schema_version descriptor = SNAPSHOT_SCHEMA_VERSION)
              (InvalidSnapshot ''unsupported schema_version'')) (\<lambda>_.
     for_each (\<lambda>(field, value).
         rbind (validate_name field value) (\<lambda>_.
         ensure (length value \<le> 4096)
           (InvalidSnapshot ''descriptor identifier exceeds 4096 bytes'')))
       [(''source_session_id'', d_source_session_id descriptor),
        (''project'', d_project descriptor),
        (''experiment'', d_experiment descriptor),
        (''run_id'', d_run_id descriptor),
        (''attempt_id'', d_attempt_id descriptor),
        (''role'', d_role descriptor)]))"

definition number_ok :: "('z) number_ext_scheme \<Rightarrow> string \<Rightarrow> bool" where
  "number_ok N t \<longleftrightarrow>
     num_is_i64 N t \<or> num_is_u64 N t
     \<or> (num_is_f64 N t \<and> (case num_as_f64 N t of None \<Rightarrow> False | Some x \<Rightarrow> f64_is_finite x))"

text \<open>
  The traversal of \<open>validate_state_snapshot\<close>: an explicit stack of (value, depth), its top first;
  \<open>nodes\<close> counts the values popped so far.
\<close>

function walk_state ::
  "('z) number_ext_scheme \<Rightarrow> (json \<times> nat) list \<Rightarrow> nat \<Rightarrow> protocol_error + unit" where
  "walk_state N [] nodes = Inr ()"
| "walk_state N ((value, depth) # stack) nodes =
     (if MAX_SNAPSHOT_NODES < nodes + 1
      then Inl (InvalidSnapshot ''state exceeds 100000 JSON nodes'')
      else if MAX_SNAPSHOT_DEPTH < depth
      then Inl (InvalidSnapshot ''JSON nesting exceeds 64 levels'')
      else (case value of
          JObject m \<Rightarrow> walk_state N (rev (map (\<lambda>(k, v). (v, depth + 1)) m) @ stack) (nodes + 1)
        | JArray a \<Rightarrow> walk_state N (rev (map (\<lambda>v. (v, depth + 1)) a) @ stack) (nodes + 1)
        | JNumber number \<Rightarrow>
            (if \<not> number_ok N number
             then Inl (InvalidSnapshot
               ''state numbers must be signed/unsigned 64-bit integers or finite floats'')
             else walk_state N stack (nodes + 1))
        | _ \<Rightarrow> walk_state N stack (nodes + 1)))"
  by pat_completeness auto
termination
  by (relation "measure (\<lambda>(N, stack, nodes). sum_list (map (json_nodes \<circ> fst) stack))")
    (auto simp: sum_list_rev rev_map [symmetric] comp_def case_prod_beta)

definition validate_state_snapshot :: "serde_ext \<Rightarrow> state_snapshot \<Rightarrow> protocol_error + unit" where
  "validate_state_snapshot X snapshot =
     rbind (tracker_header X (s_state snapshot)) (\<lambda>_.
     rbind (validate_name ''source_session_id'' (s_source_session_id snapshot)) (\<lambda>_.
     rbind (ensure (length (s_source_session_id snapshot) \<le> 4096)
              (InvalidSnapshot ''session identifier exceeds 4096 bytes'')) (\<lambda>_.
     rbind (ensure (s_schema_version snapshot = SNAPSHOT_SCHEMA_VERSION
                    \<and> is_object (s_state snapshot))
              (InvalidSnapshot ''schema_version must be 1 and state must be an object'')) (\<lambda>_.
     rbind (ensure (s_sequence snapshot < i64_max_u)
              (InvalidSnapshot ''sequence exceeds durable cursor range'')) (\<lambda>_.
     rbind (ensure (length (s_axes snapshot) \<le> MAX_SNAPSHOT_AXES) TooManyAxes) (\<lambda>_.
     rbind (walk_state X [(s_state snapshot, 0)] 0) (\<lambda>_.
     rbind (map_err InvalidSnapshot (to_vec_snapshot X snapshot)) (\<lambda>bytes.
     ensure (length bytes \<le> MAX_SNAPSHOT_BYTES) (InvalidSnapshot ''snapshot exceeds 4 MiB'')))))))))"

text \<open>The loop body over the page's snapshots; the running value is \<open>prior\<close>.\<close>

definition check_page_snapshot ::
  "serde_ext \<Rightarrow> snapshot_history_response \<Rightarrow> nat option \<Rightarrow> state_snapshot
   \<Rightarrow> protocol_error + nat option" where
  "check_page_snapshot X response prior snapshot =
     rbind (validate_state_snapshot X snapshot) (\<lambda>_.
     rbind (ensure (s_source_session_id snapshot = h_source_session_id response) SessionMismatch) (\<lambda>_.
     rbind (ensure (\<not> (s_sequence snapshot < h_oldest_sequence response
                       \<or> (case prior of None \<Rightarrow> False | Some n \<Rightarrow> s_sequence snapshot \<noteq> n + 1)))
              NonIncreasingSequence) (\<lambda>_.
     Inr (Some (s_sequence snapshot)))))"

definition validate_snapshot_history_response ::
  "serde_ext \<Rightarrow> snapshot_history_response \<Rightarrow> protocol_error + unit" where
  "validate_snapshot_history_response X response =
     rbind (ensure (h_protocol_version response = PROTOCOL_VERSION)
              (UnsupportedVersion (h_protocol_version response))) (\<lambda>_.
     rbind (validate_name ''source_session_id'' (h_source_session_id response)) (\<lambda>_.
     rbind (ensure (length (h_snapshots response) \<le> MAX_SNAPSHOT_HISTORY_LIMIT)
              (InvalidSnapshot ''history page exceeds 256 snapshots'')) (\<lambda>_.
     rbind (ensure (\<not> (h_next_sequence response < h_oldest_sequence response
                       \<or> i64_max_u < h_next_sequence response)) InvalidNextSequence) (\<lambda>_.
     rbind (ensure (\<not> (case h_dropped_before response of None \<Rightarrow> False
                        | Some n \<Rightarrow> n \<noteq> h_oldest_sequence response))
              (InvalidSnapshot ''dropped_before must equal oldest_sequence'')) (\<lambda>_.
     rbind (try_fold (check_page_snapshot X response) None (h_snapshots response)) (\<lambda>prior.
     rbind (ensure (\<not> (case prior of None \<Rightarrow> False
                        | Some n \<Rightarrow> h_next_sequence response \<noteq> n + 1)) InvalidNextSequence) (\<lambda>_.
     rbind (map_err InvalidSnapshot (to_vec_page X response)) (\<lambda>bytes.
     ensure (length bytes \<le> MAX_SNAPSHOT_PAGE_BYTES)
       (InvalidSnapshot ''history page exceeds 16 MiB'')))))))))"

fun pointer_escapes_ok :: "string \<Rightarrow> bool" where
  "pointer_escapes_ok [] = True"
| "pointer_escapes_ok (ch # chars) =
     (if ch = CHR ''~''
      then (case chars of [] \<Rightarrow> False
            | c # rest \<Rightarrow> (c = CHR ''0'' \<or> c = CHR ''1'') \<and> pointer_escapes_ok rest)
      else pointer_escapes_ok chars)"

definition validate_snapshot_pointer :: "string \<Rightarrow> protocol_error + unit" where
  "validate_snapshot_pointer path =
     rbind (ensure (\<not> (4096 < length path \<or> (path \<noteq> [] \<and> \<not> starts_with ''/'' path)))
              (InvalidSnapshot ''field path must be an RFC 6901 JSON pointer'')) (\<lambda>_.
     ensure (pointer_escapes_ok path) (InvalidSnapshot ''invalid JSON pointer escape''))"

section \<open>What the validators accept\<close>

text \<open>The reference reading of the traversal's limits, on the tree itself.\<close>

definition number_leaf_ok :: "('z) number_ext_scheme \<Rightarrow> json \<Rightarrow> bool" where
  "number_leaf_ok N v = (case v of JNumber t \<Rightarrow> number_ok N t | _ \<Rightarrow> True)"

definition state_tree_ok :: "('z) number_ext_scheme \<Rightarrow> json \<Rightarrow> bool" where
  "state_tree_ok N v \<longleftrightarrow>
     json_nodes v \<le> MAX_SNAPSHOT_NODES \<and> json_height v \<le> MAX_SNAPSHOT_DEPTH
     \<and> list_all (number_leaf_ok N) (json_subvalues v)"

definition entry_ok :: "('z) number_ext_scheme \<Rightarrow> json \<times> nat \<Rightarrow> bool" where
  "entry_ok N e \<longleftrightarrow>
     snd e + json_height (fst e) \<le> MAX_SNAPSHOT_DEPTH
     \<and> list_all (number_leaf_ok N) (json_subvalues (fst e))"

lemma entry_ok_unfold:
  "entry_ok N (v, d) \<longleftrightarrow>
     d \<le> MAX_SNAPSHOT_DEPTH \<and> number_leaf_ok N v
     \<and> (\<forall>c \<in> set (json_children v). entry_ok N (c, d + 1))"
proof -
  have h: "d + json_height v \<le> b \<longleftrightarrow>
      d \<le> b \<and> (\<forall>c \<in> set (json_children v). d + 1 + json_height c \<le> b)" for b
    using json_height_le [of v "b - d"] by (cases "d \<le> b") (auto simp: le_diff_conv2)
  show ?thesis
    unfolding entry_ok_def fst_conv snd_conv h list_all_iff
    by (subst (1) json_subvalues.simps) auto
qed

lemma entry_ok_simps:
  "entry_ok N (JNull, d) \<longleftrightarrow> d \<le> MAX_SNAPSHOT_DEPTH"
  "entry_ok N (JBool b, d) \<longleftrightarrow> d \<le> MAX_SNAPSHOT_DEPTH"
  "entry_ok N (JString t, d) \<longleftrightarrow> d \<le> MAX_SNAPSHOT_DEPTH"
  "entry_ok N (JNumber t, d) \<longleftrightarrow> d \<le> MAX_SNAPSHOT_DEPTH \<and> number_ok N t"
  "entry_ok N (JArray vs, d) \<longleftrightarrow>
     d \<le> MAX_SNAPSHOT_DEPTH \<and> (\<forall>c \<in> set vs. entry_ok N (c, Suc d))"
  "entry_ok N (JObject kvs, d) \<longleftrightarrow>
     d \<le> MAX_SNAPSHOT_DEPTH \<and> (\<forall>kv \<in> set kvs. entry_ok N (snd kv, Suc d))"
  by (subst entry_ok_unfold, force simp: number_leaf_ok_def)+

lemma walk_state_iff:
  "nodes \<le> MAX_SNAPSHOT_NODES \<Longrightarrow>
   walk_state N stack nodes = Inr u \<longleftrightarrow>
     nodes + sum_list (map (json_nodes \<circ> fst) stack) \<le> MAX_SNAPSHOT_NODES
     \<and> (\<forall>e \<in> set stack. entry_ok N e)"
proof (induction N stack nodes rule: walk_state.induct)
  case (1 N nodes)
  then show ?case by simp
next
  case (2 N v depth stack nodes)
  show ?case
  proof (cases "MAX_SNAPSHOT_NODES < nodes + 1 \<or> MAX_SNAPSHOT_DEPTH < depth")
    case True
    have "1 \<le> json_nodes v" using json_nodes_pos [of v] by linarith
    with True show ?thesis by (auto simp: entry_ok_unfold [of N v depth])
  next
    case False
    then show ?thesis
      using 2 by (cases v)
        (auto simp: entry_ok_simps sum_list_rev rev_map [symmetric] comp_def case_prod_beta)
  qed
qed

lemma walk_state_root: "walk_state N [(v, 0)] 0 = Inr u \<longleftrightarrow> state_tree_ok N v"
  using walk_state_iff [of 0 N "[(v, 0)]" u]
  by (simp add: state_tree_ok_def entry_ok_def del: walk_state.simps)

declare walk_state.simps [simp del]

text \<open>A snapshot the protocol accepts.\<close>

definition snapshot_accepted :: "serde_ext \<Rightarrow> state_snapshot \<Rightarrow> bool" where
  "snapshot_accepted X s \<longleftrightarrow>
     is_ok (tracker_header X (s_state s))
     \<and> \<not> blank (s_source_session_id s) \<and> length (s_source_session_id s) \<le> 4096
     \<and> s_schema_version s = 1 \<and> is_object (s_state s)
     \<and> s_sequence s < i64_max_u \<and> length (s_axes s) \<le> 64
     \<and> state_tree_ok X (s_state s)
     \<and> (\<exists>bytes. to_vec_snapshot X s = Inr bytes \<and> length bytes \<le> MAX_SNAPSHOT_BYTES)"

lemma validate_state_snapshot_iff: "validate_state_snapshot X s = Inr u \<longleftrightarrow> snapshot_accepted X s"
  by (auto simp: validate_state_snapshot_def snapshot_accepted_def result_iffs validate_name_def
      walk_state_root is_ok_iff)

subsection \<open>Pages\<close>

text \<open>The sequence numbers \<open>ns\<close> continue \<open>prior\<close> without a hole.\<close>

fun seq_chain :: "nat option \<Rightarrow> nat list \<Rightarrow> bool" where
  "seq_chain prior [] = True"
| "seq_chain None (n # ns) = seq_chain (Some n) ns"
| "seq_chain (Some p) (n # ns) = (n = p + 1 \<and> seq_chain (Some n) ns)"

lemma upt_Suc_length: "[n..<n + length (m # ms)] = n # [Suc n..<Suc n + length ms]"
proof -
  have "n < n + length (m # ms)" by simp
  then show ?thesis by (subst upt_conv_Cons) (simp_all only: list.size add_Suc_right add_Suc add_0_right)
qed

lemma seq_chain_Some: "seq_chain (Some p) ns \<longleftrightarrow> ns = [Suc p..<Suc p + length ns]"
proof (induction ns arbitrary: p)
  case Nil
  then show ?case by simp
next
  case (Cons n ns)
  show ?case
    unfolding upt_Suc_length using Cons [of n] by auto
qed

lemma seq_chain_None:
  "seq_chain None ns \<longleftrightarrow> ns = [] \<or> ns = [hd ns..<hd ns + length ns]"
proof (cases ns)
  case (Cons n ms)
  then show ?thesis
    unfolding Cons upt_Suc_length list.sel using seq_chain_Some [of n ms] by auto
qed simp

lemma check_page_fold:
  "try_fold (check_page_snapshot X r) prior ss = Inr p \<longleftrightarrow>
     (\<forall>s \<in> set ss. snapshot_accepted X s \<and> s_source_session_id s = h_source_session_id r
                   \<and> h_oldest_sequence r \<le> s_sequence s)
     \<and> seq_chain prior (map s_sequence ss)
     \<and> p = (if ss = [] then prior else Some (s_sequence (last ss)))"
proof (induction ss arbitrary: prior)
  case Nil
  then show ?case by auto
next
  case (Cons s ss)
  have step: "check_page_snapshot X r prior s = Inr t \<longleftrightarrow>
      snapshot_accepted X s \<and> s_source_session_id s = h_source_session_id r
      \<and> h_oldest_sequence r \<le> s_sequence s
      \<and> (case prior of None \<Rightarrow> True | Some n \<Rightarrow> s_sequence s = n + 1)
      \<and> t = Some (s_sequence s)" for t
    by (auto simp: check_page_snapshot_def result_iffs validate_state_snapshot_iff not_less
        split: option.splits)
  show ?case
    by (simp add: rbind_eq_Inr step Cons.IH) (cases prior; auto)
qed

definition page_accepted :: "serde_ext \<Rightarrow> snapshot_history_response \<Rightarrow> bool" where
  "page_accepted X r \<longleftrightarrow>
     h_protocol_version r = 1 \<and> \<not> blank (h_source_session_id r)
     \<and> length (h_snapshots r) \<le> 256
     \<and> h_oldest_sequence r \<le> h_next_sequence r \<and> h_next_sequence r \<le> i64_max_u
     \<and> h_dropped_before r \<in> {None, Some (h_oldest_sequence r)}
     \<and> (\<forall>s \<in> set (h_snapshots r).
           snapshot_accepted X s \<and> s_source_session_id s = h_source_session_id r)
     \<and> (h_snapshots r \<noteq> [] \<longrightarrow>
           h_oldest_sequence r + length (h_snapshots r) \<le> h_next_sequence r
           \<and> map s_sequence (h_snapshots r)
               = [h_next_sequence r - length (h_snapshots r)..<h_next_sequence r])
     \<and> (\<exists>bytes. to_vec_page X r = Inr bytes \<and> length bytes \<le> MAX_SNAPSHOT_PAGE_BYTES)"

lemma chain_to_next:
  assumes "ss \<noteq> []"
  shows "(\<forall>s \<in> set ss. oldest \<le> s_sequence s) \<and> seq_chain None (map s_sequence ss)
           \<and> nxt = s_sequence (last ss) + 1
         \<longleftrightarrow> oldest + length ss \<le> nxt \<and> map s_sequence ss = [nxt - length ss..<nxt]"
proof -
  define ns where "ns = map s_sequence ss"
  have ne: "ns \<noteq> []" and len: "length ns = length ss" and lst: "s_sequence (last ss) = last ns"
    and all: "(\<forall>s \<in> set ss. oldest \<le> s_sequence s) \<longleftrightarrow> (\<forall>n \<in> set ns. oldest \<le> n)"
    using assms by (auto simp: ns_def last_map)
  have pos: "0 < length ns" using ne by simp
  show ?thesis
    unfolding all lst ns_def [symmetric] len [symmetric]
  proof
    assume l: "(\<forall>n \<in> set ns. oldest \<le> n) \<and> seq_chain None ns \<and> nxt = last ns + 1"
    then have ns: "ns = [hd ns..<hd ns + length ns]"
      using ne seq_chain_None by blast
    have "last [hd ns..<hd ns + length ns] = hd ns + length ns - 1"
      using pos by (intro last_upt) linarith
    then have "nxt = hd ns + length ns" using l pos ns by simp
    moreover have "oldest \<le> hd ns" using l ne by simp
    ultimately show "oldest + length ns \<le> nxt \<and> ns = [nxt - length ns..<nxt]"
      using ns by simp
  next
    assume r: "oldest + length ns \<le> nxt \<and> ns = [nxt - length ns..<nxt]"
    then have lt: "nxt - length ns < nxt" using pos by linarith
    then have hd: "hd ns = nxt - length ns" and la: "last ns = nxt - 1"
      using r hd_upt [OF lt] last_upt [OF lt] by simp_all
    have "hd ns + length ns = nxt" using r hd by linarith
    then have "seq_chain None ns" using r hd seq_chain_None [of ns] by simp
    moreover have "nxt = last ns + 1" using la lt by linarith
    moreover have "\<forall>n \<in> set ns. oldest \<le> n"
    proof
      fix n
      assume "n \<in> set ns"
      moreover have "set ns = {nxt - length ns..<nxt}"
        using r set_upt [of "nxt - length ns" nxt] by metis
      ultimately have "nxt - length ns \<le> n" by auto
      with r show "oldest \<le> n" by linarith
    qed
    ultimately show "(\<forall>n \<in> set ns. oldest \<le> n) \<and> seq_chain None ns \<and> nxt = last ns + 1"
      by blast
  qed
qed

lemma validate_history_response_iff:
  "validate_snapshot_history_response X r = Inr u \<longleftrightarrow> page_accepted X r"
proof (cases "h_snapshots r = []")
  case True
  then show ?thesis
    by (auto simp: validate_snapshot_history_response_def page_accepted_def result_iffs
        validate_name_def not_less split: option.splits)
next
  case False
  have next_cases: "\<not> (case Some m of None \<Rightarrow> False | Some n \<Rightarrow> h_next_sequence r \<noteq> n + 1)
      \<longleftrightarrow> h_next_sequence r = m + 1" for m by simp
  have "validate_snapshot_history_response X r = Inr u \<longleftrightarrow>
      h_protocol_version r = 1 \<and> \<not> blank (h_source_session_id r)
      \<and> length (h_snapshots r) \<le> 256
      \<and> h_oldest_sequence r \<le> h_next_sequence r \<and> h_next_sequence r \<le> i64_max_u
      \<and> h_dropped_before r \<in> {None, Some (h_oldest_sequence r)}
      \<and> (\<forall>s \<in> set (h_snapshots r).
            snapshot_accepted X s \<and> s_source_session_id s = h_source_session_id r)
      \<and> ((\<forall>s \<in> set (h_snapshots r). h_oldest_sequence r \<le> s_sequence s)
          \<and> seq_chain None (map s_sequence (h_snapshots r))
          \<and> h_next_sequence r = s_sequence (last (h_snapshots r)) + 1)
      \<and> (\<exists>bytes. to_vec_page X r = Inr bytes \<and> length bytes \<le> MAX_SNAPSHOT_PAGE_BYTES)"
    using False
    by (auto simp: validate_snapshot_history_response_def result_iffs validate_name_def not_less
        check_page_fold split: option.splits)
  then show ?thesis
    unfolding chain_to_next [OF False] page_accepted_def using False by blast
qed

end
