(* ===== verification/Engine_Types.thy ===== *)
theory Engine_Types
  imports Core_Snapshots
begin

text \<open>
  Types shared by the engine's components: the error type (\<open>rvx-engine/src/lib.rs\<close>) and the
  metadata entities of \<open>rvx-core/src/lib.rs\<close>.
\<close>

datatype engine_error =
    AuthSessionUnavailable
  | UiConflict string json
  | UiBootstrap string
  | EngineInvalid string
  | Protocol protocol_error
  | Sqlite string
  | Io string
  | Json string
  | Http string
  | Runtime string

datatype run_status = Created | Running | Finished | Failed | Cancelled

datatype source_state = Discovered | Active | Stale | Draining | Ended | Lost

record source =
  src_id :: string
  src_run_id :: string
  src_attempt_id :: string
  src_role :: string
  src_endpoint :: string
  src_node_id :: "string option"
  src_rank :: "int option"
  src_state :: source_state
  src_session_id :: "string option"
  src_last_success_at_ns :: "int option"
  src_last_error :: "string option"
  src_scrape_interval_ms :: nat
  src_timeout_ms :: nat
  src_descriptor :: "json option"

record project =
  pj_id :: string
  pj_name :: string
  pj_created_at_ns :: int

record experiment_entity =
  ex_id :: string
  ex_project_id :: string
  ex_name :: string
  ex_created_at_ns :: int

record run =
  rn_id :: string
  rn_experiment_id :: string
  rn_name :: string
  rn_status :: run_status
  rn_config_json :: string
  rn_created_at_ns :: int
  rn_updated_at_ns :: int

record source_registration =
  sg_run_id :: string
  sg_attempt_id :: string
  sg_role :: string
  sg_endpoint :: string
  sg_node_id :: "string option"
  sg_rank :: "int option"
  sg_scrape_interval_ms :: nat
  sg_timeout_ms :: nat

end
