(* ===== verification/Repository.thy ===== *)
theory Repository
  imports Engine_Types "HOL-Library.Product_Lexorder" "HOL-Library.Option_ord"
begin

text \<open>
  The metadata repository (\<open>rust/rvx-engine/src/repository.rs\<close>): projects, experiments, runs and
  sources in an SQLite database.

  A table is the list of its rows in insertion order; the status columns hold text, as in the
  schema. Every statement of a transaction is a function on the database, an error leaves the
  transaction without a new database (roll-back). What is not in this repository is an argument:
  \<open>serde_json\<close> and the \<open>Debug\<close> rendering of strings in messages, whether SQLite enforces foreign
  keys, and per call the identifiers drawn by \<open>new_id\<close> and the clock. Rows that \<open>ORDER BY\<close> does
  not distinguish come in insertion order.
\<close>

record repo_env =
  parse_json :: "string \<Rightarrow> string + json"
  print_json :: "json \<Rightarrow> string + string"
  print_descriptor :: "snapshot_descriptor \<Rightarrow> string + string"
  debug_str :: "string \<Rightarrow> string"
  foreign_keys :: bool

subsection \<open>Status columns\<close>

fun valid_run_transition :: "run_status \<Rightarrow> run_status \<Rightarrow> bool" where
  "valid_run_transition current target \<longleftrightarrow> current = target
     \<or> (case current of
          Created \<Rightarrow> target \<in> {Running, Finished, Failed, Cancelled}
        | Running \<Rightarrow> target \<in> {Finished, Failed, Cancelled}
        | _ \<Rightarrow> False)"

fun valid_source_transition :: "source_state \<Rightarrow> source_state \<Rightarrow> bool" where
  "valid_source_transition current target \<longleftrightarrow> current = target
     \<or> (case current of
          Discovered \<Rightarrow> target \<in> {Draining, Ended, Lost}
        | Active \<Rightarrow> target \<in> {Draining, Ended, Lost}
        | Stale \<Rightarrow> target \<in> {Draining, Ended, Lost}
        | Draining \<Rightarrow> target \<in> {Ended, Lost}
        | _ \<Rightarrow> False)"

fun status_text :: "run_status \<Rightarrow> string" where
  "status_text Created = ''created''"
| "status_text Running = ''running''"
| "status_text Finished = ''finished''"
| "status_text Failed = ''failed''"
| "status_text Cancelled = ''cancelled''"

definition parse_run_status :: "string \<Rightarrow> run_status" where
  "parse_run_status value =
     (if value = ''running'' then Running
      else if value = ''finished'' then Finished
      else if value = ''failed'' then Failed
      else if value = ''cancelled'' then Cancelled
      else Created)"

fun source_state_text :: "source_state \<Rightarrow> string" where
  "source_state_text Discovered = ''discovered''"
| "source_state_text Active = ''active''"
| "source_state_text Stale = ''stale''"
| "source_state_text Draining = ''draining''"
| "source_state_text Ended = ''ended''"
| "source_state_text Lost = ''lost''"

definition parse_source_state :: "string \<Rightarrow> source_state" where
  "parse_source_state value =
     (if value = ''active'' then Active
      else if value = ''stale'' then Stale
      else if value = ''draining'' then Draining
      else if value = ''ended'' then Ended
      else if value = ''lost'' then Lost
      else Discovered)"

subsection \<open>Tables\<close>

record run_row =
  rr_id :: string
  rr_experiment_id :: string
  rr_name :: string
  rr_status :: string
  rr_config_json :: string
  rr_created_at_ns :: int
  rr_updated_at_ns :: int

record source_row =
  sr_id :: string
  sr_run_id :: string
  sr_attempt_id :: string
  sr_role :: string
  sr_endpoint :: string
  sr_node_id :: "string option"
  sr_rank :: "int option"
  sr_state :: string
  sr_session_id :: "string option"
  sr_last_success_at_ns :: "int option"
  sr_last_error :: "string option"
  sr_scrape_interval_ms :: int
  sr_timeout_ms :: int

record repo =
  rp_projects :: "project list"
  rp_experiments :: "experiment_entity list"
  rp_runs :: "run_row list"
  rp_sources :: "source_row list"
  rp_descriptors :: "(string, string \<times> int) bmap"

record scoped_source =
  sc_source :: source
  sc_project :: string
  sc_experiment :: string

definition empty_repo :: repo where
  "empty_repo = \<lparr>rp_projects = [], rp_experiments = [], rp_runs = [], rp_sources = [], rp_descriptors = []\<rparr>"

definition run_from_row :: "run_row \<Rightarrow> run" where
  "run_from_row r = \<lparr>rn_id = rr_id r, rn_experiment_id = rr_experiment_id r, rn_name = rr_name r,
     rn_status = parse_run_status (rr_status r), rn_config_json = rr_config_json r,
     rn_created_at_ns = rr_created_at_ns r, rn_updated_at_ns = rr_updated_at_ns r\<rparr>"

definition source_from_row :: "repo_env \<Rightarrow> repo \<Rightarrow> source_row \<Rightarrow> engine_error + source" where
  "source_from_row X db s =
     rbind (case bm_get (rp_descriptors db) (sr_id s) of
              None \<Rightarrow> Inr None
            | Some (value, _) \<Rightarrow> rbind (map_err Sqlite (parse_json X value)) (\<lambda>v. Inr (Some v)))
       (\<lambda>descriptor. Inr \<lparr>src_id = sr_id s, src_run_id = sr_run_id s, src_attempt_id = sr_attempt_id s,
          src_role = sr_role s, src_endpoint = sr_endpoint s, src_node_id = sr_node_id s,
          src_rank = sr_rank s, src_state = parse_source_state (sr_state s),
          src_session_id = sr_session_id s, src_last_success_at_ns = sr_last_success_at_ns s,
          src_last_error = sr_last_error s,
          src_scrape_interval_ms = i64_as_u64 (sr_scrape_interval_ms s),
          src_timeout_ms = i64_as_u64 (sr_timeout_ms s), src_descriptor = descriptor\<rparr>)"

subsection \<open>Projects, experiments and runs\<close>

definition require_parent :: "string list \<Rightarrow> string \<Rightarrow> string \<Rightarrow> engine_error + unit" where
  "require_parent table_ids kind key =
     ensure (key \<in> set table_ids) (EngineInvalid (''unknown '' @ kind @ '': '' @ key))"

definition insert_project :: "project \<Rightarrow> repo \<Rightarrow> engine_error + repo" where
  "insert_project p db =
     (if pj_id p \<in> set (map pj_id (rp_projects db))
      then Inl (Sqlite ''UNIQUE constraint failed: projects.id'')
      else if pj_name p \<in> set (map pj_name (rp_projects db))
      then Inl (Sqlite ''UNIQUE constraint failed: projects.name'')
      else Inr (db\<lparr>rp_projects := rp_projects db @ [p]\<rparr>))"

definition insert_experiment :: "experiment_entity \<Rightarrow> repo \<Rightarrow> engine_error + repo" where
  "insert_experiment e db =
     (if ex_id e \<in> set (map ex_id (rp_experiments db))
      then Inl (Sqlite ''UNIQUE constraint failed: experiments.id'')
      else if (ex_project_id e, ex_name e) \<in> set (map (\<lambda>e. (ex_project_id e, ex_name e)) (rp_experiments db))
      then Inl (Sqlite ''UNIQUE constraint failed: experiments.project_id, experiments.name'')
      else Inr (db\<lparr>rp_experiments := rp_experiments db @ [e]\<rparr>))"

definition insert_run :: "run \<Rightarrow> repo \<Rightarrow> engine_error + repo" where
  "insert_run r db =
     (if rn_id r \<in> set (map rr_id (rp_runs db))
      then Inl (Sqlite ''UNIQUE constraint failed: runs.id'')
      else Inr (db\<lparr>rp_runs := rp_runs db @
        [\<lparr>rr_id = rn_id r, rr_experiment_id = rn_experiment_id r, rr_name = rn_name r,
          rr_status = status_text (rn_status r), rr_config_json = rn_config_json r,
          rr_created_at_ns = rn_created_at_ns r, rr_updated_at_ns = rn_updated_at_ns r\<rparr>]\<rparr>))"

text \<open>\<open>INSERT OR IGNORE\<close>: a row that violates a uniqueness constraint is skipped.\<close>

definition or_ignore :: "repo \<Rightarrow> engine_error + repo \<Rightarrow> repo" where
  "or_ignore db m = (case m of Inl _ \<Rightarrow> db | Inr db' \<Rightarrow> db')"

definition create_project :: "string \<Rightarrow> int \<Rightarrow> repo \<Rightarrow> string \<Rightarrow> engine_error + project \<times> repo" where
  "create_project nid now db name =
     rbind (map_err Protocol (validate_name ''project name'' name))
       (\<lambda>_. let p = \<lparr>pj_id = nid, pj_name = str_trim name, pj_created_at_ns = now\<rparr>
             in rbind (insert_project p db) (\<lambda>db'. Inr (p, db')))"

definition list_projects :: "repo \<Rightarrow> project list" where
  "list_projects db = sort_key pj_created_at_ns (rp_projects db)"

definition create_experiment ::
  "string \<Rightarrow> int \<Rightarrow> repo \<Rightarrow> string \<Rightarrow> string \<Rightarrow> engine_error + experiment_entity \<times> repo" where
  "create_experiment nid now db project_id name =
     rbind (map_err Protocol (validate_name ''experiment name'' name))
       (\<lambda>_. rbind (require_parent (map pj_id (rp_projects db)) ''project'' project_id)
         (\<lambda>_. let e = \<lparr>ex_id = nid, ex_project_id = project_id, ex_name = str_trim name,
                        ex_created_at_ns = now\<rparr>
               in rbind (insert_experiment e db) (\<lambda>db'. Inr (e, db'))))"

definition list_experiments :: "repo \<Rightarrow> string option \<Rightarrow> experiment_entity list" where
  "list_experiments db project_id = sort_key ex_created_at_ns
     (filter (\<lambda>e. case project_id of Some p \<Rightarrow> ex_project_id e = p | None \<Rightarrow> True) (rp_experiments db))"

definition create_run ::
  "repo_env \<Rightarrow> string \<Rightarrow> int \<Rightarrow> repo \<Rightarrow> string \<Rightarrow> string \<Rightarrow> string \<Rightarrow> engine_error + run \<times> repo" where
  "create_run X nid now db experiment_id name config_json =
     rbind (map_err Protocol (validate_name ''run name'' name))
       (\<lambda>_. rbind (map_err EngineInvalid (parse_json X config_json))
         (\<lambda>_. rbind (require_parent (map ex_id (rp_experiments db)) ''experiment'' experiment_id)
           (\<lambda>_. let r = \<lparr>rn_id = nid, rn_experiment_id = experiment_id, rn_name = str_trim name,
                         rn_status = Created, rn_config_json = config_json,
                         rn_created_at_ns = now, rn_updated_at_ns = now\<rparr>
                 in rbind (insert_run r db) (\<lambda>db'. Inr (r, db')))))"

definition list_runs :: "repo \<Rightarrow> string option \<Rightarrow> run list" where
  "list_runs db experiment_id = map run_from_row (sort_key (\<lambda>r. - rr_created_at_ns r)
     (filter (\<lambda>r. case experiment_id of Some e \<Rightarrow> rr_experiment_id r = e | None \<Rightarrow> True) (rp_runs db)))"

definition run_by_id :: "repo \<Rightarrow> string \<Rightarrow> run_row option" where
  "run_by_id db key = find (\<lambda>r. rr_id r = key) (rp_runs db)"

definition check_configured :: "string \<times> string \<Rightarrow> engine_error + unit" where
  "check_configured = (\<lambda>(field, value).
     rbind (map_err Protocol (validate_name field value))
       (\<lambda>_. ensure (length value \<le> 4096) (EngineInvalid (field @ '' exceeds 4096 bytes''))))"

definition ensure_project :: "string \<Rightarrow> int \<Rightarrow> string \<Rightarrow> repo \<Rightarrow> engine_error + string \<times> repo" where
  "ensure_project nid now name db =
     (let p = (case find (\<lambda>p. pj_name p = name) (rp_projects db) of
                 Some p \<Rightarrow> p
               | None \<Rightarrow> \<lparr>pj_id = nid, pj_name = name, pj_created_at_ns = now\<rparr>);
          db' = or_ignore db (insert_project p db)
      in rbind (ok_or (Sqlite ''Query returned no rows'') (find (\<lambda>p. pj_name p = name) (rp_projects db')))
           (\<lambda>p. Inr (pj_id p, db')))"

definition ensure_experiment ::
  "string \<Rightarrow> int \<Rightarrow> string \<Rightarrow> string \<Rightarrow> repo \<Rightarrow> engine_error + string \<times> repo" where
  "ensure_experiment nid now project_id name db =
     (let here = (\<lambda>e. ex_project_id e = project_id \<and> ex_name e = name);
          e = (case find here (rp_experiments db) of
                 Some e \<Rightarrow> e
               | None \<Rightarrow> \<lparr>ex_id = nid, ex_project_id = project_id, ex_name = name, ex_created_at_ns = now\<rparr>);
          db' = or_ignore db (insert_experiment e db)
      in rbind (ok_or (Sqlite ''Query returned no rows'') (find here (rp_experiments db')))
           (\<lambda>e. Inr (ex_id e, db')))"

definition ensure_run ::
  "repo_env \<Rightarrow> int \<Rightarrow> string \<Rightarrow> string \<Rightarrow> string \<Rightarrow> json \<Rightarrow> repo \<Rightarrow> engine_error + run \<times> repo" where
  "ensure_run X now key experiment_id name config db =
     (case run_by_id db key of
        Some row \<Rightarrow>
          (let r = run_from_row row
           in rbind (map_err Json (parse_json X (rn_config_json r)))
                (\<lambda>stored. if rn_experiment_id r \<noteq> experiment_id \<or> rn_name r \<noteq> name \<or> stored \<noteq> config
                   then Inl (EngineInvalid (''configured Run '' @ debug_str X key
                               @ '' conflicts with persisted identity or config''))
                   else Inr (r, db)))
      | None \<Rightarrow>
          rbind (map_err Json (print_json X config))
            (\<lambda>encoded. let r = \<lparr>rn_id = key, rn_experiment_id = experiment_id, rn_name = name,
                  rn_status = Created, rn_config_json = encoded,
                  rn_created_at_ns = now, rn_updated_at_ns = now\<rparr>
               in rbind (insert_run r db) (\<lambda>db'. Inr (r, db'))))"

text \<open>The draws of a call: the identifiers of the project and experiment it may create, the clock.\<close>

record draws =
  dr_project :: string
  dr_experiment :: string
  dr_now :: int

definition ensure_configured_run ::
  "repo_env \<Rightarrow> draws \<Rightarrow> repo \<Rightarrow> string \<Rightarrow> string \<Rightarrow> string \<Rightarrow> string \<Rightarrow> string
     \<Rightarrow> engine_error + run \<times> repo" where
  "ensure_configured_run X d db key project_name experiment_name name config_json =
     rbind (for_each check_configured [(''run id'', key), (''project name'', project_name),
              (''experiment name'', experiment_name), (''run name'', name)])
       (\<lambda>_. rbind (map_err EngineInvalid (parse_json X config_json))
         (\<lambda>config. rbind (ensure (is_object config)
                       (EngineInvalid ''configured Run config must be a JSON object''))
           (\<lambda>_. rbind (ensure_project (dr_project d) (dr_now d) (str_trim project_name) db)
             (\<lambda>(project_id, db1).
                rbind (ensure_experiment (dr_experiment d) (dr_now d) project_id (str_trim experiment_name) db1)
             (\<lambda>(experiment_id, db2).
                ensure_run X (dr_now d) key experiment_id (str_trim name) config db2)))))"

text \<open>What an update of the run status does to the sources of the run.\<close>

fun terminal_source_state :: "run_status \<Rightarrow> string option" where
  "terminal_source_state Finished = Some ''ended''"
| "terminal_source_state Cancelled = Some ''ended''"
| "terminal_source_state Failed = Some ''lost''"
| "terminal_source_state _ = None"

definition set_run_status :: "string \<Rightarrow> run_status \<Rightarrow> int \<Rightarrow> repo \<Rightarrow> repo" where
  "set_run_status key target now db = db\<lparr>
     rp_runs := map (\<lambda>r. if rr_id r = key
                         then r\<lparr>rr_status := status_text target, rr_updated_at_ns := now\<rparr> else r) (rp_runs db),
     rp_sources := (case terminal_source_state target of
         None \<Rightarrow> rp_sources db
       | Some st \<Rightarrow> map (\<lambda>s. if sr_run_id s = key \<and> sr_state s \<notin> {''ended'', ''lost''}
                              then s\<lparr>sr_state := st\<rparr> else s) (rp_sources db))\<rparr>"

definition update_run_status ::
  "int \<Rightarrow> repo \<Rightarrow> string \<Rightarrow> run_status \<Rightarrow> engine_error + run \<times> repo" where
  "update_run_status now db key target =
     rbind (ok_or (EngineInvalid (''unknown run: '' @ key)) (run_by_id db key))
       (\<lambda>row. let current = parse_run_status (rr_status row)
         in if \<not> valid_run_transition current target
            then Inl (EngineInvalid (''invalid run status transition: '' @ status_text current
                        @ '' -> '' @ status_text target))
            else let db' = (if current \<noteq> target then set_run_status key target now db else db)
                 in rbind (ok_or (Sqlite ''Query returned no rows'') (run_by_id db' key))
                      (\<lambda>row'. Inr (run_from_row row', db')))"

subsection \<open>Sources\<close>

definition source_by_run_endpoint ::
  "repo_env \<Rightarrow> repo \<Rightarrow> string \<Rightarrow> string \<Rightarrow> engine_error + source option" where
  "source_by_run_endpoint X db key endpoint =
     (case find (\<lambda>s. sr_run_id s = key \<and> sr_endpoint s = endpoint) (rp_sources db) of
        None \<Rightarrow> Inr None
      | Some s \<Rightarrow> rbind (source_from_row X db s) (\<lambda>s. Inr (Some s)))"

definition new_source_row :: "source \<Rightarrow> source_row" where
  "new_source_row s = \<lparr>sr_id = src_id s, sr_run_id = src_run_id s, sr_attempt_id = src_attempt_id s,
     sr_role = src_role s, sr_endpoint = src_endpoint s, sr_node_id = src_node_id s,
     sr_rank = src_rank s, sr_state = source_state_text (src_state s),
     sr_session_id = src_session_id s, sr_last_success_at_ns = src_last_success_at_ns s,
     sr_last_error = src_last_error s,
     sr_scrape_interval_ms = u64_as_i64 (src_scrape_interval_ms s),
     sr_timeout_ms = u64_as_i64 (src_timeout_ms s)\<rparr>"

text \<open>
  \<open>INSERT ... ON CONFLICT(run_id, endpoint) DO UPDATE\<close>: the registration of a known endpoint
  renews its identity and timing columns only. A clash of the primary key alone is an error.
\<close>

definition upsert_source :: "source \<Rightarrow> repo \<Rightarrow> engine_error + repo" where
  "upsert_source s db =
     (let here = (\<lambda>r. sr_run_id r = src_run_id s \<and> sr_endpoint r = src_endpoint s)
      in if list_ex (\<lambda>r. sr_id r = src_id s \<and> \<not> here r) (rp_sources db)
         then Inl (Sqlite ''UNIQUE constraint failed: sources.id'')
         else if list_ex here (rp_sources db)
         then Inr (db\<lparr>rp_sources := map (\<lambda>r. if here r
                then r\<lparr>sr_attempt_id := src_attempt_id s, sr_role := src_role s,
                       sr_node_id := src_node_id s, sr_rank := src_rank s,
                       sr_scrape_interval_ms := u64_as_i64 (src_scrape_interval_ms s),
                       sr_timeout_ms := u64_as_i64 (src_timeout_ms s)\<rparr> else r) (rp_sources db)\<rparr>)
         else Inr (db\<lparr>rp_sources := rp_sources db @ [new_source_row s]\<rparr>))"

definition register_source :: "repo_env \<Rightarrow> repo \<Rightarrow> source \<Rightarrow> engine_error + source \<times> repo" where
  "register_source X db s =
     rbind (require_parent (map rr_id (rp_runs db)) ''run'' (src_run_id s))
       (\<lambda>_. rbind (upsert_source s db)
         (\<lambda>db'. rbind (source_by_run_endpoint X db' (src_run_id s) (src_endpoint s))
           (\<lambda>found. rbind (ok_or (EngineInvalid ''source registration failed'') found)
             (\<lambda>s'. Inr (s', db')))))"

definition table_sources :: "repo_env \<Rightarrow> repo \<Rightarrow> string list \<Rightarrow> string list \<Rightarrow> engine_error + source list" where
  "table_sources X db runs ids =
     rbind (for_each (\<lambda>r. ensure (r \<in> set (map rr_id (rp_runs db)))
              (EngineInvalid (''unknown Run '' @ debug_str X r))) runs)
       (\<lambda>_. rbind (try_map (source_from_row X db)
                (take 257 (sort_key (\<lambda>s. (sr_run_id s, sr_id s))
                   (filter (\<lambda>s. sr_run_id s \<in> set runs \<and> (ids = [] \<or> sr_id s \<in> set ids)) (rp_sources db)))))
         (\<lambda>sources.
            if 256 < length sources
            then Inl (EngineInvalid ''table selection exceeds 256 Sources; narrow run_ids/source_ids'')
            else if list_ex (\<lambda>k. \<not> list_ex (\<lambda>s. src_id s = k) sources) ids
            then Inl (EngineInvalid ''unknown source_ids or Source does not belong to selected run_ids'')
            else Inr sources))"

definition list_sources :: "repo_env \<Rightarrow> repo \<Rightarrow> string option \<Rightarrow> engine_error + source list" where
  "list_sources X db key =
     try_map (source_from_row X db)
       (case key of
          Some k \<Rightarrow> sort_key (\<lambda>s. (sr_role s, sr_rank s, sr_endpoint s))
                     (filter (\<lambda>s. sr_run_id s = k) (rp_sources db))
        | None \<Rightarrow> sort_key (\<lambda>s. (sr_run_id s, sr_role s, sr_rank s, sr_endpoint s)) (rp_sources db))"

definition source_row_by_id :: "repo \<Rightarrow> string \<Rightarrow> source_row option" where
  "source_row_by_id db key = find (\<lambda>s. sr_id s = key) (rp_sources db)"

definition scope_of :: "repo \<Rightarrow> source_row \<Rightarrow> (string \<times> string) option" where
  "scope_of db s =
     Option.bind (run_by_id db (sr_run_id s))
       (\<lambda>r. Option.bind (find (\<lambda>e. ex_id e = rr_experiment_id r) (rp_experiments db))
         (\<lambda>e. map_option (\<lambda>p. (pj_name p, ex_name e))
                (find (\<lambda>p. pj_id p = ex_project_id e) (rp_projects db))))"

definition source_by_id :: "repo_env \<Rightarrow> repo \<Rightarrow> string \<Rightarrow> engine_error + scoped_source" where
  "source_by_id X db key =
     (let unknown = EngineInvalid (''unknown source: '' @ key)
      in rbind (ok_or unknown (source_row_by_id db key))
           (\<lambda>row. rbind (ok_or unknown (scope_of db row))
             (\<lambda>(project, experiment). rbind (source_from_row X db row)
               (\<lambda>s. Inr \<lparr>sc_source = s, sc_project = project, sc_experiment = experiment\<rparr>))))"

definition update_source_state ::
  "repo_env \<Rightarrow> repo \<Rightarrow> string \<Rightarrow> source_state \<Rightarrow> engine_error + source \<times> repo" where
  "update_source_state X db key target =
     rbind (ok_or (EngineInvalid (''unknown source: '' @ key)) (source_row_by_id db key))
       (\<lambda>row. let current = parse_source_state (sr_state row)
         in if \<not> valid_source_transition current target
            then Inl (EngineInvalid (''invalid source state transition: '' @ source_state_text current
                        @ '' -> '' @ source_state_text target))
            else let db' = (if current \<noteq> target
                            then db\<lparr>rp_sources := map (\<lambda>s. if sr_id s = key
                                   then s\<lparr>sr_state := source_state_text target\<rparr> else s) (rp_sources db)\<rparr>
                            else db)
                 in rbind (ok_or (Sqlite ''Query returned no rows'') (source_row_by_id db' key))
                      (\<lambda>row'. rbind (source_from_row X db' row') (\<lambda>s. Inr (s, db'))))"

text \<open>
  The guard of the collector's updates: the run is \<open>created\<close> or \<open>running\<close> and the source is not
  \<open>draining\<close>, \<open>ended\<close> or \<open>lost\<close>.
\<close>

definition collectable :: "repo \<Rightarrow> source_row \<Rightarrow> bool" where
  "collectable db s \<longleftrightarrow>
     list_ex (\<lambda>r. rr_id r = sr_run_id s \<and> rr_status r \<in> {''created'', ''running''}) (rp_runs db)
     \<and> sr_state s \<notin> {''draining'', ''ended'', ''lost''}"

definition mark_active :: "string \<Rightarrow> string \<Rightarrow> int \<Rightarrow> repo \<Rightarrow> repo" where
  "mark_active key session now db = db\<lparr>rp_sources := map (\<lambda>s. if sr_id s = key \<and> collectable db s
      then s\<lparr>sr_state := ''active'', sr_session_id := Some session,
             sr_last_success_at_ns := Some now, sr_last_error := None\<rparr> else s) (rp_sources db)\<rparr>"

definition put_descriptor :: "repo_env \<Rightarrow> string \<Rightarrow> string \<Rightarrow> int \<Rightarrow> repo \<Rightarrow> engine_error + repo" where
  "put_descriptor X key encoded now db =
     (case bm_get (rp_descriptors db) key of
        Some (stored, _) \<Rightarrow>
          Inr (if stored \<noteq> encoded
               then db\<lparr>rp_descriptors := bm_insert key (encoded, now) (rp_descriptors db)\<rparr> else db)
      | None \<Rightarrow>
          if foreign_keys X \<and> source_row_by_id db key = None
          then Inl (Sqlite ''FOREIGN KEY constraint failed'')
          else Inr (db\<lparr>rp_descriptors := bm_insert key (encoded, now) (rp_descriptors db)\<rparr>))"

definition start_run :: "string \<Rightarrow> int \<Rightarrow> repo \<Rightarrow> repo" where
  "start_run key now db = db\<lparr>rp_runs := map (\<lambda>r.
      if rr_status r = ''created'' \<and> map_option sr_run_id (source_row_by_id db key) = Some (rr_id r)
      then r\<lparr>rr_status := ''running'', rr_updated_at_ns := now\<rparr> else r) (rp_runs db)\<rparr>"

definition source_success ::
  "repo_env \<Rightarrow> int \<Rightarrow> repo \<Rightarrow> string \<times> snapshot_descriptor \<Rightarrow> engine_error + repo" where
  "source_success X now db = (\<lambda>(key, descriptor).
     rbind (map_err Json (print_descriptor X descriptor))
       (\<lambda>encoded. rbind (put_descriptor X key encoded now
                            (mark_active key (d_source_session_id descriptor) now db))
         (\<lambda>db'. Inr (start_run key now db'))))"

definition update_source_success_batch ::
  "repo_env \<Rightarrow> int \<Rightarrow> repo \<Rightarrow> (string \<times> snapshot_descriptor) list \<Rightarrow> engine_error + repo" where
  "update_source_success_batch X now db sources = try_fold (source_success X now) db sources"

definition update_source_failure :: "repo \<Rightarrow> string \<Rightarrow> string \<Rightarrow> repo" where
  "update_source_failure db key error = db\<lparr>rp_sources := map (\<lambda>s. if sr_id s = key \<and> collectable db s
      then s\<lparr>sr_state := ''stale'', sr_last_error := Some error\<rparr> else s) (rp_sources db)\<rparr>"

definition counts :: "repo \<Rightarrow> nat \<times> nat \<times> nat \<times> nat \<times> nat" where
  "counts db = (length (rp_projects db), length (rp_experiments db), length (rp_runs db),
     length (rp_sources db), length (filter (\<lambda>s. sr_state s = ''active'') (rp_sources db)))"

end
