(* ===== verification/Repo_Lifecycle.thy ===== *)
theory Repo_Lifecycle
  imports Repository
begin

text \<open>
  Laws of the metadata repository. The status columns of runs and sources are two instances of one
  interface, a \<open>lifecycle\<close>: a preorder of statuses with final elements, stored as text. Over it,
  the invariant of the tables (keys, references, legal status text) and the relation \<open>evolves\<close>
  (rows are never deleted, statuses only advance) are shown to hold for every operation.
\<close>

section \<open>Lifecycles\<close>

locale lifecycle =
  fixes allowed :: "'s \<Rightarrow> 's \<Rightarrow> bool"
    and render :: "'s \<Rightarrow> string"
    and parse :: "string \<Rightarrow> 's"
    and final :: "'s \<Rightarrow> bool"
  assumes parse_text: "parse (render s) = s"
    and allowed_refl: "allowed s s"
    and allowed_trans: "allowed s t \<Longrightarrow> allowed t u \<Longrightarrow> allowed s u"
    and final_stays: "final s \<Longrightarrow> allowed s t \<Longrightarrow> t = s"
begin

lemma text_eq_iff: "render s = render t \<longleftrightarrow> s = t"
  by (metis parse_text)

lemma column_text: "c \<in> range render \<Longrightarrow> render (parse c) = c"
  by (auto simp: parse_text)

lemma column_parse_iff: "c \<in> range render \<Longrightarrow> parse c = s \<longleftrightarrow> c = render s"
  by (auto simp: parse_text)

lemma column_final: "final (parse a) \<Longrightarrow> allowed (parse a) (parse b) \<Longrightarrow> parse b = parse a"
  by (rule final_stays)

end

fun run_final :: "run_status \<Rightarrow> bool" where
  "run_final Finished = True"
| "run_final Failed = True"
| "run_final Cancelled = True"
| "run_final _ = False"

fun source_final :: "source_state \<Rightarrow> bool" where
  "source_final Ended = True"
| "source_final Lost = True"
| "source_final _ = False"

fun stage :: "source_state \<Rightarrow> nat" where
  "stage Draining = 1"
| "stage Ended = 2"
| "stage Lost = 2"
| "stage _ = 0"

text \<open>
  How the state of a source may evolve: collected (in one of the three states of the first stage),
  then draining, then ended or lost.
\<close>

definition source_le :: "source_state \<Rightarrow> source_state \<Rightarrow> bool" where
  "source_le a b \<longleftrightarrow> a = b \<or> stage a < stage b \<or> stage a = 0 \<and> stage b = 0"

interpretation run_cycle: lifecycle valid_run_transition status_text parse_run_status run_final
proof unfold_locales
  show "parse_run_status (status_text s) = s" for s by (cases s) (simp_all add: parse_run_status_def)
  show "valid_run_transition s t \<Longrightarrow> valid_run_transition t u \<Longrightarrow> valid_run_transition s u" for s t u
    by (cases s; cases t; cases u) simp_all
  show "run_final s \<Longrightarrow> valid_run_transition s t \<Longrightarrow> t = s" for s t by (cases s; cases t) simp_all
qed simp

interpretation source_cycle: lifecycle source_le source_state_text parse_source_state source_final
proof unfold_locales
  show "parse_source_state (source_state_text s) = s" for s
    by (cases s) (simp_all add: parse_source_state_def)
  show "source_final s \<Longrightarrow> source_le s t \<Longrightarrow> t = s" for s t
    by (cases s; cases t) (simp_all add: source_le_def)
qed (auto simp: source_le_def)

lemma source_transition_le: "valid_source_transition a b \<Longrightarrow> source_le a b"
  by (cases a; cases b) (simp_all add: source_le_def)

section \<open>Invariant and evolution\<close>

definition run_le :: "run_row \<Rightarrow> run_row \<Rightarrow> bool" where
  "run_le r r' \<longleftrightarrow> rr_id r' = rr_id r \<and> rr_experiment_id r' = rr_experiment_id r \<and> rr_name r' = rr_name r
     \<and> rr_config_json r' = rr_config_json r \<and> rr_created_at_ns r' = rr_created_at_ns r
     \<and> valid_run_transition (parse_run_status (rr_status r)) (parse_run_status (rr_status r'))"

definition src_le :: "source_row \<Rightarrow> source_row \<Rightarrow> bool" where
  "src_le s s' \<longleftrightarrow> sr_id s' = sr_id s \<and> sr_run_id s' = sr_run_id s \<and> sr_endpoint s' = sr_endpoint s
     \<and> source_le (parse_source_state (sr_state s)) (parse_source_state (sr_state s'))"

definition evolves :: "repo \<Rightarrow> repo \<Rightarrow> bool" where
  "evolves db db' \<longleftrightarrow> grows (=) (rp_projects db) (rp_projects db')
     \<and> grows (=) (rp_experiments db) (rp_experiments db')
     \<and> grows run_le (rp_runs db) (rp_runs db') \<and> grows src_le (rp_sources db) (rp_sources db')"

definition keys_ok :: "repo \<Rightarrow> bool" where
  "keys_ok db \<longleftrightarrow> distinct (map pj_id (rp_projects db)) \<and> distinct (map pj_name (rp_projects db))
     \<and> distinct (map ex_id (rp_experiments db))
     \<and> distinct (map (\<lambda>e. (ex_project_id e, ex_name e)) (rp_experiments db))
     \<and> distinct (map rr_id (rp_runs db)) \<and> distinct (map sr_id (rp_sources db))
     \<and> distinct (map (\<lambda>s. (sr_run_id s, sr_endpoint s)) (rp_sources db)) \<and> bm_sorted (rp_descriptors db)"

definition refs_ok :: "repo_env \<Rightarrow> repo \<Rightarrow> bool" where
  "refs_ok X db \<longleftrightarrow> ex_project_id ` set (rp_experiments db) \<subseteq> pj_id ` set (rp_projects db)
     \<and> rr_experiment_id ` set (rp_runs db) \<subseteq> ex_id ` set (rp_experiments db)
     \<and> sr_run_id ` set (rp_sources db) \<subseteq> rr_id ` set (rp_runs db)
     \<and> (foreign_keys X \<longrightarrow> fst ` set (rp_descriptors db) \<subseteq> sr_id ` set (rp_sources db))"

definition columns_ok :: "repo \<Rightarrow> bool" where
  "columns_ok db \<longleftrightarrow> rr_status ` set (rp_runs db) \<subseteq> range status_text
     \<and> sr_state ` set (rp_sources db) \<subseteq> range source_state_text"

definition repo_inv :: "repo_env \<Rightarrow> repo \<Rightarrow> bool" where
  "repo_inv X db \<longleftrightarrow> keys_ok db \<and> refs_ok X db \<and> columns_ok db"

definition step_ok :: "repo_env \<Rightarrow> repo \<Rightarrow> repo \<Rightarrow> bool" where
  "step_ok X db db' \<longleftrightarrow> (repo_inv X db \<longrightarrow> repo_inv X db' \<and> evolves db db')"

lemma run_le_refl [simp]: "run_le r r"
  by (simp add: run_le_def run_cycle.allowed_refl del: valid_run_transition.simps)

lemma run_le_trans: "run_le r s \<Longrightarrow> run_le s t \<Longrightarrow> run_le r t"
  unfolding run_le_def by (metis run_cycle.allowed_trans)

lemma src_le_refl [simp]: "src_le s s"
  by (simp add: src_le_def source_cycle.allowed_refl)

lemma src_le_trans: "src_le r s \<Longrightarrow> src_le s t \<Longrightarrow> src_le r t"
  unfolding src_le_def by (metis source_cycle.allowed_trans)

lemma evolves_refl [simp]: "evolves db db"
  by (simp add: evolves_def grows_refl)

lemma evolves_trans: "evolves a b \<Longrightarrow> evolves b c \<Longrightarrow> evolves a c"
  unfolding evolves_def by (blast intro: grows_trans run_le_trans src_le_trans)

lemma step_ok_refl [simp]: "step_ok X db db"
  by (simp add: step_ok_def)

lemma step_ok_trans: "step_ok X a b \<Longrightarrow> step_ok X b c \<Longrightarrow> step_ok X a c"
  unfolding step_ok_def by (blast intro: evolves_trans)

lemma text_in_range [simp]:
  "''created'' \<in> range status_text" "''running'' \<in> range status_text"
  "''active'' \<in> range source_state_text" "''stale'' \<in> range source_state_text"
  "''ended'' \<in> range source_state_text" "''lost'' \<in> range source_state_text"
  by (metis status_text.simps range_eqI, metis status_text.simps range_eqI, metis source_state_text.simps range_eqI, metis source_state_text.simps range_eqI, metis source_state_text.simps range_eqI, metis source_state_text.simps range_eqI)

section \<open>Statements\<close>

lemmas repo_inv_defs = repo_inv_def keys_ok_def refs_ok_def columns_ok_def

lemma step_insert_project:
  assumes "insert_project p db = Inr db'"
  shows "step_ok X db db'"
proof -
  have db': "db' = db\<lparr>rp_projects := rp_projects db @ [p]\<rparr>"
    and new: "pj_id p \<notin> pj_id ` set (rp_projects db)" "pj_name p \<notin> pj_name ` set (rp_projects db)"
    using assms unfolding insert_project_def by (simp_all split: if_split_asm)
  show ?thesis unfolding step_ok_def db' repo_inv_defs evolves_def
    by (intro impI, elim conjE) (simp add: new grows_refl grows_append subset_insertI2)
qed

lemma step_insert_experiment:
  assumes "insert_experiment e db = Inr db'" and "ex_project_id e \<in> pj_id ` set (rp_projects db)"
  shows "step_ok X db db'"
proof -
  have db': "db' = db\<lparr>rp_experiments := rp_experiments db @ [e]\<rparr>"
    and new: "ex_id e \<notin> ex_id ` set (rp_experiments db)"
      "(ex_project_id e, ex_name e) \<notin> (\<lambda>e. (ex_project_id e, ex_name e)) ` set (rp_experiments db)"
    using assms(1) unfolding insert_experiment_def by (simp_all split: if_split_asm)
  show ?thesis unfolding step_ok_def db' repo_inv_defs evolves_def
    by (intro impI, elim conjE) (simp add: new assms(2) grows_refl grows_append subset_insertI2)
qed

lemma step_insert_run:
  assumes "insert_run r db = Inr db'" and "rn_experiment_id r \<in> ex_id ` set (rp_experiments db)"
  shows "step_ok X db db'"
proof -
  obtain row where db': "db' = db\<lparr>rp_runs := rp_runs db @ [row]\<rparr>"
    and row: "rr_id row \<notin> rr_id ` set (rp_runs db)" "rr_experiment_id row = rn_experiment_id r"
      "rr_status row \<in> range status_text"
    using assms(1) unfolding insert_run_def by (simp split: if_split_asm) (rule that [OF sym], auto)
  show ?thesis unfolding step_ok_def db' repo_inv_defs evolves_def
    by (intro impI, elim conjE) (simp add: row assms(2) grows_refl grows_append subset_insertI2)
qed

lemma step_map_runs:
  assumes "\<And>r. r \<in> set (rp_runs db) \<Longrightarrow> rr_status r \<in> range status_text
      \<Longrightarrow> run_le r (f r) \<and> rr_status (f r) \<in> range status_text"
  shows "step_ok X db (db\<lparr>rp_runs := map f (rp_runs db)\<rparr>)"
proof -
  have f: "run_le r (f r)" "rr_status (f r) \<in> range status_text"
    if "columns_ok db" "r \<in> set (rp_runs db)" for r
    using assms [OF that(2)] that by (auto simp: columns_ok_def)
  have ids: "map (rr_id \<circ> f) (rp_runs db) = map rr_id (rp_runs db)"
    "map (rr_experiment_id \<circ> f) (rp_runs db) = map rr_experiment_id (rp_runs db)" if "columns_ok db"
    using f(1) [OF that] by (simp_all add: run_le_def)
  from arg_cong [OF this(1), of set] arg_cong [OF this(2), of set]
  have imgs: "rr_id ` f ` set (rp_runs db) = rr_id ` set (rp_runs db)"
    "rr_experiment_id ` f ` set (rp_runs db) = rr_experiment_id ` set (rp_runs db)" if "columns_ok db"
    using that by (simp_all add: image_comp)
  show ?thesis
    unfolding step_ok_def repo_inv_def
    by (intro impI, elim conjE)
      (simp add: keys_ok_def refs_ok_def columns_ok_def evolves_def grows_refl grows_map f ids imgs
        image_subset_iff)
qed

lemma step_map_sources:
  assumes "\<And>s. s \<in> set (rp_sources db) \<Longrightarrow> sr_state s \<in> range source_state_text
      \<Longrightarrow> src_le s (f s) \<and> sr_state (f s) \<in> range source_state_text"
  shows "step_ok X db (db\<lparr>rp_sources := map f (rp_sources db)\<rparr>)"
proof -
  have f: "src_le s (f s)" "sr_state (f s) \<in> range source_state_text"
    if "columns_ok db" "s \<in> set (rp_sources db)" for s
    using assms [OF that(2)] that by (auto simp: columns_ok_def)
  have ids: "map (sr_id \<circ> f) (rp_sources db) = map sr_id (rp_sources db)"
    "map (sr_run_id \<circ> f) (rp_sources db) = map sr_run_id (rp_sources db)"
    "map ((\<lambda>s. (sr_run_id s, sr_endpoint s)) \<circ> f) (rp_sources db)
       = map (\<lambda>s. (sr_run_id s, sr_endpoint s)) (rp_sources db)" if "columns_ok db"
    using f(1) [OF that] by (simp_all add: src_le_def)
  from arg_cong [OF this(1), of set] arg_cong [OF this(2), of set]
  have imgs: "sr_id ` f ` set (rp_sources db) = sr_id ` set (rp_sources db)"
    "sr_run_id ` f ` set (rp_sources db) = sr_run_id ` set (rp_sources db)" if "columns_ok db"
    using that by (simp_all add: image_comp)
  show ?thesis
    unfolding step_ok_def repo_inv_def
    by (intro impI, elim conjE)
      (simp add: keys_ok_def refs_ok_def columns_ok_def evolves_def grows_refl grows_map f ids imgs
        image_subset_iff)
qed


lemma step_append_source:
  assumes "row = new_source_row s" and "src_run_id s \<in> rr_id ` set (rp_runs db)"
    and "sr_id row \<notin> sr_id ` set (rp_sources db)"
    and "(sr_run_id row, sr_endpoint row) \<notin> (\<lambda>s. (sr_run_id s, sr_endpoint s)) ` set (rp_sources db)"
  shows "step_ok X db (db\<lparr>rp_sources := rp_sources db @ [row]\<rparr>)"
proof -
  have "sr_run_id row \<in> rr_id ` set (rp_runs db)" "sr_state row \<in> range source_state_text"
    using assms(1,2) by (simp_all add: new_source_row_def)
  then show ?thesis unfolding step_ok_def repo_inv_defs evolves_def using assms(3,4)
    by (intro impI, elim conjE) (simp add: grows_refl grows_append subset_insertI2)
qed

lemma step_upsert_source:
  assumes "upsert_source s db = Inr db'" and "src_run_id s \<in> rr_id ` set (rp_runs db)"
  shows "step_ok X db db'"
proof -
  let ?here = "\<lambda>r. sr_run_id r = src_run_id s \<and> sr_endpoint r = src_endpoint s"
  have id: "\<not> list_ex (\<lambda>r. sr_id r = src_id s \<and> \<not> ?here r) (rp_sources db)"
    using assms(1) unfolding upsert_source_def Let_def by (simp split: if_split_asm)
  show ?thesis
  proof (cases "list_ex ?here (rp_sources db)")
    case True
    with assms(1) id show ?thesis unfolding upsert_source_def Let_def
      by simp (drule sym, simp, rule step_map_sources,
        simp add: src_le_def source_cycle.allowed_refl)
  next
    case False
    have "step_ok X db (db\<lparr>rp_sources := rp_sources db @ [new_source_row s]\<rparr>)"
    proof (rule step_append_source [OF refl assms(2)])
      show "sr_id (new_source_row s) \<notin> sr_id ` set (rp_sources db)"
        using id False by (auto simp: new_source_row_def list_ex_iff)
      show "(sr_run_id (new_source_row s), sr_endpoint (new_source_row s))
          \<notin> (\<lambda>s. (sr_run_id s, sr_endpoint s)) ` set (rp_sources db)"
        using False by (auto simp: new_source_row_def list_ex_iff)
    qed
    then show ?thesis using assms(1) id False by (simp add: upsert_source_def)
  qed
qed

lemma source_row_by_id_mem: "source_row_by_id db key = Some s \<Longrightarrow> s \<in> set (rp_sources db) \<and> sr_id s = key"
  by (auto simp: source_row_by_id_def find_Some_iff)

lemma source_row_by_id_None: "source_row_by_id db key = None \<longleftrightarrow> key \<notin> sr_id ` set (rp_sources db)"
  by (auto simp: source_row_by_id_def find_None_iff)

lemma run_by_id_mem: "run_by_id db key = Some r \<Longrightarrow> r \<in> set (rp_runs db) \<and> rr_id r = key"
  by (auto simp: run_by_id_def find_Some_iff)

lemma find_distinct: "distinct (map f xs) \<Longrightarrow> x \<in> set xs \<Longrightarrow> find (\<lambda>y. f y = f x) xs = Some x"
  by (induction xs) auto

lemma put_descriptor_cases:
  assumes "put_descriptor X key encoded now db = Inr db'"
  obtains "db' = db"
  | "db' = db\<lparr>rp_descriptors := bm_insert key (encoded, now) (rp_descriptors db)\<rparr>"
    "foreign_keys X \<longrightarrow> key \<in> sr_id ` set (rp_sources db) \<or> key \<in> fst ` set (rp_descriptors db)"
proof (cases "bm_get (rp_descriptors db) key")
  case None
  then show thesis using assms that(2) unfolding put_descriptor_def source_row_by_id_None
    by (simp split: if_split_asm)
next
  case (Some v)
  then have "key \<in> fst ` set (rp_descriptors db)" by (force simp: bm_get_def dest: map_of_SomeD)
  with Some show thesis using assms that unfolding put_descriptor_def
    by (cases v) (simp split: if_split_asm)
qed

lemma step_put_descriptor:
  assumes "put_descriptor X key encoded now db = Inr db'"
  shows "step_ok X db db'"
  using assms
proof (cases rule: put_descriptor_cases)
  case 2
  show ?thesis unfolding step_ok_def 2(1) repo_inv_defs evolves_def using 2(2)
    by (intro impI, elim conjE) (simp add: set_bm_insert grows_refl bm_sorted_insert, blast)
qed simp


section \<open>Operations\<close>

lemma find_SomeD: "find P xs = Some x \<Longrightarrow> x \<in> set xs \<and> P x"
  by (auto simp: find_Some_iff)

lemma step_create_project: "create_project nid now db name = Inr (p, db') \<Longrightarrow> step_ok X db db'"
  by (auto simp: create_project_def result_iffs Let_def intro: step_insert_project)

lemma step_create_experiment:
  "create_experiment nid now db key name = Inr (e, db') \<Longrightarrow> step_ok X db db'"
  by (auto simp: create_experiment_def require_parent_def result_iffs Let_def intro: step_insert_experiment)

lemma step_create_run:
  "create_run X nid now db key name config_json = Inr (r, db') \<Longrightarrow> step_ok Y db db'"
  by (auto simp: create_run_def require_parent_def result_iffs Let_def intro: step_insert_run)

lemma ensure_project_result:
  assumes "ensure_project nid now name db = Inr (key, db')"
  shows "step_ok X db db' \<and> key \<in> pj_id ` set (rp_projects db')
    \<and> (\<exists>p \<in> set (rp_projects db'). pj_id p = key \<and> pj_name p = name)"
proof -
  obtain p where db': "db' = or_ignore db (insert_project p db)"
    and found: "map_option pj_id (find (\<lambda>p. pj_name p = name) (rp_projects db')) = Some key"
    using assms unfolding ensure_project_def Let_def by (auto simp: result_iffs)
  have "step_ok X db db'"
    unfolding db' or_ignore_def by (cases "insert_project p db") (auto intro: step_insert_project)
  moreover obtain q where "q \<in> set (rp_projects db')" "pj_id q = key" "pj_name q = name"
    using found by (auto dest: find_SomeD)
  ultimately show ?thesis by blast
qed

lemma insert_known_experiment: "e \<in> set (rp_experiments db) \<Longrightarrow> \<exists>x. insert_experiment e db = Inl x"
  by (simp add: insert_experiment_def)

lemma ensure_experiment_result:
  assumes "ensure_experiment nid now pid name db = Inr (key, db')"
    and "pid \<in> pj_id ` set (rp_projects db)"
  shows "step_ok X db db' \<and> key \<in> ex_id ` set (rp_experiments db') \<and> rp_projects db' = rp_projects db
    \<and> (\<exists>e \<in> set (rp_experiments db'). ex_id e = key \<and> ex_project_id e = pid \<and> ex_name e = name)"
proof -
  let ?here = "\<lambda>e. ex_project_id e = pid \<and> ex_name e = name"
  obtain e where db': "db' = or_ignore db (insert_experiment e db)"
    and found: "map_option ex_id (find ?here (rp_experiments db')) = Some key"
    and e: "e \<in> set (rp_experiments db) \<or> ex_project_id e = pid"
    using assms(1) unfolding ensure_experiment_def Let_def
    by (cases "find ?here (rp_experiments db)") (auto simp: result_iffs dest: find_SomeD)
  have "step_ok X db db' \<and> rp_projects db' = rp_projects db"
  proof (cases "insert_experiment e db")
    case (Inr db1)
    with e insert_known_experiment [of e db] have "ex_project_id e = pid" by auto
    then have "step_ok X db db1" using step_insert_experiment [OF Inr] assms(2) by simp
    with Inr show ?thesis
      by (simp add: db' or_ignore_def) (auto simp: insert_experiment_def split: if_split_asm)
  qed (simp add: db' or_ignore_def)
  moreover obtain q where "q \<in> set (rp_experiments db')" "ex_id q = key" "?here q"
    using found by (auto dest: find_SomeD)
  ultimately show ?thesis by blast
qed

lemma step_ensure_run:
  assumes "ensure_run X now key eid name config db = Inr (r, db')" and "eid \<in> ex_id ` set (rp_experiments db)"
  shows "step_ok Y db db'"
  using assms unfolding ensure_run_def Let_def
  by (cases "run_by_id db key") (auto simp: result_iffs split: if_split_asm intro: step_insert_run)

lemma step_ensure_configured_run:
  assumes "ensure_configured_run X d db key project_name experiment_name name config_json = Inr (r, db')"
  shows "step_ok Y db db'"
proof -
  obtain pid db1 eid db2 config
    where p: "ensure_project (dr_project d) (dr_now d) (str_trim project_name) db = Inr (pid, db1)"
      and e: "ensure_experiment (dr_experiment d) (dr_now d) pid (str_trim experiment_name) db1 = Inr (eid, db2)"
      and r: "ensure_run X (dr_now d) key eid (str_trim name) config db2 = Inr (r, db')"
    using assms unfolding ensure_configured_run_def by (auto simp: result_iffs simp del: for_each.simps)
  have 1: "step_ok Y db db1" "pid \<in> pj_id ` set (rp_projects db1)" using ensure_project_result [OF p] by blast+
  have 2: "step_ok Y db1 db2" "eid \<in> ex_id ` set (rp_experiments db2)"
    using ensure_experiment_result [OF e 1(2)] by blast+
  show ?thesis using step_ok_trans [OF 1(1) step_ok_trans [OF 2(1) step_ensure_run [OF r 2(2)]]] .
qed


lemma set_run_status_split:
  "set_run_status key target now db =
     (let db1 = db\<lparr>rp_runs := map (\<lambda>r. if rr_id r = key
          then r\<lparr>rr_status := status_text target, rr_updated_at_ns := now\<rparr> else r) (rp_runs db)\<rparr>
      in case terminal_source_state target of
           None \<Rightarrow> db1
         | Some st \<Rightarrow> db1\<lparr>rp_sources := map (\<lambda>s. if sr_run_id s = key \<and> sr_state s \<notin> {''ended'', ''lost''}
                          then s\<lparr>sr_state := st\<rparr> else s) (rp_sources db1)\<rparr>)"
  by (simp add: set_run_status_def split: option.split)

lemma open_source_state:
  assumes "c \<in> range source_state_text" and "c \<notin> {''ended'', ''lost''}"
  shows "stage (parse_source_state c) < 2"
  using assms by (elim rangeE) (rename_tac s, case_tac s, simp_all add: parse_source_state_def)

lemma collectable_state:
  assumes "c \<in> range source_state_text" and "c \<notin> {''draining'', ''ended'', ''lost''}"
  shows "stage (parse_source_state c) = 0"
  using assms by (elim rangeE) (rename_tac s, case_tac s, simp_all add: parse_source_state_def)

lemma terminal_state_text:
  "terminal_source_state target = Some st \<Longrightarrow>
     st \<in> range source_state_text \<and> stage (parse_source_state st) = 2 \<and> source_final (parse_source_state st)"
  by (cases target) (clarsimp simp: parse_source_state_def)+

lemma step_set_run_status:
  assumes "run_by_id db key = Some row" and "valid_run_transition (parse_run_status (rr_status row)) target"
    and "keys_ok db"
  shows "step_ok X db (set_run_status key target now db)"
proof -
  let ?f = "\<lambda>r. if rr_id r = key then r\<lparr>rr_status := status_text target, rr_updated_at_ns := now\<rparr> else r"
  let ?db = "db\<lparr>rp_runs := map ?f (rp_runs db)\<rparr>"
  have only: "r = row" if "r \<in> set (rp_runs db)" "rr_id r = key" for r
  proof -
    have "distinct (map rr_id (rp_runs db))" using assms(3) by (simp add: keys_ok_def)
    then show ?thesis using that run_by_id_mem [OF assms(1)] by (auto dest!: distinct_map [THEN iffD1] inj_onD)
  qed
  have 1: "step_ok X db ?db"
  proof (rule step_map_runs)
    fix r :: run_row
    assume r: "r \<in> set (rp_runs db)" "rr_status r \<in> range status_text"
    show "run_le r (?f r) \<and> rr_status (?f r) \<in> range status_text"
    proof (cases "rr_id r = key")
      case True
      then show ?thesis using assms(2) only [OF r(1)]
        by (simp add: run_le_def run_cycle.parse_text del: valid_run_transition.simps)
    qed (simp add: r)
  qed
  show ?thesis
  proof (cases "terminal_source_state target")
    case None
    with 1 show ?thesis by (simp add: set_run_status_split)
  next
    case (Some st)
    let ?g = "\<lambda>s. if sr_run_id s = key \<and> sr_state s \<notin> {''ended'', ''lost''} then s\<lparr>sr_state := st\<rparr> else s"
    have "step_ok X ?db (?db\<lparr>rp_sources := map ?g (rp_sources ?db)\<rparr>)"
    proof (rule step_map_sources)
      fix s :: source_row
      assume "sr_state s \<in> range source_state_text"
      then show "src_le s (?g s) \<and> sr_state (?g s) \<in> range source_state_text"
        using open_source_state [of "sr_state s"] terminal_state_text [OF Some]
        by (auto simp: src_le_def source_le_def)
    qed
    with 1 Some show ?thesis by (auto simp: set_run_status_split Let_def intro: step_ok_trans)
  qed
qed

lemma step_update_run_status:
  assumes "update_run_status now db key target = Inr (r, db')"
  shows "step_ok X db db'"
proof -
  obtain row where row: "run_by_id db key = Some row"
    and ok: "valid_run_transition (parse_run_status (rr_status row)) target"
    and db': "db' = (if parse_run_status (rr_status row) \<noteq> target then set_run_status key target now db else db)"
    using assms unfolding update_run_status_def Let_def
    by (auto simp: result_iffs simp del: valid_run_transition.simps split: if_split_asm)
  show ?thesis
  proof (cases "keys_ok db")
    case True
    with step_set_run_status [OF row ok] db' show ?thesis by simp
  qed (simp add: step_ok_def repo_inv_def)
qed

lemma step_register_source: "register_source X db s = Inr (s', db') \<Longrightarrow> step_ok Y db db'"
  by (auto simp: register_source_def require_parent_def result_iffs intro: step_upsert_source)

lemma step_update_source_state:
  assumes "update_source_state X db key target = Inr (s, db')"
  shows "step_ok Y db db'"
proof -
  obtain row where row: "source_row_by_id db key = Some row"
    and ok: "valid_source_transition (parse_source_state (sr_state row)) target"
    and db': "db' = (if parse_source_state (sr_state row) \<noteq> target
        then db\<lparr>rp_sources := map (\<lambda>s. if sr_id s = key
               then s\<lparr>sr_state := source_state_text target\<rparr> else s) (rp_sources db)\<rparr> else db)"
    using assms unfolding update_source_state_def Let_def
    by (auto simp: result_iffs simp del: valid_source_transition.simps split: if_split_asm)
  have only: "s = row" if "keys_ok db" "s \<in> set (rp_sources db)" "sr_id s = key" for s
  proof -
    have "distinct (map sr_id (rp_sources db))" using that(1) by (simp add: keys_ok_def)
    then show ?thesis using that(2,3) source_row_by_id_mem [OF row] by (auto dest!: distinct_map [THEN iffD1] inj_onD)
  qed
  show ?thesis
  proof (cases "keys_ok db")
    case True
    have "step_ok Y db (db\<lparr>rp_sources := map (\<lambda>s. if sr_id s = key
               then s\<lparr>sr_state := source_state_text target\<rparr> else s) (rp_sources db)\<rparr>)"
      by (rule step_map_sources) (use only [OF True] source_transition_le [OF ok] in
        \<open>auto simp: src_le_def source_cycle.parse_text source_cycle.allowed_refl\<close>)
    with db' show ?thesis by simp
  qed (simp add: step_ok_def repo_inv_def)
qed

lemma step_collect:
  assumes "\<And>s. sr_id (g s) = sr_id s \<and> sr_run_id (g s) = sr_run_id s \<and> sr_endpoint (g s) = sr_endpoint s
      \<and> sr_state (g s) \<in> {''active'', ''stale''}"
  shows "step_ok X db (db\<lparr>rp_sources := map (\<lambda>s. if sr_id s = key \<and> collectable db s then g s else s) (rp_sources db)\<rparr>)"
proof (rule step_map_sources)
  fix s :: source_row
  assume "sr_state s \<in> range source_state_text"
  moreover have "sr_state (g s) \<in> range source_state_text" "stage (parse_source_state (sr_state (g s))) = 0"
    using assms [of s] by (auto simp: parse_source_state_def)
  ultimately show "src_le s (if sr_id s = key \<and> collectable db s then g s else s)
      \<and> sr_state (if sr_id s = key \<and> collectable db s then g s else s) \<in> range source_state_text"
    using assms [of s] collectable_state [of "sr_state s"]
    by (auto simp: src_le_def source_le_def collectable_def)
qed

lemma step_start_run: "step_ok X db (start_run key now db)"
  unfolding start_run_def
  by (rule step_map_runs) (auto simp: run_le_def run_cycle.allowed_refl parse_run_status_def
      simp del: valid_run_transition.simps, simp)

lemma step_source_success:
  assumes "source_success X now db u = Inr db'"
  shows "step_ok X db db'"
proof -
  obtain key desc where u: "u = (key, desc)" by fastforce
  obtain encoded db1
    where "put_descriptor X key encoded now (mark_active key (d_source_session_id desc) now db) = Inr db1"
      and "db' = start_run key now db1"
    using assms unfolding u source_success_def by (auto simp: result_iffs)
  moreover have "step_ok X db (mark_active key (d_source_session_id desc) now db)"
    unfolding mark_active_def by (rule step_collect) simp
  ultimately show ?thesis
    by (blast intro: step_ok_trans step_put_descriptor step_start_run)
qed

lemma step_success_batch:
  "update_source_success_batch X now db us = Inr db' \<Longrightarrow> step_ok X db db'"
  unfolding update_source_success_batch_def
  by (induction us arbitrary: db) (auto simp: rbind_eq_Inr intro: step_ok_trans step_source_success)

lemma step_failure: "step_ok X db (update_source_failure db key error)"
  unfolding update_source_failure_def by (rule step_collect) simp

end
