(* ===== verification/Eviction.thy ===== *)
theory Eviction
  imports Rvx_Prelude
begin

text \<open>
  The contract of a \<open>while over-budget { pop the oldest }\<close> loop, which the snapshot producer and
  the tracker's history both use. \<open>loop\<close> is optional because the source's loop may spin for ever
  on an empty queue; the laws say why it does not, and \<open>loop_result\<close> says where it stops.
\<close>

locale eviction_loop =
  fixes over :: "'s \<Rightarrow> bool"
    and pop :: "'s \<Rightarrow> 's"
    and loop :: "'s \<Rightarrow> 's option"
    and items :: "'s \<Rightarrow> nat"
    and invar :: "'s \<Rightarrow> bool"
  assumes loop_unfold: "loop s = (if over s then loop (pop s) else Some s)"
    and pop_less: "invar s \<Longrightarrow> over s \<Longrightarrow> items (pop s) < items s"
    and invar_pop: "invar s \<Longrightarrow> over s \<Longrightarrow> invar (pop s)"
begin

text \<open>The loop returns, after the least number of removals that meets the budget.\<close>

lemma loop_result:
  "invar s \<Longrightarrow>
   \<exists>k. loop s = Some ((pop ^^ k) s) \<and> invar ((pop ^^ k) s) \<and> \<not> over ((pop ^^ k) s)
       \<and> (\<forall>j < k. over ((pop ^^ j) s))"
proof (induction "items s" arbitrary: s rule: less_induct)
  case less
  show ?case
  proof (cases "over s")
    case False
    then show ?thesis
      using less.prems loop_unfold [of s] by (intro exI [of _ 0]) simp
  next
    case True
    obtain k where k: "loop (pop s) = Some ((pop ^^ k) (pop s))" "invar ((pop ^^ k) (pop s))"
        "\<not> over ((pop ^^ k) (pop s))" "\<forall>j < k. over ((pop ^^ j) (pop s))"
      using less.hyps [OF pop_less [OF less.prems True] invar_pop [OF less.prems True]] by blast
    have shift: "(pop ^^ j) (pop s) = (pop ^^ Suc j) s" for j
      by (simp only: funpow_Suc_right comp_apply)
    have "over ((pop ^^ j) s)" if "j < Suc k" for j
    proof (cases j)
      case (Suc i)
      then show ?thesis using that k(4) by (metis Suc_less_eq shift)
    qed (simp add: True)
    then show ?thesis
      using k True loop_unfold [of s]
      by (intro exI [of _ "Suc k"]) (simp add: shift del: funpow.simps(2))
  qed
qed

lemma loop_returns: "invar s \<Longrightarrow> loop s \<noteq> None"
  using loop_result by fastforce

end

end
