(* ===== verification/Producer.thy ===== *)
theory Producer
  imports Core_Snapshots Eviction
begin

text \<open>
  \<open>rvx-snapshots\<close> (\<open>rust/rvx-snapshots/src/lib.rs\<close>): the bounded in-memory history of a source.

  \<^item> \<open>producer\<close> is \<open>SnapshotProducer\<close>; \<open>producer_state\<close> is what its mutex guards.
  \<^item> \<open>prepare_batch\<close> and \<open>commit_batch\<close> are the two critical sections of \<open>capture_batch\<close>: the
    first only reads \<open>sealed\<close>, the second runs under the lock. \<open>producer_step\<close> interleaves
    them with other callers.
  \<^item> \<open>evict\<close> is the \<open>while\<close> loop that drops the oldest entries. It would not return if the queue
    were empty and the condition still held, so its value is optional; \<open>None\<close> is divergence,
    and \<open>commit_batch_returns\<close> shows that it never happens.
  \<^item> The clock read for events without a timestamp is the argument \<open>clock\<close>, by event index.
\<close>

subsection \<open>Data\<close>

abbreviation (input) MAX_BATCH_SNAPSHOTS :: nat where "MAX_BATCH_SNAPSHOTS \<equiv> 256"
abbreviation (input) MAX_BUFFER_SNAPSHOTS :: nat where "MAX_BUFFER_SNAPSHOTS \<equiv> 1000000"
abbreviation (input) MAX_BUFFER_BYTES :: nat where "MAX_BUFFER_BYTES \<equiv> 1073741824"

record buffer_limits =
  max_snapshots :: nat
  max_bytes :: nat

definition default_limits :: buffer_limits where
  "default_limits = \<lparr>max_snapshots = 1024, max_bytes = 67108864\<rparr>"

record snapshot_event =
  e_state :: json
  e_observed_at_ns :: "int option"
  e_axes :: "(string, int) bmap"

record capture_receipt =
  r_first_sequence :: nat
  r_next_sequence :: nat
  r_accepted :: nat
  r_dropped_snapshots :: nat

record producer_stats =
  stat_buffered_snapshots :: nat
  stat_buffered_bytes :: nat
  stat_dropped_snapshots :: nat
  stat_oldest_sequence :: nat
  stat_next_sequence :: nat
  stat_sealed :: bool

datatype producer_error =
    InvalidInput string
  | Sealed
  | SequenceExhausted
  | SnapshotUnavailable

record buffered_snapshot =
  b_snapshot :: state_snapshot
  b_bytes :: nat

record producer_state =
  p_snapshots :: "buffered_snapshot list"
  p_buffered_bytes :: nat
  p_dropped_snapshots :: nat
  p_next_sequence :: nat
  p_sealed :: bool
  p_latest_observation :: "buffered_snapshot option"

definition initial_state :: producer_state where
  "initial_state = \<lparr>p_snapshots = [], p_buffered_bytes = 0, p_dropped_snapshots = 0,
     p_next_sequence = 0, p_sealed = False, p_latest_observation = None\<rparr>"

record producer =
  pr_descriptor :: snapshot_descriptor
  pr_limits :: buffer_limits
  pr_state :: producer_state

record history_selection =
  sel_oldest_sequence :: nat
  sel_next_sequence :: nat
  sel_dropped_before :: "nat option"
  sel_snapshots :: "state_snapshot list"

type_synonym prepared = "state_snapshot \<times> nat \<times> nat"

subsection \<open>Validation helpers\<close>

definition input_error :: "protocol_error \<Rightarrow> producer_error" where
  "input_error e = InvalidInput (protocol_error_text e)"

definition validate_text :: "string \<Rightarrow> string \<Rightarrow> nat \<Rightarrow> bool \<Rightarrow> producer_error + unit" where
  "validate_text field txt maximum allow_empty =
     ensure (\<not> (maximum < length txt \<or> (\<not> allow_empty \<and> blank txt)))
       (InvalidInput (field @ '' must '' @ (if allow_empty then [] else ''be nonblank and '')
          @ ''contain at most '' @ show_nat maximum @ '' UTF-8 bytes''))"

definition validate_descriptor :: "snapshot_descriptor \<Rightarrow> producer_error + unit" where
  "validate_descriptor descriptor =
     rbind (ensure (\<not> (d_protocol_version descriptor \<noteq> 1 \<or> d_schema_version descriptor \<noteq> 1))
              (InvalidInput ''protocol_version and schema_version must be 1'')) (\<lambda>_.
     rbind (for_each (\<lambda>(name, txt). validate_text name txt 256 False)
              [(''source_session_id'', d_source_session_id descriptor),
               (''project'', d_project descriptor),
               (''experiment'', d_experiment descriptor),
               (''run_id'', d_run_id descriptor),
               (''attempt_id'', d_attempt_id descriptor),
               (''role'', d_role descriptor)]) (\<lambda>_.
     rbind (case d_node_id descriptor of None \<Rightarrow> Inr ()
            | Some node \<Rightarrow> validate_text ''node_id'' node 256 False) (\<lambda>_.
     rbind (ensure (\<not> 64 < length (d_labels descriptor))
              (InvalidInput ''labels exceed 64 entries'')) (\<lambda>_.
     for_each (\<lambda>(name, value).
         rbind (validate_text ''label name'' name 256 False) (\<lambda>_.
         validate_text ''label value'' value 1024 True)) (d_labels descriptor)))))"

function accounted_value :: "json \<Rightarrow> nat \<Rightarrow> producer_error + nat" where
  "accounted_value value depth =
     (if MAX_SNAPSHOT_DEPTH < depth then Inl (InvalidInput ''JSON nesting exceeds 64 levels'')
      else (case value of
          JArray values \<Rightarrow>
            try_fold (\<lambda>bytes child.
                rbind (accounted_value child (depth + 1)) (\<lambda>n. Inr (bytes + n))) 64 values
        | JObject values \<Rightarrow>
            try_fold (\<lambda>bytes kv.
                rbind (accounted_value (snd kv) (depth + 1)) (\<lambda>n.
                  Inr (bytes + 128 + length (fst kv) + n))) 64 values
        | JString txt \<Rightarrow> Inr (64 + length txt)
        | JNumber number \<Rightarrow> Inr (64 + length number)
        | _ \<Rightarrow> Inr 64))"
  by pat_completeness auto
termination
  by (relation "measure (\<lambda>(value, depth). Suc MAX_SNAPSHOT_DEPTH - depth)") auto

declare accounted_value.simps [simp del]

subsection \<open>Construction and capture\<close>

definition new :: "snapshot_descriptor \<Rightarrow> buffer_limits \<Rightarrow> producer_error + producer" where
  "new descriptor limits =
     rbind (ensure (1 \<le> max_snapshots limits \<and> max_snapshots limits \<le> MAX_BUFFER_SNAPSHOTS
                    \<and> 1 \<le> max_bytes limits \<and> max_bytes limits \<le> MAX_BUFFER_BYTES)
              (InvalidInput
                 ''buffer count/byte limits must be positive and within supported bounds'')) (\<lambda>_.
     rbind (validate_descriptor descriptor) (\<lambda>_.
     Inr \<lparr>pr_descriptor = descriptor, pr_limits = limits, pr_state = initial_state\<rparr>))"

definition pinned_bytes :: "producer_state \<Rightarrow> nat" where
  "pinned_bytes st =
     (case p_latest_observation st of None \<Rightarrow> 0
      | Some entry \<Rightarrow>
          (if (case p_snapshots st of [] \<Rightarrow> True
               | front # _ \<Rightarrow> s_sequence (b_snapshot entry) < s_sequence (b_snapshot front))
           then b_bytes entry else 0))"

definition oldest_sequence :: "producer_state \<Rightarrow> nat" where
  "oldest_sequence st =
     (case p_snapshots st of [] \<Rightarrow> p_next_sequence st | entry # _ \<Rightarrow> s_sequence (b_snapshot entry))"

text \<open>One iteration of the preparation loop; the running values are \<open>prepared\<close> and
  \<open>batch_bytes\<close>.\<close>

definition prepare_event ::
  "serde_ext \<Rightarrow> producer \<Rightarrow> (nat \<Rightarrow> int) \<Rightarrow> prepared list \<times> nat \<Rightarrow> snapshot_event
   \<Rightarrow> producer_error + (prepared list \<times> nat)" where
  "prepare_event X p clock acc event =
     (let (prepared, batch_bytes) = acc in
     rbind (ensure (is_object (e_state event)) (InvalidInput ''state must be a JSON object'')) (\<lambda>_.
     rbind (accounted_value (e_state event) 0) (\<lambda>state_bytes.
     rbind (ensure (\<not> 64 < length (e_axes event)) (InvalidInput ''axes exceed 64 entries'')) (\<lambda>_.
     rbind (for_each (\<lambda>name. validate_text ''axis name'' name 256 False) (bm_keys (e_axes event))) (\<lambda>_.
     let axes_bytes = sum_list (map (\<lambda>name. 128 + length name) (bm_keys (e_axes event)));
         snapshot = \<lparr>s_source_session_id = d_source_session_id (pr_descriptor p),
                     s_sequence = 0,
                     s_observed_at_ns = (case e_observed_at_ns event of Some t \<Rightarrow> t
                                         | None \<Rightarrow> clock (length prepared)),
                     s_schema_version = d_schema_version (pr_descriptor p),
                     s_axes = e_axes event,
                     s_state = e_state event\<rparr> in
     rbind (map_err input_error (validate_state_snapshot X snapshot)) (\<lambda>_.
     rbind (map_err InvalidInput (to_vec_snapshot X snapshot)) (\<lambda>vec.
     let encoded = length vec in
     rbind (ensure (\<not> MAX_SNAPSHOT_BYTES < encoded) (InvalidInput ''snapshot exceeds 4 MiB'')) (\<lambda>_.
     let batch_bytes = batch_bytes + (encoded + 1) in
     rbind (ensure (\<not> MAX_SNAPSHOT_PAGE_BYTES < batch_bytes)
              (InvalidInput ''snapshot batch exceeds 16 MiB'')) (\<lambda>_.
     let bytes = 512 + length (s_source_session_id snapshot) + axes_bytes + state_bytes in
     rbind (ensure (\<not> max_bytes (pr_limits p) < bytes)
              (InvalidInput ''a snapshot exceeds the accounted buffer byte budget'')) (\<lambda>_.
     Inr (prepared @ [(snapshot, bytes, encoded)], batch_bytes)))))))))))"

definition prepare_batch ::
  "serde_ext \<Rightarrow> producer \<Rightarrow> (nat \<Rightarrow> int) \<Rightarrow> snapshot_event list \<Rightarrow> producer_error + prepared list" where
  "prepare_batch X p clock events =
     rbind (ensure (\<not> p_sealed (pr_state p)) Sealed) (\<lambda>_.
     rbind (ensure (\<not> (events = [] \<or> MAX_BATCH_SNAPSHOTS < length events))
              (InvalidInput ''batch size must be between 1 and 256'')) (\<lambda>_.
     rbind (try_fold (prepare_event X p clock) ([], 2) events) (\<lambda>acc.
     Inr (fst acc))))"

text \<open>\<open>checked_add\<close> of the batch size, kept within the durable cursor range.\<close>

definition advance :: "nat \<Rightarrow> nat \<Rightarrow> producer_error + nat" where
  "advance first_sequence accepted =
     ok_or SequenceExhausted
       (case checked_add_u64 first_sequence accepted of None \<Rightarrow> None
        | Some nxt \<Rightarrow> if nxt \<le> i64_max_u then Some nxt else None)"

definition check_digits :: "nat \<Rightarrow> nat \<times> prepared \<Rightarrow> producer_error + unit" where
  "check_digits first_sequence = (\<lambda>(index, (_, _, encoded)).
     let digits = ilog10 (first_sequence + index) + 1 in
     ensure (\<not> MAX_SNAPSHOT_BYTES < encoded + digits - 1)
       (InvalidInput ''snapshot exceeds 4 MiB including its assigned sequence''))"

definition check_budget :: "serde_ext \<Rightarrow> buffer_limits \<Rightarrow> nat \<Rightarrow> prepared \<Rightarrow> producer_error + nat" where
  "check_budget X limits latest_bytes = (\<lambda>(snapshot, bytes, _).
     rbind (map_err input_error (is_tracker_event X (s_state snapshot))) (\<lambda>is_event.
     if is_event
     then (if max_bytes limits < latest_bytes + bytes
           then Inl (InvalidInput ''event plus current observation exceeds producer byte budget'')
           else Inr latest_bytes)
     else Inr bytes))"

definition over_budget :: "buffer_limits \<Rightarrow> nat \<Rightarrow> bool \<Rightarrow> producer_state \<Rightarrow> bool" where
  "over_budget limits bytes is_event st \<longleftrightarrow>
     max_snapshots limits \<le> length (p_snapshots st)
     \<or> max_bytes limits < p_buffered_bytes st + bytes + (if is_event then pinned_bytes st else 0)"

definition pop_front :: "producer_state \<Rightarrow> producer_state" where
  "pop_front st =
     (case p_snapshots st of [] \<Rightarrow> st
      | removed # rest \<Rightarrow>
          st\<lparr>p_snapshots := rest, p_buffered_bytes := p_buffered_bytes st - b_bytes removed,
             p_dropped_snapshots := p_dropped_snapshots st + 1\<rparr>)"

partial_function (option) evict ::
  "buffer_limits \<Rightarrow> nat \<Rightarrow> bool \<Rightarrow> producer_state \<Rightarrow> producer_state option" where
  [code]: "evict limits bytes is_event st =
     (if over_budget limits bytes is_event st
      then evict limits bytes is_event (pop_front st)
      else Some st)"

definition push_back :: "state_snapshot \<Rightarrow> nat \<Rightarrow> bool \<Rightarrow> producer_state \<Rightarrow> producer_state" where
  "push_back snapshot bytes is_event st =
     (let entry = \<lparr>b_snapshot = snapshot, b_bytes = bytes\<rparr> in
      st\<lparr>p_buffered_bytes := p_buffered_bytes st + bytes,
         p_latest_observation := (if is_event then p_latest_observation st else Some entry),
         p_snapshots := p_snapshots st @ [entry]\<rparr>)"

text \<open>The insertion loop; an early error return leaves the entries already inserted.\<close>

fun insert_prepared ::
  "serde_ext \<Rightarrow> buffer_limits \<Rightarrow> nat \<Rightarrow> prepared list \<Rightarrow> producer_state
   \<Rightarrow> ((producer_error + unit) \<times> producer_state) option" where
  "insert_prepared X limits sequence [] st = Some (Inr (), st)"
| "insert_prepared X limits sequence ((snapshot, bytes, _) # prepared) st =
     (let snapshot = snapshot\<lparr>s_sequence := sequence\<rparr> in
      case is_tracker_event X (s_state snapshot) of
        Inl e \<Rightarrow> Some (Inl (input_error e), st)
      | Inr is_event \<Rightarrow>
          Option.bind (evict limits bytes is_event st) (\<lambda>st.
            insert_prepared X limits (sequence + 1) prepared (push_back snapshot bytes is_event st)))"

definition commit_batch ::
  "serde_ext \<Rightarrow> buffer_limits \<Rightarrow> prepared list \<Rightarrow> producer_state
   \<Rightarrow> ((producer_error + capture_receipt) \<times> producer_state) option" where
  "commit_batch X limits prepared st =
     (let accepted = length prepared; first_sequence = p_next_sequence st in
      case rbind (ensure (\<not> p_sealed st) Sealed) (\<lambda>_.
           rbind (advance first_sequence accepted) (\<lambda>next_sequence.
           rbind (for_each (check_digits first_sequence) (enumerate 0 prepared)) (\<lambda>_.
           rbind (try_fold (check_budget X limits)
                    (case p_latest_observation st of None \<Rightarrow> 0 | Some s \<Rightarrow> b_bytes s) prepared) (\<lambda>_.
           Inr next_sequence))))
      of Inl e \<Rightarrow> Some (Inl e, st)
       | Inr next_sequence \<Rightarrow>
          Option.bind (insert_prepared X limits first_sequence prepared st) (\<lambda>(res, st).
            case res of
              Inl e \<Rightarrow> Some (Inl e, st)
            | Inr _ \<Rightarrow>
                Some (Inr \<lparr>r_first_sequence = first_sequence, r_next_sequence = next_sequence,
                           r_accepted = accepted, r_dropped_snapshots = p_dropped_snapshots st\<rparr>,
                      st\<lparr>p_next_sequence := next_sequence\<rparr>)))"

definition capture_batch ::
  "serde_ext \<Rightarrow> (nat \<Rightarrow> int) \<Rightarrow> producer \<Rightarrow> snapshot_event list
   \<Rightarrow> ((producer_error + capture_receipt) \<times> producer) option" where
  "capture_batch X clock p events =
     (case prepare_batch X p clock events of
        Inl e \<Rightarrow> Some (Inl e, p)
      | Inr prepared \<Rightarrow>
          map_option (\<lambda>(res, st). (res, p\<lparr>pr_state := st\<rparr>))
            (commit_batch X (pr_limits p) prepared (pr_state p)))"

definition capture ::
  "serde_ext \<Rightarrow> (nat \<Rightarrow> int) \<Rightarrow> producer \<Rightarrow> snapshot_event
   \<Rightarrow> ((producer_error + capture_receipt) \<times> producer) option" where
  "capture X clock p event = capture_batch X clock p [event]"

subsection \<open>Reading and sealing\<close>

definition latest :: "producer \<Rightarrow> producer_error + state_snapshot" where
  "latest p = ok_or SnapshotUnavailable
     (map_option b_snapshot (p_latest_observation (pr_state p)))"

definition latest_bytes :: "serde_ext \<Rightarrow> producer \<Rightarrow> producer_error + string" where
  "latest_bytes X p = rbind (latest p) (\<lambda>s. map_err InvalidInput (to_vec_snapshot X s))"

text \<open>How many of the selected snapshots fit the page.\<close>

fun fit_count :: "serde_ext \<Rightarrow> nat \<Rightarrow> nat \<Rightarrow> state_snapshot list \<Rightarrow> producer_error + nat" where
  "fit_count X bytes count [] = Inr count"
| "fit_count X bytes count (snapshot # snapshots) =
     rbind (map_err InvalidInput (to_vec_snapshot X snapshot)) (\<lambda>vec.
       let length' = length vec + 1 in
       if MAX_SNAPSHOT_PAGE_BYTES < bytes + length' then Inr count
       else fit_count X (bytes + length') (count + 1) snapshots)"

definition select_history :: "serde_ext \<Rightarrow> producer \<Rightarrow> nat \<Rightarrow> nat \<Rightarrow> producer_error + history_selection" where
  "select_history X p after limit =
     (let st = pr_state p; oldest = oldest_sequence st;
          snapshots = map b_snapshot (take limit (drop (after - oldest) (p_snapshots st))) in
     rbind (ensure (1 \<le> limit \<and> limit \<le> MAX_SNAPSHOT_HISTORY_LIMIT)
              (InvalidInput ''limit must be between 1 and 256'')) (\<lambda>_.
     rbind (ensure (\<not> p_next_sequence st < after)
              (InvalidInput ''after must not exceed next_sequence'')) (\<lambda>_.
     rbind (fit_count X (1024 + length (d_source_session_id (pr_descriptor p)) * 6) 0 snapshots) (\<lambda>count.
     let kept = take count snapshots in
     Inr \<lparr>sel_oldest_sequence = oldest,
          sel_next_sequence = (if kept = [] then max after oldest else s_sequence (last kept) + 1),
          sel_dropped_before = (if after < oldest then Some oldest else None),
          sel_snapshots = kept\<rparr>))))"

definition history :: "serde_ext \<Rightarrow> producer \<Rightarrow> nat \<Rightarrow> nat \<Rightarrow> producer_error + snapshot_history_response" where
  "history X p after limit =
     rbind (select_history X p after limit) (\<lambda>selected.
     Inr \<lparr>h_protocol_version = 1,
          h_source_session_id = d_source_session_id (pr_descriptor p),
          h_oldest_sequence = sel_oldest_sequence selected,
          h_next_sequence = sel_next_sequence selected,
          h_dropped_before = sel_dropped_before selected,
          h_snapshots = sel_snapshots selected\<rparr>)"

definition history_bytes :: "serde_ext \<Rightarrow> producer \<Rightarrow> nat \<Rightarrow> nat \<Rightarrow> producer_error + string" where
  "history_bytes X p after limit =
     rbind (history X p after limit) (\<lambda>page. map_err InvalidInput (to_vec_page X page))"

definition stats :: "producer \<Rightarrow> producer_stats" where
  "stats p =
     (let st = pr_state p in
      \<lparr>stat_buffered_snapshots = length (p_snapshots st),
       stat_buffered_bytes = p_buffered_bytes st + pinned_bytes st,
       stat_dropped_snapshots = p_dropped_snapshots st,
       stat_oldest_sequence = oldest_sequence st,
       stat_next_sequence = p_next_sequence st,
       stat_sealed = p_sealed st\<rparr>)"

definition seal :: "producer \<Rightarrow> nat \<times> producer" where
  "seal p = (p_next_sequence (pr_state p), p\<lparr>pr_state := (pr_state p)\<lparr>p_sealed := True\<rparr>\<rparr>)"

definition seal_and_release_history :: "producer \<Rightarrow> nat \<times> producer" where
  "seal_and_release_history p =
     (p_next_sequence (pr_state p),
      p\<lparr>pr_state := (pr_state p)\<lparr>p_sealed := True, p_buffered_bytes := 0,
         p_latest_observation := None, p_snapshots := []\<rparr>\<rparr>)"


section \<open>The buffer is a suffix of the trail of all captures\<close>

text \<open>
  The abstract producer is its trail: every entry ever captured, the \<open>i\<close>-th with sequence number
  \<open>i\<close>. \<open>tracks X st trail\<close> says that the state retains the suffix of the trail after the dropped
  entries, accounts its bytes, and remembers the last entry that is not a tracker event.
\<close>

definition is_event_entry :: "serde_ext \<Rightarrow> buffered_snapshot \<Rightarrow> bool" where
  "is_event_entry X e \<longleftrightarrow> is_tracker_event X (s_state (b_snapshot e)) = Inr True"

definition last_observation :: "serde_ext \<Rightarrow> buffered_snapshot list \<Rightarrow> buffered_snapshot option" where
  "last_observation X trail =
     (case rev (filter (\<lambda>e. \<not> is_event_entry X e) trail) of [] \<Rightarrow> None | e # _ \<Rightarrow> Some e)"

definition log_ok :: "buffered_snapshot list \<Rightarrow> bool" where
  "log_ok trail \<longleftrightarrow> map (s_sequence \<circ> b_snapshot) trail = [0..<length trail]"

definition tracks :: "serde_ext \<Rightarrow> producer_state \<Rightarrow> buffered_snapshot list \<Rightarrow> bool" where
  "tracks X st trail \<longleftrightarrow>
     log_ok trail \<and> p_dropped_snapshots st \<le> length trail
     \<and> p_snapshots st = drop (p_dropped_snapshots st) trail
     \<and> p_buffered_bytes st = sum_list (map b_bytes (p_snapshots st))
     \<and> p_latest_observation st = last_observation X trail"

definition fits :: "buffer_limits \<Rightarrow> producer_state \<Rightarrow> bool" where
  "fits limits st \<longleftrightarrow>
     length (p_snapshots st) \<le> max_snapshots limits
     \<and> p_buffered_bytes st + pinned_bytes st \<le> max_bytes limits"

definition latest_size :: "producer_state \<Rightarrow> nat" where
  "latest_size st = (case p_latest_observation st of None \<Rightarrow> 0 | Some s \<Rightarrow> b_bytes s)"

lemma pinned_bytes_frame [simp]:
  "pinned_bytes (st\<lparr>p_next_sequence := n\<rparr>) = pinned_bytes st"
  "pinned_bytes (st\<lparr>p_sealed := b\<rparr>) = pinned_bytes st"
  by (simp_all add: pinned_bytes_def split: option.split)

lemma state_frame [simp]:
  "tracks X (st\<lparr>p_next_sequence := n\<rparr>) trail = tracks X st trail"
  "tracks X (st\<lparr>p_sealed := b\<rparr>) trail = tracks X st trail"
  "fits limits (st\<lparr>p_next_sequence := n\<rparr>) = fits limits st"
  "fits limits (st\<lparr>p_sealed := b\<rparr>) = fits limits st"
  by (simp_all add: tracks_def fits_def)

lemma log_ok_Nil [simp]: "log_ok []"
  by (simp add: log_ok_def)

lemma log_ok_snoc:
  "log_ok (trail @ [e]) \<longleftrightarrow> log_ok trail \<and> s_sequence (b_snapshot e) = length trail"
  by (simp add: log_ok_def)

lemma log_ok_nth: "log_ok trail \<Longrightarrow> i < length trail \<Longrightarrow> s_sequence (b_snapshot (trail ! i)) = i"
  unfolding log_ok_def by (metis add_0 comp_apply length_map nth_map nth_upt)

lemma last_observation_snoc:
  "last_observation X (trail @ [e]) = (if is_event_entry X e then last_observation X trail else Some e)"
  by (simp add: last_observation_def)

lemma last_observation_append:
  "last_observation X (trail @ es) =
     (case last_observation X es of None \<Rightarrow> last_observation X trail | Some e \<Rightarrow> Some e)"
  by (simp add: last_observation_def split: list.split)

lemma tracks_pop: "tracks X st trail \<Longrightarrow> tracks X (pop_front st) trail"
proof (cases "p_snapshots st")
  case (Cons e es)
  assume t: "tracks X st trail"
  then have d: "drop (p_dropped_snapshots st) trail = e # es" using Cons by (simp add: tracks_def)
  then have "p_dropped_snapshots st < length trail" by (metis drop_eq_Nil linorder_not_le list.discI)
  moreover have "drop (Suc (p_dropped_snapshots st)) trail = es"
    using d by (metis drop_Suc list.sel(3) tl_drop)
  moreover have "pop_front st = st\<lparr>p_snapshots := es,
      p_buffered_bytes := p_buffered_bytes st - b_bytes e,
      p_dropped_snapshots := p_dropped_snapshots st + 1\<rparr>"
    by (simp add: pop_front_def Cons)
  ultimately show ?thesis using t Cons by (auto simp: tracks_def)
qed (simp add: pop_front_def)

lemma tracks_pop_n: "tracks X st trail \<Longrightarrow> tracks X ((pop_front ^^ k) st) trail"
  by (induction k) (simp_all add: tracks_pop)

lemma pop_front_more [simp]:
  "p_latest_observation (pop_front st) = p_latest_observation st"
  "p_next_sequence (pop_front st) = p_next_sequence st"
  "p_sealed (pop_front st) = p_sealed st"
  by (simp_all add: pop_front_def split: list.split)

lemma pop_n_dropped: "p_dropped_snapshots st \<le> p_dropped_snapshots ((pop_front ^^ k) st)"
proof (induction k)
  case (Suc k)
  have "p_dropped_snapshots s \<le> p_dropped_snapshots (pop_front s)" for s
    by (simp add: pop_front_def split: list.split)
  with Suc show ?case by (metis comp_apply funpow.simps(2) le_trans)
qed simp

lemma pop_n_more [simp]:
  "p_latest_observation ((pop_front ^^ k) st) = p_latest_observation st"
  "p_next_sequence ((pop_front ^^ k) st) = p_next_sequence st"
  "p_sealed ((pop_front ^^ k) st) = p_sealed st"
  by (induction k) simp_all

text \<open>What makes the eviction loop return: the new entry and the pinned one fit together.\<close>

definition evictable :: "buffer_limits \<Rightarrow> nat \<Rightarrow> bool \<Rightarrow> producer_state \<Rightarrow> bool" where
  "evictable limits bytes is_event st \<longleftrightarrow>
     1 \<le> max_snapshots limits
     \<and> bytes + (if is_event then latest_size st else 0) \<le> max_bytes limits
     \<and> p_buffered_bytes st = sum_list (map b_bytes (p_snapshots st))"

lemma pinned_bytes_le: "pinned_bytes st \<le> latest_size st"
  by (simp add: pinned_bytes_def latest_size_def split: option.split)

lemma over_budget_nonempty:
  "evictable limits bytes is_event st \<Longrightarrow> over_budget limits bytes is_event st \<Longrightarrow> p_snapshots st \<noteq> []"
  using pinned_bytes_le [of st]
  by (auto simp: evictable_def over_budget_def split: if_splits)

interpretation evict: eviction_loop "over_budget limits bytes is_event" pop_front
  "evict limits bytes is_event" "length \<circ> p_snapshots" "evictable limits bytes is_event"
  for limits bytes is_event
proof unfold_locales
  fix st
  show "evict limits bytes is_event st =
      (if over_budget limits bytes is_event st then evict limits bytes is_event (pop_front st)
       else Some st)"
    by (rule evict.simps)
  assume e: "evictable limits bytes is_event st" and o: "over_budget limits bytes is_event st"
  from over_budget_nonempty [OF e o] obtain x xs where "p_snapshots st = x # xs"
    by (cases "p_snapshots st") auto
  with e show "(length \<circ> p_snapshots) (pop_front st) < (length \<circ> p_snapshots) st"
    and "evictable limits bytes is_event (pop_front st)"
    by (auto simp: pop_front_def evictable_def latest_size_def)
qed

text \<open>Appending an entry once the loop has made room.\<close>

lemma push_back_tracks:
  assumes "tracks X st trail" and "is_tracker_event X (s_state s) = Inr is_event"
    and "s_sequence s = length trail"
  shows "tracks X (push_back s bytes is_event st) (trail @ [\<lparr>b_snapshot = s, b_bytes = bytes\<rparr>])"
  using assms
  by (auto simp: tracks_def push_back_def Let_def log_ok_snoc last_observation_snoc is_event_entry_def)

lemma push_back_fits:
  assumes t: "tracks X st trail" and s: "s_sequence s = length trail"
    and room: "\<not> over_budget limits bytes is_event st"
  shows "fits limits (push_back s bytes is_event st)"
proof -
  let ?st = "push_back s bytes is_event st"
  have "pinned_bytes ?st \<le> (if is_event then pinned_bytes st else 0)"
  proof (cases "p_snapshots st")
    case Nil
    then show ?thesis
      by (auto simp: push_back_def pinned_bytes_def Let_def split: option.split)
  next
    case (Cons f fs)
    with t have d: "drop (p_dropped_snapshots st) trail = f # fs" by (simp add: tracks_def)
    then have "f = trail ! p_dropped_snapshots st" "p_dropped_snapshots st < length trail"
      by (metis Cons_nth_drop_Suc drop_eq_Nil linorder_not_le list.discI list.inject)+
    with t have "s_sequence (b_snapshot f) < length trail" by (simp add: tracks_def log_ok_nth)
    with Cons s show ?thesis
      by (auto simp: push_back_def pinned_bytes_def Let_def split: option.split)
  qed
  with room show ?thesis
    by (auto simp: fits_def over_budget_def push_back_def Let_def split: if_splits)
qed

text \<open>The part of a snapshot that the caller supplies.\<close>

definition event_of :: "state_snapshot \<Rightarrow> json \<times> (string, int) bmap" where
  "event_of s = (s_state s, s_axes s)"

text \<open>The entries a prepared batch becomes, numbered from \<open>n\<close>.\<close>

fun assigned :: "nat \<Rightarrow> prepared list \<Rightarrow> buffered_snapshot list" where
  "assigned n [] = []"
| "assigned n ((s, b, _) # ps) =
     \<lparr>b_snapshot = s\<lparr>s_sequence := n\<rparr>, b_bytes = b\<rparr> # assigned (Suc n) ps"

lemma length_assigned [simp]: "length (assigned n ps) = length ps"
  by (induction n ps rule: assigned.induct) auto

lemma assigned_events: "map (event_of \<circ> b_snapshot) (assigned n ps) = map (event_of \<circ> fst) ps"
  by (induction n ps rule: assigned.induct) (auto simp: event_of_def)

lemma assigned_sequences: "map (s_sequence \<circ> b_snapshot) (assigned n ps) = [n..<n + length ps]"
proof (induction n ps rule: assigned.induct)
  case (2 n s b c ps)
  have "[n..<n + length ((s, b, c) # ps)] = n # [Suc n..<Suc n + length ps]"
    by (rule upt_Suc_length)
  with 2 show ?case by simp
qed simp

lemma latest_size_evicted [simp]: "latest_size ((pop_front ^^ k) st) = latest_size st"
  by (simp add: latest_size_def)

lemma latest_size_push:
  "latest_size (push_back s b is_event st) = (if is_event then latest_size st else b)"
  by (simp add: latest_size_def push_back_def Let_def)

lemma push_back_more [simp]:
  "p_next_sequence (push_back s b is_event st) = p_next_sequence st"
  "p_sealed (push_back s b is_event st) = p_sealed st"
  "p_dropped_snapshots (push_back s b is_event st) = p_dropped_snapshots st"
  by (simp_all add: push_back_def Let_def)

lemma check_budget_Inr:
  "check_budget X limits lb (s, b, enc) = Inr r \<longleftrightarrow>
     (\<exists>is_event. is_tracker_event X (s_state s) = Inr is_event
        \<and> (is_event \<longrightarrow> lb + b \<le> max_bytes limits) \<and> r = (if is_event then lb else b))"
  by (auto simp: check_budget_def result_iffs not_less split: if_splits)

lemma insert_prepared_result:
  assumes "tracks X st trail" and "fits limits st" and "1 \<le> max_snapshots limits"
    and "\<forall>(s, b, _) \<in> set ps. b \<le> max_bytes limits"
    and "try_fold (check_budget X limits) (latest_size st) ps = Inr lb"
    and "n = length trail"
  shows "\<exists>st'. insert_prepared X limits n ps st = Some (Inr (), st')
           \<and> tracks X st' (trail @ assigned n ps) \<and> fits limits st'
           \<and> p_next_sequence st' = p_next_sequence st \<and> p_sealed st' = p_sealed st
           \<and> p_dropped_snapshots st \<le> p_dropped_snapshots st'"
  using assms
proof (induction ps arbitrary: st trail n)
  case Nil
  then show ?case by simp
next
  case (Cons q ps)
  obtain s b enc where q: "q = (s, b, enc)" by (cases q) auto
  let ?s = "s\<lparr>s_sequence := n\<rparr>"
  obtain is_event where ev: "is_tracker_event X (s_state s) = Inr is_event"
    and room: "is_event \<longrightarrow> latest_size st + b \<le> max_bytes limits"
    and rest: "try_fold (check_budget X limits) (if is_event then latest_size st else b) ps = Inr lb"
    using Cons.prems(5) by (auto simp: q check_budget_Inr rbind_eq_Inr)
  have ready: "evictable limits b is_event st"
    using Cons.prems room by (auto simp: evictable_def tracks_def q)
  obtain k where k: "evict limits b is_event st = Some ((pop_front ^^ k) st)"
      "\<not> over_budget limits b is_event ((pop_front ^^ k) st)"
    using evict.loop_result [OF ready] by blast
  let ?st = "push_back ?s b is_event ((pop_front ^^ k) st)"
  have t: "tracks X ((pop_front ^^ k) st) trail" using Cons.prems(1) by (rule tracks_pop_n)
  have n: "s_sequence ?s = length trail" using Cons.prems(6) by simp
  have "tracks X ?st (trail @ [\<lparr>b_snapshot = ?s, b_bytes = b\<rparr>])"
    by (rule push_back_tracks [OF t _ n]) (simp add: ev)
  moreover have "fits limits ?st" by (rule push_back_fits [OF t n k(2)])
  moreover have "latest_size ?st = (if is_event then latest_size st else b)"
    by (simp add: latest_size_push)
  ultimately show ?case
    using Cons.IH [of ?st "trail @ [\<lparr>b_snapshot = ?s, b_bytes = b\<rparr>]" "Suc n"] Cons.prems rest
      pop_n_dropped [of st k] by (auto simp: q ev k(1))
qed

section \<open>Preparation\<close>

definition prepared_ok :: "serde_ext \<Rightarrow> producer \<Rightarrow> prepared \<Rightarrow> bool" where
  "prepared_ok X p = (\<lambda>(s, bytes, encoded).
     s_sequence s = 0 \<and> s_source_session_id s = d_source_session_id (pr_descriptor p)
     \<and> snapshot_accepted X s \<and> bytes \<le> max_bytes (pr_limits p)
     \<and> (\<exists>vec. to_vec_snapshot X s = Inr vec \<and> encoded = length vec))"

lemma prepare_event_result:
  assumes "prepare_event X p clock (ps, bb) event = Inr acc"
  shows "\<exists>q. fst acc = ps @ [q] \<and> prepared_ok X p q
           \<and> event_of (fst q) = (e_state event, e_axes event)"
  using assms
  by (auto simp: prepare_event_def Let_def result_iffs prepared_ok_def validate_state_snapshot_iff
      event_of_def not_less)

lemma prepare_fold_result:
  "try_fold (prepare_event X p clock) (ps, bb) events = Inr acc \<Longrightarrow>
   \<exists>qs. fst acc = ps @ qs \<and> (\<forall>q \<in> set qs. prepared_ok X p q)
     \<and> map (event_of \<circ> fst) qs = map (\<lambda>e. (e_state e, e_axes e)) events"
proof (induction events arbitrary: ps bb)
  case Nil
  then show ?case by auto
next
  case (Cons e events)
  then obtain ps1 bb1 where s: "prepare_event X p clock (ps, bb) e = Inr (ps1, bb1)"
    and r: "try_fold (prepare_event X p clock) (ps1, bb1) events = Inr acc"
    by (auto simp: rbind_eq_Inr)
  obtain q where q: "ps1 = ps @ [q]" "prepared_ok X p q" "event_of (fst q) = (e_state e, e_axes e)"
    using prepare_event_result [OF s] by auto
  obtain qs where "fst acc = ps1 @ qs" "\<forall>q \<in> set qs. prepared_ok X p q"
      "map (event_of \<circ> fst) qs = map (\<lambda>e. (e_state e, e_axes e)) events"
    using Cons.IH [OF r] by blast
  with q show ?case by (intro exI [of _ "q # qs"]) (simp add: comp_def)
qed

lemma prepare_batch_result:
  assumes "prepare_batch X p clock events = Inr ps"
  shows "\<not> p_sealed (pr_state p)" and "\<forall>q \<in> set ps. prepared_ok X p q"
    and "map (event_of \<circ> fst) ps = map (\<lambda>e. (e_state e, e_axes e)) events"
    and "1 \<le> length events" and "length events \<le> MAX_BATCH_SNAPSHOTS"
proof -
  obtain acc where a: "try_fold (prepare_event X p clock) ([], 2) events = Inr acc" "ps = fst acc"
    and m: "\<not> p_sealed (pr_state p)" "events \<noteq> []" "length events \<le> MAX_BATCH_SNAPSHOTS"
    using assms by (auto simp: prepare_batch_def result_iffs not_less)
  show "\<not> p_sealed (pr_state p)" "length events \<le> MAX_BATCH_SNAPSHOTS" "1 \<le> length events"
    using m by (simp_all add: Suc_leI)
  show "\<forall>q \<in> set ps. prepared_ok X p q"
    "map (event_of \<circ> fst) ps = map (\<lambda>e. (e_state e, e_axes e)) events"
    using prepare_fold_result [OF a(1)] a(2) by auto
qed

section \<open>Committing a batch\<close>

definition limits_ok :: "buffer_limits \<Rightarrow> bool" where
  "limits_ok limits \<longleftrightarrow>
     1 \<le> max_snapshots limits \<and> max_snapshots limits \<le> MAX_BUFFER_SNAPSHOTS
     \<and> 1 \<le> max_bytes limits \<and> max_bytes limits \<le> MAX_BUFFER_BYTES"

lemma advance_Inr:
  "advance n k = Inr m \<longleftrightarrow> m = n + k \<and> m \<le> i64_max_u"
  by (auto simp: advance_def ok_or_eq_Inr checked_add_u64_def split: option.splits if_splits)

lemma commit_batch_cases:
  assumes "tracks X st trail" and "fits limits st" and "limits_ok limits"
    and "p_next_sequence st = length trail"
    and "\<forall>(s, b, _) \<in> set ps. b \<le> max_bytes limits"
  obtains (rejected) e where "commit_batch X limits ps st = Some (Inl e, st)"
  | (accepted) r st' where "commit_batch X limits ps st = Some (Inr r, st')"
      "\<not> p_sealed st" "\<not> p_sealed st'"
      "tracks X st' (trail @ assigned (length trail) ps)" "fits limits st'"
      "p_next_sequence st' = length trail + length ps" "p_next_sequence st' \<le> i64_max_u"
      "r = \<lparr>r_first_sequence = p_next_sequence st, r_next_sequence = p_next_sequence st',
            r_accepted = length ps, r_dropped_snapshots = p_dropped_snapshots st'\<rparr>"
      "for_each (check_digits (length trail)) (enumerate 0 ps) = Inr ()"
      "p_dropped_snapshots st \<le> p_dropped_snapshots st'"
proof -
  let ?check = "rbind (ensure (\<not> p_sealed st) Sealed) (\<lambda>_.
           rbind (advance (p_next_sequence st) (length ps)) (\<lambda>next_sequence.
           rbind (for_each (check_digits (p_next_sequence st)) (enumerate 0 ps)) (\<lambda>_.
           rbind (try_fold (check_budget X limits)
                    (case p_latest_observation st of None \<Rightarrow> 0 | Some s \<Rightarrow> b_bytes s) ps) (\<lambda>_.
           Inr next_sequence))))"
  show thesis
  proof (cases ?check)
    case (Inl e)
    then have "commit_batch X limits ps st = Some (Inl e, st)"
      by (simp add: commit_batch_def Let_def)
    then show thesis by (rule rejected)
  next
    case (Inr m)
    then have m: "m = length trail + length ps" "m \<le> i64_max_u" "\<not> p_sealed st"
        "for_each (check_digits (length trail)) (enumerate 0 ps) = Inr ()"
      and "\<exists>lb. try_fold (check_budget X limits) (latest_size st) ps = Inr lb"
      using assms(4) by (auto simp: rbind_eq_Inr ensure_eq_Inr advance_Inr latest_size_def)
    then obtain st' where st': "insert_prepared X limits (length trail) ps st = Some (Inr (), st')"
        "tracks X st' (trail @ assigned (length trail) ps)" "fits limits st'"
        "p_next_sequence st' = p_next_sequence st" "p_sealed st' = p_sealed st"
        "p_dropped_snapshots st \<le> p_dropped_snapshots st'"
      using insert_prepared_result [OF assms(1,2) _ assms(5)] assms(3)
      by (auto simp: limits_ok_def)
    show thesis
    proof (rule accepted)
      show "commit_batch X limits ps st =
          Some (Inr \<lparr>r_first_sequence = length trail, r_next_sequence = m,
                     r_accepted = length ps, r_dropped_snapshots = p_dropped_snapshots st'\<rparr>,
                st'\<lparr>p_next_sequence := m\<rparr>)"
        using Inr st'(1) assms(4) by (simp add: commit_batch_def Let_def)
    qed (use m st' assms(4) in simp_all)
  qed
qed

section \<open>Interleaved callers\<close>

text \<open>
  A configuration is the producer and the batches that were prepared but not yet committed, one
  per caller between the two critical sections of \<open>capture_batch\<close>. Any caller may commit next.
\<close>

inductive producer_step ::
  "serde_ext \<Rightarrow> producer \<times> prepared list list \<Rightarrow> producer \<times> prepared list list \<Rightarrow> bool"
  for X where
  prepare: "prepare_batch X p clock events = Inr ps \<Longrightarrow> producer_step X (p, fl) (p, fl @ [ps])"
| commit: "commit_batch X (pr_limits p) ps (pr_state p) = Some (r, st) \<Longrightarrow>
     producer_step X (p, as @ ps # bs) (p\<lparr>pr_state := st\<rparr>, as @ bs)"
| seal_step: "producer_step X (p, fl) (snd (seal p), fl)"
| release_step: "producer_step X (p, fl) (snd (seal_and_release_history p), fl)"

inductive_cases producer_stepE [elim]: "producer_step X c c'"

inductive producer_reachable ::
  "serde_ext \<Rightarrow> producer \<times> prepared list list \<Rightarrow> bool" for X where
  start: "new descriptor limits = Inr p \<Longrightarrow> producer_reachable X (p, [])"
| step: "producer_reachable X c \<Longrightarrow> producer_step X c c' \<Longrightarrow> producer_reachable X c'"

definition released :: "producer_state \<Rightarrow> bool" where
  "released st \<longleftrightarrow> p_sealed st \<and> p_snapshots st = [] \<and> p_buffered_bytes st = 0
     \<and> p_latest_observation st = None"

text \<open>
  What the producer relies on of the serializer: the encoding of a snapshot grows by one byte per
  further digit of its sequence number.
\<close>

definition sequence_codec :: "serde_ext \<Rightarrow> bool" where
  "sequence_codec X \<longleftrightarrow>
     (\<forall>s n vec. s_sequence s = 0 \<longrightarrow> n \<le> u64_max \<longrightarrow> to_vec_snapshot X s = Inr vec \<longrightarrow>
        (\<exists>vec'. to_vec_snapshot X (s\<lparr>s_sequence := n\<rparr>) = Inr vec'
           \<and> length vec' = length vec + ilog10 n))"

definition served :: "serde_ext \<Rightarrow> producer \<Rightarrow> buffered_snapshot \<Rightarrow> bool" where
  "served X p e \<longleftrightarrow>
     snapshot_accepted X (b_snapshot e)
     \<and> s_source_session_id (b_snapshot e) = d_source_session_id (pr_descriptor p)"

lemma served_frame [simp]: "served X (p\<lparr>pr_state := st\<rparr>) = served X p"
  by (simp add: served_def fun_eq_iff)

definition producer_inv :: "serde_ext \<Rightarrow> producer \<Rightarrow> bool" where
  "producer_inv X p \<longleftrightarrow>
     limits_ok (pr_limits p) \<and> validate_descriptor (pr_descriptor p) = Inr ()
     \<and> p_next_sequence (pr_state p) \<le> i64_max_u
     \<and> (released (pr_state p)
        \<or> (\<exists>trail. tracks X (pr_state p) trail \<and> fits (pr_limits p) (pr_state p)
             \<and> length trail = p_next_sequence (pr_state p)
             \<and> (sequence_codec X \<longrightarrow> (\<forall>e \<in> set trail. served X p e))))"

definition config_inv :: "serde_ext \<Rightarrow> producer \<times> prepared list list \<Rightarrow> bool" where
  "config_inv X = (\<lambda>(p, fl). producer_inv X p \<and> (\<forall>ps \<in> set fl. \<forall>q \<in> set ps. prepared_ok X p q))"

lemma producer_inv_new: "new descriptor limits = Inr p \<Longrightarrow> producer_inv X p"
  by (auto simp: new_def result_iffs producer_inv_def limits_ok_def initial_state_def tracks_def
      fits_def pinned_bytes_def last_observation_def intro!: disjI2 exI [of _ "[]"])

lemma commit_batch_sealed: "p_sealed st \<Longrightarrow> commit_batch X limits ps st = Some (Inl Sealed, st)"
  by (simp add: commit_batch_def Let_def)

lemma prepared_bytes: "\<forall>q \<in> set ps. prepared_ok X p q \<Longrightarrow>
    \<forall>(s, b, _) \<in> set ps. b \<le> max_bytes (pr_limits p)"
  by (fastforce simp: prepared_ok_def)

text \<open>Committing in a state that satisfies the invariant: it returns, an error changes nothing.\<close>

lemma commit_batch_outcome:
  assumes inv: "producer_inv X p" and ps: "\<forall>q \<in> set ps. prepared_ok X p q"
  obtains (rejected) e where "commit_batch X (pr_limits p) ps (pr_state p) = Some (Inl e, pr_state p)"
  | (accepted) r st' trail where "commit_batch X (pr_limits p) ps (pr_state p) = Some (Inr r, st')"
      "\<not> p_sealed (pr_state p)" "\<not> p_sealed st'"
      "tracks X (pr_state p) trail" "length trail = p_next_sequence (pr_state p)"
      "tracks X st' (trail @ assigned (length trail) ps)" "fits (pr_limits p) st'"
      "p_next_sequence st' = length trail + length ps" "p_next_sequence st' \<le> i64_max_u"
      "r = \<lparr>r_first_sequence = p_next_sequence (pr_state p), r_next_sequence = p_next_sequence st',
            r_accepted = length ps, r_dropped_snapshots = p_dropped_snapshots st'\<rparr>"
      "for_each (check_digits (length trail)) (enumerate 0 ps) = Inr ()"
      "p_dropped_snapshots (pr_state p) \<le> p_dropped_snapshots st'"
      "sequence_codec X \<longrightarrow> (\<forall>e \<in> set trail. served X p e)"
proof (cases "p_sealed (pr_state p)")
  case True
  with rejected commit_batch_sealed show thesis by blast
next
  case False
  then obtain trail where t: "tracks X (pr_state p) trail" "fits (pr_limits p) (pr_state p)"
      "p_next_sequence (pr_state p) = length trail"
      "sequence_codec X \<longrightarrow> (\<forall>e \<in> set trail. served X p e)"
    using inv by (auto simp: producer_inv_def released_def)
  have l: "limits_ok (pr_limits p)" using inv by (simp add: producer_inv_def)
  show thesis
  proof (rule commit_batch_cases [OF t(1,2) l t(3) prepared_bytes [OF ps]], goal_cases)
    case (1 e)
    then show thesis by (rule rejected)
  next
    case (2 r st')
    show thesis by (rule accepted [OF 2(1-3) t(1) t(3) [symmetric] 2(4-10) t(4)])
  qed
qed

lemma snapshot_accepted_sequence:
  assumes "sequence_codec X" and "snapshot_accepted X s" and "s_sequence s = 0"
    and "n < i64_max_u" and "to_vec_snapshot X s = Inr vec"
    and "length vec + ilog10 n \<le> MAX_SNAPSHOT_BYTES"
  shows "snapshot_accepted X (s\<lparr>s_sequence := n\<rparr>)"
proof -
  have "n \<le> u64_max" using assms(4) by linarith
  with assms(1,3,5) obtain vec' where "to_vec_snapshot X (s\<lparr>s_sequence := n\<rparr>) = Inr vec'"
      "length vec' = length vec + ilog10 n"
    unfolding sequence_codec_def by blast
  then show ?thesis using assms by (simp add: snapshot_accepted_def)
qed

lemma assigned_served:
  "sequence_codec X \<Longrightarrow> \<forall>q \<in> set ps. prepared_ok X p q \<Longrightarrow> n + k + length ps \<le> i64_max_u \<Longrightarrow>
   for_each (check_digits n) (enumerate k ps) = Inr () \<Longrightarrow>
   \<forall>e \<in> set (assigned (n + k) ps). served X p e"
proof (induction ps arbitrary: k)
  case Nil
  then show ?case by simp
next
  case (Cons q ps)
  obtain s b enc where q: "q = (s, b, enc)" by (cases q) auto
  have s: "snapshot_accepted X s" "s_sequence s = 0"
      "s_source_session_id s = d_source_session_id (pr_descriptor p)"
    using Cons.prems(2) by (auto simp: q prepared_ok_def)
  obtain vec where vec: "to_vec_snapshot X s = Inr vec" "enc = length vec"
    using Cons.prems(2) by (auto simp: q prepared_ok_def)
  have c: "length vec + ilog10 (n + k) \<le> MAX_SNAPSHOT_BYTES"
      "for_each (check_digits n) (enumerate (Suc k) ps) = Inr ()"
    using Cons.prems(4) vec(2)
    by (auto simp: q check_digits_def Let_def rbind_eq_Inr ensure_eq_Inr not_less)
  have "snapshot_accepted X (s\<lparr>s_sequence := n + k\<rparr>)"
    using snapshot_accepted_sequence [OF Cons.prems(1) s(1,2) _ vec(1) c(1)] Cons.prems(3) by simp
  then show ?case
    using Cons.IH [of "Suc k"] Cons.prems c(2) s(3) by (auto simp: q served_def)
qed

lemma producer_inv_commit:
  assumes "producer_inv X p" and "\<forall>q \<in> set ps. prepared_ok X p q"
    and "commit_batch X (pr_limits p) ps (pr_state p) = Some (r, st)"
  shows "producer_inv X (p\<lparr>pr_state := st\<rparr>)"
  using assms(1,2)
proof (cases rule: commit_batch_outcome)
  case (rejected e)
  with assms(3) have "st = pr_state p" by simp
  with assms(1) show ?thesis by simp
next
  case (accepted r' st' trail)
  have "sequence_codec X \<longrightarrow> (\<forall>e \<in> set (trail @ assigned (length trail) ps). served X p e)"
    using assigned_served [of X ps p "length trail" 0] assms(2) accepted(8,9,11,13) by auto
  moreover have "st = st'" using accepted(1) assms(3) by simp
  moreover have "limits_ok (pr_limits p)" "validate_descriptor (pr_descriptor p) = Inr ()"
    using assms(1) by (simp_all add: producer_inv_def)
  ultimately show ?thesis
    using accepted(6-9)
    by (simp add: producer_inv_def)
      (intro disjI2 exI [of _ "trail @ assigned (length trail) ps"], simp)
qed

lemma producer_inv_seal: "producer_inv X p \<Longrightarrow> producer_inv X (snd (seal p))"
  by (auto simp: producer_inv_def seal_def released_def)

lemma producer_inv_release: "producer_inv X p \<Longrightarrow> producer_inv X (snd (seal_and_release_history p))"
  by (auto simp: producer_inv_def seal_and_release_history_def released_def)

lemma prepared_ok_frame [simp]: "prepared_ok X (p\<lparr>pr_state := st\<rparr>) = prepared_ok X p"
  by (simp add: prepared_ok_def fun_eq_iff)

lemma config_inv_step: "producer_step X c c' \<Longrightarrow> config_inv X c \<Longrightarrow> config_inv X c'"
proof (induction rule: producer_step.induct)
  case (prepare p clock events ps fl)
  then show ?case using prepare_batch_result(2) by (fastforce simp: config_inv_def)
next
  case (commit p ps r st as bs)
  then show ?case by (auto simp: config_inv_def intro: producer_inv_commit)
next
  case (seal_step p fl)
  then show ?case by (auto simp: config_inv_def producer_inv_seal) (simp add: seal_def)
next
  case (release_step p fl)
  then show ?case
    by (auto simp: config_inv_def producer_inv_release) (simp add: seal_and_release_history_def)
qed

lemma reachable_config_inv: "producer_reachable X c \<Longrightarrow> config_inv X c"
proof (induction rule: producer_reachable.induct)
  case (start descriptor limits p)
  then show ?case by (simp add: config_inv_def producer_inv_new)
next
  case (step c c')
  then show ?case by (blast intro: config_inv_step)
qed

section \<open>Pages\<close>

lemma oldest_sequence_tracks:
  assumes "tracks X st trail" and "p_next_sequence st = length trail"
  shows "oldest_sequence st = p_dropped_snapshots st"
proof (cases "p_snapshots st")
  case Nil
  with assms show ?thesis by (auto simp: tracks_def oldest_sequence_def)
next
  case (Cons e es)
  with assms(1) have d: "drop (p_dropped_snapshots st) trail = e # es" by (simp add: tracks_def)
  then have "e = trail ! p_dropped_snapshots st" "p_dropped_snapshots st < length trail"
    by (metis Cons_nth_drop_Suc drop_eq_Nil linorder_not_le list.discI list.inject)+
  moreover have "oldest_sequence st = s_sequence (b_snapshot e)"
    by (simp add: oldest_sequence_def Cons)
  ultimately show ?thesis using assms(1) by (simp add: tracks_def log_ok_nth)
qed

text \<open>The retained sequence numbers are the interval from the oldest to the next one.\<close>

lemma inv_sequences:
  assumes "producer_inv X p"
  shows "map (s_sequence \<circ> b_snapshot) (p_snapshots (pr_state p))
           = [oldest_sequence (pr_state p)..<p_next_sequence (pr_state p)]"
    and "oldest_sequence (pr_state p) \<le> p_next_sequence (pr_state p)"
proof -
  have "map (s_sequence \<circ> b_snapshot) (p_snapshots (pr_state p))
           = [oldest_sequence (pr_state p)..<p_next_sequence (pr_state p)]
      \<and> oldest_sequence (pr_state p) \<le> p_next_sequence (pr_state p)"
  proof (cases "released (pr_state p)")
    case True
    then show ?thesis by (simp add: released_def oldest_sequence_def)
  next
    case False
    then obtain trail where t: "tracks X (pr_state p) trail"
        "p_next_sequence (pr_state p) = length trail"
      using assms by (auto simp: producer_inv_def)
    have "map (s_sequence \<circ> b_snapshot) (drop d trail) = [d..<length trail]" for d
      using t(1) by (simp only: tracks_def log_ok_def drop_map [symmetric] drop_upt) simp
    with t show ?thesis
      by (simp add: oldest_sequence_tracks [OF t]) (simp add: tracks_def)
  qed
  then show "map (s_sequence \<circ> b_snapshot) (p_snapshots (pr_state p))
           = [oldest_sequence (pr_state p)..<p_next_sequence (pr_state p)]"
    and "oldest_sequence (pr_state p) \<le> p_next_sequence (pr_state p)" by blast+
qed

lemma inv_served:
  assumes "producer_inv X p" and "sequence_codec X" and "e \<in> set (p_snapshots (pr_state p))"
  shows "served X p e"
proof -
  from assms obtain trail where "tracks X (pr_state p) trail" "\<forall>e \<in> set trail. served X p e"
    by (auto simp: producer_inv_def released_def)
  with assms(3) show ?thesis by (auto simp: tracks_def dest: in_set_dropD)
qed

text \<open>What the page size estimate relies on: the envelope around the snapshots takes at most
  1024 bytes and six bytes for each byte of the session identifier.\<close>

definition snapshot_len :: "serde_ext \<Rightarrow> state_snapshot \<Rightarrow> nat" where
  "snapshot_len X s = (case to_vec_snapshot X s of Inl _ \<Rightarrow> 0 | Inr vec \<Rightarrow> length vec)"

definition snapshots_len :: "serde_ext \<Rightarrow> state_snapshot list \<Rightarrow> nat" where
  "snapshots_len X ss = sum_list (map (\<lambda>s. snapshot_len X s + 1) ss)"

definition page_codec :: "serde_ext \<Rightarrow> bool" where
  "page_codec X \<longleftrightarrow>
     (\<forall>r. h_protocol_version r = 1 \<longrightarrow> h_oldest_sequence r \<le> u64_max \<longrightarrow> h_next_sequence r \<le> u64_max \<longrightarrow>
        h_dropped_before r \<in> {None, Some (h_oldest_sequence r)} \<longrightarrow>
        (\<forall>s \<in> set (h_snapshots r). is_ok (to_vec_snapshot X s)) \<longrightarrow>
        (\<exists>vec. to_vec_page X r = Inr vec
           \<and> length vec \<le> 1024 + length (h_source_session_id r) * 6 + snapshots_len X (h_snapshots r)))"

lemma page_codecD:
  assumes "page_codec X" and "h_protocol_version r = 1" and "h_oldest_sequence r \<le> u64_max"
    and "h_next_sequence r \<le> u64_max"
    and "h_dropped_before r \<in> {None, Some (h_oldest_sequence r)}"
    and "\<forall>s \<in> set (h_snapshots r). is_ok (to_vec_snapshot X s)"
  shows "\<exists>vec. to_vec_page X r = Inr vec
    \<and> length vec \<le> 1024 + length (h_source_session_id r) * 6 + snapshots_len X (h_snapshots r)"
  using assms unfolding page_codec_def by blast

lemma fit_count_result:
  assumes "\<forall>s \<in> set ss. is_ok (to_vec_snapshot X s)" and "bytes \<le> MAX_SNAPSHOT_PAGE_BYTES"
  shows "\<exists>m. fit_count X bytes c ss = Inr (c + m) \<and> m \<le> length ss
     \<and> bytes + snapshots_len X (take m ss) \<le> MAX_SNAPSHOT_PAGE_BYTES
     \<and> (m < length ss \<longrightarrow> MAX_SNAPSHOT_PAGE_BYTES < bytes + snapshots_len X (take (Suc m) ss))"
  using assms
proof (induction ss arbitrary: bytes c)
  case Nil
  then show ?case by (simp add: snapshots_len_def)
next
  case (Cons s ss)
  obtain vec where vec: "to_vec_snapshot X s = Inr vec" using Cons.prems(1) by (auto simp: is_ok_iff)
  then have len: "snapshot_len X s = length vec" by (simp add: snapshot_len_def)
  show ?case
  proof (cases "MAX_SNAPSHOT_PAGE_BYTES < bytes + (length vec + 1)")
    case True
    with Cons.prems(2) vec len show ?thesis
      by (intro exI [of _ 0]) (simp add: snapshots_len_def Let_def)
  next
    case False
    with Cons.prems Cons.IH [of "bytes + (length vec + 1)" "c + 1"]
    obtain m where "fit_count X (bytes + (length vec + 1)) (c + 1) ss = Inr (c + 1 + m)"
        "m \<le> length ss"
        "bytes + (length vec + 1) + snapshots_len X (take m ss) \<le> MAX_SNAPSHOT_PAGE_BYTES"
        "m < length ss \<longrightarrow> MAX_SNAPSHOT_PAGE_BYTES
            < bytes + (length vec + 1) + snapshots_len X (take (Suc m) ss)"
      by (auto simp: not_less)
    with False vec len show ?thesis
      by (intro exI [of _ "Suc m"]) (simp add: snapshots_len_def Let_def add.assoc)
  qed
qed

text \<open>The snapshots a page may return, and the page that is cut from them.\<close>

definition window :: "producer_state \<Rightarrow> nat \<Rightarrow> nat \<Rightarrow> state_snapshot list" where
  "window st after limit =
     map b_snapshot (take limit (drop (after - oldest_sequence st) (p_snapshots st)))"

definition page_of :: "producer \<Rightarrow> nat \<Rightarrow> state_snapshot list \<Rightarrow> snapshot_history_response" where
  "page_of p after ss =
     (let oldest = oldest_sequence (pr_state p) in
      \<lparr>h_protocol_version = 1, h_source_session_id = d_source_session_id (pr_descriptor p),
       h_oldest_sequence = oldest, h_next_sequence = max after oldest + length ss,
       h_dropped_before = (if after < oldest then Some oldest else None), h_snapshots = ss\<rparr>)"

lemma take_upt_length: "take k [a..<b] = [a..<a + length (take k [a..<b])]"
proof (cases "a + k \<le> b")
  case True
  then show ?thesis by (simp add: take_upt min_def)
next
  case False
  then show ?thesis by (cases "a \<le> b") simp_all
qed

lemma window_sequences:
  assumes "producer_inv X p"
  shows "map s_sequence (take m (window (pr_state p) after limit))
           = [max after (oldest_sequence (pr_state p))
                ..<max after (oldest_sequence (pr_state p))
                   + length (take m (window (pr_state p) after limit))]"
proof -
  let ?o = "oldest_sequence (pr_state p)" and ?n = "p_next_sequence (pr_state p)"
  have "map s_sequence (take m (window (pr_state p) after limit))
      = take m (take limit (drop (after - ?o) (map (s_sequence \<circ> b_snapshot) (p_snapshots (pr_state p)))))"
    by (simp add: window_def take_map drop_map)
  also have "\<dots> = take m (take limit [max after ?o..<?n])"
    by (simp add: inv_sequences(1) [OF assms] max_def add.commute)
  finally have e: "map s_sequence (take m (window (pr_state p) after limit))
      = take m (take limit [max after ?o..<?n])" .
  have "take m (take limit [a..<b]) = [a..<a + length (take m (take limit [a..<b]))]" for a b
    by (simp only: take_take) (rule take_upt_length)
  from this [of "max after ?o" ?n] e show ?thesis by (metis length_map)
qed

lemma length_window:
  assumes "producer_inv X p"
  shows "length (window (pr_state p) after limit)
     = min limit (p_next_sequence (pr_state p) - max after (oldest_sequence (pr_state p)))"
proof -
  have "length (p_snapshots (pr_state p))
      = p_next_sequence (pr_state p) - oldest_sequence (pr_state p)"
    using arg_cong [OF inv_sequences(1) [OF assms], of length] by simp
  then show ?thesis by (simp add: window_def max_def min.commute)
qed

lemma snapshot_accepted_len:
  "snapshot_accepted X s \<Longrightarrow> is_ok (to_vec_snapshot X s) \<and> snapshot_len X s \<le> MAX_SNAPSHOT_BYTES"
  by (auto simp: snapshot_accepted_def snapshot_len_def)

lemma session_id_short:
  assumes "producer_inv X p"
  shows "length (d_source_session_id (pr_descriptor p)) \<le> 256"
    and "\<not> blank (d_source_session_id (pr_descriptor p))"
  using assms
  by (simp_all add: producer_inv_def validate_descriptor_def result_iffs validate_text_def not_less)

lemma history_cut:
  assumes "1 \<le> limit" "limit \<le> MAX_SNAPSHOT_HISTORY_LIMIT" "after \<le> p_next_sequence (pr_state p)"
    and "fit_count X (1024 + length (d_source_session_id (pr_descriptor p)) * 6) 0
           (window (pr_state p) after limit) = Inr m"
  shows "history X p after limit =
    (let o' = oldest_sequence (pr_state p); kept = take m (window (pr_state p) after limit) in
     Inr \<lparr>h_protocol_version = 1, h_source_session_id = d_source_session_id (pr_descriptor p),
       h_oldest_sequence = o',
       h_next_sequence = (if kept = [] then max after o' else s_sequence (last kept) + 1),
       h_dropped_before = (if after < o' then Some o' else None), h_snapshots = kept\<rparr>)"
  using assms by (simp add: history_def select_history_def Let_def window_def)

lemma history_page:
  assumes inv: "producer_inv X p" and codec: "sequence_codec X"
    and limit: "1 \<le> limit" "limit \<le> MAX_SNAPSHOT_HISTORY_LIMIT"
    and after: "after \<le> p_next_sequence (pr_state p)"
  obtains m where "history X p after limit = Inr (page_of p after (take m (window (pr_state p) after limit)))"
    and "m \<le> length (window (pr_state p) after limit)"
    and "window (pr_state p) after limit \<noteq> [] \<longrightarrow> 0 < m"
    and "1024 + length (d_source_session_id (pr_descriptor p)) * 6
         + snapshots_len X (take m (window (pr_state p) after limit)) \<le> MAX_SNAPSHOT_PAGE_BYTES"
proof -
  let ?w = "window (pr_state p) after limit"
  let ?base = "1024 + length (d_source_session_id (pr_descriptor p)) * 6"
  have acc: "\<forall>s \<in> set ?w. snapshot_accepted X s"
    using inv_served [OF inv codec]
    by (auto simp: window_def served_def dest!: in_set_takeD in_set_dropD)
  have base: "?base \<le> 1024 + 256 * 6" using session_id_short(1) [OF inv] by simp
  obtain m where m: "fit_count X ?base 0 ?w = Inr (0 + m)" "m \<le> length ?w"
      "?base + snapshots_len X (take m ?w) \<le> MAX_SNAPSHOT_PAGE_BYTES"
      "m < length ?w \<longrightarrow> MAX_SNAPSHOT_PAGE_BYTES < ?base + snapshots_len X (take (Suc m) ?w)"
    using fit_count_result [of ?w X ?base 0] acc snapshot_accepted_len base by fastforce
  have pos: "0 < m" if ne: "?w \<noteq> []"
  proof (rule ccontr)
    assume "\<not> 0 < m"
    with m(4) ne have "MAX_SNAPSHOT_PAGE_BYTES < ?base + (snapshot_len X (hd ?w) + 1)"
      by (cases ?w) (auto simp: snapshots_len_def)
    moreover have "snapshot_len X (hd ?w) \<le> MAX_SNAPSHOT_BYTES"
      using acc ne snapshot_accepted_len [of X "hd ?w"] by simp
    ultimately show False using base by linarith
  qed
  let ?k = "take m ?w" and ?o = "oldest_sequence (pr_state p)"
  have nxt: "(if ?k = [] then max after ?o else s_sequence (last ?k) + 1) = max after ?o + length ?k"
  proof (cases "?k = []")
    case False
    then have len: "0 < length ?k" by (rule length_greater_0_conv [THEN iffD2])
    have "s_sequence (last ?k) = last (map s_sequence ?k)" using False by (simp add: last_map)
    also have "\<dots> = last [max after ?o..<max after ?o + length ?k]"
      by (simp only: window_sequences [OF inv])
    also have "\<dots> = max after ?o + length ?k - 1"
      using len by (intro last_upt) linarith
    finally show ?thesis using False len by simp
  qed auto
  have "history X p after limit = Inr (page_of p after ?k)"
    unfolding history_cut [OF limit after m(1)] by (simp only: nxt page_of_def Let_def add_0)
  with m pos that show thesis by blast
qed

lemma page_of_accepted:
  assumes inv: "producer_inv X p" and codec: "sequence_codec X" "page_codec X"
    and limit: "limit \<le> MAX_SNAPSHOT_HISTORY_LIMIT" and after: "after \<le> p_next_sequence (pr_state p)"
    and m: "1024 + length (d_source_session_id (pr_descriptor p)) * 6
         + snapshots_len X (take m (window (pr_state p) after limit)) \<le> MAX_SNAPSHOT_PAGE_BYTES"
  shows "page_accepted X (page_of p after (take m (window (pr_state p) after limit)))"
proof -
  let ?k = "take m (window (pr_state p) after limit)" and ?o = "oldest_sequence (pr_state p)"
  let ?r = "page_of p after ?k"
  have acc: "\<forall>s \<in> set ?k. snapshot_accepted X s
      \<and> s_source_session_id s = d_source_session_id (pr_descriptor p)"
    using inv_served [OF inv codec(1)]
    by (auto simp: window_def served_def dest!: in_set_takeD in_set_dropD)
  have n: "max after ?o + length ?k \<le> p_next_sequence (pr_state p)"
  proof -
    have "length ?k \<le> p_next_sequence (pr_state p) - max after ?o"
      by (simp add: length_window [OF inv])
    moreover have "max after ?o \<le> p_next_sequence (pr_state p)"
      using after inv_sequences(2) [OF inv] by simp
    ultimately show ?thesis by linarith
  qed
  have next_max: "p_next_sequence (pr_state p) \<le> i64_max_u" using inv by (simp add: producer_inv_def)
  have "\<exists>vec. to_vec_page X ?r = Inr vec
      \<and> length vec \<le> 1024 + length (h_source_session_id ?r) * 6 + snapshots_len X (h_snapshots ?r)"
  proof (rule page_codecD [OF codec(2)])
    show "\<forall>s \<in> set (h_snapshots ?r). is_ok (to_vec_snapshot X s)"
      using acc snapshot_accepted_len by (auto simp: page_of_def Let_def)
  qed (use n next_max in \<open>auto simp: page_of_def Let_def\<close>)
  then have vec: "\<exists>vec. to_vec_page X ?r = Inr vec \<and> length vec \<le> MAX_SNAPSHOT_PAGE_BYTES"
    using m by (auto simp: page_of_def Let_def)
  have "length ?k \<le> 256" using limit by (simp add: length_window [OF inv])
  with acc n next_max vec session_id_short(2) [OF inv] window_sequences [OF inv, of m after limit]
  show ?thesis by (auto simp: page_accepted_def page_of_def Let_def)
qed

end
