(* ===== verification/Wire_Codec.thy ===== *)
theory Wire_Codec
  imports Producer
begin

text \<open>
  A reference serializer. The model takes the serializer as an argument (\<open>serde_ext\<close>) and states
  what it relies on as laws; this theory gives one executable instance, a length-prefixed text
  format, and proves the laws for it, so that every theorem with such a hypothesis can be applied
  to a concrete program state. It is not the JSON text format of the deployed serializer.
\<close>

subsection \<open>Encoding\<close>

definition enc_nat :: "nat \<Rightarrow> string" where
  "enc_nat n = show_nat n @ '',''"

definition enc_str :: "string \<Rightarrow> string" where
  "enc_str s = enc_nat (length s) @ s"

definition enc_int :: "int \<Rightarrow> string" where
  "enc_int i = (if i < 0 then CHR ''-'' # enc_nat (nat (- i)) else CHR ''+'' # enc_nat (nat i))"

definition enc_list :: "('a \<Rightarrow> string) \<Rightarrow> 'a list \<Rightarrow> string" where
  "enc_list f xs = enc_nat (length xs) @ concat (map f xs)"

lemma enc_list_cong [fundef_cong]:
  "xs = ys \<Longrightarrow> (\<And>x. x \<in> set ys \<Longrightarrow> f x = g x) \<Longrightarrow> enc_list f xs = enc_list g ys"
  by (simp add: enc_list_def cong: map_cong)

function enc_json :: "json \<Rightarrow> string" where
  "enc_json JNull = ''n''"
| "enc_json (JBool b) = (if b then ''t'' else ''f'')"
| "enc_json (JNumber t) = CHR ''#'' # enc_str t"
| "enc_json (JString t) = CHR ''s'' # enc_str t"
| "enc_json (JArray vs) = CHR ''a'' # enc_list enc_json vs"
| "enc_json (JObject kvs) = CHR ''o'' # enc_list (\<lambda>kv. enc_str (fst kv) @ enc_json (snd kv)) kvs"
  by pat_completeness auto
termination
proof (relation "measure size", goal_cases)
  case (2 vs v)
  then show ?case using json_children_size [of v "JArray vs"] by simp
next
  case (3 kvs kv)
  then show ?case using json_children_size [of "snd kv" "JObject kvs"] by simp
qed simp

definition enc_snapshot :: "state_snapshot \<Rightarrow> string" where
  "enc_snapshot s =
     enc_nat (s_sequence s) @ enc_str (s_source_session_id s) @ enc_int (s_observed_at_ns s)
     @ enc_nat (s_schema_version s)
     @ enc_list (\<lambda>kv. enc_str (fst kv) @ enc_int (snd kv)) (s_axes s) @ enc_json (s_state s)"

definition enc_page :: "snapshot_history_response \<Rightarrow> string" where
  "enc_page r =
     enc_nat (h_protocol_version r) @ enc_str (h_source_session_id r) @ enc_nat (h_oldest_sequence r)
     @ enc_nat (h_next_sequence r)
     @ (case h_dropped_before r of None \<Rightarrow> ''n'' | Some d \<Rightarrow> enc_nat d)
     @ enc_list enc_snapshot (h_snapshots r)"

subsection \<open>Decoding\<close>

fun dec_digits :: "nat \<Rightarrow> string \<Rightarrow> (nat \<times> string) option" where
  "dec_digits acc [] = None"
| "dec_digits acc (c # cs) =
     (if c = CHR '','' then Some (acc, cs) else dec_digits (acc * 10 + (of_char c - 48)) cs)"

definition dec_nat :: "string \<Rightarrow> (nat \<times> string) option" where
  "dec_nat s = dec_digits 0 s"

definition dec_str :: "string \<Rightarrow> (string \<times> string) option" where
  "dec_str s = Option.bind (dec_nat s) (\<lambda>(n, s). Some (take n s, drop n s))"

definition dec_int :: "string \<Rightarrow> (int \<times> string) option" where
  "dec_int s = (case s of [] \<Rightarrow> None
     | c # s \<Rightarrow> map_option (\<lambda>(n, s). ((if c = CHR ''-'' then - int n else int n), s)) (dec_nat s))"

fun dec_many :: "(string \<Rightarrow> ('a \<times> string) option) \<Rightarrow> nat \<Rightarrow> string \<Rightarrow> ('a list \<times> string) option" where
  "dec_many f 0 s = Some ([], s)"
| "dec_many f (Suc n) s =
     Option.bind (f s) (\<lambda>(x, s). map_option (\<lambda>(xs, s). (x # xs, s)) (dec_many f n s))"

definition dec_list :: "(string \<Rightarrow> ('a \<times> string) option) \<Rightarrow> string \<Rightarrow> ('a list \<times> string) option" where
  "dec_list f s = Option.bind (dec_nat s) (\<lambda>(n, s). dec_many f n s)"

definition dec_pair :: "(string \<Rightarrow> ('a \<times> string) option) \<Rightarrow> string \<Rightarrow> ((string \<times> 'a) \<times> string) option" where
  "dec_pair f s = Option.bind (dec_str s) (\<lambda>(k, s). map_option (\<lambda>(v, s). ((k, v), s)) (f s))"

fun dec_json :: "nat \<Rightarrow> string \<Rightarrow> (json \<times> string) option" where
  "dec_json 0 s = None"
| "dec_json (Suc fuel) s =
     (case s of [] \<Rightarrow> None
      | c # s \<Rightarrow>
         (if c = CHR ''n'' then Some (JNull, s)
          else if c = CHR ''t'' then Some (JBool True, s)
          else if c = CHR ''f'' then Some (JBool False, s)
          else if c = CHR ''#'' then map_option (\<lambda>(t, s). (JNumber t, s)) (dec_str s)
          else if c = CHR ''s'' then map_option (\<lambda>(t, s). (JString t, s)) (dec_str s)
          else if c = CHR ''a'' then map_option (\<lambda>(t, s). (JArray t, s)) (dec_list (dec_json fuel) s)
          else map_option (\<lambda>(t, s). (JObject t, s)) (dec_list (dec_pair (dec_json fuel)) s)))"

definition dec_snapshot :: "string \<Rightarrow> state_snapshot option" where
  "dec_snapshot s =
     Option.bind (dec_nat s) (\<lambda>(sequence, s).
     Option.bind (dec_str s) (\<lambda>(session, s).
     Option.bind (dec_int s) (\<lambda>(observed, s).
     Option.bind (dec_nat s) (\<lambda>(version, s).
     Option.bind (dec_list (dec_pair dec_int) s) (\<lambda>(axes, s).
     Option.bind (dec_json (length s) s) (\<lambda>(state, s).
     if s = [] then Some \<lparr>s_source_session_id = session, s_sequence = sequence,
       s_observed_at_ns = observed, s_schema_version = version, s_axes = axes, s_state = state\<rparr>
     else None))))))"

subsection \<open>Numbers and tracker headers\<close>

definition token_nat :: "string \<Rightarrow> nat option" where
  "token_nat t =
     (if t \<noteq> [] \<and> list_all is_ascii_digit t then map_option fst (dec_nat (t @ '','')) else None)"

definition json_nat :: "json \<Rightarrow> string \<Rightarrow> nat option" where
  "json_nat v k = (case json_get v k of Some (JNumber t) \<Rightarrow> token_nat t | _ \<Rightarrow> None)"

definition json_str :: "json \<Rightarrow> string \<Rightarrow> string option" where
  "json_str v k = (case json_get v k of Some (JString t) \<Rightarrow> Some t | _ \<Rightarrow> None)"

definition dec_header :: "json \<Rightarrow> tracker_header option" where
  "dec_header v =
     Option.bind (json_nat v ''record_version'') (\<lambda>version.
     Option.bind (json_str v ''kind'') (\<lambda>kind.
     Option.bind (json_nat v ''step'') (\<lambda>step.
     Option.bind (json_str v ''status'') (\<lambda>status.
     Option.bind (json_nat v ''commit'') (\<lambda>commit.
     if kind = ''observation'' \<or> kind = ''event'' then
       Some \<lparr>th_record_version = version,
             th_kind = (if kind = ''event'' then Event else Observation),
             th_step = int step, th_status = status, th_commit = commit, th_nonfinite = []\<rparr>
     else None)))))"

definition ref_ext :: serde_ext where
  "ref_ext =
     \<lparr>num_is_i64 = (\<lambda>t. case token_nat t of None \<Rightarrow> False | Some n \<Rightarrow> n \<le> i64_max_u),
      num_is_u64 = (\<lambda>t. case token_nat t of None \<Rightarrow> False | Some n \<Rightarrow> n \<le> u64_max),
      num_is_f64 = (\<lambda>t. False),
      num_as_f64 = (\<lambda>t. map_option f64_of_nat (token_nat t)),
      num_of_f64 = (\<lambda>x. JNull),
      to_vec_snapshot = (\<lambda>s. Inr (enc_snapshot s)),
      from_str_snapshot = (\<lambda>t. ok_or ''malformed snapshot'' (dec_snapshot t)),
      to_vec_page = (\<lambda>r. Inr (enc_page r)),
      from_value_header = (\<lambda>v. ok_or ''malformed header'' (dec_header v))\<rparr>"

section \<open>The laws\<close>

lemma digit_char_not_comma: "d < 10 \<Longrightarrow> digit_char d \<noteq> CHR '',''"
proof
  assume "d < 10" and "digit_char d = CHR '',''"
  then have "of_char (digit_char d) = (44::nat)" by simp
  with of_char_digit_char [OF \<open>d < 10\<close>] show False by simp
qed

lemma dec_digits_append:
  "list_all (\<lambda>c. c \<noteq> CHR '','') ds \<Longrightarrow>
   dec_digits acc (ds @ r) = dec_digits (foldl (\<lambda>a c. a * 10 + (of_char c - 48)) acc ds) r"
  by (induction ds arbitrary: acc) auto

lemma show_nat_digits:
  "list_all (\<lambda>c. c \<noteq> CHR '','') (show_nat n)
   \<and> foldl (\<lambda>a c. a * 10 + (of_char c - 48)) 0 (show_nat n) = n"
proof (induction n rule: show_nat.induct)
  case (1 n)
  show ?case
  proof (cases "n < 10")
    case True
    then show ?thesis by (simp add: show_nat.simps [of n] digit_char_not_comma of_char_digit_char)
  next
    case False
    with 1 show ?thesis
      by (simp add: show_nat.simps [of n] digit_char_not_comma of_char_digit_char)
  qed
qed

lemma dec_enc_nat [simp]: "dec_nat (enc_nat n @ r) = Some (n, r)"
  using show_nat_digits [of n] by (simp add: dec_nat_def enc_nat_def dec_digits_append)

lemma dec_enc_str [simp]: "dec_str (enc_str s @ r) = Some (s, r)"
  by (simp add: dec_str_def enc_str_def)

lemma dec_enc_int [simp]: "dec_int (enc_int i @ r) = Some (i, r)"
  by (simp add: dec_int_def enc_int_def)

lemma dec_enc_list:
  "(\<And>x r. x \<in> set xs \<Longrightarrow> f (g x @ r) = Some (x, r)) \<Longrightarrow> dec_list f (enc_list g xs @ r) = Some (xs, r)"
proof -
  assume "\<And>x r. x \<in> set xs \<Longrightarrow> f (g x @ r) = Some (x, r)"
  then have "dec_many f (length xs) (concat (map g xs) @ r) = Some (xs, r)"
    by (induction xs) simp_all
  then show ?thesis by (simp add: dec_list_def enc_list_def)
qed

lemma dec_enc_json: "json_height v < fuel \<Longrightarrow> dec_json fuel (enc_json v @ r) = Some (v, r)"
proof (induction v arbitrary: fuel r rule: enc_json.induct)
  case (5 vs)
  then obtain k where k: "fuel = Suc k" by (cases fuel) auto
  have "json_height v < k" if "v \<in> set vs" for v
    using json_height_le [of "JArray vs" k] 5(2) that by (simp add: k Suc_le_eq)
  with 5(1) show ?case by (simp add: k dec_enc_list)
next
  case (6 kvs)
  then obtain k where k: "fuel = Suc k" by (cases fuel) auto
  have h: "json_height (snd kv) < k" if "kv \<in> set kvs" for kv
    using json_height_le [of "JObject kvs" k] 6(2) that by (simp add: k Suc_le_eq)
  have "dec_list (dec_pair (dec_json k))
      (enc_list (\<lambda>kv. enc_str (fst kv) @ enc_json (snd kv)) kvs @ r) = Some (kvs, r)"
    by (rule dec_enc_list) (simp add: dec_pair_def h 6(1))
  then show ?case by (simp add: k)
qed (case_tac fuel; simp)+

lemma sum_list_elem_le: "x \<in> set xs \<Longrightarrow> f x \<le> sum_list (map f xs)" for f :: "'a \<Rightarrow> nat"
  by (induction xs) auto

lemma sum_list_Suc: "(\<Sum>x\<leftarrow>xs. Suc (f x)) = (\<Sum>x\<leftarrow>xs. f x) + length xs"
  by (induction xs) simp_all

lemma json_height_leaf: "json_children v = [] \<Longrightarrow> json_height v = 0"
  by (subst json_height.simps) simp

lemma json_height_less: "json_height v < length (enc_json v)"
proof (induction v rule: enc_json.induct)
  case (5 vs)
  have "Suc (json_height v) \<le> length (enc_list enc_json vs)" if "v \<in> set vs" for v
    using 5 [OF that] sum_list_elem_le [OF that, of "length \<circ> enc_json"]
    by (simp add: enc_list_def length_concat comp_def)
  then show ?case by (simp add: less_Suc_eq_le json_height_le [of "JArray vs"])
next
  case (6 kvs)
  have "Suc (json_height (snd kv)) \<le>
      length (enc_list (\<lambda>kv. enc_str (fst kv) @ enc_json (snd kv)) kvs)" if "kv \<in> set kvs" for kv
    using 6 [OF that] sum_list_elem_le [OF that, of "length \<circ> (\<lambda>kv. enc_str (fst kv) @ enc_json (snd kv))"]
    by (simp add: enc_list_def length_concat comp_def)
  then show ?case by (simp add: less_Suc_eq_le json_height_le [of "JObject kvs"])
qed (simp_all add: json_height_leaf)

lemma dec_enc_snapshot: "dec_snapshot (enc_snapshot s) = Some s"
proof -
  have axes: "dec_list (dec_pair dec_int)
      (enc_list (\<lambda>kv. enc_str (fst kv) @ enc_int (snd kv)) (s_axes s) @ r) = Some (s_axes s, r)" for r
    by (rule dec_enc_list) (simp add: dec_pair_def)
  show ?thesis
    using dec_enc_json [OF json_height_less, of "s_state s" "[]"]
    by (simp add: dec_snapshot_def enc_snapshot_def axes)
qed

lemma ref_roundtrip: "from_str_snapshot ref_ext (enc_snapshot s) = Inr s"
  by (simp add: ref_ext_def dec_enc_snapshot)

lemma ref_sequence_codec: "sequence_codec ref_ext"
  by (auto simp: sequence_codec_def ref_ext_def enc_snapshot_def enc_nat_def length_show_nat)

lemma ilog10_le_self: "ilog10 n \<le> n"
proof (induction n rule: ilog10.induct)
  case (1 n)
  then show ?case by (cases "n < 10") (simp_all add: ilog10.simps [of n])
qed

lemma length_enc_nat: "length (enc_nat n) = ilog10 n + 2"
  by (simp add: enc_nat_def length_show_nat)

lemma ref_page_codec: "page_codec ref_ext"
proof -
  have "length (enc_page r) \<le> 1024 + length (h_source_session_id r) * 6
      + snapshots_len ref_ext (h_snapshots r)"
    if "h_protocol_version r = 1" "h_oldest_sequence r \<le> u64_max" "h_next_sequence r \<le> u64_max"
       "h_dropped_before r \<in> {None, Some (h_oldest_sequence r)}" for r
  proof -
    have "snapshots_len ref_ext (h_snapshots r)
        = sum_list (map (length \<circ> enc_snapshot) (h_snapshots r)) + length (h_snapshots r)"
      by (simp add: snapshots_len_def snapshot_len_def ref_ext_def sum_list_Suc comp_def)
    moreover have "length (case h_dropped_before r of None \<Rightarrow> ''n'' | Some d \<Rightarrow> enc_nat d) \<le> 21"
      using that(4) ilog10_le [OF that(2)] by (auto simp: length_enc_nat)
    ultimately show ?thesis
      using that(1) ilog10_le [OF that(2)] ilog10_le [OF that(3)]
        ilog10_le_self [of "length (h_source_session_id r)"]
        ilog10_le_self [of "length (h_snapshots r)"] ilog10_le_self [of 1]
      by (simp add: enc_page_def enc_str_def enc_list_def length_enc_nat length_concat comp_def)
  qed
  then show ?thesis by (simp add: page_codec_def ref_ext_def)
qed

lemmas ref_laws = ref_sequence_codec ref_page_codec

end
