(* ===== verification/Repo_Props.thy ===== *)
theory Repo_Props
  imports Repo_Lifecycle Wire_Codec
begin

text \<open>
  Properties of the metadata repository, over every database that a sequence of operations builds,
  and the concrete repository that their witnesses use.
\<close>

section \<open>Reachable repositories\<close>

inductive repo_step :: "repo_env \<Rightarrow> repo \<Rightarrow> repo \<Rightarrow> bool" for X where
  project: "create_project nid now db name = Inr (p, db') \<Longrightarrow> repo_step X db db'"
| experiment_created: "create_experiment nid now db key name = Inr (e, db') \<Longrightarrow> repo_step X db db'"
| run_created: "create_run X nid now db key name config_json = Inr (r, db') \<Longrightarrow> repo_step X db db'"
| configured: "ensure_configured_run X d db key p e name config_json = Inr (r, db') \<Longrightarrow> repo_step X db db'"
| run_status_set: "update_run_status now db key status = Inr (r, db') \<Longrightarrow> repo_step X db db'"
| registered: "register_source X db s = Inr (s', db') \<Longrightarrow> repo_step X db db'"
| source_state_set: "update_source_state X db key state = Inr (s, db') \<Longrightarrow> repo_step X db db'"
| collected: "update_source_success_batch X now db us = Inr db' \<Longrightarrow> repo_step X db db'"
| failed: "repo_step X db (update_source_failure db key error)"

definition repo_reachable :: "repo_env \<Rightarrow> repo \<Rightarrow> bool" where
  "repo_reachable X db \<longleftrightarrow> (repo_step X)\<^sup>*\<^sup>* empty_repo db"

lemma repo_step_ok: "repo_step X db db' \<Longrightarrow> step_ok X db db'"
  by (induction rule: repo_step.induct)
    (blast intro: step_create_project step_create_experiment step_create_run step_ensure_configured_run
      step_update_run_status step_register_source step_update_source_state step_success_batch step_failure)+

lemma repo_steps_ok: "(repo_step X)\<^sup>*\<^sup>* db db' \<Longrightarrow> step_ok X db db'"
  by (induction rule: rtranclp_induct) (auto intro: step_ok_trans repo_step_ok)

lemma repo_inv_empty: "repo_inv X empty_repo"
  by (simp add: repo_inv_defs empty_repo_def bm_sorted_def)

lemma repo_reachable_inv: "repo_reachable X db \<Longrightarrow> repo_inv X db"
  using repo_steps_ok [of X empty_repo db] repo_inv_empty by (simp add: repo_reachable_def step_ok_def)

lemma repo_reachable_step: "repo_reachable X db \<Longrightarrow> repo_step X db db' \<Longrightarrow> repo_reachable X db'"
  by (simp add: repo_reachable_def)

lemma repo_reachable_empty: "repo_reachable X empty_repo"
  by (simp add: repo_reachable_def)

section \<open>A concrete repository\<close>

definition demo_env :: repo_env where
  "demo_env = \<lparr>parse_json = (\<lambda>s. case dec_json (length s) s of Some (v, []) \<Rightarrow> Inr v | _ \<Rightarrow> Inl ''syntax''),
     print_json = (\<lambda>v. Inr (enc_json v)), print_descriptor = (\<lambda>d. Inr (d_source_session_id d)),
     debug_str = (\<lambda>s. s), foreign_keys = True\<rparr>"


definition json_codec :: "repo_env \<Rightarrow> bool" where
  "json_codec X \<longleftrightarrow> (\<forall>v s. print_json X v = Inr s \<longrightarrow> parse_json X s = Inr v)"

lemma demo_json_codec: "json_codec demo_env"
  unfolding json_codec_def demo_env_def
  using dec_enc_json [OF json_height_less, where r = "[]"] by auto

definition demo_repo :: repo where
  "demo_repo = \<lparr>
     rp_projects = [\<lparr>pj_id = ''p1'', pj_name = ''p'', pj_created_at_ns = 5\<rparr>],
     rp_experiments = [\<lparr>ex_id = ''e1'', ex_project_id = ''p1'', ex_name = ''e'', ex_created_at_ns = 5\<rparr>],
     rp_runs = [\<lparr>rr_id = ''r'', rr_experiment_id = ''e1'', rr_name = ''n'', rr_status = ''created'',
       rr_config_json = ''o0,'', rr_created_at_ns = 5, rr_updated_at_ns = 5\<rparr>],
     rp_sources = [], rp_descriptors = []\<rparr>"

lemma demo_config:
  "parse_json demo_env ''o0,'' = Inr (JObject [])" "print_json demo_env (JObject []) = Inr ''o0,''"
proof -
  show 2: "print_json demo_env (JObject []) = Inr ''o0,''"
    by (simp add: demo_env_def enc_list_def enc_nat_def show_nat.simps digit_char_def)
      (simp add: char_of_def bit_iff_odd)
  show "parse_json demo_env ''o0,'' = Inr (JObject [])"
    using demo_json_codec 2 by (simp add: json_codec_def)
qed

lemma trim_letter: "\<not> ws1 (byte c) \<Longrightarrow> str_trim [c] = [c]"
  by (simp add: str_trim_def trim_start.simps trim_rev.simps)

lemma demo_configured:
  "ensure_configured_run demo_env \<lparr>dr_project = ''p1'', dr_experiment = ''e1'', dr_now = 5\<rparr> empty_repo
     ''r'' ''p'' ''e'' ''n'' ''o0,'' = Inr (run_from_row (hd (rp_runs demo_repo)), demo_repo)"
  by (simp add: ensure_configured_run_def check_configured_def validate_name_def blank_def trim_letter
      ws1_def byte_def demo_config ensure_project_def ensure_experiment_def ensure_run_def empty_repo_def
      or_ignore_def insert_project_def insert_experiment_def insert_run_def run_by_id_def Let_def
      run_from_row_def demo_repo_def parse_run_status_def)

lemma demo_repo_reachable: "repo_reachable demo_env demo_repo"
  by (rule repo_reachable_step [OF repo_reachable_empty repo_step.configured [OF demo_configured]])

definition demo_registered :: source where
  "demo_registered = \<lparr>src_id = ''x'', src_run_id = ''r'', src_attempt_id = ''a'', src_role = ''w'',
     src_endpoint = ''h'', src_node_id = None, src_rank = None, src_state = Discovered,
     src_session_id = None, src_last_success_at_ns = None, src_last_error = None,
     src_scrape_interval_ms = 1000, src_timeout_ms = 500, src_descriptor = None\<rparr>"

definition demo_sourced :: repo where
  "demo_sourced = demo_repo\<lparr>rp_sources := [new_source_row demo_registered]\<rparr>"

lemma demo_register: "register_source demo_env demo_repo demo_registered = Inr (demo_registered, demo_sourced)"
  by (simp add: register_source_def require_parent_def upsert_source_def source_by_run_endpoint_def
      source_from_row_def bm_get_def demo_sourced_def demo_repo_def demo_registered_def new_source_row_def
      parse_source_state_def u64_as_i64_def i64_as_u64_def Let_def)

lemma demo_sourced_reachable: "repo_reachable demo_env demo_sourced"
  by (rule repo_reachable_step [OF demo_repo_reachable repo_step.registered [OF demo_register]])

section \<open>Properties\<close>

lemma find_id_mem: "x \<in> f ` set xs \<Longrightarrow> \<exists>y. find (\<lambda>y. f y = x) xs = Some y \<and> y \<in> set xs \<and> f y = x"
  by (induction xs) auto

lemma scope_resolves:
  assumes "refs_ok X db" and "s \<in> set (rp_sources db)"
  shows "scope_of db s \<noteq> None"
proof -
  have "sr_run_id s \<in> rr_id ` set (rp_runs db)" using assms by (auto simp: refs_ok_def)
  from find_id_mem [OF this] obtain r
    where r: "run_by_id db (sr_run_id s) = Some r" "r \<in> set (rp_runs db)"
    unfolding run_by_id_def by blast
  then have "rr_experiment_id r \<in> ex_id ` set (rp_experiments db)" using assms(1) by (auto simp: refs_ok_def)
  from find_id_mem [OF this] obtain e
    where e: "find (\<lambda>e. ex_id e = rr_experiment_id r) (rp_experiments db) = Some e" "e \<in> set (rp_experiments db)"
    by blast
  then have "ex_project_id e \<in> pj_id ` set (rp_projects db)" using assms(1) by (auto simp: refs_ok_def)
  from find_id_mem [OF this] obtain p where "find (\<lambda>p. pj_id p = ex_project_id e) (rp_projects db) = Some p"
    by blast
  with r e show ?thesis by (simp add: scope_of_def)
qed

lemma source_final_column:
  assumes "c \<in> range source_state_text"
  shows "source_final (parse_source_state c) \<longleftrightarrow> c \<in> {''ended'', ''lost''}"
  using assms by (elim rangeE) (rename_tac q, case_tac q, simp_all add: parse_source_state_def)

text \<open>
  C12. Whatever operations ran, the metadata database satisfies its schema: keys are unique, every
  reference resolves, the status columns hold one of the defined texts, and every registered source
  resolves to its run, experiment and project.
\<close>

theorem repository_consistent:
  assumes "repo_reachable X db"
  shows "keys_ok db \<and> refs_ok X db \<and> columns_ok db \<and> (\<forall>s \<in> set (rp_sources db). scope_of db s \<noteq> None)"
  using repo_reachable_inv [OF assms] scope_resolves by (auto simp: repo_inv_def)

theorem repository_consistent_witness:
  "scope_of demo_sourced (new_source_row demo_registered) \<noteq> None"
  using repository_consistent [OF demo_sourced_reachable] by (simp add: demo_sourced_def)

text \<open>
  Lifecycles never go back: whatever operations follow, a run keeps its identity and its status
  only moves along \<open>created\<close>, \<open>running\<close>, then one final status that stays; a source keeps its
  identity and moves from being collected to draining to \<open>ended\<close> or \<open>lost\<close>, which stays.
\<close>

theorem lifecycles_advance:
  assumes "repo_reachable X db" and "(repo_step X)\<^sup>*\<^sup>* db db'"
  shows "(\<forall>r \<in> set (rp_runs db). \<exists>r' \<in> set (rp_runs db'). rr_id r' = rr_id r
        \<and> rr_experiment_id r' = rr_experiment_id r \<and> rr_config_json r' = rr_config_json r
        \<and> valid_run_transition (parse_run_status (rr_status r)) (parse_run_status (rr_status r'))
        \<and> (run_final (parse_run_status (rr_status r)) \<longrightarrow> parse_run_status (rr_status r') = parse_run_status (rr_status r)))
    \<and> (\<forall>s \<in> set (rp_sources db). \<exists>s' \<in> set (rp_sources db'). sr_id s' = sr_id s
        \<and> sr_run_id s' = sr_run_id s \<and> sr_endpoint s' = sr_endpoint s
        \<and> stage (parse_source_state (sr_state s)) \<le> stage (parse_source_state (sr_state s'))
        \<and> (source_final (parse_source_state (sr_state s)) \<longrightarrow> parse_source_state (sr_state s') = parse_source_state (sr_state s)))"
proof -
  have ev: "grows run_le (rp_runs db) (rp_runs db')" "grows src_le (rp_sources db) (rp_sources db')"
    using repo_steps_ok [OF assms(2)] repo_reachable_inv [OF assms(1)] by (simp_all add: step_ok_def evolves_def)
  show ?thesis
  proof (intro conjI ballI)
    fix r
    assume "r \<in> set (rp_runs db)"
    from grows_row [OF ev(1) this] obtain r' where "r' \<in> set (rp_runs db')" "run_le r r'" .
    then show "\<exists>r' \<in> set (rp_runs db'). rr_id r' = rr_id r
        \<and> rr_experiment_id r' = rr_experiment_id r \<and> rr_config_json r' = rr_config_json r
        \<and> valid_run_transition (parse_run_status (rr_status r)) (parse_run_status (rr_status r'))
        \<and> (run_final (parse_run_status (rr_status r)) \<longrightarrow> parse_run_status (rr_status r') = parse_run_status (rr_status r))"
      unfolding run_le_def using run_cycle.column_final by (metis (no_types, lifting))
  next
    fix s
    assume "s \<in> set (rp_sources db)"
    from grows_row [OF ev(2) this] obtain s' where s': "s' \<in> set (rp_sources db')" "src_le s s'" .
    have "stage (parse_source_state (sr_state s)) \<le> stage (parse_source_state (sr_state s'))"
      using s'(2) by (auto simp: src_le_def source_le_def)
    with s' show "\<exists>s' \<in> set (rp_sources db'). sr_id s' = sr_id s
        \<and> sr_run_id s' = sr_run_id s \<and> sr_endpoint s' = sr_endpoint s
        \<and> stage (parse_source_state (sr_state s)) \<le> stage (parse_source_state (sr_state s'))
        \<and> (source_final (parse_source_state (sr_state s)) \<longrightarrow> parse_source_state (sr_state s') = parse_source_state (sr_state s))"
      unfolding src_le_def using source_cycle.column_final by blast
  qed
qed


lemma demo_finish:
  "update_run_status 7 demo_sourced ''r'' Finished
     = Inr (run_from_row (hd (rp_runs (set_run_status ''r'' Finished 7 demo_sourced))), set_run_status ''r'' Finished 7 demo_sourced)"
  by (simp add: update_run_status_def run_by_id_def demo_sourced_def demo_repo_def set_run_status_def
      parse_run_status_def Let_def)

theorem lifecycles_advance_witness:
  "\<exists>s' \<in> set (rp_sources (set_run_status ''r'' Finished 7 demo_sourced)).
     sr_id s' = sr_id (new_source_row demo_registered)"
proof -
  have "new_source_row demo_registered \<in> set (rp_sources demo_sourced)" by (simp add: demo_sourced_def)
  then show ?thesis using lifecycles_advance [OF demo_sourced_reachable r_into_rtranclp [of "repo_step demo_env", OF repo_step.run_status_set [OF demo_finish]]]
    by blast
qed

text \<open>
  C13. A terminal status stops the remaining sources: when a run is moved to a new final status, every
  source of the run is final afterwards; those that were still open become \<open>lost\<close> exactly for a
  failed run and \<open>ended\<close> otherwise, the others and those of other runs are untouched.
\<close>

theorem terminal_run_stops_sources:
  assumes "repo_reachable X db" and "update_run_status now db key target = Inr (r, db')"
    and "run_final target" and "\<exists>row. run_by_id db key = Some row \<and> parse_run_status (rr_status row) \<noteq> target"
  shows "rn_status r = target
    \<and> (\<forall>s \<in> set (rp_sources db'). sr_run_id s = key \<longrightarrow> source_final (parse_source_state (sr_state s)))
    \<and> rp_sources db' = map (\<lambda>s. if sr_run_id s = key \<and> \<not> source_final (parse_source_state (sr_state s))
        then s\<lparr>sr_state := source_state_text (if target = Failed then Lost else Ended)\<rparr> else s) (rp_sources db)"
proof -
  let ?st = "source_state_text (if target = Failed then Lost else Ended)"
  let ?g = "\<lambda>s. if sr_run_id s = key \<and> sr_state s \<notin> {''ended'', ''lost''} then s\<lparr>sr_state := ?st\<rparr> else s"
  have st: "terminal_source_state target = Some ?st" using assms(3) by (cases target) simp_all
  obtain row where row: "run_by_id db key = Some row" "parse_run_status (rr_status row) \<noteq> target"
    using assms(4) by blast
  then obtain row' where db': "db' = set_run_status key target now db"
    and r: "run_by_id (set_run_status key target now db) key = Some row'" "r = run_from_row row'"
    using assms(2) unfolding update_run_status_def Let_def
    by (auto simp: result_iffs simp del: valid_run_transition.simps split: if_split_asm)
  have "rp_runs (set_run_status key target now db) = map (\<lambda>r. if rr_id r = key
      then r\<lparr>rr_status := status_text target, rr_updated_at_ns := now\<rparr> else r) (rp_runs db)"
    by (simp add: set_run_status_def)
  then have "rr_status row' = status_text target"
    using run_by_id_mem [OF r(1)] by (elim conjE) (simp only: set_map, elim imageE, simp split: if_split_asm)
  then have status: "rn_status r = target" using r(2) by (simp add: run_from_row_def run_cycle.parse_text)
  have srcs: "rp_sources db' = map ?g (rp_sources db)" using st by (simp add: db' set_run_status_def)
  have final: "source_final (parse_source_state (sr_state s)) \<longleftrightarrow> sr_state s \<in> {''ended'', ''lost''}"
    if "s \<in> set (rp_sources db)" for s
    by (rule source_final_column) (use that repo_reachable_inv [OF assms(1)] in \<open>auto simp: repo_inv_def columns_ok_def\<close>)
  have "rp_sources db' = map (\<lambda>s. if sr_run_id s = key \<and> \<not> source_final (parse_source_state (sr_state s))
        then s\<lparr>sr_state := ?st\<rparr> else s) (rp_sources db)"
    unfolding srcs by (rule map_cong [OF refl]) (simp add: final del: insert_iff)
  moreover have "\<forall>s \<in> set (rp_sources db'). sr_run_id s = key \<longrightarrow> source_final (parse_source_state (sr_state s))"
  proof (intro ballI impI)
    fix s'
    assume s': "s' \<in> set (rp_sources db')" "sr_run_id s' = key"
    then obtain s where s: "s \<in> set (rp_sources db)" "s' = ?g s" unfolding srcs set_map by (elim imageE) blast
    then show "source_final (parse_source_state (sr_state s'))"
    proof (cases "sr_run_id s = key \<and> sr_state s \<notin> {''ended'', ''lost''}")
      case True
      then have "sr_state s' = ?st" using s(2) by simp
      then show ?thesis using terminal_state_text [OF st] by (simp only:)
    next
      case False
      then have "s' = s" using s(2) by (simp only: if_False)
      with False s'(2) show ?thesis using final [OF s(1)] by blast
    qed
  qed
  ultimately show ?thesis using status by blast
qed

theorem terminal_run_witness:
  "map sr_state (rp_sources (set_run_status ''r'' Finished 7 demo_sourced)) = [''ended'']"
  using terminal_run_stops_sources [OF demo_sourced_reachable demo_finish]
  by (simp add: demo_sourced_def demo_repo_def run_by_id_def parse_run_status_def parse_source_state_def
      new_source_row_def demo_registered_def)


lemma insert_known_project: "p \<in> set (rp_projects db) \<Longrightarrow> \<exists>x. insert_project p db = Inl x"
  by (simp add: insert_project_def)

lemma ensure_project_again:
  assumes "ensure_project nid now name db = Inr (key, db1)" and "rp_projects db2 = rp_projects db1"
  shows "ensure_project nid' now' name db2 = Inr (key, db2)"
proof -
  obtain p where p: "find (\<lambda>p. pj_name p = name) (rp_projects db1) = Some p" "pj_id p = key"
    using assms(1) unfolding ensure_project_def Let_def by (auto simp: result_iffs)
  then obtain x where "insert_project p db2 = Inl x"
    using insert_known_project [of p db2] find_SomeD [OF p(1)] assms(2) by auto
  with p assms(2) show ?thesis by (simp add: ensure_project_def Let_def or_ignore_def)
qed

lemma ensure_experiment_again:
  assumes "ensure_experiment nid now pid name db = Inr (key, db1)" and "rp_experiments db2 = rp_experiments db1"
  shows "ensure_experiment nid' now' pid name db2 = Inr (key, db2)"
proof -
  let ?here = "\<lambda>e. ex_project_id e = pid \<and> ex_name e = name"
  obtain e where e: "find ?here (rp_experiments db1) = Some e" "ex_id e = key"
    using assms(1) unfolding ensure_experiment_def Let_def by (auto simp: result_iffs)
  then obtain x where "insert_experiment e db2 = Inl x"
    using insert_known_experiment [of e db2] find_SomeD [OF e(1)] assms(2) by auto
  with e assms(2) show ?thesis by (simp add: ensure_experiment_def Let_def or_ignore_def)
qed

lemma find_snoc: "find P (xs @ [x]) = (case find P xs of Some y \<Rightarrow> Some y | None \<Rightarrow> if P x then Some x else None)"
  by (induction xs) auto

lemma ensure_run_again:
  assumes "ensure_run X now key eid name config db = Inr (r, db1)" and "json_codec X"
  shows "ensure_run X now' key eid name config db1 = Inr (r, db1)"
    and "rp_projects db1 = rp_projects db" and "rp_experiments db1 = rp_experiments db"
proof -
  have "ensure_run X now' key eid name config db1 = Inr (r, db1)
      \<and> rp_projects db1 = rp_projects db \<and> rp_experiments db1 = rp_experiments db"
  proof (cases "run_by_id db key")
    case None
    then obtain enc where "print_json X config = Inr enc" "insert_run \<lparr>rn_id = key, rn_experiment_id = eid,
          rn_name = name, rn_status = Created, rn_config_json = enc, rn_created_at_ns = now, rn_updated_at_ns = now\<rparr> db = Inr db1"
      "r = \<lparr>rn_id = key, rn_experiment_id = eid,
          rn_name = name, rn_status = Created, rn_config_json = enc, rn_created_at_ns = now, rn_updated_at_ns = now\<rparr>"
      using assms(1) by (auto simp: ensure_run_def Let_def result_iffs)
    moreover from this assms(2) have "parse_json X enc = Inr config" by (simp add: json_codec_def)
    ultimately show ?thesis using None unfolding insert_run_def
      by (auto simp: ensure_run_def run_by_id_def find_snoc run_from_row_def parse_run_status_def split: if_split_asm)
  next
    case (Some row)
    then show ?thesis using assms(1) by (auto simp: ensure_run_def Let_def result_iffs split: if_split_asm)
  qed
  then show "ensure_run X now' key eid name config db1 = Inr (r, db1)"
    and "rp_projects db1 = rp_projects db" and "rp_experiments db1 = rp_experiments db" by blast+
qed

text \<open>
  Materializing a configured run is idempotent: repeating the call, with whatever identifiers
  and clock it draws, returns the same run and leaves the database unchanged.
\<close>

theorem configured_run_idempotent:
  assumes "json_codec X"
    and "ensure_configured_run X d db key project_name experiment_name name config_json = Inr (r, db')"
  shows "ensure_configured_run X d' db' key project_name experiment_name name config_json = Inr (r, db')"
proof -
  obtain config pid db1 eid db2
    where pre: "for_each check_configured [(''run id'', key), (''project name'', project_name),
              (''experiment name'', experiment_name), (''run name'', name)] = Inr ()"
        "parse_json X config_json = Inr config" "is_object config"
      and p: "ensure_project (dr_project d) (dr_now d) (str_trim project_name) db = Inr (pid, db1)"
      and e: "ensure_experiment (dr_experiment d) (dr_now d) pid (str_trim experiment_name) db1 = Inr (eid, db2)"
      and r: "ensure_run X (dr_now d) key eid (str_trim name) config db2 = Inr (r, db')"
    using assms(2) unfolding ensure_configured_run_def by (auto simp: rbind_eq_Inr map_err_eq_Inr ensure_eq_Inr simp del: for_each.simps)
  have "rp_projects db2 = rp_projects db1"
    using e unfolding ensure_experiment_def Let_def or_ignore_def insert_experiment_def
    by (auto simp: result_iffs split: if_split_asm)
  then have "rp_projects db' = rp_projects db1" using ensure_run_again(2) [OF r assms(1)] by simp
  from pre ensure_project_again [OF p this] ensure_experiment_again [OF e ensure_run_again(3) [OF r assms(1)]]
    ensure_run_again(1) [OF r assms(1)]
  show ?thesis unfolding ensure_configured_run_def by (simp del: for_each.simps)
qed

theorem configured_run_witness:
  "ensure_configured_run demo_env \<lparr>dr_project = ''p2'', dr_experiment = ''e2'', dr_now = 99\<rparr> demo_repo
     ''r'' ''p'' ''e'' ''n'' ''o0,'' = Inr (run_from_row (hd (rp_runs demo_repo)), demo_repo)"
  by (rule configured_run_idempotent [OF demo_json_codec demo_configured])


text \<open>The tables after the successes \<open>us\<close> were recorded at \<open>now\<close>; the last report of a source counts.\<close>

definition reported_source :: "repo \<Rightarrow> int \<Rightarrow> (string \<times> snapshot_descriptor) list \<Rightarrow> source_row \<Rightarrow> source_row" where
  "reported_source db now us s = (case map_of (rev us) (sr_id s) of
     None \<Rightarrow> s
   | Some d \<Rightarrow> if collectable db s
       then s\<lparr>sr_state := ''active'', sr_session_id := Some (d_source_session_id d),
              sr_last_success_at_ns := Some now, sr_last_error := None\<rparr>
       else s)"

definition started_run :: "repo \<Rightarrow> int \<Rightarrow> (string \<times> snapshot_descriptor) list \<Rightarrow> run_row \<Rightarrow> run_row" where
  "started_run db now us r =
     (if rr_status r = ''created''
         \<and> (\<exists>key \<in> fst ` set us. map_option sr_run_id (source_row_by_id db key) = Some (rr_id r))
      then r\<lparr>rr_status := ''running'', rr_updated_at_ns := now\<rparr> else r)"

definition reported_descriptor ::
  "repo_env \<Rightarrow> int \<Rightarrow> (string \<times> snapshot_descriptor) list \<Rightarrow> string \<Rightarrow> (string \<times> int) option \<Rightarrow> (string \<times> int) option \<Rightarrow> bool" where
  "reported_descriptor X now us key before after = (case map_of (rev us) key of
     None \<Rightarrow> after = before
   | Some d \<Rightarrow> (\<exists>encoded. print_descriptor X d = Inr encoded \<and> after \<in> {Some (encoded, now), before}
        \<and> map_option fst after = Some encoded))"

definition successes_recorded ::
  "repo_env \<Rightarrow> int \<Rightarrow> (string \<times> snapshot_descriptor) list \<Rightarrow> repo \<Rightarrow> repo \<Rightarrow> bool" where
  "successes_recorded X now us db db' \<longleftrightarrow>
     rp_projects db' = rp_projects db \<and> rp_experiments db' = rp_experiments db
     \<and> rp_sources db' = map (reported_source db now us) (rp_sources db)
     \<and> rp_runs db' = map (started_run db now us) (rp_runs db)
     \<and> bm_sorted (rp_descriptors db')
     \<and> (\<forall>key. reported_descriptor X now us key (bm_get (rp_descriptors db) key) (bm_get (rp_descriptors db') key))"

lemma list_ex_map_iff: "(\<And>x. P (f x) = P x) \<Longrightarrow> list_ex P (map f xs) = list_ex P xs"
  by (induction xs) auto

lemma collectable_started:
  "rp_runs db' = map (started_run db now us) (rp_runs db) \<Longrightarrow> collectable db' s = collectable db s"
  unfolding collectable_def by (simp only:, subst list_ex_map_iff) (simp_all add: started_run_def)

lemma reported_source_keys [simp]:
  "sr_id (reported_source db now us s) = sr_id s" "sr_run_id (reported_source db now us s) = sr_run_id s"
  by (simp_all add: reported_source_def split: option.split)

lemma collectable_reported: "collectable db' (reported_source db now us s) = collectable db' s"
  if "collectable db' s = collectable db s"
  using that by (auto simp: reported_source_def collectable_def split: option.split)

lemma source_row_reported:
  "rp_sources db' = map (reported_source db now us) (rp_sources db) \<Longrightarrow>
   map_option sr_run_id (source_row_by_id db' key) = map_option sr_run_id (source_row_by_id db key)"
proof -
  have "map_option sr_run_id (find (\<lambda>s. sr_id s = key) (map (reported_source db now us) xs))
      = map_option sr_run_id (find (\<lambda>s. sr_id s = key) xs)" for xs
    by (induction xs) auto
  then show "rp_sources db' = map (reported_source db now us) (rp_sources db) \<Longrightarrow>
      map_option sr_run_id (source_row_by_id db' key) = map_option sr_run_id (source_row_by_id db key)"
    by (simp add: source_row_by_id_def)
qed

lemma success_recorded:
  assumes "source_success X now db u = Inr db'" and "bm_sorted (rp_descriptors db)"
  shows "successes_recorded X now [u] db db'"
proof -
  obtain key desc where u: "u = (key, desc)" by fastforce
  let ?m = "mark_active key (d_source_session_id desc) now db"
  obtain encoded db1 where e: "print_descriptor X desc = Inr encoded"
    and d: "put_descriptor X key encoded now ?m = Inr db1" and db': "db' = start_run key now db1"
    using assms(1) unfolding u source_success_def by (auto simp: result_iffs)
  have s1: "rp_sources ?m = map (reported_source db now [u]) (rp_sources db)"
    by (auto simp: mark_active_def reported_source_def u)
  have frame: "rp_projects ?m = rp_projects db" "rp_experiments ?m = rp_experiments db" "rp_runs ?m = rp_runs db"
      "rp_descriptors ?m = rp_descriptors db"
    by (simp_all add: mark_active_def)
  have d1: "rp_projects db1 = rp_projects db" "rp_experiments db1 = rp_experiments db" "rp_runs db1 = rp_runs db"
      "rp_sources db1 = rp_sources ?m"
    using d frame by (cases rule: put_descriptor_cases; simp)+
  have desc: "bm_sorted (rp_descriptors db1)
      \<and> reported_descriptor X now [u] k (bm_get (rp_descriptors db) k) (bm_get (rp_descriptors db1) k)" for k
    using d assms(2) e unfolding put_descriptor_def frame u reported_descriptor_def
    by (auto simp: bm_get_insert bm_sorted_insert frame split: option.splits if_split_asm)
  show ?thesis
    using d1 desc s1 source_row_reported [of ?m db now "[u]"] db' unfolding successes_recorded_def start_run_def u
    by (simp add: started_run_def source_row_by_id_def)
qed

lemma map_of_rev_Cons: "map_of (rev (u # us)) k = (case map_of (rev us) k of Some d \<Rightarrow> Some d | None \<Rightarrow>
    if k = fst u then Some (snd u) else None)"
  by (cases u) (simp add: map_add_def split: option.split)

lemma successes_recorded_Cons:
  assumes a: "successes_recorded X now [u] db db1" and b: "successes_recorded X now us db1 db2"
  shows "successes_recorded X now (u # us) db db2"
proof -
  have runs: "rp_runs db1 = map (started_run db now [u]) (rp_runs db)"
    and src: "rp_sources db1 = map (reported_source db now [u]) (rp_sources db)"
    using a by (simp_all add: successes_recorded_def)
  have "reported_source db1 now us (reported_source db now [u] s) = reported_source db now (u # us) s" for s
  proof -
    have c: "collectable db1 (reported_source db now [u] s) = collectable db s"
      by (simp add: collectable_started [OF runs] collectable_reported)
    show ?thesis
    proof (cases "map_of (rev us) (sr_id s)")
      case None
      then have "map_of (rev (u # us)) (sr_id s) = map_of (rev [u]) (sr_id s)"
        unfolding map_of_rev_Cons by (cases u) simp
      then have "reported_source db now (u # us) s = reported_source db now [u] s"
        by (simp only: reported_source_def)
      moreover have "reported_source db1 now us (reported_source db now [u] s) = reported_source db now [u] s"
        unfolding reported_source_def [of db1] reported_source_keys None by simp
      ultimately show ?thesis by simp
    next
      case (Some d)
      have "reported_source db1 now us (reported_source db now [u] s)
          = (if collectable db s then (reported_source db now [u] s)\<lparr>sr_state := ''active'',
               sr_session_id := Some (d_source_session_id d), sr_last_success_at_ns := Some now, sr_last_error := None\<rparr>
             else reported_source db now [u] s)"
        unfolding reported_source_def [of db1] reported_source_keys Some c by simp
      also have "\<dots> = reported_source db now (u # us) s"
      proof -
        have "map_of (rev (u # us)) (sr_id s) = Some d" unfolding map_of_rev_Cons Some by simp
        then show ?thesis unfolding reported_source_def by (cases u) simp
      qed
      finally show ?thesis .
    qed
  qed
  moreover have "started_run db1 now us (started_run db now [u] r) = started_run db now (u # us) r" for r
    unfolding started_run_def source_row_reported [OF src] by (cases u) auto
  moreover have "reported_descriptor X now (u # us) key x z"
    if "reported_descriptor X now [u] key x y" "reported_descriptor X now us key y z" for key x y z
    using that unfolding reported_descriptor_def map_of_rev_Cons by (cases u) (auto split: option.splits if_splits)
  ultimately show ?thesis using a b unfolding successes_recorded_def
    by (elim conjE, intro conjI allI) (simp_all add: comp_def, blast)
qed

lemma batch_recorded:
  "update_source_success_batch X now db us = Inr db' \<Longrightarrow> bm_sorted (rp_descriptors db) \<Longrightarrow>
   successes_recorded X now us db db'"
  unfolding update_source_success_batch_def
proof (induction us arbitrary: db)
  case Nil
  then show ?case by (simp add: successes_recorded_def reported_source_def started_run_def reported_descriptor_def map_idI)
next
  case (Cons u us)
  then obtain db1 where s: "source_success X now db u = Inr db1" "try_fold (source_success X now) db1 us = Inr db'"
    by (auto simp: rbind_eq_Inr)
  note a = success_recorded [OF s(1) Cons.prems(2)]
  then have "bm_sorted (rp_descriptors db1)" by (simp add: successes_recorded_def)
  from successes_recorded_Cons [OF a Cons.IH [OF s(2) this]] show ?case .
qed

lemma source_row_by_id_iff:
  assumes "distinct (map sr_id (rp_sources db))"
  shows "map_option sr_run_id (source_row_by_id db key) = Some k
    \<longleftrightarrow> (\<exists>s \<in> set (rp_sources db). sr_id s = key \<and> sr_run_id s = k)"
proof
  assume "map_option sr_run_id (source_row_by_id db key) = Some k"
  then show "\<exists>s \<in> set (rp_sources db). sr_id s = key \<and> sr_run_id s = k"
    using source_row_by_id_mem by fastforce
next
  assume "\<exists>s \<in> set (rp_sources db). sr_id s = key \<and> sr_run_id s = k"
  then obtain s where s: "s \<in> set (rp_sources db)" "sr_id s = key" "sr_run_id s = k" by blast
  then obtain q where q: "source_row_by_id db key = Some q"
    using source_row_by_id_None by (cases "source_row_by_id db key") blast+
  from source_row_by_id_mem [OF q] s assms have "q = s" by (auto simp: distinct_map dest: inj_onD)
  with q s show "map_option sr_run_id (source_row_by_id db key) = Some k" by simp
qed

text \<open>
  C14. Results of in-flight scrapes cannot reactivate anything. After a batch of successes the projects
  and experiments are as before; a source is changed only when it was reported and is still
  collectable, that is its run was \<open>created\<close> or \<open>running\<close> and the source itself not draining, ended or
  lost, and then it becomes active with the session of its last report, the time of the batch and no
  error; a run is changed only from \<open>created\<close> to \<open>running\<close>, when one of its sources was reported. The
  descriptor of every reported source, whatever its state, is the one last reported, and its time
  stays when its text was the same; the others stay. Recording a failure changes nothing but the
  state and the error of that source, and only when it is collectable.
\<close>

theorem collector_cannot_revive:
  assumes "repo_reachable X db" and "update_source_success_batch X now db us = Inr db'"
  shows "rp_projects db' = rp_projects db \<and> rp_experiments db' = rp_experiments db
    \<and> rp_sources db' = map (\<lambda>s. case map_of (rev us) (sr_id s) of
          Some d \<Rightarrow>
            if sr_state s \<notin> {''draining'', ''ended'', ''lost''}
               \<and> (\<exists>r \<in> set (rp_runs db). rr_id r = sr_run_id s \<and> rr_status r \<in> {''created'', ''running''})
            then s\<lparr>sr_state := ''active'', sr_session_id := Some (d_source_session_id d),
                   sr_last_success_at_ns := Some now, sr_last_error := None\<rparr>
            else s
        | None \<Rightarrow> s) (rp_sources db)
    \<and> rp_runs db' = map (\<lambda>r. if rr_status r = ''created''
            \<and> (\<exists>s \<in> set (rp_sources db). sr_id s \<in> fst ` set us \<and> sr_run_id s = rr_id r)
          then r\<lparr>rr_status := ''running'', rr_updated_at_ns := now\<rparr> else r) (rp_runs db)
    \<and> (\<forall>key. case map_of (rev us) key of
          None \<Rightarrow> bm_get (rp_descriptors db') key = bm_get (rp_descriptors db) key
        | Some d \<Rightarrow> (\<exists>encoded t. print_descriptor X d = Inr encoded
            \<and> bm_get (rp_descriptors db') key = Some (encoded, t)
            \<and> (t = now \<or> bm_get (rp_descriptors db) key = Some (encoded, t))))
    \<and> (\<exists>sources. update_source_failure db key error = db\<lparr>rp_sources := sources\<rparr>
        \<and> list_all2 (\<lambda>s s'. if sr_id s = key \<and> sr_state s \<notin> {''draining'', ''ended'', ''lost''}
               \<and> (\<exists>r \<in> set (rp_runs db). rr_id r = sr_run_id s \<and> rr_status r \<in> {''created'', ''running''})
             then s' = s\<lparr>sr_state := ''stale'', sr_last_error := Some error\<rparr> else s' = s)
           (rp_sources db) sources)"
proof -
  have inv: "repo_inv X db" by (rule repo_reachable_inv [OF assms(1)])
  then have keys: "distinct (map sr_id (rp_sources db))" and "bm_sorted (rp_descriptors db)"
    by (simp_all add: repo_inv_defs)
  note rec = batch_recorded [OF assms(2) this(2), unfolded successes_recorded_def]
  have coll: "collectable db s \<longleftrightarrow> sr_state s \<notin> {''draining'', ''ended'', ''lost''}
      \<and> (\<exists>r \<in> set (rp_runs db). rr_id r = sr_run_id s \<and> rr_status r \<in> {''created'', ''running''})" for s
    by (simp only: collectable_def list_ex_iff conj_commute)
  have row: "(\<exists>key \<in> fst ` set us. map_option sr_run_id (source_row_by_id db key) = Some k)
      \<longleftrightarrow> (\<exists>s \<in> set (rp_sources db). sr_id s \<in> fst ` set us \<and> sr_run_id s = k)" for k
    using source_row_by_id_iff [OF keys] by blast
  show ?thesis
  proof (intro conjI, goal_cases)
    case 3
    then show ?case using rec unfolding coll [symmetric] by (simp add: reported_source_def [abs_def])
  next
    case 4
    then show ?case using rec unfolding row [symmetric] by (simp add: started_run_def [abs_def])
  next
    case 5
    show ?case
    proof (rule allI)
      fix key
      have "reported_descriptor X now us key (bm_get (rp_descriptors db) key) (bm_get (rp_descriptors db') key)"
        using rec by blast
      then show "case map_of (rev us) key of
          None \<Rightarrow> bm_get (rp_descriptors db') key = bm_get (rp_descriptors db) key
        | Some d \<Rightarrow> (\<exists>encoded t. print_descriptor X d = Inr encoded
            \<and> bm_get (rp_descriptors db') key = Some (encoded, t)
            \<and> (t = now \<or> bm_get (rp_descriptors db) key = Some (encoded, t)))"
        by (auto simp: reported_descriptor_def split: option.split)
    qed
  next
    case 6
    show ?case unfolding update_source_failure_def coll [symmetric]
      by (intro exI conjI, rule refl) (simp add: list_all2_conv_all_nth)
  qed (use rec in blast)+
qed

definition demo_desc :: snapshot_descriptor where
  "demo_desc = \<lparr>d_protocol_version = 1, d_source_session_id = ''s'', d_project = ''p'', d_experiment = ''e'',
     d_run_id = ''r'', d_attempt_id = ''a'', d_role = ''w'', d_rank = None, d_node_id = None,
     d_pid = None, d_labels = [], d_schema_version = 1\<rparr>"

lemma demo_sources:
  "rp_sources demo_sourced = [new_source_row demo_registered]" "rp_descriptors demo_sourced = []"
  "sr_id (new_source_row demo_registered) = ''x''"
  by (simp_all add: demo_sourced_def demo_repo_def new_source_row_def demo_registered_def)

lemma demo_runs: "rp_runs demo_sourced = rp_runs demo_repo" "rr_id (hd (rp_runs demo_repo)) = ''r''"
  by (simp_all add: demo_sourced_def demo_repo_def)

theorem collector_cannot_revive_witness:
  "\<exists>db'. update_source_success_batch demo_env 8 demo_sourced [(''x'', demo_desc)] = Inr db'
     \<and> map sr_state (rp_sources db') = [''active''] \<and> map rr_status (rp_runs db') = [''running'']"
proof -
  obtain db' where db': "update_source_success_batch demo_env 8 demo_sourced [(''x'', demo_desc)] = Inr db'"
    by (cases "collectable demo_sourced (new_source_row demo_registered)")
      (simp_all add: update_source_success_batch_def source_success_def demo_env_def put_descriptor_def
        mark_active_def source_row_by_id_def demo_sources bm_get_def)
  note all = collector_cannot_revive [OF demo_sourced_reachable db']
  from conjunct1 [OF conjunct2 [OF conjunct2 [OF all]]]
  have "map sr_state (rp_sources db') = [''active'']"
    by (simp only:) (simp add: demo_sourced_def demo_repo_def new_source_row_def demo_registered_def)
  moreover from conjunct1 [OF conjunct2 [OF conjunct2 [OF conjunct2 [OF all]]]]
  have "map rr_status (rp_runs db') = [''running'']"
    by (simp only:) (simp add: demo_sourced_def demo_repo_def new_source_row_def demo_registered_def)
  ultimately show ?thesis using db' by (intro exI [of _ db'] conjI)
qed

end
