(* ===== verification/Snapshot_Store.thy ===== *)
theory Snapshot_Store
  imports Engine_Types "HOL-Library.Product_Lexorder"
begin

text \<open>
  The durable snapshot store (\<open>rust/rvx-engine/src/snapshot_store.rs\<close>).

  \<^item> The database is the record \<open>store\<close>: one list or map per table, with the tables' keys.
    Statements are the operations they perform on it. Inside a transaction an operation returns its
    result and the store it leaves, also when it fails (\<open>tx_bind\<close>): what it had written until then is
    still there, and goes away only because the savepoint is rolled back (\<open>ingest_batch\<close>).
  \<^item> The derived indexes (\<open>chart_index\<close>, \<open>artifact_index\<close>) are written in the same transaction.
    They are the component \<open>st_index\<close>, changed by the argument \<open>project\<close>; every lemma holds for
    all of them.
  \<^item> The clock is the argument \<open>clock\<close>, by the position of its reading within a page.
\<close>

abbreviation (input) PAGE_ENVELOPE_RESERVE :: nat where "PAGE_ENVELOPE_RESERVE \<equiv> 16384"
abbreviation (input) MAX_SNAPSHOT_DIFF_CHANGES :: nat where "MAX_SNAPSHOT_DIFF_CHANGES \<equiv> 1000"
abbreviation (input) MAX_SNAPSHOT_SOURCE_IDS :: nat where "MAX_SNAPSHOT_SOURCE_IDS \<equiv> 256"

subsection \<open>Tables\<close>

record snap_row =
  row_id :: int
  row_run_id :: string
  row_source_id :: string
  row_session_id :: string
  row_sequence :: nat
  row_observed_at_ns :: int
  row_ingested_at_ns :: int
  row_json :: string

record gap_row =
  gap_source_id :: string
  gap_session_id :: string
  gap_expected :: nat
  gap_oldest :: nat
  gap_observed_at_ns :: int

record 'ix store =
  st_rows :: "snap_row list"
  st_last_id :: int
  st_heads :: "(string \<times> string, int) bmap"
  st_cursors :: "(string \<times> string, nat \<times> int) bmap"
  st_gaps :: "gap_row list"
  st_index :: 'ix

definition empty_store :: "'ix \<Rightarrow> 'ix store" where
  "empty_store ix = \<lparr>st_rows = [], st_last_id = 0, st_heads = [], st_cursors = [], st_gaps = [],
     st_index = ix\<rparr>"

record stored_snapshot =
  ss_id :: int
  ss_run_id :: string
  ss_source_id :: string
  ss_ingested_at_ns :: int
  ss_snapshot :: state_snapshot

record persisted_cursor_request =
  pcq_run_id :: string
  pcq_source_id :: string
  pcq_session_id :: string
  pcq_next_sequence :: nat

record persisted_cursor_response =
  pcr_run_id :: string
  pcr_source_id :: string
  pcr_session_id :: string
  pcr_persisted_next_sequence :: nat
  pcr_complete :: bool
  pcr_has_gaps :: bool

type_synonym 'ix projection =
  "int \<Rightarrow> string \<Rightarrow> string \<Rightarrow> state_snapshot \<Rightarrow> 'ix \<Rightarrow> engine_error + 'ix"

subsection \<open>Cursors\<close>

definition check_ids :: "string list \<Rightarrow> nat \<Rightarrow> engine_error + unit" where
  "check_ids ids maximum =
     ensure (\<not> (maximum < length ids \<or> list_ex (\<lambda>id. blank id \<or> 4096 < length id) ids))
       (EngineInvalid ''too many identifiers, or empty/oversized identifier'')"

definition cursor :: "'ix store \<Rightarrow> string \<Rightarrow> string \<Rightarrow> nat" where
  "cursor db source_id session =
     (case bm_get (st_cursors db) (source_id, session) of None \<Rightarrow> 0 | Some (n, _) \<Rightarrow> n)"

definition gap_of :: "string \<Rightarrow> string \<Rightarrow> gap_row \<Rightarrow> bool" where
  "gap_of source_id session g \<longleftrightarrow> gap_source_id g = source_id \<and> gap_session_id g = session"

definition row_of :: "string \<Rightarrow> string \<Rightarrow> snap_row \<Rightarrow> bool" where
  "row_of source_id session r \<longleftrightarrow> row_source_id r = source_id \<and> row_session_id r = session"

definition persisted_cursor ::
  "'ix store \<Rightarrow> persisted_cursor_request \<Rightarrow> engine_error + persisted_cursor_response" where
  "persisted_cursor db request =
     rbind (check_ids [pcq_run_id request, pcq_source_id request, pcq_session_id request] 3) (\<lambda>_.
     rbind (ensure (\<not> i64_max_u < pcq_next_sequence request)
              (EngineInvalid ''cursor exceeds signed 64-bit range'')) (\<lambda>_.
     let persisted = cursor db (pcq_source_id request) (pcq_session_id request);
         gaps = list_ex (\<lambda>g. gap_of (pcq_source_id request) (pcq_session_id request) g
                             \<and> gap_expected g < pcq_next_sequence request) (st_gaps db) in
     Inr \<lparr>pcr_run_id = pcq_run_id request, pcr_source_id = pcq_source_id request,
          pcr_session_id = pcq_session_id request, pcr_persisted_next_sequence = persisted,
          pcr_complete = (pcq_next_sequence request \<le> persisted \<and> \<not> gaps),
          pcr_has_gaps = gaps\<rparr>))"

subsection \<open>Ingestion of a page\<close>

definition find_row :: "'ix store \<Rightarrow> string \<Rightarrow> string \<Rightarrow> nat \<Rightarrow> snap_row option" where
  "find_row db source_id session sequence =
     List.find (\<lambda>r. row_of source_id session r \<and> row_sequence r = sequence) (st_rows db)"

text \<open>\<open>INSERT INTO snapshots\<close>, with the table's \<open>UNIQUE\<close> constraint and \<open>AUTOINCREMENT\<close> key.\<close>

definition insert_row ::
  "'ix store \<Rightarrow> source \<Rightarrow> string \<Rightarrow> state_snapshot \<Rightarrow> int \<Rightarrow> string \<Rightarrow> engine_error + (int \<times> 'ix store)" where
  "insert_row db source session snapshot now encoded =
     rbind (ensure (find_row db (src_id source) session (s_sequence snapshot) = None)
              (Sqlite ''UNIQUE constraint failed'')) (\<lambda>_.
     let id = st_last_id db + 1 in
     Inr (id, db\<lparr>st_last_id := id,
       st_rows := st_rows db @ [\<lparr>row_id = id, row_run_id = src_run_id source,
         row_source_id = src_id source, row_session_id = session,
         row_sequence = s_sequence snapshot, row_observed_at_ns = s_observed_at_ns snapshot,
         row_ingested_at_ns = now, row_json = encoded\<rparr>]\<rparr>))"

text \<open>
  Statements run one after the other: the first error ends the sequence and leaves what was written
  until then. \<open>tx_read\<close> is a check, \<open>tx_get\<close> a query, \<open>tx_write\<close> changes the store.
\<close>

definition tx_read :: "'e + 'a \<Rightarrow> 's \<Rightarrow> ('e + 'a) \<times> 's" where
  "tx_read r s = (r, s)"

definition tx_get :: "('s \<Rightarrow> 's \<Rightarrow> ('e + 'a) \<times> 's) \<Rightarrow> 's \<Rightarrow> ('e + 'a) \<times> 's" where
  "tx_get f s = f s s"

definition tx_write :: "('s \<Rightarrow> 's) \<Rightarrow> 's \<Rightarrow> ('e + unit) \<times> 's" where
  "tx_write f s = (Inr (), f s)"

definition tx_bind :: "('s \<Rightarrow> ('e + 'a) \<times> 's) \<Rightarrow> ('a \<Rightarrow> 's \<Rightarrow> ('e + 'b) \<times> 's) \<Rightarrow> 's \<Rightarrow> ('e + 'b) \<times> 's" where
  "tx_bind m f s = (case m s of (Inl e, s') \<Rightarrow> (Inl e, s') | (Inr x, s') \<Rightarrow> f x s')"

fun tx_fold :: "('a \<Rightarrow> 'x \<Rightarrow> 's \<Rightarrow> ('e + 'a) \<times> 's) \<Rightarrow> 'a \<Rightarrow> 'x list \<Rightarrow> 's \<Rightarrow> ('e + 'a) \<times> 's" where
  "tx_fold f a [] = tx_read (Inr a)"
| "tx_fold f a (x # xs) = tx_bind (f a x) (\<lambda>a. tx_fold f a xs)"

lemma tx_simps:
  "tx_read r s = (r, s)"
  "tx_get q s = q s s"
  "tx_write w s = (Inr (), w s)"
  "tx_bind (tx_read (Inr x)) f s = f x s"
  "tx_bind (tx_read (Inl e)) f s = (Inl e, s)"
  "tx_bind (tx_get q) f s = tx_bind (q s) f s"
  "tx_bind (tx_write w) h s = h () (w s)"
  "tx_bind (tx_bind m g) f s = tx_bind m (\<lambda>x. tx_bind (g x) f) s"
  by (simp_all add: tx_read_def tx_get_def tx_write_def tx_bind_def split: prod.split sum.split)

text \<open>
  Writing the indexes. Which of its rows a failing index leaves is not modelled; they are in the same
  savepoint as the row before them, which stays.
\<close>

definition write_index ::
  "'ix projection \<Rightarrow> source \<Rightarrow> state_snapshot \<Rightarrow> int \<Rightarrow> 'ix store \<Rightarrow> (engine_error + unit) \<times> 'ix store" where
  "write_index project source snapshot snapshot_id db =
     (case project snapshot_id (src_run_id source) (src_id source) snapshot (st_index db) of
        Inl e \<Rightarrow> (Inl e, db)
      | Inr ix \<Rightarrow> (Inr (), db\<lparr>st_index := ix\<rparr>))"

definition write_row ::
  "source \<Rightarrow> string \<Rightarrow> state_snapshot \<Rightarrow> int \<Rightarrow> string \<Rightarrow> 'ix store \<Rightarrow> (engine_error + int) \<times> 'ix store" where
  "write_row source session snapshot now encoded db =
     (case insert_row db source session snapshot now encoded of
        Inl e \<Rightarrow> (Inl e, db)
      | Inr (snapshot_id, db') \<Rightarrow> (Inr snapshot_id, db'))"

definition write_snapshot ::
  "serde_ext \<Rightarrow> 'ix projection \<Rightarrow> (nat \<Rightarrow> int) \<Rightarrow> source \<Rightarrow> string \<Rightarrow> nat \<Rightarrow> nat \<Rightarrow> nat \<times> state_snapshot
   \<Rightarrow> 'ix store \<Rightarrow> (engine_error + nat) \<times> 'ix store" where
  "write_snapshot X project clock source session committed accepted = (\<lambda>(index, snapshot).
     tx_bind (tx_read (map_err Json (to_vec_snapshot X snapshot))) (\<lambda>encoded.
     tx_get (\<lambda>db. case find_row db (src_id source) session (s_sequence snapshot) of
       Some r \<Rightarrow>
         (if row_run_id r \<noteq> src_run_id source
          then tx_read (Inl (EngineInvalid ''duplicate snapshot sequence contains conflicting state''))
          else tx_bind (tx_read (map_err Json (from_str_snapshot X (row_json r)))) (\<lambda>previous.
            if previous \<noteq> snapshot
            then tx_read (Inl (EngineInvalid ''duplicate snapshot sequence contains conflicting state''))
            else tx_read (Inr accepted)))
     | None \<Rightarrow>
         tx_bind (tx_read (ensure (\<not> s_sequence snapshot < committed)
                  (EngineInvalid ''snapshot sequence regresses behind its committed cursor''))) (\<lambda>_.
         tx_bind (write_row source session snapshot (clock index) encoded) (\<lambda>snapshot_id.
         tx_bind (write_index project source snapshot snapshot_id) (\<lambda>_.
         tx_bind (tx_read (map_err Protocol (is_tracker_event X (s_state snapshot)))) (\<lambda>is_event.
         tx_bind (tx_write (\<lambda>db. if is_event then db else
             db\<lparr>st_heads := bm_insert (src_run_id source, src_id source) snapshot_id (st_heads db)\<rparr>)) (\<lambda>_.
         tx_read (Inr (accepted + 1))))))))))"

text \<open>The checks of a page against the committed cursor, before anything is written.\<close>

definition check_position :: "nat \<Rightarrow> snapshot_history_response \<Rightarrow> engine_error + unit" where
  "check_position committed page =
     (case List.find (\<lambda>s. committed \<le> s_sequence s) (h_snapshots page) of
        Some first_new \<Rightarrow>
          rbind (ensure (s_sequence first_new = max committed (h_oldest_sequence page))
                   (EngineInvalid ''snapshot page skips an unreported sequence'')) (\<lambda>_.
          ensure (\<not> (committed < h_oldest_sequence page
                     \<and> h_dropped_before page \<noteq> Some (h_oldest_sequence page)))
            (EngineInvalid ''expired snapshot cursor requires dropped_before''))
      | None \<Rightarrow>
          ensure (\<not> committed < h_next_sequence page)
            (EngineInvalid ''empty or duplicate page cannot advance the snapshot cursor''))"

definition record_gap ::
  "source \<Rightarrow> snapshot_history_response \<Rightarrow> nat \<Rightarrow> int \<Rightarrow> 'ix store \<Rightarrow> 'ix store" where
  "record_gap source page committed now db =
     (if committed < h_oldest_sequence page
      then db\<lparr>st_gaps := st_gaps db @ [\<lparr>gap_source_id = src_id source,
             gap_session_id = h_source_session_id page, gap_expected = committed,
             gap_oldest = h_oldest_sequence page, gap_observed_at_ns = now\<rparr>]\<rparr>
      else db)"

definition put_cursor :: "string \<Rightarrow> string \<Rightarrow> nat \<Rightarrow> int \<Rightarrow> 'ix store \<Rightarrow> 'ix store" where
  "put_cursor source_id session next_sequence now db =
     (let n = (case bm_get (st_cursors db) (source_id, session) of
                 None \<Rightarrow> next_sequence | Some (old, _) \<Rightarrow> max old next_sequence) in
      db\<lparr>st_cursors := bm_insert (source_id, session) (n, now) (st_cursors db)\<rparr>)"

definition write_page ::
  "serde_ext \<Rightarrow> 'ix projection \<Rightarrow> (nat \<Rightarrow> int) \<Rightarrow> source \<Rightarrow> snapshot_descriptor \<Rightarrow> snapshot_history_response
   \<Rightarrow> 'ix store \<Rightarrow> (engine_error + nat) \<times> 'ix store" where
  "write_page X project clock source descriptor page =
     tx_bind (tx_read (map_err Protocol (validate_snapshot_descriptor descriptor))) (\<lambda>_.
     tx_bind (tx_read (map_err Protocol (validate_snapshot_history_response X page))) (\<lambda>_.
     tx_bind (tx_read (ensure (d_source_session_id descriptor = h_source_session_id page)
              (Protocol SessionMismatch))) (\<lambda>_.
     tx_bind (tx_read (ensure (\<not> (d_run_id descriptor \<noteq> src_run_id source
                       \<or> d_attempt_id descriptor \<noteq> src_attempt_id source
                       \<or> d_role descriptor \<noteq> src_role source))
              (EngineInvalid ''snapshot descriptor identity does not match registration''))) (\<lambda>_.
     tx_bind (tx_read (check_ids [src_id source] 1)) (\<lambda>_.
     tx_bind (tx_read (check_ids [src_run_id source] 1)) (\<lambda>_. tx_get (\<lambda>db.
     let session = h_source_session_id page; committed = cursor db (src_id source) session;
         count = length (h_snapshots page) in
     tx_bind (tx_read (check_position committed page)) (\<lambda>_.
     tx_bind (tx_fold (write_snapshot X project clock source session committed) 0
               (enumerate 0 (h_snapshots page))) (\<lambda>accepted.
     if accepted = 0 then tx_read (Inr 0)
     else tx_bind (tx_write (record_gap source page committed (clock count))) (\<lambda>_.
          tx_bind (tx_write (put_cursor (src_id source) session (max committed (h_next_sequence page))
              (clock (count + 1)))) (\<lambda>_.
          tx_read (Inr accepted))))))))))))"

text \<open>\<open>SnapshotStore::ingest\<close>: a transaction of its own, committed when the page succeeds.\<close>

definition ingest_page ::
  "serde_ext \<Rightarrow> 'ix projection \<Rightarrow> (nat \<Rightarrow> int) \<Rightarrow> 'ix store \<Rightarrow> source \<Rightarrow> snapshot_descriptor
   \<Rightarrow> snapshot_history_response \<Rightarrow> engine_error + (nat \<times> 'ix store)" where
  "ingest_page X project clock db source descriptor page =
     (case write_page X project clock source descriptor page db of
        (Inl e, _) \<Rightarrow> Inl e
      | (Inr accepted, written) \<Rightarrow> Inr (accepted, written))"

text \<open>
  \<open>ingest_batch\<close>: one transaction, a savepoint per page. \<open>Savepoint::commit\<close> keeps what the page wrote,
  \<open>Savepoint::finish\<close> goes back to the store that was saved.
\<close>

fun ingest_batch ::
  "serde_ext \<Rightarrow> 'ix projection \<Rightarrow> (nat \<Rightarrow> nat \<Rightarrow> int) \<Rightarrow> 'ix store
   \<Rightarrow> (source \<times> snapshot_descriptor \<times> snapshot_history_response) list
   \<Rightarrow> (engine_error + nat) list \<times> 'ix store" where
  "ingest_batch X project clock db [] = ([], db)"
| "ingest_batch X project clock db ((source, descriptor, page) # pages) =
     (let savepoint = db;
          (result, written) = write_page X project (clock 0) source descriptor page db;
          db = (case result of Inr _ \<Rightarrow> written | Inl _ \<Rightarrow> savepoint)
      in map_prod (Cons result) id (ingest_batch X project (clock \<circ> Suc) db pages))"

declare ingest_batch.simps(2) [simp del]

subsection \<open>What succeeds\<close>

text \<open>
  A page that succeeds, step by step as a function on the store: \<open>settled\<close> forgets what a failure
  leaves, which nothing after the rollback sees.
\<close>

definition settled :: "('s \<Rightarrow> ('e + 'a) \<times> 's) \<Rightarrow> 's \<Rightarrow> 'e + ('a \<times> 's)" where
  "settled m s = (case m s of (Inl e, _) \<Rightarrow> Inl e | (Inr x, s') \<Rightarrow> Inr (x, s'))"

definition ingest_snapshot ::
  "serde_ext \<Rightarrow> 'ix projection \<Rightarrow> (nat \<Rightarrow> int) \<Rightarrow> source \<Rightarrow> string \<Rightarrow> nat
   \<Rightarrow> nat \<times> 'ix store \<Rightarrow> nat \<times> state_snapshot \<Rightarrow> engine_error + (nat \<times> 'ix store)" where
  "ingest_snapshot X project clock source session committed = (\<lambda>(accepted, db) entry.
     settled (write_snapshot X project clock source session committed accepted entry) db)"

lemma settled_read [simp]: "settled (tx_read r) s = rbind r (\<lambda>x. Inr (x, s))"
  by (cases r) (simp_all add: settled_def tx_read_def)

lemma settled_write [simp]: "settled (tx_write f) s = Inr ((), f s)"
  by (simp add: settled_def tx_write_def)

lemma settled_bind [simp]: "settled (tx_bind m f) s = rbind (settled m s) (\<lambda>(x, s'). settled (f x) s')"
  by (auto simp: settled_def tx_bind_def split: prod.split sum.split)

lemma settled_fold:
  "settled (tx_fold f a xs) s = try_fold (\<lambda>(a, s) x. settled (f a x) s) (a, s) xs"
proof (induction xs arbitrary: a s)
  case (Cons x xs)
  then show ?case by (cases "settled (f a x) s") auto
qed simp

lemma settled_row [simp]:
  "settled (write_row source session snapshot now encoded) db = insert_row db source session snapshot now encoded"
  by (simp add: settled_def write_row_def split: sum.split prod.split)

lemma settled_index [simp]:
  "settled (write_index project source snapshot key) db
     = rbind (project key (src_run_id source) (src_id source) snapshot (st_index db)) (\<lambda>ix. Inr ((), db\<lparr>st_index := ix\<rparr>))"
  by (simp add: settled_def write_index_def split: sum.split)

lemma settled_get [simp]: "settled (tx_get f) s = settled (f s) s"
  by (simp add: settled_def tx_get_def)

lemma settled_option [simp]:
  "settled (case x of None \<Rightarrow> m | Some y \<Rightarrow> n y) s = (case x of None \<Rightarrow> settled m s | Some y \<Rightarrow> settled (n y) s)"
  by (simp split: option.split)

lemma settled_if [simp]: "settled (if b then m else n) s = (if b then settled m s else settled n s)"
  by simp

lemma ingest_snapshot_eq:
  "ingest_snapshot X project clock source session committed = (\<lambda>(accepted, db) (index, snapshot).
     rbind (map_err Json (to_vec_snapshot X snapshot)) (\<lambda>encoded.
     case find_row db (src_id source) session (s_sequence snapshot) of
       Some r \<Rightarrow>
         (if row_run_id r \<noteq> src_run_id source
          then Inl (EngineInvalid ''duplicate snapshot sequence contains conflicting state'')
          else rbind (map_err Json (from_str_snapshot X (row_json r))) (\<lambda>previous.
            if previous \<noteq> snapshot
            then Inl (EngineInvalid ''duplicate snapshot sequence contains conflicting state'')
            else Inr (accepted, db)))
     | None \<Rightarrow>
         rbind (ensure (\<not> s_sequence snapshot < committed)
                  (EngineInvalid ''snapshot sequence regresses behind its committed cursor'')) (\<lambda>_.
         rbind (insert_row db source session snapshot (clock index) encoded) (\<lambda>(snapshot_id, db).
         rbind (project snapshot_id (src_run_id source) (src_id source) snapshot (st_index db)) (\<lambda>ix.
         rbind (map_err Protocol (is_tracker_event X (s_state snapshot))) (\<lambda>is_event.
         let db = db\<lparr>st_index := ix\<rparr>;
             db = (if is_event then db else
                   db\<lparr>st_heads := bm_insert (src_run_id source, src_id source) snapshot_id (st_heads db)\<rparr>) in
         Inr (accepted + 1, db)))))))"
  unfolding ingest_snapshot_def write_snapshot_def
  by (simp add: fun_eq_iff rbind_assoc Let_def case_prod_beta cong: option.case_cong if_cong)

lemma ingest_page_settled:
  "ingest_page X project clock db source descriptor page
     = settled (write_page X project clock source descriptor page) db"
  by (simp add: ingest_page_def settled_def)

lemma ingest_page_eq:
  "ingest_page X project clock db source descriptor page =
     rbind (map_err Protocol (validate_snapshot_descriptor descriptor)) (\<lambda>_.
     rbind (map_err Protocol (validate_snapshot_history_response X page)) (\<lambda>_.
     rbind (ensure (d_source_session_id descriptor = h_source_session_id page)
              (Protocol SessionMismatch)) (\<lambda>_.
     rbind (ensure (\<not> (d_run_id descriptor \<noteq> src_run_id source
                       \<or> d_attempt_id descriptor \<noteq> src_attempt_id source
                       \<or> d_role descriptor \<noteq> src_role source))
              (EngineInvalid ''snapshot descriptor identity does not match registration'')) (\<lambda>_.
     rbind (check_ids [src_id source] 1) (\<lambda>_.
     rbind (check_ids [src_run_id source] 1) (\<lambda>_.
     let session = h_source_session_id page; committed = cursor db (src_id source) session;
         count = length (h_snapshots page) in
     rbind (check_position committed page) (\<lambda>_.
     rbind (try_fold (ingest_snapshot X project clock source session committed) (0, db)
              (enumerate 0 (h_snapshots page))) (\<lambda>(accepted, db).
     if accepted = 0 then Inr (0, db)
     else Inr (accepted,
            put_cursor (src_id source) session (max committed (h_next_sequence page))
              (clock (count + 1)) (record_gap source page committed (clock count) db))))))))))"
  unfolding ingest_page_settled write_page_def
  by (simp add: rbind_assoc Let_def settled_fold ingest_snapshot_def case_prod_beta cong: if_cong)

lemma ingest_batch_Cons [simp]:
  "ingest_batch X project clock db ((source, descriptor, page) # pages) =
     (case ingest_page X project (clock 0) db source descriptor page of
        Inr (accepted, db) \<Rightarrow>
          map_prod (Cons (Inr accepted)) id (ingest_batch X project (clock \<circ> Suc) db pages)
      | Inl e \<Rightarrow>
          map_prod (Cons (Inl e)) id (ingest_batch X project (clock \<circ> Suc) db pages))"
  by (simp add: ingest_batch.simps ingest_page_def Let_def split: prod.split sum.split)

lemma ingest_batch_induct [case_names 1 2]:
  assumes "\<And>X project clock db. P X project clock db []"
    and "\<And>X project clock db source descriptor page pages.
      (\<And>e. ingest_page X project (clock 0) db source descriptor page = Inl e \<Longrightarrow> P X project (clock \<circ> Suc) db pages) \<Longrightarrow>
      (\<And>r k db'. ingest_page X project (clock 0) db source descriptor page = Inr r \<Longrightarrow> (k, db') = r
        \<Longrightarrow> P X project (clock \<circ> Suc) db' pages) \<Longrightarrow>
      P X project clock db ((source, descriptor, page) # pages)"
  shows "P X project clock db pages"
proof (induction pages arbitrary: clock db)
  case (Cons entry pages)
  obtain source descriptor page where entry: "entry = (source, descriptor, page)" by (cases entry)
  show ?case unfolding entry by (rule assms(2)) (rule Cons.IH)+
qed (rule assms(1))

end
