(* ===== verification/Store_Ledger.thy ===== *)
theory Store_Ledger
  imports Snapshot_Store
begin

text \<open>
  The ledger of a source session: which sequence numbers are stored, which are recorded as lost,
  and the cursor. The invariant \<open>store_inv\<close> says that together they account for every number
  below the cursor exactly once; every ingestion keeps it.
\<close>

definition stored_seqs :: "'ix store \<Rightarrow> string \<Rightarrow> string \<Rightarrow> nat set" where
  "stored_seqs db src ses = row_sequence ` {r \<in> set (st_rows db). row_of src ses r}"

definition lost_seqs :: "'ix store \<Rightarrow> string \<Rightarrow> string \<Rightarrow> nat set" where
  "lost_seqs db src ses =
     \<Union> (set (map (\<lambda>g. {gap_expected g..<gap_oldest g}) (filter (gap_of src ses) (st_gaps db))))"

definition row_key :: "snap_row \<Rightarrow> string \<times> string \<times> nat" where
  "row_key r = (row_source_id r, row_session_id r, row_sequence r)"

definition store_inv :: "'ix store \<Rightarrow> bool" where
  "store_inv db \<longleftrightarrow>
     bm_sorted (st_cursors db) \<and> bm_sorted (st_heads db)
     \<and> 0 \<le> st_last_id db \<and> map row_id (st_rows db) = [1..st_last_id db]
     \<and> distinct (map row_key (st_rows db))
     \<and> (\<forall>g \<in> set (st_gaps db). gap_expected g < gap_oldest g)
     \<and> (\<forall>src ses. stored_seqs db src ses \<union> lost_seqs db src ses = {..<cursor db src ses}
                  \<and> stored_seqs db src ses \<inter> lost_seqs db src ses = {})"

lemma store_inv_empty: "store_inv (empty_store ix)"
  by (auto simp: store_inv_def empty_store_def stored_seqs_def lost_seqs_def cursor_def)

subsection \<open>Rows\<close>

lemma find_append: "List.find P (xs @ ys) = (case List.find P xs of None \<Rightarrow> List.find P ys | Some x \<Rightarrow> Some x)"
  by (induction xs) auto

lemma find_row_None: "find_row db src ses n = None \<longleftrightarrow> n \<notin> stored_seqs db src ses"
  by (auto simp: find_row_def find_None_iff stored_seqs_def)

lemma find_row_Some:
  "find_row db src ses n = Some r \<Longrightarrow> r \<in> set (st_rows db) \<and> row_of src ses r \<and> row_sequence r = n"
  by (auto simp: find_row_def find_Some_iff)

text \<open>The effect of a new row, and of the fold over a page, on the ledger tables.\<close>

definition extends :: "'ix store \<Rightarrow> snap_row list \<Rightarrow> 'ix store \<Rightarrow> bool" where
  "extends db new db' \<longleftrightarrow>
     st_rows db' = st_rows db @ new \<and> st_last_id db' = st_last_id db + int (length new)
     \<and> map row_id new = [st_last_id db + 1..st_last_id db']
     \<and> st_cursors db' = st_cursors db \<and> st_gaps db' = st_gaps db
     \<and> (bm_sorted (st_heads db) \<longrightarrow> bm_sorted (st_heads db')) \<and> (new = [] \<longrightarrow> db' = db)"

definition row_for :: "serde_ext \<Rightarrow> source \<Rightarrow> string \<Rightarrow> state_snapshot \<Rightarrow> snap_row \<Rightarrow> bool" where
  "row_for X source ses s r \<longleftrightarrow>
     row_of (src_id source) ses r \<and> row_run_id r = src_run_id source
     \<and> row_sequence r = s_sequence s \<and> row_observed_at_ns r = s_observed_at_ns s
     \<and> to_vec_snapshot X s = Inr (row_json r)"

lemma extends_refl: "extends db [] db"
  by (simp add: extends_def)

lemma extends_trans:
  assumes "extends db as db1" and "extends db1 bs db2"
  shows "extends db (as @ bs) db2"
proof -
  have "st_last_id db \<le> st_last_id db1" "st_last_id db1 \<le> st_last_id db2"
    using assms by (simp_all add: extends_def)
  then have "[st_last_id db + 1..st_last_id db2]
      = [st_last_id db + 1..st_last_id db1] @ [st_last_id db1 + 1..st_last_id db2]"
    using upto_split2 [of "st_last_id db + 1" "st_last_id db1" "st_last_id db2"]
    by (cases "st_last_id db = st_last_id db1") auto
  with assms show ?thesis by (auto simp: extends_def)
qed

lemma extends_find_row:
  "extends db new db' \<Longrightarrow> find_row db src ses n = Some r \<Longrightarrow> find_row db' src ses n = Some r"
  by (simp add: extends_def find_row_def find_append)

text \<open>One snapshot of a page: it is already stored with the same content, or appended.\<close>

lemma ingest_snapshot_cases:
  assumes "ingest_snapshot X project clock source ses committed (acc, db) (i, s) = Inr (acc', db')"
  obtains (duplicate) r where "db' = db" "acc' = acc"
      "find_row db (src_id source) ses (s_sequence s) = Some r" "row_run_id r = src_run_id source"
      "from_str_snapshot X (row_json r) = Inr s"
  | (appended) r ev where "extends db [r] db'" "acc' = acc + 1"
      "find_row db (src_id source) ses (s_sequence s) = None" "committed \<le> s_sequence s"
      "row_for X source ses s r" "is_tracker_event X (s_state s) = Inr ev"
      "st_heads db' = (if ev then st_heads db
         else bm_insert (src_run_id source, src_id source) (st_last_id db + 1) (st_heads db))"
proof (cases "find_row db (src_id source) ses (s_sequence s)")
  case (Some r)
  with assms duplicate show thesis
    by (auto simp: ingest_snapshot_eq result_iffs split: if_splits)
next
  case None
  let ?row = "\<lambda>enc. \<lparr>row_id = st_last_id db + 1, row_run_id = src_run_id source,
      row_source_id = src_id source, row_session_id = ses, row_sequence = s_sequence s,
      row_observed_at_ns = s_observed_at_ns s, row_ingested_at_ns = clock i, row_json = enc\<rparr>"
  let ?db1 = "\<lambda>enc ix. db\<lparr>st_last_id := st_last_id db + 1, st_rows := st_rows db @ [?row enc],
      st_index := ix\<rparr>"
  from None assms obtain enc ix ev where e: "to_vec_snapshot X s = Inr enc"
      "committed \<le> s_sequence s" "acc' = acc + 1" "is_tracker_event X (s_state s) = Inr ev"
      and db': "db' = (if ev then ?db1 enc ix else (?db1 enc ix)\<lparr>st_heads :=
        bm_insert (src_run_id source, src_id source) (st_last_id db + 1) (st_heads (?db1 enc ix))\<rparr>)"
    unfolding ingest_snapshot_eq insert_row_def Let_def prod.case
    by (simp only: result_iffs option.case not_less prod.case refl ensure_simps rbind_simps
        simp_thms sum.inject prod.inject not_None_eq)
      (elim exE conjE, simp only: prod.case sum.inject prod.inject, blast)
  have "extends db [?row enc] db'"
    by (simp add: db' extends_def bm_sorted_insert)
  then show thesis
    by (rule appended [OF _ e(3) None e(2) _ e(4)]) (simp_all add: row_for_def row_of_def e db')
qed

lemma extends_stored:
  "extends db new db' \<Longrightarrow>
   stored_seqs db' src ses = stored_seqs db src ses \<union> row_sequence ` {r \<in> set new. row_of src ses r}"
  by (auto simp: extends_def stored_seqs_def)

lemma extends_distinct:
  assumes "extends db [r] db'" and "find_row db (row_source_id r) (row_session_id r) (row_sequence r) = None"
    and "distinct (map row_key (st_rows db))"
  shows "distinct (map row_key (st_rows db'))"
  using assms by (auto simp: extends_def row_key_def find_row_None stored_seqs_def row_of_def)

definition confirmed :: "serde_ext \<Rightarrow> source \<Rightarrow> string \<Rightarrow> 'ix store \<Rightarrow> state_snapshot \<Rightarrow> bool" where
  "confirmed X source ses db s \<longleftrightarrow>
     (\<exists>r. find_row db (src_id source) ses (s_sequence s) = Some r \<and> row_run_id r = src_run_id source
        \<and> (from_str_snapshot X (row_json r) = Inr s \<or> to_vec_snapshot X s = Inr (row_json r)))"

lemma confirmed_extends: "confirmed X source ses db s \<Longrightarrow> extends db new db' \<Longrightarrow> confirmed X source ses db' s"
  unfolding confirmed_def using extends_find_row by blast

lemma ingest_fold:
  assumes "try_fold (ingest_snapshot X project clock source ses c) (acc, db) (enumerate k ss) = Inr (acc', db')"
  shows "\<exists>new. extends db new db' \<and> acc' = acc + length new
    \<and> (\<forall>r \<in> set new. c \<le> row_sequence r \<and> (\<exists>s \<in> set ss. row_for X source ses s r))
    \<and> (\<forall>s \<in> set ss. confirmed X source ses db' s)
    \<and> (distinct (map row_key (st_rows db)) \<longrightarrow> distinct (map row_key (st_rows db')))
    \<and> row_sequence ` set new = s_sequence ` set ss - stored_seqs db (src_id source) ses"
  using assms
proof (induction ss arbitrary: acc db k)
  case Nil
  then show ?case using extends_refl by auto
next
  case (Cons s ss)
  then obtain acc1 db1 where s1: "ingest_snapshot X project clock source ses c (acc, db) (k, s) = Inr (acc1, db1)"
    and rest: "try_fold (ingest_snapshot X project clock source ses c) (acc1, db1) (enumerate (Suc k) ss)
        = Inr (acc', db')"
    by (auto simp: rbind_eq_Inr)
  obtain new where new: "extends db1 new db'" "acc' = acc1 + length new"
      "\<forall>r \<in> set new. c \<le> row_sequence r \<and> (\<exists>s \<in> set ss. row_for X source ses s r)"
      "\<forall>s \<in> set ss. confirmed X source ses db' s"
      "distinct (map row_key (st_rows db1)) \<longrightarrow> distinct (map row_key (st_rows db'))"
      "row_sequence ` set new = s_sequence ` set ss - stored_seqs db1 (src_id source) ses"
    using Cons.IH [OF rest] by blast
  from s1 show ?case
  proof (cases rule: ingest_snapshot_cases)
    case (duplicate r)
    then have st: "s_sequence s \<in> stored_seqs db (src_id source) ses"
      using find_row_None [of db "src_id source" ses "s_sequence s"] by simp
    have "confirmed X source ses db s" using duplicate by (auto simp: confirmed_def)
    with new duplicate(1) have "confirmed X source ses db' s" by (blast intro: confirmed_extends)
    with new duplicate(1,2) st show ?thesis by (intro exI [of _ new]) auto
  next
    case (appended r ev)
    have r: "row_of (src_id source) ses r" "row_sequence r = s_sequence s"
        "row_run_id r = src_run_id source" "to_vec_snapshot X s = Inr (row_json r)"
      using appended(5) by (simp_all add: row_for_def)
    have "find_row db1 (src_id source) ses (s_sequence s) = Some r"
      using appended(1,3) r by (simp add: extends_def find_row_def find_append)
    then have "confirmed X source ses db1 s" using r by (auto simp: confirmed_def)
    then have conf: "confirmed X source ses db' s" using new(1) by (rule confirmed_extends)
    have ext: "extends db (r # new) db'" using extends_trans [OF appended(1) new(1)] by simp
    have dist: "distinct (map row_key (st_rows db)) \<longrightarrow> distinct (map row_key (st_rows db1))"
      using extends_distinct [OF appended(1)] appended(3) r by (simp add: row_of_def)
    have "row_sequence ` set (r # new) = s_sequence ` set (s # ss) - stored_seqs db (src_id source) ses"
      using new(6) r appended(3) by (auto simp: extends_stored [OF appended(1)] find_row_None)
    with ext new appended conf dist show ?thesis
      by (intro exI [of _ "r # new"]) (auto simp: r(2))
  qed
qed

subsection \<open>The position of a page\<close>

lemma find_first_upt:
  assumes "map f ss = [a..<b]" and "List.find (\<lambda>s. c \<le> f s) ss = Some s"
  shows "f s = max a c" and "max a c < b"
proof -
  obtain i where i: "i < length ss" "c \<le> f (ss ! i)" "s = ss ! i" "\<forall>j < i. \<not> c \<le> f (ss ! j)"
    using assms(2) by (auto simp: find_Some_iff)
  have len: "length ss = b - a" using arg_cong [OF assms(1), of length] by simp
  have f: "f (ss ! j) = a + j" if "j < length ss" for j
    using that arg_cong [OF assms(1), of "\<lambda>l. l ! j"] len by simp
  have "a + i = max a c"
  proof (cases i)
    case 0
    with i f [of i] show ?thesis by simp
  next
    case (Suc j)
    with i f [of i] f [of j] show ?thesis by (auto simp: max_def)
  qed
  with i f [of i] len show "f s = max a c" "max a c < b" by auto
qed

text \<open>The new sequence numbers of a page that passed the checks are an interval that continues
  the cursor, or the part after the loss that the page reports.\<close>

lemma new_sequences:
  assumes acc: "page_accepted X page" and pos: "check_position c page = Inr ()"
    and some: "\<exists>s \<in> set (h_snapshots page). c \<le> s_sequence s"
  shows "{n \<in> s_sequence ` set (h_snapshots page). c \<le> n}
           = {max c (h_oldest_sequence page)..<h_next_sequence page}"
    and "max c (h_oldest_sequence page) < h_next_sequence page"
proof -
  let ?ss = "h_snapshots page" and ?n = "h_next_sequence page"
  have ne: "?ss \<noteq> []" using some by auto
  let ?a = "?n - length ?ss"
  have upt: "map s_sequence ?ss = [?a..<?n]"
    using acc ne by (simp add: page_accepted_def)
  obtain s where s: "List.find (\<lambda>s. c \<le> s_sequence s) ?ss = Some s"
    using some by (metis (no_types, lifting) find_None_iff not_None_eq)
  have "s_sequence s = max ?a c" "max ?a c < ?n"
    using find_first_upt [OF upt s] by auto
  moreover have "s_sequence s = max c (h_oldest_sequence page)"
    using pos s by (auto simp: check_position_def result_iffs)
  ultimately have e: "max ?a c = max c (h_oldest_sequence page)" "max ?a c < ?n" by simp_all
  have "s_sequence ` set ?ss = {?a..<?n}"
    using arg_cong [OF upt, of set] by simp
  then have "{n \<in> s_sequence ` set ?ss. c \<le> n} = {max ?a c..<?n}" by auto
  with e show "{n \<in> s_sequence ` set ?ss. c \<le> n} = {max c (h_oldest_sequence page)..<?n}"
    "max c (h_oldest_sequence page) < ?n" by simp_all
qed

subsection \<open>A page as a whole\<close>

lemma ingest_page_cases:
  assumes "ingest_page X project clock db source descriptor page = Inr (k, db')"
  obtains new db1 where "extends db new db1" "k = length new"
    "db' = (if k = 0 then db1 else
       put_cursor (src_id source) (h_source_session_id page)
         (max (cursor db (src_id source) (h_source_session_id page)) (h_next_sequence page))
         (clock (length (h_snapshots page) + 1))
         (record_gap source page (cursor db (src_id source) (h_source_session_id page))
           (clock (length (h_snapshots page))) db1))"
    "\<forall>r \<in> set new. cursor db (src_id source) (h_source_session_id page) \<le> row_sequence r
       \<and> (\<exists>s \<in> set (h_snapshots page). row_for X source (h_source_session_id page) s r)"
    "\<forall>s \<in> set (h_snapshots page). confirmed X source (h_source_session_id page) db1 s"
    "distinct (map row_key (st_rows db)) \<longrightarrow> distinct (map row_key (st_rows db1))"
    "row_sequence ` set new = s_sequence ` set (h_snapshots page)
       - stored_seqs db (src_id source) (h_source_session_id page)"
    "page_accepted X page"
    "check_position (cursor db (src_id source) (h_source_session_id page)) page = Inr ()"
proof -
  let ?ses = "h_source_session_id page"
  let ?c = "cursor db (src_id source) ?ses"
  obtain acc db1 where f: "try_fold (ingest_snapshot X project clock source ?ses ?c) (0, db)
        (enumerate 0 (h_snapshots page)) = Inr (acc, db1)"
    and res: "(if acc = 0 then Inr (0, db1) :: engine_error + _
        else Inr (acc, put_cursor (src_id source) ?ses (max ?c (h_next_sequence page))
          (clock (length (h_snapshots page) + 1))
          (record_gap source page ?c (clock (length (h_snapshots page))) db1))) = Inr (k, db')"
    and pre: "page_accepted X page" "check_position ?c page = Inr ()"
    using assms
    by (auto simp: ingest_page_eq result_iffs Let_def validate_history_response_iff)
  obtain new where "extends db new db1" "acc = length new"
      "\<forall>r \<in> set new. ?c \<le> row_sequence r \<and> (\<exists>s \<in> set (h_snapshots page). row_for X source ?ses s r)"
      "\<forall>s \<in> set (h_snapshots page). confirmed X source ?ses db1 s"
      "distinct (map row_key (st_rows db)) \<longrightarrow> distinct (map row_key (st_rows db1))"
      "row_sequence ` set new = s_sequence ` set (h_snapshots page) - stored_seqs db (src_id source) ?ses"
    using ingest_fold [OF f] by auto
  with that [of new db1] res pre show thesis by (auto split: if_splits)
qed

lemma stored_frame [simp]:
  "stored_seqs (put_cursor a b n t db) src ses = stored_seqs db src ses"
  "stored_seqs (record_gap source page c t db) src ses = stored_seqs db src ses"
  "lost_seqs (put_cursor a b n t db) src ses = lost_seqs db src ses"
  by (simp_all add: stored_seqs_def lost_seqs_def put_cursor_def record_gap_def Let_def)

lemma lost_snoc:
  "st_gaps db' = st_gaps db @ [g] \<Longrightarrow>
   lost_seqs db' src ses =
     lost_seqs db src ses \<union> (if gap_of src ses g then {gap_expected g..<gap_oldest g} else {})"
proof -
  have "\<Union> (set (map f (filter P (gs @ [g])))) =
      \<Union> (set (map f (filter P gs))) \<union> (if P g then f g else {})" for P gs and f :: "gap_row \<Rightarrow> nat set"
    by auto
  then show "st_gaps db' = st_gaps db @ [g] \<Longrightarrow> ?thesis" by (simp only: lost_seqs_def)
qed

lemma lost_record_gap:
  "lost_seqs (record_gap source page c t db) src ses =
     lost_seqs db src ses \<union>
       (if src = src_id source \<and> ses = h_source_session_id page then {c..<h_oldest_sequence page} else {})"
proof (cases "c < h_oldest_sequence page")
  case True
  then show ?thesis
    by (subst lost_snoc [where g = "\<lparr>gap_source_id = src_id source,
             gap_session_id = h_source_session_id page, gap_expected = c,
             gap_oldest = h_oldest_sequence page, gap_observed_at_ns = t\<rparr>"])
      (auto simp: record_gap_def gap_of_def)
qed (simp add: record_gap_def)

lemma cursor_put_cursor:
  "bm_sorted (st_cursors db) \<Longrightarrow>
   cursor (put_cursor a b n t db) src ses =
     (if src = a \<and> ses = b then max (cursor db a b) n else cursor db src ses)"
  by (auto simp: cursor_def put_cursor_def Let_def bm_get_insert split: option.split)

lemma cursor_frame [simp]: "cursor (record_gap source page c t db) src ses = cursor db src ses"
  by (simp add: cursor_def record_gap_def)

lemma cursor_extends: "extends db new db' \<Longrightarrow> cursor db' src ses = cursor db src ses"
  by (simp add: cursor_def extends_def)

lemma lost_extends: "extends db new db' \<Longrightarrow> lost_seqs db' src ses = lost_seqs db src ses"
  by (simp add: lost_seqs_def extends_def)

lemma put_record_more [simp]:
  "st_rows (put_cursor a b n t db) = st_rows db"
  "st_heads (put_cursor a b n t db) = st_heads db"
  "st_last_id (put_cursor a b n t db) = st_last_id db"
  "st_gaps (put_cursor a b n t db) = st_gaps db"
  "st_rows (record_gap source page c t db) = st_rows db"
  "st_heads (record_gap source page c t db) = st_heads db"
  "st_last_id (record_gap source page c t db) = st_last_id db"
  "st_cursors (record_gap source page c t db) = st_cursors db"
  by (simp_all add: put_cursor_def record_gap_def Let_def)

lemma store_invD:
  assumes "store_inv db"
  shows "bm_sorted (st_cursors db)" "bm_sorted (st_heads db)" "distinct (map row_key (st_rows db))"
    and "stored_seqs db src ses \<union> lost_seqs db src ses = {..<cursor db src ses}"
    and "stored_seqs db src ses \<inter> lost_seqs db src ses = {}"
  using assms by (simp_all add: store_inv_def)

text \<open>The ledger of a source session after a page: the page's interval and the reported loss.\<close>

lemma new_rows_interval:
  fixes c :: nat
  assumes below: "stored \<subseteq> {..<c}" and new: "new = seqs - stored" and ge: "new \<subseteq> {c..}"
  shows "new = {n \<in> seqs. c \<le> n}"
proof (intro set_eqI iffI)
  fix n
  assume "n \<in> new"
  with new ge show "n \<in> {n \<in> seqs. c \<le> n}" by auto
next
  fix n
  assume "n \<in> {n \<in> seqs. c \<le> n}"
  with new below show "n \<in> new" by fastforce
qed

lemma ingest_page_ledger:
  assumes inv: "store_inv db"
    and ing: "ingest_page X project clock db source descriptor page = Inr (k, db')" and k: "0 < k"
  defines "c \<equiv> cursor db (src_id source) (h_source_session_id page)"
  defines "here src ses \<equiv> src = src_id source \<and> ses = h_source_session_id page"
  shows "stored_seqs db' src ses = stored_seqs db src ses \<union>
      (if here src ses then {max c (h_oldest_sequence page)..<h_next_sequence page} else {})
    \<and> lost_seqs db' src ses = lost_seqs db src ses \<union>
      (if here src ses then {c..<h_oldest_sequence page} else {})
    \<and> cursor db' src ses = (if here src ses then h_next_sequence page else cursor db src ses)
    \<and> max c (h_oldest_sequence page) < h_next_sequence page"
  using ing
proof (cases rule: ingest_page_cases)
  case (1 new db1)
  let ?seqs = "s_sequence ` set (h_snapshots page)"
  let ?st = "stored_seqs db (src_id source) (h_source_session_id page)"
  have below: "?st \<subseteq> {..<c}"
    using store_invD(4) [OF inv, of "src_id source" "h_source_session_id page"] by (auto simp: c_def)
  have "row_sequence ` set new \<subseteq> {c..}" using 1(4) by (auto simp: c_def)
  with 1(7) below have set_new: "row_sequence ` set new = {n \<in> ?seqs. c \<le> n}"
    by (intro new_rows_interval) auto
  have "row_sequence ` set new \<noteq> {}" using k 1(2) by auto
  then have "{n \<in> ?seqs. c \<le> n} \<noteq> {}" by (simp only: set_new not_False_eq_True)
  then have some: "\<exists>s \<in> set (h_snapshots page). c \<le> s_sequence s" by auto
  have pos: "check_position c page = Inr ()" using 1(9) by (simp add: c_def)
  note interval = new_sequences [OF 1(8) pos some]
  have rows: "{r \<in> set new. row_of src ses r} = (if here src ses then set new else {})"
  proof -
    have "row_of src ses r \<longleftrightarrow> here src ses" if "r \<in> set new" for r
    proof -
      have "row_of (src_id source) (h_source_session_id page) r"
        using bspec [OF 1(4) that] unfolding row_for_def by blast
      then show ?thesis by (auto simp: here_def row_of_def)
    qed
    then show ?thesis by auto
  qed
  have db': "db' = put_cursor (src_id source) (h_source_session_id page) (max c (h_next_sequence page))
       (clock (length (h_snapshots page) + 1))
       (record_gap source page c (clock (length (h_snapshots page))) db1)"
    using 1(3) k by (simp add: c_def)
  have sorted: "bm_sorted (st_cursors (record_gap source page c (clock (length (h_snapshots page))) db1))"
    using 1(1) store_invD(1) [OF inv] by (simp add: extends_def)
  have s: "stored_seqs db' src ses = stored_seqs db src ses \<union>
      (if here src ses then {max c (h_oldest_sequence page)..<h_next_sequence page} else {})"
    using set_new interval(1)
    by (simp only: db' stored_frame extends_stored [OF 1(1)] rows) simp
  have l: "lost_seqs db' src ses = lost_seqs db src ses \<union>
      (if here src ses then {c..<h_oldest_sequence page} else {})"
    by (simp only: db' stored_frame lost_record_gap lost_extends [OF 1(1)] here_def)
  have "cursor db' src ses = (if here src ses then h_next_sequence page else cursor db src ses)"
    unfolding db' cursor_put_cursor [OF sorted] cursor_frame cursor_extends [OF 1(1)]
    using interval(2) by (simp add: here_def c_def)
  with s l interval(2) show ?thesis by blast
qed

lemma ledger_step:
  fixes c :: nat
  assumes u: "S \<union> L = {..<c}" and d: "S \<inter> L = {}" and n: "max c e < n"
  shows "(S \<union> {max c e..<n}) \<union> (L \<union> {c..<e}) = {..<n} \<and> (S \<union> {max c e..<n}) \<inter> (L \<union> {c..<e}) = {}"
proof -
  have "(S \<union> {max c e..<n}) \<union> (L \<union> {c..<e}) = {..<c} \<union> {c..<e} \<union> {max c e..<n}"
    using u by blast
  also have "\<dots> = {..<n}" using n by auto
  finally have "(S \<union> {max c e..<n}) \<union> (L \<union> {c..<e}) = {..<n}" .
  moreover have "S \<subseteq> {..<c}" "L \<subseteq> {..<c}" using u by blast+
  then have "S \<inter> {c..<e} = {}" "{max c e..<n} \<inter> L = {}" "{max c e..<n} \<inter> {c..<e} = {}"
    by fastforce+
  with d have "(S \<union> {max c e..<n}) \<inter> (L \<union> {c..<e}) = {}" by blast
  ultimately show ?thesis by blast
qed

lemma gaps_ingested:
  assumes "ingest_page X project clock db source descriptor page = Inr (k, db')"
    and "\<forall>g \<in> set (st_gaps db). gap_expected g < gap_oldest g"
  shows "\<forall>g \<in> set (st_gaps db'). gap_expected g < gap_oldest g"
  using assms(1)
proof (cases rule: ingest_page_cases)
  case (1 new db1)
  with assms(2) show ?thesis by (auto simp: extends_def record_gap_def)
qed

lemma ids_ingested:
  assumes "ingest_page X project clock db source descriptor page = Inr (k, db')"
    and "0 \<le> st_last_id db" and "map row_id (st_rows db) = [1..st_last_id db]"
  shows "0 \<le> st_last_id db' \<and> map row_id (st_rows db') = [1..st_last_id db']"
  using assms(1)
proof (cases rule: ingest_page_cases)
  case (1 new db1)
  have last: "st_last_id db \<le> st_last_id db1" using 1(1) by (simp add: extends_def)
  have "[1..st_last_id db1] = [1..st_last_id db] @ [st_last_id db + 1..st_last_id db1]"
    using last assms(2) upto_split2 [of 1 "st_last_id db" "st_last_id db1"]
    by (cases "st_last_id db = 0") auto
  then have "map row_id (st_rows db1) = [1..st_last_id db1]"
    using 1(1) assms(3) by (simp add: extends_def)
  with 1(3) last assms(2) show ?thesis by simp
qed

lemma store_inv_ingest_page:
  assumes inv: "store_inv db"
    and ing: "ingest_page X project clock db source descriptor page = Inr (k, db')"
  shows "store_inv db'"
proof (cases "k = 0")
  case True
  from ing have "db' = db"
    by (cases rule: ingest_page_cases) (use True in \<open>auto simp: extends_def\<close>)
  with inv show ?thesis by simp
next
  case False
  have tables: "bm_sorted (st_cursors db')" "bm_sorted (st_heads db')"
      "distinct (map row_key (st_rows db'))"
    using ing
    by (cases rule: ingest_page_cases;
        use False store_invD(1,2,3) [OF inv] in \<open>simp add: extends_def put_cursor_def Let_def bm_sorted_insert\<close>)+
  have "stored_seqs db' src ses \<union> lost_seqs db' src ses = {..<cursor db' src ses}
      \<and> stored_seqs db' src ses \<inter> lost_seqs db' src ses = {}" for src ses
    using ingest_page_ledger [OF inv ing, of src ses] False store_invD(4,5) [OF inv, of src ses]
      ledger_step [of "stored_seqs db src ses" "lost_seqs db src ses" "cursor db src ses"
        "h_oldest_sequence page" "h_next_sequence page"]
    by (cases "src = src_id source \<and> ses = h_source_session_id page") simp_all
  with tables gaps_ingested [OF ing] ids_ingested [OF ing] inv show ?thesis
    by (simp add: store_inv_def)
qed

subsection \<open>Batches\<close>

lemma store_inv_ingest_batch:
  "store_inv db \<Longrightarrow> store_inv (snd (ingest_batch X project clock db pages))"
proof (induction X project clock db pages rule: ingest_batch_induct)
  case (2 X project clock db source descriptor page pages)
  show ?case
  proof (cases "ingest_page X project (clock 0) db source descriptor page")
    case (Inl e)
    with 2 show ?thesis by (simp add: comp_def)
  next
    case (Inr r)
    then obtain k db' where r: "ingest_page X project (clock 0) db source descriptor page = Inr (k, db')"
      by (cases r) auto
    with 2(2) [OF r refl] store_inv_ingest_page [OF 2(3) r] show ?thesis by (simp add: comp_def)
  qed
qed simp

subsection \<open>Replays\<close>

text \<open>
  What the store relies on of the serializer: an accepted snapshot is read back as it was written.
  A snapshot in memory has sorted maps, which \<open>snapshot_wf\<close> says of the model's lists.
\<close>

definition json_object_sorted :: "json \<Rightarrow> bool" where
  "json_object_sorted v = (case v of JObject kvs \<Rightarrow> bm_sorted kvs | _ \<Rightarrow> True)"

definition snapshot_wf :: "state_snapshot \<Rightarrow> bool" where
  "snapshot_wf s \<longleftrightarrow> bm_sorted (s_axes s) \<and> list_all json_object_sorted (json_subvalues (s_state s))"

definition roundtrip_codec :: "serde_ext \<Rightarrow> bool" where
  "roundtrip_codec X \<longleftrightarrow>
     (\<forall>s vec. snapshot_wf s \<longrightarrow> snapshot_accepted X s \<longrightarrow> to_vec_snapshot X s = Inr vec \<longrightarrow>
        from_str_snapshot X vec = Inr s)"

lemma replay_fold:
  assumes "\<forall>s \<in> set ss. \<exists>r. find_row db (src_id source) ses (s_sequence s) = Some r
      \<and> row_run_id r = src_run_id source \<and> from_str_snapshot X (row_json r) = Inr s"
    and "\<forall>s \<in> set ss. is_ok (to_vec_snapshot X s)"
  shows "try_fold (ingest_snapshot X project clock source ses c) (acc, db) (enumerate k ss) = Inr (acc, db)"
  using assms
proof (induction ss arbitrary: k)
  case (Cons s ss)
  then obtain r vec where "find_row db (src_id source) ses (s_sequence s) = Some r"
      "row_run_id r = src_run_id source" "from_str_snapshot X (row_json r) = Inr s"
      "to_vec_snapshot X s = Inr vec"
    by (auto simp: is_ok_iff)
  then have "ingest_snapshot X project clock source ses c (acc, db) (k, s) = Inr (acc, db)"
    by (simp add: ingest_snapshot_eq)
  with Cons show ?case by simp
qed simp

lemma find_row_frame [simp]:
  "find_row (put_cursor a b n t db) src ses m = find_row db src ses m"
  "find_row (record_gap source page c t db) src ses m = find_row db src ses m"
  by (simp_all add: find_row_def)

text \<open>A page that was accepted is confirmed afterwards, snapshot by snapshot.\<close>

lemma ingest_page_confirmed:
  assumes "roundtrip_codec X" and "\<forall>s \<in> set (h_snapshots page). snapshot_wf s"
    and "ingest_page X project clock db source descriptor page = Inr (k, db')"
    and "s \<in> set (h_snapshots page)"
  shows "\<exists>r. find_row db' (src_id source) (h_source_session_id page) (s_sequence s) = Some r
      \<and> row_run_id r = src_run_id source \<and> from_str_snapshot X (row_json r) = Inr s"
  using assms(3)
proof (cases rule: ingest_page_cases)
  case (1 new db1)
  obtain r where r: "find_row db1 (src_id source) (h_source_session_id page) (s_sequence s) = Some r"
      "row_run_id r = src_run_id source"
      "from_str_snapshot X (row_json r) = Inr s \<or> to_vec_snapshot X s = Inr (row_json r)"
    using bspec [OF 1(5) assms(4)] by (auto simp: confirmed_def)
  have "snapshot_accepted X s" using 1(8) assms(4) by (simp add: page_accepted_def)
  with r assms(1,2,4) have "from_str_snapshot X (row_json r) = Inr s"
    unfolding roundtrip_codec_def by blast
  moreover have "find_row db' src ses n = find_row db1 src ses n" for src ses n
    by (simp add: 1(3))
  ultimately show ?thesis using r by auto
qed

lemma page_sequence_less:
  assumes "page_accepted X page" and "s \<in> set (h_snapshots page)"
  shows "s_sequence s < h_next_sequence page"
proof -
  have "s_sequence s \<in> set (map s_sequence (h_snapshots page))" using assms(2) by simp
  moreover have "map s_sequence (h_snapshots page)
      = [h_next_sequence page - length (h_snapshots page)..<h_next_sequence page]"
    using assms by (auto simp: page_accepted_def)
  ultimately show ?thesis by simp
qed

lemma replay_position:
  assumes inv: "store_inv db"
    and ing: "ingest_page X project clock db source descriptor page = Inr (k, db')"
  shows "check_position (cursor db' (src_id source) (h_source_session_id page)) page = Inr ()"
proof (cases "k = 0")
  case True
  from ing show ?thesis
    by (cases rule: ingest_page_cases) (use True in \<open>auto simp: extends_def\<close>)
next
  case False
  have cur: "cursor db' (src_id source) (h_source_session_id page) = h_next_sequence page"
    using ingest_page_ledger [OF inv ing] False by simp
  have "page_accepted X page" using ing by (cases rule: ingest_page_cases)
  then have "\<forall>s \<in> set (h_snapshots page). \<not> h_next_sequence page \<le> s_sequence s"
    using page_sequence_less by (auto simp: not_le)
  then have "List.find (\<lambda>s. h_next_sequence page \<le> s_sequence s) (h_snapshots page) = None"
    by (simp add: find_None_iff)
  then show ?thesis by (simp add: check_position_def cur)
qed

end
