(* ===== verification/Store_Reads.thy ===== *)
theory Store_Reads
  imports Store_Ledger
begin

text \<open>
  Reading the store (\<open>rust/rvx-engine/src/snapshot_store.rs\<close>): single snapshots, history pages
  in descending storage order, the latest observation of each source, structural differences of two
  states, and the down-sampling of a series.
\<close>

record store_ext =
  to_vec_stored :: "stored_snapshot \<Rightarrow> string + string"
  to_vec_change :: "string \<Rightarrow> json option \<Rightarrow> json option \<Rightarrow> string + string"

record history_request =
  hq_run_id :: string
  hq_source_ids :: "string list"
  hq_before_id :: "int option"
  hq_from :: "int option"
  hq_to :: "int option"
  hq_limit :: nat

record history_page =
  hp_snapshots :: "stored_snapshot list"
  hp_next_before_id :: "int option"

record latest_request =
  lq_run_id :: string
  lq_source_ids :: "string list"
  lq_limit :: nat
  lq_after_source_id :: "string option"

record latest_response =
  lr_snapshots :: "stored_snapshot list"
  lr_next_source_id :: "string option"

subsection \<open>Rows and pages\<close>

definition from_row :: "serde_ext \<Rightarrow> snap_row \<Rightarrow> engine_error + stored_snapshot" where
  "from_row X r =
     rbind (map_err Json (from_str_snapshot X (row_json r))) (\<lambda>s.
     Inr \<lparr>ss_id = row_id r, ss_run_id = row_run_id r, ss_source_id = row_source_id r,
          ss_ingested_at_ns = row_ingested_at_ns r, ss_snapshot = s\<rparr>)"

definition store_count :: "'ix store \<Rightarrow> nat" where
  "store_count db = length (st_rows db)"

definition gap_count :: "'ix store \<Rightarrow> nat" where
  "gap_count db = length (st_gaps db)"

definition store_get :: "serde_ext \<Rightarrow> 'ix store \<Rightarrow> int \<Rightarrow> engine_error + stored_snapshot" where
  "store_get X db key =
     rbind (ensure (\<not> key \<le> 0) (EngineInvalid ''snapshot ID must be positive'')) (\<lambda>_.
     rbind (ok_or (EngineInvalid (''unknown snapshot ID '' @ show_int key))
              (List.find (\<lambda>r. row_id r = key) (st_rows db))) (\<lambda>r.
     from_row X r))"

definition validate_page :: "string \<Rightarrow> string list \<Rightarrow> nat \<Rightarrow> engine_error + unit" where
  "validate_page run_id sources limit =
     rbind (check_ids [run_id] 1) (\<lambda>_.
     rbind (check_ids sources MAX_SNAPSHOT_SOURCE_IDS) (\<lambda>_.
     ensure (\<not> (limit = 0 \<or> MAX_SNAPSHOT_HISTORY_LIMIT < limit))
       (EngineInvalid ''page limit must be 1..256'')))"

definition validate_range :: "int option \<Rightarrow> int option \<Rightarrow> engine_error + unit" where
  "validate_range from' to' =
     ensure (\<not> (case (from', to') of (Some a, Some b) \<Rightarrow> b < a | _ \<Rightarrow> False))
       (EngineInvalid ''from must not exceed to'')"

text \<open>\<open>SnapshotStore::page\<close>: at most \<open>limit\<close> of the rows, within the response budget; the flag
  says whether rows are left.\<close>

fun page_rows ::
  "serde_ext \<Rightarrow> store_ext \<Rightarrow> nat \<Rightarrow> nat \<Rightarrow> stored_snapshot list \<Rightarrow> snap_row list
   \<Rightarrow> engine_error + (stored_snapshot list \<times> bool)" where
  "page_rows X Y limit bytes snapshots [] = Inr (snapshots, False)"
| "page_rows X Y limit bytes snapshots (row # rows) =
     (if length snapshots = limit then Inr (snapshots, True)
      else rbind (from_row X row) (\<lambda>snapshot.
           rbind (map_err Json (to_vec_stored Y snapshot)) (\<lambda>vec.
           let bytes = bytes + (length vec + 1) in
           if MAX_SNAPSHOT_PAGE_BYTES < bytes
           then (if snapshots = [] then Inl (EngineInvalid ''stored snapshot exceeds response budget'')
                 else Inr (snapshots, True))
           else page_rows X Y limit bytes (snapshots @ [snapshot]) rows)))"

text \<open>The clauses of \<open>Filter\<close>: an empty list of identifiers does not restrict.\<close>

definition id_filter :: "string list \<Rightarrow> string \<Rightarrow> bool" where
  "id_filter ids x \<longleftrightarrow> ids = [] \<or> x \<in> set ids"

definition history_filter :: "history_request \<Rightarrow> snap_row \<Rightarrow> bool" where
  "history_filter request r \<longleftrightarrow>
     id_filter [hq_run_id request] (row_run_id r)
     \<and> id_filter (hq_source_ids request) (row_source_id r)
     \<and> (case hq_before_id request of None \<Rightarrow> True | Some key \<Rightarrow> row_id r < key)
     \<and> (case hq_from request of None \<Rightarrow> True | Some t \<Rightarrow> t \<le> row_observed_at_ns r)
     \<and> (case hq_to request of None \<Rightarrow> True | Some t \<Rightarrow> row_observed_at_ns r \<le> t)"

text \<open>\<open>ORDER BY id DESC\<close>: rows are kept in insertion order, which is the order of their keys.\<close>

definition history_rows :: "'ix store \<Rightarrow> history_request \<Rightarrow> snap_row list" where
  "history_rows db request = rev (filter (history_filter request) (st_rows db))"

definition store_history ::
  "serde_ext \<Rightarrow> store_ext \<Rightarrow> 'ix store \<Rightarrow> history_request \<Rightarrow> engine_error + history_page" where
  "store_history X Y db request =
     rbind (validate_page (hq_run_id request) (hq_source_ids request) (hq_limit request)) (\<lambda>_.
     rbind (validate_range (hq_from request) (hq_to request)) (\<lambda>_.
     rbind (ensure (\<not> (case hq_before_id request of None \<Rightarrow> False | Some key \<Rightarrow> key \<le> 0))
              (EngineInvalid ''before_id must be positive'')) (\<lambda>_.
     rbind (page_rows X Y (hq_limit request) PAGE_ENVELOPE_RESERVE []
              (take (hq_limit request + 1) (history_rows db request))) (\<lambda>(snapshots, more).
     Inr \<lparr>hp_snapshots = snapshots,
          hp_next_before_id = (if more then Some (ss_id (last snapshots)) else None)\<rparr>))))"

definition latest_heads :: "'ix store \<Rightarrow> latest_request \<Rightarrow> ((string \<times> string) \<times> int) list" where
  "latest_heads db request =
     filter (\<lambda>((run, src), _). id_filter [lq_run_id request] run
               \<and> id_filter (lq_source_ids request) src
               \<and> (case lq_after_source_id request of None \<Rightarrow> True | Some a \<Rightarrow> a < src))
       (st_heads db)"

definition store_latest ::
  "serde_ext \<Rightarrow> store_ext \<Rightarrow> 'ix store \<Rightarrow> latest_request \<Rightarrow> engine_error + latest_response" where
  "store_latest X Y db request =
     rbind (validate_page (lq_run_id request) (lq_source_ids request) (lq_limit request)) (\<lambda>_.
     rbind (case lq_after_source_id request of None \<Rightarrow> Inr () | Some key \<Rightarrow> check_ids [key] 1) (\<lambda>_.
     let ids = map snd (take (lq_limit request + 1) (latest_heads db request));
         rows = sort_key row_source_id (filter (\<lambda>r. row_id r \<in> set ids) (st_rows db)) in
     rbind (page_rows X Y (lq_limit request) PAGE_ENVELOPE_RESERVE [] rows) (\<lambda>(snapshots, more).
     Inr \<lparr>lr_snapshots = snapshots,
          lr_next_source_id = (if more then Some (ss_source_id (last snapshots)) else None)\<rparr>)))"

subsection \<open>Structural difference\<close>

datatype change_kind = Added | Removed | Changed

record snapshot_change =
  ch_path :: string
  ch_kind :: change_kind
  ch_before :: "json option"
  ch_after :: "json option"

record diff_state =
  df_changes :: "snapshot_change list"
  df_truncated :: bool
  df_bytes :: nat

definition escape_key :: "string \<Rightarrow> string" where
  "escape_key key = str_replace CHR ''/'' ''~1'' (str_replace CHR ''~'' ''~0'' key)"

definition list_get :: "'a list \<Rightarrow> nat \<Rightarrow> 'a option" where
  "list_get xs i = (if i < length xs then Some (xs ! i) else None)"

definition opt_size :: "json option \<Rightarrow> nat" where
  "opt_size v = (case v of None \<Rightarrow> 0 | Some v \<Rightarrow> size v)"

definition report_change ::
  "store_ext \<Rightarrow> string \<Rightarrow> json option \<Rightarrow> json option \<Rightarrow> diff_state \<Rightarrow> engine_error + diff_state" where
  "report_change Y path before after st =
     rbind (map_err Json (to_vec_change Y path before after)) (\<lambda>vec.
     let size' = length vec + 1 in
     if MAX_SNAPSHOT_DIFF_CHANGES \<le> length (df_changes st)
        \<or> MAX_SNAPSHOT_PAGE_BYTES < df_bytes st + size'
     then Inr (st\<lparr>df_truncated := True\<rparr>)
     else Inr (st\<lparr>df_bytes := df_bytes st + size',
                df_changes := df_changes st @ [\<lparr>ch_path = path,
                  ch_kind = (if before = None then Added else if after = None then Removed else Changed),
                  ch_before = before, ch_after = after\<rparr>]\<rparr>))"

lemma opt_size_children:
  "opt_size (map_of a k) < size (JObject a)" "opt_size (list_get vs i) < size (JArray vs)"
proof -
  show "opt_size (map_of a k) < size (JObject a)"
  proof (cases "map_of a k")
    case (Some v)
    then have "v \<in> set (json_children (JObject a))" by (force dest: map_of_SomeD)
    then show ?thesis using json_children_size Some by (fastforce simp: opt_size_def)
  qed (simp add: opt_size_def)
  show "opt_size (list_get vs i) < size (JArray vs)"
    using json_children_size [of "vs ! i" "JArray vs"] by (simp add: opt_size_def list_get_def)
qed

function diff_values ::
  "store_ext \<Rightarrow> string \<Rightarrow> json option \<Rightarrow> json option \<Rightarrow> diff_state \<Rightarrow> engine_error + diff_state" where
  "diff_values Y path before after st =
     (if before = after \<or> df_truncated st then Inr st
      else (case (before, after) of
          (Some (JObject a), Some (JObject b)) \<Rightarrow>
            try_fold (\<lambda>st key.
                if df_truncated st then Inr st
                else diff_values Y (path @ ''/'' @ escape_key key) (map_of a key) (map_of b key) st)
              st (bset_of_list (map fst a @ map fst b))
        | (Some (JArray a), Some (JArray b)) \<Rightarrow>
            try_fold (\<lambda>st index.
                if df_truncated st then Inr st
                else diff_values Y (path @ ''/'' @ show_nat index) (list_get a index) (list_get b index) st)
              st [0..<max (length a) (length b)]
        | _ \<Rightarrow> report_change Y path before after st))"
  by pat_completeness auto
termination
proof (relation "measure (\<lambda>(Y, path, before, after, st). opt_size before + opt_size after)", goal_cases)
  case (2 Y path before after st x y x2 a x2a b s key)
  then show ?case
    using add_strict_mono [OF opt_size_children(2) [of a key] opt_size_children(2) [of b key]]
    by (auto simp: opt_size_def)
next
  case (3 Y path before after st x y x2 a x2a b s key)
  then show ?case
    using add_strict_mono [OF opt_size_children(1) [of a key] opt_size_children(1) [of b key]]
    by (auto simp: opt_size_def)
qed simp

declare diff_values.simps [simp del]

definition store_diff ::
  "serde_ext \<Rightarrow> store_ext \<Rightarrow> 'ix store \<Rightarrow> int \<Rightarrow> int \<Rightarrow> engine_error + diff_state" where
  "store_diff X Y db before_id after_id =
     rbind (ensure (\<not> (before_id \<le> 0 \<or> after_id \<le> 0))
              (EngineInvalid ''snapshot IDs must be positive'')) (\<lambda>_.
     let load = (\<lambda>id. rbind (ok_or (EngineInvalid (''unknown snapshot ID '' @ show_int id))
                      (List.find (\<lambda>r. row_id r = id) (st_rows db)))
                    (\<lambda>r. map_err Json (from_str_snapshot X (row_json r)))) in
     rbind (load before_id) (\<lambda>before.
     rbind (load after_id) (\<lambda>after.
     diff_values Y [] (Some (s_state before)) (Some (s_state after))
       \<lparr>df_changes = [], df_truncated = False, df_bytes = PAGE_ENVELOPE_RESERVE\<rparr>)))"

subsection \<open>Sampling\<close>

definition base_position :: "nat \<Rightarrow> nat \<Rightarrow> nat \<Rightarrow> nat" where
  "base_position len count index =
     (if count = 1 then len - 1 else index * (len - 1) div (count - 1))"

text \<open>One iteration of the loop over \<open>right\<close>: move the left neighbour to the last missing
  observation between two present ones.\<close>

definition keep_gap :: "(nat \<Rightarrow> bool) \<Rightarrow> nat list \<Rightarrow> nat \<Rightarrow> nat list" where
  "keep_gap missing positions right =
     (let left_index = positions ! (right - 1); right_index = positions ! right in
      if \<not> missing left_index \<and> \<not> missing right_index
      then (case List.find missing (rev [left_index + 1..<right_index]) of
              None \<Rightarrow> positions
            | Some gap \<Rightarrow> positions[right - 1 := gap])
      else positions)"

definition sample_positions :: "nat \<Rightarrow> nat \<Rightarrow> (nat \<Rightarrow> bool) \<Rightarrow> nat list" where
  "sample_positions len count missing =
     foldl (keep_gap missing) (map (base_position len count) [0..<count]) (rev [1..<count])"

text \<open>\<open>Projected::excludes\<close>: the path lies in a subtree that the index skipped.\<close>

definition excludes :: "string list \<Rightarrow> string \<Rightarrow> bool" where
  "excludes exclusions path =
     list_ex (\<lambda>prefix. path = prefix
        \<or> (case strip_prefix prefix path of None \<Rightarrow> False | Some suffix \<Rightarrow> starts_with ''/'' suffix))
       exclusions"

section \<open>Sampling keeps gaps visible\<close>

definition steps_up :: "nat list \<Rightarrow> bool" where
  "steps_up ps \<longleftrightarrow> (\<forall>k. Suc k < length ps \<longrightarrow> ps ! k < ps ! Suc k)"

definition gap_shown :: "(nat \<Rightarrow> bool) \<Rightarrow> nat \<Rightarrow> nat \<Rightarrow> bool" where
  "gap_shown missing l r \<longleftrightarrow> missing l \<or> missing r \<or> (\<forall>i. l < i \<longrightarrow> i < r \<longrightarrow> \<not> missing i)"

definition sampled_from :: "(nat \<Rightarrow> bool) \<Rightarrow> nat \<Rightarrow> nat list \<Rightarrow> nat \<Rightarrow> bool" where
  "sampled_from missing n ps l \<longleftrightarrow>
     steps_up ps \<and> ps \<noteq> [] \<and> last ps = l
     \<and> (\<forall>k. n \<le> Suc k \<longrightarrow> Suc k < length ps \<longrightarrow> gap_shown missing (ps ! k) (ps ! Suc k))"

lemma base_position_mono:
  assumes "Suc k < count" and "count \<le> len"
  shows "base_position len count k < base_position len count (Suc k)"
proof -
  let ?c = "count - 1" and ?l = "len - 1"
  have "?c \<noteq> 0" using assms by simp
  then have "k * ?l div ?c + 1 = (k * ?l + ?c) div ?c" by (rule div_add_self2 [symmetric])
  also have "\<dots> \<le> (k * ?l + ?l) div ?c" using assms by (intro div_le_mono) simp
  also have "\<dots> = Suc k * ?l div ?c" by (simp add: add.commute)
  finally show ?thesis using assms by (simp add: base_position_def)
qed

lemma base_sampled:
  assumes "0 < count" and "count \<le> len"
  shows "sampled_from missing count (map (base_position len count) [0..<count]) (len - 1)"
proof -
  have "last (map (base_position len count) [0..<count]) = base_position len count (count - 1)"
    using assms by (simp add: last_map)
  then show ?thesis
    using assms base_position_mono [of _ count len]
    by (auto simp: sampled_from_def steps_up_def base_position_def)
qed

lemma find_rev_upt_Some:
  "List.find P (rev [a..<b]) = Some g \<Longrightarrow> P g \<and> a \<le> g \<and> g < b"
  by (auto simp: find_Some_iff rev_nth)

lemma find_rev_upt_None: "List.find P (rev [a..<b]) = None \<Longrightarrow> a \<le> i \<Longrightarrow> i < b \<Longrightarrow> \<not> P i"
  by (auto simp: find_None_iff)

lemma length_keep_gap [simp]: "length (keep_gap missing ps n) = length ps"
  by (simp add: keep_gap_def Let_def split: option.split)

text \<open>One iteration changes at most the position before \<open>n\<close>, to a missing one.\<close>

lemma keep_gap_cases:
  assumes "sampled_from missing (Suc n) ps l" and n: "0 < n" "n < length ps"
  obtains "keep_gap missing ps n = ps" "gap_shown missing (ps ! (n - 1)) (ps ! n)"
  | g where "keep_gap missing ps n = ps[n - 1 := g]" "missing g" "ps ! (n - 1) < g" "g < ps ! n"
proof (cases "missing (ps ! (n - 1)) \<or> missing (ps ! n)")
  case True
  then have "keep_gap missing ps n = ps" "gap_shown missing (ps ! (n - 1)) (ps ! n)"
    by (auto simp: keep_gap_def gap_shown_def Let_def)
  then show thesis by (rule that(1))
next
  case False
  show thesis
  proof (cases "List.find missing (rev [ps ! (n - 1) + 1..<ps ! n])")
    case None
    with False find_rev_upt_None [OF None]
    have "keep_gap missing ps n = ps" "gap_shown missing (ps ! (n - 1)) (ps ! n)"
      by (auto simp: keep_gap_def gap_shown_def Let_def)
    then show thesis by (rule that(1))
  next
    case (Some g)
    have g: "missing g" "ps ! (n - 1) + 1 \<le> g" "g < ps ! n"
      using find_rev_upt_Some [OF Some] by simp_all
    have "keep_gap missing ps n = ps[n - 1 := g]"
      unfolding keep_gap_def Let_def using False Some by simp
    with g that(2) [of g] show thesis by simp
  qed
qed

lemma keep_gap_step:
  assumes s: "sampled_from missing (Suc n) ps l" and n: "0 < n" "n < length ps"
  shows "sampled_from missing n (keep_gap missing ps n) l"
  using assms
proof (cases rule: keep_gap_cases)
  case 1
  have "gap_shown missing (ps ! k) (ps ! Suc k)" if "n \<le> Suc k" "Suc k < length ps" for k
    using s 1(2) that by (cases "Suc k = n") (auto simp: sampled_from_def)
  with s 1(1) show ?thesis by (simp add: sampled_from_def)
next
  case (2 g)
  let ?q = "ps[n - 1 := g]"
  have up: "ps ! k < ps ! Suc k" if "Suc k < length ps" for k
    using s that by (simp add: sampled_from_def steps_up_def)
  have "?q ! k < ?q ! Suc k" if k: "Suc k < length ps" for k
    using up [OF k] 2(3,4) n by (auto simp: nth_list_update)
  moreover have "gap_shown missing (?q ! k) (?q ! Suc k)" if "n \<le> Suc k" "Suc k < length ps" for k
    using s that 2(2) n by (cases "Suc k = n") (auto simp: sampled_from_def gap_shown_def)
  moreover have "last ?q = l"
    using s n by (cases ps rule: rev_cases) (auto simp: sampled_from_def list_update_append)
  ultimately show ?thesis using s n by (auto simp: sampled_from_def steps_up_def 2(1))
qed

lemma keep_gap_loop:
  "sampled_from missing n ps l \<Longrightarrow> 0 < n \<Longrightarrow> n \<le> length ps \<Longrightarrow>
   sampled_from missing 1 (foldl (keep_gap missing) ps (rev [1..<n])) l
   \<and> length (foldl (keep_gap missing) ps (rev [1..<n])) = length ps"
proof (induction n arbitrary: ps)
  case (Suc n)
  show ?case
  proof (cases "n = 0")
    case True
    with Suc.prems show ?thesis by simp
  next
    case False
    with Suc.IH [of "keep_gap missing ps n"] keep_gap_step [OF Suc.prems(1)] Suc.prems
    show ?thesis by simp
  qed
qed simp

lemma sample_positions_sampled:
  assumes "0 < count" and "count \<le> len"
  shows "sampled_from missing 1 (sample_positions len count missing) (len - 1)"
    and "length (sample_positions len count missing) = count"
  using keep_gap_loop [OF base_sampled [OF assms]] assms by (simp_all add: sample_positions_def)

section \<open>Pages\<close>

text \<open>A page is a prefix of the selected rows; the flag is set exactly when rows are left.\<close>

lemma page_rows_result:
  assumes "page_rows X Y limit bytes acc rows = Inr (ss, left)" and "length acc \<le> limit"
  shows "\<exists>k ys. k \<le> length rows \<and> ss = acc @ ys
     \<and> list_all2 (\<lambda>r s. from_row X r = Inr s) (take k rows) ys
     \<and> length ss \<le> limit \<and> (left \<longleftrightarrow> k < length rows) \<and> (left \<longrightarrow> limit = 0 \<or> ss \<noteq> [])"
  using assms
proof (induction rows arbitrary: bytes acc)
  case Nil
  then show ?case by auto
next
  case (Cons r rows)
  show ?case
  proof (cases "length acc = limit")
    case True
    with Cons.prems show ?thesis by (intro exI [of _ 0]) auto
  next
    case False
    then obtain s vec where s: "from_row X r = Inr s" "to_vec_stored Y s = Inr vec"
      using Cons.prems(1) by (auto simp: result_iffs)
    show ?thesis
    proof (cases "MAX_SNAPSHOT_PAGE_BYTES < bytes + (length vec + 1)")
      case True
      with Cons.prems False s show ?thesis
        by (intro exI [of _ 0]) (auto simp: Let_def split: if_splits)
    next
      case fit: False
      have "page_rows X Y limit (bytes + (length vec + 1)) (acc @ [s]) rows = Inr (ss, left)"
        using Cons.prems(1) False s fit by (simp add: Let_def)
      moreover have "length (acc @ [s]) \<le> limit" using False Cons.prems(2) by simp
      ultimately obtain k ys where
        k: "k \<le> length rows" "ss = (acc @ [s]) @ ys" "length ss \<le> limit"
          "list_all2 (\<lambda>r s. from_row X r = Inr s) (take k rows) ys"
          "left \<longleftrightarrow> k < length rows"
        using Cons.IH by blast
      with s(1) show ?thesis by (intro exI [of _ "Suc k"] exI [of _ "s # ys"]) auto
    qed
  qed
qed

lemma from_row_ids: "from_row X r = Inr s \<Longrightarrow> ss_id s = row_id r \<and> ss_source_id s = row_source_id r
    \<and> ss_run_id s = row_run_id r \<and> from_str_snapshot X (row_json r) = Inr (ss_snapshot s)"
  by (auto simp: from_row_def result_iffs)

lemma list_all2_ids:
  "list_all2 (\<lambda>r s. from_row X r = Inr s) rows ys \<Longrightarrow> map ss_id ys = map row_id rows"
  by (induction rule: list_all2_induct) (simp_all add: from_row_ids)

lemma list_all2_sources:
  "list_all2 (\<lambda>r s. from_row X r = Inr s) rows ys \<Longrightarrow> map ss_source_id ys = map row_source_id rows"
  by (induction rule: list_all2_induct) (simp_all add: from_row_ids)

lemma page_members:
  assumes "list_all2 (\<lambda>r s. from_row X r = Inr s) (take k rows) ys" and "s \<in> set ys"
  shows "\<exists>r \<in> set rows. from_row X r = Inr s \<and> row_source_id r = ss_source_id s"
proof -
  obtain i where "i < length ys" "s = ys ! i" using assms(2) by (auto simp: in_set_conv_nth)
  moreover have len: "length (take k rows) = length ys" using assms(1) by (rule list_all2_lengthD)
  ultimately have "from_row X (take k rows ! i) = Inr s" "i < length (take k rows)"
    using list_all2_nthD [OF assms(1), of i] by (simp_all only: len)
  then show ?thesis using from_row_ids in_set_takeD nth_mem by metis
qed

lemma last_map_take:
  assumes "0 < k" and "k \<le> length xs"
  shows "last (map f (take k xs)) = f (xs ! (k - 1))"
proof -
  have ne: "take k xs \<noteq> []" and len: "length (take k xs) = k" using assms by auto
  have "last (map f (take k xs)) = f (take k xs ! (k - 1))"
    unfolding last_map [OF ne] last_conv_nth [OF ne] len ..
  then show ?thesis using assms by simp
qed

lemma mem_take_sorted:
  fixes xs :: "'a::linorder list"
  assumes "sorted_wrt (<) xs" and "x \<in> set xs"
    and "length xs \<le> k \<or> (0 < k \<and> k \<le> length xs \<and> x \<le> xs ! (k - 1))"
  shows "x \<in> set (take k xs)"
proof -
  obtain j where j: "j < length xs" "x = xs ! j" using assms(2) by (auto simp: in_set_conv_nth)
  have "j < k"
  proof (rule ccontr)
    assume "\<not> j < k"
    with j assms(3) have "0 < k" "k - 1 < j" "x \<le> xs ! (k - 1)" by auto
    with sorted_wrt_nth_less [OF assms(1), of "k - 1" j] j show False by simp
  qed
  with j show ?thesis by (auto simp: in_set_conv_nth intro!: exI [of _ j])
qed

lemma filter_less_strict_desc:
  fixes f :: "'a \<Rightarrow> int"
  assumes "sorted_wrt (\<lambda>a b. f b < f a) xs" and "k < length xs"
  shows "filter (\<lambda>x. f x < f (xs ! k)) xs = drop (Suc k) xs"
  using assms
proof (induction xs arbitrary: k)
  case (Cons x xs)
  show ?case
  proof (cases k)
    case 0
    with Cons.prems show ?thesis by (simp add: filter_id_conv)
  next
    case (Suc j)
    with Cons.prems have "f (xs ! j) < f x" "j < length xs" by auto
    then have "\<not> f x < f (xs ! j)" "j < length xs" by simp_all
    with Cons Suc show ?thesis by simp
  qed
qed simp

lemma upto_strict: "sorted_wrt (<) [i..j]"
  by (simp add: strict_sorted_iff)

lemma history_rows_desc:
  assumes "store_inv db"
  shows "sorted_wrt (\<lambda>a b. row_id b < row_id a) (history_rows db req)"
proof -
  have "sorted_wrt (<) (map row_id (st_rows db))"
    using assms upto_strict by (simp add: store_inv_def)
  then have "sorted_wrt (\<lambda>a b. row_id a < row_id b) (filter (history_filter req) (st_rows db))"
    by (simp add: sorted_wrt_map sorted_wrt_filter)
  then show ?thesis by (simp add: history_rows_def sorted_wrt_rev)
qed

text \<open>Continuing before the last identifier of a page selects exactly the remaining rows.\<close>

lemma history_continue:
  assumes inv: "store_inv db" and k: "k < length (history_rows db req)"
  shows "history_rows db (req\<lparr>hq_before_id := Some (row_id (history_rows db req ! k))\<rparr>)
           = drop (Suc k) (history_rows db req)"
proof -
  define m where "m = history_rows db req"
  define i where "i = row_id (m ! k)"
  have "m ! k \<in> set m" using k by (simp add: m_def)
  then have "history_filter req (m ! k)" by (simp add: m_def history_rows_def)
  then have f: "history_filter (req\<lparr>hq_before_id := Some i\<rparr>) =
      (\<lambda>r. history_filter req r \<and> row_id r < i)"
    by (auto simp: history_filter_def fun_eq_iff i_def split: option.splits)
  have "history_rows db (req\<lparr>hq_before_id := Some i\<rparr>) = filter (\<lambda>r. row_id r < i) m"
    by (simp add: history_rows_def f m_def rev_filter)
  also have "\<dots> = drop (Suc k) m"
    unfolding i_def m_def by (rule filter_less_strict_desc [OF history_rows_desc [OF inv] k])
  finally show ?thesis by (simp add: m_def i_def)
qed

section \<open>What a difference reports\<close>

datatype token = Key string | Index nat

fun render :: "token list \<Rightarrow> string" where
  "render [] = []"
| "render (Key k # ts) = ''/'' @ escape_key k @ render ts"
| "render (Index i # ts) = ''/'' @ show_nat i @ render ts"

fun resolve :: "json option \<Rightarrow> token list \<Rightarrow> json option" where
  "resolve v [] = v"
| "resolve (Some (JObject kvs)) (Key k # ts) = resolve (map_of kvs k) ts"
| "resolve (Some (JArray vs)) (Index i # ts) = resolve (list_get vs i) ts"
| "resolve _ (_ # _) = None"

text \<open>The path names the two values, and they differ.\<close>

definition change_at ::
  "string \<Rightarrow> json option \<Rightarrow> json option \<Rightarrow> token list \<Rightarrow> snapshot_change \<Rightarrow> bool" where
  "change_at path before after ts c \<longleftrightarrow>
     ch_path c = path @ render ts \<and> ch_before c = resolve before ts \<and> ch_after c = resolve after ts
     \<and> ch_before c \<noteq> ch_after c
     \<and> ch_kind c = (if ch_before c = None then Added else if ch_after c = None then Removed else Changed)"

text \<open>
  A set of changes covers two values when wherever they differ a change is reported: at the place
  itself, above it, or, when both hold objects or both arrays there, below it.
\<close>

definition on_path :: "token list \<Rightarrow> token list \<Rightarrow> bool" where
  "on_path us ts \<longleftrightarrow> (\<exists>r. ts = us @ r \<or> us = ts @ r)"

lemma on_path_simps [simp]: "on_path [] ts" "on_path us []" "on_path (x # us) (x # ts) \<longleftrightarrow> on_path us ts"
  by (auto simp: on_path_def)

definition covers :: "string \<Rightarrow> json option \<Rightarrow> json option \<Rightarrow> snapshot_change set \<Rightarrow> bool" where
  "covers path before after S \<longleftrightarrow>
     (\<forall>ts. resolve before ts \<noteq> resolve after ts \<longrightarrow>
        (\<exists>c \<in> S. \<exists>us. change_at path before after us c \<and> on_path us ts))"

lemma covers_mono: "covers path before after S \<Longrightarrow> S \<subseteq> T \<Longrightarrow> covers path before after T"
  unfolding covers_def by blast

lemma covers_same: "before = after \<Longrightarrow> covers path before after S"
  by (simp add: covers_def)

text \<open>A step of the traversal appends changes that satisfy \<open>Q\<close>; unless it gives up, \<open>E\<close> holds of
  what it appends.\<close>

definition reports ::
  "diff_state \<Rightarrow> diff_state \<Rightarrow> (snapshot_change \<Rightarrow> bool) \<Rightarrow> (snapshot_change set \<Rightarrow> bool) \<Rightarrow> bool" where
  "reports st st' Q E \<longleftrightarrow>
     (\<exists>new. df_changes st' = df_changes st @ new \<and> (\<forall>c \<in> set new. Q c)
        \<and> (df_truncated st \<longrightarrow> df_truncated st') \<and> (\<not> df_truncated st' \<longrightarrow> E (set new)))"

lemma reports_fold:
  assumes "\<And>st st' k. k \<in> set ks \<Longrightarrow> f st k = Inr st' \<Longrightarrow> reports st st' (Q k) (E k)"
    and mono: "\<And>k S T. E k S \<Longrightarrow> S \<subseteq> T \<Longrightarrow> E k T"
    and "try_fold f st ks = Inr st'"
  shows "reports st st' (\<lambda>c. \<exists>k \<in> set ks. Q k c) (\<lambda>S. \<forall>k \<in> set ks. E k S)"
  using assms(1,3)
proof (induction ks arbitrary: st)
  case Nil
  then show ?case by (simp add: reports_def)
next
  case (Cons k ks)
  then obtain st1 where st1: "f st k = Inr st1" "try_fold f st1 ks = Inr st'"
    by (auto simp: rbind_eq_Inr)
  obtain n1 where n1: "df_changes st1 = df_changes st @ n1" "\<forall>c \<in> set n1. Q k c"
      "df_truncated st \<longrightarrow> df_truncated st1" "\<not> df_truncated st1 \<longrightarrow> E k (set n1)"
    using Cons.prems(1) [OF _ st1(1)] by (auto simp: reports_def)
  have "reports st1 st' (\<lambda>c. \<exists>k \<in> set ks. Q k c) (\<lambda>S. \<forall>k \<in> set ks. E k S)"
    by (rule Cons.IH [OF _ st1(2)]) (simp add: Cons.prems(1))
  then obtain n2 where n2: "df_changes st' = df_changes st1 @ n2" "\<forall>c \<in> set n2. \<exists>k \<in> set ks. Q k c"
      "df_truncated st1 \<longrightarrow> df_truncated st'" "\<not> df_truncated st' \<longrightarrow> (\<forall>k \<in> set ks. E k (set n2))"
    by (auto simp: reports_def)
  have "\<not> df_truncated st' \<longrightarrow> (\<forall>j \<in> set (k # ks). E j (set (n1 @ n2)))"
    using n1(4) n2(3,4) mono [of _ "set n1" "set (n1 @ n2)"] mono [of _ "set n2" "set (n1 @ n2)"] by auto
  then show ?case
    unfolding reports_def using n1 n2 by (intro exI [of _ "n1 @ n2"]) auto
qed

lemma reports_mono:
  "reports st st' Q E \<Longrightarrow> (\<And>c. Q c \<Longrightarrow> Q' c) \<Longrightarrow> (\<And>S. E S \<Longrightarrow> E' S) \<Longrightarrow> reports st st' Q' E'"
  unfolding reports_def by blast

definition opt_wf :: "json option \<Rightarrow> bool" where
  "opt_wf v = (case v of None \<Rightarrow> True | Some v \<Rightarrow> list_all json_object_sorted (json_subvalues v))"

lemma opt_wf_children:
  "opt_wf (Some (JObject kvs)) \<Longrightarrow> bm_sorted kvs \<and> opt_wf (map_of kvs k)"
  "opt_wf (Some (JArray vs)) \<Longrightarrow> opt_wf (list_get vs i)"
proof -
  have sub: "list_all P (json_subvalues w)" if "list_all P (json_subvalues v)" "w \<in> set (json_children v)"
    for P v w
    using that by (auto simp: list_all_iff json_subvalues.simps [of v])
  assume o: "opt_wf (Some (JObject kvs))"
  then have all: "list_all json_object_sorted (json_subvalues (JObject kvs))" by (simp add: opt_wf_def)
  then have "bm_sorted kvs" by (simp add: json_subvalues.simps [of "JObject kvs"] json_object_sorted_def)
  moreover have "opt_wf (map_of kvs k)"
  proof (cases "map_of kvs k")
    case (Some w)
    then have "w \<in> set (json_children (JObject kvs))" by (force dest: map_of_SomeD)
    with sub [OF all] Some show ?thesis by (simp add: opt_wf_def)
  qed (simp add: opt_wf_def)
  ultimately show "bm_sorted kvs \<and> opt_wf (map_of kvs k)" by blast
next
  have sub: "list_all P (json_subvalues w)" if "list_all P (json_subvalues v)" "w \<in> set (json_children v)"
    for P v w
    using that by (auto simp: list_all_iff json_subvalues.simps [of v])
  assume "opt_wf (Some (JArray vs))"
  then show "opt_wf (list_get vs i)"
    using sub [of json_object_sorted "JArray vs" "vs ! i"] by (simp add: opt_wf_def list_get_def)
qed

lemma sorted_maps_equal:
  assumes "bm_sorted a" "bm_sorted b" "\<forall>k \<in> set (bset_of_list (map fst a @ map fst b)). map_of a k = map_of b k"
  shows "a = b"
proof (rule bm.entries_unique [OF assms(1,2)])
  fix k
  show "bm_get a k = bm_get b k"
    using assms(3) by (cases "k \<in> fst ` set a \<union> fst ` set b")
      (auto simp: bm_get_def map_of_eq_None_iff [THEN iffD2])
qed

lemma arrays_equal:
  assumes "\<forall>i \<in> set [0..<max (length a) (length b)]. list_get a i = list_get b i"
  shows "a = b"
proof -
  have get: "list_get a i = list_get b i" if "i < length a \<or> i < length b" for i
    using assms that by auto
  have len: "length a = length b"
  proof (rule linorder_cases)
    assume "length a < length b"
    then show ?thesis using get [of "length a"] by (simp add: list_get_def)
  next
    assume "length b < length a"
    then show ?thesis using get [of "length b"] by (simp add: list_get_def)
  qed
  moreover have "a ! i = b ! i" if "i < length a" for i
    using get [of i] that len by (simp add: list_get_def)
  ultimately show ?thesis by (rule nth_equalityI)
qed

lemma diff_values_cases:
  obtains (same) "before = after \<or> df_truncated st" "diff_values Y path before after st = Inr st"
  | (objects) a b where "before = Some (JObject a)" "after = Some (JObject b)"
      "diff_values Y path before after st =
         try_fold (\<lambda>st key. if df_truncated st then Inr st
             else diff_values Y (path @ ''/'' @ escape_key key) (map_of a key) (map_of b key) st)
           st (bset_of_list (map fst a @ map fst b))"
  | (arrays) a b where "before = Some (JArray a)" "after = Some (JArray b)"
      "diff_values Y path before after st =
         try_fold (\<lambda>st index. if df_truncated st then Inr st
             else diff_values Y (path @ ''/'' @ show_nat index) (list_get a index) (list_get b index) st)
           st [0..<max (length a) (length b)]"
  | (leaf) "before \<noteq> after" "\<not> df_truncated st"
      "diff_values Y path before after st = report_change Y path before after st"
proof (cases "before = after \<or> df_truncated st")
  case True
  with same show thesis by (simp add: diff_values.simps)
next
  case False
  consider a b where "before = Some (JObject a)" "after = Some (JObject b)"
    | a b where "before = Some (JArray a)" "after = Some (JArray b)"
    | "\<forall>a b. \<not> (before = Some (JObject a) \<and> after = Some (JObject b))"
      "\<forall>a b. \<not> (before = Some (JArray a) \<and> after = Some (JArray b))"
    by blast
  then show thesis
  proof cases
    case (1 a b)
    with False show thesis
      by (intro objects [OF 1]) (simp add: diff_values.simps [of Y path "Some (JObject a)"])
  next
    case (2 a b)
    with False show thesis
      by (intro arrays [OF 2]) (simp add: diff_values.simps [of Y path "Some (JArray a)"])
  next
    case 3
    then have "(case (before, after) of
          (Some (JObject a), Some (JObject b)) \<Rightarrow> f a b
        | (Some (JArray a), Some (JArray b)) \<Rightarrow> g a b
        | _ \<Rightarrow> h) = h" for f g and h :: "engine_error + diff_state"
      by (auto split: option.split json.split)
    with False show thesis
      by (intro leaf) (simp_all add: diff_values.simps [of Y path before after st])
  qed
qed

text \<open>Reports about a child are reports about its parent.\<close>

lemma child_change:
  "change_at (path @ ''/'' @ escape_key k) (map_of a k) (map_of b k) ts c \<Longrightarrow>
   change_at path (Some (JObject a)) (Some (JObject b)) (Key k # ts) c"
  "change_at (path @ ''/'' @ show_nat i) (list_get vs i) (list_get ws i) ts c \<Longrightarrow>
   change_at path (Some (JArray vs)) (Some (JArray ws)) (Index i # ts) c"
  by (auto simp: change_at_def)

lemma leaf_reports:
  assumes "report_change Y path before after st = Inr st'" and "before \<noteq> after"
  shows "reports st st' (\<lambda>c. \<exists>ts. change_at path before after ts c) (covers path before after)"
proof -
  obtain new where "df_changes st' = df_changes st @ new" "\<forall>c \<in> set new. change_at path before after [] c"
      "df_truncated st \<longrightarrow> df_truncated st'" "df_truncated st' \<or> new \<noteq> []"
    using assms by (fastforce simp: report_change_def result_iffs Let_def change_at_def split: if_splits)
  moreover from this(2,4) have "\<not> df_truncated st' \<longrightarrow> covers path before after (set new)"
    unfolding covers_def by (cases new) (auto intro!: exI [of _ "[]"])
  ultimately show ?thesis unfolding reports_def by blast
qed

text \<open>Children that are covered cover their parent.\<close>

lemma objects_covered:
  assumes sorted: "bm_sorted a" "bm_sorted b"
    and child: "\<forall>k \<in> set (bset_of_list (map fst a @ map fst b)).
      covers (path @ ''/'' @ escape_key k) (map_of a k) (map_of b k) S"
  shows "covers path (Some (JObject a)) (Some (JObject b)) S"
  unfolding covers_def
proof (intro allI impI)
  fix ts
  assume ts: "resolve (Some (JObject a)) ts \<noteq> resolve (Some (JObject b)) ts"
  let ?ks = "set (bset_of_list (map fst a @ map fst b))"
  have "\<exists>k \<in> ?ks. \<exists>r. resolve (map_of a k) r \<noteq> resolve (map_of b k) r \<and> (ts = [] \<and> r = [] \<or> ts = Key k # r)"
  proof (cases ts)
    case Nil
    then have "a \<noteq> b" using ts by auto
    then obtain k where "k \<in> ?ks" "map_of a k \<noteq> map_of b k" using sorted_maps_equal [OF sorted] by blast
    then show ?thesis using Nil by (intro bexI [of _ k] exI [of _ "[]"]) simp_all
  next
    case (Cons x r)
    then obtain k where k: "x = Key k" using ts by (cases x) simp_all
    have "k \<in> ?ks"
    proof (rule ccontr)
      assume "k \<notin> ?ks"
      then have "map_of a k = None" "map_of b k = None" by (auto simp: map_of_eq_None_iff)
      then show False using ts Cons k by simp
    qed
    then show ?thesis using ts Cons k by (intro bexI [of _ k] exI [of _ r]) simp_all
  qed
  then obtain k r where k: "k \<in> ?ks" "resolve (map_of a k) r \<noteq> resolve (map_of b k) r"
      "ts = [] \<and> r = [] \<or> ts = Key k # r" by blast
  then obtain c us where "c \<in> S" "change_at (path @ ''/'' @ escape_key k) (map_of a k) (map_of b k) us c"
      "on_path us r"
    using child unfolding covers_def by blast
  then show "\<exists>c\<in>S. \<exists>us. change_at path (Some (JObject a)) (Some (JObject b)) us c \<and> on_path us ts"
    using k(3) child_change(1) by (intro bexI [of _ c] exI [of _ "Key k # us"]) auto
qed

lemma arrays_covered:
  assumes child: "\<forall>i \<in> set [0..<max (length a) (length b)].
      covers (path @ ''/'' @ show_nat i) (list_get a i) (list_get b i) S"
  shows "covers path (Some (JArray a)) (Some (JArray b)) S"
  unfolding covers_def
proof (intro allI impI)
  fix ts
  assume ts: "resolve (Some (JArray a)) ts \<noteq> resolve (Some (JArray b)) ts"
  let ?is = "set [0..<max (length a) (length b)]"
  have "\<exists>i \<in> ?is. \<exists>r. resolve (list_get a i) r \<noteq> resolve (list_get b i) r \<and> (ts = [] \<and> r = [] \<or> ts = Index i # r)"
  proof (cases ts)
    case Nil
    then have "a \<noteq> b" using ts by auto
    then obtain i where "i \<in> ?is" "list_get a i \<noteq> list_get b i" using arrays_equal [of a b] by blast
    then show ?thesis using Nil by (intro bexI [of _ i] exI [of _ "[]"]) simp_all
  next
    case (Cons x r)
    then obtain i where i: "x = Index i" using ts by (cases x) simp_all
    have "i \<in> ?is"
    proof (rule ccontr)
      assume "i \<notin> ?is"
      then have "list_get a i = None" "list_get b i = None" by (auto simp: list_get_def)
      then show False using ts Cons i by simp
    qed
    then show ?thesis using ts Cons i by (intro bexI [of _ i] exI [of _ r]) simp_all
  qed
  then obtain i r where i: "i \<in> ?is" "resolve (list_get a i) r \<noteq> resolve (list_get b i) r"
      "ts = [] \<and> r = [] \<or> ts = Index i # r" by blast
  then obtain c us where "c \<in> S" "change_at (path @ ''/'' @ show_nat i) (list_get a i) (list_get b i) us c"
      "on_path us r"
    using child unfolding covers_def by blast
  then show "\<exists>c\<in>S. \<exists>us. change_at path (Some (JArray a)) (Some (JArray b)) us c \<and> on_path us ts"
    using i(3) child_change(2) by (intro bexI [of _ c] exI [of _ "Index i # us"]) auto
qed

lemma diff_reports:
  "opt_wf before \<Longrightarrow> opt_wf after \<Longrightarrow> diff_values Y path before after st = Inr st' \<Longrightarrow>
   reports st st' (\<lambda>c. \<exists>ts. change_at path before after ts c) (covers path before after)"
proof (induction "opt_size before + opt_size after" arbitrary: path before after st st' rule: less_induct)
  case less
  have child: "reports s s' (\<lambda>c. \<exists>ts. change_at p x y ts c) (covers p x y)"
    if "(if df_truncated s then Inr s else diff_values Y p x y s) = Inr s'" "opt_wf x" "opt_wf y"
      "opt_size x + opt_size y < opt_size before + opt_size after" for s s' p x y
    using that less.hyps [of x y p s s'] by (cases "df_truncated s") (auto simp: reports_def)
  show ?case
  proof (cases rule: diff_values_cases [of before after st Y path])
    case same
    with less.prems(3) show ?thesis by (auto simp: reports_def covers_same)
  next
    case (objects a b)
    have "reports st st' (\<lambda>c. \<exists>k \<in> set (bset_of_list (map fst a @ map fst b)).
        \<exists>ts. change_at (path @ ''/'' @ escape_key k) (map_of a k) (map_of b k) ts c)
        (\<lambda>S. \<forall>k \<in> set (bset_of_list (map fst a @ map fst b)).
           covers (path @ ''/'' @ escape_key k) (map_of a k) (map_of b k) S)"
    proof (rule reports_fold [OF _ covers_mono])
      show "try_fold (\<lambda>st key. if df_truncated st then Inr st
             else diff_values Y (path @ ''/'' @ escape_key key) (map_of a key) (map_of b key) st)
           st (bset_of_list (map fst a @ map fst b)) = Inr st'"
        using less.prems(3) objects(3) by simp
    qed (erule child; use less.prems objects opt_wf_children(1)
        add_strict_mono [OF opt_size_children(1) opt_size_children(1)] in \<open>simp add: opt_size_def\<close>)
    then show ?thesis
      unfolding objects(1,2)
      by (rule reports_mono)
        (use child_change(1) objects_covered less.prems(1,2) objects opt_wf_children(1) in blast)+
  next
    case (arrays a b)
    have "reports st st' (\<lambda>c. \<exists>i \<in> set [0..<max (length a) (length b)].
        \<exists>ts. change_at (path @ ''/'' @ show_nat i) (list_get a i) (list_get b i) ts c)
        (\<lambda>S. \<forall>i \<in> set [0..<max (length a) (length b)].
           covers (path @ ''/'' @ show_nat i) (list_get a i) (list_get b i) S)"
    proof (rule reports_fold [OF _ covers_mono])
      show "try_fold (\<lambda>st index. if df_truncated st then Inr st
             else diff_values Y (path @ ''/'' @ show_nat index) (list_get a index) (list_get b index) st)
           st [0..<max (length a) (length b)] = Inr st'"
        using less.prems(3) arrays(3) by simp
    qed (erule child; use less.prems arrays opt_wf_children(2)
        add_strict_mono [OF opt_size_children(2) opt_size_children(2)] in \<open>simp add: opt_size_def\<close>)
    then show ?thesis
      unfolding arrays(1,2)
      by (rule reports_mono) (use child_change(2) arrays_covered in blast)+
  next
    case leaf
    then have "report_change Y path before after st = Inr st'" using less.prems(3) by simp
    then show ?thesis using leaf(1) by (rule leaf_reports)
  qed
qed

subsection \<open>Reported paths are valid pointers\<close>

lemma escape_key_simps [simp]:
  "escape_key [] = []"
  "escape_key (c # s) =
     (if c = CHR ''~'' then ''~0'' else if c = CHR ''/'' then ''~1'' else [c]) @ escape_key s"
  by (simp_all add: escape_key_def)

lemma pointer_escapes_key: "pointer_escapes_ok (escape_key k @ r) \<longleftrightarrow> pointer_escapes_ok r"
  by (induction k) auto

lemma digit_char_not_tilde: "d < 10 \<Longrightarrow> digit_char d \<noteq> CHR ''~''"
proof
  assume "d < 10" and "digit_char d = CHR ''~''"
  then have "of_char (digit_char d) = (126::nat)" by simp
  with of_char_digit_char [OF \<open>d < 10\<close>] \<open>d < 10\<close> show False by simp
qed

lemma pointer_escapes_nat: "pointer_escapes_ok (show_nat n @ r) \<longleftrightarrow> pointer_escapes_ok r"
proof (induction n arbitrary: r rule: show_nat.induct)
  case (1 n)
  then show ?case
    by (cases "n < 10") (simp_all add: show_nat.simps [of n] digit_char_not_tilde)
qed

lemma pointer_escapes_render: "pointer_escapes_ok (render ts)"
  by (induction ts rule: render.induct) (simp_all add: pointer_escapes_key pointer_escapes_nat)

section \<open>The latest observation of each source\<close>

definition row_is_event :: "serde_ext \<Rightarrow> snap_row \<Rightarrow> bool" where
  "row_is_event X r \<longleftrightarrow>
     (\<exists>s. from_str_snapshot X (row_json r) = Inr s \<and> is_tracker_event X (s_state s) = Inr True)"

definition observations :: "serde_ext \<Rightarrow> 'ix store \<Rightarrow> string \<Rightarrow> string \<Rightarrow> snap_row list" where
  "observations X db run src =
     filter (\<lambda>r. row_run_id r = run \<and> row_source_id r = src \<and> \<not> row_is_event X r) (st_rows db)"

definition heads_inv :: "serde_ext \<Rightarrow> 'ix store \<Rightarrow> bool" where
  "heads_inv X db \<longleftrightarrow> bm_sorted (st_heads db) \<and>
     (\<forall>run src. bm_get (st_heads db) (run, src) =
        (if observations X db run src = [] then None
         else Some (row_id (last (observations X db run src)))))"

lemma heads_inv_ingest_snapshot:
  assumes inv: "heads_inv X db"
    and ing: "ingest_snapshot X project clock source ses c (acc, db) (i, s) = Inr (acc', db')"
    and rt: "\<And>vec. to_vec_snapshot X s = Inr vec \<Longrightarrow> from_str_snapshot X vec = Inr s"
  shows "heads_inv X db'"
  using ing
proof (cases rule: ingest_snapshot_cases)
  case (duplicate r)
  with inv show ?thesis by simp
next
  case (appended r ev)
  note ev = appended(6,7)
  have r: "row_run_id r = src_run_id source" "row_source_id r = src_id source"
      "from_str_snapshot X (row_json r) = Inr s" "row_id r = st_last_id db + 1"
    using appended(1,5) rt by (auto simp: row_for_def row_of_def extends_def upto.simps)
  then have re: "row_is_event X r \<longleftrightarrow> ev" using ev(1) by (simp add: row_is_event_def)
  have obs: "observations X db' run src = observations X db run src @
      (if run = src_run_id source \<and> src = src_id source \<and> \<not> ev then [r] else [])" for run src
    using appended(1) r re by (auto simp: observations_def extends_def)
  have s: "bm_sorted (st_heads db)" using inv by (simp add: heads_inv_def)
  show ?thesis
    unfolding heads_inv_def obs
    using inv s r(4) by (auto simp: heads_inv_def ev(2) bm_get_insert bm_sorted_insert)
qed

lemma heads_inv_ingest_page:
  assumes inv: "heads_inv X db" and rt: "roundtrip_codec X"
    and wf: "\<forall>s \<in> set (h_snapshots page). snapshot_wf s"
    and ing: "ingest_page X project clock db source descriptor page = Inr (k, db')"
  shows "heads_inv X db'"
proof -
  let ?ses = "h_source_session_id page"
  let ?c = "cursor db (src_id source) ?ses"
  have acc: "page_accepted X page" using ing by (cases rule: ingest_page_cases)
  obtain n db1 where f: "try_fold (ingest_snapshot X project clock source ?ses ?c) (0, db)
        (enumerate 0 (h_snapshots page)) = Inr (n, db1)"
    and db': "st_heads db' = st_heads db1" "st_rows db' = st_rows db1"
    using ing by (auto simp: ingest_page_eq result_iffs Let_def split: if_splits)
  have "heads_inv X (snd (n, db1))"
  proof (rule try_fold_invariant [where P = "\<lambda>a. heads_inv X (snd a)", OF _ _ f])
    fix a x a'
    assume a: "heads_inv X (snd a)" and x: "x \<in> set (enumerate 0 (h_snapshots page))"
      and s: "ingest_snapshot X project clock source ?ses ?c a x = Inr a'"
    have "snd x \<in> set (h_snapshots page)"
      using x by (metis in_set_enumerate_eq nth_mem add.right_neutral diff_zero)
    with rt wf acc have "\<And>vec. to_vec_snapshot X (snd x) = Inr vec \<Longrightarrow> from_str_snapshot X vec = Inr (snd x)"
      by (auto simp: roundtrip_codec_def page_accepted_def)
    with a s show "heads_inv X (snd a')"
      using heads_inv_ingest_snapshot [of X "snd a" project clock source ?ses ?c "fst a" "fst x" "snd x" "fst a'" "snd a'"]
      by simp
  qed (simp add: inv)
  then show ?thesis by (simp add: heads_inv_def observations_def db')
qed

definition head_rows :: "'ix store \<Rightarrow> ((string \<times> string) \<times> int) list \<Rightarrow> snap_row list" where
  "head_rows db heads =
     sort_key row_source_id (filter (\<lambda>r. row_id r \<in> set (map snd heads)) (st_rows db))"

lemma row_id_inj:
  assumes "store_inv db" "r \<in> set (st_rows db)" "q \<in> set (st_rows db)" "row_id r = row_id q"
  shows "r = q"
proof -
  have "distinct (map row_id (st_rows db))" using assms(1) by (simp add: store_inv_def)
  with assms(2-4) show ?thesis by (simp add: distinct_map inj_on_def)
qed

lemma head_is_last:
  assumes inv: "store_inv db" "heads_inv X db" and h: "((run, src), n) \<in> set (st_heads db)"
  shows "observations X db run src \<noteq> []" and "n = row_id (last (observations X db run src))"
proof -
  have "bm_get (st_heads db) (run, src) = Some n"
    using bm.get_iff_entry [of "st_heads db" "(run, src)" n] inv(2) h
    unfolding heads_inv_def by blast
  with inv(2) show "observations X db run src \<noteq> []" "n = row_id (last (observations X db run src))"
    by (auto simp: heads_inv_def split: if_splits)
qed

lemma last_observation_row:
  assumes "observations X db run src \<noteq> []"
  shows "last (observations X db run src) \<in> set (st_rows db)"
    and "row_source_id (last (observations X db run src)) = src"
  using last_in_set [OF assms] by (simp_all add: observations_def)

text \<open>The rows of some heads of one run, in the order of their sources.\<close>

lemma head_rows_sources:
  assumes inv: "store_inv db" "heads_inv X db"
    and hs: "set hs \<subseteq> set (st_heads db)" "\<forall>h \<in> set hs. fst (fst h) = run"
    and srt: "sorted_wrt (<) (map (snd \<circ> fst) hs)"
  shows "map row_source_id (head_rows db hs) = map (snd \<circ> fst) hs"
    and "\<forall>r \<in> set (head_rows db hs). observations X db run (row_source_id r) \<noteq> []
           \<and> r = last (observations X db run (row_source_id r))"
proof -
  have last: "observations X db run (snd (fst h)) \<noteq> []"
      "snd h = row_id (last (observations X db run (snd (fst h))))" if "h \<in> set hs" for h
  proof -
    have "((run, snd (fst h)), snd h) = h" using hs(2) that by (auto simp: prod_eq_iff)
    then have "((run, snd (fst h)), snd h) \<in> set (st_heads db)" using hs(1) that by auto
    then show "observations X db run (snd (fst h)) \<noteq> []"
        "snd h = row_id (last (observations X db run (snd (fst h))))"
      by (rule head_is_last [OF inv])+
  qed
  have fwd: "r = last (observations X db run (row_source_id r)) \<and> row_source_id r \<in> (snd \<circ> fst) ` set hs
      \<and> observations X db run (row_source_id r) \<noteq> []"
    if r: "r \<in> set (head_rows db hs)" for r
  proof -
    obtain h where h: "h \<in> set hs" "row_id r = snd h" and rr: "r \<in> set (st_rows db)"
      using r by (auto simp: head_rows_def)
    have "r = last (observations X db run (snd (fst h)))"
      using row_id_inj [OF inv(1) rr last_observation_row(1) [OF last(1) [OF h(1)]]] h last(2) by simp
    with last_observation_row(2) [OF last(1) [OF h(1)]] h(1) last(1) show ?thesis by auto
  qed
  show "\<forall>r \<in> set (head_rows db hs). observations X db run (row_source_id r) \<noteq> []
      \<and> r = last (observations X db run (row_source_id r))"
    using fwd by blast
  have "snd (fst h) \<in> row_source_id ` set (head_rows db hs)" if h: "h \<in> set hs" for h
  proof (rule image_eqI [of _ _ "last (observations X db run (snd (fst h)))"])
    have "row_id (last (observations X db run (snd (fst h)))) \<in> snd ` set hs"
      using h last(2) [OF h] by (metis image_eqI)
    then show "last (observations X db run (snd (fst h))) \<in> set (head_rows db hs)"
      using last_observation_row(1) [OF last(1) [OF h]] by (simp add: head_rows_def)
    show "snd (fst h) = row_source_id (last (observations X db run (snd (fst h))))"
      using last_observation_row(2) [OF last(1) [OF h]] by simp
  qed
  with fwd have sets: "set (map row_source_id (head_rows db hs)) = set (map (snd \<circ> fst) hs)" by force
  have "distinct (st_rows db)"
    using inv(1) by (auto simp: store_inv_def dest: distinct_map [THEN iffD1])
  then have "distinct (head_rows db hs)" by (simp add: head_rows_def)
  moreover have "inj_on row_source_id (set (head_rows db hs))"
    by (rule inj_onI) (metis fwd)
  ultimately have "distinct (map row_source_id (head_rows db hs))" by (simp add: distinct_map)
  then have "sorted_wrt (<) (map row_source_id (head_rows db hs))"
    by (simp add: strict_sorted_iff head_rows_def)
  then show "map row_source_id (head_rows db hs) = map (snd \<circ> fst) hs"
    using strict_sorted_equal [OF srt] sets by simp
qed

lemma pair_less_same_fst:
  fixes p q :: "'a::linorder \<times> 'b::linorder"
  shows "fst p = fst q \<Longrightarrow> p < q \<Longrightarrow> snd p < snd q"
  by (cases p; cases q) auto

lemma latest_heads_sorted:
  assumes "heads_inv X db"
  shows "sorted_wrt (<) (map (snd \<circ> fst) (latest_heads db req))"
    and "set (latest_heads db req) \<subseteq> set (st_heads db)"
    and "\<forall>h \<in> set (latest_heads db req). fst (fst h) = lq_run_id req"
proof -
  have srt: "sorted_wrt (\<lambda>a b. fst a < fst b) (latest_heads db req)"
    using assms by (simp add: heads_inv_def bm_sorted_def sorted_wrt_map latest_heads_def sorted_wrt_filter)
  show run: "\<forall>h \<in> set (latest_heads db req). fst (fst h) = lq_run_id req"
    by (auto simp: latest_heads_def id_filter_def)
  have "sorted_wrt (\<lambda>a b. snd (fst a) < snd (fst b)) (latest_heads db req)"
  proof (rule sorted_wrt_mono_rel [OF _ srt])
    fix a b
    assume "a \<in> set (latest_heads db req)" "b \<in> set (latest_heads db req)" "fst a < fst b"
    then show "snd (fst a) < snd (fst b)"
      using bspec [OF run, of a] bspec [OF run, of b] by (intro pair_less_same_fst) simp
  qed
  then show "sorted_wrt (<) (map (snd \<circ> fst) (latest_heads db req))" by (simp add: sorted_wrt_map)
qed (auto simp: latest_heads_def)

end
