(* ===== verification/Producer_Props.thy ===== *)
theory Producer_Props
  imports Wire_Codec
begin

text \<open>
  The properties of the snapshot protocol's validators and of the producer, each with an
  application to a concrete producer and the reference serializer.
\<close>

subsection \<open>A concrete producer\<close>

definition demo_descriptor :: snapshot_descriptor where
  "demo_descriptor =
     \<lparr>d_protocol_version = 1, d_source_session_id = ''s'', d_project = ''p'', d_experiment = ''e'',
      d_run_id = ''r'', d_attempt_id = ''a'', d_role = ''w'', d_rank = None, d_node_id = None,
      d_pid = None, d_labels = [], d_schema_version = 1\<rparr>"

definition demo_limits :: buffer_limits where
  "demo_limits = \<lparr>max_snapshots = 1, max_bytes = 2000\<rparr>"

definition demo_event :: "string \<Rightarrow> snapshot_event" where
  "demo_event t = \<lparr>e_state = JObject [(''loss'', JNumber t)], e_observed_at_ns = None, e_axes = []\<rparr>"

definition demo_producer :: producer where
  "demo_producer =
     \<lparr>pr_descriptor = demo_descriptor, pr_limits = demo_limits, pr_state = initial_state\<rparr>"

lemma blank_letter: "\<not> ws1 (byte c) \<Longrightarrow> \<not> blank [c]"
  by (simp add: blank_def str_trim_def trim_start.simps trim_rev.simps)

lemma demo_new: "new demo_descriptor demo_limits = Inr demo_producer"
  by (simp add: new_def demo_descriptor_def demo_limits_def validate_descriptor_def
      validate_text_def blank_letter ws1_def byte_def demo_producer_def)

definition demo_snapshot :: "string \<Rightarrow> nat \<Rightarrow> state_snapshot" where
  "demo_snapshot t n = \<lparr>s_source_session_id = ''s'', s_sequence = n, s_observed_at_ns = 7,
     s_schema_version = 1, s_axes = [], s_state = JObject [(''loss'', JNumber t)]\<rparr>"

lemma demo_token: "token_nat ''1'' = Some 1" "token_nat ''2'' = Some 2"
  by (simp_all add: token_nat_def is_ascii_digit_def byte_def dec_nat_def)

lemma demo_tree:
  "t \<in> {''1'', ''2''} \<Longrightarrow> state_tree_ok ref_ext (JObject [(''loss'', JNumber t)])"
  by (auto simp: state_tree_ok_def json_subvalues.simps number_leaf_ok_def number_ok_def ref_ext_def demo_token
      json_height_le [of "JObject kvs" for kvs] json_height_le [of "JNumber t" for t])

lemma ilog10_small: "n < 10 \<Longrightarrow> ilog10 n = 0"
  by (simp add: ilog10.simps)

lemma demo_len: "length t = 1 \<Longrightarrow> length (enc_snapshot (demo_snapshot t n)) = 25 + ilog10 n"
  by (simp add: enc_snapshot_def demo_snapshot_def enc_list_def length_enc_nat enc_str_def enc_int_def
      ilog10_small)

lemma demo_accepted:
  "t \<in> {''1'', ''2''} \<Longrightarrow> n < i64_max_u \<Longrightarrow> snapshot_accepted ref_ext (demo_snapshot t n)"
  using demo_tree [of t] demo_len [of t n] ilog10_le [of n]
  by (auto simp: snapshot_accepted_def demo_snapshot_def tracker_header_def blank_letter ws1_def
      byte_def) (simp_all add: ref_ext_def)

lemma demo_accounted:
  "length t = 1 \<Longrightarrow> accounted_value (JObject [(''loss'', JNumber t)]) 0 = Inr 261"
  by (simp add: accounted_value.simps [of "JObject kvs" for kvs]
      accounted_value.simps [of "JNumber t" for t])

lemma demo_prepare:
  assumes t: "t \<in> {''1'', ''2''}" and st: "\<not> p_sealed st"
  shows "prepare_batch ref_ext (demo_producer\<lparr>pr_state := st\<rparr>) (\<lambda>_. 7) [demo_event t]
     = Inr [(demo_snapshot t 0, 774, 25)]"
proof -
  have one: "length t = 1" using t by auto
  have ok: "validate_state_snapshot ref_ext (demo_snapshot t 0) = Inr ()"
    using demo_accepted [OF t, of 0] by (simp add: validate_state_snapshot_iff)
  have vec: "to_vec_snapshot ref_ext (demo_snapshot t 0) = Inr (enc_snapshot (demo_snapshot t 0))"
    by (simp add: ref_ext_def)
  show ?thesis
    using ok vec demo_len [OF one, of 0] st
    by (simp add: prepare_batch_def prepare_event_def demo_event_def Let_def demo_accounted [OF one]
        bm_keys_def demo_producer_def demo_descriptor_def demo_limits_def
        demo_snapshot_def)
qed

lemma demo_not_event: "is_tracker_event ref_ext (JObject [(''loss'', JNumber t)]) = Inr False"
  by (simp add: is_tracker_event_def tracker_header_def)

text \<open>The producer after its second capture: the buffer holds one entry, so the first is gone.\<close>

definition demo_state :: "string \<Rightarrow> nat \<Rightarrow> producer_state" where
  "demo_state t n =
     (let e = \<lparr>b_snapshot = demo_snapshot t n, b_bytes = 774\<rparr> in
      \<lparr>p_snapshots = [e], p_buffered_bytes = 774, p_dropped_snapshots = n, p_next_sequence = n + 1,
       p_sealed = False, p_latest_observation = Some e\<rparr>)"

lemma demo_evict_0: "evict demo_limits 774 False initial_state = Some initial_state"
  by (subst evict.simps) (simp add: over_budget_def initial_state_def demo_limits_def)

lemma demo_evict_1:
  "evict demo_limits 774 False (demo_state t n) =
     Some ((demo_state t n)\<lparr>p_snapshots := [], p_buffered_bytes := 0, p_dropped_snapshots := n + 1\<rparr>)"
  by (subst evict.simps, subst evict.simps)
    (simp add: over_budget_def demo_state_def demo_limits_def pop_front_def Let_def)

lemma demo_first:
  "commit_batch ref_ext demo_limits [(demo_snapshot t 0, 774, 25)] initial_state =
     Some (Inr \<lparr>r_first_sequence = 0, r_next_sequence = 1, r_accepted = 1, r_dropped_snapshots = 0\<rparr>,
           demo_state t 0)"
  using demo_evict_0
  by (simp add: commit_batch_def Let_def initial_state_def demo_state_def demo_snapshot_def
      demo_not_event advance_def checked_add_u64_def check_digits_def check_budget_def push_back_def)

lemma demo_next:
  "n < 8 \<Longrightarrow> commit_batch ref_ext demo_limits [(demo_snapshot t 0, 774, 25)] (demo_state u n) =
     Some (Inr \<lparr>r_first_sequence = n + 1, r_next_sequence = n + 2, r_accepted = 1,
                r_dropped_snapshots = n + 1\<rparr>,
           demo_state t (n + 1))"
  using demo_evict_1 [of u n]
  by (simp add: commit_batch_def Let_def demo_state_def demo_snapshot_def
      demo_not_event advance_def checked_add_u64_def check_digits_def check_budget_def push_back_def
      ilog10_small)

definition demo_after :: producer where
  "demo_after = demo_producer\<lparr>pr_state := demo_state ''2'' 1\<rparr>"

lemma demo_reachable: "producer_reachable ref_ext (demo_after, [])"
proof -
  let ?p0 = "demo_producer\<lparr>pr_state := initial_state\<rparr>"
  let ?p1 = "demo_producer\<lparr>pr_state := demo_state ''1'' 0\<rparr>"
  let ?b = "\<lambda>t. [(demo_snapshot t 0, 774, 25)]"
  have 0: "producer_reachable ref_ext (?p0, [])"
    using producer_reachable.start [OF demo_new] by (simp add: demo_producer_def)
  have "producer_step ref_ext (?p0, []) (?p0, [] @ [?b ''1''])"
    by (rule producer_step.prepare [OF demo_prepare]) (simp_all add: initial_state_def)
  with 0 have 1: "producer_reachable ref_ext (?p0, [] @ ?b ''1'' # [])"
    by (auto intro: producer_reachable.step)
  have "producer_step ref_ext (?p0, [] @ ?b ''1'' # []) (?p0\<lparr>pr_state := demo_state ''1'' 0\<rparr>, [] @ [])"
    by (rule producer_step.commit) (simp add: demo_first demo_producer_def)
  with 1 have 2: "producer_reachable ref_ext (?p1, [])"
    by (auto dest: producer_reachable.step)
  have "producer_step ref_ext (?p1, []) (?p1, [] @ [?b ''2''])"
    by (rule producer_step.prepare [OF demo_prepare]) (simp_all add: demo_state_def Let_def)
  with 2 have 3: "producer_reachable ref_ext (?p1, [] @ ?b ''2'' # [])"
    by (auto intro: producer_reachable.step)
  have "producer_step ref_ext (?p1, [] @ ?b ''2'' # []) (?p1\<lparr>pr_state := demo_state ''2'' 1\<rparr>, [] @ [])"
    by (rule producer_step.commit) (use demo_next [of 0] in \<open>simp add: demo_producer_def\<close>)
  with 3 show ?thesis
    by (auto dest: producer_reachable.step simp: demo_after_def)
qed

lemmas demo_inv = reachable_config_inv [OF demo_reachable]

lemma reachable_inv:
  "producer_reachable X (p, fl) \<Longrightarrow> producer_inv X p"
  "producer_reachable X (p, fl) \<Longrightarrow> ps \<in> set fl \<Longrightarrow> \<forall>q \<in> set ps. prepared_ok X p q"
  using reachable_config_inv [of X "(p, fl)"] by (auto simp: config_inv_def)

lemma demo_capture:
  "capture_batch ref_ext (\<lambda>_. 7) demo_after [demo_event ''1''] =
     Some (Inr \<lparr>r_first_sequence = 2, r_next_sequence = 3, r_accepted = 1, r_dropped_snapshots = 2\<rparr>,
           demo_after\<lparr>pr_state := demo_state ''1'' 2\<rparr>)"
proof -
  have p: "prepare_batch ref_ext demo_after (\<lambda>_. 7) [demo_event ''1'']
      = Inr [(demo_snapshot ''1'' 0, 774, 25)]"
    unfolding demo_after_def by (rule demo_prepare) (simp_all add: demo_state_def Let_def)
  have "commit_batch ref_ext demo_limits [(demo_snapshot ''1'' 0, 774, 25)] (demo_state ''2'' 1) =
     Some (Inr \<lparr>r_first_sequence = 2, r_next_sequence = 3, r_accepted = 1, r_dropped_snapshots = 2\<rparr>,
           demo_state ''1'' 2)"
    using demo_next [of 1 "''1''" "''2''"] by (simp add: numeral_2_eq_2 numeral_3_eq_3)
  with p show ?thesis by (simp add: capture_batch_def demo_after_def demo_producer_def)
qed

section \<open>Properties\<close>

text \<open>
  C5. The snapshot validator accepts exactly the snapshots within the documented limits: its
  explicit-stack traversal computes the same verdict as the node count, nesting depth and number
  check of the whole tree.
\<close>

theorem validate_state_snapshot_spec:
  "validate_state_snapshot X s = Inr () \<longleftrightarrow> snapshot_accepted X s"
  by (rule validate_state_snapshot_iff)

text \<open>
  The page validator accepts exactly the pages of one session whose snapshots are individually
  valid, carry consecutive sequence numbers that end just before \<open>next_sequence\<close> and start no
  earlier than \<open>oldest_sequence\<close>, and whose encoding fits 16 MiB.
\<close>

theorem validate_history_spec:
  "validate_snapshot_history_response X r = Inr () \<longleftrightarrow> page_accepted X r"
  by (rule validate_history_response_iff)

text \<open>
  C1. In every reachable configuration, whatever the interleaving of captures, seals and releases,
  the producer is within its count and byte budgets, the pinned latest observation included, and it
  retains a gap-free interval of sequence numbers that ends at the next one to be assigned.
\<close>

theorem producer_bounded:
  assumes "producer_reachable X (p, fl)"
  shows "stat_buffered_snapshots (stats p) \<le> max_snapshots (pr_limits p)
    \<and> stat_buffered_bytes (stats p) \<le> max_bytes (pr_limits p)
    \<and> stat_next_sequence (stats p) \<le> i64_max_u
    \<and> map (s_sequence \<circ> b_snapshot) (p_snapshots (pr_state p))
        = [stat_oldest_sequence (stats p)..<stat_next_sequence (stats p)]"
proof -
  have inv: "producer_inv X p" using reachable_inv(1) [OF assms] .
  then have "length (p_snapshots (pr_state p)) \<le> max_snapshots (pr_limits p)
      \<and> p_buffered_bytes (pr_state p) + pinned_bytes (pr_state p) \<le> max_bytes (pr_limits p)
      \<and> p_next_sequence (pr_state p) \<le> i64_max_u"
    by (auto simp: producer_inv_def released_def fits_def pinned_bytes_def)
  with inv_sequences(1) [OF inv] show ?thesis by (simp add: stats_def Let_def)
qed

theorem producer_bounded_witness:
  "stat_buffered_snapshots (stats demo_after) = 1 \<and> stat_buffered_bytes (stats demo_after) \<le> 2000"
  using producer_bounded [OF demo_reachable]
  by (simp add: stats_def Let_def demo_after_def demo_state_def demo_producer_def demo_limits_def)

text \<open>
  C2. A capture always returns: the eviction loop, which would spin on an empty queue, always
  finds room, both for a fresh call and for any batch prepared earlier that is still to be
  committed. When it returns an error the producer is unchanged.
\<close>

theorem capture_returns_atomically:
  assumes "producer_reachable X (p, fl)"
  shows "(\<exists>res p'. capture_batch X clock p events = Some (res, p') \<and> (is_ok res \<or> p' = p))
    \<and> (\<forall>ps. ps \<in> set fl \<longrightarrow>
         (\<exists>res st. commit_batch X (pr_limits p) ps (pr_state p) = Some (res, st)
            \<and> (is_ok res \<or> st = pr_state p)))"
proof -
  have inv: "producer_inv X p" by (rule reachable_inv(1) [OF assms])
  have c: "\<exists>res st. commit_batch X (pr_limits p) ps (pr_state p) = Some (res, st)
      \<and> (is_ok res \<or> st = pr_state p)" if "\<forall>q \<in> set ps. prepared_ok X p q" for ps
    using inv that by (cases rule: commit_batch_outcome) auto
  then have "\<exists>res p'. capture_batch X clock p events = Some (res, p') \<and> (is_ok res \<or> p' = p)"
    using prepare_batch_result(2) [of X p clock events]
    by (auto simp: capture_batch_def split: sum.splits) fastforce
  with c reachable_inv(2) [OF assms] show ?thesis by blast
qed

theorem capture_returns_atomically_witness:
  "\<exists>res p'. capture_batch ref_ext (\<lambda>_. 7) demo_after [] = Some (res, p') \<and> (is_ok res \<or> p' = demo_after)"
  using capture_returns_atomically [OF demo_reachable] by blast

text \<open>
  C3. An accepted batch is appended to the history in order, with the next sequence numbers; only
  oldest entries are evicted and each eviction is counted; the latest observation becomes the last
  record of the batch that is not a tracker event, if there is one; the receipt reports the
  interval and the evictions.
\<close>

theorem capture_appends:
  assumes "producer_reachable X (p, fl)"
    and "capture_batch X clock p events = Some (Inr r, p')"
  shows "\<exists>new k. map (event_of \<circ> b_snapshot) new = map (\<lambda>e. (e_state e, e_axes e)) events
    \<and> map (s_sequence \<circ> b_snapshot) new = [r_first_sequence r..<r_next_sequence r]
    \<and> r_first_sequence r = p_next_sequence (pr_state p)
    \<and> r_next_sequence r = p_next_sequence (pr_state p') \<and> r_accepted r = length events
    \<and> p_snapshots (pr_state p') = drop k (p_snapshots (pr_state p) @ new)
    \<and> p_dropped_snapshots (pr_state p') = p_dropped_snapshots (pr_state p) + k
    \<and> r_dropped_snapshots r = p_dropped_snapshots (pr_state p')
    \<and> p_latest_observation (pr_state p') =
        (case last_observation X new of None \<Rightarrow> p_latest_observation (pr_state p) | Some e \<Rightarrow> Some e)"
proof -
  obtain ps where ps: "prepare_batch X p clock events = Inr ps"
    and com: "commit_batch X (pr_limits p) ps (pr_state p) = Some (Inr r, pr_state p')"
    using assms(2) by (auto simp: capture_batch_def split: sum.splits)
  note prep = prepare_batch_result [OF ps]
  have len: "length ps = length events" using arg_cong [OF prep(3), of length] by simp
  show ?thesis
    using reachable_inv(1) [OF assms(1)] prep(2)
  proof (cases rule: commit_batch_outcome)
    case (rejected e)
    with com show ?thesis by simp
  next
    case (accepted r' st' trail)
    let ?d = "p_dropped_snapshots (pr_state p)" and ?d' = "p_dropped_snapshots st'"
    let ?new = "assigned (length trail) ps"
    have eqs: "r' = r" "st' = pr_state p'" using com accepted(1) by simp_all
    have "?d \<le> length trail" "p_snapshots (pr_state p) = drop ?d trail"
      using accepted(4) by (simp_all add: tracks_def)
    then have snaps: "p_snapshots st' = drop (?d' - ?d) (p_snapshots (pr_state p) @ ?new)"
      using accepted(6,12) by (simp add: tracks_def)
    have lat: "p_latest_observation st' = (case last_observation X ?new of
        None \<Rightarrow> p_latest_observation (pr_state p) | Some e \<Rightarrow> Some e)"
    proof -
      have "p_latest_observation st' = last_observation X (trail @ ?new)"
        "p_latest_observation (pr_state p) = last_observation X trail"
        using accepted(4,6) unfolding tracks_def by blast+
      then show ?thesis by (simp only: last_observation_append)
    qed
    show ?thesis
      by (rule exI [of _ ?new], rule exI [of _ "?d' - ?d"])
        (use snaps lat accepted prep(3) len eqs in \<open>simp add: assigned_events assigned_sequences\<close>)
  qed
qed

theorem capture_appends_witness:
  "\<exists>new k. p_snapshots (demo_state ''1'' 2) = drop k (p_snapshots (demo_state ''2'' 1) @ new)
     \<and> map (s_sequence \<circ> b_snapshot) new = [2..<3] \<and> k = 1"
  using capture_appends [OF demo_reachable demo_capture]
  by (auto simp: demo_after_def demo_state_def Let_def)

text \<open>
  C4. Every page served by a reachable producer passes the protocol's own validation, starts where
  the reader asked or, when entries before that were evicted, at the oldest retained one with the
  loss reported, is contiguous, and makes progress whenever anything is left to read.
\<close>

theorem history_serves_valid_pages:
  assumes "producer_reachable X (p, fl)" and "sequence_codec X" and "page_codec X"
    and "1 \<le> limit" and "limit \<le> MAX_SNAPSHOT_HISTORY_LIMIT"
    and "after \<le> p_next_sequence (pr_state p)"
  shows "\<exists>page. history X p after limit = Inr page
    \<and> validate_snapshot_history_response X page = Inr ()
    \<and> h_oldest_sequence page = oldest_sequence (pr_state p)
    \<and> h_dropped_before page =
        (if after < oldest_sequence (pr_state p) then Some (oldest_sequence (pr_state p)) else None)
    \<and> map s_sequence (h_snapshots page)
        = [max after (oldest_sequence (pr_state p))..<h_next_sequence page]
    \<and> (\<forall>s \<in> set (h_snapshots page). s \<in> b_snapshot ` set (p_snapshots (pr_state p)))
    \<and> (max after (oldest_sequence (pr_state p)) < p_next_sequence (pr_state p) \<longrightarrow>
         max after (oldest_sequence (pr_state p)) < h_next_sequence page)"
proof -
  have inv: "producer_inv X p" by (rule reachable_inv(1) [OF assms(1)])
  let ?w = "window (pr_state p) after limit"
  obtain m where m: "history X p after limit = Inr (page_of p after (take m ?w))"
      "m \<le> length ?w" "?w \<noteq> [] \<longrightarrow> 0 < m"
      "1024 + length (d_source_session_id (pr_descriptor p)) * 6 + snapshots_len X (take m ?w)
         \<le> MAX_SNAPSHOT_PAGE_BYTES"
    using history_page [OF inv assms(2,4,5,6)] by blast
  have valid: "validate_snapshot_history_response X (page_of p after (take m ?w)) = Inr ()"
    using page_of_accepted [OF inv assms(2,3,5,6) m(4)] by (simp add: validate_history_response_iff)
  have mem: "\<forall>s \<in> set (take m ?w). s \<in> b_snapshot ` set (p_snapshots (pr_state p))"
    by (auto simp: window_def dest!: in_set_takeD in_set_dropD)
  have "max after (oldest_sequence (pr_state p)) < p_next_sequence (pr_state p) \<longrightarrow> 0 < m"
    using m(3) length_window [OF inv, of after limit] assms(4) by auto
  with m(1,2) valid mem window_sequences [OF inv, of m after limit]
  show ?thesis
    by (intro exI [of _ "page_of p after (take m ?w)"]) (simp add: page_of_def Let_def)
qed

theorem history_serves_valid_pages_witness:
  "\<exists>page. history ref_ext demo_after 0 64 = Inr page
     \<and> validate_snapshot_history_response ref_ext page = Inr ()
     \<and> h_dropped_before page = Some 1"
  using history_serves_valid_pages [OF demo_reachable ref_laws, of 64 0]
  by (auto simp: demo_after_def demo_state_def Let_def oldest_sequence_def demo_snapshot_def)

text \<open>
  Sealing is final: a sealed producer rejects every capture, and no step of any caller changes
  what it retains, except that a release empties it for good.
\<close>

theorem sealed_is_final:
  assumes "producer_step X (p, fl) (p', fl')" and "p_sealed (pr_state p)"
  shows "capture_batch X clock p events = Some (Inl Sealed, p)
    \<and> p_sealed (pr_state p') \<and> p_next_sequence (pr_state p') = p_next_sequence (pr_state p)
    \<and> (p_snapshots (pr_state p') = p_snapshots (pr_state p) \<or> released (pr_state p'))"
  using assms
  by (auto simp: capture_batch_def prepare_batch_def commit_batch_sealed seal_def
      seal_and_release_history_def released_def)

theorem sealed_is_final_witness:
  "\<exists>p'. producer_step ref_ext (snd (seal demo_after), []) (p', [])
     \<and> p_sealed (pr_state p') \<and> released (pr_state p')"
proof -
  have s: "producer_step ref_ext (snd (seal demo_after), [])
      (snd (seal_and_release_history (snd (seal demo_after))), [])"
    by (rule producer_step.release_step)
  have "p_sealed (pr_state (snd (seal demo_after)))" by (simp add: seal_def)
  from sealed_is_final [OF s this] s show ?thesis
    by (auto simp: released_def seal_and_release_history_def)
qed

end
