(* ===== verification/Store_Props.thy ===== *)
theory Store_Props
  imports Store_Reads Producer_Props
begin

text \<open>
  The properties of the snapshot store, with applications to a store that has ingested the page of
  a concrete producer.
\<close>

subsection \<open>A concrete store\<close>

definition demo_source :: source where
  "demo_source = \<lparr>src_id = ''x'', src_run_id = ''r'', src_attempt_id = ''a'', src_role = ''w'',
     src_endpoint = ''http://h'', src_node_id = None, src_rank = None, src_state = Discovered,
     src_session_id = None, src_last_success_at_ns = None, src_last_error = None,
     src_scrape_interval_ms = 1000, src_timeout_ms = 500, src_descriptor = None\<rparr>"

definition demo_project :: "unit projection" where
  "demo_project key run src snapshot ix = Inr ix"

definition demo_page :: snapshot_history_response where
  "demo_page = \<lparr>h_protocol_version = 1, h_source_session_id = ''s'', h_oldest_sequence = 1,
     h_next_sequence = 2, h_dropped_before = Some 1, h_snapshots = [demo_snapshot ''2'' 1]\<rparr>"

definition demo_store :: "unit store" where
  "demo_store = \<lparr>st_rows = [\<lparr>row_id = 1, row_run_id = ''r'', row_source_id = ''x'',
       row_session_id = ''s'', row_sequence = 1, row_observed_at_ns = 7, row_ingested_at_ns = 9,
       row_json = enc_snapshot (demo_snapshot ''2'' 1)\<rparr>],
     st_last_id = 1, st_heads = [((''r'', ''x''), 1)], st_cursors = [((''x'', ''s''), (2, 9))],
     st_gaps = [\<lparr>gap_source_id = ''x'', gap_session_id = ''s'', gap_expected = 0, gap_oldest = 1,
       gap_observed_at_ns = 9\<rparr>],
     st_index = ()\<rparr>"

lemma demo_page_accepted: "page_accepted ref_ext demo_page"
proof -
  have "length (enc_page demo_page) \<le> 16777216"
    using demo_len [of "''2''" 1]
    by (simp add: demo_page_def enc_page_def enc_str_def enc_list_def length_enc_nat ilog10_small)
  then show ?thesis
    using demo_accepted [of "''2''" 1]
    by (simp add: page_accepted_def demo_page_def blank_letter ws1_def byte_def)
      (simp add: ref_ext_def demo_snapshot_def numeral_2_eq_2)
qed

lemma demo_descriptor_ok: "validate_snapshot_descriptor demo_descriptor = Inr ()"
  by (simp add: validate_snapshot_descriptor_def demo_descriptor_def validate_name_def
      blank_letter ws1_def byte_def)

lemma demo_ingest:
  "ingest_page ref_ext demo_project (\<lambda>_. 9) (empty_store ()) demo_source demo_descriptor demo_page
     = Inr (1, demo_store)"
proof -
  have "validate_snapshot_history_response ref_ext demo_page = Inr ()"
    using demo_page_accepted by (simp add: validate_history_response_iff)
  moreover have "to_vec_snapshot ref_ext (demo_snapshot ''2'' 1) = Inr (enc_snapshot (demo_snapshot ''2'' 1))"
    by (simp add: ref_ext_def)
  moreover have "is_tracker_event ref_ext (s_state (demo_snapshot ''2'' 1)) = Inr False"
    by (simp add: demo_snapshot_def demo_not_event)
  ultimately show ?thesis
    using demo_descriptor_ok
    by (simp add: ingest_page_eq Let_def cursor_def empty_store_def check_position_def check_ids_def
        ingest_snapshot_eq insert_row_def find_row_def put_cursor_def record_gap_def demo_project_def
        demo_page_def demo_source_def demo_store_def demo_descriptor_def blank_letter ws1_def byte_def)
      (simp add: demo_snapshot_def)
qed

lemma ref_roundtrip_codec: "roundtrip_codec ref_ext"
  using ref_roundtrip by (simp add: roundtrip_codec_def ref_ext_def)

lemma demo_wf: "\<forall>s \<in> set (h_snapshots demo_page). snapshot_wf s"
  by (simp add: demo_page_def snapshot_wf_def demo_snapshot_def json_subvalues.simps
      json_object_sorted_def bm_sorted_def)

lemma demo_store_inv: "store_inv demo_store"
  by (rule store_inv_ingest_page [OF store_inv_empty demo_ingest])

lemma demo_ledger: "stored_seqs demo_store ''x'' ''s'' = {1}" "lost_seqs demo_store ''x'' ''s'' = {0}"
proof -
  have "stored_seqs db src ses = set (map row_sequence (filter (row_of src ses) (st_rows db)))"
    for db :: "unit store" and src ses
    by (simp add: stored_seqs_def)
  then show "stored_seqs demo_store ''x'' ''s'' = {1}"
    by (simp only: demo_store_def store.simps filter.simps row_of_def snap_row.simps simp_thms if_True
        list.simps)
  show "lost_seqs demo_store ''x'' ''s'' = {0}"
    by (simp add: demo_store_def lost_seqs_def gap_of_def del: set_filter)
qed

text \<open>Stores that some sequence of write transactions builds.\<close>

inductive store_reachable :: "serde_ext \<Rightarrow> 'ix projection \<Rightarrow> 'ix store \<Rightarrow> bool" for X project where
  opened: "store_reachable X project (empty_store ix)"
| written: "store_reachable X project db \<Longrightarrow>
    store_reachable X project (snd (ingest_batch X project clock db pages))"

lemma store_reachable_inv: "store_reachable X project db \<Longrightarrow> store_inv db"
  by (induction rule: store_reachable.induct) (simp_all add: store_inv_empty store_inv_ingest_batch)

lemma demo_store_reachable: "store_reachable ref_ext demo_project demo_store"
proof -
  have "snd (ingest_batch ref_ext demo_project (\<lambda>_ _. 9) (empty_store ()) [(demo_source, demo_descriptor, demo_page)])
      = demo_store"
    using demo_ingest by simp
  then show ?thesis by (metis store_reachable.opened store_reachable.written)
qed

section \<open>Properties\<close>

text \<open>
  C6. Whatever pages are written, the sequence numbers below the cursor of a source session are
  accounted for exactly once: each is either stored in one row or inside a recorded gap, never
  both, and nothing at or above the cursor is stored.
\<close>

theorem store_accounts_for_every_sequence:
  assumes "store_reachable X project db"
  shows "stored_seqs db src ses \<union> lost_seqs db src ses = {..<cursor db src ses}
    \<and> stored_seqs db src ses \<inter> lost_seqs db src ses = {}
    \<and> distinct (map row_key (st_rows db)) \<and> map row_id (st_rows db) = [1..st_last_id db]"
  using store_reachable_inv [OF assms] store_invD(3-5) [OF store_reachable_inv [OF assms]]
  unfolding store_inv_def by blast

theorem store_accounts_witness:
  "stored_seqs demo_store ''x'' ''s'' \<union> lost_seqs demo_store ''x'' ''s'' = {..<2}
   \<and> 1 \<in> stored_seqs demo_store ''x'' ''s'' \<and> 0 \<in> lost_seqs demo_store ''x'' ''s''"
  using store_accounts_for_every_sequence [OF demo_store_reachable, of "''x''" "''s''"]
  by (simp add: demo_ledger) (simp add: demo_store_def cursor_def bm_get_def)

text \<open>
  An accepted page advances the cursor of its session to the page's next sequence, stores
  exactly the interval from the old cursor (or from the oldest sequence the producer still had), and
  records as lost exactly the numbers in between; no other session is touched.
\<close>

theorem ingest_advances:
  assumes "store_reachable X project db"
    and "ingest_page X project clock db source descriptor page = Inr (k, db')" and "0 < k"
    and "committed = cursor db (src_id source) (h_source_session_id page)"
  shows "cursor db' (src_id source) (h_source_session_id page) = h_next_sequence page
    \<and> stored_seqs db' (src_id source) (h_source_session_id page)
        = stored_seqs db (src_id source) (h_source_session_id page)
          \<union> {max committed (h_oldest_sequence page)..<h_next_sequence page}
    \<and> lost_seqs db' (src_id source) (h_source_session_id page)
        = lost_seqs db (src_id source) (h_source_session_id page) \<union> {committed..<h_oldest_sequence page}
    \<and> (\<forall>src ses. (src, ses) \<noteq> (src_id source, h_source_session_id page) \<longrightarrow>
         cursor db' src ses = cursor db src ses \<and> stored_seqs db' src ses = stored_seqs db src ses
         \<and> lost_seqs db' src ses = lost_seqs db src ses)"
  using ingest_page_ledger [OF store_reachable_inv [OF assms(1)] assms(2,3)] assms(4) by auto

theorem ingest_advances_witness:
  "cursor demo_store ''x'' ''s'' = 2 \<and> lost_seqs demo_store ''x'' ''s'' = {0..<1}"
  using ingest_advances [OF store_reachable.opened demo_ingest zero_less_one refl]
  by (simp add: demo_page_def demo_source_def empty_store_def cursor_def lost_seqs_def)

text \<open>
  Ingestion is idempotent: a page that was accepted, delivered again, is accepted with nothing
  new and leaves the store as it is, whatever the clock says then.
\<close>

theorem ingest_replay_idempotent:
  assumes "store_reachable X project db" and "roundtrip_codec X"
    and "\<forall>s \<in> set (h_snapshots page). snapshot_wf s"
    and "ingest_page X project clock db source descriptor page = Inr (k, db')"
  shows "ingest_page X project clock' db' source descriptor page = Inr (0, db')"
proof -
  have acc: "page_accepted X page" using assms(4) by (cases rule: ingest_page_cases)
  have "try_fold (ingest_snapshot X project clock' source (h_source_session_id page)
      (cursor db' (src_id source) (h_source_session_id page))) (0, db') (enumerate 0 (h_snapshots page))
      = Inr (0, db')"
  proof (rule replay_fold)
    show "\<forall>s \<in> set (h_snapshots page). is_ok (to_vec_snapshot X s)"
      using acc by (auto simp: page_accepted_def snapshot_accepted_def)
  qed (use ingest_page_confirmed [OF assms(2-4)] in blast)
  with replay_position [OF store_reachable_inv [OF assms(1)] assms(4)] assms(4) acc show ?thesis
    by (auto simp: ingest_page_eq result_iffs Let_def validate_history_response_iff)
qed

theorem ingest_replay_witness:
  "ingest_page ref_ext demo_project (\<lambda>_. 100) demo_store demo_source demo_descriptor demo_page
     = Inr (0, demo_store)"
  by (rule ingest_replay_idempotent [OF store_reachable.opened ref_roundtrip_codec demo_wf demo_ingest])

text \<open>
  C7. The durability acknowledgement is sound and complete: \<open>complete\<close> is reported exactly when
  every sequence number below the requested one is stored.
\<close>

theorem persisted_cursor_exact:
  assumes "store_reachable X project db" and "persisted_cursor db req = Inr resp"
  shows "pcr_complete resp
    \<longleftrightarrow> {..<pcq_next_sequence req} \<subseteq> stored_seqs db (pcq_source_id req) (pcq_session_id req)"
proof -
  let ?src = "pcq_source_id req" and ?ses = "pcq_session_id req" and ?n = "pcq_next_sequence req"
  let ?S = "stored_seqs db ?src ?ses" and ?L = "lost_seqs db ?src ?ses" and ?c = "cursor db ?src ?ses"
  have inv: "store_inv db" by (rule store_reachable_inv [OF assms(1)])
  have u: "?S \<union> ?L = {..<?c}" "?S \<inter> ?L = {}" by (rule store_invD(4,5) [OF inv])+
  have pos: "\<forall>g \<in> set (st_gaps db). gap_expected g < gap_oldest g" using inv by (simp add: store_inv_def)
  have resp: "pcr_complete resp \<longleftrightarrow>
      ?n \<le> ?c \<and> \<not> (\<exists>g \<in> set (st_gaps db). gap_of ?src ?ses g \<and> gap_expected g < ?n)"
    using assms(2) by (auto simp: persisted_cursor_def result_iffs Let_def list_ex_iff)
  have gap: "(\<exists>g \<in> set (st_gaps db). gap_of ?src ?ses g \<and> gap_expected g < ?n) \<longleftrightarrow> (\<exists>m < ?n. m \<in> ?L)"
  proof
    assume "\<exists>g \<in> set (st_gaps db). gap_of ?src ?ses g \<and> gap_expected g < ?n"
    then obtain g where "g \<in> set (st_gaps db)" "gap_of ?src ?ses g" "gap_expected g < ?n" by blast
    then show "\<exists>m < ?n. m \<in> ?L" using pos by (intro exI [of _ "gap_expected g"]) (auto simp: lost_seqs_def)
  qed (force simp: lost_seqs_def)
  show ?thesis
  proof
    assume c: "pcr_complete resp"
    show "{..<?n} \<subseteq> ?S"
    proof
      fix m
      assume "m \<in> {..<?n}"
      then have "m \<in> ?S \<union> ?L" "m \<notin> ?L" using c resp gap u(1) by auto
      then show "m \<in> ?S" by blast
    qed
  next
    assume sub: "{..<?n} \<subseteq> ?S"
    then have "{..<?n} \<subseteq> {..<?c}" unfolding u(1) [symmetric] by (rule le_supI1)
    moreover have "\<not> (\<exists>m < ?n. m \<in> ?L)" using sub u(2) by blast
    ultimately show "pcr_complete resp" using resp gap by simp
  qed
qed

theorem persisted_cursor_witness:
  "\<exists>resp. persisted_cursor demo_store \<lparr>pcq_run_id = ''r'', pcq_source_id = ''x'',
      pcq_session_id = ''s'', pcq_next_sequence = 2\<rparr> = Inr resp \<and> \<not> pcr_complete resp"
proof -
  let ?q = "\<lparr>pcq_run_id = ''r'', pcq_source_id = ''x'', pcq_session_id = ''s'', pcq_next_sequence = 2\<rparr>"
  obtain resp where r: "persisted_cursor demo_store ?q = Inr resp"
    by (simp add: persisted_cursor_def check_ids_def blank_letter ws1_def byte_def Let_def)
  have "0 \<notin> stored_seqs demo_store ''x'' ''s''" "0 \<in> {..<2::nat}" by (simp_all add: demo_ledger)
  then have "\<not> {..<2} \<subseteq> stored_seqs demo_store ''x'' ''s''" by blast
  with persisted_cursor_exact [OF demo_store_reachable r] r show ?thesis by auto
qed

text \<open>A batch reads the clock of its own pages only.\<close>

lemma ingest_batch_clock:
  "(\<And>n. n < length pages \<Longrightarrow> clock n = clock' n) \<Longrightarrow>
   ingest_batch X project clock db pages = ingest_batch X project clock' db pages"
proof (induction pages arbitrary: clock clock' db)
  case (Cons entry pages)
  obtain source descriptor page where entry: "entry = (source, descriptor, page)" by (cases entry)
  have 0: "clock 0 = clock' 0" using Cons.prems [of 0] by simp
  have "ingest_batch X project (clock \<circ> Suc) st pages = ingest_batch X project (clock' \<circ> Suc) st pages" for st
    by (rule Cons.IH) (use Cons.prems in simp)
  then show ?case unfolding entry ingest_batch_Cons 0 by (simp only:)
qed simp

lemma ingest_batch_length: "length (fst (ingest_batch X project clock db pages)) = length pages"
  by (induction X project clock db pages rule: ingest_batch_induct) (auto simp: comp_def split: sum.split)

text \<open>The positions of the pages that succeeded.\<close>

definition kept :: "('e + 'a) list \<Rightarrow> nat list" where
  "kept results = filter (\<lambda>i. is_ok (results ! i)) [0..<length results]"

lemma kept_Cons: "kept (r # rs) = (if is_ok r then [0] else []) @ map Suc (kept rs)"
proof -
  have "[0..<Suc (length rs)] = 0 # map Suc [0..<length rs]" by (simp only: map_Suc_upt upt_conv_Cons)
  then show ?thesis by (simp add: kept_def filter_map comp_def del: upt_Suc)
qed

lemma kept_less: "i \<in> set (kept results) \<Longrightarrow> i < length results"
  by (simp add: kept_def)

lemma batch_without_failures:
  "ingest_batch X project clock db pages = (results, db') \<Longrightarrow>
   ingest_batch X project (\<lambda>n. clock (kept results ! n)) db (map ((!) pages) (kept results))
     = (map ((!) results) (kept results), db')"
proof (induction pages arbitrary: clock db results)
  case Nil
  then show ?case by (simp add: kept_def)
next
  case (Cons entry pages)
  obtain source descriptor page where entry: "entry = (source, descriptor, page)" by (cases entry)
  show ?case
  proof (cases "ingest_page X project (clock 0) db source descriptor page")
    case (Inl e)
    obtain rs where rs: "ingest_batch X project (clock \<circ> Suc) db pages = (rs, db')" "results = Inl e # rs"
      using Cons.prems Inl by (auto simp: entry map_prod_def split: prod.splits)
    have "ingest_batch X project (\<lambda>n. clock (map Suc (kept rs) ! n)) db (map ((!) pages) (kept rs))
        = ingest_batch X project (\<lambda>n. (clock \<circ> Suc) (kept rs ! n)) db (map ((!) pages) (kept rs))"
      by (rule ingest_batch_clock) simp
    with Cons.IH [OF rs(1)] show ?thesis by (simp add: rs(2) kept_Cons comp_def)
  next
    case (Inr a)
    then obtain k db1 where ip: "ingest_page X project (clock 0) db source descriptor page = Inr (k, db1)"
      by (cases a) auto
    obtain rs where rs: "ingest_batch X project (clock \<circ> Suc) db1 pages = (rs, db')" "results = Inr k # rs"
      using Cons.prems ip by (auto simp: entry map_prod_def split: prod.splits)
    have "ingest_batch X project ((\<lambda>n. clock ((0 # map Suc (kept rs)) ! n)) \<circ> Suc) db1 (map ((!) pages) (kept rs))
        = ingest_batch X project (\<lambda>n. (clock \<circ> Suc) (kept rs ! n)) db1 (map ((!) pages) (kept rs))"
      by (rule ingest_batch_clock) simp
    with Cons.IH [OF rs(1)] ip show ?thesis by (simp add: rs(2) kept_Cons comp_def entry)
  qed
qed

lemma batch_failure:
  "ingest_batch X project clock db pages = (results, db') \<Longrightarrow> i < length pages \<Longrightarrow>
   pages ! i = (source, descriptor, page) \<Longrightarrow>
   results ! i = fst (write_page X project (clock i) source descriptor page
     (snd (ingest_batch X project clock db (take i pages))))"
proof (induction pages arbitrary: clock db results i)
  case (Cons entry pages)
  obtain s d p where entry: "entry = (s, d, p)" by (cases entry)
  obtain r w where w: "write_page X project (clock 0) s d p db = (r, w)" by fastforce
  define db1 where "db1 = (case r of Inr _ \<Rightarrow> w | Inl _ \<Rightarrow> db)"
  have step: "ingest_batch X project clock db ((s, d, p) # ps)
      = map_prod (Cons r) id (ingest_batch X project (clock \<circ> Suc) db1 ps)" for ps
    by (simp add: ingest_batch.simps w db1_def Let_def del: ingest_batch_Cons)
  obtain rs where rs: "ingest_batch X project (clock \<circ> Suc) db1 pages = (rs, db')" "results = r # rs"
    using Cons.prems(1) by (auto simp: entry step map_prod_def simp del: ingest_batch_Cons split: prod.splits)
  show ?case
  proof (cases i)
    case 0
    then show ?thesis using Cons.prems(3) w rs(2) by (simp add: entry)
  next
    case (Suc j)
    then show ?thesis using Cons.IH [OF rs(1), of j] Cons.prems(2,3) rs(2)
      by (simp add: entry step comp_def del: ingest_batch_Cons)
  qed
qed simp

text \<open>
  C8. Pages of a batch are isolated, whatever a failing page had written before its error: the batch
  leaves exactly the store, and the pages that succeed report exactly the results, that the successful
  pages alone, ingested at the same times, would have; and every page, also a failing one, is
  answered with what writing it after the pages before it returns.
\<close>

theorem batch_isolates_failures:
  assumes "ingest_batch X project clock db pages = (results, db')"
  shows "length results = length pages
    \<and> ingest_batch X project (\<lambda>n. clock (kept results ! n)) db (map ((!) pages) (kept results))
        = (map ((!) results) (kept results), db')
    \<and> (\<forall>i source descriptor page. i < length pages \<longrightarrow> pages ! i = (source, descriptor, page) \<longrightarrow>
         results ! i = fst (write_page X project (clock i) source descriptor page
           (snd (ingest_batch X project clock db (take i pages)))))"
  using batch_without_failures [OF assms] batch_failure [OF assms] assms
    ingest_batch_length [of X project clock db pages] by simp

text \<open>
  A page of two snapshots whose second fails in the index, before a page that succeeds: the first
  page had written its first snapshot, and nothing of it remains.
\<close>

definition picky_project :: "unit projection" where
  "picky_project key run src snapshot ix =
     (if s_sequence snapshot = 2 then Inl (Sqlite ''disk I/O error'') else Inr ix)"

definition torn_page :: snapshot_history_response where
  "torn_page = demo_page\<lparr>h_next_sequence := 3, h_snapshots := [demo_snapshot ''2'' 1, demo_snapshot ''1'' 2]\<rparr>"

lemma torn_page_accepted: "page_accepted ref_ext torn_page"
proof -
  have "length (enc_page torn_page) \<le> 16777216"
    using demo_len [of "''2''" 1] demo_len [of "''1''" 2]
    by (simp add: torn_page_def demo_page_def enc_page_def enc_str_def enc_list_def length_enc_nat ilog10_small)
  then show ?thesis
    using demo_accepted [of "''2''" 1] demo_accepted [of "''1''" 2]
    by (simp add: page_accepted_def torn_page_def demo_page_def blank_letter ws1_def byte_def)
      (simp add: ref_ext_def demo_snapshot_def numeral_2_eq_2 numeral_3_eq_3 upt_rec)
qed

lemma demo_codec:
  "to_vec_snapshot ref_ext s = Inr (enc_snapshot s)"
  "is_tracker_event ref_ext (s_state (demo_snapshot t n)) = Inr False"
  by (simp_all add: ref_ext_def is_tracker_event_def tracker_header_def demo_snapshot_def)

lemmas ingestion_defs = Let_def cursor_def empty_store_def check_position_def check_ids_def insert_row_def
  find_row_def put_cursor_def record_gap_def demo_source_def demo_descriptor_def blank_letter ws1_def byte_def

lemma demo_snapshot_fields:
  "s_sequence (demo_snapshot t n) = n" "s_observed_at_ns (demo_snapshot t n) = 7"
  by (simp_all add: demo_snapshot_def)

lemma torn_writes:
  "write_snapshot ref_ext picky_project (\<lambda>_. 9) demo_source ''s'' 0 0 (0, demo_snapshot ''2'' 1) (empty_store ())
     = (Inr 1, demo_store\<lparr>st_cursors := [], st_gaps := []\<rparr>)"
  "write_snapshot ref_ext picky_project (\<lambda>_. 9) demo_source ''s'' 0 1 (1, demo_snapshot ''1'' 2)
       (demo_store\<lparr>st_cursors := [], st_gaps := []\<rparr>)
     = (Inl (Sqlite ''disk I/O error''),
        demo_store\<lparr>st_cursors := [], st_gaps := [], st_last_id := 2,
          st_rows := st_rows demo_store @ [\<lparr>row_id = 2, row_run_id = ''r'', row_source_id = ''x'',
            row_session_id = ''s'', row_sequence = 2, row_observed_at_ns = 7, row_ingested_at_ns = 9,
            row_json = enc_snapshot (demo_snapshot ''1'' 2)\<rparr>]\<rparr>)"
  by (simp_all add: write_snapshot_def tx_simps tx_bind_def write_row_def write_index_def picky_project_def
      insert_row_def find_row_def row_of_def demo_source_def demo_codec demo_snapshot_fields Let_def empty_store_def demo_store_def)

text \<open>The error leaves both rows, until the savepoint is rolled back.\<close>

lemma torn_write:
  obtains torn where
    "write_page ref_ext picky_project (\<lambda>_. 9) demo_source demo_descriptor torn_page (empty_store ())
       = (Inl (Sqlite ''disk I/O error''), torn)" and "length (st_rows torn) = 2"
proof -
  have "validate_snapshot_history_response ref_ext torn_page = Inr ()"
    using torn_page_accepted by (simp add: validate_history_response_iff)
  moreover have "cursor (empty_store ()) (src_id demo_source) ''s'' = 0" "check_position 0 torn_page = Inr ()"
    "h_source_session_id torn_page = ''s''" "h_snapshots torn_page = [demo_snapshot ''2'' 1, demo_snapshot ''1'' 2]"
    by (simp_all add: cursor_def empty_store_def check_position_def torn_page_def demo_page_def demo_snapshot_def)
  ultimately show thesis using demo_descriptor_ok torn_writes
    by (intro that) (simp_all add: write_page_def tx_simps tx_bind_def check_ids_def Let_def demo_source_def demo_descriptor_def
        blank_letter ws1_def byte_def, simp add: demo_store_def)
qed

lemma picky_ingest:
  "ingest_page ref_ext picky_project (\<lambda>_. 9) (empty_store ()) demo_source demo_descriptor demo_page
     = Inr (1, demo_store)"
proof -
  have "validate_snapshot_history_response ref_ext demo_page = Inr ()"
    using demo_page_accepted by (simp add: validate_history_response_iff)
  then show ?thesis using demo_descriptor_ok
    by (simp add: ingest_page_eq ingest_snapshot_eq picky_project_def ingestion_defs demo_codec demo_page_def demo_store_def)
      (simp add: demo_snapshot_def)
qed

theorem batch_isolates_witness:
  "ingest_batch ref_ext picky_project (\<lambda>_ _. 9) (empty_store ())
      [(demo_source, demo_descriptor, torn_page), (demo_source, demo_descriptor, demo_page)]
     = ([Inl (Sqlite ''disk I/O error''), Inr 1], demo_store)
   \<and> ingest_batch ref_ext picky_project (\<lambda>_ _. 9) (empty_store ()) [(demo_source, demo_descriptor, demo_page)]
     = ([Inr 1], demo_store)"
proof -
  have both: "ingest_batch ref_ext picky_project (\<lambda>_ _. 9) (empty_store ())
      [(demo_source, demo_descriptor, torn_page), (demo_source, demo_descriptor, demo_page)]
     = ([Inl (Sqlite ''disk I/O error''), Inr 1], demo_store)"
  proof -
    obtain torn where "write_page ref_ext picky_project (\<lambda>_. 9) demo_source demo_descriptor torn_page (empty_store ())
       = (Inl (Sqlite ''disk I/O error''), torn)" by (rule torn_write)
    then show ?thesis using picky_ingest by (simp add: ingest_page_def comp_def)
  qed
  have "kept [Inl (Sqlite ''disk I/O error''), Inr (1::nat)] = [1]"
    by (simp add: kept_def)
  with both batch_isolates_failures [OF both] show ?thesis by simp
qed

text \<open>
  C10. History pages enumerate the matching rows in descending storage order without repetition or
  omission: a page is a prefix of what is left, it is not empty unless nothing is left, and asking
  again before its last identifier selects exactly the rest.
\<close>

theorem history_pages_enumerate:
  assumes "store_inv db" and "store_history X Y db req = Inr page"
  shows "\<exists>k \<le> hq_limit req.
      map ss_id (hp_snapshots page) = map row_id (take k (history_rows db req))
      \<and> (case hp_next_before_id page of
           None \<Rightarrow> length (history_rows db req) \<le> k
         | Some key \<Rightarrow> 0 < k \<and> history_rows db (req\<lparr>hq_before_id := Some key\<rparr>) = drop k (history_rows db req))"
proof -
  let ?m = "history_rows db req" and ?l = "hq_limit req"
  obtain ss left where p: "page_rows X Y ?l PAGE_ENVELOPE_RESERVE [] (take (?l + 1) ?m) = Inr (ss, left)"
    and l: "0 < ?l" and page: "page = \<lparr>hp_snapshots = ss,
        hp_next_before_id = (if left then Some (ss_id (last ss)) else None)\<rparr>"
    using assms(2) by (auto simp: store_history_def validate_page_def result_iffs)
  have "length ([] :: stored_snapshot list) \<le> ?l" by simp
  from page_rows_result [OF p this]
  obtain k ys where k: "k \<le> length (take (?l + 1) ?m)" "ss = [] @ ys"
      "list_all2 (\<lambda>r s. from_row X r = Inr s) (take k (take (?l + 1) ?m)) ys"
      "length ss \<le> ?l" "left \<longleftrightarrow> k < length (take (?l + 1) ?m)" "left \<longrightarrow> ?l = 0 \<or> ss \<noteq> []"
    by (elim exE conjE) (rule that)
  have ids: "map ss_id ss = map row_id (take k ?m)"
  proof -
    have "min k (?l + 1) = k" using k(1) by simp
    then show ?thesis using list_all2_ids [OF k(3)] k(2) by (simp only: take_take append_Nil)
  qed
  have len: "length ss = k" using list_all2_lengthD [OF k(3)] k(1,2) by simp
  have kl: "k \<le> ?l" using len k(4) by simp
  show ?thesis
  proof (cases left)
    case True
    then have kpos: "0 < k" and km: "k < length ?m" using k(5,6) len l by auto
    have "ss_id (last ss) = row_id (?m ! (k - 1))"
    proof -
      have "ss_id (last ss) = last (map ss_id ss)" using k(6) True l by (simp add: last_map)
      also have "\<dots> = last (map row_id (take k ?m))" by (simp only: ids)
      also have "\<dots> = row_id (?m ! (k - 1))" using kpos km by (simp only: last_map_take less_imp_le)
      finally show ?thesis .
    qed
    with history_continue [OF assms(1), of "k - 1" req] kpos km
    have "history_rows db (req\<lparr>hq_before_id := Some (ss_id (last ss))\<rparr>) = drop k ?m" by simp
    with True ids kl kpos page show ?thesis by (intro exI [of _ k]) simp
  next
    case False
    then have "length ?m \<le> k" using k(1,5) kl by auto
    with False ids kl page show ?thesis by (intro exI [of _ k]) simp
  qed
qed

definition demo_store_ext :: store_ext where
  "demo_store_ext = \<lparr>to_vec_stored = (\<lambda>s. Inr ''stored''), to_vec_change = (\<lambda>p b a. Inr ''change'')\<rparr>"

definition demo_history :: history_request where
  "demo_history = \<lparr>hq_run_id = ''r'', hq_source_ids = [], hq_before_id = None, hq_from = None,
     hq_to = None, hq_limit = 10\<rparr>"

lemma demo_from_row:
  "from_row ref_ext (hd (st_rows demo_store)) = Inr \<lparr>ss_id = 1, ss_run_id = ''r'', ss_source_id = ''x'',
     ss_ingested_at_ns = 9, ss_snapshot = demo_snapshot ''2'' 1\<rparr>"
  by (simp add: from_row_def demo_store_def ref_roundtrip)

theorem history_pages_witness:
  "\<exists>page. store_history ref_ext demo_store_ext demo_store demo_history = Inr page
     \<and> map ss_id (hp_snapshots page) = [1] \<and> hp_next_before_id page = None"
proof -
  have rows: "history_rows demo_store demo_history = [hd (st_rows demo_store)]"
    by (simp add: history_rows_def demo_store_def history_filter_def demo_history_def id_filter_def)
  then obtain page where p: "store_history ref_ext demo_store_ext demo_store demo_history = Inr page"
      "hp_next_before_id page = None"
    using demo_from_row
    by (simp add: store_history_def validate_page_def validate_range_def check_ids_def blank_letter
        ws1_def byte_def demo_store_ext_def) (simp add: demo_history_def blank_letter ws1_def byte_def)
  from history_pages_enumerate [OF demo_store_inv p(1)] p rows show ?thesis
    by (auto simp: demo_store_def take_Cons' split: if_splits)
qed

text \<open>
  \<open>latest\<close> returns, in the order of the source identifiers, for each source of the run its
  most recent stored observation, tracker events excluded; a source that has one and comes no later
  than the reported continuation is not left out.
\<close>

theorem latest_reports_last_observations:
  assumes inv: "store_inv db" "heads_inv X db" and res: "store_latest X Y db req = Inr resp"
  shows "(\<forall>s \<in> set (lr_snapshots resp). observations X db (lq_run_id req) (ss_source_id s) \<noteq> []
       \<and> from_row X (last (observations X db (lq_run_id req) (ss_source_id s))) = Inr s)
    \<and> sorted_wrt (<) (map ss_source_id (lr_snapshots resp))
    \<and> (\<forall>src. observations X db (lq_run_id req) src \<noteq> [] \<longrightarrow> id_filter (lq_source_ids req) src \<longrightarrow>
         (case lq_after_source_id req of None \<Rightarrow> True | Some a \<Rightarrow> a < src) \<longrightarrow>
         (case lr_next_source_id resp of None \<Rightarrow> True | Some n \<Rightarrow> src \<le> n) \<longrightarrow>
         src \<in> ss_source_id ` set (lr_snapshots resp))"
proof -
  let ?run = "lq_run_id req" and ?l = "lq_limit req"
  let ?all = "latest_heads db req"
  let ?hs = "take (?l + 1) ?all"
  let ?rows = "head_rows db ?hs"
  obtain ss left where p: "page_rows X Y ?l PAGE_ENVELOPE_RESERVE [] ?rows = Inr (ss, left)"
    and l: "0 < ?l" and resp: "resp = \<lparr>lr_snapshots = ss,
        lr_next_source_id = (if left then Some (ss_source_id (last ss)) else None)\<rparr>"
    using res by (auto simp: store_latest_def validate_page_def result_iffs Let_def head_rows_def)
  note hs = latest_heads_sorted [OF inv(2), of req]
  have sub: "set ?hs \<subseteq> set (st_heads db)" "\<forall>h \<in> set ?hs. fst (fst h) = ?run"
    using hs(2,3) by (auto dest: in_set_takeD)
  have srt: "sorted_wrt (<) (map (snd \<circ> fst) ?hs)"
    using sorted_wrt_take [OF hs(1), of "?l + 1"] by (simp only: take_map)
  note rows = head_rows_sources [OF inv sub srt]
  have "length ([] :: stored_snapshot list) \<le> ?l" by simp
  from page_rows_result [OF p this]
  obtain k ys where k: "k \<le> length ?rows" "ss = [] @ ys"
      "list_all2 (\<lambda>r s. from_row X r = Inr s) (take k ?rows) ys"
      "length ss \<le> ?l" "left \<longleftrightarrow> k < length ?rows" "left \<longrightarrow> ?l = 0 \<or> ss \<noteq> []"
    by (elim exE conjE) (rule that)
  have src: "map ss_source_id ss = take k (map (snd \<circ> fst) ?hs)"
    using list_all2_sources [OF k(3)] k(2) rows(1) by (metis append_Nil take_map)
  have part1: "\<forall>s \<in> set ss. observations X db ?run (ss_source_id s) \<noteq> []
      \<and> from_row X (last (observations X db ?run (ss_source_id s))) = Inr s"
  proof
    fix s
    assume "s \<in> set ss"
    then obtain r where r: "r \<in> set ?rows" "from_row X r = Inr s" "row_source_id r = ss_source_id s"
      using page_members [OF k(3), of s] k(2) by (simp only: append_Nil) blast
    from bspec [OF rows(2) r(1)] r(2,3) show "observations X db ?run (ss_source_id s) \<noteq> []
        \<and> from_row X (last (observations X db ?run (ss_source_id s))) = Inr s" by metis
  qed
  have part2: "sorted_wrt (<) (map ss_source_id ss)" unfolding src by (rule sorted_wrt_take [OF srt])
  have "src \<in> ss_source_id ` set ss"
    if o: "observations X db ?run src \<noteq> []" and f: "id_filter (lq_source_ids req) src"
      and a: "case lq_after_source_id req of None \<Rightarrow> True | Some a \<Rightarrow> a < src"
      and n: "case lr_next_source_id resp of None \<Rightarrow> True | Some n \<Rightarrow> src \<le> n" for src
  proof -
    let ?A = "map (snd \<circ> fst) ?all"
    have len: "length ss = k" "length ?rows = length ?hs" "k \<le> ?l + 1"
      using list_all2_lengthD [OF k(3)] k(1,2) arg_cong [OF rows(1), of length] by auto
    have A: "map ss_source_id ss = take k ?A"
      unfolding src take_map using len(3) by (simp add: min_def)
    have "bm_get (st_heads db) (?run, src) = Some (row_id (last (observations X db ?run src)))"
      using inv(2) o by (simp add: heads_inv_def)
    then have "((?run, src), row_id (last (observations X db ?run src))) \<in> set ?all"
      using inv(2) f a bm.get_iff_entry [of "st_heads db" "(?run, src)"]
      by (simp add: latest_heads_def heads_inv_def id_filter_def)
    then have mem: "src \<in> set ?A" by force
    have "length ?A \<le> k \<or> (0 < k \<and> k \<le> length ?A \<and> src \<le> ?A ! (k - 1))"
    proof (cases left)
      case True
      then have "ss \<noteq> []" using k(6) l by simp
      then have kp: "0 < k" using len(1) by auto
      have kA: "k \<le> length ?A" using k(1) len(2) by simp
      have "ss_source_id (last ss) = last (take k ?A)"
        using \<open>ss \<noteq> []\<close> A by (metis last_map)
      also have "\<dots> = ?A ! (k - 1)"
        using last_map_take [OF kp kA, of "\<lambda>x. x"] by simp
      finally show ?thesis using n True kp kA by (simp add: resp)
    next
      case False
      then have "length ?hs = k" using k(1,5) len(2) by simp
      then have "length ?all \<le> k" using k(4) len(1) by auto
      then show ?thesis by simp
    qed
    then have "src \<in> set (take k ?A)" by (rule mem_take_sorted [OF hs(1) mem])
    then show ?thesis using A by (metis list.set_map)
  qed
  with part1 part2 resp show ?thesis by simp
qed

lemma heads_inv_empty: "heads_inv X (empty_store ix)"
  by (simp add: heads_inv_def empty_store_def observations_def)

lemma demo_heads: "heads_inv ref_ext demo_store"
  by (rule heads_inv_ingest_page [OF heads_inv_empty ref_roundtrip_codec demo_wf demo_ingest])

definition demo_latest :: latest_request where
  "demo_latest = \<lparr>lq_run_id = ''r'', lq_source_ids = [], lq_limit = 10, lq_after_source_id = None\<rparr>"

theorem latest_reports_witness:
  "\<exists>resp. store_latest ref_ext demo_store_ext demo_store demo_latest = Inr resp
     \<and> sorted_wrt (<) (map ss_source_id (lr_snapshots resp))"
proof -
  have "store_latest ref_ext demo_store_ext demo_store demo_latest =
      Inr \<lparr>lr_snapshots = [\<lparr>ss_id = 1, ss_run_id = ''r'', ss_source_id = ''x'',
        ss_ingested_at_ns = 9, ss_snapshot = demo_snapshot ''2'' 1\<rparr>], lr_next_source_id = None\<rparr>"
    using demo_from_row
    by (simp add: store_latest_def validate_page_def check_ids_def Let_def latest_heads_def
        demo_latest_def id_filter_def demo_store_ext_def demo_store_def blank_letter ws1_def byte_def)
  from latest_reports_last_observations [OF demo_store_inv demo_heads this] this show ?thesis by blast
qed

text \<open>
  C11. A structural difference is sound and complete: every reported change names by a valid JSON
  pointer a place where the two states hold the reported, different values, and says whether a value
  was added, removed or changed; and unless the report is truncated, wherever the two states differ
  a change is reported on the path: at the place, above it, or below it.
\<close>

theorem diff_sound_and_complete:
  assumes "store_diff X Y db b a = Inr out"
    and "\<forall>key r s. List.find (\<lambda>r. row_id r = key) (st_rows db) = Some r \<longrightarrow>
           from_str_snapshot X (row_json r) = Inr s \<longrightarrow> snapshot_wf s"
  shows "\<exists>before after. (\<exists>r. List.find (\<lambda>r. row_id r = b) (st_rows db) = Some r
             \<and> from_str_snapshot X (row_json r) = Inr before)
       \<and> (\<exists>r. List.find (\<lambda>r. row_id r = a) (st_rows db) = Some r
             \<and> from_str_snapshot X (row_json r) = Inr after)
       \<and> (\<forall>c \<in> set (df_changes out). \<exists>ts. ch_path c = render ts \<and> pointer_escapes_ok (ch_path c)
             \<and> ch_before c = resolve (Some (s_state before)) ts
             \<and> ch_after c = resolve (Some (s_state after)) ts \<and> ch_before c \<noteq> ch_after c
             \<and> ch_kind c = (if ch_before c = None then Added else if ch_after c = None then Removed else Changed))
       \<and> (\<not> df_truncated out \<longrightarrow>
            (\<forall>ts. resolve (Some (s_state before)) ts \<noteq> resolve (Some (s_state after)) ts \<longrightarrow>
               (\<exists>c \<in> set (df_changes out). \<exists>us. ch_path c = render us \<and> on_path us ts
                  \<and> ch_before c = resolve (Some (s_state before)) us
                  \<and> ch_after c = resolve (Some (s_state after)) us)))"
proof -
  let ?st0 = "\<lparr>df_changes = [], df_truncated = False, df_bytes = PAGE_ENVELOPE_RESERVE\<rparr>"
  obtain before after rb ra where l:
      "List.find (\<lambda>r. row_id r = b) (st_rows db) = Some rb" "from_str_snapshot X (row_json rb) = Inr before"
      "List.find (\<lambda>r. row_id r = a) (st_rows db) = Some ra" "from_str_snapshot X (row_json ra) = Inr after"
    and d: "diff_values Y [] (Some (s_state before)) (Some (s_state after)) ?st0 = Inr out"
    using assms(1) by (auto simp: store_diff_def result_iffs Let_def)
  have "opt_wf (Some (s_state before))" "opt_wf (Some (s_state after))"
    using assms(2) l by (auto simp: opt_wf_def snapshot_wf_def)
  from diff_reports [OF this d]
  have changes: "\<forall>c \<in> set (df_changes out). \<exists>ts. change_at [] (Some (s_state before)) (Some (s_state after)) ts c"
    and all: "\<not> df_truncated out \<longrightarrow> covers [] (Some (s_state before)) (Some (s_state after)) (set (df_changes out))"
    by (auto simp: reports_def)
  have sound: "\<forall>c \<in> set (df_changes out). \<exists>ts. ch_path c = render ts \<and> pointer_escapes_ok (ch_path c)
             \<and> ch_before c = resolve (Some (s_state before)) ts
             \<and> ch_after c = resolve (Some (s_state after)) ts \<and> ch_before c \<noteq> ch_after c
             \<and> ch_kind c = (if ch_before c = None then Added else if ch_after c = None then Removed else Changed)"
    using changes pointer_escapes_render unfolding change_at_def append_Nil by metis
  have complete: "\<not> df_truncated out \<longrightarrow>
            (\<forall>ts. resolve (Some (s_state before)) ts \<noteq> resolve (Some (s_state after)) ts \<longrightarrow>
               (\<exists>c \<in> set (df_changes out). \<exists>us. ch_path c = render us \<and> on_path us ts
                  \<and> ch_before c = resolve (Some (s_state before)) us
                  \<and> ch_after c = resolve (Some (s_state after)) us))"
    using all unfolding covers_def change_at_def append_Nil by blast
  show ?thesis using l sound complete by blast
qed

text \<open>Two snapshots with different values of one field, of which one is added, too.\<close>

definition diff_store :: "unit store" where
  "diff_store = demo_store\<lparr>st_rows := st_rows demo_store @ [\<lparr>row_id = 2, row_run_id = ''r'', row_source_id = ''x'',
       row_session_id = ''s'', row_sequence = 2, row_observed_at_ns = 7, row_ingested_at_ns = 9,
       row_json = enc_snapshot (demo_snapshot ''2'' 2\<lparr>s_state :=
         JObject [(''a/b'', JNull), (''loss'', JNumber ''1'')]\<rparr>)\<rparr>]\<rparr>"

lemma diff_store_rows:
  "List.find (\<lambda>r. row_id r = 1) (st_rows diff_store) = Some (hd (st_rows diff_store))"
  "List.find (\<lambda>r. row_id r = 2) (st_rows diff_store) = Some (last (st_rows diff_store))"
  "from_str_snapshot ref_ext (row_json (hd (st_rows diff_store))) = Inr (demo_snapshot ''2'' 1)"
  "from_str_snapshot ref_ext (row_json (last (st_rows diff_store)))
     = Inr (demo_snapshot ''2'' 2\<lparr>s_state := JObject [(''a/b'', JNull), (''loss'', JNumber ''1'')]\<rparr>)"
  by (simp_all add: diff_store_def demo_store_def ref_roundtrip)

lemma diff_store_wf:
  assumes "List.find (\<lambda>r. row_id r = key) (st_rows diff_store) = Some r" "from_str_snapshot ref_ext (row_json r) = Inr s"
  shows "snapshot_wf s"
proof -
  have "s \<in> {demo_snapshot ''2'' 1, demo_snapshot ''2'' 2\<lparr>s_state := JObject [(''a/b'', JNull), (''loss'', JNumber ''1'')]\<rparr>}"
    using assms by (auto simp: diff_store_def demo_store_def ref_roundtrip split: if_splits)
  then show ?thesis
    by (auto simp: snapshot_wf_def demo_snapshot_def json_subvalues.simps json_object_sorted_def bm_sorted_def)
qed

theorem diff_witness:
  "\<exists>out. store_diff ref_ext demo_store_ext diff_store 1 2 = Inr out
     \<and> map ch_path (df_changes out) = [''/a~1b'', ''/loss'']
     \<and> (\<exists>c \<in> set (df_changes out). \<exists>us. ch_path c = render us \<and> on_path us [Key ''loss''])"
proof -
  let ?a = "JObject [(''loss'', JNumber ''2'')]" and ?b = "JObject [(''a/b'', JNull), (''loss'', JNumber ''1'')]"
  have keys: "bset_of_list [''loss'', ''a/b'', ''loss''] = [''a/b'', ''loss'']" by code_simp
  have "\<exists>out. diff_values demo_store_ext [] (Some ?a) (Some ?b)
      \<lparr>df_changes = [], df_truncated = False, df_bytes = PAGE_ENVELOPE_RESERVE\<rparr> = Inr out
    \<and> map ch_path (df_changes out) = [''/a~1b'', ''/loss''] \<and> \<not> df_truncated out"
    by (simp add: diff_values.simps [of _ _ "Some (JObject kvs)" for kvs] diff_values.simps [of _ _ None]
        diff_values.simps [of _ _ "Some (JNumber n)" for n] keys report_change_def demo_store_ext_def Let_def)
  then obtain out where d: "diff_values demo_store_ext [] (Some ?a) (Some ?b)
      \<lparr>df_changes = [], df_truncated = False, df_bytes = PAGE_ENVELOPE_RESERVE\<rparr> = Inr out"
      "map ch_path (df_changes out) = [''/a~1b'', ''/loss'']" "\<not> df_truncated out"
    by (elim exE conjE) (rule that)
  have states: "s_state (demo_snapshot ''2'' 1) = ?a" "s_state (demo_snapshot ''2'' 2\<lparr>s_state := ?b\<rparr>) = ?b"
    by (simp_all add: demo_snapshot_def)
  have out: "store_diff ref_ext demo_store_ext diff_store 1 2 = Inr out"
    by (simp add: store_diff_def diff_store_rows Let_def demo_snapshot_def d(1) [simplified])
  have wf: "\<forall>key r s. List.find (\<lambda>r. row_id r = key) (st_rows diff_store) = Some r \<longrightarrow>
      from_str_snapshot ref_ext (row_json r) = Inr s \<longrightarrow> snapshot_wf s"
    using diff_store_wf by blast
  from diff_sound_and_complete [OF out wf] obtain before after where
    loaded: "from_str_snapshot ref_ext (row_json (hd (st_rows diff_store))) = Inr before"
      "from_str_snapshot ref_ext (row_json (last (st_rows diff_store))) = Inr after"
    and complete: "\<not> df_truncated out \<longrightarrow>
            (\<forall>ts. resolve (Some (s_state before)) ts \<noteq> resolve (Some (s_state after)) ts \<longrightarrow>
               (\<exists>c \<in> set (df_changes out). \<exists>us. ch_path c = render us \<and> on_path us ts
                  \<and> ch_before c = resolve (Some (s_state before)) us
                  \<and> ch_after c = resolve (Some (s_state after)) us))"
    unfolding diff_store_rows(1,2) by blast
  have "s_state before = ?a" "s_state after = ?b"
    using loaded diff_store_rows(3,4) states by simp_all
  then have "resolve (Some (s_state before)) [Key ''loss''] \<noteq> resolve (Some (s_state after)) [Key ''loss'']" by simp
  with complete d(3) have "\<exists>c \<in> set (df_changes out). \<exists>us. ch_path c = render us \<and> on_path us [Key ''loss'']" by blast
  with out d(2) show ?thesis by (intro exI [of _ out] conjI)
qed

text \<open>
  Down-sampling keeps \<open>count\<close> positions of the series in increasing order, always the last
  one, and never hides a gap: between two neighbouring kept positions that both have a value, no
  omitted position lacks one.
\<close>

theorem sampling_keeps_gaps:
  assumes "0 < count" and "count \<le> len"
  shows "length (sample_positions len count missing) = count
    \<and> sorted_wrt (<) (sample_positions len count missing)
    \<and> last (sample_positions len count missing) = len - 1
    \<and> (\<forall>k. Suc k < count \<longrightarrow>
         \<not> missing (sample_positions len count missing ! k) \<longrightarrow>
         \<not> missing (sample_positions len count missing ! Suc k) \<longrightarrow>
         (\<forall>i. sample_positions len count missing ! k < i \<longrightarrow>
              i < sample_positions len count missing ! Suc k \<longrightarrow> \<not> missing i))"
proof -
  note s = sample_positions_sampled [OF assms, of missing]
  have "sorted_wrt (<) (sample_positions len count missing)"
    using s(1) by (simp add: sampled_from_def steps_up_def sorted_wrt_iff_nth_Suc_transp)
  with s show ?thesis by (auto simp: sampled_from_def gap_shown_def)
qed

theorem sampling_witness:
  "sample_positions 5 2 (\<lambda>i. i = 2) = [2, 4] \<and> last (sample_positions 5 2 (\<lambda>i. i = 2)) = 4"
proof -
  have "sample_positions 5 2 (\<lambda>i. i = 2) = [2, 4]" by code_simp
  with sampling_keeps_gaps [of 2 5 "\<lambda>i. i = 2"] show ?thesis by simp
qed

text \<open>A stored row is found by its identifier.\<close>

lemma find_row_get:
  assumes inv: "store_inv db" and r: "find_row db src ses n = Some r" "from_str_snapshot X (row_json r) = Inr s"
  shows "\<exists>key stored. store_get X db key = Inr stored \<and> ss_snapshot stored = s
    \<and> ss_run_id stored = row_run_id r \<and> ss_source_id stored = src \<and> ss_id stored = key"
proof -
  note mem = find_row_Some [OF r(1)]
  have "row_id r \<in> set [1..st_last_id db]" using inv mem by (metis image_eqI list.set_map store_inv_def)
  then have pos: "0 < row_id r" by simp
  have "List.find (\<lambda>q. row_id q = row_id r) (st_rows db) = Some r"
  proof (cases "List.find (\<lambda>q. row_id q = row_id r) (st_rows db)")
    case None
    with mem show ?thesis by (auto simp: find_None_iff)
  next
    case (Some q)
    then have "q \<in> set (st_rows db)" "row_id q = row_id r" by (auto simp: find_Some_iff)
    with row_id_inj [OF inv] mem Some show ?thesis by blast
  qed
  with pos r mem show ?thesis
    by (intro exI [of _ "row_id r"] exI) (auto simp: store_get_def from_row_def row_of_def)
qed

text \<open>
  C9. What was accepted can be read back: every snapshot of an accepted page is returned, unchanged
  and under its run and source, by \<open>get\<close> with some positive identifier.
\<close>

theorem ingest_readback:
  assumes "store_reachable X project db" and "roundtrip_codec X"
    and "\<forall>s \<in> set (h_snapshots page). snapshot_wf s"
    and "ingest_page X project clock db source descriptor page = Inr (k, db')"
    and "s \<in> set (h_snapshots page)"
  shows "\<exists>key stored. store_get X db' key = Inr stored \<and> ss_snapshot stored = s
    \<and> ss_run_id stored = src_run_id source \<and> ss_source_id stored = src_id source \<and> ss_id stored = key"
proof -
  have inv: "store_inv db'" by (rule store_inv_ingest_page [OF store_reachable_inv [OF assms(1)] assms(4)])
  obtain r where r: "find_row db' (src_id source) (h_source_session_id page) (s_sequence s) = Some r"
      "row_run_id r = src_run_id source" "from_str_snapshot X (row_json r) = Inr s"
    using ingest_page_confirmed [OF assms(2-5)] by blast
  from find_row_get [OF inv r(1,3)] r(2) show ?thesis by simp
qed

theorem ingest_readback_witness:
  "\<exists>key stored. store_get ref_ext demo_store key = Inr stored \<and> ss_snapshot stored = demo_snapshot ''2'' 1"
  using ingest_readback [OF store_reachable.opened ref_roundtrip_codec demo_wf demo_ingest,
      of "demo_snapshot ''2'' 1"]
  by (auto simp: demo_page_def)

end
