(* ===== verification/Engine_Control.thy ===== *)
theory Engine_Control
  imports Repo_Props Store_Props
begin

text \<open>
  The control operations of \<open>Engine\<close> (\<open>rust/rvx-engine/src/lib.rs\<close>) over the metadata
  repository and the snapshot store: named hierarchies, registration of sources, state changes,
  acknowledgements, counters. URL parsing is an argument (\<open>reqwest::Url\<close>).
\<close>

record url_view =
  uv_scheme :: string
  uv_has_host :: bool
  uv_query :: "string option"
  uv_fragment :: "string option"
  uv_text :: string

type_synonym url_parser = "string \<Rightarrow> url_view option"

record engine_stats =
  es_projects :: nat
  es_experiments :: nat
  es_runs :: nat
  es_sources :: nat
  es_active_sources :: nat
  es_snapshots :: nat
  es_cursor_gaps :: nat
  es_scrape_failures :: nat

definition saturating_mul_u64 :: "nat \<Rightarrow> nat \<Rightarrow> nat" where
  "saturating_mul_u64 a b = min u64_max (a * b)"

definition trim_end_slash :: "string \<Rightarrow> string" where
  "trim_end_slash s = rev (dropWhile (\<lambda>c. c = CHR ''/'') (rev s))"

subsection \<open>Named hierarchies\<close>

definition find_or_create :: "'a option \<Rightarrow> repo \<Rightarrow> engine_error + 'a \<times> repo \<Rightarrow> engine_error + 'a \<times> repo" where
  "find_or_create found db create = (case found of Some x \<Rightarrow> Inr (x, db) | None \<Rightarrow> create)"

text \<open>The draws of \<open>ensure_hierarchy\<close>: one identifier and time per entity it may create.\<close>

record hierarchy_draws =
  hd_project :: "string \<times> int"
  hd_experiment :: "string \<times> int"
  hd_run :: "string \<times> int"

definition ensure_hierarchy ::
  "repo_env \<Rightarrow> hierarchy_draws \<Rightarrow> repo \<Rightarrow> string \<Rightarrow> string \<Rightarrow> string \<Rightarrow> string
     \<Rightarrow> engine_error + (project \<times> experiment_entity \<times> run) \<times> repo" where
  "ensure_hierarchy X d db project_name experiment_name name config_json =
     rbind (find_or_create (find (\<lambda>p. pj_name p = project_name) (list_projects db)) db
              (create_project (fst (hd_project d)) (snd (hd_project d)) db project_name))
       (\<lambda>(p, db1).
     rbind (find_or_create (find (\<lambda>e. ex_name e = experiment_name) (list_experiments db1 (Some (pj_id p)))) db1
              (create_experiment (fst (hd_experiment d)) (snd (hd_experiment d)) db1 (pj_id p) experiment_name))
       (\<lambda>(e, db2).
     rbind (find_or_create (find (\<lambda>r. rn_name r = name) (list_runs db2 (Some (ex_id e)))) db2
              (create_run X (fst (hd_run d)) (snd (hd_run d)) db2 (ex_id e) name config_json))
       (\<lambda>(r, db3). Inr ((p, e, r), db3))))"

subsection \<open>Sources and runs\<close>

definition engine_update_run_status :: "int \<Rightarrow> repo \<Rightarrow> string \<Rightarrow> run_status \<Rightarrow> engine_error + run \<times> repo" where
  "engine_update_run_status now db key status =
     rbind (map_err Protocol (validate_name ''run_id'' key)) (\<lambda>_. update_run_status now db key status)"

definition endpoint_error :: engine_error where
  "endpoint_error = EngineInvalid ''source endpoint must be an absolute HTTP(S) URL''"

definition candidate_source :: "string \<Rightarrow> source_registration \<Rightarrow> url_view \<Rightarrow> source" where
  "candidate_source nid g u = \<lparr>src_id = nid, src_run_id = sg_run_id g, src_attempt_id = sg_attempt_id g,
     src_role = sg_role g, src_endpoint = trim_end_slash (uv_text u),
     src_node_id = sg_node_id g, src_rank = sg_rank g, src_state = Discovered,
     src_session_id = None, src_last_success_at_ns = None, src_last_error = None,
     src_scrape_interval_ms = sg_scrape_interval_ms g, src_timeout_ms = sg_timeout_ms g,
     src_descriptor = None\<rparr>"

definition engine_register_source ::
  "repo_env \<Rightarrow> url_parser \<Rightarrow> string \<Rightarrow> repo \<Rightarrow> source_registration \<Rightarrow> engine_error + source \<times> repo" where
  "engine_register_source X parse_url nid db g =
     rbind (for_each (\<lambda>(field, value). map_err Protocol (validate_name field value))
              [(''run_id'', sg_run_id g), (''attempt_id'', sg_attempt_id g), (''role'', sg_role g),
               (''endpoint'', sg_endpoint g)])
       (\<lambda>_. rbind (ok_or endpoint_error (parse_url (sg_endpoint g)))
         (\<lambda>u. rbind (ensure (uv_scheme u \<in> {''http'', ''https''} \<and> uv_has_host u) endpoint_error)
           (\<lambda>_. rbind (ensure (uv_query u = None \<and> uv_fragment u = None)
                    (EngineInvalid ''source endpoint must be a base URL without query or fragment''))
             (\<lambda>_. rbind (ensure (50 \<le> sg_scrape_interval_ms g)
                      (EngineInvalid ''scrape_interval_ms must be at least 50''))
               (\<lambda>_. rbind (ensure (sg_timeout_ms g \<noteq> 0
                          \<and> sg_timeout_ms g < saturating_mul_u64 (sg_scrape_interval_ms g) 10)
                        (EngineInvalid ''timeout_ms must be positive and bounded''))
                 (\<lambda>_. register_source X db (candidate_source nid g u)))))))"

definition engine_update_source_state ::
  "repo_env \<Rightarrow> repo \<Rightarrow> string \<Rightarrow> source_state \<Rightarrow> engine_error + source \<times> repo" where
  "engine_update_source_state X db key state =
     rbind (map_err Protocol (validate_name ''source_id'' key))
       (\<lambda>_. rbind (ensure (state \<in> {Draining, Ended, Lost})
                (EngineInvalid ''source control state must be draining, ended, or lost''))
         (\<lambda>_. update_source_state X db key state))"

definition engine_stats :: "repo \<Rightarrow> 'ix store \<Rightarrow> nat \<Rightarrow> engine_stats" where
  "engine_stats db st failures =
     (let (projects, experiments, runs, sources, active) = counts db
      in \<lparr>es_projects = projects, es_experiments = experiments, es_runs = runs, es_sources = sources,
          es_active_sources = active, es_snapshots = store_count st, es_cursor_gaps = gap_count st,
          es_scrape_failures = failures\<rparr>)"

definition engine_persisted_cursor ::
  "repo_env \<Rightarrow> repo \<Rightarrow> 'ix store \<Rightarrow> persisted_cursor_request \<Rightarrow> engine_error + persisted_cursor_response" where
  "engine_persisted_cursor X db st req =
     rbind (source_by_id X db (pcq_source_id req))
       (\<lambda>scoped. rbind (ensure (src_run_id (sc_source scoped) = pcq_run_id req)
                    (EngineInvalid ''acknowledgment Source does not belong to Run''))
         (\<lambda>_. persisted_cursor st req))"

section \<open>Hierarchies are idempotent for names without surrounding white space\<close>

lemma find_unique:
  "x \<in> set xs \<Longrightarrow> P x \<Longrightarrow> (\<And>y. y \<in> set xs \<Longrightarrow> P y \<Longrightarrow> y = x) \<Longrightarrow> find P xs = Some x"
proof (induction xs)
  case (Cons y ys)
  show ?case
  proof (cases "P y")
    case True
    then show ?thesis using Cons.prems(3) [of y] by simp
  next
    case False
    then show ?thesis using Cons.prems Cons.IH by (metis find.simps(2) list.set_intros(2) set_ConsD)
  qed
qed simp

lemma find_none_unique:
  assumes "find P xs = None" and "set ys = insert x (set xs)" and "P x"
  shows "find P ys = Some x"
  by (rule find_unique) (use assms in \<open>auto simp: find_None_iff\<close>)

lemma project_stage:
  assumes "find_or_create (find (\<lambda>p. pj_name p = name) (list_projects db)) db (create_project nid now db name) = Inr (p, db1)"
    and "str_trim name = name" and "rp_projects db2 = rp_projects db1"
  shows "find (\<lambda>p. pj_name p = name) (list_projects db2) = Some p"
proof (cases "find (\<lambda>p. pj_name p = name) (list_projects db)")
  case None
  then have "rp_projects db1 = rp_projects db @ [p]" "pj_name p = name"
    using assms(1,2) by (auto simp: find_or_create_def create_project_def insert_project_def result_iffs Let_def split: if_split_asm)
  with None assms(3) show ?thesis by (intro find_none_unique [OF None]) (simp_all add: list_projects_def)
next
  case (Some q)
  with assms show ?thesis by (simp add: find_or_create_def list_projects_def)
qed

lemma experiment_stage:
  assumes "find_or_create (find (\<lambda>e. ex_name e = name) (list_experiments db (Some k))) db (create_experiment nid now db k name) = Inr (e, db1)"
    and "str_trim name = name" and "rp_experiments db2 = rp_experiments db1"
  shows "find (\<lambda>e. ex_name e = name) (list_experiments db2 (Some k)) = Some e" and "rp_projects db1 = rp_projects db"
proof -
  have "find (\<lambda>e. ex_name e = name) (list_experiments db2 (Some k)) = Some e \<and> rp_projects db1 = rp_projects db"
  proof (cases "find (\<lambda>e. ex_name e = name) (list_experiments db (Some k))")
    case None
    then have new: "rp_experiments db1 = rp_experiments db @ [e]" "ex_name e = name" "ex_project_id e = k"
      "rp_projects db1 = rp_projects db"
      using assms(1,2) by (auto simp: find_or_create_def create_experiment_def insert_experiment_def
          require_parent_def result_iffs Let_def split: if_split_asm)
    then have "set (list_experiments db2 (Some k)) = insert e (set (list_experiments db (Some k)))"
      using assms(3) by (auto simp: list_experiments_def)
    from find_none_unique [OF None this] new show ?thesis by simp
  next
    case (Some q)
    with assms show ?thesis by (simp add: find_or_create_def list_experiments_def)
  qed
  then show "find (\<lambda>e. ex_name e = name) (list_experiments db2 (Some k)) = Some e"
    and "rp_projects db1 = rp_projects db" by blast+
qed

lemma run_stage:
  assumes "find_or_create (find (\<lambda>r. rn_name r = name) (list_runs db (Some k))) db (create_run X nid now db k name config) = Inr (r, db1)"
    and "str_trim name = name"
  shows "find (\<lambda>r. rn_name r = name) (list_runs db1 (Some k)) = Some r"
    and "rp_projects db1 = rp_projects db" and "rp_experiments db1 = rp_experiments db"
proof -
  have "find (\<lambda>r. rn_name r = name) (list_runs db1 (Some k)) = Some r
      \<and> rp_projects db1 = rp_projects db \<and> rp_experiments db1 = rp_experiments db"
  proof (cases "find (\<lambda>r. rn_name r = name) (list_runs db (Some k))")
    case None
    then obtain row where "rp_runs db1 = rp_runs db @ [row]" "rr_experiment_id row = k" "run_from_row row = r"
      and rest: "rn_name r = name" "rp_projects db1 = rp_projects db" "rp_experiments db1 = rp_experiments db"
      using assms(1,2) by (auto simp: find_or_create_def create_run_def insert_run_def
          require_parent_def result_iffs Let_def run_from_row_def parse_run_status_def split: if_split_asm)
    then have "set (list_runs db1 (Some k)) = insert r (set (list_runs db (Some k)))"
      by (auto simp: list_runs_def)
    from find_none_unique [OF None this] rest show ?thesis by simp
  next
    case (Some q)
    with assms show ?thesis by (simp add: find_or_create_def)
  qed
  then show "find (\<lambda>r. rn_name r = name) (list_runs db1 (Some k)) = Some r"
    and "rp_projects db1 = rp_projects db" and "rp_experiments db1 = rp_experiments db" by blast+
qed

text \<open>
  For names without surrounding white space the named hierarchy is created once: repeating the
  call returns the same project, experiment and run and leaves the database unchanged.
\<close>

theorem hierarchy_idempotent:
  assumes "ensure_hierarchy X d db p e n config = Inr (result, db')"
    and "str_trim p = p" and "str_trim e = e" and "str_trim n = n"
  shows "ensure_hierarchy X d' db' p e n config = Inr (result, db')"
proof -
  obtain pr db1 ex db2 r
    where 1: "find_or_create (find (\<lambda>q. pj_name q = p) (list_projects db)) db
          (create_project (fst (hd_project d)) (snd (hd_project d)) db p) = Inr (pr, db1)"
      and 2: "find_or_create (find (\<lambda>q. ex_name q = e) (list_experiments db1 (Some (pj_id pr)))) db1
          (create_experiment (fst (hd_experiment d)) (snd (hd_experiment d)) db1 (pj_id pr) e) = Inr (ex, db2)"
      and 3: "find_or_create (find (\<lambda>q. rn_name q = n) (list_runs db2 (Some (ex_id ex)))) db2
          (create_run X (fst (hd_run d)) (snd (hd_run d)) db2 (ex_id ex) n config) = Inr (r, db')"
      and res: "result = (pr, ex, r)"
    using assms(1) unfolding ensure_hierarchy_def by (auto simp: rbind_eq_Inr)
  note runs = run_stage [OF 3 assms(4)]
  note exps = experiment_stage [OF 2 assms(3) runs(3)]
  have "find (\<lambda>q. pj_name q = p) (list_projects db') = Some pr"
    by (rule project_stage [OF 1 assms(2)]) (simp add: runs(2) exps(2))
  then show ?thesis using runs(1) exps(1) res by (simp add: ensure_hierarchy_def find_or_create_def)
qed


lemma demo_hierarchy:
  "ensure_hierarchy demo_env \<lparr>hd_project = (''p1'', 5), hd_experiment = (''e1'', 5), hd_run = (''r'', 5)\<rparr>
     empty_repo ''p'' ''e'' ''n'' ''o0,''
   = Inr ((hd (rp_projects demo_repo), hd (rp_experiments demo_repo), run_from_row (hd (rp_runs demo_repo))), demo_repo)"
  by (simp add: ensure_hierarchy_def find_or_create_def list_projects_def list_experiments_def list_runs_def
      create_project_def create_experiment_def create_run_def validate_name_def blank_def trim_letter
      ws1_def byte_def demo_config require_parent_def insert_project_def insert_experiment_def insert_run_def
      empty_repo_def Let_def run_from_row_def demo_repo_def parse_run_status_def)

theorem hierarchy_witness:
  "\<exists>result. ensure_hierarchy demo_env \<lparr>hd_project = (''q'', 9), hd_experiment = (''f'', 9), hd_run = (''z'', 9)\<rparr>
     demo_repo ''p'' ''e'' ''n'' ''o0,'' = Inr (result, demo_repo)"
  using hierarchy_idempotent [OF demo_hierarchy] by (auto simp: trim_letter ws1_def byte_def)

text \<open>
  The call is not idempotent for other names: the stored name is trimmed but the lookup compares
  the name as given, so a padded project name whose trimmed form is already stored is neither found
  nor accepted, and the call fails with a uniqueness error (and the same for an experiment name).
\<close>

theorem hierarchy_padded_name_fails:
  assumes "\<not> blank p" and "p \<notin> pj_name ` set (rp_projects db)"
    and "str_trim p \<in> pj_name ` set (rp_projects db)"
    and "fst (hd_project d) \<notin> pj_id ` set (rp_projects db)"
  shows "ensure_hierarchy X d db p e n config = Inl (Sqlite ''UNIQUE constraint failed: projects.name'')"
proof -
  have "find (\<lambda>q. pj_name q = p) (list_projects db) = None"
    using assms(2) by (auto simp: find_None_iff list_projects_def)
  with assms show ?thesis
    by (simp add: ensure_hierarchy_def find_or_create_def create_project_def validate_name_def
        insert_project_def Let_def)
qed

lemma trim_padded: "str_trim '' p'' = ''p''"
  by (simp add: str_trim_def trim_start.simps trim_rev.simps ws1_def ws2_def byte_def)

theorem hierarchy_padded_witness:
  "ensure_hierarchy demo_env \<lparr>hd_project = (''q'', 9), hd_experiment = (''f'', 9), hd_run = (''z'', 9)\<rparr>
     demo_repo '' p'' ''e'' ''n'' ''o0,'' = Inl (Sqlite ''UNIQUE constraint failed: projects.name'')"
  by (rule hierarchy_padded_name_fails) (simp_all add: blank_def trim_padded demo_repo_def)


section \<open>Registration\<close>

lemma source_from_row_cols:
  assumes "source_from_row X db q = Inr s"
  shows "src_id s = sr_id q \<and> src_run_id s = sr_run_id q \<and> src_attempt_id s = sr_attempt_id q
    \<and> src_role s = sr_role q \<and> src_endpoint s = sr_endpoint q \<and> src_rank s = sr_rank q
    \<and> src_state s = parse_source_state (sr_state q) \<and> src_session_id s = sr_session_id q
    \<and> src_scrape_interval_ms s = i64_as_u64 (sr_scrape_interval_ms q)
    \<and> src_timeout_ms s = i64_as_u64 (sr_timeout_ms q)"
  using assms unfolding source_from_row_def by (auto simp: rbind_eq_Inr)

text \<open>The row that a registration leaves, from the row the endpoint had before.\<close>

definition renewed_row :: "source \<Rightarrow> source_row \<Rightarrow> source_row" where
  "renewed_row s q = q\<lparr>sr_attempt_id := src_attempt_id s, sr_role := src_role s,
     sr_node_id := src_node_id s, sr_rank := src_rank s,
     sr_scrape_interval_ms := u64_as_i64 (src_scrape_interval_ms s),
     sr_timeout_ms := u64_as_i64 (src_timeout_ms s)\<rparr>"

lemma find_map_here:
  assumes "find P xs = Some x" and "\<And>y. P (if P y then f y else y) = P y"
  shows "find P (map (\<lambda>y. if P y then f y else y) xs) = Some (f x)"
  using assms(1) by (induction xs) (auto simp: assms(2) split: if_split_asm)

lemma register_source_row:
  assumes "register_source X db s = Inr (s', db')"
  shows "\<exists>row. source_from_row X db' row = Inr s' \<and>
    (case find (\<lambda>q. sr_run_id q = src_run_id s \<and> sr_endpoint q = src_endpoint s) (rp_sources db) of
       Some q \<Rightarrow> row = renewed_row s q \<and> length (rp_sources db') = length (rp_sources db)
     | None \<Rightarrow> row = new_source_row s \<and> rp_sources db' = rp_sources db @ [row])"
proof -
  let ?here = "\<lambda>q. sr_run_id q = src_run_id s \<and> sr_endpoint q = src_endpoint s"
  obtain row where up: "upsert_source s db = Inr db'"
    and row: "find ?here (rp_sources db') = Some row" "source_from_row X db' row = Inr s'"
    using assms unfolding register_source_def source_by_run_endpoint_def
    by (auto simp: result_iffs split: option.splits)
  show ?thesis
  proof (cases "find ?here (rp_sources db)")
    case None
    then have "\<not> list_ex ?here (rp_sources db)" by (auto simp: find_None_iff list_ex_iff)
    with up have new: "rp_sources db' = rp_sources db @ [new_source_row s]"
      unfolding upsert_source_def Let_def by (auto split: if_split_asm)
    with row(1) None have "row = new_source_row s" by (simp add: find_snoc split: if_split_asm)
    with None new row(2) show ?thesis by auto
  next
    case (Some q)
    then have "list_ex ?here (rp_sources db)" using find_SomeD by (fastforce simp: list_ex_iff)
    with up have upd: "rp_sources db' = map (\<lambda>r. if ?here r then renewed_row s r else r) (rp_sources db)"
      unfolding upsert_source_def Let_def renewed_row_def by (auto split: if_split_asm)
    have "find ?here (rp_sources db') = Some (renewed_row s q)"
      unfolding upd by (rule find_map_here [OF Some]) (simp add: renewed_row_def)
    with row(1) have "row = renewed_row s q" by simp
    with Some row(2) upd show ?thesis by auto
  qed
qed

text \<open>
  Registration validates its bounds and is an upsert on (run, endpoint): a new endpoint gets the
  drawn identifier and the state \<open>discovered\<close>; a known endpoint keeps its identifier, lifecycle
  state and session and only its attempt, role and timing are renewed, as requested.
\<close>

theorem registration_upserts:
  assumes "engine_register_source X parse_url nid db g = Inr (s, db')"
    and "sg_scrape_interval_ms g \<le> u64_max" and "sg_timeout_ms g \<le> u64_max"
  shows "50 \<le> sg_scrape_interval_ms g \<and> 0 < sg_timeout_ms g \<and> sg_timeout_ms g < 10 * sg_scrape_interval_ms g
    \<and> src_run_id s = sg_run_id g \<and> src_attempt_id s = sg_attempt_id g \<and> src_role s = sg_role g
    \<and> src_scrape_interval_ms s = sg_scrape_interval_ms g \<and> src_timeout_ms s = sg_timeout_ms g
    \<and> (case find (\<lambda>q. sr_run_id q = sg_run_id g \<and> sr_endpoint q = src_endpoint s) (rp_sources db) of
         Some q \<Rightarrow> src_id s = sr_id q \<and> src_state s = parse_source_state (sr_state q)
           \<and> src_session_id s = sr_session_id q \<and> length (rp_sources db') = length (rp_sources db)
       | None \<Rightarrow> src_id s = nid \<and> src_state s = Discovered \<and> src_session_id s = None
           \<and> length (rp_sources db') = length (rp_sources db) + 1)"
proof -
  obtain u where bounds: "50 \<le> sg_scrape_interval_ms g" "sg_timeout_ms g \<noteq> 0"
      "sg_timeout_ms g < saturating_mul_u64 (sg_scrape_interval_ms g) 10"
    and reg: "register_source X db (candidate_source nid g u) = Inr (s, db')"
    using assms(1) unfolding engine_register_source_def rbind_eq_Inr ensure_eq_Inr
    by (elim exE conjE) (rule that)
  let ?s = "candidate_source nid g u"
  from register_source_row [OF reg] obtain row
    where row: "source_from_row X db' row = Inr s"
      and c: "case find (\<lambda>q. sr_run_id q = src_run_id ?s \<and> sr_endpoint q = src_endpoint ?s) (rp_sources db) of
       Some q \<Rightarrow> row = renewed_row ?s q \<and> length (rp_sources db') = length (rp_sources db)
     | None \<Rightarrow> row = new_source_row ?s \<and> rp_sources db' = rp_sources db @ [row]" by blast
  have "sg_timeout_ms g < 10 * sg_scrape_interval_ms g" using bounds(3) by (simp add: saturating_mul_u64_def)
  note base = this bounds(1,2) source_from_row_cols [OF row] assms(2,3)
  show ?thesis
  proof (cases "find (\<lambda>q. sr_run_id q = src_run_id ?s \<and> sr_endpoint q = src_endpoint ?s) (rp_sources db)")
    case None
    with c have "row = new_source_row ?s" "length (rp_sources db') = length (rp_sources db) + 1" by simp_all
    with base None show ?thesis
      by (simp add: new_source_row_def candidate_source_def i64_as_u64_as_i64 parse_source_state_def)
  next
    case (Some q)
    with c have "row = renewed_row ?s q" "length (rp_sources db') = length (rp_sources db)" by simp_all
    moreover have "sr_run_id q = sg_run_id g" "sr_endpoint q = src_endpoint ?s"
      using find_SomeD [OF Some] by (simp_all add: candidate_source_def)
    ultimately show ?thesis using base Some
      by (simp add: renewed_row_def candidate_source_def i64_as_u64_as_i64)
  qed
qed


definition demo_url :: url_parser where
  "demo_url s = Some \<lparr>uv_scheme = ''http'', uv_has_host = True, uv_query = None, uv_fragment = None, uv_text = s\<rparr>"

definition demo_registration :: source_registration where
  "demo_registration = \<lparr>sg_run_id = ''r'', sg_attempt_id = ''b'', sg_role = ''w'', sg_endpoint = ''h'',
     sg_node_id = None, sg_rank = None, sg_scrape_interval_ms = 200, sg_timeout_ms = 100\<rparr>"

theorem registration_witness:
  "\<exists>s db'. engine_register_source demo_env demo_url ''y'' demo_sourced demo_registration = Inr (s, db')
     \<and> src_id s = ''x'' \<and> src_state s = Discovered \<and> src_scrape_interval_ms s = 200"
proof -
  obtain s db' where r: "engine_register_source demo_env demo_url ''y'' demo_sourced demo_registration = Inr (s, db')"
    and "src_endpoint s = ''h''"
    by (simp add: engine_register_source_def demo_registration_def demo_url_def candidate_source_def
        trim_end_slash_def validate_name_def blank_def trim_letter ws1_def byte_def saturating_mul_u64_def
        register_source_def require_parent_def upsert_source_def source_by_run_endpoint_def
        source_from_row_def bm_get_def Let_def demo_sourced_def demo_repo_def new_source_row_def demo_registered_def)
  have "sg_scrape_interval_ms demo_registration \<le> u64_max" "sg_timeout_ms demo_registration \<le> u64_max"
    by (simp_all add: demo_registration_def)
  note up = registration_upserts [OF r this]
  with up \<open>src_endpoint s = ''h''\<close> show ?thesis using r
    by (intro exI [of _ s] exI [of _ db'])
      (simp add: demo_registration_def demo_sources, simp add: new_source_row_def demo_registered_def parse_source_state_def)
qed

end
