(* ===== verification/Ingestion.thy ===== *)
theory Ingestion
  imports Engine_Control
begin

text \<open>
  Grouped ingestion (\<open>rust/rvx-engine/src/ingestion.rs\<close>, timings of \<open>diagnostics.rs\<close>): scraped
  pages wait in a bounded channel; one worker takes them in groups, writes a group to the snapshot
  store in one transaction, records the successes in the metadata database, and only then answers.

  The channel is the list of waiting pages, a page that did not fit a group is \<open>deferred\<close> to the
  next. Answers are the list \<open>wk_replies\<close>, in the order they are sent. What a write observes from
  outside (clocks, durations, a failure of either transaction itself) is the record \<open>io\<close>.
\<close>

abbreviation (input) MAX_BATCH_PAGES :: nat where "MAX_BATCH_PAGES \<equiv> 64"
abbreviation (input) MAX_BATCH_RECORDS :: nat where "MAX_BATCH_RECORDS \<equiv> 1024"
abbreviation (input) MAX_BATCH_BYTES :: nat where "MAX_BATCH_BYTES \<equiv> 17039360"

subsection \<open>Timings\<close>

record ingestion_timing =
  it_count :: nat
  it_total_us :: nat
  it_max_us :: nat
  it_buckets :: "nat list"

record ingestion_write_timing =
  iw_lock_wait :: ingestion_timing
  iw_execute :: ingestion_timing
  iw_commit :: ingestion_timing

record ingestion_diagnostics =
  ig_groups :: nat
  ig_pages :: nat
  ig_empty_pages :: nat
  ig_input_records :: nat
  ig_committed_records :: nat
  ig_failed_pages :: nat
  ig_serialized_bytes :: nat
  ig_max_group_pages :: nat
  ig_max_group_records :: nat
  ig_admission_wait :: ingestion_timing
  ig_queue_wait :: ingestion_timing
  ig_snapshots :: ingestion_write_timing
  ig_metadata :: ingestion_write_timing

definition empty_timing :: ingestion_timing where
  "empty_timing = \<lparr>it_count = 0, it_total_us = 0, it_max_us = 0, it_buckets = replicate 32 0\<rparr>"

text \<open>The number of significant bits, \<open>64 - leading_zeros\<close>.\<close>

fun bit_len :: "nat \<Rightarrow> nat" where
  "bit_len n = (if n = 0 then 0 else Suc (bit_len (n div 2)))"

declare bit_len.simps [simp del]

definition observe :: "ingestion_timing \<Rightarrow> nat \<Rightarrow> ingestion_timing" where
  "observe timing micros =
     (let micros = min micros u64_max;
          bucket = min (bit_len micros) (length (it_buckets timing) - 1)
      in timing\<lparr>it_count := saturating_add_u64 (it_count timing) 1,
           it_total_us := saturating_add_u64 (it_total_us timing) micros,
           it_max_us := max (it_max_us timing) micros,
           it_buckets := (it_buckets timing)[bucket := saturating_add_u64 (it_buckets timing ! bucket) 1]\<rparr>)"

type_synonym write_timing = "nat \<times> nat \<times> nat"

definition observe_write :: "ingestion_write_timing \<Rightarrow> write_timing \<Rightarrow> ingestion_write_timing" where
  "observe_write summary = (\<lambda>(lock_wait, execute, commit).
     summary\<lparr>iw_lock_wait := observe (iw_lock_wait summary) lock_wait,
             iw_execute := observe (iw_execute summary) execute,
             iw_commit := observe (iw_commit summary) commit\<rparr>)"

subsection \<open>The worker\<close>

record pending =
  pd_source :: source
  pd_descriptor :: snapshot_descriptor
  pd_page :: snapshot_history_response
  pd_bytes :: nat

type_synonym reply = "pending \<times> (engine_error + nat)"

record 'ix worker =
  wk_deferred :: "pending option"
  wk_queue :: "pending list"
  wk_store :: "'ix store"
  wk_repo :: repo
  wk_stats :: ingestion_diagnostics
  wk_replies :: "reply list"

record 'ix ingest_env =
  ie_serde :: serde_ext
  ie_repo :: repo_env
  ie_project :: "'ix projection"

record io =
  io_clock :: "nat \<Rightarrow> nat \<Rightarrow> int"
  io_now :: int
  io_fault :: "engine_error option"
  io_metadata_fault :: "engine_error option"
  io_queue_waits :: "nat list"
  io_snapshot_timing :: write_timing
  io_metadata_timing :: write_timing

fun engine_error_text :: "engine_error \<Rightarrow> string" where
  "engine_error_text AuthSessionUnavailable = ''authentication sessions are temporarily unavailable''"
| "engine_error_text (UiConflict m _) = m"
| "engine_error_text (UiBootstrap m) = m"
| "engine_error_text (EngineInvalid m) = ''invalid input: '' @ m"
| "engine_error_text (Protocol e) = ''protocol error: '' @ protocol_error_text e"
| "engine_error_text (Sqlite m) = ''storage error: '' @ m"
| "engine_error_text (Io m) = ''I/O error: '' @ m"
| "engine_error_text (Json m) = ''serialization error: '' @ m"
| "engine_error_text (Http m) = ''HTTP error: '' @ m"
| "engine_error_text (Runtime m) = ''runtime error: '' @ m"

text \<open>\<open>Ingestor::commit\<close> up to the channel: the size of the request, checked before it is queued.\<close>

definition admit ::
  "'ix ingest_env \<Rightarrow> 'ix worker \<Rightarrow> source \<Rightarrow> snapshot_descriptor \<Rightarrow> snapshot_history_response
     \<Rightarrow> engine_error + 'ix worker" where
  "admit E w source descriptor page =
     rbind (map_err Json (to_vec_page (ie_serde E) page)) (\<lambda>p.
     rbind (map_err Json (print_descriptor (ie_repo E) descriptor)) (\<lambda>d.
     let bytes = length p + length d in
     rbind (ensure (bytes \<le> MAX_BATCH_BYTES)
              (EngineInvalid ''snapshot page and descriptor exceed ingestion queue budget'')) (\<lambda>_.
     Inr (w\<lparr>wk_queue := wk_queue w @ [\<lparr>pd_source = source, pd_descriptor = descriptor,
            pd_page = page, pd_bytes = bytes\<rparr>]\<rparr>))))"

text \<open>The inner loop of \<open>Ingestor::run\<close>: what is in the batch, what is deferred, what stays queued.\<close>

fun collect ::
  "nat \<Rightarrow> nat \<Rightarrow> pending list \<Rightarrow> pending list \<Rightarrow> pending list \<times> pending option \<times> pending list" where
  "collect bytes records batch [] = (batch, None, [])"
| "collect bytes records batch (p # queue) =
     (if \<not> length batch < MAX_BATCH_PAGES then (batch, None, p # queue)
      else if MAX_BATCH_BYTES < bytes + pd_bytes p
              \<or> MAX_BATCH_RECORDS < records + length (h_snapshots (pd_page p))
      then (batch, Some p, queue)
      else collect (bytes + pd_bytes p) (records + length (h_snapshots (pd_page p))) (batch @ [p]) queue)"

definition batch_records :: "pending list \<Rightarrow> nat" where
  "batch_records batch = sum_list (map (\<lambda>p. length (h_snapshots (pd_page p))) batch)"

definition batch_bytes :: "pending list \<Rightarrow> nat" where
  "batch_bytes batch = sum_list (map pd_bytes batch)"

definition count_batch :: "pending list \<Rightarrow> nat list \<Rightarrow> ingestion_diagnostics \<Rightarrow> ingestion_diagnostics" where
  "count_batch batch waits diag = diag\<lparr>
     ig_groups := ig_groups diag + 1,
     ig_pages := ig_pages diag + length batch,
     ig_empty_pages := ig_empty_pages diag + length (filter (\<lambda>p. h_snapshots (pd_page p) = []) batch),
     ig_input_records := ig_input_records diag + batch_records batch,
     ig_serialized_bytes := ig_serialized_bytes diag + batch_bytes batch,
     ig_max_group_pages := max (ig_max_group_pages diag) (length batch),
     ig_max_group_records := max (ig_max_group_records diag) (batch_records batch),
     ig_queue_wait := fold (\<lambda>wait timing. observe timing wait) waits (ig_queue_wait diag)\<rparr>"

definition fail_batch :: "engine_error \<Rightarrow> pending list \<Rightarrow> reply list" where
  "fail_batch e batch =
     map (\<lambda>p. (p, Inl (Runtime (''grouped ingestion failed: '' @ engine_error_text e)))) batch"

definition add_failed :: "nat \<Rightarrow> ingestion_diagnostics \<Rightarrow> ingestion_diagnostics" where
  "add_failed n diag = diag\<lparr>ig_failed_pages := ig_failed_pages diag + n\<rparr>"

definition count_results :: "(engine_error + nat) list \<Rightarrow> ingestion_diagnostics \<Rightarrow> ingestion_diagnostics" where
  "count_results results diag = add_failed (length (filter (\<lambda>r. \<not> is_ok r) results))
     (diag\<lparr>ig_committed_records := ig_committed_records diag
        + sum_list (map (\<lambda>r. case r of Inr k \<Rightarrow> k | Inl _ \<Rightarrow> 0) results)\<rparr>)"

definition write_group :: "'ix ingest_env \<Rightarrow> io \<Rightarrow> pending list \<Rightarrow> 'ix worker \<Rightarrow> 'ix worker" where
  "write_group E io batch w =
     (let diag = count_batch batch (io_queue_waits io) (wk_stats w);
          diag = diag\<lparr>ig_snapshots := observe_write (ig_snapshots diag) (io_snapshot_timing io)\<rparr>
      in case io_fault io of
           Some e \<Rightarrow> w\<lparr>wk_stats := add_failed (length batch) diag,
                       wk_replies := wk_replies w @ fail_batch e batch\<rparr>
         | None \<Rightarrow>
             (let (results, st) = ingest_batch (ie_serde E) (ie_project E) (io_clock io) (wk_store w)
                    (map (\<lambda>p. (pd_source p, pd_descriptor p, pd_page p)) batch);
                  diag = count_results results diag;
                  successful = map (\<lambda>(p, _). (src_id (pd_source p), pd_descriptor p))
                    (filter (\<lambda>(_, r). is_ok r) (zip batch results));
                  diag = diag\<lparr>ig_metadata := observe_write (ig_metadata diag) (io_metadata_timing io)\<rparr>
              in case (case io_metadata_fault io of
                         Some e \<Rightarrow> Inl e
                       | None \<Rightarrow> update_source_success_batch (ie_repo E) (io_now io) (wk_repo w) successful) of
                   Inl e \<Rightarrow> w\<lparr>wk_store := st, wk_stats := add_failed (length successful) diag,
                             wk_replies := wk_replies w @ fail_batch e batch\<rparr>
                 | Inr repo \<Rightarrow> w\<lparr>wk_store := st, wk_repo := repo, wk_stats := diag,
                               wk_replies := wk_replies w @ zip batch results\<rparr>))"

text \<open>One round of the outer loop; \<open>None\<close> when the worker waits for the channel.\<close>

definition run_once :: "'ix ingest_env \<Rightarrow> io \<Rightarrow> 'ix worker \<Rightarrow> 'ix worker option" where
  "run_once E io w =
     (let round = (\<lambda>first queue.
        let (batch, deferred, queue) = collect (pd_bytes first) (length (h_snapshots (pd_page first))) [first] queue
        in Some (write_group E io batch (w\<lparr>wk_deferred := deferred, wk_queue := queue\<rparr>)))
      in case wk_deferred w of
           Some first \<Rightarrow> round first (wk_queue w)
         | None \<Rightarrow> (case wk_queue w of [] \<Rightarrow> None | first # queue \<Rightarrow> round first queue))"

definition waiting :: "'ix worker \<Rightarrow> pending list" where
  "waiting w = (case wk_deferred w of Some p \<Rightarrow> [p] | None \<Rightarrow> []) @ wk_queue w"

section \<open>Grouping\<close>

lemma collect_result:
  assumes "collect bytes records batch queue = (batch', deferred, queue')"
    and "bytes = batch_bytes batch" and "records = batch_records batch" and "length batch \<le> MAX_BATCH_PAGES"
  shows "batch' @ (case deferred of Some p \<Rightarrow> [p] | None \<Rightarrow> []) @ queue' = batch @ queue
    \<and> length batch \<le> length batch' \<and> length batch' \<le> MAX_BATCH_PAGES
    \<and> batch_bytes batch' \<le> max bytes MAX_BATCH_BYTES \<and> batch_records batch' \<le> max records MAX_BATCH_RECORDS"
  using assms
proof (induction bytes records batch queue rule: collect.induct)
  case (2 bytes records batch p queue)
  let ?b = "bytes + pd_bytes p" and ?r = "records + length (h_snapshots (pd_page p))"
  have sums: "?b = batch_bytes (batch @ [p])" "?r = batch_records (batch @ [p])"
    using 2(3,4) by (simp_all add: batch_bytes_def batch_records_def)
  show ?case
  proof (cases "length batch < MAX_BATCH_PAGES \<and> ?b \<le> MAX_BATCH_BYTES \<and> ?r \<le> MAX_BATCH_RECORDS")
    case True
    then have c: "collect ?b ?r (batch @ [p]) queue = (batch', deferred, queue')" using 2(2) by simp
    have "length (batch @ [p]) \<le> MAX_BATCH_PAGES" using True by simp
    from 2(1) [OF _ _ c sums this] True
    show ?thesis by (simp add: not_less)
  next
    case False
    with 2(2-5) show ?thesis by (auto split: if_split_asm)
  qed
qed auto


text \<open>A first page above the record limit stays alone: nothing is added to its group.\<close>

lemma collect_oversize:
  "MAX_BATCH_RECORDS < records \<Longrightarrow> fst (collect bytes records batch queue) = batch"
  by (cases queue) auto

lemma write_frame [simp]:
  "wk_deferred (write_group E io batch w) = wk_deferred w" "wk_queue (write_group E io batch w) = wk_queue w"
  by (simp_all add: write_group_def Let_def split: option.split sum.split prod.split)

lemma length_ingest_batch: "length (fst (ingest_batch X project clock db pages)) = length pages"
  by (induction X project clock db pages rule: ingest_batch_induct) (auto simp: comp_def split: sum.split)

lemma fst_fail_batch: "map fst (fail_batch e batch) = batch"
  by (simp add: fail_batch_def comp_def)

lemma write_replies:
  obtains rs where "wk_replies (write_group E io batch w) = wk_replies w @ rs" and "map fst rs = batch"
proof -
  let ?pages = "map (\<lambda>p. (pd_source p, pd_descriptor p, pd_page p)) batch"
  obtain results st where r: "ingest_batch (ie_serde E) (ie_project E) (io_clock io) (wk_store w) ?pages = (results, st)"
    by fastforce
  then have "length results = length batch"
    using length_ingest_batch [of "ie_serde E" "ie_project E" "io_clock io" "wk_store w" ?pages] by simp
  then have "\<exists>rs. wk_replies (write_group E io batch w) = wk_replies w @ rs \<and> map fst rs = batch"
    using r fst_fail_batch by (auto simp: write_group_def Let_def split: option.split sum.split)
  then show thesis using that by blast
qed

lemma run_once_result:
  assumes "run_once E io w = Some w'"
  obtains batch where "batch \<noteq> []" and "waiting w = batch @ waiting w'"
    and "length batch \<le> MAX_BATCH_PAGES" 
    and "batch_bytes batch \<le> max MAX_BATCH_BYTES (pd_bytes (hd batch))"
    and "batch_records batch \<le> MAX_BATCH_RECORDS
       \<or> (\<exists>p. batch = [p] \<and> MAX_BATCH_RECORDS < length (h_snapshots (pd_page p)))"
    and "w' = write_group E io batch (w\<lparr>wk_deferred := wk_deferred w', wk_queue := wk_queue w'\<rparr>)"
proof -
  obtain p queue where w: "waiting w = p # queue"
    and r: "(let (batch, deferred, queue) = collect (pd_bytes p) (length (h_snapshots (pd_page p))) [p] queue
        in Some (write_group E io batch (w\<lparr>wk_deferred := deferred, wk_queue := queue\<rparr>))) = Some w'"
    using assms(1) unfolding run_once_def Let_def waiting_def
    by (auto split: option.splits list.splits)
  obtain batch deferred queue'
    where c: "collect (pd_bytes p) (length (h_snapshots (pd_page p))) [p] queue = (batch, deferred, queue')"
    by (metis prod_cases3)
  with r have w': "w' = write_group E io batch (w\<lparr>wk_deferred := deferred, wk_queue := queue'\<rparr>)" by simp
  from collect_result [OF c] have res:
    "batch @ (case deferred of Some p \<Rightarrow> [p] | None \<Rightarrow> []) @ queue' = [p] @ queue" "1 \<le> length batch"
    "length batch \<le> MAX_BATCH_PAGES" "batch_bytes batch \<le> max (pd_bytes p) MAX_BATCH_BYTES"
    "batch_records batch \<le> max (length (h_snapshots (pd_page p))) MAX_BATCH_RECORDS"
    by (simp_all add: batch_bytes_def batch_records_def)
  moreover have "hd batch = p" "batch \<noteq> []" using res(1,2) by (cases batch; simp)+
  moreover have "batch_records batch \<le> MAX_BATCH_RECORDS
      \<or> (\<exists>p. batch = [p] \<and> MAX_BATCH_RECORDS < length (h_snapshots (pd_page p)))"
    using res(5) collect_oversize [of "length (h_snapshots (pd_page p))" "pd_bytes p" "[p]" queue] c
    by (cases "MAX_BATCH_RECORDS < length (h_snapshots (pd_page p))") auto
  ultimately show thesis using that [of batch] w w' by (auto simp: waiting_def max.commute)
qed

lemma run_once_shorter: "run_once E io w = Some w' \<Longrightarrow> length (waiting w') < length (waiting w)"
  by (erule run_once_result) simp

text \<open>The worker after the channel closes: rounds until nothing is waiting.\<close>

function drain :: "'ix ingest_env \<Rightarrow> (nat \<Rightarrow> io) \<Rightarrow> 'ix worker \<Rightarrow> 'ix worker" where
  "drain E ios w = (case run_once E (ios 0) w of None \<Rightarrow> w | Some w' \<Rightarrow> drain E (ios \<circ> Suc) w')"
  by pat_completeness auto
termination
  by (relation "measure (\<lambda>(E, ios, w). length (waiting w))") (simp_all add: run_once_shorter)

declare drain.simps [simp del]


section \<open>Durability of acknowledgements\<close>

lemma ingest_page_kept:
  assumes "ingest_page X project clock db source descriptor page = Inr (k, db')"
  shows "confirmed X src ses db s \<Longrightarrow> confirmed X src ses db' s"
    and "\<forall>s \<in> set (h_snapshots page). confirmed X source (h_source_session_id page) db' s \<and> snapshot_accepted X s"
proof -
  obtain new db1 where e: "extends db new db1"
    and s: "confirmed X a b db' s = confirmed X a b db1 s"
    and c: "\<forall>s \<in> set (h_snapshots page). confirmed X source (h_source_session_id page) db1 s"
    and acc: "page_accepted X page" for a b s
    using assms by (cases rule: ingest_page_cases) (simp add: confirmed_def)
  show "confirmed X src ses db s \<Longrightarrow> confirmed X src ses db' s"
    unfolding s using e by (rule confirmed_extends [rotated])
  show "\<forall>s \<in> set (h_snapshots page). confirmed X source (h_source_session_id page) db' s \<and> snapshot_accepted X s"
    unfolding s using c acc by (simp add: page_accepted_def)
qed

lemma ingest_batch_kept:
  "confirmed X src ses db s \<Longrightarrow> confirmed X src ses (snd (ingest_batch X project clock db pages)) s"
proof (induction X project clock db pages rule: ingest_batch_induct)
  case (2 X project clock db source descriptor page pages)
  show ?case
  proof (cases "ingest_page X project (clock 0) db source descriptor page")
    case (Inl e)
    with 2 show ?thesis by (simp add: comp_def)
  next
    case (Inr r)
    then obtain k db1 where ip: "ingest_page X project (clock 0) db source descriptor page = Inr (k, db1)"
      by (cases r) auto
    from 2(2) [OF ip refl ingest_page_kept(1) [OF ip 2(3)]] ip show ?thesis by (simp add: comp_def)
  qed
qed simp

text \<open>A page answered with success has all its snapshots in the store, as they were sent.\<close>

definition durable :: "serde_ext \<Rightarrow> 'ix store \<Rightarrow> reply \<Rightarrow> bool" where
  "durable X db = (\<lambda>(p, r). is_ok r \<longrightarrow> (\<forall>s \<in> set (h_snapshots (pd_page p)).
     confirmed X (pd_source p) (h_source_session_id (pd_page p)) db s \<and> snapshot_accepted X s))"

lemma ingest_batch_durable:
  assumes "ingest_batch X project clock db pages = (results, db')"
    and "((source, descriptor, page), Inr k) \<in> set (zip pages results)"
  shows "\<forall>s \<in> set (h_snapshots page). confirmed X source (h_source_session_id page) db' s \<and> snapshot_accepted X s"
  using assms
proof (induction X project clock db pages arbitrary: results rule: ingest_batch_induct)
  case (2 X project clock db source' descriptor' page' pages)
  show ?case
  proof (cases "ingest_page X project (clock 0) db source' descriptor' page'")
    case (Inl e)
    with 2 show ?thesis by (auto simp: comp_def map_prod_def split: prod.splits)
  next
    case (Inr r)
    obtain k' db1 where ip: "ingest_page X project (clock 0) db source' descriptor' page' = Inr (k', db1)"
      using Inr by (cases r) auto
    obtain rs where rest: "ingest_batch X project (clock \<circ> Suc) db1 pages = (rs, db')" and res: "results = Inr k' # rs"
      using 2(3) ip by (auto simp: map_prod_def split: prod.splits)
    have "confirmed X a b db1 s \<Longrightarrow> confirmed X a b db' s" for a b s
      using ingest_batch_kept [of X a b db1 s project "clock \<circ> Suc" pages] rest by simp
    moreover have "(source, descriptor, page) = (source', descriptor', page')
        \<or> ((source, descriptor, page), Inr k) \<in> set (zip pages rs)"
      using 2(4) res by auto
    ultimately show ?thesis
      using 2(2) [OF ip refl rest] ingest_page_kept(2) [OF ip] by blast
  qed
qed simp

lemma zip_map_fst: "(p, r) \<in> set (zip xs rs) \<Longrightarrow> (f p, r) \<in> set (zip (map f xs) rs)"
  by (auto simp: zip_map1)

lemma write_durable:
  assumes "\<forall>r \<in> set (wk_replies w). durable (ie_serde E) (wk_store w) r"
  shows "\<forall>r \<in> set (wk_replies (write_group E io batch w)).
    durable (ie_serde E) (wk_store (write_group E io batch w)) r"
proof -
  let ?f = "\<lambda>p. (pd_source p, pd_descriptor p, pd_page p)" and ?X = "ie_serde E"
  obtain results st where r: "ingest_batch ?X (ie_project E) (io_clock io) (wk_store w) (map ?f batch) = (results, st)"
    by fastforce
  have mono: "durable ?X st x" if "durable ?X (wk_store w) x" for x
    using that ingest_batch_kept [of ?X _ _ "wk_store w" _ "ie_project E" "io_clock io" "map ?f batch"] r
    by (auto simp: durable_def)
  have new: "durable ?X st (p, q)" if "(p, q) \<in> set (zip batch results)" for p q
  proof (cases q)
    case (Inr k)
    from ingest_batch_durable [OF r, of "pd_source p" "pd_descriptor p" "pd_page p" k] zip_map_fst [OF that, of ?f] Inr
    show ?thesis by (simp add: durable_def)
  qed (simp add: durable_def)
  have "durable ?X db x" if "x \<in> set (fail_batch e batch)" for x db e
    using that by (auto simp: fail_batch_def durable_def)
  then show ?thesis using assms mono new r
    by (auto simp: write_group_def Let_def split: option.split sum.split)
qed

text \<open>A page with more than 256 records fails alone, and leaves nothing behind.\<close>

lemma oversize_page_fails:
  assumes "256 < length (h_snapshots page)"
  shows "\<exists>e. ingest_batch X project clock db [(source, descriptor, page)] = ([Inl e], db)"
proof -
  have "\<not> page_accepted X page" using assms by (simp add: page_accepted_def)
  then have "validate_snapshot_history_response X page \<noteq> Inr ()" by (simp add: validate_history_response_iff)
  then obtain e where "validate_snapshot_history_response X page = Inl e"
    by (cases "validate_snapshot_history_response X page") auto
  then have "\<exists>e. ingest_page X project (clock 0) db source descriptor page = Inl e"
    by (cases "validate_snapshot_descriptor descriptor") (auto simp: ingest_page_eq rbind_def map_err_def)
  then show ?thesis by auto
qed

lemma oversize_group_fails:
  assumes "256 < length (h_snapshots (pd_page p))"
  shows "wk_store (write_group E io [p] w) = wk_store w
    \<and> (\<exists>e. wk_replies (write_group E io [p] w) = wk_replies w @ [(p, Inl e)])"
proof -
  obtain e where "ingest_batch (ie_serde E) (ie_project E) (io_clock io) (wk_store w)
      [(pd_source p, pd_descriptor p, pd_page p)] = ([Inl e], wk_store w)"
    using oversize_page_fails [OF assms] by blast
  then show ?thesis
    by (simp add: write_group_def Let_def fail_batch_def is_ok_def split: option.split sum.split)
qed

text \<open>What the worker and its clients can reach from an engine that just opened.\<close>

inductive worker_reachable :: "'ix ingest_env \<Rightarrow> 'ix worker \<Rightarrow> bool" for E where
  fresh: "store_reachable (ie_serde E) (ie_project E) (wk_store w) \<Longrightarrow> wk_replies w = [] \<Longrightarrow> waiting w = []
    \<Longrightarrow> worker_reachable E w"
| admitted: "worker_reachable E w \<Longrightarrow> admit E w source descriptor page = Inr w' \<Longrightarrow> worker_reachable E w'"
| written: "worker_reachable E w \<Longrightarrow> run_once E io w = Some w' \<Longrightarrow> worker_reachable E w'"

lemma admit_result:
  assumes "admit E w source descriptor page = Inr w'"
  obtains p where "w' = w\<lparr>wk_queue := wk_queue w @ [p]\<rparr>" and "pd_bytes p \<le> MAX_BATCH_BYTES"
    and "pd_source p = source" and "pd_descriptor p = descriptor" and "pd_page p = page"
  using assms by (auto simp: admit_def result_iffs Let_def)

lemma write_store_reachable:
  assumes "store_reachable (ie_serde E) (ie_project E) (wk_store w)"
  shows "store_reachable (ie_serde E) (ie_project E) (wk_store (write_group E io batch w))"
proof -
  let ?pages = "map (\<lambda>p. (pd_source p, pd_descriptor p, pd_page p)) batch"
  have "wk_store (write_group E io batch w)
      \<in> {wk_store w, snd (ingest_batch (ie_serde E) (ie_project E) (io_clock io) (wk_store w) ?pages)}"
    by (simp add: write_group_def Let_def split: option.split sum.split prod.split)
  then show ?thesis using assms store_reachable.written [OF assms, of "io_clock io" ?pages] by auto
qed

lemma worker_reachable_inv:
  assumes "worker_reachable E w"
  shows "store_reachable (ie_serde E) (ie_project E) (wk_store w)
    \<and> (\<forall>r \<in> set (wk_replies w). durable (ie_serde E) (wk_store w) r) \<and> (\<forall>p \<in> set (waiting w). pd_bytes p \<le> MAX_BATCH_BYTES)"
  using assms
proof (induction rule: worker_reachable.induct)
  case (admitted w source descriptor page w')
  from admitted(2) obtain p where "w' = w\<lparr>wk_queue := wk_queue w @ [p]\<rparr>" "pd_bytes p \<le> MAX_BATCH_BYTES"
    by (rule admit_result)
  with admitted(3) show ?case by (auto simp: waiting_def)
next
  case (written w io w')
  from written(2) obtain batch where w: "waiting w = batch @ waiting w'"
    and w': "w' = write_group E io batch (w\<lparr>wk_deferred := wk_deferred w', wk_queue := wk_queue w'\<rparr>)" (is "_ = write_group E io batch ?w")
    by (rule run_once_result)
  have "store_reachable (ie_serde E) (ie_project E) (wk_store (write_group E io batch ?w))"
    by (rule write_store_reachable) (use written(3) in simp)
  moreover have "\<forall>r \<in> set (wk_replies (write_group E io batch ?w)).
      durable (ie_serde E) (wk_store (write_group E io batch ?w)) r"
    by (rule write_durable) (use written(3) in simp)
  ultimately show ?case using written(3) w by (simp only: w' [symmetric]) auto
qed simp_all


section \<open>Timings\<close>

lemma bit_len_le: "bit_len m \<le> k \<longleftrightarrow> m < 2 ^ k"
proof (induction m arbitrary: k rule: bit_len.induct)
  case (1 m)
  show ?case
  proof (cases "m = 0")
    case False
    have rec: "bit_len m = Suc (bit_len (m div 2))" using False by (simp add: bit_len.simps [of m])
    show ?thesis
    proof (cases k)
      case 0
      then show ?thesis using False rec by simp
    next
      case (Suc j)
      then show ?thesis using 1 [OF False, of j] rec by (simp add: less_mult_imp_div_less) arith
    qed
  qed (simp add: bit_len.simps)
qed

definition in_bucket :: "nat \<Rightarrow> nat \<Rightarrow> bool" where
  "in_bucket b m \<longleftrightarrow> (if b = 0 then m = 0 else if b < 31 then 2 ^ (b - 1) \<le> m \<and> m < 2 ^ b else 2 ^ 30 \<le> m)"

lemma bucket_iff: "b < 32 \<Longrightarrow> min (bit_len m) 31 = b \<longleftrightarrow> in_bucket b m"
proof -
  assume b: "b < 32"
  have lt: "bit_len m < Suc k \<longleftrightarrow> m < 2 ^ k" for k using bit_len_le [of m k] by auto
  consider "b = 0" | "0 < b" "b < 31" | "b = 31" using b by linarith
  then show ?thesis
  proof cases
    case 1
    then show ?thesis using bit_len_le [of m 0] by (auto simp: in_bucket_def min_def)
  next
    case 2
    then have "min (bit_len m) 31 = b \<longleftrightarrow> \<not> bit_len m \<le> b - 1 \<and> bit_len m \<le> b" by auto
    then show ?thesis unfolding bit_len_le in_bucket_def using 2 by (simp add: not_less)
  next
    case 3
    then have "min (bit_len m) 31 = b \<longleftrightarrow> \<not> bit_len m \<le> 30" by auto
    then show ?thesis unfolding bit_len_le in_bucket_def using 3 by (simp add: not_less)
  qed
qed

definition timing_of :: "nat list \<Rightarrow> ingestion_timing \<Rightarrow> bool" where
  "timing_of ms t \<longleftrightarrow> it_count t = length ms \<and> length (it_buckets t) = 32
     \<and> it_total_us t = min u64_max (sum_list ms) \<and> (\<forall>m \<in> set ms. m \<le> it_max_us t)
     \<and> (\<forall>b < 32. it_buckets t ! b = length (filter (in_bucket b) ms))"

lemma observe_timing:
  assumes "timing_of ms t" and "length ms < u64_max" and "m \<le> u64_max"
  shows "timing_of (ms @ [m]) (observe t m)"
proof -
  let ?b = "min (bit_len m) 31"
  have mb: "min m u64_max = m" using assms(3) by simp
  have len: "length (it_buckets t) - 1 = 31" using assms(1) by (simp add: timing_of_def)
  have "length (filter (in_bucket b) ms) < u64_max" for b
    using assms(2) by (meson le_less_trans length_filter_le)
  then have sat: "saturating_add_u64 (length (filter (in_bucket b) ms)) 1 = length (filter (in_bucket b) ms) + 1" for b
    by (simp add: saturating_add_u64_def less_eq_Suc_le)
  have "it_buckets (observe t m) ! b = length (filter (in_bucket b) (ms @ [m]))" if "b < 32" for b
    using assms(1) that bucket_iff [OF that, of m] sat [of b]
    by (auto simp: observe_def Let_def mb len timing_of_def nth_list_update)
  moreover have "it_total_us (observe t m) = min u64_max (sum_list (ms @ [m]))"
    using assms(1) by (simp add: observe_def Let_def mb timing_of_def saturating_add_u64_def)
  ultimately show ?thesis
    using assms by (auto simp: timing_of_def observe_def Let_def mb saturating_add_u64_def)
qed

lemma timing_fold:
  "length ms \<le> u64_max \<Longrightarrow> \<forall>m \<in> set ms. m \<le> u64_max \<Longrightarrow> timing_of ms (fold (\<lambda>m t. observe t m) ms empty_timing)"
proof (induction ms rule: rev_induct)
  case (snoc m ms)
  then show ?case by (simp add: observe_timing)
qed (simp add: timing_of_def empty_timing_def)

end
