(* ===== verification/Ingestion_Props.thy ===== *)
theory Ingestion_Props
  imports Ingestion
begin

text \<open>
  Properties of grouped ingestion and the concrete worker that their witnesses use: one source, one
  page, the reference serializer.
\<close>

definition demo_ie :: "unit ingest_env" where
  "demo_ie = \<lparr>ie_serde = ref_ext, ie_repo = demo_env, ie_project = demo_project\<rparr>"

definition demo_io :: io where
  "demo_io = \<lparr>io_clock = (\<lambda>_ _. 9), io_now = 8, io_fault = None, io_metadata_fault = None, io_queue_waits = [3],
     io_snapshot_timing = (0, 1, 2), io_metadata_timing = (0, 1, 2)\<rparr>"

definition empty_write :: ingestion_write_timing where
  "empty_write = \<lparr>iw_lock_wait = empty_timing, iw_execute = empty_timing, iw_commit = empty_timing\<rparr>"

definition demo_worker :: "unit worker" where
  "demo_worker = \<lparr>wk_deferred = None, wk_queue = [], wk_store = empty_store (), wk_repo = demo_sourced,
     wk_stats = \<lparr>ig_groups = 0, ig_pages = 0, ig_empty_pages = 0, ig_input_records = 0,
       ig_committed_records = 0, ig_failed_pages = 0, ig_serialized_bytes = 0, ig_max_group_pages = 0,
       ig_max_group_records = 0, ig_admission_wait = empty_timing, ig_queue_wait = empty_timing,
       ig_snapshots = empty_write, ig_metadata = empty_write\<rparr>,
     wk_replies = []\<rparr>"

lemma demo_fresh: "worker_reachable demo_ie demo_worker"
  by (rule worker_reachable.fresh) (simp_all add: demo_worker_def demo_ie_def waiting_def store_reachable.opened)

lemma demo_admit:
  obtains p where "admit demo_ie demo_worker demo_source demo_descriptor demo_page = Inr (demo_worker\<lparr>wk_queue := [p]\<rparr>)"
    and "pd_source p = demo_source" and "pd_descriptor p = demo_descriptor" and "pd_page p = demo_page"
proof -
  obtain bytes where b: "to_vec_page ref_ext demo_page = Inr bytes" "length bytes \<le> MAX_SNAPSHOT_PAGE_BYTES"
    using demo_page_accepted unfolding page_accepted_def by blast
  let ?p = "\<lparr>pd_source = demo_source, pd_descriptor = demo_descriptor, pd_page = demo_page,
      pd_bytes = length bytes + length (d_source_session_id demo_descriptor)\<rparr>"
  have "length (d_source_session_id demo_descriptor) \<le> 100" by (simp add: demo_descriptor_def)
  then have "admit demo_ie demo_worker demo_source demo_descriptor demo_page = Inr (demo_worker\<lparr>wk_queue := [?p]\<rparr>)"
    using b by (simp add: admit_def demo_ie_def demo_env_def demo_worker_def)
  then show thesis by (rule that) simp_all
qed

lemma demo_metadata:
  obtains db' where "update_source_success_batch demo_env 8 demo_sourced [(''x'', demo_descriptor)] = Inr db'"
  by (cases "collectable demo_sourced (new_source_row demo_registered)")
    (simp_all add: update_source_success_batch_def source_success_def demo_env_def put_descriptor_def
      mark_active_def source_row_by_id_def demo_sources bm_get_def)

lemma demo_round:
  obtains p w' where "worker_reachable demo_ie (demo_worker\<lparr>wk_queue := [p]\<rparr>)"
    and "run_once demo_ie demo_io (demo_worker\<lparr>wk_queue := [p]\<rparr>) = Some w'"
    and "wk_replies w' = [(p, Inr 1)]" and "pd_source p = demo_source" and "pd_page p = demo_page"
proof -
  obtain p where p: "admit demo_ie demo_worker demo_source demo_descriptor demo_page = Inr (demo_worker\<lparr>wk_queue := [p]\<rparr>)"
    "pd_source p = demo_source" "pd_descriptor p = demo_descriptor" "pd_page p = demo_page" by (rule demo_admit)
  obtain db' where m: "update_source_success_batch demo_env 8 demo_sourced [(''x'', demo_descriptor)] = Inr db'"
    by (rule demo_metadata)
  let ?w = "demo_worker\<lparr>wk_queue := [p]\<rparr>"
  have ib: "ingest_batch ref_ext demo_project (\<lambda>_ _. 9) (empty_store ()) [(demo_source, demo_descriptor, demo_page)] = ([Inr 1], demo_store)"
    using demo_ingest by simp
  have x: "src_id demo_source = ''x''" by (simp add: demo_source_def)
  obtain w' where w': "run_once demo_ie demo_io ?w = Some w'" "wk_replies w' = [(p, Inr 1)]"
    using m ib p by (simp add: run_once_def write_group_def demo_worker_def demo_ie_def demo_io_def x Let_def)
  have "worker_reachable demo_ie ?w" by (rule worker_reachable.admitted [OF demo_fresh p(1)])
  from that [OF this w' p(2,4)] show thesis .
qed

section \<open>Properties\<close>

text \<open>
  C15. Once admitted, every page is answered exactly once, in the order of arrival, whatever fails:
  the worker's loop ends, nothing is left waiting, and the answers are those already sent followed
  by one for each waiting page.
\<close>

theorem every_page_answered_once:
  "map fst (wk_replies (drain E ios w)) = map fst (wk_replies w) @ waiting w \<and> waiting (drain E ios w) = []"
proof (induction E ios w rule: drain.induct)
  case (1 E ios w)
  show ?case
  proof (cases "run_once E (ios 0) w")
    case None
    then have "waiting w = []" by (auto simp: run_once_def Let_def waiting_def split: option.splits list.splits prod.splits)
    with None show ?thesis by (simp add: drain.simps)
  next
    case (Some w')
    obtain batch where b: "waiting w = batch @ waiting w'"
      "w' = write_group E (ios 0) batch (w\<lparr>wk_deferred := wk_deferred w', wk_queue := wk_queue w'\<rparr>)"
      using run_once_result [OF Some] by metis
    obtain rs where "wk_replies w' = wk_replies w @ rs" "map fst rs = batch"
      using write_replies [of E "ios 0" batch "w\<lparr>wk_deferred := wk_deferred w', wk_queue := wk_queue w'\<rparr>"] b(2)
      by auto
    with 1 [OF Some] b(1) Some show ?thesis by (simp add: drain.simps [of E ios w] comp_def)
  qed
qed



text \<open>
  C16. Acknowledgement follows durability: every snapshot of a page that was answered with success can
  be read back from the snapshot store, unchanged and under its run and source, in this and in every
  later state of the worker.
\<close>

theorem acknowledged_is_durable:
  assumes "worker_reachable E w" and "(p, Inr k) \<in> set (wk_replies w)" and "s \<in> set (h_snapshots (pd_page p))"
    and "roundtrip_codec (ie_serde E)" and "snapshot_wf s"
  shows "\<exists>key stored. store_get (ie_serde E) (wk_store w) key = Inr stored \<and> ss_snapshot stored = s
    \<and> ss_run_id stored = src_run_id (pd_source p) \<and> ss_source_id stored = src_id (pd_source p) \<and> ss_id stored = key"
proof -
  from worker_reachable_inv [OF assms(1)]
  have st: "store_reachable (ie_serde E) (ie_project E) (wk_store w)"
    and "durable (ie_serde E) (wk_store w) (p, Inr k)" using assms(2) by blast+
  then have "confirmed (ie_serde E) (pd_source p) (h_source_session_id (pd_page p)) (wk_store w) s"
      and a: "snapshot_accepted (ie_serde E) s"
    using assms(3) by (simp_all add: durable_def)
  then obtain r where r: "find_row (wk_store w) (src_id (pd_source p)) (h_source_session_id (pd_page p)) (s_sequence s) = Some r"
      "row_run_id r = src_run_id (pd_source p)"
      "from_str_snapshot (ie_serde E) (row_json r) = Inr s \<or> to_vec_snapshot (ie_serde E) s = Inr (row_json r)"
    by (auto simp: confirmed_def)
  with assms(4,5) a have "from_str_snapshot (ie_serde E) (row_json r) = Inr s"
    unfolding roundtrip_codec_def by blast
  from find_row_get [OF store_reachable_inv [OF st] r(1) this] r(2) show ?thesis by simp
qed

theorem acknowledged_witness:
  "\<exists>w key stored. worker_reachable demo_ie w \<and> store_get ref_ext (wk_store w) key = Inr stored
     \<and> ss_snapshot stored = demo_snapshot ''2'' 1"
proof -
  obtain p w' where w: "worker_reachable demo_ie (demo_worker\<lparr>wk_queue := [p]\<rparr>)"
    "run_once demo_ie demo_io (demo_worker\<lparr>wk_queue := [p]\<rparr>) = Some w'"
    "wk_replies w' = [(p, Inr 1)]" "pd_source p = demo_source" "pd_page p = demo_page" by (rule demo_round)
  have r: "worker_reachable demo_ie w'" by (rule worker_reachable.written [OF w(1,2)])
  have "(p, Inr 1) \<in> set (wk_replies w')" "demo_snapshot ''2'' 1 \<in> set (h_snapshots (pd_page p))"
    "roundtrip_codec (ie_serde demo_ie)" "snapshot_wf (demo_snapshot ''2'' 1)"
    using w demo_wf by (simp_all add: demo_page_def demo_ie_def ref_roundtrip_codec)
  from acknowledged_is_durable [OF r this] obtain key stored
    where "store_get (ie_serde demo_ie) (wk_store w') key = Inr stored" "ss_snapshot stored = demo_snapshot ''2'' 1"
    by (elim exE conjE) (rule that)
  then show ?thesis using r by (intro exI [of _ w'] exI [of _ key] exI [of _ stored]) (simp add: demo_ie_def)
qed

text \<open>
  The timing histogram is exact: after any list of observations (fewer than the counter's range)
  the count is their number and bucket 0 counts the zeros, bucket \<open>b\<close> of 1..30 those in
  \<open>[2^(b-1), 2^b)\<close> microseconds and bucket 31 the rest; the total saturates and the maximum bounds
  them all.
\<close>

theorem timing_histogram_exact:
  assumes "length ms \<le> u64_max" and "\<forall>m \<in> set ms. m \<le> u64_max"
    and "t = fold (\<lambda>m t. observe t m) ms empty_timing"
  shows "it_count t = length ms \<and> it_total_us t = min u64_max (sum_list ms) \<and> (\<forall>m \<in> set ms. m \<le> it_max_us t)
    \<and> it_buckets t ! 0 = length (filter (\<lambda>m. m = 0) ms)
    \<and> (\<forall>b. 1 \<le> b \<and> b \<le> 30 \<longrightarrow> it_buckets t ! b = length (filter (\<lambda>m. 2 ^ (b - 1) \<le> m \<and> m < 2 ^ b) ms))
    \<and> it_buckets t ! 31 = length (filter (\<lambda>m. 2 ^ 30 \<le> m) ms)"
proof -
  have t: "timing_of ms t" using timing_fold [OF assms(1,2)] assms(3) by simp
  then have bk: "\<forall>b < 32. it_buckets t ! b = length (filter (in_bucket b) ms)" by (simp add: timing_of_def)
  have "in_bucket b = (\<lambda>m. 2 ^ (b - 1) \<le> m \<and> m < 2 ^ b)" if "1 \<le> b" "b \<le> 30" for b
    using that by (auto simp: in_bucket_def fun_eq_iff)
  moreover have "in_bucket 0 = (\<lambda>m. m = 0)" "in_bucket 31 = (\<lambda>m. 2 ^ 30 \<le> m)"
    by (auto simp: in_bucket_def fun_eq_iff)
  ultimately show ?thesis using t bk by (simp add: timing_of_def)
qed

theorem timing_histogram_witness:
  "it_buckets (fold (\<lambda>m t. observe t m) [0, 1, 3] empty_timing) ! 0 = 1"
  using timing_histogram_exact [of "[0, 1, 3]", OF _ _ refl] by simp

end
