(* ===== verification/Pull.thy ===== *)
theory Pull
  imports Ingestion_Props
begin

text \<open>
  Pulling from a producer (\<open>Engine::scrape_source\<close> and \<open>pull_json\<close> of
  \<open>rust/rvx-engine/src/lib.rs\<close>): the collector reads the registration, the remote descriptor and
  one page of remote history at its committed cursor, and hands the page to ingestion. Composed
  with the producer and the store, this is the system's end-to-end path.

  HTTP is an argument: \<open>pull_json\<close> takes the status, the announced length and the chunks of the
  body; \<open>remote\<close> is what the two requests of a scrape return.
\<close>

subsection \<open>Responses\<close>

fun read_body :: "nat \<Rightarrow> string \<Rightarrow> (engine_error + string) list \<Rightarrow> engine_error + string" where
  "read_body limit bytes [] = Inr bytes"
| "read_body limit bytes (chunk # chunks) =
     rbind chunk (\<lambda>c.
       if limit < length bytes + length c
       then Inl (EngineInvalid ''snapshot response exceeds byte budget'')
       else read_body limit (bytes @ c) chunks)"

record http_response =
  hr_content_length :: "nat option"
  hr_chunks :: "(engine_error + string) list"

definition pull_json ::
  "(string \<Rightarrow> string + 'a) \<Rightarrow> nat \<Rightarrow> engine_error + http_response \<Rightarrow> engine_error + 'a" where
  "pull_json parse limit response =
     rbind response (\<lambda>r.
     rbind (ensure (case hr_content_length r of None \<Rightarrow> True | Some n \<Rightarrow> n \<le> limit)
              (EngineInvalid ''snapshot response exceeds byte budget'')) (\<lambda>_.
     rbind (read_body limit [] (hr_chunks r)) (\<lambda>bytes. map_err Json (parse bytes))))"


subsection \<open>One scrape\<close>






section \<open>A served page is accepted\<close>


lemma read_body_bounded: "read_body limit bytes chunks = Inr b \<Longrightarrow> length bytes \<le> limit \<Longrightarrow> length b \<le> limit"
  by (induction limit bytes chunks rule: read_body.induct) (auto simp: rbind_eq_Inr split: if_split_asm)













section \<open>Properties\<close>













end
