(* ===== verification/Scheduler.thy ===== *)
theory Scheduler
  imports Pull
begin

text \<open>
  The collector's schedule (\<open>Engine::run_scraper\<close>, \<open>refresh_schedule\<close>, \<open>scrape_delay\<close> of
  \<open>rust/rvx-engine/src/lib.rs\<close>). The loop keeps the sources it knows, a heap of due times, the set
  of scheduled identifiers and the running scrapes. Times are milliseconds; the heap is the list of
  its entries in ascending order of (time, identifier), which is the order in which they are popped.
\<close>

record scraper =
  sp_sources :: "string \<Rightarrow> source option"
  sp_schedule :: "(nat \<times> string) list"
  sp_scheduled :: "string set"
  sp_tasks :: "source list"

definition idle_scraper :: scraper where
  "idle_scraper = \<lparr>sp_sources = (\<lambda>_. None), sp_schedule = [], sp_scheduled = {}, sp_tasks = []\<rparr>"

definition scrape_delay :: "source \<Rightarrow> bool \<Rightarrow> nat" where
  "scrape_delay source has_data = (if has_data then 1 else src_scrape_interval_ms source)"

definition push :: "nat \<Rightarrow> string \<Rightarrow> scraper \<Rightarrow> scraper" where
  "push due key s = s\<lparr>sp_scheduled := insert key (sp_scheduled s), sp_schedule := insort (due, key) (sp_schedule s)\<rparr>"

text \<open>A scrape that returned, with the result of the run or after recording its failure.\<close>

definition finish :: "nat \<Rightarrow> source \<Rightarrow> bool \<Rightarrow> scraper \<Rightarrow> scraper" where
  "finish now source has_data s =
     push (now + scrape_delay source has_data) (src_id source) (s\<lparr>sp_tasks := remove1 source (sp_tasks s)\<rparr>)"

text \<open>
  What \<open>join_next\<close> makes of a task that ended: \<open>None\<close> is the \<open>JoinError\<close> of one that panicked, for which the
  loop does nothing.
\<close>

definition joined :: "nat \<Rightarrow> source \<Rightarrow> bool option \<Rightarrow> scraper \<Rightarrow> scraper" where
  "joined now source result s =
     (case result of
        Some has_data \<Rightarrow> finish now source has_data s
      | None \<Rightarrow> s\<lparr>sp_tasks := remove1 source (sp_tasks s)\<rparr>)"

function dispatch :: "nat \<Rightarrow> nat \<Rightarrow> scraper \<Rightarrow> scraper" where
  "dispatch maximum_concurrency now s =
     (case sp_schedule s of
        [] \<Rightarrow> s
      | (due, key) # rest \<Rightarrow>
          if length (sp_tasks s) < maximum_concurrency \<and> due \<le> now
          then let s' = s\<lparr>sp_schedule := rest, sp_scheduled := sp_scheduled s - {key}\<rparr>
               in dispatch maximum_concurrency now
                    (case sp_sources s key of
                       None \<Rightarrow> s'
                     | Some source \<Rightarrow> s'\<lparr>sp_tasks := sp_tasks s @ [source]\<rparr>)
          else s)"
  by pat_completeness auto
termination
  by (relation "measure (\<lambda>(m, now, s). length (sp_schedule s))") (auto split: option.split)

declare dispatch.simps [simp del]

definition scrapable_url :: "url_parser \<Rightarrow> string \<Rightarrow> bool" where
  "scrapable_url parse_url endpoint =
     (case parse_url endpoint of None \<Rightarrow> False | Some u \<Rightarrow> uv_scheme u \<in> {''http'', ''https''} \<and> uv_has_host u)"

definition refresh_source :: "url_parser \<Rightarrow> nat \<Rightarrow> source \<Rightarrow> scraper \<Rightarrow> scraper" where
  "refresh_source parse_url now source s =
     (let key = src_id source in
      if src_state source \<in> {Draining, Ended, Lost} \<or> \<not> scrapable_url parse_url (src_endpoint source)
      then s\<lparr>sp_sources := (sp_sources s)(key := None)\<rparr>
      else let s' = (if sp_sources s key = None \<and> key \<notin> sp_scheduled s then push now key s else s)
           in s'\<lparr>sp_sources := (sp_sources s')(key \<mapsto> source)\<rparr>)"

definition refresh_schedule :: "url_parser \<Rightarrow> nat \<Rightarrow> engine_error + source list \<Rightarrow> scraper \<Rightarrow> scraper" where
  "refresh_schedule parse_url now discovered s =
     (case discovered of Inl _ \<Rightarrow> s | Inr sources \<Rightarrow> fold (refresh_source parse_url now) sources s)"

text \<open>
  The loop interleaved with everything else that changes the metadata. \<open>maximum_concurrency.max(1)\<close>
  is the bound \<open>m\<close>. The last component of a state is a history: the sources whose scrape has panicked.
\<close>

inductive scrape_step ::
  "repo_env \<Rightarrow> url_parser \<Rightarrow> nat \<Rightarrow> repo \<times> scraper \<times> string set \<Rightarrow> repo \<times> scraper \<times> string set \<Rightarrow> bool" for X U m where
  metadata: "repo_step X db db' \<Longrightarrow> scrape_step X U m (db, s, P) (db', s, P)"
| refreshed: "scrape_step X U m (db, s, P) (db, refresh_schedule U now (list_sources X db None) s, P)"
| finished: "source \<in> set (sp_tasks s) \<Longrightarrow>
    scrape_step X U m (db, s, P)
      (db, joined now source result s, if result = None then insert (src_id source) P else P)"
| dispatched: "scrape_step X U m (db, s, P) (db, dispatch (max m 1) now s, P)"

inductive_cases scrape_stepE: "scrape_step X U m (db, s, P) (db', s', P')"

section \<open>Invariant\<close>

definition excluded :: "url_parser \<Rightarrow> repo \<Rightarrow> string \<Rightarrow> bool" where
  "excluded U db key \<longleftrightarrow> (\<exists>r \<in> set (rp_sources db). sr_id r = key
     \<and> (0 < stage (parse_source_state (sr_state r)) \<or> \<not> scrapable_url U (sr_endpoint r)))"

definition running :: "scraper \<Rightarrow> string list" where
  "running s = map src_id (sp_tasks s)"

definition sched_inv :: "url_parser \<Rightarrow> repo \<Rightarrow> string set \<Rightarrow> scraper \<Rightarrow> bool" where
  "sched_inv U db P s \<longleftrightarrow>
     distinct (map snd (sp_schedule s)) \<and> snd ` set (sp_schedule s) = sp_scheduled s
     \<and> distinct (running s) \<and> set (running s) \<inter> sp_scheduled s = {}
     \<and> (\<forall>key source. sp_sources s key = Some source \<longrightarrow> src_id source = key)
     \<and> P \<inter> (sp_scheduled s \<union> set (running s)) = {}
     \<and> dom (sp_sources s) \<subseteq> sp_scheduled s \<union> set (running s) \<union> P
     \<and> (\<forall>key \<in> sp_scheduled s \<union> set (running s) \<union> P. key \<in> dom (sp_sources s) \<or> excluded U db key)"

lemma excluded_step:
  assumes "repo_inv X db" and "step_ok X db db'" and "excluded U db key"
  shows "excluded U db' key"
proof -
  obtain r where r: "r \<in> set (rp_sources db)" "sr_id r = key"
    "0 < stage (parse_source_state (sr_state r)) \<or> \<not> scrapable_url U (sr_endpoint r)"
    using assms(3) by (auto simp: excluded_def)
  have "grows src_le (rp_sources db) (rp_sources db')" using assms(1,2) by (simp add: step_ok_def evolves_def)
  from grows_row [OF this r(1)] obtain r' where r': "r' \<in> set (rp_sources db')" "src_le r r'" .
  have "stage (parse_source_state (sr_state r)) \<le> stage (parse_source_state (sr_state r'))"
    using r'(2) by (auto simp: src_le_def source_le_def)
  with r r' show ?thesis unfolding excluded_def src_le_def by (intro bexI [of _ r']) auto
qed

lemma insort_snd:
  "snd ` set (insort (due, key) xs) = insert key (snd ` set xs)"
  "distinct (map snd (insort (due, key) xs)) \<longleftrightarrow> key \<notin> snd ` set xs \<and> distinct (map snd xs)"
  by (induction xs) (auto simp: set_insort_key)

lemma finish_inv:
  assumes inv: "sched_inv U db P s" and src: "source \<in> set (sp_tasks s)"
  shows "sched_inv U db P (finish now source has_data s)"
proof -
  let ?k = "src_id source" and ?s = "finish now source has_data s"
  have d: "distinct (running s)" using inv by (simp add: sched_inv_def)
  then have dt: "distinct (sp_tasks s)" by (simp add: running_def distinct_map)
  have run: "set (running ?s) = set (running s) - {?k}"
    using d src by (auto simp: running_def finish_def push_def set_remove1_eq [OF dt] distinct_map dest: inj_onD)
  have "distinct (running ?s)"
    using d by (auto simp: running_def finish_def push_def distinct_map intro: inj_on_subset set_remove1_subset)
  moreover have k: "?k \<in> set (running s)" "?k \<notin> sp_scheduled s"
    using inv src by (auto simp: sched_inv_def running_def)
  moreover have "sp_scheduled ?s = insert ?k (sp_scheduled s)" "sp_sources ?s = sp_sources s"
    "sp_schedule ?s = insort (now + scrape_delay source has_data, ?k) (sp_schedule s)"
    by (simp_all add: finish_def push_def)
  moreover have "set (running ?s) \<inter> sp_scheduled ?s = {}"
    "sp_scheduled ?s \<union> set (running ?s) = sp_scheduled s \<union> set (running s)"
    using inv run k(1) by (auto simp: finish_def push_def sched_inv_def)
  ultimately show ?thesis
    using inv unfolding sched_inv_def
    by (elim conjE, intro conjI) (simp_all add: insort_snd)
qed

lemma joined_inv:
  assumes inv: "sched_inv U db P s" and src: "source \<in> set (sp_tasks s)"
  shows "sched_inv U db (if result = None then insert (src_id source) P else P) (joined now source result s)"
proof (cases result)
  case None
  let ?k = "src_id source" and ?s = "joined now source result s"
  have d: "distinct (running s)" using inv by (simp add: sched_inv_def)
  then have dt: "distinct (sp_tasks s)" by (simp add: running_def distinct_map)
  have run: "set (running ?s) = set (running s) - {?k}"
    using d src by (auto simp: running_def joined_def None set_remove1_eq [OF dt] distinct_map dest: inj_onD)
  have "distinct (running ?s)"
    using d by (auto simp: running_def joined_def None distinct_map intro: inj_on_subset set_remove1_subset)
  moreover have k: "?k \<in> set (running s)" "?k \<notin> sp_scheduled s"
    using inv src by (auto simp: sched_inv_def running_def)
  moreover have "sp_scheduled ?s = sp_scheduled s" "sp_sources ?s = sp_sources s" "sp_schedule ?s = sp_schedule s"
    by (simp_all add: joined_def None)
  ultimately show ?thesis
    using inv run unfolding sched_inv_def
    by (elim conjE, intro conjI) (auto simp: None)
next
  case (Some has_data)
  then show ?thesis using finish_inv [OF assms] by (simp add: joined_def)
qed

definition pop :: "scraper \<Rightarrow> string \<Rightarrow> (nat \<times> string) list \<Rightarrow> scraper" where
  "pop s key rest = (let s' = s\<lparr>sp_schedule := rest, sp_scheduled := sp_scheduled s - {key}\<rparr>
     in case sp_sources s key of None \<Rightarrow> s' | Some source \<Rightarrow> s'\<lparr>sp_tasks := sp_tasks s @ [source]\<rparr>)"

lemma pop_inv:
  assumes inv: "sched_inv U db P s" and top: "sp_schedule s = (due, key) # rest"
  shows "sched_inv U db P (pop s key rest)"
proof -
  have k: "key \<in> sp_scheduled s" "key \<notin> snd ` set rest" "key \<notin> set (running s)"
      "distinct (map snd rest)" "snd ` set rest = sp_scheduled s - {key}" "key \<notin> P"
    using inv top by (auto simp: sched_inv_def)
  note cols = inv [unfolded sched_inv_def]
  show ?thesis
  proof (cases "sp_sources s key")
    case None
    have "dom (sp_sources s) \<subseteq> sp_scheduled s - {key} \<union> set (running s) \<union> P"
      using cols None by (auto simp: domIff)
    with cols k None show ?thesis unfolding sched_inv_def by (auto simp: pop_def running_def)
  next
    case (Some source)
    then have "src_id source = key" using cols by simp
    moreover have "P \<inter> (sp_scheduled s - {key} \<union> insert key (set (running s))) = {}"
      "sp_scheduled s - {key} \<union> insert key (set (running s)) = sp_scheduled s \<union> set (running s)"
      using cols k by auto
    ultimately show ?thesis using cols k Some unfolding sched_inv_def
      by (elim conjE, intro conjI) (auto simp: pop_def running_def)
  qed
qed

lemma dispatch_rec:
  "dispatch m now s = (case sp_schedule s of [] \<Rightarrow> s
     | (due, key) # rest \<Rightarrow> if length (sp_tasks s) < m \<and> due \<le> now then dispatch m now (pop s key rest) else s)"
  by (subst dispatch.simps) (simp add: pop_def Let_def split: list.split prod.split)

lemma length_pop: "length (sp_tasks (pop s key rest)) \<le> Suc (length (sp_tasks s))"
  by (simp add: pop_def Let_def split: option.split)

lemma dispatch_inv:
  assumes "sched_inv U db P s" and "length (sp_tasks s) \<le> m"
  shows "sched_inv U db P (dispatch m now s) \<and> length (sp_tasks (dispatch m now s)) \<le> m"
  using assms
proof (induction "length (sp_schedule s)" arbitrary: s rule: less_induct)
  case less
  show ?case
  proof (cases "sp_schedule s")
    case Nil
    then show ?thesis using less.prems by (simp add: dispatch_rec [of m now s])
  next
    case (Cons e rest)
    obtain due key where e: "e = (due, key)" by fastforce
    show ?thesis
    proof (cases "length (sp_tasks s) < m \<and> due \<le> now")
      case True
      have "length (sp_schedule (pop s key rest)) < length (sp_schedule s)"
        using Cons by (simp add: pop_def Let_def split: option.split)
      moreover have "sched_inv U db P (pop s key rest)" by (rule pop_inv [OF less.prems(1) Cons [unfolded e]])
      moreover have "length (sp_tasks (pop s key rest)) \<le> m" using length_pop [of s key rest] True by simp
      ultimately have "sched_inv U db P (dispatch m now (pop s key rest))
          \<and> length (sp_tasks (dispatch m now (pop s key rest))) \<le> m" by (rule less.hyps)
      then show ?thesis using Cons e True by (simp add: dispatch_rec [of m now s])
    next
      case False
      have "dispatch m now s = s"
        by (simp only: dispatch_rec [of m now s] Cons e list.case prod.case if_not_P [OF False])
      then show ?thesis using less.prems by simp
    qed
  qed
qed

text \<open>A source of the last listing is excluded exactly when the refresh drops it.\<close>

definition listed :: "repo \<Rightarrow> source \<Rightarrow> bool" where
  "listed db source \<longleftrightarrow> (\<exists>r \<in> set (rp_sources db). sr_id r = src_id source \<and> sr_endpoint r = src_endpoint source
     \<and> src_state source = parse_source_state (sr_state r))"

lemma listed_excluded:
  assumes "keys_ok db" and "listed db source"
  shows "excluded U db (src_id source)
    \<longleftrightarrow> src_state source \<in> {Draining, Ended, Lost} \<or> \<not> scrapable_url U (src_endpoint source)"
proof -
  obtain r where r: "r \<in> set (rp_sources db)" "sr_id r = src_id source" "sr_endpoint r = src_endpoint source"
    "src_state source = parse_source_state (sr_state r)" using assms(2) by (auto simp: listed_def)
  have "distinct (map sr_id (rp_sources db))" using assms(1) by (simp add: keys_ok_def)
  then have only: "q = r" if "q \<in> set (rp_sources db)" "sr_id q = src_id source" for q
    using that r(1,2) by (metis distinct_map inj_onD)
  have "0 < stage q \<longleftrightarrow> q \<in> {Draining, Ended, Lost}" for q by (cases q) auto
  with r only show ?thesis unfolding excluded_def by metis
qed

lemma refresh_source_inv:
  assumes inv: "sched_inv U db P s" and db: "keys_ok db" and l: "listed db source"
  shows "sched_inv U db P (refresh_source U now source s)" and "sp_tasks (refresh_source U now source s) = sp_tasks s"
proof -
  let ?k = "src_id source"
  have "sched_inv U db P (refresh_source U now source s) \<and> sp_tasks (refresh_source U now source s) = sp_tasks s"
  proof (cases "excluded U db ?k")
    case True
    then have s': "refresh_source U now source s = s\<lparr>sp_sources := (sp_sources s)(?k := None)\<rparr>"
      using listed_excluded [OF db l] by (simp add: refresh_source_def)
    show ?thesis using inv True unfolding s' sched_inv_def by (auto simp: running_def)
  next
    case False
    then have s': "refresh_source U now source s = (let s' = (if sp_sources s ?k = None \<and> ?k \<notin> sp_scheduled s then push now ?k s else s)
           in s'\<lparr>sp_sources := (sp_sources s')(?k \<mapsto> source)\<rparr>)"
      using listed_excluded [OF db l] by (simp add: refresh_source_def Let_def)
    show ?thesis
    proof (cases "sp_sources s ?k = None \<and> ?k \<notin> sp_scheduled s")
      case True
      have "?k \<in> dom (sp_sources s) \<or> excluded U db ?k" if "?k \<in> sp_scheduled s \<union> set (running s) \<union> P"
        using inv that unfolding sched_inv_def by simp
      with True False have "?k \<notin> set (running s) \<union> P" by (auto simp: domIff)
      then show ?thesis using inv True unfolding s' sched_inv_def
        by (auto simp: running_def push_def insort_snd Let_def)
    next
      case no: False
      have "?k \<in> sp_scheduled s \<union> set (running s) \<union> P" using inv no unfolding sched_inv_def by auto
      then show ?thesis using inv no unfolding s' sched_inv_def by (auto simp: running_def Let_def)
    qed
  qed
  then show "sched_inv U db P (refresh_source U now source s)"
    and "sp_tasks (refresh_source U now source s) = sp_tasks s" by blast+
qed

lemma list_all2_right: "list_all2 P xs ys \<Longrightarrow> y \<in> set ys \<Longrightarrow> \<exists>x \<in> set xs. P x y"
  by (induction rule: list_all2_induct) auto

lemma list_sources_listed:
  assumes "list_sources X db None = Inr sources" and "source \<in> set sources"
  shows "listed db source"
proof -
  obtain r where "r \<in> set (rp_sources db)" "source_from_row X db r = Inr source"
    using assms(1) list_all2_right [OF _ assms(2)] unfolding list_sources_def try_map_eq_Inr by fastforce
  then show ?thesis using source_from_row_cols unfolding listed_def by metis
qed


lemma refresh_fold_inv:
  assumes "keys_ok db" and "\<forall>source \<in> set sources. listed db source"
  shows "sched_inv U db P s \<Longrightarrow> sched_inv U db P (fold (refresh_source U now) sources s)
    \<and> sp_tasks (fold (refresh_source U now) sources s) = sp_tasks s"
  using assms(2) by (induction sources arbitrary: s) (simp_all add: refresh_source_inv [OF _ assms(1)])



definition scraper_ok :: "repo_env \<Rightarrow> url_parser \<Rightarrow> nat \<Rightarrow> repo \<times> scraper \<times> string set \<Rightarrow> bool" where
  "scraper_ok X U m = (\<lambda>(db, s, P). repo_inv X db \<and> sched_inv U db P s \<and> length (sp_tasks s) \<le> max m 1)"

lemma scrape_step_ok:
  assumes "scrape_step X U m c c'" and "scraper_ok X U m c"
  shows "scraper_ok X U m c'"
  using assms
proof (induction rule: scrape_step.induct)
  case (metadata db db' s P)
  have ok: "step_ok X db db'" by (rule repo_step_ok [OF metadata(1)])
  then have "repo_inv X db'" using metadata(2) by (simp add: scraper_ok_def step_ok_def)
  moreover have "sched_inv U db' P s"
    using metadata(2) excluded_step [OF _ ok] unfolding scraper_ok_def sched_inv_def by auto
  ultimately show ?case using metadata(2) by (simp add: scraper_ok_def)
next
  case (refreshed db s P now)
  have db: "keys_ok db" using refreshed by (simp add: scraper_ok_def repo_inv_def)
  show ?case
  proof (cases "list_sources X db None")
    case (Inr sources)
    then have "\<forall>source \<in> set sources. listed db source" using list_sources_listed by blast
    from refresh_fold_inv [OF db this, of U P s now] refreshed Inr show ?thesis
      by (simp add: scraper_ok_def refresh_schedule_def)
  qed (use refreshed in \<open>simp add: refresh_schedule_def\<close>)
next
  case (finished source s db P now result)
  have "length (sp_tasks (joined now source result s)) \<le> length (sp_tasks s)"
    by (simp add: joined_def finish_def push_def length_remove1 split: option.split)
  with finished joined_inv [of U db P s source result now] show ?case by (simp add: scraper_ok_def)
next
  case (dispatched db s P now)
  then show ?case using dispatch_inv [of U db P s "max m 1" now] by (simp add: scraper_ok_def)
qed

lemma scrape_steps_ok: "(scrape_step X U m)\<^sup>*\<^sup>* c c' \<Longrightarrow> scraper_ok X U m c \<Longrightarrow> scraper_ok X U m c'"
  by (induction rule: rtranclp_induct) (auto intro: scrape_step_ok)

lemma scraper_ok_start: "scraper_ok X U m (empty_repo, idle_scraper, {})"
  by (simp add: scraper_ok_def repo_inv_empty sched_inv_def idle_scraper_def running_def)

section \<open>Properties\<close>





text \<open>
  The one way to lose a source: its scrape panics. The task leaves no entry in the schedule, and since
  the loop still knows the source, no refresh schedules it, although it is open and reachable, until
  the process restarts.
\<close>

lemma history_grows: "scrape_step X U m c c' \<Longrightarrow> snd (snd c) \<subseteq> snd (snd c')"
  by (induction rule: scrape_step.induct) auto

lemma panicked_source_is_lost:
  assumes "(scrape_step X U m)\<^sup>*\<^sup>* (empty_repo, idle_scraper, {}) (db, s, P)" and "source \<in> set (sp_tasks s)"
    and "(scrape_step X U m)\<^sup>*\<^sup>* (db, joined now source None s, insert (src_id source) P) (db', s', P')"
  shows "src_id source \<notin> snd ` set (sp_schedule s') \<union> set (running s')"
proof -
  have "snd (snd c) \<subseteq> snd (snd c')" if "(scrape_step X U m)\<^sup>*\<^sup>* c c'" for c c'
    using that by (induction rule: rtranclp_induct) (auto dest: history_grows)
  from this [OF assms(3)] have "src_id source \<in> P'" by auto
  moreover have "scraper_ok X U m (db, s, P)" by (rule scrape_steps_ok [OF assms(1) scraper_ok_start])
  then have "scraper_ok X U m (db, joined now source None s, insert (src_id source) P)"
    using scrape_step_ok [OF scrape_step.finished [OF assms(2), of X U m db P now None]] by simp
  then have "scraper_ok X U m (db', s', P')" by (rule scrape_steps_ok [OF assms(3)])
  ultimately show ?thesis by (auto simp: scraper_ok_def sched_inv_def)
qed

end
