(* ===== verification/F64_Text.thy ===== *)
theory F64_Text
  imports F64 Rust_Str
begin

text \<open>
  The parts of the standard library that the alert language needs of \<open>f64\<close>: the total order
  \<open>f64::total_cmp\<close>, \<open>sqrt\<close>, \<open>powi(2)\<close>, sums, the casts to unsigned integers, \<open>str::parse\<close> of
  decimal numbers and the printing done by \<open>Display\<close>, \<open>Debug\<close>, \<open>{:.p}\<close> and \<open>{:.pe}\<close>.
  Parsing rounds the exact decimal once; printing without a precision yields the shortest
  decimal that reads back as the same number.
\<close>

section \<open>Total order\<close>

text \<open>\<open>f64::total_cmp\<close>: \<open>- 0.0\<close> is below \<open>0.0\<close>, NaN (the positive one) above everything.\<close>

fun total_key :: "f64 \<Rightarrow> nat \<times> rat \<times> nat" where
  "total_key NegInf = (0, 0, 0)"
| "total_key NegZero = (1, 0, 0)"
| "total_key (Fin r) = (1, r, 1)"
| "total_key PosInf = (2, 0, 0)"
| "total_key NaN = (3, 0, 0)"

definition f64_total_le :: "f64 \<Rightarrow> f64 \<Rightarrow> bool" where
  "f64_total_le x y \<longleftrightarrow>
     (case (total_key x, total_key y) of ((a, r, s), (b, q, t)) \<Rightarrow>
        a < b \<or> (a = b \<and> (r < q \<or> (r = q \<and> s \<le> t))))"

instantiation f64 :: linorder
begin

definition less_eq_f64 :: "f64 \<Rightarrow> f64 \<Rightarrow> bool" where
  "less_eq_f64 x y = f64_total_le x y"

definition less_f64 :: "f64 \<Rightarrow> f64 \<Rightarrow> bool" where
  "less_f64 x y \<longleftrightarrow> f64_total_le x y \<and> \<not> f64_total_le y x"

instance
proof
  fix x y z :: f64
  show "x < y \<longleftrightarrow> x \<le> y \<and> \<not> y \<le> x" by (simp add: less_f64_def less_eq_f64_def)
  show "x \<le> x" by (cases x) (simp_all add: less_eq_f64_def f64_total_le_def)
  show "x \<le> y \<Longrightarrow> y \<le> z \<Longrightarrow> x \<le> z"
    by (cases x; cases y; cases z) (auto simp: less_eq_f64_def f64_total_le_def)
  show "x \<le> y \<Longrightarrow> y \<le> x \<Longrightarrow> x = y"
    by (cases x; cases y) (auto simp: less_eq_f64_def f64_total_le_def)
  show "x \<le> y \<or> y \<le> x"
    by (cases x; cases y) (auto simp: less_eq_f64_def f64_total_le_def)
qed

end

section \<open>Arithmetic\<close>

text \<open>\<open>Sum for f64\<close> folds from \<open>- 0.0\<close>, the neutral element of addition.\<close>

definition f64_sum :: "f64 list \<Rightarrow> f64" where
  "f64_sum xs = foldl f64_add NegZero xs"

definition f64_square :: "f64 \<Rightarrow> f64" where
  "f64_square x = f64_mul x x"

fun isqrt :: "nat \<Rightarrow> nat" where
  "isqrt n = (if n = 0 then 0
              else let r = 2 * isqrt (n div 4) in if (r + 1)\<^sup>2 \<le> n then r + 1 else r)"

declare isqrt.simps [simp del]

text \<open>\<open>f64::sqrt\<close> is correctly rounded: \<open>n\<close> below holds the 53 bits of the root.\<close>

definition f64_sqrt :: "f64 \<Rightarrow> f64" where
  "f64_sqrt x =
     (case x of
        NaN \<Rightarrow> NaN | PosInf \<Rightarrow> PosInf | NegInf \<Rightarrow> NaN | NegZero \<Rightarrow> NegZero
      | Fin r \<Rightarrow>
          if r < 0 then NaN else if r = 0 then Fin 0
          else let e = rat_log2 r div 2 - 52;
                   s = r / power_int 2 (2 * e);
                   n = isqrt (nat (floor s));
                   h = of_nat n + 1 / 2;
                   m = (if s < h * h then n else n + 1)
               in Fin (of_nat m * power_int 2 e))"

text \<open>\<open>x as usize\<close>, \<open>x as u64\<close>.\<close>

fun f64_to_u64 :: "f64 \<Rightarrow> nat" where
  "f64_to_u64 PosInf = u64_max"
| "f64_to_u64 (Fin r) = min u64_max (nat (floor r))"
| "f64_to_u64 _ = 0"

text \<open>\<open>x.fract() == 0.0\<close>\<close>

fun f64_integral :: "f64 \<Rightarrow> bool" where
  "f64_integral (Fin r) = (of_int (floor r) = r)"
| "f64_integral NegZero = True"
| "f64_integral _ = False"

section \<open>Reading\<close>

definition digit_val :: "char \<Rightarrow> nat" where
  "digit_val c = byte c - 48"

definition digits_val :: "string \<Rightarrow> nat" where
  "digits_val s = foldl (\<lambda>n c. 10 * n + digit_val c) 0 s"

definition all_digits :: "string \<Rightarrow> bool" where
  "all_digits s \<longleftrightarrow> list_all is_ascii_digit s"

fun split_at_char :: "(char \<Rightarrow> bool) \<Rightarrow> string \<Rightarrow> string \<times> string option" where
  "split_at_char P [] = ([], None)"
| "split_at_char P (c # s) =
     (if P c then ([], Some s) else let (a, b) = split_at_char P s in (c # a, b))"

text \<open>\<open>usize::from_str\<close>: an optional \<open>+\<close>, then digits, within range.\<close>

definition parse_usize :: "string \<Rightarrow> nat option" where
  "parse_usize s =
     (let d = (case s of c # s' \<Rightarrow> if c = CHR ''+'' then s' else s | [] \<Rightarrow> [])
      in if d \<noteq> [] \<and> all_digits d \<and> digits_val d \<le> u64_max then Some (digits_val d) else None)"

text \<open>The exponent: an optional sign and at least one digit.\<close>

definition parse_exponent :: "string \<Rightarrow> int option" where
  "parse_exponent s =
     (let (neg, d) = (case s of
          c # s' \<Rightarrow> if c = CHR ''-'' then (True, s') else if c = CHR ''+'' then (False, s') else (False, s)
        | [] \<Rightarrow> (False, []))
      in if d \<noteq> [] \<and> all_digits d
         then Some (if neg then - int (digits_val d) else int (digits_val d)) else None)"

text \<open>\<open>f64::from_str\<close> of an unsigned decimal: digits with at most one point, at least one digit,
  an optional exponent. (The texts the lexer hands over start with a digit or a point, so the
  words for infinities and NaN and the leading sign do not occur.)\<close>

definition parse_f64 :: "string \<Rightarrow> f64 option" where
  "parse_f64 s =
     (let (mantissa, exponent) = split_at_char (\<lambda>c. c = CHR ''e'' \<or> c = CHR ''E'') s;
          (whole, fraction) = split_at_char (\<lambda>c. c = CHR ''.'') mantissa;
          frac = (case fraction of None \<Rightarrow> [] | Some f \<Rightarrow> f);
          e = (case exponent of None \<Rightarrow> Some 0 | Some t \<Rightarrow> parse_exponent t)
      in if whole @ frac \<noteq> [] \<and> all_digits (whole @ frac)
         then map_option (\<lambda>e. round_f64 False
                (of_nat (digits_val (whole @ frac)) * power_int 10 (e - int (length frac)))) e
         else None)"

section \<open>Printing\<close>

definition rat_log10 :: "rat \<Rightarrow> int" where
  "rat_log10 a =
     (let (p, q) = quotient_of a;
          e = int (ilog10 (nat p)) - int (ilog10 (nat q))
      in if a < power_int 10 e then e - 1 else e)"

text \<open>The decimal \<open>k * 10 ^ e\<close> with \<open>n\<close> significant digits nearest to a positive number.\<close>

definition nearest_decimal :: "nat \<Rightarrow> rat \<Rightarrow> nat \<times> int" where
  "nearest_decimal n a =
     (let e = rat_log10 a - int n + 1 in (nat (round_half_even (a / power_int 10 e)), e))"

definition decimal_rat :: "nat \<times> int \<Rightarrow> rat" where
  "decimal_rat d = of_nat (fst d) * power_int 10 (snd d)"

text \<open>Seventeen digits always identify a number, so the search stops there.\<close>

fun shortest_from :: "nat \<Rightarrow> nat \<Rightarrow> rat \<Rightarrow> nat \<times> int" where
  "shortest_from 0 n a = nearest_decimal n a"
| "shortest_from (Suc k) n a =
     (if round_f64 False (decimal_rat (nearest_decimal n a)) = Fin a then nearest_decimal n a
      else shortest_from k (Suc n) a)"

fun strip_zeros :: "string \<times> int \<Rightarrow> string \<times> int" where
  "strip_zeros (ds, e) =
     (let zs = takeWhile (\<lambda>c. c = CHR ''0'') (rev ds)
      in (take (length ds - length zs) ds, e + int (length zs)))"

definition shortest :: "rat \<Rightarrow> string \<times> int" where
  "shortest a = (let (k, e) = shortest_from 16 1 a in strip_zeros (show_nat k, e))"

definition place_point :: "nat \<Rightarrow> string \<times> int \<Rightarrow> string" where
  "place_point min_frac d =
     (let (ds, e) = d; f = nat (- e)
      in if 0 \<le> e
         then ds @ replicate (nat e) CHR ''0''
              @ (if min_frac = 0 then [] else CHR ''.'' # replicate min_frac CHR ''0'')
         else if length ds \<le> f then ''0.'' @ replicate (f - length ds) CHR ''0'' @ ds
         else take (length ds - f) ds @ CHR ''.'' # drop (length ds - f) ds)"

definition exponent_form :: "string \<times> int \<Rightarrow> string" where
  "exponent_form d =
     (let (ds, e) = d
      in take 1 ds @ (if length ds = 1 then [] else CHR ''.'' # drop 1 ds)
         @ CHR ''e'' # show_int (e + int (length ds) - 1))"

text \<open>Every form prints the special values and the sign the same way.\<close>

definition with_sign :: "(rat \<Rightarrow> string) \<Rightarrow> f64 \<Rightarrow> string" where
  "with_sign f x =
     (case x of
        NaN \<Rightarrow> ''NaN'' | PosInf \<Rightarrow> ''inf'' | NegInf \<Rightarrow> ''-inf''
      | NegZero \<Rightarrow> CHR ''-'' # f 0
      | Fin r \<Rightarrow> if r < 0 then CHR ''-'' # f (- r) else f r)"

definition show_f64 :: "f64 \<Rightarrow> string" where
  "show_f64 = with_sign (\<lambda>a. if a = 0 then ''0'' else place_point 0 (shortest a))"

definition debug_f64 :: "f64 \<Rightarrow> string" where
  "debug_f64 = with_sign
     (\<lambda>a. if a = 0 then ''0.0''
          else if a < 1 / 10000 \<or> 10000000000000000 \<le> a then exponent_form (shortest a)
          else place_point 1 (shortest a))"

definition fixed_f64 :: "nat \<Rightarrow> f64 \<Rightarrow> string" where
  "fixed_f64 p = with_sign
     (\<lambda>a. let ds = show_nat (nat (round_half_even (a * 10 ^ p)));
              ds' = replicate (p + 1 - length ds) CHR ''0'' @ ds
          in if p = 0 then ds'
             else take (length ds' - p) ds' @ CHR ''.'' # drop (length ds' - p) ds')"

definition exp_f64 :: "nat \<Rightarrow> f64 \<Rightarrow> string" where
  "exp_f64 p = with_sign
     (\<lambda>a. if a = 0 then exponent_form (replicate (p + 1) CHR ''0'', - int p)
          else let (k, e) = nearest_decimal (p + 1) a;
                   (k', e') = (if k = 10 ^ (p + 1) then (10 ^ p, e + 1) else (k, e))
               in exponent_form (show_nat k', e'))"

section \<open>Lemmas\<close>

lemma isqrt_bounds: "(isqrt n)\<^sup>2 \<le> n \<and> n < (isqrt n + 1)\<^sup>2"
proof (induction n rule: isqrt.induct)
  case (1 n)
  show ?case
  proof (cases "n = 0")
    case True
    then show ?thesis by (simp add: isqrt.simps)
  next
    case False
    define q where "q = isqrt (n div 4)"
    have "q\<^sup>2 \<le> n div 4" "n div 4 < (q + 1)\<^sup>2" using 1 False by (simp_all add: q_def)
    then have lo: "(2 * q)\<^sup>2 \<le> n" and hi: "n < (2 * q + 2)\<^sup>2"
      by (simp_all add: power2_eq_square algebra_simps)
    have "isqrt n = (if (2 * q + 1)\<^sup>2 \<le> n then 2 * q + 1 else 2 * q)"
      using False by (subst isqrt.simps) (simp add: q_def Let_def)
    with lo hi show ?thesis by (simp add: numeral_2_eq_2)
  qed
qed

lemma f64_less_total: "f64_less x y \<Longrightarrow> x < y"
  by (cases x; cases y) (auto simp: less_f64_def f64_total_le_def)

lemma total_f64_le: "f64_is_finite x \<Longrightarrow> f64_is_finite y \<Longrightarrow> x \<le> y \<Longrightarrow> f64_le x y"
  by (cases x; cases y) (auto simp: less_eq_f64_def f64_total_le_def f64_le_finite)

subsection \<open>Exact results\<close>

lemma nat_floorlog_bounds:
  "0 < n \<Longrightarrow> power_int 2 (int (floorlog 2 n) - 1) \<le> (of_nat n :: rat) \<and> of_nat n < power_int (2::rat) (int (floorlog 2 n))"
proof -
  assume n: "0 < n"
  from floorlog_bounds [OF n, of 2] have b: "2 ^ (floorlog 2 n - 1) \<le> n" "n < 2 ^ floorlog 2 n" by auto
  have pos: "0 < floorlog 2 n" using n by (simp add: floorlog_def)
  have "(of_nat (2 ^ (floorlog 2 n - 1)) :: rat) \<le> of_nat n" "(of_nat n :: rat) < of_nat (2 ^ floorlog 2 n)"
    using b by (simp_all only: of_nat_le_iff of_nat_less_iff)
  moreover have "int (floorlog 2 n) - 1 = int (floorlog 2 n - 1)" using pos by simp
  ultimately show ?thesis by (simp only: power_int_of_nat of_nat_power of_nat_numeral)
qed

lemma rat_log2_bounds:
  assumes "0 < a"
  shows "power_int 2 (rat_log2 a) \<le> a" and "a < power_int 2 (rat_log2 a + 1)"
proof -
  obtain p q where pq: "quotient_of a = (p, q)" by force
  have q: "0 < q" using pq by (rule quotient_of_denom_pos)
  have a: "a = of_int p / of_int q" using pq by (rule quotient_of_div)
  have p: "0 < p" using assms a q by (simp add: zero_less_divide_iff)
  define i where "i = int (floorlog 2 (nat p))"
  define j where "j = int (floorlog 2 (nat q))"
  define e where "e = i - j"
  have P: "power_int 2 (i - 1) \<le> (of_int p :: rat)" "of_int p < power_int (2::rat) i"
    using nat_floorlog_bounds [of "nat p"] p by (simp_all add: i_def of_nat_nat)
  have Q: "power_int 2 (j - 1) \<le> (of_int q :: rat)" "of_int q < power_int (2::rat) j"
    using nat_floorlog_bounds [of "nat q"] q by (simp_all add: j_def of_nat_nat)
  have qpos: "(0::rat) < of_int q" using q by simp
  have "a < power_int 2 (e + 1)"
  proof -
    have "power_int 2 (e + 1) * power_int (2::rat) (j - 1) = power_int 2 i"
      by (simp add: e_def flip: power_int_add)
    moreover have "power_int 2 (e + 1) * power_int (2::rat) (j - 1) \<le> power_int 2 (e + 1) * of_int q"
      using Q(1) by (intro mult_left_mono) simp_all
    ultimately show ?thesis using P(2) qpos by (simp add: a pos_divide_less_eq)
  qed
  moreover have "power_int 2 (e - 1) \<le> a"
  proof -
    have "power_int 2 (e - 1) * power_int (2::rat) j = power_int 2 (i - 1)"
      by (simp add: e_def flip: power_int_add)
    moreover have "power_int 2 (e - 1) * of_int q \<le> power_int 2 (e - 1) * power_int (2::rat) j"
      using Q(2) by (intro mult_left_mono) simp_all
    ultimately show ?thesis using P(1) qpos by (simp add: a pos_le_divide_eq)
  qed
  moreover have "rat_log2 a = (if a < power_int 2 e then e - 1 else e)"
    by (simp add: rat_log2_def pq i_def j_def e_def Let_def)
  ultimately show "power_int 2 (rat_log2 a) \<le> a" "a < power_int 2 (rat_log2 a + 1)"
    by (simp_all split: if_splits)
qed

lemma round_half_even_int [simp]: "round_half_even (of_int n) = n"
  by (simp add: round_half_even_def)

text \<open>Numbers of 53 significant bits within the exponent range are represented exactly.\<close>

lemma round_f64_exact:
  assumes r: "r = of_int m * power_int 2 k" and m: "\<bar>m\<bar> < 2 ^ 53" and k: "- 1074 \<le> k" "k \<le> 971"
    and "r \<noteq> 0"
  shows "round_f64 z r = Fin r"
proof -
  define a where "a = \<bar>r\<bar>"
  define e where "e = max (rat_log2 a) (- 1022) - 52"
  have apos: "0 < a" using assms by (simp add: a_def)
  have a: "a = of_int \<bar>m\<bar> * power_int 2 k" by (simp add: a_def r abs_mult)
  have "(of_int \<bar>m\<bar> :: rat) < of_int (2 ^ 53)" using m by (simp only: of_int_less_iff)
  then have "a < 2 ^ 53 * power_int 2 k" unfolding a by (intro mult_strict_right_mono) simp_all
  also have "\<dots> = power_int 2 (k + 53)" by (simp add: power_int_add)
  finally have ahi: "a < power_int 2 (k + 53)" .
  with rat_log2_bounds(1) [OF apos] have "power_int (2::rat) (rat_log2 a) < power_int 2 (k + 53)" by simp
  then have "rat_log2 a < k + 53"
    by (rule contrapos_pp) (simp add: not_less power_int_increasing)
  then have ek: "e \<le> k" using k by (simp add: e_def)
  have "a / power_int 2 e = of_int \<bar>m\<bar> * power_int 2 (k - e)"
    by (simp add: a power_int_diff)
  also have "\<dots> = of_int (\<bar>m\<bar> * 2 ^ nat (k - e))"
    using ek by (simp add: power_int_def)
  finally have "of_int (round_half_even (a / power_int 2 e)) * power_int 2 e = a"
    by (metis nonzero_eq_divide_eq power_int_not_zero round_half_even_int zero_neq_numeral)
  moreover have "a < power_int 2 1024"
  proof -
    have "power_int (2::rat) (k + 53) \<le> power_int 2 1024" using k by (intro power_int_increasing) simp_all
    with ahi show ?thesis by (rule less_le_trans)
  qed
  ultimately show ?thesis
    using \<open>r \<noteq> 0\<close> apos by (simp add: round_f64_def Let_def flip: a_def e_def) (simp add: a_def)
qed

lemma round_f64_int:
  "\<bar>n\<bar> < 9007199254740992 \<Longrightarrow> round_f64 False (of_int n) = Fin (of_int n)"
  using round_f64_exact [of "of_int n" n 0 False]
  by (cases "n = 0") (simp_all add: round_f64_def signed_zero_def)

lemma round_f64_numeral:
  "numeral n < (9007199254740992::int) \<Longrightarrow> round_f64 False (numeral n) = Fin (numeral n)"
  using round_f64_int [of "numeral n"] by simp

lemma f64_of_int_exact: "\<bar>n\<bar> < 9007199254740992 \<Longrightarrow> f64_of_int n = Fin (of_int n)"
  by (simp add: f64_of_int_def round_f64_int)

end
