(* ===== verification/Alert_Syntax.thy ===== *)
theory Alert_Syntax
  imports F64_Text
begin

text \<open>
  The condition language of alert rules: \<open>rvx-tracker/src/alert/expression/syntax.rs\<close>. The lexer
  works on the remaining bytes of the input (the source keeps the input and an index), the
  parser on the remaining tokens. The parser's functions call each other through
  parentheses, so the outermost carries fuel; \<open>OutOfFuel\<close> is the value of a run that had too
  little, and \<open>parse\<close> starts with an amount that is always enough.
\<close>

section \<open>Expressions and tokens\<close>

datatype metric_window = Points nat | Span int

datatype unary_op = OpNeg | OpPos | OpNot

datatype binary_op =
    OpAdd | OpSub | OpMul | OpDiv | OpMod
  | OpEq | OpNe | OpLt | OpLe | OpGt | OpGe
  | OpAnd | OpOr

datatype expr =
    Number f64
  | Duration int
  | Metric string "metric_window option"
  | Call string "expr list"
  | Unary unary_op expr
  | Binary binary_op expr expr

datatype alert_token =
    TNumber f64
  | TDuration int
  | TIdent string
  | TLParen | TRParen | TLBracket | TRBracket | TComma
  | TPlus | TMinus | TStar | TSlash | TPercent
  | TEq | TNe | TLt | TLe | TGt | TGe
  | TAnd | TOr | TNot
  | TEnd

text \<open>
  \<open>TrackerError::InvalidInput\<close>. A message that shows values with \<open>{:?}\<close> is its fixed text and
  those values.
\<close>

datatype shown = ShownStr string | ShownChar string | ShownToken alert_token

datatype tracker_error =
    TrackerInput string
  | TrackerInputShown string "shown list"
  | OutOfFuel

section \<open>Validation of an expression\<close>

definition fixed_arity_one :: "string list" where
  "fixed_arity_one =
     [''mean'', ''std'', ''var'', ''median'', ''sum'', ''min'', ''max'', ''first'', ''last'', ''count'',
      ''diff'', ''rate'', ''pct_change'', ''slope'', ''zscore'', ''increasing'', ''decreasing'',
      ''isnan'', ''isinf'', ''has'', ''age'', ''no_data'']"

definition valid_arity :: "string \<Rightarrow> nat \<Rightarrow> tracker_error + bool" where
  "valid_arity name n =
     (if name = ''step'' \<or> name = ''elapsed'' then Inr (n = 0)
      else if name = ''ema'' \<or> name = ''stalled'' then Inr (1 \<le> n \<and> n \<le> 2)
      else if name \<in> set fixed_arity_one then Inr (n = 1)
      else Inl (TrackerInputShown ''unknown alert function '' [ShownStr name]))"

fun bare_metric :: "expr list \<Rightarrow> bool" where
  "bare_metric (Metric _ None # _) = True"
| "bare_metric _ = False"

fun windowed_metric :: "expr list \<Rightarrow> bool" where
  "windowed_metric (Metric _ (Some _) # _) = True"
| "windowed_metric _ = False"

fun positive_span :: "expr list \<Rightarrow> bool" where
  "positive_span (Duration n # _) = (0 < n)"
| "positive_span (Number x # _) = (f64_less (Fin 0) x \<and> f64_is_finite x)"
| "positive_span _ = False"

definition check_call :: "nat \<Rightarrow> string \<Rightarrow> expr list \<Rightarrow> tracker_error + unit" where
  "check_call capacity name args =
     rbind (valid_arity name (length args)) (\<lambda>valid.
     rbind (ensure valid (TrackerInput (''invalid arity for '' @ name))) (\<lambda>_.
     rbind (ensure (\<not> ((name = ''has'' \<or> name = ''age'') \<and> \<not> bare_metric args))
              (TrackerInput (name @ '' requires a metric name''))) (\<lambda>_.
     rbind (ensure (\<not> ((name = ''rate'' \<or> name = ''slope'') \<and> \<not> windowed_metric args))
              (TrackerInput (name @ '' requires a metric window''))) (\<lambda>_.
     rbind (ensure (\<not> (name = ''no_data'' \<and> \<not> positive_span args))
              (TrackerInput ''no_data requires a positive duration'')) (\<lambda>_.
     ensure (\<not> (name = ''diff'' \<and> capacity < 2 \<and> bare_metric args))
       (TrackerInput ''diff(metric) requires alert_window >= 2''))))))"

fun validate_expr :: "nat \<Rightarrow> expr \<Rightarrow> tracker_error + unit" where
  "validate_expr capacity (Metric name window) =
     (if name = [] \<or> 4096 < length name then Inl (TrackerInput ''invalid alert metric name'')
      else case window of
          Some (Points n) \<Rightarrow>
            ensure (n \<le> capacity) (TrackerInput ''rule window exceeds alert_window'')
        | _ \<Rightarrow> Inr ())"
| "validate_expr capacity (Unary _ v) = validate_expr capacity v"
| "validate_expr capacity (Binary _ l r) =
     rbind (validate_expr capacity l) (\<lambda>_. validate_expr capacity r)"
| "validate_expr capacity (Call name args) =
     rbind (check_call capacity name args) (\<lambda>_. for_each (validate_expr capacity) args)"
| "validate_expr capacity (Number _) = Inr ()"
| "validate_expr capacity (Duration _) = Inr ()"

section \<open>Lexer\<close>

definition is_ident_start :: "char \<Rightarrow> bool" where
  "is_ident_start c \<longleftrightarrow> is_ascii_alphabetic c \<or> c = CHR ''_''"

definition is_ident_continue :: "char \<Rightarrow> bool" where
  "is_ident_continue c \<longleftrightarrow>
     is_ascii_alphanumeric c \<or> c = CHR ''_'' \<or> c = CHR ''.'' \<or> c = CHR ''/'' \<or> c = CHR ''@''"

text \<open>The characters \<open>number\<close> consumes: digits and points, one exponent mark with its sign.\<close>

fun number_text :: "bool \<Rightarrow> string \<Rightarrow> string \<times> string" where
  "number_text exponent [] = ([], [])"
| "number_text exponent (c # s) =
     (if is_ascii_digit c \<or> c = CHR ''.'' then
        let (a, b) = number_text exponent s in (c # a, b)
      else if (c = CHR ''e'' \<or> c = CHR ''E'') \<and> \<not> exponent then
        (case s of
           d # s' \<Rightarrow>
             if d = CHR ''+'' \<or> d = CHR ''-'' then let (a, b) = number_text True s' in (c # d # a, b)
             else let (a, b) = number_text True s in (c # a, b)
         | [] \<Rightarrow> ([c], []))
      else ([], c # s))"

definition unit_multiplier :: "string \<Rightarrow> f64 option" where
  "unit_multiplier unit =
     (if unit = ''ns'' then Some (Fin 1)
      else if unit = ''us'' then Some (Fin 1000)
      else if unit = ''ms'' then Some (Fin 1000000)
      else if unit = ''s'' then Some (Fin 1000000000)
      else if unit = ''m'' then Some (f64_mul (Fin 60) (Fin 1000000000))
      else if unit = ''h'' then Some (f64_mul (Fin 3600) (Fin 1000000000))
      else if unit = ''d'' then Some (f64_mul (Fin 86400) (Fin 1000000000))
      else None)"

definition lex_number :: "string \<Rightarrow> tracker_error + alert_token \<times> string" where
  "lex_number s =
     (let (digits, rest) = number_text False s;
          unit = takeWhile is_ascii_alphabetic rest;
          rest' = dropWhile is_ascii_alphabetic rest
      in rbind (ok_or (TrackerInput ''invalid alert number'') (parse_f64 digits)) (\<lambda>number.
         rbind (ensure (f64_is_finite number) (TrackerInput ''alert number must be finite'')) (\<lambda>_.
         if unit = [] then Inr (TNumber number, rest')
         else rbind (ok_or (TrackerInputShown ''unknown alert duration unit '' [ShownStr unit])
                       (unit_multiplier unit)) (\<lambda>multiplier.
              rbind (ensure (\<not> f64_less (f64_of_int i64_max) (f64_mul number multiplier))
                       (TrackerInput ''alert duration overflows i64'')) (\<lambda>_.
              Inr (TDuration (f64_to_i64 (f64_mul number multiplier)), rest'))))))"

definition lex_quoted :: "char \<Rightarrow> string \<Rightarrow> tracker_error + alert_token \<times> string" where
  "lex_quoted quote s =
     (case split_at_char (\<lambda>c. c = quote) s of
        (value, Some rest) \<Rightarrow> Inr (TIdent value, rest)
      | (_, None) \<Rightarrow> Inl (TrackerInput ''unterminated quoted metric name''))"

definition lex_identifier :: "string \<Rightarrow> alert_token \<times> string" where
  "lex_identifier s =
     (let value = takeWhile is_ident_continue s; low = to_ascii_lowercase value
      in (if low = ''and'' then TAnd else if low = ''or'' then TOr else if low = ''not'' then TNot
          else TIdent value,
          dropWhile is_ident_continue s))"

text \<open>\<open>'c' if self.consume(next)\<close>: one or two characters.\<close>

definition with_next :: "char \<Rightarrow> alert_token \<Rightarrow> alert_token \<Rightarrow> string \<Rightarrow> alert_token \<times> string" where
  "with_next next two one s =
     (case s of c # s' \<Rightarrow> if c = next then (two, s') else (one, s) | [] \<Rightarrow> (one, s))"

text \<open>The bytes of the first character, for the error message.\<close>

definition first_char :: "string \<Rightarrow> string" where
  "first_char s =
     (case s of [] \<Rightarrow> [] | c # s' \<Rightarrow> c # takeWhile (\<lambda>d. 128 \<le> byte d \<and> byte d < 192) s')"

definition lex_symbol :: "char \<Rightarrow> string \<Rightarrow> tracker_error + alert_token \<times> string" where
  "lex_symbol c s =
     (if c = CHR ''('' then Inr (TLParen, s)
      else if c = CHR '')'' then Inr (TRParen, s)
      else if c = CHR ''['' then Inr (TLBracket, s)
      else if c = CHR '']'' then Inr (TRBracket, s)
      else if c = CHR '','' then Inr (TComma, s)
      else if c = CHR ''+'' then Inr (TPlus, s)
      else if c = CHR ''-'' then Inr (TMinus, s)
      else if c = CHR ''*'' then Inr (TStar, s)
      else if c = CHR ''/'' then Inr (TSlash, s)
      else if c = CHR ''%'' then Inr (TPercent, s)
      else if c = CHR ''!'' then Inr (with_next CHR ''='' TNe TNot s)
      else if c = CHR ''='' \<and> take 1 s = ''='' then Inr (TEq, drop 1 s)
      else if c = CHR ''<'' then Inr (with_next CHR ''='' TLe TLt s)
      else if c = CHR ''>'' then Inr (with_next CHR ''='' TGe TGt s)
      else if c = CHR ''&'' then Inr (with_next CHR ''&'' TAnd TAnd s)
      else if c = CHR ''|'' then Inr (with_next CHR ''|'' TOr TOr s)
      else Inl (TrackerInputShown ''unexpected alert expression character ''
                  [ShownChar (first_char (c # s))]))"

text \<open>\<open>next_token\<close>, after \<open>skip_space\<close>.\<close>

definition next_token :: "string \<Rightarrow> tracker_error + alert_token \<times> string" where
  "next_token input =
     (case trim_start input of
        [] \<Rightarrow> Inr (TEnd, [])
      | c # s \<Rightarrow>
          if is_ascii_digit c \<or> (c = CHR ''.'' \<and> (case s of d # _ \<Rightarrow> is_ascii_digit d | [] \<Rightarrow> False))
          then lex_number (c # s)
          else if byte c = 34 \<or> byte c = 39 \<or> c = CHR ''`'' then lex_quoted c s
          else if is_ident_start c then Inr (lex_identifier (c # s))
          else lex_symbol c s)"

text \<open>
  \<open>tokens\<close>: at most 256 tokens, the final \<open>End\<close> included; \<open>budget\<close> counts down what may still be
  pushed, so the recursion is structural.
\<close>

fun lex_tokens :: "nat \<Rightarrow> string \<Rightarrow> tracker_error + alert_token list" where
  "lex_tokens budget input =
     rbind (next_token input) (\<lambda>(t, rest).
       case budget of
         0 \<Rightarrow> Inl (TrackerInput ''alert expression exceeds 256 tokens'')
       | Suc b \<Rightarrow> if t = TEnd then Inr [t] else rbind (lex_tokens b rest) (\<lambda>ts. Inr (t # ts)))"

declare lex_tokens.simps [simp del]

definition tokens :: "string \<Rightarrow> tracker_error + alert_token list" where
  "tokens input = lex_tokens 256 input"

section \<open>Parser\<close>

text \<open>\<open>current\<close> reads \<open>End\<close> past the last token.\<close>

definition current :: "alert_token list \<Rightarrow> alert_token" where
  "current ts = (case ts of t # _ \<Rightarrow> t | [] \<Rightarrow> TEnd)"

definition expect :: "alert_token \<Rightarrow> alert_token list \<Rightarrow> tracker_error + alert_token list" where
  "expect t ts =
     (if current ts = t then Inr (tl ts)
      else Inl (TrackerInputShown ''expected, got'' [ShownToken t, ShownToken (current ts)]))"

fun comparison_op :: "alert_token \<Rightarrow> binary_op option" where
  "comparison_op TEq = Some OpEq"
| "comparison_op TNe = Some OpNe"
| "comparison_op TLt = Some OpLt"
| "comparison_op TLe = Some OpLe"
| "comparison_op TGt = Some OpGt"
| "comparison_op TGe = Some OpGe"
| "comparison_op _ = None"

fun additive_op :: "alert_token \<Rightarrow> binary_op option" where
  "additive_op TPlus = Some OpAdd"
| "additive_op TMinus = Some OpSub"
| "additive_op _ = None"

fun term_op :: "alert_token \<Rightarrow> binary_op option" where
  "term_op TStar = Some OpMul"
| "term_op TSlash = Some OpDiv"
| "term_op TPercent = Some OpMod"
| "term_op _ = None"

fun sign_op :: "alert_token \<Rightarrow> unary_op option" where
  "sign_op TMinus = Some OpNeg"
| "sign_op TPlus = Some OpPos"
| "sign_op _ = None"

text \<open>The window of a metric, after its bracket.\<close>

definition parse_window :: "alert_token list \<Rightarrow> tracker_error + metric_window \<times> alert_token list" where
  "parse_window ts =
     (case current ts of
        TNumber x \<Rightarrow>
          if f64_le (Fin 1) x \<and> f64_integral x then Inr (Points (f64_to_u64 x), tl ts)
          else Inl (TrackerInput ''metric window must be a positive integer or duration'')
      | TDuration d \<Rightarrow>
          if 0 < d then Inr (Span d, tl ts)
          else Inl (TrackerInput ''metric window must be a positive integer or duration'')
      | _ \<Rightarrow> Inl (TrackerInput ''metric window must be a positive integer or duration''))"

definition parse_suffix :: "expr \<Rightarrow> alert_token list \<Rightarrow> tracker_error + expr \<times> alert_token list" where
  "parse_suffix e ts =
     (if current ts = TLBracket then
        rbind (parse_window (tl ts)) (\<lambda>(w, ts1).
        rbind (expect TRBracket ts1) (\<lambda>ts2.
        case e of
          Metric name _ \<Rightarrow> Inr (Metric name (Some w), ts2)
        | _ \<Rightarrow> Inl (TrackerInput ''windows may only follow metric names'')))
      else Inr (e, ts))"

type_synonym parsed = "tracker_error + expr \<times> alert_token list"

text \<open>
  Every level of the grammar is a function of the parser of the expressions nested in
  parentheses and argument lists; \<open>or_expression\<close> closes the recursion, its fuel bounding the
  depth of nesting. A \<open>while\<close> or \<open>loop\<close> over operators consumes tokens in every round, so the
  number of tokens bounds its rounds.
\<close>

type_synonym token_parser_fun = "alert_token list \<Rightarrow> parsed"

fun binary_loop ::
  "nat \<Rightarrow> (alert_token \<Rightarrow> binary_op option) \<Rightarrow> token_parser_fun \<Rightarrow> expr \<Rightarrow> token_parser_fun" where
  "binary_loop 0 oper p e ts = Inl OutOfFuel"
| "binary_loop (Suc n) oper p e ts =
     (case oper (current ts) of
        None \<Rightarrow> Inr (e, ts)
      | Some b \<Rightarrow> rbind (p (tl ts)) (\<lambda>(r, ts1). binary_loop n oper p (Binary b e r) ts1))"

definition binary_chain ::
  "(alert_token \<Rightarrow> binary_op option) \<Rightarrow> token_parser_fun \<Rightarrow> token_parser_fun" where
  "binary_chain oper p ts = rbind (p ts) (\<lambda>(e, ts1). binary_loop (length ts) oper p e ts1)"

text \<open>\<open>primary\<close>; \<open>argument_loop\<close> is the loop over the arguments of a call.\<close>

fun argument_loop ::
  "nat \<Rightarrow> token_parser_fun \<Rightarrow> expr list \<Rightarrow> alert_token list
   \<Rightarrow> tracker_error + expr list \<times> alert_token list" where
  "argument_loop 0 p args ts = Inl OutOfFuel"
| "argument_loop (Suc n) p args ts =
     rbind (p ts) (\<lambda>(e, ts1).
       if current ts1 = TRParen then Inr (args @ [e], tl ts1)
       else rbind (expect TComma ts1) (\<lambda>ts2. argument_loop n p (args @ [e]) ts2))"

definition parse_call :: "token_parser_fun \<Rightarrow> string \<Rightarrow> token_parser_fun" where
  "parse_call p name ts =
     rbind (if current ts = TRParen then Inr ([], tl ts) else argument_loop (Suc (length ts)) p [] ts)
       (\<lambda>(args, ts1). Inr (Call (to_ascii_lowercase name) args, ts1))"

definition primary :: "token_parser_fun \<Rightarrow> token_parser_fun" where
  "primary p ts =
     rbind
       (case current ts of
          TNumber x \<Rightarrow> Inr (Number x, tl ts)
        | TDuration d \<Rightarrow> Inr (Duration d, tl ts)
        | TIdent name \<Rightarrow>
            if current (tl ts) = TLParen then parse_call p name (tl (tl ts))
            else Inr (Metric name None, tl ts)
        | TLParen \<Rightarrow>
            rbind (p (tl ts)) (\<lambda>(e, ts1). rbind (expect TRParen ts1) (\<lambda>ts2. Inr (e, ts2)))
        | t \<Rightarrow> Inl (TrackerInputShown ''unexpected alert token '' [ShownToken t]))
       (\<lambda>(e, ts1). parse_suffix e ts1)"

fun unary :: "token_parser_fun \<Rightarrow> token_parser_fun" where
  "unary p [] = primary p []"
| "unary p (t # ts) =
     (case sign_op t of
        Some oper \<Rightarrow> rbind (unary p ts) (\<lambda>(e, ts1). Inr (Unary oper e, ts1))
      | None \<Rightarrow> primary p (t # ts))"

definition parse_term :: "token_parser_fun \<Rightarrow> token_parser_fun" where
  "parse_term p = binary_chain term_op (unary p)"

definition additive :: "token_parser_fun \<Rightarrow> token_parser_fun" where
  "additive p = binary_chain additive_op (parse_term p)"

text \<open>\<open>a < b < c\<close> is \<open>a < b && b < c\<close>: \<open>previous\<close> is the last operand, \<open>e\<close> what was built so far.\<close>

fun comparison_loop ::
  "nat \<Rightarrow> token_parser_fun \<Rightarrow> expr \<Rightarrow> expr option \<Rightarrow> token_parser_fun" where
  "comparison_loop 0 p previous e ts = Inl OutOfFuel"
| "comparison_loop (Suc n) p previous e ts =
     (case comparison_op (current ts) of
        None \<Rightarrow> Inr (case e of Some c \<Rightarrow> c | None \<Rightarrow> previous, ts)
      | Some oper \<Rightarrow>
          rbind (p (tl ts)) (\<lambda>(right, ts1).
            let c = Binary oper previous right
            in comparison_loop n p right
                 (Some (case e of Some e' \<Rightarrow> Binary OpAnd e' c | None \<Rightarrow> c)) ts1))"

definition comparison :: "token_parser_fun \<Rightarrow> token_parser_fun" where
  "comparison p ts =
     rbind (additive p ts) (\<lambda>(e, ts1). comparison_loop (length ts) (additive p) e None ts1)"

fun not_expression :: "token_parser_fun \<Rightarrow> token_parser_fun" where
  "not_expression p [] = comparison p []"
| "not_expression p (t # ts) =
     (if t = TNot then rbind (not_expression p ts) (\<lambda>(e, ts1). Inr (Unary OpNot e, ts1))
      else comparison p (t # ts))"

definition and_op :: "alert_token \<Rightarrow> binary_op option" where
  "and_op t = (if t = TAnd then Some OpAnd else None)"

definition or_op :: "alert_token \<Rightarrow> binary_op option" where
  "or_op t = (if t = TOr then Some OpOr else None)"

definition and_expression :: "token_parser_fun \<Rightarrow> token_parser_fun" where
  "and_expression p = binary_chain and_op (not_expression p)"

primrec or_expression :: "nat \<Rightarrow> token_parser_fun" where
  "or_expression 0 = (\<lambda>ts. Inl OutOfFuel)"
| "or_expression (Suc n) = binary_chain or_op (and_expression (or_expression n))"

text \<open>Every level of nesting consumes a token.\<close>

definition parse_fuel :: "alert_token list \<Rightarrow> nat" where
  "parse_fuel ts = Suc (length ts)"

definition parse_tokens :: "alert_token list \<Rightarrow> tracker_error + expr" where
  "parse_tokens ts =
     rbind (or_expression (parse_fuel ts) ts) (\<lambda>(e, rest).
       if current rest = TEnd then Inr e
       else Inl (TrackerInput ''unexpected trailing alert expression input''))"

definition parse :: "string \<Rightarrow> tracker_error + expr" where
  "parse input =
     (if 8192 < length input then Inl (TrackerInput ''alert expression exceeds 8192 bytes'')
      else rbind (tokens input) parse_tokens)"

end
