(* ===== verification/Alert_Eval.thy ===== *)
theory Alert_Eval
  imports Alert_Syntax Json_Value
begin

text \<open>
  Evaluation of alert conditions: \<open>rvx-tracker/src/alert/expression/eval.rs\<close>, with the samples of
  \<open>alert/mod.rs\<close> and \<open>numeric_value\<close> of \<open>state.rs\<close>. Truth has three values; a value that cannot be
  computed is \<open>VUnknown\<close>. The series of a metric are a map by name (the source's \<open>HashMap\<close>, of
  which only lookups and sums over the entries are used).
\<close>

section \<open>Values\<close>

datatype rule_axis = WallTime | Step

record sample =
  sm_observed_at_ns :: int
  sm_step :: int
  sm_value :: f64

datatype tri = TriFalse | TriTrue | TriUnknown

fun tri_not :: "tri \<Rightarrow> tri" where
  "tri_not TriFalse = TriTrue"
| "tri_not TriTrue = TriFalse"
| "tri_not TriUnknown = TriUnknown"

definition tri_and :: "tri \<Rightarrow> tri \<Rightarrow> tri" where
  "tri_and a b =
     (if a = TriFalse \<or> b = TriFalse then TriFalse
      else if a = TriTrue \<and> b = TriTrue then TriTrue else TriUnknown)"

definition tri_or :: "tri \<Rightarrow> tri \<Rightarrow> tri" where
  "tri_or a b =
     (if a = TriTrue \<or> b = TriTrue then TriTrue
      else if a = TriFalse \<and> b = TriFalse then TriFalse else TriUnknown)"

definition tri_of_bool :: "bool \<Rightarrow> tri" where
  "tri_of_bool b = (if b then TriTrue else TriFalse)"

datatype evaluated =
    VNumber f64
  | VBool tri
  | VDuration int
  | VSeries "sample list"
  | VUnknown

fun truth :: "evaluated \<Rightarrow> tri" where
  "truth (VBool b) = b"
| "truth (VNumber x) =
     (if f64_is_finite x then (if f64_eq x (Fin 0) then TriFalse else TriTrue) else TriUnknown)"
| "truth _ = TriUnknown"

definition nanos :: f64 where
  "nanos = Fin 1000000000"

fun number_of :: "evaluated \<Rightarrow> f64 option" where
  "number_of (VNumber x) = Some x"
| "number_of (VDuration d) = Some (f64_div (f64_of_int d) nanos)"
| "number_of _ = None"

fun values_of :: "evaluated \<Rightarrow> f64 list" where
  "values_of (VNumber x) = [x]"
| "values_of (VSeries ss) = map sm_value ss"
| "values_of _ = []"

definition known_number :: "f64 option \<Rightarrow> evaluated" where
  "known_number v = (case v of Some x \<Rightarrow> VNumber x | None \<Rightarrow> VUnknown)"

definition NONFINITE_KEY :: string where
  "NONFINITE_KEY = ''$rvx.nonfinite''"

definition numeric_value :: "number_ext \<Rightarrow> json \<Rightarrow> f64 option" where
  "numeric_value N v =
     (case as_f64 N v of
        Some x \<Rightarrow> Some x
      | None \<Rightarrow>
          Option.bind (as_object v) (\<lambda>kvs.
          Option.bind (bm_get kvs NONFINITE_KEY) (\<lambda>w.
          Option.bind (as_str w) (\<lambda>t.
            if t = ''nan'' then Some NaN
            else if t = ''inf'' then Some PosInf
            else if t = ''-inf'' then Some NegInf
            else None))))"

type_synonym series_map = "(string, sample list) bmap"

record eval_context =
  ec_step :: int
  ec_observed_at_ns :: int
  ec_started_at_ns :: int
  ec_last_observed_at_ns :: "int option"
  ec_metrics :: "(string, json) bmap"
  ec_series :: series_map
  ec_pending :: "(string, sample) bmap"
  ec_partial_window :: bool
  ec_axis :: rule_axis
  ec_tick :: bool

section \<open>Metrics\<close>

definition last_sample :: "series_map \<Rightarrow> string \<Rightarrow> sample option" where
  "last_sample series name =
     (case bm_get series name of
        Some ss \<Rightarrow> if ss = [] then None else Some (last ss)
      | None \<Rightarrow> None)"

definition current_value :: "number_ext \<Rightarrow> string \<Rightarrow> eval_context \<Rightarrow> f64 option" where
  "current_value N name c =
     (case bm_get (ec_pending c) name of
        Some s \<Rightarrow> Some (sm_value s)
      | None \<Rightarrow> Option.bind (bm_get (ec_metrics c) name) (numeric_value N))"

text \<open>The stored samples of a metric followed by the one of the current step.\<close>

definition windowed :: "string \<Rightarrow> eval_context \<Rightarrow> sample list" where
  "windowed name c =
     (case bm_get (ec_series c) name of Some ss \<Rightarrow> ss | None \<Rightarrow> [])
     @ (case bm_get (ec_pending c) name of Some s \<Rightarrow> [s] | None \<Rightarrow> [])"

definition metric_value ::
  "number_ext \<Rightarrow> string \<Rightarrow> metric_window option \<Rightarrow> eval_context \<Rightarrow> evaluated" where
  "metric_value N name window c =
     (case window of
        None \<Rightarrow>
          known_number
            (case current_value N name c of
               Some x \<Rightarrow> Some x
             | None \<Rightarrow> if ec_tick c then map_option sm_value (last_sample (ec_series c) name) else None)
      | Some (Points points) \<Rightarrow>
          if \<not> ec_partial_window c \<and> length (windowed name c) < points then VUnknown
          else VSeries (drop (length (windowed name c) - points) (windowed name c))
      | Some (Span duration) \<Rightarrow>
          let start = saturating_sub_i64 (ec_observed_at_ns c) duration;
              values = windowed name c
          in if \<not> ec_partial_window c
                \<and> \<not> (case values of s # _ \<Rightarrow> sm_observed_at_ns s \<le> start | [] \<Rightarrow> False)
             then VUnknown
             else VSeries (filter (\<lambda>s. start \<le> sm_observed_at_ns s) values))"

section \<open>Operators\<close>

fun arithmetic :: "binary_op \<Rightarrow> f64 \<Rightarrow> f64 \<Rightarrow> f64 option" where
  "arithmetic OpAdd x y = Some (f64_add x y)"
| "arithmetic OpSub x y = Some (f64_sub x y)"
| "arithmetic OpMul x y = Some (f64_mul x y)"
| "arithmetic OpDiv x y = (if f64_eq y (Fin 0) then None else Some (f64_div x y))"
| "arithmetic OpMod x y = (if f64_eq y (Fin 0) then None else Some (f64_rem x y))"
| "arithmetic _ x y = None"

fun compare_f64 :: "binary_op \<Rightarrow> f64 \<Rightarrow> f64 \<Rightarrow> bool" where
  "compare_f64 OpEq x y = f64_eq x y"
| "compare_f64 OpNe x y = (\<not> f64_eq x y)"
| "compare_f64 OpLt x y = f64_less x y"
| "compare_f64 OpLe x y = f64_le x y"
| "compare_f64 OpGt x y = f64_less y x"
| "compare_f64 OpGe x y = f64_le y x"
| "compare_f64 _ x y = False"

definition is_arithmetic :: "binary_op \<Rightarrow> bool" where
  "is_arithmetic b \<longleftrightarrow> b = OpAdd \<or> b = OpSub \<or> b = OpMul \<or> b = OpDiv \<or> b = OpMod"

definition evaluate_binary :: "binary_op \<Rightarrow> evaluated \<Rightarrow> evaluated \<Rightarrow> evaluated" where
  "evaluate_binary b l r =
     (if b = OpAnd then VBool (tri_and (truth l) (truth r))
      else if b = OpOr then VBool (tri_or (truth l) (truth r))
      else if is_arithmetic b then
        (case (number_of l, number_of r) of
           (Some x, Some y) \<Rightarrow>
             (case arithmetic b x y of
                Some v \<Rightarrow> if f64_is_finite v then VNumber v else VUnknown
              | None \<Rightarrow> VUnknown)
         | _ \<Rightarrow> VUnknown)
      else
        (case (number_of l, number_of r) of
           (Some x, Some y) \<Rightarrow>
             if \<not> f64_is_finite x \<or> \<not> f64_is_finite y then VBool TriUnknown
             else VBool (tri_of_bool (compare_f64 b x y))
         | _ \<Rightarrow> VBool TriUnknown))"

definition evaluate_unary :: "unary_op \<Rightarrow> evaluated \<Rightarrow> evaluated" where
  "evaluate_unary u v =
     (case u of
        OpNeg \<Rightarrow> known_number (map_option f64_neg (number_of v))
      | OpPos \<Rightarrow> known_number (number_of v)
      | OpNot \<Rightarrow> VBool (tri_not (truth v)))"

section \<open>Functions\<close>

text \<open>\<open>windows(2).all\<close>\<close>

definition pairwise :: "('a \<Rightarrow> 'a \<Rightarrow> bool) \<Rightarrow> 'a list \<Rightarrow> bool" where
  "pairwise R xs \<longleftrightarrow> list_all (\<lambda>(x, y). R x y) (zip xs (tl xs))"

definition mean_f64 :: "f64 list \<Rightarrow> f64" where
  "mean_f64 xs = f64_div (f64_sum xs) (f64_of_nat (length xs))"

definition median_f64 :: "f64 list \<Rightarrow> f64" where
  "median_f64 xs =
     (let ys = sort xs; middle = length ys div 2
      in if even (length ys) then f64_div (f64_add (ys ! (middle - 1)) (ys ! middle)) (Fin 2)
         else ys ! middle)"

definition variance_f64 :: "f64 list \<Rightarrow> f64" where
  "variance_f64 xs =
     (let mean = mean_f64 xs
      in f64_div (f64_sum (map (\<lambda>x. f64_square (f64_sub x mean)) xs)) (f64_of_nat (length xs)))"

definition lowest :: "f64 list \<Rightarrow> f64" where
  "lowest xs = foldl f64_min PosInf xs"

definition highest :: "f64 list \<Rightarrow> f64" where
  "highest xs = foldl f64_max NegInf xs"

definition ema_f64 :: "f64 \<Rightarrow> f64 list \<Rightarrow> f64" where
  "ema_f64 alpha xs =
     foldl (\<lambda>ema x. f64_add (f64_mul alpha x) (f64_mul (f64_sub (Fin 1) alpha) ema)) (hd xs) (tl xs)"

fun coordinate :: "rule_axis \<Rightarrow> sample \<Rightarrow> int" where
  "coordinate WallTime s = sm_observed_at_ns s"
| "coordinate Step s = sm_step s"

fun trend_scale :: "rule_axis \<Rightarrow> f64" where
  "trend_scale WallTime = nanos"
| "trend_scale Step = Fin 1"

definition trend_xs :: "rule_axis \<Rightarrow> sample list \<Rightarrow> f64 list" where
  "trend_xs axis ss =
     map (\<lambda>s. f64_div (f64_of_int (coordinate axis s - coordinate axis (hd ss))) (trend_scale axis)) ss"

definition trend_result :: "rule_axis \<Rightarrow> bool \<Rightarrow> sample list \<Rightarrow> f64" where
  "trend_result axis rate ss =
     (let xs = trend_xs axis ss in
      if rate then f64_div (f64_sub (sm_value (last ss)) (sm_value (hd ss))) (last xs)
      else
        let mean_x = mean_f64 xs;
            mean_y = f64_div (f64_sum (map sm_value ss)) (f64_of_nat (length xs))
        in f64_div
             (f64_sum (map (\<lambda>(x, s). f64_mul (f64_sub x mean_x) (f64_sub (sm_value s) mean_y)) (zip xs ss)))
             (f64_sum (map (\<lambda>x. f64_square (f64_sub x mean_x)) xs)))"

definition trend :: "evaluated \<Rightarrow> rule_axis \<Rightarrow> bool \<Rightarrow> evaluated" where
  "trend series axis rate =
     (case series of
        VSeries ss \<Rightarrow>
          if length ss < 2 \<or> \<not> pairwise (\<lambda>a b. coordinate axis a < coordinate axis b) ss then VUnknown
          else if f64_is_finite (trend_result axis rate ss) then VNumber (trend_result axis rate ss)
          else VUnknown
      | _ \<Rightarrow> VUnknown)"

text \<open>The optional second argument of \<open>ema\<close> and \<open>stalled\<close>; \<open>vals\<close> are the arguments' values.\<close>

definition second_number :: "evaluated list \<Rightarrow> f64 \<Rightarrow> f64" where
  "second_number vals otherwise =
     (case Option.bind (if 1 < length vals then Some (vals ! 1) else None) number_of of
        Some x \<Rightarrow> x
      | None \<Rightarrow> otherwise)"

text \<open>The \<open>match\<close> at the end of \<open>evaluate_call\<close>: the aggregates of a series.\<close>

definition aggregate ::
  "string \<Rightarrow> evaluated list \<Rightarrow> rule_axis \<Rightarrow> evaluated \<Rightarrow> evaluated" where
  "aggregate name vals axis first =
     (let values = values_of first; finite = filter f64_is_finite values in
      if name = ''count'' then VNumber (f64_of_nat (length values))
      else if name = ''sum'' \<and> finite \<noteq> [] then VNumber (f64_sum finite)
      else if name = ''mean'' \<and> finite \<noteq> [] then VNumber (mean_f64 finite)
      else if name = ''median'' \<and> finite \<noteq> [] then VNumber (median_f64 finite)
      else if name = ''min'' \<and> finite \<noteq> [] then VNumber (lowest finite)
      else if name = ''max'' \<and> finite \<noteq> [] then VNumber (highest finite)
      else if name = ''first'' \<and> values \<noteq> [] then VNumber (hd values)
      else if name = ''last'' \<and> values \<noteq> [] then VNumber (last values)
      else if name = ''diff'' \<and> 2 \<le> length values then VNumber (f64_sub (last values) (hd values))
      else if name = ''pct_change'' \<and> 2 \<le> length values \<and> \<not> f64_eq (hd values) (Fin 0)
        then VNumber (f64_div (f64_sub (last values) (hd values)) (hd values))
      else if (name = ''rate'' \<or> name = ''slope'') \<and> 2 \<le> length values
        then trend first axis (name = ''rate'')
      else if (name = ''var'' \<or> name = ''std'') \<and> 2 \<le> length finite
        then VNumber (if name = ''std'' then f64_sqrt (variance_f64 finite) else variance_f64 finite)
      else if name = ''zscore'' \<and> 2 \<le> length finite then
        (let std = f64_sqrt (variance_f64 finite)
         in if f64_eq std (Fin 0) then VUnknown
            else VNumber (f64_div (f64_sub (last finite) (mean_f64 finite)) std))
      else if name = ''ema'' \<and> finite \<noteq> [] then
        (let alpha = second_number vals (round_f64 False (1 / 5))
         in if f64_le (Fin 0) alpha \<and> f64_le alpha (Fin 1) then VNumber (ema_f64 alpha finite)
            else VUnknown)
      else if name = ''increasing'' \<and> 2 \<le> length finite
        then VBool (tri_of_bool (pairwise (\<lambda>a b. f64_less a b) finite))
      else if name = ''decreasing'' \<and> 2 \<le> length finite
        then VBool (tri_of_bool (pairwise (\<lambda>a b. f64_less b a) finite))
      else if name = ''stalled'' \<and> 2 \<le> length finite
        then VBool (tri_of_bool (f64_le (f64_sub (highest finite) (lowest finite))
                                        (second_number vals (Fin 0))))
      else VUnknown)"

definition no_data :: "evaluated list \<Rightarrow> eval_context \<Rightarrow> bool" where
  "no_data vals c =
     (case (case vals of
              VDuration d # _ \<Rightarrow> Some d
            | VNumber x # _ \<Rightarrow> if f64_is_finite x then Some (f64_to_i64 (f64_mul x nanos)) else None
            | _ \<Rightarrow> None) of
        Some duration \<Rightarrow>
          saturating_add_i64
            (case ec_last_observed_at_ns c of Some t \<Rightarrow> t | None \<Rightarrow> ec_started_at_ns c) duration
          \<le> ec_observed_at_ns c
      | None \<Rightarrow> False)"

text \<open>The value of the first argument; \<open>diff\<close> of a bare metric looks at its last two samples.\<close>

definition first_value ::
  "number_ext \<Rightarrow> string \<Rightarrow> expr list \<Rightarrow> evaluated list \<Rightarrow> eval_context \<Rightarrow> evaluated" where
  "first_value N name args vals c =
     (case args of
        [] \<Rightarrow> VUnknown
      | a # _ \<Rightarrow>
          (case a of
             Metric metric None \<Rightarrow>
               if name = ''diff'' then metric_value N metric (Some (Points 2)) c else hd vals
           | _ \<Rightarrow> hd vals))"

definition test_number :: "(f64 \<Rightarrow> bool) \<Rightarrow> evaluated \<Rightarrow> evaluated" where
  "test_number P v =
     VBool (case number_of v of Some x \<Rightarrow> tri_of_bool (P x) | None \<Rightarrow> TriUnknown)"

definition has_metric :: "expr list \<Rightarrow> evaluated \<Rightarrow> eval_context \<Rightarrow> bool" where
  "has_metric args first c =
     (case args of
        Metric metric _ # _ \<Rightarrow>
          bm_contains (ec_pending c) metric \<or> bm_contains (ec_metrics c) metric
          \<or> (ec_tick c \<and> bm_contains (ec_series c) metric)
      | _ \<Rightarrow> first \<noteq> VUnknown)"

definition metric_age :: "expr list \<Rightarrow> eval_context \<Rightarrow> evaluated" where
  "metric_age args c =
     (case args of
        Metric metric _ # _ \<Rightarrow>
          (case (case bm_get (ec_pending c) metric of
                   Some s \<Rightarrow> Some s
                 | None \<Rightarrow> last_sample (ec_series c) metric) of
             Some s \<Rightarrow>
               VNumber (f64_div (f64_of_int
                 (saturating_sub_i64 (ec_observed_at_ns c) (sm_observed_at_ns s))) nanos)
           | None \<Rightarrow> VUnknown)
      | _ \<Rightarrow> VUnknown)"

definition evaluate_call ::
  "number_ext \<Rightarrow> string \<Rightarrow> expr list \<Rightarrow> evaluated list \<Rightarrow> eval_context \<Rightarrow> evaluated" where
  "evaluate_call N fname args vals c =
     (let name = to_ascii_lowercase fname; first = first_value N name args vals c in
      if name = ''step'' then VNumber (f64_of_int (ec_step c))
      else if name = ''elapsed'' then
        VNumber (f64_div (f64_of_int
          (saturating_sub_i64 (ec_observed_at_ns c) (ec_started_at_ns c))) nanos)
      else if name = ''no_data'' then VBool (tri_of_bool (no_data vals c))
      else if name = ''isnan'' then test_number f64_is_nan first
      else if name = ''isinf'' then test_number f64_is_infinite first
      else if name = ''has'' then VBool (tri_of_bool (has_metric args first c))
      else if name = ''age'' then metric_age args c
      else if first = VUnknown then VUnknown
      else if name \<noteq> ''count'' \<and> \<not> list_all f64_is_finite (values_of first) then VUnknown
      else aggregate name vals (ec_axis c) first)"

text \<open>
  \<open>evaluate\<close>. The source evaluates the arguments of a call where it needs them; evaluation has
  no effects, so the model hands \<open>evaluate_call\<close> the values of all of them.
\<close>

fun evaluate :: "number_ext \<Rightarrow> eval_context \<Rightarrow> expr \<Rightarrow> evaluated" where
  "evaluate N c (Number x) = VNumber x"
| "evaluate N c (Duration d) = VDuration d"
| "evaluate N c (Metric name window) = metric_value N name window c"
| "evaluate N c (Call name args) = evaluate_call N name args (map (evaluate N c) args) c"
| "evaluate N c (Unary oper e) = evaluate_unary oper (evaluate N c e)"
| "evaluate N c (Binary oper l r) = evaluate_binary oper (evaluate N c l) (evaluate N c r)"

fun touches_time :: "expr \<Rightarrow> bool" where
  "touches_time (Call name args) \<longleftrightarrow>
     name = ''no_data'' \<or> name = ''age'' \<or> name = ''elapsed'' \<or> list_ex touches_time args"
| "touches_time (Unary _ e) = touches_time e"
| "touches_time (Binary _ l r) \<longleftrightarrow> touches_time l \<or> touches_time r"
| "touches_time _ = False"

end
