(* ===== verification/Alert_Engine.thy ===== *)
theory Alert_Engine
  imports Alert_Eval
begin

text \<open>
  The alert engine of the tracker: rules and their text form (\<open>alert/model.rs\<close>), the engine's
  state, the two-phase update \<open>prepare\<close> / \<open>apply\<close>, message templates and \<open>replay\<close>
  (\<open>alert/mod.rs\<close>). \<open>alert_ext\<close> is what the source takes from \<open>serde_json\<close>: how number tokens are
  read, and the text of a value.
\<close>

record alert_ext =
  al_number :: number_ext
  al_text :: "json \<Rightarrow> string"

section \<open>Rules\<close>

datatype alert_level = Info | Warning | ErrorLevel | Critical

fun level_rank :: "alert_level \<Rightarrow> nat" where
  "level_rank Info = 0"
| "level_rank Warning = 1"
| "level_rank ErrorLevel = 2"
| "level_rank Critical = 3"

datatype alert_mode = Edge | Level

record alert_rule =
  ar_name :: string
  ar_condition :: string
  ar_level :: alert_level
  ar_message :: string
  ar_mode :: alert_mode
  ar_for_steps :: nat
  ar_for_duration_ms :: nat
  ar_partial_window :: bool
  ar_axis :: rule_axis
  ar_cooldown_seconds :: nat
  ar_max_fires :: "nat option"
  ar_notify_recovery :: bool
  ar_tags :: "string list"
  ar_channels :: "string list"

record alert_event =
  ev_rule :: string
  ev_level :: alert_level
  ev_message :: string
  ev_step :: int
  ev_observed_at_ns :: int
  ev_recovered :: bool
  ev_tags :: "string list"
  ev_channels :: "string list"

definition is_level :: "string \<Rightarrow> bool" where
  "is_level value \<longleftrightarrow>
     to_ascii_lowercase value \<in> {''info'', ''warn'', ''warning'', ''error'', ''critical''}"

definition level_of :: "string \<Rightarrow> alert_level" where
  "level_of head =
     (let low = to_ascii_lowercase head in
      if low = ''info'' then Info
      else if low = ''warn'' \<or> low = ''warning'' then Warning
      else if low = ''error'' then ErrorLevel
      else if low = ''critical'' then Critical
      else Warning)"

definition parse_action :: "string \<Rightarrow> alert_level \<times> string" where
  "parse_action value =
     (let (head, message) = (case split_once '':'' value of
            Some (h, m) \<Rightarrow> (str_trim h, str_trim m)
          | None \<Rightarrow> (str_trim value, []))
      in (level_of head, if message = [] \<and> head \<noteq> [] \<and> \<not> is_level head then head else message))"

definition parse_rule :: "string \<Rightarrow> nat \<Rightarrow> tracker_error + alert_rule" where
  "parse_rule value index =
     (let (condition, action) = (case split_once ''=>'' value of
            Some (c, a) \<Rightarrow> (str_trim c, str_trim a)
          | None \<Rightarrow> (str_trim value, []))
      in if condition = [] then Inl (TrackerInput ''alert condition must not be empty'')
         else let (level, message) = parse_action action
              in Inr \<lparr>ar_name = ''rule-'' @ show_nat (index + 1), ar_condition = condition,
                      ar_level = level, ar_message = message, ar_mode = Edge, ar_for_steps = 1,
                      ar_for_duration_ms = 0, ar_partial_window = False, ar_axis = WallTime,
                      ar_cooldown_seconds = 0, ar_max_fires = None, ar_notify_recovery = False,
                      ar_tags = [], ar_channels = []\<rparr>)"

definition field_ok :: "string \<Rightarrow> bool" where
  "field_ok s \<longleftrightarrow> length s \<le> 256 \<and> \<not> contains_nul s"

definition validate_rule :: "alert_rule \<Rightarrow> nat \<Rightarrow> tracker_error + expr" where
  "validate_rule rule capacity =
     rbind (ensure (\<not> (blank (ar_name rule) \<or> 256 < length (ar_name rule) \<or> ar_for_steps rule = 0
                        \<or> 4096 < length (ar_message rule) \<or> 86400000 < ar_for_duration_ms rule
                        \<or> 31536000 < ar_cooldown_seconds rule))
              (TrackerInput ''invalid alert rule name/persistence/message limits'')) (\<lambda>_.
     rbind (for_each (\<lambda>fields.
              ensure (\<not> (256 < length fields \<or> list_ex (\<lambda>s. \<not> field_ok s) fields))
                (TrackerInput ''invalid rule routing/tag budget'')) [ar_tags rule, ar_channels rule]) (\<lambda>_.
     rbind (parse (ar_condition rule)) (\<lambda>expression.
     rbind (validate_expr capacity expression) (\<lambda>_.
     rbind (ensure (\<not> (0 < ar_for_duration_ms rule \<and> \<not> touches_time expression))
              (TrackerInput
                ''for_duration_ms requires an explicit time condition (age/no_data/elapsed)'')) (\<lambda>_.
     Inr expression)))))"

section \<open>The engine\<close>

record rule_state =
  rs_consecutive :: nat
  rs_fires :: nat
  rs_firing :: bool
  rs_last_fire_ns :: "int option"
  rs_last_step :: "int option"
  rs_since_ns :: "int option"

definition initial_rule_state :: rule_state where
  "initial_rule_state =
     \<lparr>rs_consecutive = 0, rs_fires = 0, rs_firing = False, rs_last_fire_ns = None,
      rs_last_step = None, rs_since_ns = None\<rparr>"

record compiled_rule =
  cr_rule :: alert_rule
  cr_expression :: expr
  cr_state :: rule_state

record alert_engine =
  ae_rules :: "compiled_rule list"
  ae_series :: series_map
  ae_capacity :: nat
  ae_started_at_ns :: int
  ae_last_observed_at_ns :: "int option"

record alert_update =
  au_samples :: "(string \<times> sample) list"
  au_states :: "rule_state list"
  au_events :: "alert_event list"
  au_last_observed_at_ns :: "int option"

definition MAX_WINDOW :: nat where
  "MAX_WINDOW = 100000"

definition compile_rule :: "alert_rule \<Rightarrow> nat \<Rightarrow> tracker_error + compiled_rule" where
  "compile_rule rule capacity =
     rbind (validate_rule rule capacity) (\<lambda>expression.
       Inr \<lparr>cr_rule = rule, cr_expression = expression, cr_state = initial_rule_state\<rparr>)"

definition has_rule :: "string \<Rightarrow> compiled_rule list \<Rightarrow> bool" where
  "has_rule name rules \<longleftrightarrow> list_ex (\<lambda>c. ar_name (cr_rule c) = name) rules"

definition new_engine :: "alert_rule list \<Rightarrow> int \<Rightarrow> nat \<Rightarrow> tracker_error + alert_engine" where
  "new_engine rules started_at_ns capacity =
     rbind (ensure (\<not> (capacity = 0 \<or> MAX_WINDOW < capacity))
              (TrackerInput ''invalid alert window capacity'')) (\<lambda>_.
     rbind (ensure (\<not> 256 < length rules) (TrackerInput ''alert rule limit is 256'')) (\<lambda>_.
     rbind (try_fold (\<lambda>compiled rule.
              rbind (ensure (\<not> has_rule (ar_name rule) compiled) (TrackerInput ''duplicate rule name'')) (\<lambda>_.
              rbind (compile_rule rule capacity) (\<lambda>c. Inr (compiled @ [c])))) [] rules) (\<lambda>compiled.
     Inr \<lparr>ae_rules = compiled, ae_series = [], ae_capacity = capacity,
          ae_started_at_ns = started_at_ns, ae_last_observed_at_ns = None\<rparr>)))"

definition add_rule :: "alert_engine \<Rightarrow> alert_rule \<Rightarrow> tracker_error + alert_engine" where
  "add_rule g rule =
     rbind (ensure (\<not> 256 \<le> length (ae_rules g)) (TrackerInput ''alert rule limit is 256'')) (\<lambda>_.
     rbind (ensure (\<not> has_rule (ar_name rule) (ae_rules g))
              (TrackerInputShown ''duplicate alert rule name '' [ShownStr (ar_name rule)])) (\<lambda>_.
     rbind (compile_rule rule (ae_capacity g)) (\<lambda>c.
     Inr (g\<lparr>ae_rules := ae_rules g @ [c]\<rparr>))))"

definition remove_rule :: "alert_engine \<Rightarrow> string \<Rightarrow> alert_engine \<times> bool" where
  "remove_rule g name =
     (let kept = filter (\<lambda>c. ar_name (cr_rule c) \<noteq> name) (ae_rules g)
      in (g\<lparr>ae_rules := kept\<rparr>, length (ae_rules g) \<noteq> length kept))"

definition rules_of :: "alert_engine \<Rightarrow> alert_rule list" where
  "rules_of g = map cr_rule (ae_rules g)"

definition has_time_rules :: "alert_engine \<Rightarrow> bool" where
  "has_time_rules g \<longleftrightarrow> list_ex (\<lambda>c. touches_time (cr_expression c)) (ae_rules g)"

record manual_alert =
  ma_title :: string
  ma_text :: string
  ma_level :: alert_level
  ma_step :: int
  ma_observed_at_ns :: int
  ma_tags :: "string list"
  ma_channels :: "string list"

definition manual :: "manual_alert \<Rightarrow> alert_event" where
  "manual a =
     \<lparr>ev_rule = ma_title a, ev_level = ma_level a, ev_message = ma_text a, ev_step = ma_step a,
      ev_observed_at_ns = ma_observed_at_ns a, ev_recovered = False, ev_tags = ma_tags a,
      ev_channels = ma_channels a\<rparr>"

section \<open>Messages\<close>

text \<open>\<open>{:?}\<close> of a value, as \<open>#[derive(Debug)]\<close> prints it.\<close>

fun debug_tri :: "tri \<Rightarrow> string" where
  "debug_tri TriFalse = ''False''"
| "debug_tri TriTrue = ''True''"
| "debug_tri TriUnknown = ''Unknown''"

definition debug_sample :: "sample \<Rightarrow> string" where
  "debug_sample s =
     ''Sample { observed_at_ns: '' @ show_int (sm_observed_at_ns s) @ '', step: ''
     @ show_int (sm_step s) @ '', value: '' @ debug_f64 (sm_value s) @ '' }''"

fun comma_separated :: "string list \<Rightarrow> string" where
  "comma_separated [] = []"
| "comma_separated [s] = s"
| "comma_separated (s # t # ss) = s @ '', '' @ comma_separated (t # ss)"

fun debug_evaluated :: "evaluated \<Rightarrow> string" where
  "debug_evaluated (VNumber x) = ''Number('' @ debug_f64 x @ '')''"
| "debug_evaluated (VBool b) = ''Bool('' @ debug_tri b @ '')''"
| "debug_evaluated (VDuration d) = ''Duration('' @ show_int d @ '')''"
| "debug_evaluated (VSeries ss) = ''Series(['' @ comma_separated (map debug_sample ss) @ ''])''"
| "debug_evaluated VUnknown = ''Unknown''"

definition display_metric :: "alert_ext \<Rightarrow> json \<Rightarrow> string" where
  "display_metric X v =
     (case numeric_value (al_number X) v of Some x \<Rightarrow> show_f64 x | None \<Rightarrow> al_text X v)"

text \<open>\<open>value.get(..value.len().saturating_sub(1))\<close>: nothing when the last character is longer than
  a byte.\<close>

definition without_last :: "string \<Rightarrow> string option" where
  "without_last s =
     (if s \<noteq> [] \<and> 128 \<le> byte (last s) \<and> byte (last s) < 192 then None else Some (butlast s))"

definition format_metric :: "alert_ext \<Rightarrow> json \<Rightarrow> string option \<Rightarrow> string" where
  "format_metric X v format =
     (case numeric_value (al_number X) v of
        None \<Rightarrow> display_metric X v
      | Some number \<Rightarrow>
          (case format of
             None \<Rightarrow> show_f64 number
           | Some f \<Rightarrow>
               (case Option.bind (strip_prefix ''.'' f) (\<lambda>t. Option.bind (without_last t) parse_usize) of
                  None \<Rightarrow> show_f64 number
                | Some precision \<Rightarrow>
                    if 20 < precision then show_f64 number
                    else if last f = CHR ''f'' then fixed_f64 precision number
                    else if last f = CHR ''e'' then exp_f64 precision number
                    else show_f64 number)))"

text \<open>The value of a placeholder \<open>{key}\<close> or \<open>{key:format}\<close>; \<open>None\<close> leaves it as written.\<close>

definition placeholder_value ::
  "alert_ext \<Rightarrow> int \<Rightarrow> expr \<Rightarrow> eval_context \<Rightarrow> string \<Rightarrow> string option" where
  "placeholder_value X step expression c placeholder =
     (let (key, format) = split_at_char (\<lambda>ch. ch = CHR '':'') placeholder in
      if key = ''step'' then Some (show_int step)
      else if key = ''time'' then Some (show_f64 (f64_div (f64_of_int (ec_observed_at_ns c)) nanos))
      else if key = ''expr'' then Some (debug_evaluated (evaluate (al_number X) c expression))
      else map_option (\<lambda>v. format_metric X v format) (bm_get (ec_metrics c) key))"

lemma split_at_char_length: "split_at_char P s = (a, Some b) \<Longrightarrow> length b < length s"
  by (induction s arbitrary: a) (auto split: if_splits prod.splits)

function render_template :: "(string \<Rightarrow> string option) \<Rightarrow> string \<Rightarrow> string" where
  "render_template value_of rest =
     (case split_at_char (\<lambda>ch. ch = CHR ''{'') rest of
        (before, None) \<Rightarrow> rest
      | (before, Some after) \<Rightarrow>
          (case split_at_char (\<lambda>ch. ch = CHR ''}'') after of
             (placeholder, None) \<Rightarrow> rest
           | (placeholder, Some rest') \<Rightarrow>
               before
               @ (case value_of placeholder of
                    Some v \<Rightarrow> v
                  | None \<Rightarrow> CHR ''{'' # placeholder @ ''}'')
               @ render_template value_of rest'))"
  by pat_completeness auto
termination
  by (relation "measure (length \<circ> snd)") (auto dest!: split_at_char_length [OF sym])

declare render_template.simps [simp del]

definition render_message :: "alert_ext \<Rightarrow> alert_rule \<Rightarrow> int \<Rightarrow> expr \<Rightarrow> eval_context \<Rightarrow> string" where
  "render_message X rule step expression c =
     render_template (placeholder_value X step expression c)
       (if ar_message rule = [] then ar_condition rule else ar_message rule)"

section \<open>Preparing an update\<close>

text \<open>What an evaluation makes of a rule: nothing to tell, an alert, or a recovery.\<close>

datatype outcome = Quiet | Fired | Recovered

definition steps_ready :: "alert_rule \<Rightarrow> bool \<Rightarrow> rule_state \<Rightarrow> bool" where
  "steps_ready rule tick st \<longleftrightarrow>
     ar_for_steps rule \<le> rs_consecutive st \<or> (tick \<and> ar_for_steps rule = 1)"

definition cooldown_ns :: "alert_rule \<Rightarrow> int" where
  "cooldown_ns rule = saturating_mul_i64 (u64_as_i64 (ar_cooldown_seconds rule)) 1000000000"

definition cooling :: "alert_rule \<Rightarrow> int \<Rightarrow> rule_state \<Rightarrow> bool" where
  "cooling rule now st \<longleftrightarrow>
     (case rs_last_fire_ns st of
        Some t \<Rightarrow> saturating_sub_i64 now t < cooldown_ns rule
      | None \<Rightarrow> False)"

definition exhausted :: "alert_rule \<Rightarrow> rule_state \<Rightarrow> bool" where
  "exhausted rule st \<longleftrightarrow>
     (case ar_max_fires rule of Some limit \<Rightarrow> limit \<le> rs_fires st | None \<Rightarrow> False)"

definition count_true :: "bool \<Rightarrow> int \<Rightarrow> rule_state \<Rightarrow> rule_state" where
  "count_true tick step st =
     (if \<not> tick \<and> rs_last_step st \<noteq> Some step
      then st\<lparr>rs_consecutive := saturating_add_u64 (rs_consecutive st) 1, rs_last_step := Some step\<rparr>
      else st)"

definition since_of :: "int \<Rightarrow> rule_state \<Rightarrow> int" where
  "since_of now st = (case rs_since_ns st of Some t \<Rightarrow> t | None \<Rightarrow> now)"

definition transition ::
  "alert_rule \<Rightarrow> bool \<Rightarrow> int \<Rightarrow> int \<Rightarrow> tri \<Rightarrow> rule_state \<Rightarrow> rule_state \<times> outcome" where
  "transition rule tick step now value st =
     (case value of
        TriUnknown \<Rightarrow> (st\<lparr>rs_since_ns := None\<rparr>, Quiet)
      | TriFalse \<Rightarrow>
          (st\<lparr>rs_consecutive := 0, rs_since_ns := None, rs_firing := False\<rparr>,
           if rs_firing st \<and> ar_notify_recovery rule then Recovered else Quiet)
      | TriTrue \<Rightarrow>
          let st1 = count_true tick step st;
              since = since_of now st1;
              st2 = st1\<lparr>rs_since_ns := Some since\<rparr>;
              duration_ready =
                (saturating_mul_i64 (u64_as_i64 (ar_for_duration_ms rule)) 1000000
                 \<le> saturating_sub_i64 now since)
          in if steps_ready rule tick st2 \<and> duration_ready
                \<and> \<not> (ar_mode rule = Edge \<and> rs_firing st2) \<and> \<not> cooling rule now st2
                \<and> \<not> exhausted rule st2
             then (st2\<lparr>rs_firing := True, rs_fires := saturating_add_u64 (rs_fires st2) 1,
                       rs_last_fire_ns := Some now\<rparr>, Fired)
             else (st2, Quiet))"

definition outcome_events ::
  "alert_ext \<Rightarrow> compiled_rule \<Rightarrow> int \<Rightarrow> int \<Rightarrow> eval_context \<Rightarrow> outcome \<Rightarrow> alert_event list" where
  "outcome_events X cr step now c result =
     (let rule = cr_rule cr in
      case result of
        Quiet \<Rightarrow> []
      | Recovered \<Rightarrow>
          [\<lparr>ev_rule = ar_name rule, ev_level = Info, ev_message = ar_name rule @ '' recovered'',
            ev_step = step, ev_observed_at_ns = now, ev_recovered = True, ev_tags = ar_tags rule,
            ev_channels = ar_channels rule\<rparr>]
      | Fired \<Rightarrow>
          [\<lparr>ev_rule = ar_name rule, ev_level = ar_level rule,
            ev_message = render_message X rule step (cr_expression cr) c, ev_step = step,
            ev_observed_at_ns = now, ev_recovered = False, ev_tags = ar_tags rule,
            ev_channels = ar_channels rule\<rparr>])"

text \<open>One round of the loop of \<open>prepare\<close>.\<close>

definition rule_context :: "eval_context \<Rightarrow> compiled_rule \<Rightarrow> eval_context" where
  "rule_context c cr =
     c\<lparr>ec_partial_window := ar_partial_window (cr_rule cr), ec_axis := ar_axis (cr_rule cr)\<rparr>"

definition prepare_rule ::
  "alert_ext \<Rightarrow> eval_context \<Rightarrow> compiled_rule \<Rightarrow> rule_state \<times> alert_event list" where
  "prepare_rule X c cr =
     (if ec_tick c \<and> \<not> touches_time (cr_expression cr) then (cr_state cr, [])
      else
        let c' = rule_context c cr;
            (st, result) = transition (cr_rule cr) (ec_tick c) (ec_step c) (ec_observed_at_ns c)
              (truth (evaluate (al_number X) c' (cr_expression cr))) (cr_state cr)
        in (st, outcome_events X cr (ec_step c) (ec_observed_at_ns c) c' result))"

definition prepare_context ::
  "alert_engine \<Rightarrow> int \<Rightarrow> int \<Rightarrow> (string, json) bmap \<Rightarrow> (string \<times> sample) list \<Rightarrow> int option \<Rightarrow> bool
   \<Rightarrow> eval_context" where
  "prepare_context g step now metrics samples last_observed tick =
     \<lparr>ec_step = step, ec_observed_at_ns = now, ec_started_at_ns = ae_started_at_ns g,
      ec_last_observed_at_ns = last_observed, ec_metrics = metrics, ec_series = ae_series g,
      ec_pending = bm_of_list samples, ec_partial_window = False, ec_axis = WallTime, ec_tick = tick\<rparr>"

definition prepare ::
  "alert_ext \<Rightarrow> alert_engine \<Rightarrow> int \<Rightarrow> int \<Rightarrow> (string, json) bmap \<Rightarrow> (string \<times> sample) list
   \<Rightarrow> int option \<Rightarrow> bool \<Rightarrow> alert_update" where
  "prepare X g step now metrics samples last_observed tick =
     (let c = prepare_context g step now metrics samples last_observed tick;
          results = map (prepare_rule X c) (ae_rules g)
      in \<lparr>au_samples = samples, au_states = map fst results, au_events = concat (map snd results),
          au_last_observed_at_ns = last_observed\<rparr>)"

definition samples_of ::
  "alert_ext \<Rightarrow> int \<Rightarrow> int \<Rightarrow> (string, json) bmap \<Rightarrow> (string \<times> sample) list" where
  "samples_of X step now metrics =
     List.map_filter (\<lambda>(name, v).
       map_option (\<lambda>x. (name, \<lparr>sm_observed_at_ns = now, sm_step = step, sm_value = x\<rparr>))
         (numeric_value (al_number X) v)) metrics"

definition prepare_step ::
  "alert_ext \<Rightarrow> alert_engine \<Rightarrow> int \<Rightarrow> int \<Rightarrow> (string, json) bmap \<Rightarrow> alert_update" where
  "prepare_step X g step now metrics =
     prepare X g step now metrics (samples_of X step now metrics) (Some now) False"

definition prepare_tick :: "alert_ext \<Rightarrow> alert_engine \<Rightarrow> int \<Rightarrow> int \<Rightarrow> alert_update" where
  "prepare_tick X g step now = prepare X g step now [] [] (ae_last_observed_at_ns g) True"

section \<open>Applying an update\<close>

definition push_sample :: "nat \<Rightarrow> series_map \<Rightarrow> string \<times> sample \<Rightarrow> series_map" where
  "push_sample capacity series entry =
     (let ss = (case bm_get series (fst entry) of Some ss \<Rightarrow> ss | None \<Rightarrow> []) @ [snd entry]
      in bm_insert (fst entry) (drop (length ss - capacity) ss) series)"

definition apply_update :: "alert_engine \<Rightarrow> alert_update \<Rightarrow> alert_engine" where
  "apply_update g u =
     g\<lparr>ae_series := foldl (push_sample (ae_capacity g)) (ae_series g) (au_samples u),
       ae_rules := map (\<lambda>(cr, st). cr\<lparr>cr_state := st\<rparr>) (zip (ae_rules g) (au_states u))
                   @ drop (length (au_states u)) (ae_rules g),
       ae_last_observed_at_ns := au_last_observed_at_ns u\<rparr>"

text \<open>\<open>std::mem::size_of::<Sample>()\<close> is 24.\<close>

definition check_series_budget :: "alert_engine \<Rightarrow> nat \<Rightarrow> nat \<Rightarrow> tracker_error + unit" where
  "check_series_budget g max_fields max_bytes =
     (let bytes = sum_list (map (\<lambda>(key, ss). length key + length ss * 24 + 128) (ae_series g))
      in ensure (\<not> (max_fields < length (ae_series g) \<or> max_bytes < bytes))
           (TrackerInput ''alert series cardinality/byte budget exceeded''))"

section \<open>Replay\<close>

datatype replay_input =
    StepInput int int "(string, json) bmap"
  | TickInput int int

fun input_step :: "replay_input \<Rightarrow> int" where
  "input_step (StepInput step _ _) = step"
| "input_step (TickInput step _) = step"

fun input_time :: "replay_input \<Rightarrow> int" where
  "input_time (StepInput _ now _) = now"
| "input_time (TickInput _ now) = now"

fun prepare_input :: "alert_ext \<Rightarrow> alert_engine \<Rightarrow> replay_input \<Rightarrow> alert_update" where
  "prepare_input X g (StepInput step now metrics) = prepare_step X g step now metrics"
| "prepare_input X g (TickInput step now) = prepare_tick X g step now"

record replaying =
  rp_engine :: alert_engine
  rp_events :: "alert_event list"
  rp_last :: int

definition replay_one :: "alert_ext \<Rightarrow> replaying \<Rightarrow> replay_input \<Rightarrow> tracker_error + replaying" where
  "replay_one X r input =
     (let update = prepare_input X (rp_engine r) input in
      rbind (ensure (\<not> (input_step input < 0 \<or> input_time input < rp_last r))
               (TrackerInput ''replay requires nonnegative steps and ordered observation times'')) (\<lambda>_.
      let events = rp_events r @ au_events update;
          engine = apply_update (rp_engine r) update
      in rbind (check_series_budget engine 4096 (64 * 1024 * 1024)) (\<lambda>_.
         rbind (ensure (\<not> 100000 < length events)
                  (TrackerInput ''replay output exceeds 100000 events'')) (\<lambda>_.
         Inr \<lparr>rp_engine = engine, rp_events = events, rp_last = input_time input\<rparr>))))"

definition replay ::
  "alert_ext \<Rightarrow> alert_rule list \<Rightarrow> int \<Rightarrow> nat \<Rightarrow> replay_input list \<Rightarrow> tracker_error + alert_event list" where
  "replay X rules started_at_ns capacity inputs =
     rbind (ensure (\<not> 100000 < length inputs) (TrackerInput ''replay exceeds 100000 inputs'')) (\<lambda>_.
     rbind (new_engine rules started_at_ns capacity) (\<lambda>g.
     rbind (try_fold (replay_one X) \<lparr>rp_engine = g, rp_events = [], rp_last = started_at_ns\<rparr> inputs) (\<lambda>r.
     Inr (rp_events r))))"

end
