(* ===== verification/Alert_Log.thy ===== *)
theory Alert_Log
  imports Alert_Engine
begin

text \<open>
  What the alert engine keeps over a run. The first part follows one rule: \<open>rule_log_ok\<close> relates its
  state to the events it has raised so far, and every evaluation keeps it. The second part
  follows the stored series: they hold the last samples logged under a name, up to the
  capacity. The third part is the invariant of the engine as a whole.
\<close>

section \<open>The events of one rule\<close>

definition rule_log :: "string \<Rightarrow> alert_event list \<Rightarrow> alert_event list" where
  "rule_log name events = filter (\<lambda>e. ev_rule e = name) events"

definition fires :: "alert_event list \<Rightarrow> alert_event list" where
  "fires events = filter (\<lambda>e. \<not> ev_recovered e) events"

text \<open>Consecutive events lie at least so many nanoseconds apart.\<close>

definition spaced :: "int \<Rightarrow> alert_event list \<Rightarrow> bool" where
  "spaced gap events \<longleftrightarrow>
     pairwise (\<lambda>a b. gap \<le> ev_observed_at_ns b - ev_observed_at_ns a) events"

text \<open>A recovery comes right after an alert; alerts and recoveries of an edge rule alternate.\<close>

definition orderly :: "alert_rule \<Rightarrow> alert_event list \<Rightarrow> bool" where
  "orderly rule events \<longleftrightarrow>
     (\<forall>i < length events. ev_recovered (events ! i) \<longrightarrow>
        ar_notify_recovery rule \<and> 0 < i \<and> \<not> ev_recovered (events ! (i - 1))) \<and>
     (ar_mode rule = Edge \<and> ar_notify_recovery rule \<longrightarrow>
        (\<forall>i < length events. ev_recovered (events ! i) \<longleftrightarrow> odd i))"

text \<open>\<open>max_fires\<close> is a \<open>u64\<close>.\<close>

definition limit_in_range :: "alert_rule \<Rightarrow> bool" where
  "limit_in_range rule \<longleftrightarrow>
     (case ar_max_fires rule of Some k \<Rightarrow> k \<le> 18446744073709551615 | None \<Rightarrow> True)"

definition within_limit :: "alert_rule \<Rightarrow> alert_event list \<Rightarrow> bool" where
  "within_limit rule events \<longleftrightarrow>
     (case ar_max_fires rule of Some k \<Rightarrow> length (fires events) \<le> k | None \<Rightarrow> True)"

definition rule_log_ok :: "alert_rule \<Rightarrow> rule_state \<Rightarrow> alert_event list \<Rightarrow> bool" where
  "rule_log_ok rule st events \<longleftrightarrow>
     rs_fires st = min 18446744073709551615 (length (fires events)) \<and>
     rs_last_fire_ns st =
       (if fires events = [] then None else Some (ev_observed_at_ns (last (fires events)))) \<and>
     (limit_in_range rule \<longrightarrow> within_limit rule events) \<and>
     spaced (cooldown_ns rule) (fires events) \<and>
     orderly rule events \<and>
     (ar_notify_recovery rule \<longrightarrow>
        (rs_firing st \<longleftrightarrow> events \<noteq> [] \<and> \<not> ev_recovered (last events)))"

lemma fires_append [simp]: "fires (xs @ ys) = fires xs @ fires ys"
  by (simp add: fires_def)

lemma rule_log_append [simp]: "rule_log n (xs @ ys) = rule_log n xs @ rule_log n ys"
  by (simp add: rule_log_def)

lemma pairwise_snoc:
  "pairwise R (xs @ [y]) \<longleftrightarrow> pairwise R xs \<and> (xs = [] \<or> R (last xs) y)"
proof (induction xs)
  case (Cons x xs)
  then show ?case by (cases xs) (auto simp: pairwise_def)
qed (simp add: pairwise_def)

lemma saturating_sub_le: "0 \<le> c \<Longrightarrow> c \<le> saturating_sub_i64 a b \<Longrightarrow> c \<le> a - b"
  by (simp add: saturating_sub_i64_def sat_i64_def max_def min_def split: if_splits)

lemma log_ok_initial: "rule_log_ok rule initial_rule_state []"
  by (simp add: rule_log_ok_def initial_rule_state_def fires_def spaced_def pairwise_def orderly_def
      within_limit_def split: option.split)

lemma orderly_snoc:
  "orderly rule (xs @ [e]) \<longleftrightarrow>
     orderly rule xs
     \<and> (ev_recovered e \<longrightarrow> ar_notify_recovery rule \<and> xs \<noteq> [] \<and> \<not> ev_recovered (last xs))
     \<and> (ar_mode rule = Edge \<and> ar_notify_recovery rule \<longrightarrow> (ev_recovered e \<longleftrightarrow> odd (length xs)))"
proof -
  have old: "(xs @ [e]) ! i = xs ! i" "(xs @ [e]) ! (i - 1) = xs ! (i - 1)" if "i < length xs" for i
    using that by (simp_all add: nth_append)
  have "(xs @ [e]) ! (length xs - 1) = last xs" if "xs \<noteq> []"
    using that by (simp add: nth_append last_conv_nth)
  then show ?thesis by (auto simp: orderly_def All_less_Suc old)
qed

text \<open>In an edge rule with recovery notices the parity of the log says whether it is firing.\<close>

lemma firing_parity:
  assumes "rule_log_ok rule st xs" and "ar_mode rule = Edge" and "ar_notify_recovery rule"
  shows "rs_firing st \<longleftrightarrow> odd (length xs)"
proof (cases "xs = []")
  case False
  then have "last xs = xs ! (length xs - 1)" by (rule last_conv_nth)
  moreover have "ev_recovered (xs ! (length xs - 1)) \<longleftrightarrow> odd (length xs - 1)"
    using assms False by (simp add: rule_log_ok_def orderly_def)
  ultimately show ?thesis using assms False by (cases xs) (simp_all add: rule_log_ok_def)
qed (use assms in \<open>simp add: rule_log_ok_def\<close>)

section \<open>Every evaluation keeps the log\<close>

lemma count_true_fields [simp]:
  "rs_fires (count_true t s st) = rs_fires st" "rs_firing (count_true t s st) = rs_firing st"
  "rs_last_fire_ns (count_true t s st) = rs_last_fire_ns st"
  "rs_since_ns (count_true t s st) = rs_since_ns st"
  by (simp_all add: count_true_def)

lemma log_ok_cong:
  "rule_log_ok rule st xs \<Longrightarrow> rs_fires st' = rs_fires st \<Longrightarrow> rs_firing st' = rs_firing st
   \<Longrightarrow> rs_last_fire_ns st' = rs_last_fire_ns st \<Longrightarrow> rule_log_ok rule st' xs"
  by (simp add: rule_log_ok_def)

text \<open>What a firing requires and does.\<close>

lemma transition_fired:
  assumes "transition rule tick step now v st = (st', Fired)"
  shows "v = TriTrue" "\<not> (ar_mode rule = Edge \<and> rs_firing st)" "\<not> cooling rule now st"
    "\<not> exhausted rule st" "rs_firing st'" "rs_fires st' = saturating_add_u64 (rs_fires st) 1"
    "rs_last_fire_ns st' = Some now"
  using assms
  by (cases v; auto simp: transition_def Let_def cooling_def exhausted_def split: if_splits option.splits)+

lemma transition_recovered:
  assumes "transition rule tick step now v st = (st', Recovered)"
  shows "v = TriFalse" "rs_firing st" "ar_notify_recovery rule" "\<not> rs_firing st'"
    "rs_fires st' = rs_fires st" "rs_last_fire_ns st' = rs_last_fire_ns st"
  using assms by (cases v; auto simp: transition_def Let_def split: if_splits)+

lemma transition_quiet:
  assumes "transition rule tick step now v st = (st', Quiet)"
  shows "rs_fires st' = rs_fires st" "rs_last_fire_ns st' = rs_last_fire_ns st"
    "ar_notify_recovery rule \<Longrightarrow> rs_firing st' = rs_firing st"
  using assms by (cases v; auto simp: transition_def Let_def split: if_splits)+

lemma log_ok_fired:
  assumes log: "rule_log_ok rule st xs" and tr: "transition rule tick step now v st = (st', Fired)"
    and e: "\<not> ev_recovered e" "ev_observed_at_ns e = now" and cool: "0 \<le> cooldown_ns rule"
  shows "rule_log_ok rule st' (xs @ [e])"
proof -
  note tr' = transition_fired [OF tr]
  have ord: "orderly rule xs" using log by (simp add: rule_log_ok_def)
  have fe: "fires [e] = [e]" using e by (simp add: fires_def)
  have limit: "within_limit rule (xs @ [e])" if "limit_in_range rule"
    using that tr'(4) log fe
    by (auto simp: within_limit_def limit_in_range_def rule_log_ok_def exhausted_def split: option.splits)
  have gap: "spaced (cooldown_ns rule) (fires xs @ [e])"
    using log tr'(3) e cool
    by (auto simp: spaced_def pairwise_snoc rule_log_ok_def cooling_def not_less split: if_splits
        intro: saturating_sub_le)
  have "orderly rule (xs @ [e])"
    using ord tr'(2) e firing_parity [OF log] by (auto simp: orderly_snoc)
  with limit gap tr' log fe e show ?thesis
    by (simp add: rule_log_ok_def saturating_add_u64_def)
qed

lemma log_ok_recovered:
  assumes log: "rule_log_ok rule st xs" and tr: "transition rule tick step now v st = (st', Recovered)"
    and e: "ev_recovered e"
  shows "rule_log_ok rule st' (xs @ [e])"
proof -
  note tr' = transition_recovered [OF tr]
  have fe: "fires [e] = []" using e by (simp add: fires_def)
  have last: "xs \<noteq> []" "\<not> ev_recovered (last xs)" using log tr'(2,3) by (simp_all add: rule_log_ok_def)
  have "orderly rule (xs @ [e])"
    using log last tr' e firing_parity [OF log] by (simp add: rule_log_ok_def orderly_snoc)
  with tr' log fe e show ?thesis by (simp add: rule_log_ok_def within_limit_def cong: option.case_cong)
qed

lemma log_ok_prepare_rule:
  assumes "rule_log_ok (cr_rule cr) (cr_state cr) xs" and "0 \<le> cooldown_ns (cr_rule cr)"
    and "prepare_rule X c cr = (st, evs)"
  shows "rule_log_ok (cr_rule cr) st (xs @ evs)"
proof (cases "ec_tick c \<and> \<not> touches_time (cr_expression cr)")
  case True
  with assms show ?thesis by (simp add: prepare_rule_def)
next
  case False
  define v where "v = truth (evaluate (al_number X) (rule_context c cr) (cr_expression cr))"
  obtain result where tr: "transition (cr_rule cr) (ec_tick c) (ec_step c) (ec_observed_at_ns c) v
        (cr_state cr) = (st, result)"
    and evs: "evs = outcome_events X cr (ec_step c) (ec_observed_at_ns c) (rule_context c cr) result"
    using False assms(3) by (auto simp: prepare_rule_def v_def Let_def split: prod.splits)
  show ?thesis
  proof (cases result)
    case Quiet
    with tr assms(1) transition_quiet show ?thesis by (auto simp: evs outcome_events_def rule_log_ok_def)
  next
    case Fired
    with tr assms show ?thesis
      by (simp add: evs outcome_events_def Let_def) (erule (1) log_ok_fired, simp_all)
  next
    case Recovered
    with tr assms show ?thesis
      by (simp add: evs outcome_events_def Let_def) (erule (1) log_ok_recovered, simp_all)
  qed
qed

lemma prepare_rule_names: "e \<in> set (snd (prepare_rule X c cr)) \<Longrightarrow> ev_rule e = ar_name (cr_rule cr)"
  by (auto simp: prepare_rule_def outcome_events_def Let_def split: prod.splits if_splits outcome.splits)

text \<open>Rules have different names, so the events of a rule are those of its own evaluation.\<close>

lemma rule_log_results:
  assumes "distinct (map (\<lambda>r. ar_name (cr_rule r)) rules)" and "cr \<in> set rules"
  shows "rule_log (ar_name (cr_rule cr)) (concat (map (\<lambda>r. snd (prepare_rule X c r)) rules))
       = snd (prepare_rule X c cr)"
  using assms
proof (induction rules)
  case (Cons r rs)
  have own: "rule_log (ar_name (cr_rule r)) (snd (prepare_rule X c r)) = snd (prepare_rule X c r)"
    by (simp add: rule_log_def filter_id_conv prepare_rule_names)
  have other: "rule_log n (snd (prepare_rule X c q)) = []" if "n \<noteq> ar_name (cr_rule q)" for n q
    using that by (auto simp: rule_log_def filter_empty_conv dest: prepare_rule_names)
  have others: "rule_log n (concat (map (\<lambda>r. snd (prepare_rule X c r)) qs)) = []"
    if "n \<notin> ar_name ` cr_rule ` set qs" for n qs
    using that by (induction qs) (simp_all add: other, simp add: rule_log_def)
  show ?case
  proof (cases "cr = r")
    case True
    with Cons.prems show ?thesis using own others [of "ar_name (cr_rule r)" rs] by (auto simp: image_image)
  next
    case False
    with Cons show ?thesis by (auto simp: other image_iff)
  qed
qed simp

section \<open>One update of the engine\<close>

fun input_context :: "alert_ext \<Rightarrow> alert_engine \<Rightarrow> replay_input \<Rightarrow> eval_context" where
  "input_context X g (StepInput step now metrics) =
     prepare_context g step now metrics (samples_of X step now metrics) (Some now) False"
| "input_context X g (TickInput step now) =
     prepare_context g step now [] [] (ae_last_observed_at_ns g) True"

fun input_samples :: "alert_ext \<Rightarrow> replay_input \<Rightarrow> (string \<times> sample) list" where
  "input_samples X (StepInput step now metrics) = samples_of X step now metrics"
| "input_samples X (TickInput step now) = []"

lemma prepare_input_update:
  "au_samples (prepare_input X g i) = input_samples X i"
  "au_states (prepare_input X g i) = map (\<lambda>r. fst (prepare_rule X (input_context X g i) r)) (ae_rules g)"
  "au_events (prepare_input X g i)
   = concat (map (\<lambda>r. snd (prepare_rule X (input_context X g i) r)) (ae_rules g))"
  by (cases i; simp add: prepare_step_def prepare_tick_def prepare_def Let_def comp_def)+

definition alert_advance :: "alert_ext \<Rightarrow> alert_engine \<Rightarrow> replay_input \<Rightarrow> alert_engine" where
  "alert_advance X g i = apply_update g (prepare_input X g i)"

lemma alert_advance_rules:
  "ae_rules (alert_advance X g i)
   = map (\<lambda>r. r\<lparr>cr_state := fst (prepare_rule X (input_context X g i) r)\<rparr>) (ae_rules g)"
  by (simp add: alert_advance_def apply_update_def prepare_input_update zip_map2 zip_same_conv_map comp_def)

lemma alert_advance_series:
  "ae_series (alert_advance X g i) = foldl (push_sample (ae_capacity g)) (ae_series g) (input_samples X i)"
  by (simp add: alert_advance_def apply_update_def prepare_input_update)

lemma alert_advance_same [simp]:
  "ae_capacity (alert_advance X g i) = ae_capacity g" "ae_started_at_ns (alert_advance X g i) = ae_started_at_ns g"
  "rules_of (alert_advance X g i) = rules_of g"
  by (simp_all add: alert_advance_def [of X g i] apply_update_def rules_of_def)
    (simp add: prepare_input_update zip_map2 zip_same_conv_map comp_def)

section \<open>Logs over a replay\<close>

definition logs_ok :: "alert_engine \<Rightarrow> alert_event list \<Rightarrow> bool" where
  "logs_ok g events \<longleftrightarrow>
     distinct (map ar_name (rules_of g)) \<and>
     list_all (\<lambda>r. ar_cooldown_seconds (cr_rule r) \<le> 31536000
       \<and> rule_log_ok (cr_rule r) (cr_state r) (rule_log (ar_name (cr_rule r)) events)) (ae_rules g)"

lemma cooldown_ns_exact:
  "ar_cooldown_seconds rule \<le> 31536000 \<Longrightarrow> cooldown_ns rule = int (ar_cooldown_seconds rule) * 1000000000"
  by (simp add: cooldown_ns_def saturating_mul_i64_def sat_i64_def u64_as_i64_def)

lemma logs_ok_advance:
  assumes "logs_ok g events"
  shows "logs_ok (alert_advance X g i) (events @ au_events (prepare_input X g i))"
  unfolding logs_ok_def alert_advance_same list_all_iff alert_advance_rules
proof (intro conjI ballI)
  show "distinct (map ar_name (rules_of g))" using assms by (simp add: logs_ok_def)
  fix q
  assume "q \<in> set (map (\<lambda>r. r\<lparr>cr_state := fst (prepare_rule X (input_context X g i) r)\<rparr>) (ae_rules g))"
  then obtain r where r: "r \<in> set (ae_rules g)"
    and q: "q = r\<lparr>cr_state := fst (prepare_rule X (input_context X g i) r)\<rparr>" by auto
  have ok: "ar_cooldown_seconds (cr_rule r) \<le> 31536000"
    "rule_log_ok (cr_rule r) (cr_state r) (rule_log (ar_name (cr_rule r)) events)"
    using assms r by (simp_all add: logs_ok_def list_all_iff)
  then show "ar_cooldown_seconds (cr_rule q) \<le> 31536000" by (simp add: q)
  have "rule_log (ar_name (cr_rule r)) (au_events (prepare_input X g i))
      = snd (prepare_rule X (input_context X g i) r)"
    unfolding prepare_input_update
    by (rule rule_log_results) (use assms r in \<open>simp_all add: logs_ok_def rules_of_def comp_def\<close>)
  moreover have "rule_log_ok (cr_rule r) (fst (prepare_rule X (input_context X g i) r))
      (rule_log (ar_name (cr_rule r)) events @ snd (prepare_rule X (input_context X g i) r))"
    by (rule log_ok_prepare_rule [OF ok(2)]) (simp_all add: cooldown_ns_exact ok(1))
  ultimately show "rule_log_ok (cr_rule q) (cr_state q)
      (rule_log (ar_name (cr_rule q)) (events @ au_events (prepare_input X g i)))"
    by (simp add: q)
qed

lemma compile_rule_Inr:
  "compile_rule rule capacity = Inr c \<longleftrightarrow>
     validate_rule rule capacity = Inr (cr_expression c) \<and> cr_rule c = rule
     \<and> cr_state c = initial_rule_state"
  by (cases c) (auto simp: compile_rule_def rbind_eq_Inr)

lemma validate_rule_cooldown: "validate_rule rule capacity = Inr e \<Longrightarrow> ar_cooldown_seconds rule \<le> 31536000"
  by (auto simp: validate_rule_def result_iffs)

text \<open>The rules of a new engine: those given, validated, in their initial state.\<close>

definition fresh_rules :: "nat \<Rightarrow> compiled_rule list \<Rightarrow> bool" where
  "fresh_rules capacity compiled \<longleftrightarrow>
     distinct (map (\<lambda>c. ar_name (cr_rule c)) compiled) \<and>
     list_all (\<lambda>c. validate_rule (cr_rule c) capacity = Inr (cr_expression c)
       \<and> cr_state c = initial_rule_state) compiled"

lemma has_rule_iff: "has_rule name rules \<longleftrightarrow> name \<in> set (map (\<lambda>c. ar_name (cr_rule c)) rules)"
  by (auto simp: has_rule_def list_ex_iff)

lemma compile_all:
  assumes "try_fold (\<lambda>compiled rule.
       rbind (ensure (\<not> has_rule (ar_name rule) compiled) E) (\<lambda>_.
       rbind (compile_rule rule capacity) (\<lambda>c. Inr (compiled @ [c])))) start rules = Inr compiled"
    and "fresh_rules capacity start"
  shows "fresh_rules capacity compiled \<and> map cr_rule compiled = map cr_rule start @ rules"
  using assms
proof (induction rules arbitrary: start)
  case (Cons r rs)
  then obtain c where new: "\<not> has_rule (ar_name r) start" "compile_rule r capacity = Inr c"
    and rest: "try_fold (\<lambda>compiled rule.
       rbind (ensure (\<not> has_rule (ar_name rule) compiled) E) (\<lambda>_.
       rbind (compile_rule rule capacity) (\<lambda>c. Inr (compiled @ [c])))) (start @ [c]) rs = Inr compiled"
    by (auto simp: result_iffs)
  have "fresh_rules capacity (start @ [c])"
    using new Cons.prems(2) by (simp add: fresh_rules_def has_rule_iff compile_rule_Inr)
  from Cons.IH [OF rest this] new(2) show ?case by (simp add: compile_rule_Inr)
qed simp

lemma new_engine_Inr:
  assumes "new_engine rules started capacity = Inr g"
  shows "fresh_rules capacity (ae_rules g)" "rules_of g = rules" "ae_series g = []"
    "ae_capacity g = capacity" "0 < capacity" "capacity \<le> MAX_WINDOW" "length rules \<le> 256"
    "ae_started_at_ns g = started"
  using assms
  by (auto simp: new_engine_def result_iffs rules_of_def fresh_rules_def dest!: compile_all)

lemma logs_ok_new: "new_engine rules started capacity = Inr g \<Longrightarrow> logs_ok g []"
  using new_engine_Inr(1) [of rules started capacity g]
  by (auto simp: logs_ok_def fresh_rules_def list_all_iff rules_of_def comp_def rule_log_def
      log_ok_initial dest: validate_rule_cooldown)

lemma replay_one_Inr:
  "replay_one X r i = Inr r' \<Longrightarrow>
     rp_engine r' = alert_advance X (rp_engine r) i
     \<and> rp_events r' = rp_events r @ au_events (prepare_input X (rp_engine r) i)
     \<and> rp_last r' = input_time i \<and> rp_last r \<le> input_time i \<and> 0 \<le> input_step i"
  by (auto simp: replay_one_def Let_def result_iffs alert_advance_def)

lemma replay_logs:
  assumes "replay X rules started capacity inputs = Inr events"
  obtains g where "logs_ok g events" and "rules_of g = rules"
proof -
  obtain g r where new: "new_engine rules started capacity = Inr g"
    and run: "try_fold (replay_one X) \<lparr>rp_engine = g, rp_events = [], rp_last = started\<rparr> inputs = Inr r"
    and ev: "events = rp_events r"
    using assms by (auto simp: replay_def result_iffs)
  have "logs_ok (rp_engine r) (rp_events r) \<and> rules_of (rp_engine r) = rules"
    by (rule try_fold_invariant [OF _ _ run,
          where P = "\<lambda>r. logs_ok (rp_engine r) (rp_events r) \<and> rules_of (rp_engine r) = rules"])
      (use logs_ok_new [OF new] new_engine_Inr(2) [OF new] in
        \<open>auto dest!: replay_one_Inr simp: logs_ok_advance\<close>)
  then show thesis by (intro that [of "rp_engine r"]) (simp_all add: ev)
qed

lemma replay_log_ok:
  assumes "replay X rules started capacity inputs = Inr events" and "rule \<in> set rules"
  obtains st where "rule_log_ok rule st (rule_log (ar_name rule) events)"
    and "ar_cooldown_seconds rule \<le> 31536000"
proof -
  obtain g where g: "logs_ok g events" "rules_of g = rules" by (rule replay_logs [OF assms(1)])
  then obtain r where "r \<in> set (ae_rules g)" "rule = cr_rule r" using assms(2) by (auto simp: rules_of_def)
  with g(1) show thesis by (intro that [of "cr_state r"]) (simp_all add: logs_ok_def list_all_iff)
qed

section \<open>The stored series\<close>

fun sample_at :: "alert_ext \<Rightarrow> string \<Rightarrow> replay_input \<Rightarrow> sample option" where
  "sample_at X name (StepInput step now metrics) =
     Option.bind (bm_get metrics name) (\<lambda>v.
       map_option (\<lambda>x. \<lparr>sm_observed_at_ns = now, sm_step = step, sm_value = x\<rparr>)
         (numeric_value (al_number X) v))"
| "sample_at X name (TickInput step now) = None"

text \<open>All samples of a metric, oldest first.\<close>

definition logged :: "alert_ext \<Rightarrow> string \<Rightarrow> replay_input list \<Rightarrow> sample list" where
  "logged X name inputs = List.map_filter (sample_at X name) inputs"

definition newest :: "nat \<Rightarrow> 'a list \<Rightarrow> 'a list" where
  "newest n xs = drop (length xs - n) xs"

fun input_ok :: "replay_input \<Rightarrow> bool" where
  "input_ok (StepInput step now metrics) = bm_sorted metrics"
| "input_ok (TickInput step now) = True"

lemma length_newest [simp]: "length (newest n xs) = min n (length xs)"
  by (simp add: newest_def min_def)

lemma newest_newest: "n \<le> m \<Longrightarrow> newest n (newest m xs @ ys) = newest n (xs @ ys)"
  by (auto simp: newest_def min_def intro!: arg_cong2 [where f = drop])

lemma logged_snoc:
  "logged X name (inputs @ [i])
   = logged X name inputs @ (case sample_at X name i of Some s \<Rightarrow> [s] | None \<Rightarrow> [])"
  by (simp add: logged_def List.map_filter_def split: option.split)

lemma map_filter_keys:
  "fst ` set (List.map_filter (\<lambda>(k, v). map_option (\<lambda>x. (k, F x)) (h v)) m) \<subseteq> fst ` set m"
  by (force simp: List.map_filter_def)

lemma map_filter_distinct:
  "distinct (map fst m) \<Longrightarrow>
   distinct (map fst (List.map_filter (\<lambda>(k, v). map_option (\<lambda>x. (k, F x)) (h v)) m))"
proof (induction m)
  case (Cons kv m)
  then show ?case using map_filter_keys [of F h m] by (cases kv) (auto split: option.split)
qed simp

lemma map_filter_map_of:
  "distinct (map fst m) \<Longrightarrow>
   map_of (List.map_filter (\<lambda>(k, v). map_option (\<lambda>x. (k, F x)) (h v)) m) name
   = Option.bind (map_of m name) (\<lambda>v. map_option F (h v))"
proof (induction m)
  case (Cons kv m)
  obtain k v where kv: "kv = (k, v)" by force
  have "map_of m k = None" using Cons.prems kv by (simp add: map_of_eq_None_iff)
  with Cons kv show ?case by (auto split: option.split)
qed simp

lemma input_samples_entries:
  assumes "input_ok i"
  shows "distinct (map fst (input_samples X i))" "map_of (input_samples X i) name = sample_at X name i"
  using assms
  by (cases i; simp add: samples_of_def map_filter_distinct map_filter_map_of bm.entries_distinct bm_get_def)+

lemma bm_get_of_distinct: "distinct (map fst xs) \<Longrightarrow> bm_get (bm_of_list xs) k = map_of xs k"
proof -
  assume d: "distinct (map fst xs)"
  then have "map_of (rev xs) = map_of xs" by (subst map_of_inject_set) (simp_all flip: rev_map)
  then show ?thesis by (simp add: bm_of_list_def bm_get_extend split: option.split)
qed

lemma pending_sample:
  "input_ok i \<Longrightarrow> bm_get (ec_pending (input_context X g i)) name = sample_at X name i"
proof -
  assume "input_ok i"
  moreover have "ec_pending (input_context X g i) = bm_of_list (input_samples X i)"
    by (cases i) (simp_all add: prepare_context_def)
  ultimately show ?thesis by (simp add: bm_get_of_distinct input_samples_entries)
qed

definition stored :: "series_map \<Rightarrow> string \<Rightarrow> sample list" where
  "stored series name = (case bm_get series name of Some ss \<Rightarrow> ss | None \<Rightarrow> [])"

lemma push_sample_stored:
  assumes "bm_sorted series"
  shows "bm_sorted (push_sample cap series e)"
    and "bm_get (push_sample cap series e) name
       = (if name = fst e then Some (newest cap (stored series name @ [snd e])) else bm_get series name)"
  using assms
  by (simp_all add: push_sample_def Let_def bm.invar_put bm.get_put newest_def stored_def)

lemma push_samples:
  assumes "bm_sorted series" and "distinct (map fst es)"
  shows "bm_sorted (foldl (push_sample cap) series es)
    \<and> bm_get (foldl (push_sample cap) series es) name
      = (case map_of es name of
           Some s \<Rightarrow> Some (newest cap (stored series name @ [s]))
         | None \<Rightarrow> bm_get series name)"
  using assms
proof (induction es arbitrary: series)
  case (Cons e es)
  have "map_of es (fst e) = None" using Cons.prems(2) by (simp add: map_of_eq_None_iff)
  with Cons.IH [OF push_sample_stored(1) [OF Cons.prems(1)]] Cons.prems show ?case
    by (cases e) (auto simp: push_sample_stored stored_def split: option.split)
qed simp

text \<open>A series holds the newest samples logged under its name.\<close>

lemma stored_logged:
  assumes "ae_series g = []" and "list_all input_ok inputs" and "0 < ae_capacity g"
  shows "bm_sorted (ae_series (foldl (alert_advance X) g inputs))
    \<and> bm_get (ae_series (foldl (alert_advance X) g inputs)) name
      = (if logged X name inputs = [] then None
         else Some (newest (ae_capacity g) (logged X name inputs)))"
  using assms(2)
proof (induction inputs rule: rev_induct)
  case Nil
  then show ?case using assms(1) by (simp add: logged_def)
next
  case (snoc i inputs)
  define h where "h = foldl (alert_advance X) g inputs"
  have cap: "ae_capacity h = ae_capacity g"
    unfolding h_def by (induction inputs rule: rev_induct) simp_all
  have IH: "bm_sorted (ae_series h)" "bm_get (ae_series h) name
      = (if logged X name inputs = [] then None
         else Some (newest (ae_capacity g) (logged X name inputs)))"
    using snoc by (simp_all add: h_def)
  have i: "input_ok i" using snoc.prems by simp
  have st: "stored (ae_series h) name = newest (ae_capacity g) (logged X name inputs)"
    using IH(2) by (simp add: stored_def newest_def)
  show ?case
    using push_samples [OF IH(1) input_samples_entries(1) [OF i, of X], of "ae_capacity g" name] IH(2) st
    by (auto simp: alert_advance_series cap logged_snoc input_samples_entries(2) [OF i] newest_newest
        simp flip: h_def split: option.split)
qed

lemma windowed_logged:
  assumes "ae_series g = []" and "list_all input_ok inputs" and "input_ok i" and "0 < ae_capacity g"
  shows "windowed name (rule_context (input_context X (foldl (alert_advance X) g inputs) i) r)
    = newest (ae_capacity g) (logged X name inputs)
      @ (case sample_at X name i of Some s \<Rightarrow> [s] | None \<Rightarrow> [])"
proof -
  have "ec_series (input_context X h i) = ae_series h" for h
    by (cases i) (simp_all add: prepare_context_def)
  with stored_logged [OF assms(1,2,4), of X name] pending_sample [OF assms(3)] show ?thesis
    by (simp add: windowed_def rule_context_def newest_def)
qed

end
