(* ===== verification/Alert_Parser.thy ===== *)
theory Alert_Parser
  imports Alert_Syntax
begin

text \<open>
  Proofs about the parser of alert conditions. The locale \<open>consuming_parser\<close> is the contract
  between the levels of the grammar: a level consumes tokens when it succeeds and does not
  run out of fuel on inputs of the length it is meant for. Every level keeps the contract, so
  \<open>or_expression\<close> with enough fuel satisfies it. The second half shows that the tokens of an
  expression, written with all its parentheses, parse back to it.
\<close>

section \<open>The contract of a level\<close>

lemma current_Cons [simp]: "current (t # ts) = t"
  by (simp add: current_def)

lemma current_Nil [simp]: "current [] = TEnd"
  by (simp add: current_def)

lemma expect_Inr: "expect t ts = Inr ts' \<longleftrightarrow> current ts = t \<and> ts' = tl ts"
  by (auto simp: expect_def)

lemma expect_fuelled [simp]: "expect t ts \<noteq> Inl OutOfFuel"
  by (simp add: expect_def)

lemma expect_not_fuel: "expect t ts = Inl e \<Longrightarrow> e \<noteq> OutOfFuel"
  by (auto simp: expect_def split: if_splits)

lemma parse_window_rest: "parse_window ts = Inr (w, rest) \<Longrightarrow> rest = tl ts"
  by (auto simp: parse_window_def split: alert_token.splits if_splits)

lemma parse_window_fuelled [simp]: "parse_window ts \<noteq> Inl OutOfFuel"
  by (simp add: parse_window_def split: alert_token.splits)

lemma parse_suffix_rest: "parse_suffix e ts = Inr (e', rest) \<Longrightarrow> length rest \<le> length ts"
proof (cases "current ts = TLBracket")
  case True
  assume "parse_suffix e ts = Inr (e', rest)"
  with True obtain w ts1 where "parse_window (tl ts) = Inr (w, ts1)" and "rest = tl ts1"
    by (cases e) (auto simp: parse_suffix_def rbind_eq_Inr expect_Inr)
  then show ?thesis using parse_window_rest by fastforce
qed (simp add: parse_suffix_def)

lemma parse_suffix_fuelled [simp]: "parse_suffix e ts \<noteq> Inl OutOfFuel"
  by (cases e) (auto simp: parse_suffix_def rbind_eq_Inl)

locale consuming_parser =
  fixes p :: token_parser_fun and depth :: nat
  assumes consumes: "p ts = Inr (e, rest) \<Longrightarrow> length rest < length ts"
    and fuelled: "length ts < depth \<Longrightarrow> p ts \<noteq> Inl OutOfFuel"
begin

lemma binary_loop_rest: "binary_loop n oper p e ts = Inr (e', rest) \<Longrightarrow> length rest \<le> length ts"
proof (induction n arbitrary: e ts)
  case (Suc n)
  show ?case
  proof (cases "oper (current ts)")
    case None
    with Suc.prems show ?thesis by simp
  next
    case (Some b)
    with Suc.prems obtain r ts1 where "p (tl ts) = Inr (r, ts1)"
      and "binary_loop n oper p (Binary b e r) ts1 = Inr (e', rest)"
      by (auto simp: rbind_eq_Inr)
    then show ?thesis using consumes Suc.IH by fastforce
  qed
qed simp

lemma binary_loop_fuelled:
  "length ts < n \<Longrightarrow> length ts < depth \<Longrightarrow> binary_loop n oper p e ts \<noteq> Inl OutOfFuel"
proof (induction n arbitrary: e ts)
  case (Suc n)
  have "binary_loop n oper p (Binary b e r) ts1 \<noteq> Inl OutOfFuel"
    if "p (tl ts) = Inr (r, ts1)" for b r ts1
    using consumes [OF that] Suc.prems by (intro Suc.IH) (simp_all add: less_diff_conv)
  moreover have "p (tl ts) \<noteq> Inl OutOfFuel"
    using Suc.prems by (intro fuelled) simp
  ultimately show ?case by (auto simp: rbind_eq_Inl split: option.split)
qed simp

lemma binary_chain_parser: "consuming_parser (binary_chain oper p) depth"
proof
  fix ts e rest
  assume "binary_chain oper p ts = Inr (e, rest)"
  then obtain e1 ts1 where "p ts = Inr (e1, ts1)"
    and "binary_loop (length ts) oper p e1 ts1 = Inr (e, rest)"
    by (auto simp: binary_chain_def rbind_eq_Inr)
  then show "length rest < length ts" using consumes binary_loop_rest by fastforce
next
  fix ts :: "alert_token list"
  assume len: "length ts < depth"
  have "binary_loop (length ts) oper p e ts1 \<noteq> Inl OutOfFuel" if "p ts = Inr (e, ts1)" for e ts1
    using consumes [OF that] len by (intro binary_loop_fuelled) simp_all
  then show "binary_chain oper p ts \<noteq> Inl OutOfFuel"
    using fuelled [OF len] by (auto simp: binary_chain_def rbind_eq_Inl)
qed

lemma comparison_loop_rest:
  "comparison_loop n p previous e ts = Inr (e', rest) \<Longrightarrow> length rest \<le> length ts"
proof (induction n arbitrary: previous e ts)
  case (Suc n)
  show ?case
  proof (cases "comparison_op (current ts)")
    case None
    with Suc.prems show ?thesis by simp
  next
    case (Some b)
    with Suc.prems obtain r ts1 e1 where "p (tl ts) = Inr (r, ts1)"
      and "comparison_loop n p r e1 ts1 = Inr (e', rest)"
      by (auto simp: rbind_eq_Inr Let_def)
    then show ?thesis using consumes Suc.IH by fastforce
  qed
qed simp

lemma comparison_loop_fuelled:
  "length ts < n \<Longrightarrow> length ts < depth \<Longrightarrow> comparison_loop n p previous e ts \<noteq> Inl OutOfFuel"
proof (induction n arbitrary: previous e ts)
  case (Suc n)
  have "comparison_loop n p r e1 ts1 \<noteq> Inl OutOfFuel"
    if "p (tl ts) = Inr (r, ts1)" for r e1 ts1
    using consumes [OF that] Suc.prems by (intro Suc.IH) (simp_all add: less_diff_conv)
  moreover have "p (tl ts) \<noteq> Inl OutOfFuel"
    using Suc.prems by (intro fuelled) simp
  ultimately show ?case by (auto simp: rbind_eq_Inl Let_def split: option.split)
qed simp

lemma argument_loop_rest:
  "argument_loop n p args ts = Inr (es, rest) \<Longrightarrow> length rest < length ts"
proof (induction n arbitrary: args ts)
  case (Suc n)
  then obtain e ts1 where p: "p ts = Inr (e, ts1)"
    and next1: "(if current ts1 = TRParen then Inr (args @ [e], tl ts1)
       else rbind (expect TComma ts1) (\<lambda>ts2. argument_loop n p (args @ [e]) ts2)) = Inr (es, rest)"
    by (auto simp: rbind_eq_Inr)
  show ?case
  proof (cases "current ts1 = TRParen")
    case True
    with next1 consumes [OF p] show ?thesis by auto
  next
    case False
    with next1 have "argument_loop n p (args @ [e]) (tl ts1) = Inr (es, rest)"
      by (auto simp: rbind_eq_Inr expect_Inr)
    from Suc.IH [OF this] consumes [OF p] show ?thesis by simp
  qed
qed simp

lemma argument_loop_fuelled:
  "length ts < n \<Longrightarrow> length ts < depth \<Longrightarrow> argument_loop n p args ts \<noteq> Inl OutOfFuel"
proof (induction n arbitrary: args ts)
  case (Suc n)
  have "argument_loop n p args' (tl ts1) \<noteq> Inl OutOfFuel" if "p ts = Inr (e, ts1)" for e args' ts1
    using consumes [OF that] Suc.prems by (intro Suc.IH) simp_all
  with fuelled [OF Suc.prems(2)] show ?case
    by (auto simp: rbind_eq_Inl expect_Inr split: if_splits dest: expect_not_fuel)
qed simp

lemma parse_call_rest: "parse_call p name ts = Inr (e, rest) \<Longrightarrow> length rest \<le> length ts"
  using argument_loop_rest [of "Suc (length ts)" "[]" ts]
  by (cases "current ts = TRParen") (auto simp: parse_call_def rbind_eq_Inr less_imp_le)

lemma parse_call_fuelled: "length ts < depth \<Longrightarrow> parse_call p name ts \<noteq> Inl OutOfFuel"
  using argument_loop_fuelled [of ts "Suc (length ts)" "[]"]
  by (auto simp: parse_call_def rbind_eq_Inl split: if_splits)

text \<open>The part of \<open>primary\<close> before the window.\<close>

lemma primary_parser: "consuming_parser (primary p) (Suc depth)"
proof
  fix ts e rest
  assume ok: "primary p ts = Inr (e, rest)"
  show "length rest < length ts"
  proof (cases ts)
    case Nil
    with ok show ?thesis by (simp add: primary_def)
  next
    case (Cons t us)
    from ok obtain e1 ts1 where "parse_suffix e1 ts1 = Inr (e, rest)" and "length ts1 \<le> length us"
      unfolding primary_def Cons
      by (cases t) (fastforce simp: rbind_eq_Inr expect_Inr split: if_splits
          dest: consumes parse_call_rest)+
    with Cons show ?thesis using parse_suffix_rest by fastforce
  qed
next
  fix ts :: "alert_token list"
  assume len: "length ts < Suc depth"
  show "primary p ts \<noteq> Inl OutOfFuel"
  proof (cases ts)
    case Nil
    then show ?thesis by (simp add: primary_def)
  next
    case (Cons t us)
    have "p us \<noteq> Inl OutOfFuel" "\<And>name. parse_call p name (tl us) \<noteq> Inl OutOfFuel"
      using len Cons by (auto intro!: fuelled parse_call_fuelled)
    then show ?thesis
      unfolding primary_def Cons by (cases t) (auto simp: rbind_eq_Inl split: if_splits)
  qed
qed

end

section \<open>The levels keep the contract\<close>

lemma unary_parser:
  assumes "consuming_parser p d"
  shows "consuming_parser (unary p) (Suc d)"
proof
  note primary = consuming_parser.primary_parser [OF assms]
  show "length rest < length ts" if "unary p ts = Inr (e, rest)" for ts e rest
    using that
  proof (induction ts arbitrary: e)
    case Nil
    then show ?case using consuming_parser.consumes [OF primary] by fastforce
  next
    case (Cons t ts)
    show ?case
    proof (cases "sign_op t")
      case None
      with Cons.prems show ?thesis
        using consuming_parser.consumes [OF primary, of "t # ts"] by simp
    next
      case (Some b)
      with Cons show ?thesis by (fastforce simp: rbind_eq_Inr)
    qed
  qed
  show "unary p ts \<noteq> Inl OutOfFuel" if "length ts < Suc d" for ts
    using that
  proof (induction ts)
    case Nil
    then show ?case using consuming_parser.fuelled [OF primary, of "[]"] by simp
  next
    case (Cons t ts)
    then show ?case
      using consuming_parser.fuelled [OF primary, of "t # ts"]
      by (auto simp: rbind_eq_Inl split: option.split)
  qed
qed

lemma additive_parser:
  assumes "consuming_parser p d"
  shows "consuming_parser (additive p) (Suc d)"
  unfolding additive_def parse_term_def
  by (intro consuming_parser.binary_chain_parser unary_parser assms)

lemma comparison_parser:
  assumes "consuming_parser p d"
  shows "consuming_parser (comparison p) (Suc d)"
proof
  note additive = additive_parser [OF assms]
  show "length rest < length ts" if "comparison p ts = Inr (e, rest)" for ts e rest
    using that consuming_parser.consumes [OF additive]
      consuming_parser.comparison_loop_rest [OF additive]
    by (fastforce simp: comparison_def rbind_eq_Inr)
  fix ts :: "alert_token list"
  assume len: "length ts < Suc d"
  have "comparison_loop (length ts) (additive p) e None ts1 \<noteq> Inl OutOfFuel"
    if "additive p ts = Inr (e, ts1)" for e ts1
    using consuming_parser.consumes [OF additive that] len
    by (intro consuming_parser.comparison_loop_fuelled [OF additive]) simp_all
  then show "comparison p ts \<noteq> Inl OutOfFuel"
    using consuming_parser.fuelled [OF additive len] by (auto simp: comparison_def rbind_eq_Inl)
qed

lemma not_expression_parser:
  assumes "consuming_parser p d"
  shows "consuming_parser (not_expression p) (Suc d)"
proof
  note comparison = comparison_parser [OF assms]
  show "length rest < length ts" if "not_expression p ts = Inr (e, rest)" for ts e rest
    using that
  proof (induction ts arbitrary: e)
    case Nil
    then show ?case using consuming_parser.consumes [OF comparison] by fastforce
  next
    case (Cons t ts)
    then show ?case using consuming_parser.consumes [OF comparison]
      by (fastforce simp: rbind_eq_Inr split: if_splits)
  qed
  show "not_expression p ts \<noteq> Inl OutOfFuel" if "length ts < Suc d" for ts
    using that
  proof (induction ts)
    case Nil
    then show ?case using consuming_parser.fuelled [OF comparison, of "[]"] by simp
  next
    case (Cons t ts)
    then show ?case
      using consuming_parser.fuelled [OF comparison, of "t # ts"] by (auto simp: rbind_eq_Inl)
  qed
qed

lemma or_expression_parser: "consuming_parser (or_expression n) n"
proof (induction n)
  case 0
  show ?case by standard simp_all
next
  case (Suc n)
  then show ?case
    unfolding or_expression.simps and_expression_def
    by (intro consuming_parser.binary_chain_parser not_expression_parser)
qed

interpretation or_parser: consuming_parser "or_expression n" n for n
  by (rule or_expression_parser)

lemma lex_number_fuelled [simp]: "lex_number s \<noteq> Inl OutOfFuel"
  by (auto simp: lex_number_def rbind_eq_Inl ensure_eq_Inl ok_or_def Let_def
      split: prod.splits option.splits)

lemma lex_quoted_fuelled [simp]: "lex_quoted q s \<noteq> Inl OutOfFuel"
  by (simp add: lex_quoted_def split: prod.split option.split)

lemma lex_symbol_fuelled [simp]: "lex_symbol c s \<noteq> Inl OutOfFuel"
  by (simp add: lex_symbol_def if_distrib [where f = "\<lambda>r. r = Inl OutOfFuel"] cong: if_cong
      split del: if_split)

lemma next_token_fuelled [simp]: "next_token s \<noteq> Inl OutOfFuel"
  by (cases "trim_start s") (simp_all add: next_token_def)

lemma lex_tokens_fuelled [simp]: "lex_tokens n s \<noteq> Inl OutOfFuel"
proof (induction n arbitrary: s)
  case 0
  show ?case by (subst lex_tokens.simps) (auto simp: rbind_eq_Inl)
next
  case (Suc n)
  then show ?case by (subst lex_tokens.simps) (auto simp: rbind_eq_Inl)
qed

lemma parse_tokens_fuelled [simp]: "parse_tokens ts \<noteq> Inl OutOfFuel"
  using or_parser.fuelled [of ts "parse_fuel ts"]
  by (auto simp: parse_tokens_def parse_fuel_def rbind_eq_Inl)

section \<open>Round trip\<close>

fun op_token :: "binary_op \<Rightarrow> alert_token" where
  "op_token OpAdd = TPlus"
| "op_token OpSub = TMinus"
| "op_token OpMul = TStar"
| "op_token OpDiv = TSlash"
| "op_token OpMod = TPercent"
| "op_token OpEq = TEq"
| "op_token OpNe = TNe"
| "op_token OpLt = TLt"
| "op_token OpLe = TLe"
| "op_token OpGt = TGt"
| "op_token OpGe = TGe"
| "op_token OpAnd = TAnd"
| "op_token OpOr = TOr"

fun sign_token :: "unary_op \<Rightarrow> alert_token" where
  "sign_token OpNeg = TMinus"
| "sign_token OpPos = TPlus"
| "sign_token OpNot = TNot"

fun window_token :: "metric_window \<Rightarrow> alert_token" where
  "window_token (Points n) = TNumber (Fin (of_nat n))"
| "window_token (Span d) = TDuration d"

fun separated :: "alert_token list list \<Rightarrow> alert_token list" where
  "separated [] = []"
| "separated [ts] = ts"
| "separated (ts # us # tss) = ts @ TComma # separated (us # tss)"

text \<open>The tokens of an expression, every operator in parentheses.\<close>

fun render_expr :: "expr \<Rightarrow> alert_token list" where
  "render_expr (Number x) = [TNumber x]"
| "render_expr (Duration d) = [TDuration d]"
| "render_expr (Metric name None) = [TIdent name]"
| "render_expr (Metric name (Some w)) = [TIdent name, TLBracket, window_token w, TRBracket]"
| "render_expr (Call name args) = TIdent name # TLParen # separated (map render_expr args) @ [TRParen]"
| "render_expr (Unary oper e) = TLParen # sign_token oper # render_expr e @ [TRParen]"
| "render_expr (Binary oper l r) = TLParen # render_expr l @ op_token oper # render_expr r @ [TRParen]"

text \<open>What the parser can produce: positive windows within range, function names in lower case.\<close>

fun valid_window :: "metric_window \<Rightarrow> bool" where
  "valid_window (Points n) = (1 \<le> n \<and> n \<le> 18446744073709551615)"
| "valid_window (Span d) = (0 < d)"

fun producible :: "expr \<Rightarrow> bool" where
  "producible (Metric name (Some w)) = valid_window w"
| "producible (Call name args) = (to_ascii_lowercase name = name \<and> list_all producible args)"
| "producible (Unary _ e) = producible e"
| "producible (Binary _ l r) = (producible l \<and> producible r)"
| "producible _ = True"

definition opens :: "alert_token \<Rightarrow> bool" where
  "opens t \<longleftrightarrow> t = TLParen \<or> t = TLBracket"

definition closes :: "alert_token \<Rightarrow> bool" where
  "closes t \<longleftrightarrow> t = TRParen \<or> t = TComma \<or> t = TEnd"

lemma closes_ops [simp]:
  "closes t \<Longrightarrow> term_op t = None" "closes t \<Longrightarrow> additive_op t = None"
  "closes t \<Longrightarrow> comparison_op t = None" "closes t \<Longrightarrow> and_op t = None"
  "closes t \<Longrightarrow> or_op t = None" "closes t \<Longrightarrow> \<not> opens t"
  by (auto simp: closes_def and_op_def or_op_def opens_def)

lemma and_or_ops [simp]: "and_op TAnd = Some OpAnd" "or_op TOr = Some OpOr" "and_op TOr = None"
  by (simp_all add: and_op_def or_op_def)

lemma op_token_opens [simp]: "\<not> opens (op_token b)"
  by (cases b) (simp_all add: opens_def)

lemma closes_simps [simp]: "closes TRParen" "closes TComma" "closes TEnd"
  by (simp_all add: closes_def)

lemma chain_pass:
  "p ts = Inr (e, us) \<Longrightarrow> oper (current us) = None \<Longrightarrow> ts \<noteq> [] \<Longrightarrow> binary_chain oper p ts = Inr (e, us)"
  by (cases ts) (simp_all add: binary_chain_def)

lemma chain_step:
  "p ts = Inr (e1, t # us) \<Longrightarrow> oper t = Some b \<Longrightarrow> p us = Inr (e2, vs) \<Longrightarrow> oper (current vs) = None
   \<Longrightarrow> 2 \<le> length ts \<Longrightarrow> binary_chain oper p ts = Inr (Binary b e1 e2, vs)"
  by (cases ts rule: remdups_adj.cases) (simp_all add: binary_chain_def)

lemma comparison_pass:
  "additive p ts = Inr (e, us) \<Longrightarrow> comparison_op (current us) = None \<Longrightarrow> ts \<noteq> []
   \<Longrightarrow> comparison p ts = Inr (e, us)"
  by (cases ts) (simp_all add: comparison_def)

lemma comparison_step:
  "additive p ts = Inr (e1, t # us) \<Longrightarrow> comparison_op t = Some b \<Longrightarrow> additive p us = Inr (e2, vs)
   \<Longrightarrow> comparison_op (current vs) = None \<Longrightarrow> 2 \<le> length ts
   \<Longrightarrow> comparison p ts = Inr (Binary b e1 e2, vs)"
  by (cases ts rule: remdups_adj.cases) (simp_all add: comparison_def)

lemma not_pass:
  "comparison p ts = Inr (e, us) \<Longrightarrow> current ts \<noteq> TNot \<Longrightarrow> not_expression p ts = Inr (e, us)"
  by (cases ts) simp_all

text \<open>A level passes on what the tighter one returns when none of its operators follows.\<close>

lemma lift_additive:
  assumes "parse_term p ts = Inr (e, us)" and "additive_op (current us) = None" and "ts \<noteq> []"
  shows "additive p ts = Inr (e, us)"
  unfolding additive_def by (rule chain_pass) (use assms in simp_all)

lemma lift_term:
  assumes "unary p ts = Inr (e, us)" and "term_op (current us) = None" and "ts \<noteq> []"
  shows "parse_term p ts = Inr (e, us)"
  unfolding parse_term_def by (rule chain_pass) (use assms in simp_all)

lemma lift_and:
  assumes "not_expression p ts = Inr (e, us)" and "and_op (current us) = None" and "ts \<noteq> []"
  shows "and_expression p ts = Inr (e, us)"
  unfolding and_expression_def by (rule chain_pass) (use assms in simp_all)

lemma lift_or:
  assumes "and_expression (or_expression n) ts = Inr (e, us)" and "or_op (current us) = None"
    and "ts \<noteq> []"
  shows "or_expression (Suc n) ts = Inr (e, us)"
  unfolding or_expression.simps by (rule chain_pass) (use assms in simp_all)

lemmas lifts = lift_or lift_and not_pass comparison_pass lift_additive lift_term

lemma render_nonempty [simp]: "render_expr e \<noteq> []"
  by (cases e rule: render_expr.cases) simp_all

lemma render_append_nonempty [simp]: "render_expr e @ ts \<noteq> []"
  by simp

lemma render_first [simp]: "current (render_expr e @ ts) \<noteq> TNot" "current (render_expr e @ ts) \<noteq> TRParen"
  "sign_op (current (render_expr e @ ts)) = None"
  by (cases e rule: render_expr.cases; simp)+

text \<open>An operand parses as itself in front of anything that does not extend it.\<close>

definition operand :: "nat \<Rightarrow> expr \<Rightarrow> bool" where
  "operand n e \<longleftrightarrow>
     (\<forall>rest. \<not> opens (current rest) \<longrightarrow>
        unary (or_expression n) (render_expr e @ rest) = Inr (e, rest))"

lemma operandD:
  "operand n e \<Longrightarrow> \<not> opens (current rest) \<Longrightarrow> unary (or_expression n) (render_expr e @ rest) = Inr (e, rest)"
  by (simp add: operand_def)

lemma operand_or:
  "operand n e \<Longrightarrow> closes (current rest) \<Longrightarrow> or_expression (Suc n) (render_expr e @ rest) = Inr (e, rest)"
  by (intro lifts operandD) simp_all

lemma length_two: "Suc (Suc 0) \<le> length (render_expr e @ t # us)"
  using render_nonempty [of e] by (cases "render_expr e") simp_all

lemma binary_or:
  assumes l: "operand n l" and r: "operand n r" and close: "closes (current rest)"
  shows "or_expression (Suc n) (render_expr l @ op_token oper # render_expr r @ rest)
       = Inr (Binary oper l r, rest)"
    (is "or_expression (Suc n) ?ts = _")
proof -
  have L: "unary (or_expression n) ?ts = Inr (l, op_token oper # render_expr r @ rest)"
    by (rule operandD [OF l]) simp
  have R: "unary (or_expression n) (render_expr r @ rest) = Inr (r, rest)"
    by (rule operandD [OF r]) (use close in simp)
  have len: "2 \<le> length ?ts"
    unfolding numeral_2_eq_2 by (rule length_two)
  consider (mul) b where "term_op (op_token oper) = Some b" "b = oper"
    | (add) b where "term_op (op_token oper) = None" "additive_op (op_token oper) = Some b" "b = oper"
    | (cmp) b where "term_op (op_token oper) = None" "additive_op (op_token oper) = None"
        "comparison_op (op_token oper) = Some b" "b = oper"
    | (conj) "oper = OpAnd" | (disj) "oper = OpOr"
    by (cases oper) simp_all
  then show ?thesis
  proof cases
    case mul
    have "parse_term (or_expression n) ?ts = Inr (Binary oper l r, rest)"
      unfolding parse_term_def by (rule chain_step [OF L _ R _ len]) (use mul close in simp_all)
    then show ?thesis
      by (intro lift_or lift_and not_pass comparison_pass lift_additive) (use close in simp_all)
  next
    case add
    have "additive (or_expression n) ?ts = Inr (Binary oper l r, rest)"
      unfolding additive_def
      by (rule chain_step [OF lift_term [OF L] _ lift_term [OF R] _ len]) (use add close in simp_all)
    then show ?thesis by (intro lift_or lift_and not_pass comparison_pass) (use close in simp_all)
  next
    case cmp
    have "comparison (or_expression n) ?ts = Inr (Binary oper l r, rest)"
      by (rule comparison_step [OF lift_additive [OF lift_term [OF L]] _
            lift_additive [OF lift_term [OF R]] _ len]) (use cmp close in simp_all)
    then show ?thesis by (intro lift_or lift_and not_pass) (use close in simp_all)
  next
    case conj
    have "and_expression (or_expression n) ?ts = Inr (Binary OpAnd l r, rest)"
      unfolding and_expression_def
      by (rule chain_step [OF not_pass [OF comparison_pass [OF lift_additive [OF lift_term [OF L]]]] _
            not_pass [OF comparison_pass [OF lift_additive [OF lift_term [OF R]]]] _ len])
        (use conj close in simp_all)
    with conj show ?thesis by (intro lift_or) (use close in simp_all)
  next
    case disj
    show ?thesis
      unfolding or_expression.simps
      by (rule chain_step [OF lift_and [OF not_pass [OF comparison_pass [OF lift_additive
              [OF lift_term [OF L]]]]] _
            lift_and [OF not_pass [OF comparison_pass [OF lift_additive [OF lift_term [OF R]]]]] _ len])
        (use disj close in simp_all)
  qed
qed

lemma primary_paren:
  "or_expression n (inner @ TRParen # rest) = Inr (e, TRParen # rest) \<Longrightarrow> \<not> opens (current rest)
   \<Longrightarrow> unary (or_expression n) (TLParen # inner @ TRParen # rest) = Inr (e, rest)"
  by (simp add: primary_def expect_def parse_suffix_def opens_def)

lemma sign_or:
  assumes "operand n e" and "closes (current rest)"
  shows "or_expression (Suc n) (sign_token oper # render_expr e @ rest) = Inr (Unary oper e, rest)"
proof (cases "oper = OpNot")
  case True
  have "not_expression (or_expression n) (render_expr e @ rest) = Inr (e, rest)"
    using operandD [OF assms(1), of rest] assms(2) by (intro lifts) simp_all
  then have "not_expression (or_expression n) (sign_token oper # render_expr e @ rest)
      = Inr (Unary oper e, rest)"
    using True by simp
  then show ?thesis by (intro lift_or lift_and) (use assms(2) in simp_all)
next
  case False
  have "unary (or_expression n) (render_expr e @ rest) = Inr (e, rest)"
    using operandD [OF assms(1), of rest] assms(2) by simp
  then have "unary (or_expression n) (sign_token oper # render_expr e @ rest) = Inr (Unary oper e, rest)"
    using False by (cases oper) simp_all
  moreover have "current (sign_token oper # render_expr e @ rest) \<noteq> TNot"
    using False by (cases oper) simp_all
  ultimately show ?thesis by (intro lifts) (use assms(2) in simp_all)
qed

lemma argument_loop_render:
  "args \<noteq> [] \<Longrightarrow> (\<And>e. e \<in> set args \<Longrightarrow> operand n e) \<Longrightarrow> length args \<le> k
   \<Longrightarrow> argument_loop k (or_expression (Suc n)) acc (separated (map render_expr args) @ TRParen # rest)
     = Inr (acc @ args, rest)"
proof (induction args arbitrary: acc k)
  case (Cons e args)
  from Cons.prems(3) obtain j where k: "k = Suc j" "length args \<le> j" by (cases k) auto
  have e: "or_expression (Suc n) (render_expr e @ us) = Inr (e, us)" if "closes (current us)" for us
    by (rule operand_or) (use Cons.prems(2) that in simp_all)
  show ?case
  proof (cases args)
    case Nil
    then show ?thesis using e [of "TRParen # rest"] by (simp add: k del: or_expression.simps)
  next
    case (Cons a as)
    have "argument_loop j (or_expression (Suc n)) (acc @ [e])
            (separated (map render_expr args) @ TRParen # rest) = Inr ((acc @ [e]) @ args, rest)"
      by (rule Cons.IH) (use Cons Cons.prems k in simp_all)
    then show ?thesis
      using e [of "TComma # separated (map render_expr args) @ TRParen # rest"] Cons
      by (simp add: k expect_def del: or_expression.simps)
  qed
qed simp

lemma length_separated: "length args \<le> length (separated (map render_expr args))"
proof (induction "map render_expr args" arbitrary: args rule: separated.induct)
  case (2 ts)
  then obtain e where "args = [e]" by auto
  then show ?case using render_nonempty [of e] by (cases "render_expr e") simp_all
next
  case (3 ts us tss)
  then obtain a as where "args = a # as" and "us # tss = map render_expr as" by auto
  with 3(1) [of as] show ?case by (cases as) simp_all
qed simp

lemma separated_member: "e \<in> set args \<Longrightarrow> length (render_expr e) \<le> length (separated (map render_expr args))"
proof (induction "map render_expr args" arbitrary: args rule: separated.induct)
  case (3 ts us tss)
  then obtain a as where "args = a # as" and "us # tss = map render_expr as" by auto
  with 3(1) [of as] 3(3) show ?case by (cases as) auto
qed auto

lemma separated_first: "args \<noteq> [] \<Longrightarrow> current (separated (map render_expr args) @ ts) \<noteq> TRParen"
proof -
  assume "args \<noteq> []"
  then obtain a as where "args = a # as" by (cases args) auto
  then show ?thesis using render_first(2) [of a] by (cases as) simp_all
qed

lemma operand_call:
  assumes "\<And>e. e \<in> set args \<Longrightarrow> operand n e" and "to_ascii_lowercase name = name"
  shows "operand (Suc n) (Call name args)"
  unfolding operand_def
proof (intro allI impI)
  fix rest
  assume rest: "\<not> opens (current rest)"
  have "parse_call (or_expression (Suc n)) name (separated (map render_expr args) @ TRParen # rest)
      = Inr (Call name args, rest)"
  proof (cases "args = []")
    case True
    then show ?thesis using assms(2) by (simp add: parse_call_def)
  next
    case False
    have "argument_loop (Suc (length (separated (map render_expr args) @ TRParen # rest)))
        (or_expression (Suc n)) [] (separated (map render_expr args) @ TRParen # rest) = Inr (args, rest)"
      using False assms(1) length_separated [of args]
      by (subst argument_loop_render) (simp_all del: or_expression.simps)
    then show ?thesis
      using assms(2) separated_first [OF False]
      by (simp add: parse_call_def del: or_expression.simps argument_loop.simps)
  qed
  then show "unary (or_expression (Suc n)) (render_expr (Call name args) @ rest) = Inr (Call name args, rest)"
    using rest by (simp add: primary_def parse_suffix_def opens_def del: or_expression.simps)
qed

lemma operand_metric_window:
  "valid_window w \<Longrightarrow> operand n (Metric name (Some w))"
  by (cases w) (simp_all add: operand_def primary_def parse_suffix_def parse_window_def expect_def
      f64_le_finite)

lemma operand_producible: "producible e \<Longrightarrow> length (render_expr e) \<le> n \<Longrightarrow> operand n e"
proof (induction e arbitrary: n rule: render_expr.induct)
  case (5 name args)
  then obtain m where n: "n = Suc m" "length (separated (map render_expr args)) \<le> m" by (cases n) auto
  show ?case unfolding n
  proof (rule operand_call)
    fix e
    assume e: "e \<in> set args"
    with 5(2) have "producible e" by (simp add: list_all_iff)
    moreover have "length (render_expr e) \<le> m" using separated_member [OF e] n by simp
    ultimately show "operand m e" by (rule 5(1) [OF e])
  qed (use 5(2) in simp)
next
  case (6 oper e)
  then obtain m where n: "n = Suc m" "length (render_expr e) \<le> m" by (cases n) auto
  with 6 have "operand m e" by simp
  then have "or_expression (Suc m) (sign_token oper # render_expr e @ TRParen # rest)
      = Inr (Unary oper e, TRParen # rest)" for rest
    by (rule sign_or) simp
  then show ?case
    unfolding n operand_def
    using primary_paren [of "Suc m" "sign_token oper # render_expr e"]
    by (simp del: or_expression.simps)
next
  case (7 oper l r)
  then obtain m where n: "n = Suc m" "length (render_expr l) \<le> m" "length (render_expr r) \<le> m"
    by (cases n) auto
  with 7 have "operand m l" "operand m r" by simp_all
  then have "or_expression (Suc m) (render_expr l @ op_token oper # render_expr r @ TRParen # rest)
      = Inr (Binary oper l r, TRParen # rest)" for rest
    by (rule binary_or) simp
  then show ?case
    unfolding n operand_def
    using primary_paren [of "Suc m" "render_expr l @ op_token oper # render_expr r"]
    by (simp del: or_expression.simps)
next
  case (4 name w)
  then show ?case by (intro operand_metric_window) simp
qed (simp_all add: operand_def primary_def parse_suffix_def opens_def)

section \<open>Properties\<close>

text \<open>
  Parsing a condition always ends with a result of the source's parser: an expression or one
  of its errors, never for lack of fuel.
\<close>

theorem parse_terminates: "parse input \<noteq> Inl OutOfFuel"
  by (auto simp: parse_def tokens_def rbind_eq_Inl)

text \<open>
  C24. Every expression the parser can produce, written as tokens with all its parentheses,
  parses back to itself: no operator, argument, window or sign is lost or regrouped.
\<close>

theorem parse_render: "producible e \<Longrightarrow> parse_tokens (render_expr e @ [TEnd]) = Inr e"
proof -
  assume "producible e"
  then have "operand (Suc (length (render_expr e))) e" by (rule operand_producible) simp
  from operand_or [OF this, of "[TEnd]"] show ?thesis
    by (simp add: parse_tokens_def parse_fuel_def del: or_expression.simps)
qed

theorem parse_render_witness:
  "parse_tokens (render_expr (Binary OpAnd
       (Binary OpLt (Call ''mean'' [Metric ''loss'' (Some (Points 5))]) (Number (Fin 3)))
       (Unary OpNot (Call ''no_data'' [Duration 10]))) @ [TEnd])
   = Inr (Binary OpAnd
       (Binary OpLt (Call ''mean'' [Metric ''loss'' (Some (Points 5))]) (Number (Fin 3)))
       (Unary OpNot (Call ''no_data'' [Duration 10])))"
  by (rule parse_render) (simp add: to_ascii_lowercase_def ascii_lower_def is_ascii_upper_def byte_def)

end
