(* ===== verification/Alert_Props.thy ===== *)
theory Alert_Props
  imports Alert_Log Alert_Parser
begin

text \<open>
  Properties of alert conditions and of the alert engine: what conditions evaluate to, which
  samples a window shows, the limits on alerts over a whole replay, and the bounds on the
  engine's state in every state it can reach.
\<close>

section \<open>Kinds of values\<close>

datatype kind = KNumber | KFinite | KBool | KDuration | KSeries

fun has_kind :: "kind \<Rightarrow> evaluated \<Rightarrow> bool" where
  "has_kind k VUnknown = True"
| "has_kind KNumber (VNumber _) = True"
| "has_kind KFinite (VNumber x) = f64_is_finite x"
| "has_kind KBool (VBool _) = True"
| "has_kind KDuration (VDuration _) = True"
| "has_kind KSeries (VSeries _) = True"
| "has_kind _ _ = False"

definition call_kind :: "string \<Rightarrow> kind" where
  "call_kind name =
     (if name \<in> {''no_data'', ''isnan'', ''isinf'', ''has'', ''increasing'', ''decreasing'', ''stalled''}
      then KBool
      else if name = ''rate'' \<or> name = ''slope'' then KFinite
      else KNumber)"

fun kind_of :: "expr \<Rightarrow> kind" where
  "kind_of (Number _) = KNumber"
| "kind_of (Duration _) = KDuration"
| "kind_of (Metric _ None) = KNumber"
| "kind_of (Metric _ (Some _)) = KSeries"
| "kind_of (Call name _) = call_kind (to_ascii_lowercase name)"
| "kind_of (Unary OpNot _) = KBool"
| "kind_of (Unary _ _) = KNumber"
| "kind_of (Binary b _ _) = (if is_arithmetic b then KFinite else KBool)"

lemma has_kind_known_number [simp]: "has_kind KNumber (known_number v)"
  by (simp add: known_number_def split: option.split)

lemma has_kind_trend: "has_kind KFinite (trend v axis rate)"
  by (simp add: trend_def split: evaluated.split)

lemma has_kind_if:
  "(b \<Longrightarrow> has_kind k x) \<Longrightarrow> (\<not> b \<Longrightarrow> has_kind k y) \<Longrightarrow> has_kind k (if b then x else y)"
  by simp

lemma has_kind_if_unknown:
  "(b \<Longrightarrow> has_kind k x) \<Longrightarrow> has_kind k y \<Longrightarrow> has_kind k (if b then x else y)"
  by simp

lemma has_kind_aggregate: "has_kind (call_kind name) (aggregate name vals axis first)"
proof (cases "name = ''rate'' \<or> name = ''slope''")
  case True
  then show ?thesis
    by (elim disjE) (simp_all add: aggregate_def Let_def call_kind_def has_kind_trend)
next
  case rate: False
  show ?thesis
  proof (cases "name \<in> {''no_data'', ''isnan'', ''isinf'', ''has'', ''increasing'', ''decreasing'', ''stalled''}")
    case True
    then show ?thesis by (elim insertE) (simp_all add: aggregate_def Let_def call_kind_def)
  next
    case False
    then have "call_kind name = KNumber" using rate by (simp add: call_kind_def)
    moreover have "has_kind KNumber (aggregate name vals axis first)"
      unfolding aggregate_def Let_def
      by (intro has_kind_if_unknown; (simp only: has_kind.simps)?) (use False rate in simp_all)
    ultimately show ?thesis by simp
  qed
qed

lemma has_kind_call: "has_kind (call_kind (to_ascii_lowercase name)) (evaluate_call N name args vals c)"
proof -
  define n where "n = to_ascii_lowercase name"
  have kinds: "call_kind ''no_data'' = KBool" "call_kind ''isnan'' = KBool"
    "call_kind ''isinf'' = KBool" "call_kind ''has'' = KBool" "call_kind ''step'' = KNumber"
    "call_kind ''elapsed'' = KNumber" "call_kind ''age'' = KNumber"
    by (simp_all add: call_kind_def)
  have "has_kind KNumber (metric_age args c)"
    by (simp add: metric_age_def split: list.split expr.split option.split)
  then show ?thesis
    unfolding evaluate_call_def Let_def n_def [symmetric]
    by (intro has_kind_if) (simp_all add: test_number_def has_kind_aggregate kinds)
qed

section \<open>Reachable engines\<close>

inductive alert_reachable :: "alert_ext \<Rightarrow> alert_engine \<Rightarrow> bool" for X where
  created: "new_engine rules started capacity = Inr g \<Longrightarrow> alert_reachable X g"
| added: "alert_reachable X g \<Longrightarrow> add_rule g rule = Inr g' \<Longrightarrow> alert_reachable X g'"
| removed: "alert_reachable X g \<Longrightarrow> alert_reachable X (fst (remove_rule g name))"
| advanced: "alert_reachable X g \<Longrightarrow> input_ok i \<Longrightarrow> alert_reachable X (alert_advance X g i)"

fun point_windows :: "expr \<Rightarrow> nat list" where
  "point_windows (Metric _ (Some (Points n))) = [n]"
| "point_windows (Call _ args) = concat (map point_windows args)"
| "point_windows (Unary _ e) = point_windows e"
| "point_windows (Binary _ l r) = point_windows l @ point_windows r"
| "point_windows _ = []"

lemma validate_expr_windows:
  "validate_expr capacity e = Inr () \<Longrightarrow> list_all (\<lambda>n. n \<le> capacity) (point_windows e)"
proof (induction e rule: point_windows.induct)
  case (2 name args)
  then show ?case by (auto simp: result_iffs list_all_iff)
qed (auto simp: result_iffs ensure_eq_Inr list_all_iff split: if_splits)

definition rule_ok :: "nat \<Rightarrow> compiled_rule \<Rightarrow> bool" where
  "rule_ok capacity r \<longleftrightarrow> validate_rule (cr_rule r) capacity = Inr (cr_expression r)"

definition engine_ok :: "alert_engine \<Rightarrow> bool" where
  "engine_ok g \<longleftrightarrow>
     0 < ae_capacity g \<and> ae_capacity g \<le> MAX_WINDOW \<and>
     length (ae_rules g) \<le> 256 \<and> distinct (map ar_name (rules_of g)) \<and>
     list_all (rule_ok (ae_capacity g)) (ae_rules g) \<and>
     bm_sorted (ae_series g) \<and>
     list_all (\<lambda>(name, ss). ss \<noteq> [] \<and> length ss \<le> ae_capacity g) (ae_series g)"

lemma engine_ok_new: "new_engine rules started capacity = Inr g \<Longrightarrow> engine_ok g"
proof -
  assume new: "new_engine rules started capacity = Inr g"
  note g = new_engine_Inr [OF new]
  have "length (ae_rules g) = length rules" using g(2) by (auto simp: rules_of_def)
  moreover have "distinct (map ar_name (rules_of g))"
    using g(1) by (simp add: fresh_rules_def rules_of_def comp_def)
  moreover have "list_all (rule_ok capacity) (ae_rules g)"
    using g(1) by (simp add: fresh_rules_def list_all_iff rule_ok_def)
  ultimately show ?thesis using g by (simp add: engine_ok_def)
qed

lemma engine_ok_add: "engine_ok g \<Longrightarrow> add_rule g rule = Inr g' \<Longrightarrow> engine_ok g'"
  by (auto simp: add_rule_def result_iffs engine_ok_def rules_of_def has_rule_iff comp_def
      compile_rule_Inr rule_ok_def)

lemma engine_ok_remove: "engine_ok g \<Longrightarrow> engine_ok (fst (remove_rule g name))"
  unfolding engine_ok_def remove_rule_def Let_def rules_of_def
  by (auto simp: list_all_iff distinct_map_filter intro: le_trans [OF length_filter_le])

lemma push_sample_bounded:
  assumes "0 < capacity" and "bm_sorted series"
    and "list_all (\<lambda>(name, ss). ss \<noteq> [] \<and> length ss \<le> capacity) series"
  shows "bm_sorted (push_sample capacity series e)
    \<and> list_all (\<lambda>(name, ss). ss \<noteq> [] \<and> length ss \<le> capacity) (push_sample capacity series e)"
proof
  show sorted: "bm_sorted (push_sample capacity series e)" by (rule push_sample_stored(1) [OF assms(2)])
  show "list_all (\<lambda>(name, ss). ss \<noteq> [] \<and> length ss \<le> capacity) (push_sample capacity series e)"
    unfolding list_all_iff
  proof clarify
    fix name ss
    assume "(name, ss) \<in> set (push_sample capacity series e)"
    then have "bm_get (push_sample capacity series e) name = Some ss"
      by (simp add: bm.get_iff_entry [OF sorted])
    then have "ss = newest capacity (stored series name @ [snd e]) \<or> (name, ss) \<in> set series"
      by (auto simp: push_sample_stored(2) [OF assms(2)] bm.get_iff_entry [OF assms(2)] split: if_splits)
    then show "ss \<noteq> [] \<and> length ss \<le> capacity"
      using assms(1,3) by (auto simp: list_all_iff newest_def)
  qed
qed

lemma engine_ok_advance: "engine_ok g \<Longrightarrow> engine_ok (alert_advance X g i)"
proof -
  assume ok: "engine_ok g"
  have "bm_sorted (foldl (push_sample (ae_capacity g)) series es)
      \<and> list_all (\<lambda>(name, ss). ss \<noteq> [] \<and> length ss \<le> ae_capacity g)
          (foldl (push_sample (ae_capacity g)) series es)"
    if "bm_sorted series" "list_all (\<lambda>(name, ss). ss \<noteq> [] \<and> length ss \<le> ae_capacity g) series"
    for series es
    using that
  proof (induction es arbitrary: series)
    case (Cons e es)
    then show ?case using push_sample_bounded [of "ae_capacity g" series e] ok by (simp add: engine_ok_def)
  qed simp
  note series = this [of "ae_series g" "input_samples X i"]
  have "list_all (rule_ok (ae_capacity g)) (ae_rules (alert_advance X g i))"
    using ok by (simp add: alert_advance_rules list_all_iff rule_ok_def engine_ok_def)
  moreover have "length (ae_rules (alert_advance X g i)) = length (ae_rules g)" by (simp add: alert_advance_rules)
  ultimately show ?thesis using ok series by (simp add: engine_ok_def alert_advance_series)
qed

lemma alert_reachable_ok: "alert_reachable X g \<Longrightarrow> engine_ok g"
  by (induction rule: alert_reachable.induct)
    (auto intro: engine_ok_new engine_ok_add engine_ok_remove engine_ok_advance)

lemma rule_ok_windows: "rule_ok capacity r \<Longrightarrow> list_all (\<lambda>n. n \<le> capacity) (point_windows (cr_expression r))"
  by (rule validate_expr_windows) (auto simp: rule_ok_def validate_rule_def result_iffs)

section \<open>A replay\<close>

definition demo_alert_ext :: alert_ext where
  "demo_alert_ext =
     \<lparr>al_number = \<lparr>num_is_i64 = \<lambda>_. False, num_is_u64 = \<lambda>_. False, num_is_f64 = \<lambda>_. True,
                     num_as_f64 = \<lambda>_. Some (Fin 1), num_of_f64 = \<lambda>_. JNumber ''1''\<rparr>,
      al_text = \<lambda>_. ''text''\<rparr>"

definition demo_rule :: alert_rule where
  "demo_rule =
     \<lparr>ar_name = ''nan'', ar_condition = ''isnan(loss)'', ar_level = Critical, ar_message = [],
      ar_mode = Edge, ar_for_steps = 1, ar_for_duration_ms = 0, ar_partial_window = False,
      ar_axis = WallTime, ar_cooldown_seconds = 1, ar_max_fires = Some 1, ar_notify_recovery = True,
      ar_tags = [], ar_channels = []\<rparr>"

definition nan_at :: "int \<Rightarrow> replay_input" where
  "nan_at t = StepInput t (t * 1000000000) [(''loss'', JObject [(NONFINITE_KEY, JString ''nan'')])]"

definition one_at :: "int \<Rightarrow> replay_input" where
  "one_at t = StepInput t (t * 1000000000) [(''loss'', JNumber ''1'')]"

definition alert_demo_event :: "int \<Rightarrow> bool \<Rightarrow> alert_event" where
  "alert_demo_event t recovered =
     \<lparr>ev_rule = ''nan'', ev_level = (if recovered then Info else Critical),
      ev_message = (if recovered then ''nan recovered'' else ''isnan(loss)''), ev_step = t,
      ev_observed_at_ns = t * 1000000000, ev_recovered = recovered, ev_tags = [], ev_channels = []\<rparr>"

lemma demo_parse: "parse ''isnan(loss)'' = Inr (Call ''isnan'' [Metric ''loss'' None])"
  by code_simp

definition demo_engine :: "rule_state \<Rightarrow> sample list \<Rightarrow> int \<Rightarrow> alert_engine" where
  "demo_engine st ss t =
     \<lparr>ae_rules = [\<lparr>cr_rule = demo_rule, cr_expression = Call ''isnan'' [Metric ''loss'' None], cr_state = st\<rparr>],
      ae_series = (if ss = [] then [] else [(''loss'', ss)]), ae_capacity = 4, ae_started_at_ns = 0,
      ae_last_observed_at_ns = (if ss = [] then None else Some (t * 1000000000))\<rparr>"

definition demo_sample :: "int \<Rightarrow> f64 \<Rightarrow> sample" where
  "demo_sample t x = \<lparr>sm_observed_at_ns = t * 1000000000, sm_step = t, sm_value = x\<rparr>"

definition alert_demo_state :: "nat \<Rightarrow> bool \<Rightarrow> int option \<Rightarrow> int option \<Rightarrow> rule_state" where
  "alert_demo_state n firing stp since =
     \<lparr>rs_consecutive = n, rs_fires = 1, rs_firing = firing, rs_last_fire_ns = Some 1000000000,
      rs_last_step = stp, rs_since_ns = since\<rparr>"

lemma demo_compile:
  "compile_rule demo_rule 4
   = Inr \<lparr>cr_rule = demo_rule, cr_expression = Call ''isnan'' [Metric ''loss'' None],
          cr_state = initial_rule_state\<rparr>"
  by (simp add: compile_rule_def validate_rule_def demo_rule_def demo_parse blank_def str_trim_def
      trim_start.simps trim_rev.simps ws1_def ws2_def ws3_def byte_def check_call_def valid_arity_def
      fixed_arity_one_def)

lemma alert_demo_new: "new_engine [demo_rule] 0 4 = Inr (demo_engine initial_rule_state [] 0)"
  by (simp add: new_engine_def demo_compile has_rule_def MAX_WINDOW_def demo_engine_def)

lemma demo_rule_fields [simp]:
  "ar_name demo_rule = ''nan''" "ar_condition demo_rule = ''isnan(loss)''"
  "ar_level demo_rule = Critical" "ar_message demo_rule = []" "ar_mode demo_rule = Edge"
  "ar_for_steps demo_rule = 1" "ar_for_duration_ms demo_rule = 0" "ar_max_fires demo_rule = Some 1"
  "ar_notify_recovery demo_rule" "ar_tags demo_rule = []" "ar_channels demo_rule = []"
  "ar_cooldown_seconds demo_rule = 1" "cooldown_ns demo_rule = 1000000000"
  by (simp_all add: demo_rule_def cooldown_ns_exact)

lemma demo_truth:
  "bm_get (ec_pending c) ''loss'' = Some s \<Longrightarrow>
   truth (evaluate N c (Call ''isnan'' [Metric ''loss'' None])) = tri_of_bool (f64_is_nan (sm_value s))"
  by (simp add: evaluate_call_def Let_def to_ascii_lowercase_def ascii_lower_def is_ascii_upper_def
      byte_def first_value_def metric_value_def current_value_def known_number_def test_number_def)

lemma demo_message: "render_template f ''isnan(loss)'' = ''isnan(loss)''"
  by (subst render_template.simps) simp

lemma demo_samples:
  "samples_of demo_alert_ext t (t * 1000000000) [(''loss'', JObject [(NONFINITE_KEY, JString ''nan'')])]
   = [(''loss'', demo_sample t NaN)]"
  "samples_of demo_alert_ext t (t * 1000000000) [(''loss'', JNumber ''1'')] = [(''loss'', demo_sample t (Fin 1))]"
  by (simp_all add: samples_of_def numeric_value_def demo_alert_ext_def demo_sample_def bm_get_def)

lemma alert_demo_prepare:
  "c = prepare_context (demo_engine st ss t0) t (t * 1000000000) m [(''loss'', demo_sample t x)] lo False
   \<Longrightarrow> prepare_rule demo_alert_ext c \<lparr>cr_rule = demo_rule, cr_expression = Call ''isnan'' [Metric ''loss'' None], cr_state = st\<rparr>
     = (let (st', r) = transition demo_rule False t (t * 1000000000) (tri_of_bool (f64_is_nan x)) st
        in (st', case r of Quiet \<Rightarrow> [] | Recovered \<Rightarrow> [alert_demo_event t True] | Fired \<Rightarrow> [alert_demo_event t False]))"
  using demo_truth [of "rule_context c \<lparr>cr_rule = demo_rule,
      cr_expression = Call ''isnan'' [Metric ''loss'' None], cr_state = st\<rparr>" "demo_sample t x"
      "al_number demo_alert_ext"]
  by (simp add: prepare_rule_def rule_context_def prepare_context_def bm_of_list_def bm_get_def
      demo_sample_def Let_def outcome_events_def alert_demo_event_def render_message_def demo_message
      del: evaluate.simps split: prod.split outcome.split)

lemma demo_replay_one:
  assumes "0 \<le> t" and "lastt \<le> t * 1000000000" and "length ss < 4" and "length events < 10"
    and "transition demo_rule False t (t * 1000000000) (tri_of_bool (f64_is_nan x)) st = (st', r)"
    and i: "(i = nan_at t \<and> x = NaN) \<or> (i = one_at t \<and> x = Fin 1)"
  shows "replay_one demo_alert_ext \<lparr>rp_engine = demo_engine st ss t0, rp_events = events, rp_last = lastt\<rparr> i
    = Inr \<lparr>rp_engine = demo_engine st' (ss @ [demo_sample t x]) t,
           rp_events = events @ (case r of Quiet \<Rightarrow> [] | Recovered \<Rightarrow> [alert_demo_event t True] | Fired \<Rightarrow> [alert_demo_event t False]),
           rp_last = t * 1000000000\<rparr>"
proof -
  obtain m where i': "i = StepInput t (t * 1000000000) m"
    and m: "samples_of demo_alert_ext t (t * 1000000000) m = [(''loss'', demo_sample t x)]"
    using i by (auto simp: nan_at_def one_at_def demo_samples)
  have u: "prepare_input demo_alert_ext (demo_engine st ss t0) i
    = \<lparr>au_samples = [(''loss'', demo_sample t x)], au_states = [st'],
       au_events = (case r of Quiet \<Rightarrow> [] | Recovered \<Rightarrow> [alert_demo_event t True] | Fired \<Rightarrow> [alert_demo_event t False]),
       au_last_observed_at_ns = Some (t * 1000000000)\<rparr>"
    using alert_demo_prepare [OF refl, of st ss t0 t m x "Some (t * 1000000000)"] assms(5)
    by (simp add: i' prepare_step_def m prepare_def Let_def) (simp add: demo_engine_def)
  have g: "apply_update (demo_engine st ss t0)
        \<lparr>au_samples = [(''loss'', demo_sample t x)], au_states = [st'], au_events = evs,
         au_last_observed_at_ns = Some (t * 1000000000)\<rparr>
      = demo_engine st' (ss @ [demo_sample t x]) t" for evs
    using assms(3) by (simp add: apply_update_def demo_engine_def push_sample_def bm_get_def)
  have budget: "check_series_budget (demo_engine st' (ss @ [demo_sample t x]) t) 4096 (64 * 1024 * 1024) = Inr ()"
    using assms(3) by (simp add: check_series_budget_def demo_engine_def)
  have it: "input_step i = t" "input_time i = t * 1000000000" by (simp_all add: i')
  show ?thesis
    using assms(1,2,4) budget
    unfolding replay_one_def Let_def replaying.simps u alert_update.simps g it
    by (simp split: outcome.split)
qed

lemma demo_replay:
  "replay demo_alert_ext [demo_rule] 0 4 [nan_at 1, one_at 2, nan_at 3]
   = Inr [alert_demo_event 1 False, alert_demo_event 2 True]"
proof -
  note simps = transition_def tri_of_bool_def initial_rule_state_def alert_demo_state_def Let_def
    count_true_def since_of_def steps_ready_def cooling_def exhausted_def
    saturating_add_u64_def saturating_sub_i64_def saturating_mul_i64_def sat_i64_def u64_as_i64_def
  have t1: "transition demo_rule False 1 (1 * 1000000000) (tri_of_bool (f64_is_nan NaN)) initial_rule_state
      = (alert_demo_state 1 True (Some 1) (Some 1000000000), Fired)"
    by (simp add: simps)
  have t2: "transition demo_rule False 2 (2 * 1000000000) (tri_of_bool (f64_is_nan (Fin 1)))
        (alert_demo_state 1 True (Some 1) (Some 1000000000)) = (alert_demo_state 0 False (Some 1) None, Recovered)"
    by (simp add: simps)
  have t3: "transition demo_rule False 3 (3 * 1000000000) (tri_of_bool (f64_is_nan NaN))
        (alert_demo_state 0 False (Some 1) None) = (alert_demo_state 1 False (Some 3) (Some 3000000000), Quiet)"
    by (simp add: simps)
  show ?thesis
    by (simp add: replay_def alert_demo_new demo_replay_one [OF _ _ _ _ t1] demo_replay_one [OF _ _ _ _ t2]
        demo_replay_one [OF _ _ _ _ t3] del: One_nat_def)
qed

section \<open>Comparisons\<close>

text \<open>What the comparison operators mean on exact values.\<close>

definition exact_relation :: "binary_op \<Rightarrow> rat \<Rightarrow> rat \<Rightarrow> bool" where
  "exact_relation b x y =
     (case b of OpEq \<Rightarrow> x = y | OpNe \<Rightarrow> x \<noteq> y | OpLt \<Rightarrow> x < y | OpLe \<Rightarrow> x \<le> y | OpGt \<Rightarrow> y < x
      | OpGe \<Rightarrow> y \<le> x | _ \<Rightarrow> False)"

definition is_comparison :: "binary_op \<Rightarrow> bool" where
  "is_comparison b \<longleftrightarrow> b \<in> {OpEq, OpNe, OpLt, OpLe, OpGt, OpGe}"

section \<open>Properties\<close>

text \<open>
  C23. Conditions are well typed: an expression evaluates to a value of the kind its outermost
  construct announces, or to unknown. In particular arithmetic, \<open>rate\<close> and \<open>slope\<close> never
  yield NaN or an infinity, and comparisons and connectives always yield a truth value.
\<close>

theorem evaluate_kind: "has_kind (kind_of e) (evaluate N c e)"
proof (cases e)
  case (Metric name window)
  then show ?thesis
    by (cases window) (simp_all add: metric_value_def Let_def split: metric_window.split)
next
  case (Call name args)
  then show ?thesis by (simp add: has_kind_call)
next
  case (Unary oper v)
  then show ?thesis by (cases oper) (simp_all add: evaluate_unary_def)
next
  case (Binary b l r)
  then show ?thesis
    by (simp add: evaluate_binary_def is_arithmetic_def split: option.split)
qed simp_all

text \<open>
  A comparison is true exactly when both sides are finite numbers whose exact values stand
  in the relation; a missing metric, a NaN or an infinity never makes a comparison true, not
  even \<open>!=\<close>.
\<close>

theorem comparison_true:
  assumes "is_comparison b"
  shows "truth (evaluate N c (Binary b l r)) = TriTrue \<longleftrightarrow>
    (\<exists>x y. number_of (evaluate N c l) = Some x \<and> number_of (evaluate N c r) = Some y
       \<and> f64_is_finite x \<and> f64_is_finite y \<and> exact_relation b (f64_val x) (f64_val y))"
proof -
  have b: "b \<noteq> OpAnd" "b \<noteq> OpOr" "\<not> is_arithmetic b"
    using assms by (auto simp: is_comparison_def is_arithmetic_def)
  have "compare_f64 b x y = exact_relation b (f64_val x) (f64_val y)"
    if "f64_is_finite x" "f64_is_finite y" for x y
    using that assms
    by (auto simp: is_comparison_def exact_relation_def f64_eq_finite f64_less_finite f64_le_finite)
  with b show ?thesis
    by (auto simp: evaluate_binary_def tri_of_bool_def split: option.split)
qed

theorem comparison_true_witness:
  "truth (evaluate (al_number demo_alert_ext)
     (input_context demo_alert_ext (demo_engine initial_rule_state [] 0) (nan_at 1))
     (Binary OpNe (Number NaN) (Number (Fin 1)))) \<noteq> TriTrue"
  by (subst comparison_true) (simp_all add: is_comparison_def)

text \<open>
  A window over the last \<open>n\<close> points shows exactly the newest \<open>n\<close> samples that were ever logged
  under the metric's name, the one of the current step included, although the engine only keeps
  as many as its capacity: rules are validated against that capacity. With fewer samples the
  window is unknown, unless the rule accepts partial windows.
\<close>

theorem window_shows_newest:
  assumes "new_engine rules started capacity = Inr g" and "list_all input_ok inputs" and "input_ok i"
    and "n \<le> capacity"
  shows "evaluate N (rule_context (input_context X (foldl (alert_advance X) g inputs) i) r)
           (Metric name (Some (Points n)))
    = (let history = logged X name (inputs @ [i])
       in if \<not> ar_partial_window (cr_rule r) \<and> length history < n then VUnknown
          else VSeries (newest n history))"
proof -
  note g = new_engine_Inr [OF assms(1)]
  define h where "h = logged X name (inputs @ [i])"
  define w where "w = windowed name (rule_context (input_context X (foldl (alert_advance X) g inputs) i) r)"
  have w: "w = newest capacity (logged X name inputs)
      @ (case sample_at X name i of Some s \<Rightarrow> [s] | None \<Rightarrow> [])"
    unfolding w_def using windowed_logged [of g inputs i name X r] assms g by simp
  have newest: "newest n w = newest n h"
    by (simp add: w h_def logged_snoc newest_newest [OF assms(4)])
  have "length w < n \<longleftrightarrow> length h < n"
    using assms(4) by (auto simp: w h_def logged_snoc min_def split: option.split)
  moreover have "ec_partial_window (rule_context c r) = ar_partial_window (cr_rule r)" for c
    by (simp add: rule_context_def)
  ultimately show ?thesis
    using newest by (simp add: metric_value_def newest_def flip: w_def h_def)
qed

theorem window_shows_newest_witness:
  "evaluate (al_number demo_alert_ext) (rule_context (input_context demo_alert_ext
        (foldl (alert_advance demo_alert_ext) (demo_engine initial_rule_state [] 0) [one_at 1, nan_at 2]) (one_at 3))
        \<lparr>cr_rule = demo_rule, cr_expression = Number NaN, cr_state = initial_rule_state\<rparr>)
      (Metric ''loss'' (Some (Points 2)))
   = VSeries [demo_sample 2 NaN, demo_sample 3 (Fin 1)]"
proof -
  have "logged demo_alert_ext ''loss'' ([one_at 1, nan_at 2] @ [one_at 3])
      = [demo_sample 1 (Fin 1), demo_sample 2 NaN, demo_sample 3 (Fin 1)]"
    by (simp add: logged_def one_at_def nan_at_def bm_get_def numeric_value_def demo_alert_ext_def
        demo_sample_def)
  then show ?thesis
    by (subst window_shows_newest [OF alert_demo_new])
      (simp_all add: one_at_def nan_at_def bm_sorted_def newest_def)
qed

text \<open>
  C21. Over a whole replay a rule raises at most \<open>max_fires\<close> alerts, and two consecutive alerts of
  a rule lie at least its cooldown apart.
\<close>

theorem alert_limits:
  assumes "replay X rules started capacity inputs = Inr events" and "rule \<in> set rules"
    and "limit_in_range rule"
  shows "within_limit rule (rule_log (ar_name rule) events)
    \<and> spaced (int (ar_cooldown_seconds rule) * 1000000000) (fires (rule_log (ar_name rule) events))"
proof -
  obtain st where "rule_log_ok rule st (rule_log (ar_name rule) events)" "ar_cooldown_seconds rule \<le> 31536000"
    by (rule replay_log_ok [OF assms(1,2)])
  with assms(3) show ?thesis by (simp add: rule_log_ok_def cooldown_ns_exact)
qed

theorem alert_limits_witness:
  "within_limit demo_rule (rule_log ''nan'' [alert_demo_event 1 False, alert_demo_event 2 True])
   \<and> spaced 1000000000 (fires (rule_log ''nan'' [alert_demo_event 1 False, alert_demo_event 2 True]))"
  using alert_limits [OF demo_replay, of demo_rule] by (simp add: limit_in_range_def)

text \<open>
  Over a whole replay a recovery is only reported by a rule that asks for it and right
  after an alert of that rule; the alerts and recoveries of an edge-triggered rule alternate,
  starting with an alert.
\<close>

theorem recoveries_follow_alerts:
  assumes "replay X rules started capacity inputs = Inr events" and "rule \<in> set rules"
  shows "orderly rule (rule_log (ar_name rule) events)"
proof -
  obtain st where "rule_log_ok rule st (rule_log (ar_name rule) events)"
    by (rule replay_log_ok [OF assms])
  then show ?thesis by (simp add: rule_log_ok_def)
qed

theorem recoveries_follow_alerts_witness:
  "orderly demo_rule (rule_log ''nan'' [alert_demo_event 1 False, alert_demo_event 2 True])"
  using recoveries_follow_alerts [OF demo_replay, of demo_rule] by simp

text \<open>
  C22. In every state an engine can reach by adding and removing rules, steps and ticks, it has at
  most 256 rules with different names, its series hold between one and \<open>capacity\<close> samples, and
  no rule looks at a window of more points than the capacity.
\<close>

theorem alert_engine_bounded:
  assumes "alert_reachable X g"
  shows "length (ae_rules g) \<le> 256 \<and> distinct (map ar_name (rules_of g))
    \<and> list_all (\<lambda>(name, ss). 0 < length ss \<and> length ss \<le> ae_capacity g) (ae_series g)
    \<and> ae_capacity g \<le> 100000
    \<and> list_all (\<lambda>r. list_all (\<lambda>n. n \<le> ae_capacity g) (point_windows (cr_expression r))) (ae_rules g)"
  using alert_reachable_ok [OF assms] rule_ok_windows
  by (auto simp: engine_ok_def list_all_iff MAX_WINDOW_def)

theorem alert_engine_bounded_witness:
  "length (ae_rules (alert_advance demo_alert_ext (demo_engine initial_rule_state [] 0) (nan_at 1))) \<le> 256"
proof -
  have "alert_reachable demo_alert_ext (alert_advance demo_alert_ext (demo_engine initial_rule_state [] 0) (nan_at 1))"
    by (intro alert_reachable.advanced alert_reachable.created [OF alert_demo_new])
      (simp add: nan_at_def bm_sorted_def)
  from alert_engine_bounded [OF this] show ?thesis by blast
qed

end
