(* ===== verification/Artifacts.thy ===== *)
theory Artifacts
  imports Core_Snapshots
begin

text \<open>
  Artifact records (\<open>rust/rvx-core/src/artifacts.rs\<close>), shared by the tracker that writes them and the
  index that reads them.
\<close>

datatype artifact_action = LogArtifact | UseArtifact

record artifact_record =
  af_record_version :: nat
  af_action :: artifact_action
  af_name :: string
  af_kind :: string
  af_digest :: string
  af_size :: nat
  af_uri :: string
  af_aliases :: "string list"
  af_metadata :: json

definition artifact_text :: "string \<Rightarrow> bool" where
  "artifact_text s \<longleftrightarrow> \<not> blank s \<and> length s \<le> 4096 \<and> \<not> contains_nul s"

definition validate_artifact :: "artifact_record \<Rightarrow> protocol_error + unit" where
  "validate_artifact a =
     ensure (\<not> (af_record_version a \<noteq> 1 \<or> \<not> artifact_text (af_name a) \<or> \<not> artifact_text (af_kind a)
                 \<or> \<not> artifact_text (af_digest a) \<or> \<not> artifact_text (af_uri a)
                 \<or> 256 < length (af_aliases a) \<or> list_ex (\<lambda>s. \<not> artifact_text s) (af_aliases a)
                 \<or> length (bset_of_list (af_aliases a)) \<noteq> length (af_aliases a)
                 \<or> \<not> (is_object (af_metadata a) \<or> is_null (af_metadata a))))
       (InvalidSnapshot ''invalid artifact version, identity, aliases or metadata'')"

end
