(* ===== verification/Tracker.thy ===== *)
theory Tracker
  imports Alert_Engine Producer Artifacts
begin

text \<open>
  The tracker (\<open>rvx-tracker\<close>: \<open>lib.rs\<close>, \<open>state.rs\<close>, \<open>snapshot.rs\<close>, \<open>model.rs\<close>, \<open>delivery.rs\<close>):
  metrics and spans are collected into an open step, committed as snapshots to the producer and
  kept in a bounded history; alerts are raised by the engine of \<open>Alert_Engine\<close> and handed to a
  bounded delivery queue.

  \<^item> \<open>tracker\<close> is \<open>Tracker\<close>, \<open>tracker_state\<close> what its mutex guards. Every operation runs under the
    lock, so it is one function from the state to a result and a new state.
  \<^item> \<open>transact\<close> works on a copy of the state (\<open>batch\<close>) that replaces it only after the producer
    has accepted the batch.
  \<^item> \<open>merge_history\<close> ends with a loop that drops the oldest entries; on an empty history that is
    still over budget it would not end, which is the value \<open>Hangs\<close>.
  \<^item> \<open>tracker_lib\<close> is what the source takes from \<open>serde_json\<close>: the sizes of encoded values.
  \<^item> The clock is an argument, \<open>now\<close>.
\<close>

section \<open>Data\<close>

datatype tracker_failure =
    BadInput tracker_error
  | BadInputText string
  | AlreadyFinished
  | ProducerFailed producer_error
  | JsonFailed string
  | Hangs

datatype step_policy = Monotonic | Allow

record tracker_options =
  to_step_axis :: string
  to_history_steps :: nat
  to_step_policy :: step_policy
  to_span_count :: bool
  to_alert_window :: nat
  to_watchdog_interval_ms :: nat
  to_max_state_bytes :: nat
  to_max_history_bytes :: nat
  to_max_metrics :: nat
  to_max_spans :: nat
  to_max_alert_series_bytes :: nat
  to_delivery_queue_capacity :: nat
  to_shutdown_timeout_ms :: nat

definition default_tracker_options :: tracker_options where
  "default_tracker_options =
     \<lparr>to_step_axis = ''step'', to_history_steps = 1024, to_step_policy = Monotonic,
      to_span_count = False, to_alert_window = 1024, to_watchdog_interval_ms = 30000,
      to_max_state_bytes = 8 * 1024 * 1024, to_max_history_bytes = 64 * 1024 * 1024,
      to_max_metrics = 4096, to_max_spans = 4096, to_max_alert_series_bytes = 64 * 1024 * 1024,
      to_delivery_queue_capacity = 1024, to_shutdown_timeout_ms = 5000\<rparr>"

definition validate_options :: "tracker_options \<Rightarrow> tracker_failure + unit" where
  "validate_options o' =
     rbind (ensure (\<not> (blank (to_step_axis o') \<or> contains_nul (to_step_axis o')
                        \<or> 256 < length (to_step_axis o')))
              (BadInputText ''step_axis must contain 1..=256 non-NUL bytes'')) (\<lambda>_.
     rbind (ensure (1 \<le> to_history_steps o' \<and> to_history_steps o' \<le> 1000000)
              (BadInputText ''history_steps must be between 1 and 1000000'')) (\<lambda>_.
     rbind (ensure (1 \<le> to_alert_window o' \<and> to_alert_window o' \<le> 100000)
              (BadInputText ''alert_window must be between 1 and 100000'')) (\<lambda>_.
     rbind (ensure (to_watchdog_interval_ms o' = 0
                    \<or> (100 \<le> to_watchdog_interval_ms o' \<and> to_watchdog_interval_ms o' \<le> 3600000))
              (BadInputText ''watchdog_interval_ms must be zero or between 100 and 3600000'')) (\<lambda>_.
     ensure (\<not> (to_max_state_bytes o' = 0 \<or> 67108864 < to_max_state_bytes o'
                 \<or> to_max_history_bytes o' = 0 \<or> 1073741824 < to_max_history_bytes o'
                 \<or> to_max_alert_series_bytes o' = 0 \<or> 1073741824 < to_max_alert_series_bytes o'
                 \<or> \<not> (1 \<le> to_max_metrics o' \<and> to_max_metrics o' \<le> 100000)
                 \<or> \<not> (1 \<le> to_max_spans o' \<and> to_max_spans o' \<le> 100000)
                 \<or> \<not> (1 \<le> to_delivery_queue_capacity o' \<and> to_delivery_queue_capacity o' \<le> 100000)
                 \<or> \<not> (1 \<le> to_shutdown_timeout_ms o' \<and> to_shutdown_timeout_ms o' \<le> 60000)))
       (BadInputText ''invalid tracker byte/cardinality/lifecycle budget'')))))"

record span_record =
  sp_name :: string
  sp_start_ns :: int
  sp_end_ns :: int
  sp_duration_ms :: f64
  sp_attributes :: json
  sp_error :: "string option"

type_synonym metric_map = "(string, json) bmap"

record committed_step =
  cs_step :: int
  cs_observed_at_ns :: int
  cs_metrics :: metric_map
  cs_summary :: metric_map
  cs_alerts :: "alert_event list"
  cs_spans :: "span_record list"
  cs_artifacts :: "artifact_record list"

record history_entry =
  he_record :: committed_step
  he_bytes :: nat

record log_result =
  lr_accepted :: bool
  lr_step :: "int option"
  lr_committed :: nat
  lr_reason :: "string option"
  lr_capture :: "capture_receipt option"

record tracker_state =
  ts_status :: string
  ts_next_step :: int
  ts_open_step :: "int option"
  ts_open_metrics :: metric_map
  ts_open_spans :: "span_record list"
  ts_last_committed_step :: "int option"
  ts_summary :: metric_map
  ts_history :: "history_entry list"
  ts_history_bytes :: nat
  ts_evicted_steps :: nat
  ts_commits :: nat
  ts_alerts :: alert_engine
  ts_finished :: bool

record tracker_lib =
  tx_serde :: serde_ext
  tx_alert :: alert_ext
  tx_record_bytes :: "committed_step \<Rightarrow> string + nat"
  tx_working_bytes :: "metric_map \<Rightarrow> span_record list \<Rightarrow> metric_map \<Rightarrow> json \<Rightarrow> string + nat"
  tx_row_bytes :: "metric_map \<Rightarrow> string + nat"
  tx_event_bytes :: "alert_event \<Rightarrow> string + nat"

section \<open>Delivery queue\<close>

text \<open>
  \<open>AlertQueue\<close>: the channel with the events waiting in it (each with its size), the counters, and
  what the worker has handed to the sink.
\<close>

record alert_queue =
  aq_capacity :: nat
  aq_max_bytes :: nat
  aq_waiting :: "(alert_event \<times> nat) list"
  aq_accepted :: nat
  aq_completed :: nat
  aq_dropped :: nat
  aq_bytes :: nat
  aq_stop :: bool
  aq_delivered :: "alert_event list"

definition new_queue :: "nat \<Rightarrow> nat \<Rightarrow> alert_queue" where
  "new_queue capacity byte_limit =
     \<lparr>aq_capacity = capacity, aq_max_bytes = byte_limit, aq_waiting = [], aq_accepted = 0,
      aq_completed = 0, aq_dropped = 0, aq_bytes = 0, aq_stop = False, aq_delivered = []\<rparr>"

definition queue_send :: "tracker_lib \<Rightarrow> alert_queue \<Rightarrow> alert_event \<Rightarrow> alert_queue" where
  "queue_send X q event =
     (let q = q\<lparr>aq_accepted := aq_accepted q + 1\<rparr> in
      case tx_event_bytes X event of
        Inl _ \<Rightarrow> q\<lparr>aq_dropped := aq_dropped q + 1\<rparr>
      | Inr bytes \<Rightarrow>
          if aq_bytes q + bytes \<le> aq_max_bytes q \<and> \<not> aq_stop q
             \<and> length (aq_waiting q) < aq_capacity q
          then q\<lparr>aq_waiting := aq_waiting q @ [(event, bytes)], aq_bytes := aq_bytes q + bytes\<rparr>
          else q\<lparr>aq_dropped := aq_dropped q + 1\<rparr>)"

text \<open>One round of the worker: after a stop it drops what is left, otherwise it hands over one.\<close>

definition queue_work :: "alert_queue \<Rightarrow> alert_queue" where
  "queue_work q =
     (if aq_stop q then
        q\<lparr>aq_waiting := [], aq_dropped := aq_dropped q + length (aq_waiting q),
          aq_bytes := aq_bytes q - sum_list (map snd (aq_waiting q))\<rparr>
      else
        case aq_waiting q of
          [] \<Rightarrow> q
        | (event, bytes) # rest \<Rightarrow>
            q\<lparr>aq_waiting := rest, aq_delivered := aq_delivered q @ [event],
              aq_completed := aq_completed q + 1, aq_bytes := aq_bytes q - bytes\<rparr>)"

definition queue_stop :: "alert_queue \<Rightarrow> alert_queue" where
  "queue_stop q = q\<lparr>aq_stop := True\<rparr>"

definition queue_pending :: "alert_queue \<Rightarrow> nat" where
  "queue_pending q = aq_accepted q - (aq_completed q + aq_dropped q)"

section \<open>Steps\<close>

definition resolve_step :: "tracker_state \<Rightarrow> int option \<Rightarrow> int" where
  "resolve_step st requested =
     (case requested of
        Some s \<Rightarrow> s
      | None \<Rightarrow> (case ts_open_step st of Some s \<Rightarrow> s | None \<Rightarrow> ts_next_step st))"

datatype step_decision = Keep | CommitOpen | Reject string

definition decide_step :: "tracker_state \<Rightarrow> int \<Rightarrow> step_policy \<Rightarrow> step_decision" where
  "decide_step st target policy =
     (case ts_open_step st of
        Some open' \<Rightarrow>
          if open' < target \<or> (target < open' \<and> policy = Allow) then CommitOpen
          else if target < open' then
            Reject (''step '' @ show_int target @ '' is behind the open monotonic step '' @ show_int open')
          else Keep
      | None \<Rightarrow>
          if target < ts_next_step st \<and> policy = Monotonic \<and> ts_last_committed_step st \<noteq> Some target
          then Reject (''step '' @ show_int target @ '' is behind the next monotonic step ''
                       @ show_int (ts_next_step st))
          else Keep)"

definition event_step :: "tracker_state \<Rightarrow> int" where
  "event_step st =
     (case ts_open_step st of
        Some s \<Rightarrow> s
      | None \<Rightarrow> (case ts_last_committed_step st of Some s \<Rightarrow> s | None \<Rightarrow> ts_next_step st))"

definition validate_step :: "int option \<Rightarrow> tracker_failure + unit" where
  "validate_step step =
     ensure (\<not> (case step of Some s \<Rightarrow> s < 0 \<or> s = i64_max | None \<Rightarrow> False))
       (BadInputText ''step must be in 0..i64::MAX'')"

definition as_metrics :: "json \<Rightarrow> string \<Rightarrow> tracker_failure + metric_map" where
  "as_metrics v field =
     (case v of
        JObject kvs \<Rightarrow> Inr kvs
      | _ \<Rightarrow> Inl (BadInputText (field @ '' must be a JSON object'')))"

definition validate_metric_name :: "string \<Rightarrow> tracker_failure + unit" where
  "validate_metric_name name =
     ensure (\<not> (blank name \<or> contains_nul name \<or> 4096 < length name \<or> name = ''_step'' \<or> name = ''_time''))
       (BadInput (TrackerInputShown ''invalid metric name '' [ShownStr name]))"

definition validate_span :: "span_record \<Rightarrow> tracker_failure + unit" where
  "validate_span spn =
     rbind (ensure (\<not> (blank (sp_name spn) \<or> contains_nul (sp_name spn) \<or> 4096 < length (sp_name spn)))
              (BadInputText ''span name must contain 1..=4096 non-NUL bytes'')) (\<lambda>_.
     rbind (ensure (\<not> (\<not> f64_is_finite (sp_duration_ms spn) \<or> f64_less (sp_duration_ms spn) (Fin 0)
                        \<or> sp_end_ns spn < sp_start_ns spn))
              (BadInputText ''span duration and timestamps are invalid'')) (\<lambda>_.
     ensure (is_object (sp_attributes spn))
       (BadInputText ''span attributes must be a JSON object'')))"

definition accumulate :: "tracker_lib \<Rightarrow> metric_map \<Rightarrow> string \<Rightarrow> f64 \<Rightarrow> metric_map" where
  "accumulate X metrics path v =
     (let N = al_number (tx_alert X);
          prior = (case Option.bind (bm_get metrics path) (as_f64 N) of Some x \<Rightarrow> x | None \<Rightarrow> Fin 0)
      in bm_insert path (num_of_f64 N (f64_add prior v)) metrics)"

section \<open>Snapshots\<close>

definition is_nonfinite :: "number_ext \<Rightarrow> json \<Rightarrow> bool" where
  "is_nonfinite N v =
     (case numeric_value N v of Some x \<Rightarrow> \<not> f64_is_finite x | None \<Rightarrow> False)"

definition json_int :: "int \<Rightarrow> json" where
  "json_int i = JNumber (show_int i)"

definition json_strings :: "string list \<Rightarrow> json" where
  "json_strings ss = JArray (map JString ss)"

definition json_object :: "(string \<times> json) list \<Rightarrow> json" where
  "json_object kvs = JObject (bm_of_list kvs)"

fun level_json :: "alert_level \<Rightarrow> json" where
  "level_json Info = JString ''info''"
| "level_json Warning = JString ''warning''"
| "level_json ErrorLevel = JString ''error''"
| "level_json Critical = JString ''critical''"

definition alert_json :: "alert_event \<Rightarrow> json" where
  "alert_json e =
     json_object
       [(''rule'', JString (ev_rule e)), (''level'', level_json (ev_level e)),
        (''message'', JString (ev_message e)), (''step'', json_int (ev_step e)),
        (''observed_at_ns'', json_int (ev_observed_at_ns e)), (''recovered'', JBool (ev_recovered e)),
        (''tags'', json_strings (ev_tags e)), (''channels'', json_strings (ev_channels e))]"

definition span_json :: "number_ext \<Rightarrow> span_record \<Rightarrow> json" where
  "span_json N s =
     json_object
       ([(''name'', JString (sp_name s)), (''start_ns'', json_int (sp_start_ns s)),
         (''end_ns'', json_int (sp_end_ns s)), (''duration_ms'', num_of_f64 N (sp_duration_ms s)),
         (''attributes'', sp_attributes s)]
        @ (case sp_error s of Some e \<Rightarrow> [(''error'', JString e)] | None \<Rightarrow> []))"

definition artifact_json :: "artifact_record \<Rightarrow> json" where
  "artifact_json a =
     json_object
       [(''record_version'', json_int (int (af_record_version a))),
        (''action'', JString (case af_action a of LogArtifact \<Rightarrow> ''log'' | UseArtifact \<Rightarrow> ''use'')),
        (''name'', JString (af_name a)), (''type'', JString (af_kind a)),
        (''digest'', JString (af_digest a)), (''size'', json_int (int (af_size a))),
        (''uri'', JString (af_uri a)), (''aliases'', json_strings (af_aliases a)),
        (''metadata'', af_metadata a)]"

fun kind_json :: "tracker_record_kind \<Rightarrow> json" where
  "kind_json Observation = JString ''observation''"
| "kind_json Event = JString ''event''"

definition tracker_snapshot ::
  "tracker_lib \<Rightarrow> int \<Rightarrow> int \<Rightarrow> metric_map \<Rightarrow> metric_map \<Rightarrow> alert_event list \<Rightarrow> span_record list
   \<Rightarrow> artifact_record list \<Rightarrow> json \<Rightarrow> string \<Rightarrow> nat \<Rightarrow> tracker_options \<Rightarrow> tracker_record_kind
   \<Rightarrow> snapshot_event" where
  "tracker_snapshot X step observed metrics summary alerts spans artifacts config status commits opts kind =
     (let N = al_number (tx_alert X);
          nonfinite = map fst (filter (\<lambda>(name, v). is_nonfinite N v) metrics)
      in \<lparr>e_state = json_object
            [(''metrics'', JObject metrics), (''summary'', JObject summary), (''config'', config),
             (''tracker'', json_object
               [(''record_version'', json_int (int TRACKER_RECORD_VERSION)), (''kind'', kind_json kind),
                (''step'', json_int step), (''status'', JString status),
                (''commit'', json_int (int commits)), (''nonfinite'', json_strings nonfinite)]),
             (''alerts'', JArray (map alert_json alerts)), (''spans'', JArray (map (span_json N) spans)),
             (''artifacts'', JArray (map artifact_json artifacts))],
          e_observed_at_ns = Some observed,
          e_axes = [(to_step_axis opts, step)]\<rparr>)"

section \<open>History\<close>

definition merge_record :: "committed_step \<Rightarrow> committed_step \<Rightarrow> committed_step" where
  "merge_record existing record' =
     \<lparr>cs_step = cs_step existing,
      cs_observed_at_ns = max (cs_observed_at_ns existing) (cs_observed_at_ns record'),
      cs_metrics = bm_extend (cs_metrics existing) (cs_metrics record'),
      cs_summary = cs_summary record',
      cs_alerts = cs_alerts existing @ cs_alerts record',
      cs_spans = cs_spans existing @ cs_spans record',
      cs_artifacts = cs_artifacts existing @ cs_artifacts record'\<rparr>"

fun trim_history ::
  "tracker_options \<Rightarrow> history_entry list \<Rightarrow> nat \<Rightarrow> nat
   \<Rightarrow> tracker_failure + history_entry list \<times> nat \<times> nat" where
  "trim_history opts [] bytes evicted =
     (if to_history_steps opts < 0 \<or> to_max_history_bytes opts < bytes then Inl Hangs
      else Inr ([], bytes, evicted))"
| "trim_history opts (e # es) bytes evicted =
     (if to_history_steps opts < length (e # es) \<or> to_max_history_bytes opts < bytes
      then trim_history opts es (bytes - he_bytes e) (evicted + 1)
      else Inr (e # es, bytes, evicted))"

definition find_step :: "int \<Rightarrow> history_entry list \<Rightarrow> history_entry option" where
  "find_step step es = List.find (\<lambda>e. cs_step (he_record e) = step) es"

text \<open>\<open>history.remove(position)\<close>: the first entry of that step.\<close>

fun remove_step :: "int \<Rightarrow> history_entry list \<Rightarrow> history_entry list" where
  "remove_step step [] = []"
| "remove_step step (e # es) = (if cs_step (he_record e) = step then es else e # remove_step step es)"

definition merge_history ::
  "tracker_lib \<Rightarrow> tracker_options \<Rightarrow> committed_step \<Rightarrow> tracker_state \<Rightarrow> tracker_failure + tracker_state" where
  "merge_history X opts record' st =
     (let existing = find_step (cs_step record') (ts_history st);
          merged = (case existing of Some e \<Rightarrow> merge_record (he_record e) record' | None \<Rightarrow> record');
          kept = (case existing of Some e \<Rightarrow> remove_step (cs_step record') (ts_history st)
                  | None \<Rightarrow> ts_history st);
          kept_bytes = (case existing of Some e \<Rightarrow> ts_history_bytes st - he_bytes e
                        | None \<Rightarrow> ts_history_bytes st)
      in rbind (map_err JsonFailed (tx_record_bytes X merged)) (\<lambda>bytes.
         rbind (ensure (bytes \<le> to_max_history_bytes opts)
                  (BadInputText ''committed step exceeds history byte budget'')) (\<lambda>_.
         rbind (trim_history opts (kept @ [\<lparr>he_record = merged, he_bytes = bytes\<rparr>])
                  (kept_bytes + bytes) (ts_evicted_steps st)) (\<lambda>(es, total, evicted).
         Inr (st\<lparr>ts_history := es, ts_history_bytes := total, ts_evicted_steps := evicted\<rparr>)))))"

section \<open>Transactions\<close>

record batch =
  bt_next :: tracker_state
  bt_events :: "snapshot_event list"
  bt_alerts :: "alert_event list"

record tracker =
  tr_producer :: producer
  tr_config :: json
  tr_options :: tracker_options
  tr_state :: tracker_state
  tr_queue :: "alert_queue option"
  tr_watchdog :: bool

definition check_working_budget :: "tracker_lib \<Rightarrow> tracker \<Rightarrow> tracker_state \<Rightarrow> tracker_failure + unit" where
  "check_working_budget X t st =
     (let opts = tr_options t in
      rbind (ensure (\<not> (to_max_metrics opts < length (ts_open_metrics st)
                         \<or> to_max_metrics opts < length (ts_summary st)
                         \<or> to_max_spans opts < length (ts_open_spans st)))
               (BadInputText ''tracker metric/span cardinality budget exceeded'')) (\<lambda>_.
      rbind (map_err JsonFailed
               (tx_working_bytes X (ts_open_metrics st) (ts_open_spans st) (ts_summary st) (tr_config t))) (\<lambda>bytes.
      rbind (ensure (bytes \<le> to_max_state_bytes opts)
               (BadInputText ''tracker working-state byte budget exceeded'')) (\<lambda>_.
      map_err BadInput
        (check_series_budget (ts_alerts st) (to_max_metrics opts) (to_max_alert_series_bytes opts))))))"

definition log_accepted :: "int option \<Rightarrow> log_result" where
  "log_accepted step =
     \<lparr>lr_accepted = True, lr_step = step, lr_committed = 0, lr_reason = None, lr_capture = None\<rparr>"

text \<open>The alert update, the state and the record of a commit, before the history is merged.\<close>

definition commit_update :: "tracker_lib \<Rightarrow> tracker_state \<Rightarrow> int \<Rightarrow> int \<Rightarrow> alert_update" where
  "commit_update X st step observed =
     prepare_step (tx_alert X) (ts_alerts st) step observed (ts_open_metrics st)"

definition commit_state :: "tracker_lib \<Rightarrow> tracker_state \<Rightarrow> int \<Rightarrow> int \<Rightarrow> int \<Rightarrow> tracker_state" where
  "commit_state X st step observed after =
     st\<lparr>ts_open_step := None, ts_open_metrics := [], ts_open_spans := [],
        ts_summary := bm_extend (ts_summary st) (ts_open_metrics st),
        ts_alerts := apply_update (ts_alerts st) (commit_update X st step observed),
        ts_commits := ts_commits st + 1, ts_next_step := max (ts_next_step st) after,
        ts_last_committed_step := Some step\<rparr>"

definition commit_record :: "tracker_lib \<Rightarrow> tracker_state \<Rightarrow> int \<Rightarrow> int \<Rightarrow> committed_step" where
  "commit_record X st step observed =
     \<lparr>cs_step = step, cs_observed_at_ns = observed, cs_metrics = ts_open_metrics st,
      cs_summary = bm_extend (ts_summary st) (ts_open_metrics st),
      cs_alerts = au_events (commit_update X st step observed), cs_spans = ts_open_spans st,
      cs_artifacts = []\<rparr>"

definition commit_event :: "tracker_lib \<Rightarrow> tracker \<Rightarrow> tracker_state \<Rightarrow> committed_step \<Rightarrow> snapshot_event" where
  "commit_event X t st1 r =
     tracker_snapshot X (cs_step r) (cs_observed_at_ns r) (cs_metrics r) (ts_summary st1) (cs_alerts r)
       (cs_spans r) [] (tr_config t) (ts_status st1) (ts_commits st1) (tr_options t) Observation"

definition prepare_commit :: "tracker_lib \<Rightarrow> tracker \<Rightarrow> int \<Rightarrow> batch \<Rightarrow> tracker_failure + batch" where
  "prepare_commit X t observed b =
     (let st = bt_next b in
      case ts_open_step st of
        None \<Rightarrow> Inr b
      | Some step \<Rightarrow>
          rbind (ok_or (BadInputText ''step cursor exhausted'') (checked_add_i64 step 1)) (\<lambda>after.
          let st1 = commit_state X st step observed after; r = commit_record X st step observed
          in rbind (merge_history X (tr_options t) r st1) (\<lambda>st2.
             rbind (check_working_budget X t st2) (\<lambda>_.
             Inr \<lparr>bt_next = st2, bt_events = bt_events b @ [commit_event X t st1 r],
                  bt_alerts = bt_alerts b @ cs_alerts r\<rparr>))))"

definition prepare_record ::
  "tracker_lib \<Rightarrow> tracker \<Rightarrow> int \<Rightarrow> alert_event list \<Rightarrow> artifact_record list \<Rightarrow> batch \<Rightarrow> batch" where
  "prepare_record X t observed alerts artifacts b =
     (let st = bt_next b; commits = ts_commits st + 1;
          event = tracker_snapshot X (event_step st) observed [] (ts_summary st) alerts [] artifacts
                    (tr_config t) (ts_status st) commits (tr_options t) Event
      in \<lparr>bt_next = st\<lparr>ts_commits := commits\<rparr>, bt_events = bt_events b @ [event],
          bt_alerts = bt_alerts b @ alerts\<rparr>)"

definition select_step ::
  "tracker_lib \<Rightarrow> tracker \<Rightarrow> int \<Rightarrow> int \<Rightarrow> batch \<Rightarrow> tracker_failure + log_result option \<times> batch" where
  "select_step X t target observed b =
     (case decide_step (bt_next b) target (to_step_policy (tr_options t)) of
        Keep \<Rightarrow> Inr (None, b)
      | CommitOpen \<Rightarrow> rbind (prepare_commit X t observed b) (\<lambda>b'. Inr (None, b'))
      | Reject reason \<Rightarrow>
          Inr (Some \<lparr>lr_accepted = False, lr_step = Some target, lr_committed = 0,
                     lr_reason = Some reason, lr_capture = None\<rparr>, b))"

definition send_alerts :: "tracker_lib \<Rightarrow> alert_event list \<Rightarrow> alert_queue option \<Rightarrow> alert_queue option" where
  "send_alerts X alerts queue = map_option (\<lambda>q. foldl (queue_send X) q alerts) queue"

text \<open>The part of \<open>transact\<close> after the producer's answer.\<close>

definition install :: "tracker_lib \<Rightarrow> tracker \<Rightarrow> producer \<Rightarrow> batch \<Rightarrow> tracker" where
  "install X t p b =
     t\<lparr>tr_state := bt_next b, tr_producer := (if ts_finished (bt_next b) then snd (seal p) else p),
       tr_queue := send_alerts X (bt_alerts b) (tr_queue t)\<rparr>"

definition transact ::
  "tracker_lib \<Rightarrow> int \<Rightarrow> tracker \<Rightarrow> (batch \<Rightarrow> tracker_failure + log_result \<times> batch)
   \<Rightarrow> (tracker_failure + log_result) \<times> tracker" where
  "transact X now t prepare' =
     (if ts_finished (tr_state t) then (Inl AlreadyFinished, t)
      else
        case rbind (prepare' \<lparr>bt_next = tr_state t, bt_events = [], bt_alerts = []\<rparr>) (\<lambda>(result, b).
             rbind (check_working_budget X t (bt_next b)) (\<lambda>_.
             Inr (result\<lparr>lr_committed := length (bt_events b)\<rparr>, b))) of
          Inl e \<Rightarrow> (Inl e, t)
        | Inr (result, b) \<Rightarrow>
            if bt_events b = [] then (Inr result, install X t (tr_producer t) b)
            else
              case capture_batch (tx_serde X) (\<lambda>_. now) (tr_producer t) (bt_events b) of
                None \<Rightarrow> (Inl Hangs, t)
              | Some (Inl e, p) \<Rightarrow> (Inl (ProducerFailed e), t\<lparr>tr_producer := p\<rparr>)
              | Some (Inr receipt, p) \<Rightarrow>
                  (Inr (result\<lparr>lr_capture := Some receipt\<rparr>), install X t p b))"

section \<open>Operations\<close>

definition or_now :: "int \<Rightarrow> int option \<Rightarrow> int" where
  "or_now now observed = (case observed of Some t \<Rightarrow> t | None \<Rightarrow> now)"

definition prepare_log ::
  "tracker_lib \<Rightarrow> tracker \<Rightarrow> metric_map \<Rightarrow> int option \<Rightarrow> bool option \<Rightarrow> int \<Rightarrow> batch
   \<Rightarrow> tracker_failure + log_result \<times> batch" where
  "prepare_log X t metrics step commit observed b =
     (let target = resolve_step (bt_next b) step in
      rbind (select_step X t target observed b) (\<lambda>(rejected, b1).
        case rejected of
          Some r \<Rightarrow> Inr (r, b1)
        | None \<Rightarrow>
            let b2 = b1\<lparr>bt_next := (bt_next b1)\<lparr>ts_open_step := Some target,
                          ts_open_metrics := bm_extend (ts_open_metrics (bt_next b1)) metrics\<rparr>\<rparr>
            in rbind (if (case commit of Some c \<Rightarrow> c | None \<Rightarrow> step = None)
                      then prepare_commit X t observed b2 else Inr b2) (\<lambda>b3.
               Inr (log_accepted (Some target), b3))))"

definition tracker_log ::
  "tracker_lib \<Rightarrow> int \<Rightarrow> tracker \<Rightarrow> json \<Rightarrow> int option \<Rightarrow> bool option \<Rightarrow> int option
   \<Rightarrow> (tracker_failure + log_result) \<times> tracker" where
  "tracker_log X now t metrics step commit observed =
     (case rbind (as_metrics metrics ''metrics'') (\<lambda>m.
           rbind (for_each validate_metric_name (bm_keys m)) (\<lambda>_.
           rbind (validate_step step) (\<lambda>_. Inr m))) of
        Inl e \<Rightarrow> (Inl e, t)
      | Inr m \<Rightarrow> transact X now t (prepare_log X t m step commit (or_now now observed)))"

definition tracker_flush :: "tracker_lib \<Rightarrow> int \<Rightarrow> tracker \<Rightarrow> int option \<Rightarrow> (tracker_failure + log_result) \<times> tracker" where
  "tracker_flush X now t observed =
     transact X now t (\<lambda>b.
       rbind (prepare_commit X t (or_now now observed) b) (\<lambda>b'.
       Inr (log_accepted (ts_last_committed_step (bt_next b')), b')))"

definition prepare_span ::
  "tracker_lib \<Rightarrow> tracker \<Rightarrow> span_record \<Rightarrow> int option \<Rightarrow> batch \<Rightarrow> tracker_failure + log_result \<times> batch" where
  "prepare_span X t spn step b =
     (let target = resolve_step (bt_next b) step in
      rbind (select_step X t target (sp_end_ns spn) b) (\<lambda>(rejected, b1).
        case rejected of
          Some r \<Rightarrow> Inr (r, b1)
        | None \<Rightarrow>
            let st = bt_next b1;
                m1 = accumulate X (ts_open_metrics st) (''time_ms/'' @ sp_name spn) (sp_duration_ms spn);
                m2 = (if to_span_count (tr_options t)
                      then accumulate X m1 (''count/'' @ sp_name spn) (Fin 1) else m1)
            in Inr (log_accepted (Some target),
                    b1\<lparr>bt_next := st\<lparr>ts_open_step := Some target, ts_open_metrics := m2,
                                     ts_open_spans := ts_open_spans st @ [spn]\<rparr>\<rparr>)))"

definition tracker_record_span ::
  "tracker_lib \<Rightarrow> int \<Rightarrow> tracker \<Rightarrow> span_record \<Rightarrow> int option \<Rightarrow> (tracker_failure + log_result) \<times> tracker" where
  "tracker_record_span X now t spn step =
     (case rbind (validate_span spn) (\<lambda>_. validate_step step) of
        Inl e \<Rightarrow> (Inl e, t)
      | Inr _ \<Rightarrow> transact X now t (prepare_span X t spn step))"

definition tracker_manual_alert ::
  "tracker_lib \<Rightarrow> int \<Rightarrow> tracker \<Rightarrow> string \<Rightarrow> string \<Rightarrow> alert_level \<Rightarrow> string list \<Rightarrow> string list
   \<Rightarrow> int option \<Rightarrow> (tracker_failure + log_result) \<times> tracker" where
  "tracker_manual_alert X now t title text' level tags channels observed =
     (if blank title then (Inl (BadInputText ''alert title must not be empty''), t)
      else transact X now t (\<lambda>b.
        let step = event_step (bt_next b);
            event = manual \<lparr>ma_title = title, ma_text = text', ma_level = level, ma_step = step,
                            ma_observed_at_ns = or_now now observed, ma_tags = tags, ma_channels = channels\<rparr>
        in Inr (log_accepted (Some step), prepare_record X t (or_now now observed) [event] [] b)))"

definition tracker_artifact ::
  "tracker_lib \<Rightarrow> int \<Rightarrow> tracker \<Rightarrow> artifact_record \<Rightarrow> int option \<Rightarrow> (tracker_failure + log_result) \<times> tracker" where
  "tracker_artifact X now t artifact observed =
     (case map_err (BadInputText \<circ> protocol_error_text) (validate_artifact artifact) of
        Inl e \<Rightarrow> (Inl e, t)
      | Inr _ \<Rightarrow> transact X now t (\<lambda>b.
          Inr (log_accepted (Some (event_step (bt_next b))),
               prepare_record X t (or_now now observed) [] [artifact] b)))"

definition tracker_tick :: "tracker_lib \<Rightarrow> int \<Rightarrow> tracker \<Rightarrow> int option \<Rightarrow> (tracker_failure + log_result) \<times> tracker" where
  "tracker_tick X now t observed =
     transact X now t (\<lambda>b.
       let st = bt_next b; step = event_step st;
           update = prepare_tick (tx_alert X) (ts_alerts st) step (or_now now observed);
           b' = b\<lparr>bt_next := st\<lparr>ts_alerts := apply_update (ts_alerts st) update\<rparr>\<rparr>
       in Inr (log_accepted (Some step),
               if au_events update = [] then b'
               else prepare_record X t (or_now now observed) (au_events update) [] b'))"

definition tracker_add_rule :: "tracker \<Rightarrow> alert_rule \<Rightarrow> (tracker_failure + unit) \<times> tracker" where
  "tracker_add_rule t rule =
     (if ts_finished (tr_state t) then (Inl AlreadyFinished, t)
      else case add_rule (ts_alerts (tr_state t)) rule of
          Inl e \<Rightarrow> (Inl (BadInput e), t)
        | Inr alerts \<Rightarrow>
            (Inr (), t\<lparr>tr_state := (tr_state t)\<lparr>ts_alerts := alerts\<rparr>,
                       tr_watchdog := tr_watchdog t
                         \<or> (0 < to_watchdog_interval_ms (tr_options t) \<and> has_time_rules alerts)\<rparr>))"

definition tracker_remove_rule :: "tracker \<Rightarrow> string \<Rightarrow> (tracker_failure + bool) \<times> tracker" where
  "tracker_remove_rule t name =
     (if ts_finished (tr_state t) then (Inl AlreadyFinished, t)
      else let (alerts, removed) = remove_rule (ts_alerts (tr_state t)) name
           in (Inr removed, t\<lparr>tr_state := (tr_state t)\<lparr>ts_alerts := alerts\<rparr>\<rparr>))"

definition tracker_finish ::
  "tracker_lib \<Rightarrow> int \<Rightarrow> tracker \<Rightarrow> int option \<Rightarrow> bool \<Rightarrow> (tracker_failure + log_result) \<times> tracker" where
  "tracker_finish X now t observed failed =
     (if ts_finished (tr_state t) then (Inr (log_accepted (ts_last_committed_step (tr_state t))), t)
      else
        let observed' = or_now now observed;
            (result, t') = transact X now t (\<lambda>b.
              rbind (prepare_commit X t observed' b) (\<lambda>b1.
              let b2 = b1\<lparr>bt_next := (bt_next b1)\<lparr>ts_status := if failed then ''failed'' else ''finished''\<rparr>\<rparr>;
                  b3 = prepare_record X t observed' [] [] b2;
                  b4 = b3\<lparr>bt_next := (bt_next b3)\<lparr>ts_finished := True\<rparr>\<rparr>
              in Inr (log_accepted (ts_last_committed_step (bt_next b4)), b4)))
        in case result of
             Inl e \<Rightarrow> (Inl e, t')
           | Inr r \<Rightarrow> (Inr r, t'\<lparr>tr_watchdog := False, tr_queue := map_option queue_stop (tr_queue t')\<rparr>))"

definition initial_tracker_state :: "alert_engine \<Rightarrow> tracker_state" where
  "initial_tracker_state alerts =
     \<lparr>ts_status = ''running'', ts_next_step = 0, ts_open_step = None, ts_open_metrics = [],
      ts_open_spans = [], ts_last_committed_step = None, ts_summary = [], ts_history = [],
      ts_history_bytes = 0, ts_evicted_steps = 0, ts_commits = 0, ts_alerts = alerts,
      ts_finished = False\<rparr>"

definition with_alert_sink ::
  "tracker_lib \<Rightarrow> int \<Rightarrow> producer \<Rightarrow> json \<Rightarrow> tracker_options \<Rightarrow> alert_rule list \<Rightarrow> bool \<Rightarrow> tracker_failure + tracker" where
  "with_alert_sink X now p config opts rules sink =
     rbind (validate_options opts) (\<lambda>_.
     rbind (ensure (is_object config) (BadInputText ''tracker config must be a JSON object'')) (\<lambda>_.
     rbind (map_err BadInput (new_engine rules now (to_alert_window opts))) (\<lambda>alerts.
     let t = \<lparr>tr_producer = p, tr_config = config, tr_options = opts,
              tr_state = initial_tracker_state alerts,
              tr_queue = (if sink then Some (new_queue (to_delivery_queue_capacity opts) (to_max_state_bytes opts))
                          else None),
              tr_watchdog = False\<rparr>
     in rbind (check_working_budget X t (tr_state t)) (\<lambda>_.
        Inr (t\<lparr>tr_watchdog := 0 < to_watchdog_interval_ms opts \<and> has_time_rules alerts\<rparr>)))))"

section \<open>Reading\<close>

definition tracker_history :: "tracker \<Rightarrow> nat option \<Rightarrow> committed_step list" where
  "tracker_history t limit =
     (let es = ts_history (tr_state t); n = (case limit of Some n \<Rightarrow> n | None \<Rightarrow> length es)
      in map he_record (drop (length es - n) es))"

record tracker_info =
  ti_status :: string
  ti_next_step :: int
  ti_open_step :: "int option"
  ti_last_committed_step :: "int option"
  ti_commits :: nat
  ti_history_steps :: nat
  ti_summary_fields :: nat
  ti_has_time_alerts :: bool
  ti_history_bytes :: nat
  ti_evicted_steps :: nat
  ti_accepted_next_sequence :: nat

definition tracker_info_of :: "tracker \<Rightarrow> tracker_info" where
  "tracker_info_of t =
     (let st = tr_state t in
      \<lparr>ti_status = ts_status st, ti_next_step = ts_next_step st, ti_open_step = ts_open_step st,
       ti_last_committed_step = ts_last_committed_step st, ti_commits = ts_commits st,
       ti_history_steps = length (ts_history st), ti_summary_fields = length (ts_summary st),
       ti_has_time_alerts = has_time_rules (ts_alerts st), ti_history_bytes = ts_history_bytes st,
       ti_evicted_steps = ts_evicted_steps st,
       ti_accepted_next_sequence = stat_next_sequence (stats (tr_producer t))\<rparr>)"

record history_query =
  hq_limit :: "nat option"
  hq_metrics :: "string list option"
  hq_from_step :: "int option"
  hq_to_step :: "int option"
  hq_include_meta :: bool
  hq_include_open :: bool
  hq_fill_missing :: bool
  hq_dropna :: bool
  hq_max_bytes :: nat

definition check_query :: "history_query \<Rightarrow> tracker_failure + unit" where
  "check_query q =
     rbind (ensure (\<not> ((case (hq_from_step q, hq_to_step q) of (Some a, Some b) \<Rightarrow> b < a | _ \<Rightarrow> False)
                        \<or> hq_max_bytes q = 0 \<or> 16777216 < hq_max_bytes q
                        \<or> (case hq_limit q of Some n \<Rightarrow> 1000000 < n | None \<Rightarrow> False)))
              (BadInputText ''invalid history range, limit or byte budget'')) (\<lambda>_.
     ensure (\<not> (case hq_metrics q of Some m \<Rightarrow> 4096 < length m | None \<Rightarrow> False))
       (BadInputText ''history field selection exceeds 4096''))"

text \<open>The open step first, then the history from its newest entry.\<close>

definition query_entries :: "int \<Rightarrow> tracker_state \<Rightarrow> int option \<Rightarrow> (int \<times> int \<times> metric_map) list" where
  "query_entries now st open' =
     (case open' of Some step \<Rightarrow> [(step, now, ts_open_metrics st)] | None \<Rightarrow> [])
     @ map (\<lambda>e. (cs_step (he_record e), cs_observed_at_ns (he_record e), cs_metrics (he_record e)))
         (rev (ts_history st))"

definition query_out_of_range :: "history_query \<Rightarrow> int \<Rightarrow> bool" where
  "query_out_of_range q step \<longleftrightarrow>
     (case hq_from_step q of Some from' \<Rightarrow> step < from' | None \<Rightarrow> False)
     \<or> (case hq_to_step q of Some to' \<Rightarrow> to' \<le> step | None \<Rightarrow> False)"

text \<open>The metrics of a row: those of the open step extend the ones committed before.\<close>

definition query_metrics :: "tracker_state \<Rightarrow> int option \<Rightarrow> int \<Rightarrow> metric_map \<Rightarrow> metric_map" where
  "query_metrics st open' step metrics =
     (if open' = Some step
      then bm_extend (case find_step step (ts_history st) of Some e \<Rightarrow> cs_metrics (he_record e) | None \<Rightarrow> [])
             metrics
      else metrics)"

definition query_select :: "history_query \<Rightarrow> metric_map \<Rightarrow> metric_map" where
  "query_select q metrics =
     (case hq_metrics q of
        None \<Rightarrow> metrics
      | Some names \<Rightarrow>
          let chosen = filter (\<lambda>(k, v). k \<in> set names) metrics
          in if hq_fill_missing q
             then foldl (\<lambda>m k. if bm_contains m k then m else bm_insert k JNull m) chosen (bset_of_list names)
             else chosen)"

definition query_meta :: "tracker_lib \<Rightarrow> history_query \<Rightarrow> int \<Rightarrow> int \<Rightarrow> metric_map \<Rightarrow> metric_map" where
  "query_meta X q step observed values =
     (if hq_include_meta q
      then bm_insert ''_time'' (num_of_f64 (al_number (tx_alert X)) (f64_div (f64_of_int observed) nanos))
             (bm_insert ''_step'' (json_int step) values)
      else values)"

fun query_rows ::
  "tracker_lib \<Rightarrow> history_query \<Rightarrow> tracker_state \<Rightarrow> int option \<Rightarrow> json list \<Rightarrow> int list \<Rightarrow> nat
   \<Rightarrow> (int \<times> int \<times> metric_map) list \<Rightarrow> tracker_failure + json list" where
  "query_rows X q st open' rows seen bytes [] = Inr rows"
| "query_rows X q st open' rows seen bytes ((step, observed, metrics) # entries) =
     (if (case hq_limit q of Some n \<Rightarrow> n \<le> length rows | None \<Rightarrow> False) then Inr rows
      else if step \<in> set seen \<or> query_out_of_range q step
      then query_rows X q st open' rows (step # seen) bytes entries
      else
        let values = query_select q (query_metrics st open' step metrics) in
        if hq_dropna q \<and> list_all (is_null \<circ> snd) values
        then query_rows X q st open' rows (step # seen) bytes entries
        else
          let row = query_meta X q step observed values in
          rbind (map_err JsonFailed (tx_row_bytes X row)) (\<lambda>n.
          rbind (ensure (bytes + n + 1 \<le> hq_max_bytes q)
                   (BadInputText ''history result exceeds byte budget; narrow selection'')) (\<lambda>_.
          query_rows X q st open' (rows @ [JObject row]) (step # seen) (bytes + n + 1) entries)))"

definition tracker_history_query ::
  "tracker_lib \<Rightarrow> int \<Rightarrow> tracker \<Rightarrow> history_query \<Rightarrow> tracker_failure + json" where
  "tracker_history_query X now t q =
     (let st = tr_state t; open' = (if hq_include_open q then ts_open_step st else None) in
      rbind (check_query q) (\<lambda>_.
      rbind (query_rows X q st open' [] [] 2 (query_entries now st open')) (\<lambda>rows.
      Inr (JArray (rev rows)))))"

end
