(* ===== verification/Tracker_Inv.thy ===== *)
theory Tracker_Inv
  imports Tracker
begin

text \<open>
  The invariants of the tracker. \<open>state_ok\<close> is about the working state: the byte count of the
  history is exact, the history is within its limits, has one entry per step and, under the
  monotonic policy, lists the steps in increasing order. The locale \<open>transaction\<close> states what
  \<open>transact\<close> relies on from the closures it is given; its interpretations are the operations.
\<close>

section \<open>History\<close>

definition entry_steps :: "history_entry list \<Rightarrow> int list" where
  "entry_steps es = map (\<lambda>e. cs_step (he_record e)) es"

definition entry_bytes :: "history_entry list \<Rightarrow> nat" where
  "entry_bytes es = sum_list (map he_bytes es)"

lemma entry_simps [simp]:
  "entry_steps [] = []" "entry_steps (e # es) = cs_step (he_record e) # entry_steps es"
  "entry_steps (xs @ ys) = entry_steps xs @ entry_steps ys"
  "entry_bytes [] = 0" "entry_bytes (e # es) = he_bytes e + entry_bytes es"
  "entry_bytes (xs @ ys) = entry_bytes xs + entry_bytes ys"
  by (simp_all add: entry_steps_def entry_bytes_def)

lemma entry_steps_drop: "entry_steps (drop k es) = drop k (entry_steps es)"
  by (simp add: entry_steps_def drop_map)

text \<open>The loop ends before it empties the history: the newest entry alone is within budget.\<close>

lemma trim_history_result:
  assumes "es \<noteq> []" and "he_bytes (last es) \<le> to_max_history_bytes opts" and "1 \<le> to_history_steps opts"
  shows "\<exists>k < length es. trim_history opts es (entry_bytes es) evicted
      = Inr (drop k es, entry_bytes (drop k es), evicted + k)
    \<and> length (drop k es) \<le> to_history_steps opts
    \<and> entry_bytes (drop k es) \<le> to_max_history_bytes opts"
  using assms(1,2)
proof (induction es arbitrary: evicted)
  case (Cons e es)
  show ?case
  proof (cases "to_history_steps opts < length (e # es) \<or> to_max_history_bytes opts < entry_bytes (e # es)")
    case True
    have "es \<noteq> []" using True Cons.prems assms(3) by (cases es) auto
    with Cons obtain k where k: "k < length es"
        "trim_history opts es (entry_bytes es) (evicted + 1)
         = Inr (drop k es, entry_bytes (drop k es), evicted + 1 + k)"
        "length (drop k es) \<le> to_history_steps opts" "entry_bytes (drop k es) \<le> to_max_history_bytes opts"
      by (metis last_ConsR)
    with True show ?thesis by (intro exI [of _ "Suc k"]) simp
  next
    case False
    then show ?thesis by (intro exI [of _ 0]) auto
  qed
qed simp

definition other_steps :: "int \<Rightarrow> history_entry list \<Rightarrow> history_entry list" where
  "other_steps s es = filter (\<lambda>e. cs_step (he_record e) \<noteq> s) es"

lemma other_steps_absent: "s \<notin> set (entry_steps es) \<Longrightarrow> other_steps s es = es"
  by (auto simp: other_steps_def entry_steps_def filter_id_conv)

lemma other_steps_properties:
  "s \<notin> set (entry_steps (other_steps s es))"
  "set (entry_steps (other_steps s es)) \<subseteq> set (entry_steps es)"
  "distinct (entry_steps es) \<Longrightarrow> distinct (entry_steps (other_steps s es))"
  "sorted_wrt (<) (entry_steps es) \<Longrightarrow> sorted_wrt (<) (entry_steps (other_steps s es))"
  by (auto simp: entry_steps_def other_steps_def distinct_map_filter sorted_wrt_map sorted_wrt_filter)

text \<open>Taking the entry of a step out leaves the others and their bytes.\<close>

lemma find_step_Some:
  assumes "find_step s es = Some e" and "distinct (entry_steps es)"
  shows "cs_step (he_record e) = s" and "remove_step s es = other_steps s es"
    and "entry_bytes es - he_bytes e = entry_bytes (other_steps s es)"
    and "he_bytes e \<le> entry_bytes es"
  using assms
proof (induction es)
  case (Cons d es)
  {
    case 1
    then show ?case using Cons.IH by (auto simp: find_step_def split: if_splits)
  next
    case 2
    then show ?case
      using Cons.IH(2) other_steps_absent [of s es] by (auto simp: find_step_def other_steps_def split: if_splits)
  next
    case 3
    then show ?case
      using Cons.IH(3,4) other_steps_absent [of s es] by (auto simp: find_step_def other_steps_def split: if_splits)
  next
    case 4
    then show ?case using Cons.IH(4) by (auto simp: find_step_def split: if_splits)
  }
qed (simp_all add: find_step_def)

lemma find_step_None: "find_step s es = None \<Longrightarrow> s \<notin> set (entry_steps es)"
  by (auto simp: find_step_def find_None_iff entry_steps_def)

section \<open>The working state\<close>

definition monotonic_ok :: "tracker_state \<Rightarrow> bool" where
  "monotonic_ok st \<longleftrightarrow>
     sorted_wrt (<) (entry_steps (ts_history st))
     \<and> (\<forall>l. ts_last_committed_step st = Some l \<longrightarrow> ts_next_step st = l + 1)
     \<and> (\<forall>s. ts_open_step st = Some s \<longrightarrow> ts_next_step st \<le> s \<or> ts_last_committed_step st = Some s)"

definition state_ok :: "tracker_options \<Rightarrow> tracker_state \<Rightarrow> bool" where
  "state_ok opts st \<longleftrightarrow>
     ts_history_bytes st = entry_bytes (ts_history st)
     \<and> ts_history_bytes st \<le> to_max_history_bytes opts
     \<and> length (ts_history st) \<le> to_history_steps opts
     \<and> distinct (entry_steps (ts_history st))
     \<and> (\<forall>s \<in> set (entry_steps (ts_history st)). s < ts_next_step st)
     \<and> (to_step_policy opts = Monotonic \<longrightarrow> monotonic_ok st)"

definition options_ok :: "tracker_options \<Rightarrow> bool" where
  "options_ok opts \<longleftrightarrow> validate_options opts = Inr ()"

lemma options_ok_steps: "options_ok opts \<Longrightarrow> 1 \<le> to_history_steps opts"
  by (simp add: options_ok_def validate_options_def result_iffs)

text \<open>The end of \<open>merge_history\<close>, once the entry of the record's step is out of the history.\<close>

definition append_record ::
  "tracker_lib \<Rightarrow> tracker_options \<Rightarrow> history_entry list \<Rightarrow> committed_step \<Rightarrow> tracker_state
   \<Rightarrow> tracker_failure + tracker_state" where
  "append_record X opts kept merged st =
     rbind (map_err JsonFailed (tx_record_bytes X merged)) (\<lambda>bytes.
     rbind (ensure (bytes \<le> to_max_history_bytes opts)
              (BadInputText ''committed step exceeds history byte budget'')) (\<lambda>_.
     rbind (trim_history opts (kept @ [\<lparr>he_record = merged, he_bytes = bytes\<rparr>])
              (entry_bytes kept + bytes) (ts_evicted_steps st)) (\<lambda>(es, total, evicted).
     Inr (st\<lparr>ts_history := es, ts_history_bytes := total, ts_evicted_steps := evicted\<rparr>))))"

definition merged_record :: "tracker_state \<Rightarrow> committed_step \<Rightarrow> committed_step" where
  "merged_record st r =
     (case find_step (cs_step r) (ts_history st) of Some e \<Rightarrow> merge_record (he_record e) r | None \<Rightarrow> r)"

lemma merge_history_append:
  assumes "ts_history_bytes st = entry_bytes (ts_history st)" and "distinct (entry_steps (ts_history st))"
  shows "merge_history X opts r st
      = append_record X opts (other_steps (cs_step r) (ts_history st)) (merged_record st r) st"
    and "cs_step (merged_record st r) = cs_step r"
proof (atomize (full), cases "find_step (cs_step r) (ts_history st)")
  case None
  then show "merge_history X opts r st
      = append_record X opts (other_steps (cs_step r) (ts_history st)) (merged_record st r) st
    \<and> cs_step (merged_record st r) = cs_step r"
    by (simp add: merge_history_def append_record_def merged_record_def assms(1) find_step_None
        other_steps_absent)
next
  case (Some e)
  note e = find_step_Some [OF Some assms(2)]
  show "merge_history X opts r st
      = append_record X opts (other_steps (cs_step r) (ts_history st)) (merged_record st r) st
    \<and> cs_step (merged_record st r) = cs_step r"
    using Some e assms
    by (simp add: merge_history_def append_record_def merged_record_def merge_record_def Let_def)
qed

lemma append_record_result:
  assumes "1 \<le> to_history_steps opts"
  obtains (failed) f where "append_record X opts kept merged st = Inl f" and "f \<noteq> Hangs"
  | (appended) e k evicted where "append_record X opts kept merged st
        = Inr (st\<lparr>ts_history := drop k (kept @ [e]),
            ts_history_bytes := entry_bytes (drop k (kept @ [e])), ts_evicted_steps := evicted\<rparr>)"
      and "he_record e = merged" and "k \<le> length kept"
      and "length (drop k (kept @ [e])) \<le> to_history_steps opts"
      and "entry_bytes (drop k (kept @ [e])) \<le> to_max_history_bytes opts"
proof (cases "tx_record_bytes X merged")
  case (Inl f)
  then show thesis by (intro failed [of "JsonFailed f"]) (simp_all add: append_record_def)
next
  case (Inr bytes)
  define e where "e = \<lparr>he_record = merged, he_bytes = bytes\<rparr>"
  show thesis
  proof (cases "bytes \<le> to_max_history_bytes opts")
    case False
    with Inr show thesis by (intro failed) (auto simp: append_record_def)
  next
    case True
    then obtain k where k: "k < length (kept @ [e])"
        "trim_history opts (kept @ [e]) (entry_bytes (kept @ [e])) (ts_evicted_steps st)
         = Inr (drop k (kept @ [e]), entry_bytes (drop k (kept @ [e])), ts_evicted_steps st + k)"
        "length (drop k (kept @ [e])) \<le> to_history_steps opts"
        "entry_bytes (drop k (kept @ [e])) \<le> to_max_history_bytes opts"
      using trim_history_result [of "kept @ [e]" opts "ts_evicted_steps st"] assms
      by (auto simp: e_def simp del: entry_simps drop_append)
    then have "append_record X opts kept merged st
        = Inr (st\<lparr>ts_history := drop k (kept @ [e]),
            ts_history_bytes := entry_bytes (drop k (kept @ [e])),
            ts_evicted_steps := ts_evicted_steps st + k\<rparr>)"
      using Inr True by (simp add: append_record_def e_def)
    then show thesis
      by (rule appended) (use k in \<open>simp_all add: e_def\<close>)
  qed
qed

section \<open>Batches\<close>

text \<open>A batch holds as many events as its state has counted since the transaction began.\<close>

definition batch_ok :: "tracker_options \<Rightarrow> tracker_state \<Rightarrow> batch \<Rightarrow> bool" where
  "batch_ok opts st0 b \<longleftrightarrow>
     state_ok opts (bt_next b) \<and> ts_commits (bt_next b) = ts_commits st0 + length (bt_events b)"

text \<open>What a commit leaves alone, and where it puts the cursor.\<close>

definition committed :: "batch \<Rightarrow> batch \<Rightarrow> bool" where
  "committed b b' \<longleftrightarrow>
     ts_open_step (bt_next b') = None \<and> ts_finished (bt_next b') = ts_finished (bt_next b)
     \<and> (case ts_open_step (bt_next b) of
          None \<Rightarrow> b' = b
        | Some s \<Rightarrow> ts_last_committed_step (bt_next b') = Some s
            \<and> ts_next_step (bt_next b') = max (ts_next_step (bt_next b)) (s + 1))"

lemma steps_after_append:
  assumes "state_ok opts st" and "cs_step (he_record e) = s" and "n = max (ts_next_step st) (s + 1)"
  shows "distinct (entry_steps (drop k (other_steps s (ts_history st) @ [e])))"
    and "\<forall>x \<in> set (entry_steps (drop k (other_steps s (ts_history st) @ [e]))). x < n"
    and "to_step_policy opts = Monotonic \<Longrightarrow> ts_open_step st = Some s \<Longrightarrow>
      sorted_wrt (<) (entry_steps (drop k (other_steps s (ts_history st) @ [e])))"
proof -
  let ?es = "other_steps s (ts_history st) @ [e]"
  have sub: "set (entry_steps (drop k ?es)) \<subseteq> set (entry_steps ?es)"
    unfolding entry_steps_drop by (rule set_drop_subset)
  have all: "\<forall>x \<in> set (entry_steps (other_steps s (ts_history st))). x < ts_next_step st"
    using assms(1) other_steps_properties(2) by (fastforce simp: state_ok_def)
  have "distinct (entry_steps ?es)"
    using assms(1,2) other_steps_properties(1,3) by (simp add: state_ok_def)
  then show "distinct (entry_steps (drop k ?es))"
    unfolding entry_steps_drop by (rule distinct_drop)
  show "\<forall>x \<in> set (entry_steps (drop k ?es)). x < n"
    using sub all assms(2,3) by fastforce
  assume mono: "to_step_policy opts = Monotonic" and opened: "ts_open_step st = Some s"
  have "x < s" if x: "x \<in> set (entry_steps (other_steps s (ts_history st)))" for x
  proof -
    have "ts_next_step st \<le> s \<or> ts_next_step st = s + 1"
      using assms(1) mono opened by (auto simp: state_ok_def monotonic_ok_def)
    moreover have "x \<noteq> s" using x other_steps_properties(1) by blast
    ultimately show ?thesis using all x by force
  qed
  then have "sorted_wrt (<) (entry_steps ?es)"
    using assms(1,2) mono other_steps_properties(4)
    by (simp add: sorted_wrt_append state_ok_def monotonic_ok_def)
  then show "sorted_wrt (<) (entry_steps (drop k ?es))"
    unfolding entry_steps_drop by (rule sorted_wrt_drop)
qed

lemma check_working_budget_returns: "check_working_budget X t st \<noteq> Inl Hangs"
  by (auto simp: check_working_budget_def Let_def rbind_eq_Inl ensure_eq_Inl map_err_def split: sum.splits)

text \<open>A commit with its successor of the step in range and its history merged.\<close>

lemma commit_state_ok:
  assumes st: "state_ok opts st" and opened: "ts_open_step st = Some s"
    and e: "cs_step (he_record e) = s"
    and len: "length (drop k (other_steps s (ts_history st) @ [e])) \<le> to_history_steps opts"
    and bytes: "entry_bytes (drop k (other_steps s (ts_history st) @ [e])) \<le> to_max_history_bytes opts"
  shows "state_ok opts ((commit_state X st s observed (s + 1))\<lparr>
      ts_history := drop k (other_steps s (ts_history st) @ [e]),
      ts_history_bytes := entry_bytes (drop k (other_steps s (ts_history st) @ [e])),
      ts_evicted_steps := evicted\<rparr>)"
proof -
  note steps = steps_after_append [OF st e refl, of k]
  have "ts_next_step st \<le> s + 1" if "to_step_policy opts = Monotonic"
    using that st opened by (auto simp: state_ok_def monotonic_ok_def)
  then show ?thesis
    using steps len bytes opened
    by (auto simp: state_ok_def monotonic_ok_def commit_state_def max_def simp del: drop_append entry_simps)
qed

text \<open>A commit fails, or appends the merged record after the other steps and trims from the front.\<close>

lemma prepare_commit_open:
  assumes opts: "options_ok (tr_options t)" and st: "state_ok (tr_options t) (bt_next b)"
    and opened: "ts_open_step (bt_next b) = Some s"
  obtains (failed) f where "prepare_commit X t observed b = Inl f" and "f \<noteq> Hangs"
  | (appended) st1 st2 r e k evicted where
      "prepare_commit X t observed b = Inr \<lparr>bt_next = st2,
         bt_events = bt_events b @ [commit_event X t st1 r], bt_alerts = bt_alerts b @ cs_alerts r\<rparr>"
    and "st1 = commit_state X (bt_next b) s observed (s + 1)" and "r = commit_record X (bt_next b) s observed"
    and "st2 = st1\<lparr>ts_history := drop k (other_steps s (ts_history (bt_next b)) @ [e]),
        ts_history_bytes := entry_bytes (drop k (other_steps s (ts_history (bt_next b)) @ [e])),
        ts_evicted_steps := evicted\<rparr>"
    and "he_record e = merged_record (bt_next b) r" and "k \<le> length (other_steps s (ts_history (bt_next b)))"
    and "state_ok (tr_options t) st2"
proof -
  define st1 where "st1 = commit_state X (bt_next b) s observed (s + 1)"
  define r where "r = commit_record X (bt_next b) s observed"
  have eq: "prepare_commit X t observed b =
      rbind (ok_or (BadInputText ''step cursor exhausted'') (checked_add_i64 s 1)) (\<lambda>_.
      rbind (merge_history X (tr_options t) r st1) (\<lambda>st2.
      rbind (check_working_budget X t st2) (\<lambda>_.
      Inr \<lparr>bt_next = st2, bt_events = bt_events b @ [commit_event X t st1 r],
           bt_alerts = bt_alerts b @ cs_alerts r\<rparr>)))"
    using opened by (simp add: prepare_commit_def Let_def r_def st1_def checked_add_i64_def)
  have r: "cs_step r = s" "ts_history st1 = ts_history (bt_next b)"
      "ts_history_bytes st1 = entry_bytes (ts_history (bt_next b))"
      "merged_record st1 r = merged_record (bt_next b) r"
    using st by (simp_all add: r_def st1_def commit_record_def commit_state_def state_ok_def merged_record_def)
  have merge: "merge_history X (tr_options t) r st1
        = append_record X (tr_options t) (other_steps s (ts_history (bt_next b))) (merged_record (bt_next b) r) st1"
      "cs_step (merged_record (bt_next b) r) = s"
    using merge_history_append(1) [of st1 X "tr_options t" r] merge_history_append(2) [of st1 r] r st
    by (simp_all add: state_ok_def)
  show thesis
  proof (cases rule: append_record_result [OF options_ok_steps [OF opts], where X = X
        and kept = "other_steps s (ts_history (bt_next b))" and merged = "merged_record (bt_next b) r"
        and st = st1, case_names failed appended])
    case (failed f)
    then have "\<exists>g. prepare_commit X t observed b = Inl g \<and> g \<noteq> Hangs"
      unfolding eq merge(1) by (cases "checked_add_i64 s 1") (simp_all add: ok_or_def)
    then show thesis using that(1) by blast
  next
    case (appended e k evicted)
    define st2 where "st2 = st1\<lparr>ts_history := drop k (other_steps s (ts_history (bt_next b)) @ [e]),
        ts_history_bytes := entry_bytes (drop k (other_steps s (ts_history (bt_next b)) @ [e])),
        ts_evicted_steps := evicted\<rparr>"
    have ok: "state_ok (tr_options t) st2"
      using commit_state_ok [OF st opened _ appended(4,5)] appended(2) merge(2) by (simp add: st1_def st2_def)
    have merged: "merge_history X (tr_options t) r st1 = Inr st2"
      using appended(1) by (simp add: merge(1) st2_def)
    show thesis
    proof (cases "prepare_commit X t observed b")
      case (Inl f)
      then have "f \<noteq> Hangs"
        using check_working_budget_returns [of X t st2]
        by (auto simp: eq merged rbind_eq_Inl ok_or_def split: option.splits)
      with Inl show thesis by (rule that(1))
    next
      case (Inr b')
      then have "b' = \<lparr>bt_next = st2, bt_events = bt_events b @ [commit_event X t st1 r],
          bt_alerts = bt_alerts b @ cs_alerts r\<rparr>"
        by (auto simp: eq merged rbind_eq_Inr)
      with Inr appended(2,3) ok show thesis by (intro that(2)) (auto simp: st1_def r_def st2_def)
    qed
  qed
qed

lemma prepare_commit_ok:
  assumes opts: "options_ok (tr_options t)" and ok: "batch_ok (tr_options t) st0 b"
  shows "prepare_commit X t observed b \<noteq> Inl Hangs
    \<and> (prepare_commit X t observed b = Inr b' \<longrightarrow> batch_ok (tr_options t) st0 b' \<and> committed b b')"
proof (cases "ts_open_step (bt_next b)")
  case None
  then show ?thesis using ok by (auto simp: prepare_commit_def committed_def)
next
  case (Some s)
  have st: "state_ok (tr_options t) (bt_next b)" using ok by (simp add: batch_ok_def)
  from opts st Some show ?thesis
  proof (cases rule: prepare_commit_open [where X = X and observed = observed])
    case (failed f)
    then show ?thesis by simp
  next
    case (appended st1 st2 r e k evicted)
    have "ts_commits st2 = ts_commits (bt_next b) + 1" "ts_open_step st2 = None"
        "ts_finished st2 = ts_finished (bt_next b)" "ts_last_committed_step st2 = Some s"
        "ts_next_step st2 = max (ts_next_step (bt_next b)) (s + 1)"
      by (simp_all add: appended(2,4) commit_state_def)
    then show ?thesis
      using appended(1,7) ok Some by (auto simp: batch_ok_def committed_def)
  qed
qed

text \<open>The record a commit leaves as the newest of the history, and the event it hands over.\<close>

lemma prepare_commit_last:
  assumes "options_ok (tr_options t)" and "state_ok (tr_options t) (bt_next b)"
    and "ts_open_step (bt_next b) = Some s" and "prepare_commit X t observed b = Inr b'"
  shows "ts_history (bt_next b') \<noteq> []"
    and "he_record (last (ts_history (bt_next b')))
      = merged_record (bt_next b) (commit_record X (bt_next b) s observed)"
    and "ts_summary (bt_next b') = bm_extend (ts_summary (bt_next b)) (ts_open_metrics (bt_next b))"
    and "bt_events b' = bt_events b @ [commit_event X t (commit_state X (bt_next b) s observed (s + 1))
      (commit_record X (bt_next b) s observed)]"
  using assms(1-3)
  by (cases rule: prepare_commit_open [where X = X and observed = observed];
      use assms(4) in \<open>auto simp: commit_state_def\<close>)+

lemma prepare_record_ok: "batch_ok opts st0 b \<Longrightarrow> batch_ok opts st0 (prepare_record X t observed alerts artifacts b)"
  by (simp add: batch_ok_def prepare_record_def Let_def state_ok_def monotonic_ok_def)

text \<open>After \<open>select_step\<close> the target may be opened.\<close>

definition may_open :: "tracker_options \<Rightarrow> tracker_state \<Rightarrow> int \<Rightarrow> bool" where
  "may_open opts st target \<longleftrightarrow>
     (to_step_policy opts = Monotonic \<longrightarrow>
        ts_next_step st \<le> target \<or> ts_last_committed_step st = Some target)"

lemma decide_step_commits:
  assumes "decide_step st target policy = CommitOpen"
  obtains s where "ts_open_step st = Some s" and "policy = Monotonic \<Longrightarrow> s < target"
  using assms by (auto simp: decide_step_def split: option.splits if_splits)

lemma decide_step_keeps:
  assumes "decide_step st target (to_step_policy opts) = Keep" and "state_ok opts st"
  shows "may_open opts st target"
proof (cases "ts_open_step st")
  case None
  then show ?thesis using assms(1) by (auto simp: decide_step_def may_open_def split: if_splits)
next
  case (Some s)
  then have "target = s" using assms(1) by (simp add: decide_step_def split: if_splits)
  with Some assms(2) show ?thesis by (simp add: may_open_def state_ok_def monotonic_ok_def)
qed

lemma committed_may_open:
  assumes "state_ok opts (bt_next b)" and "ts_open_step (bt_next b) = Some s"
    and "to_step_policy opts = Monotonic \<Longrightarrow> s < target" and "committed b b'"
  shows "may_open opts (bt_next b') target"
  unfolding may_open_def
proof
  assume mono: "to_step_policy opts = Monotonic"
  then have "ts_next_step (bt_next b) \<le> s + 1"
    using assms(1,2) by (auto simp: state_ok_def monotonic_ok_def)
  moreover have "ts_next_step (bt_next b') = max (ts_next_step (bt_next b)) (s + 1)"
    using assms(2,4) by (simp add: committed_def)
  ultimately show "ts_next_step (bt_next b') \<le> target \<or> ts_last_committed_step (bt_next b') = Some target"
    using assms(3) [OF mono] by simp
qed

lemma select_step_returns:
  assumes "options_ok (tr_options t)" and "batch_ok (tr_options t) st0 b"
  shows "select_step X t target observed b \<noteq> Inl Hangs"
  using conjunct1 [OF prepare_commit_ok [OF assms, of X observed]]
  by (simp add: select_step_def rbind_eq_Inl split: step_decision.split)

lemma select_step_ok:
  assumes opts: "options_ok (tr_options t)" and ok: "batch_ok (tr_options t) st0 b"
    and sel: "select_step X t target observed b = Inr (rejected, b')"
  shows "batch_ok (tr_options t) st0 b' \<and> (rejected = None \<longrightarrow> may_open (tr_options t) (bt_next b') target)"
proof (cases "decide_step (bt_next b) target (to_step_policy (tr_options t))")
  case Keep
  then show ?thesis using sel ok decide_step_keeps [OF Keep] by (simp add: select_step_def batch_ok_def)
next
  case CommitOpen
  then have com: "prepare_commit X t observed b = Inr b'"
    using sel by (auto simp: select_step_def rbind_eq_Inr)
  note done' = mp [OF conjunct2 [OF prepare_commit_ok [OF opts ok]] com]
  obtain s where s: "ts_open_step (bt_next b) = Some s"
      "to_step_policy (tr_options t) = Monotonic \<Longrightarrow> s < target"
    by (rule decide_step_commits [OF CommitOpen]) blast
  have "state_ok (tr_options t) (bt_next b)" using ok by (simp add: batch_ok_def)
  from committed_may_open [OF this s conjunct2 [OF done']] done' show ?thesis by simp
next
  case (Reject reason)
  then show ?thesis using sel ok by (auto simp: select_step_def)
qed

lemma open_step_ok:
  assumes "batch_ok opts st0 b" and "may_open opts (bt_next b) target"
  shows "batch_ok opts st0 (b\<lparr>bt_next := (bt_next b)\<lparr>ts_open_step := Some target, ts_open_metrics := m,
      ts_open_spans := sps\<rparr>\<rparr>)"
  using assms by (simp add: batch_ok_def state_ok_def monotonic_ok_def may_open_def)

section \<open>The delivery queue\<close>

definition queue_ok :: "alert_queue \<Rightarrow> bool" where
  "queue_ok q \<longleftrightarrow>
     aq_accepted q = aq_completed q + aq_dropped q + length (aq_waiting q)
     \<and> aq_bytes q = sum_list (map snd (aq_waiting q)) \<and> aq_bytes q \<le> aq_max_bytes q
     \<and> length (aq_waiting q) \<le> aq_capacity q \<and> aq_completed q = length (aq_delivered q)"

lemma queue_ok_new: "queue_ok (new_queue capacity limit)"
  by (simp add: queue_ok_def new_queue_def)

lemma queue_ok_send: "queue_ok q \<Longrightarrow> queue_ok (queue_send X q event)"
  by (auto simp: queue_ok_def queue_send_def Let_def split: sum.split)

lemma queue_ok_work: "queue_ok q \<Longrightarrow> queue_ok (queue_work q)"
  by (auto simp: queue_ok_def queue_work_def split: list.split)

lemma queue_ok_stop: "queue_ok q \<Longrightarrow> queue_ok (queue_stop q)"
  by (simp add: queue_ok_def queue_stop_def)

lemma queue_ok_sends: "queue_ok q \<Longrightarrow> queue_ok (foldl (queue_send X) q events)"
  by (induction events arbitrary: q) (simp_all add: queue_ok_send)

definition queues_ok :: "alert_queue option \<Rightarrow> bool" where
  "queues_ok queue \<longleftrightarrow> (case queue of Some q \<Rightarrow> queue_ok q | None \<Rightarrow> True)"

section \<open>Transactions\<close>

definition working_ok :: "tracker_options \<Rightarrow> tracker_state \<Rightarrow> bool" where
  "working_ok opts st \<longleftrightarrow>
     length (ts_open_metrics st) \<le> to_max_metrics opts \<and> length (ts_summary st) \<le> to_max_metrics opts
     \<and> length (ts_open_spans st) \<le> to_max_spans opts"

definition tracker_ok :: "tracker_lib \<Rightarrow> tracker \<Rightarrow> bool" where
  "tracker_ok X t \<longleftrightarrow>
     options_ok (tr_options t) \<and> producer_inv (tx_serde X) (tr_producer t)
     \<and> state_ok (tr_options t) (tr_state t) \<and> working_ok (tr_options t) (tr_state t)
     \<and> (ts_finished (tr_state t) \<longrightarrow> p_sealed (pr_state (tr_producer t)))
     \<and> queues_ok (tr_queue t)"

text \<open>How many records a tracker has handed to its producer beyond those it has counted.\<close>

definition uncounted :: "tracker \<Rightarrow> int" where
  "uncounted t = int (p_next_sequence (pr_state (tr_producer t))) - int (ts_commits (tr_state t))"

lemma working_ok_checked: "check_working_budget X t st = Inr () \<Longrightarrow> working_ok (tr_options t) st"
  by (auto simp: check_working_budget_def Let_def result_iffs working_ok_def)

lemma capture_outcome:
  assumes "producer_inv X p"
  obtains (rejected) e where "capture_batch X clock p events = Some (Inl e, p)"
  | (accepted) r p' where "capture_batch X clock p events = Some (Inr r, p')" and "producer_inv X p'"
      and "p_next_sequence (pr_state p') = p_next_sequence (pr_state p) + length events"
proof (cases "prepare_batch X p clock events")
  case (Inl e)
  then show thesis by (intro rejected) (simp add: capture_batch_def)
next
  case (Inr ps)
  note prep = prepare_batch_result [OF Inr]
  have len: "length ps = length events" using prep(3) by (metis length_map)
  from assms prep(2) show thesis
  proof (cases rule: commit_batch_outcome)
    case (rejected e)
    with Inr show thesis by (intro that(1)) (simp add: capture_batch_def)
  next
    case (accepted r st' trail)
    have "producer_inv X (p\<lparr>pr_state := st'\<rparr>)"
      by (rule producer_inv_commit [OF assms prep(2) accepted(1)])
    with accepted Inr len show thesis
      by (intro that(2) [of r "p\<lparr>pr_state := st'\<rparr>"]) (simp_all add: capture_batch_def)
  qed
qed

lemma install_ok:
  assumes "tracker_ok X t" and "producer_inv (tx_serde X) p" and "batch_ok (tr_options t) (tr_state t) b"
    and "working_ok (tr_options t) (bt_next b)"
    and "p_next_sequence (pr_state p) = p_next_sequence (pr_state (tr_producer t)) + length (bt_events b)"
  shows "tracker_ok X (install X t p b)" and "uncounted (install X t p b) = uncounted t"
proof -
  have "queues_ok (send_alerts X (bt_alerts b) (tr_queue t))"
    using assms(1) by (auto simp: tracker_ok_def queues_ok_def send_alerts_def queue_ok_sends split: option.splits)
  then show "tracker_ok X (install X t p b)"
    using assms(1-4) producer_inv_seal [OF assms(2)]
    by (simp add: tracker_ok_def install_def batch_ok_def) (simp add: seal_def)
  show "uncounted (install X t p b) = uncounted t"
    using assms(3,5) by (simp add: uncounted_def install_def batch_ok_def seal_def)
qed

lemma install_options [simp]: "tr_options (install X t p b) = tr_options t"
  by (simp add: install_def)

locale transaction =
  fixes prep :: "tracker \<Rightarrow> batch \<Rightarrow> tracker_failure + log_result \<times> batch"
  assumes prep_ok: "options_ok (tr_options t) \<Longrightarrow> batch_ok (tr_options t) st0 b
      \<Longrightarrow> prep t b = Inr (r, b') \<Longrightarrow> batch_ok (tr_options t) st0 b'"
    and prep_returns: "options_ok (tr_options t) \<Longrightarrow> batch_ok (tr_options t) st0 b \<Longrightarrow> prep t b \<noteq> Inl Hangs"
begin

text \<open>A transaction either fails and changes nothing, or keeps the invariant and the count.\<close>

lemma transact_outcome:
  assumes "tracker_ok X t"
  obtains (failed) f where "transact X now t (prep t) = (Inl f, t)" and "f \<noteq> Hangs"
  | (succeeded) r t' where "transact X now t (prep t) = (Inr r, t')" and "tracker_ok X t'"
      and "uncounted t' = uncounted t" and "tr_options t' = tr_options t"
proof (cases "ts_finished (tr_state t)")
  case True
  then show thesis by (intro failed [of AlreadyFinished]) (simp_all add: transact_def)
next
  case active: False
  let ?b0 = "\<lparr>bt_next = tr_state t, bt_events = [], bt_alerts = []\<rparr>"
  let ?checked = "rbind (prep t ?b0) (\<lambda>(result, b).
      rbind (check_working_budget X t (bt_next b)) (\<lambda>_.
      Inr (result\<lparr>lr_committed := length (bt_events b)\<rparr>, b)))"
  have opts: "options_ok (tr_options t)" and b0: "batch_ok (tr_options t) (tr_state t) ?b0"
    and inv: "producer_inv (tx_serde X) (tr_producer t)"
    using assms by (simp_all add: tracker_ok_def batch_ok_def)
  show thesis
  proof (cases ?checked)
    case (Inl f)
    then have "f \<noteq> Hangs"
      using prep_returns [OF opts b0] check_working_budget_returns by (auto simp: rbind_eq_Inl)
    with Inl active show thesis by (intro failed [of f]) (simp_all add: transact_def)
  next
    case (Inr rb)
    then obtain r b where rb: "rb = (r, b)" by force
    have bok: "batch_ok (tr_options t) (tr_state t) b" and work: "working_ok (tr_options t) (bt_next b)"
      using Inr prep_ok [OF opts b0] working_ok_checked by (auto simp: rb rbind_eq_Inr split: prod.splits)
    show thesis
    proof (cases "bt_events b = []")
      case True
      with Inr active have "transact X now t (prep t) = (Inr r, install X t (tr_producer t) b)"
        by (simp add: transact_def rb)
      then show thesis
        by (rule succeeded) (use install_ok [OF assms inv bok work] True active in simp_all)
    next
      case events: False
      from inv show thesis
      proof (cases rule: capture_outcome [where clock = "\<lambda>_. now" and events = "bt_events b"])
        case (rejected e)
        with Inr active events show thesis
          by (intro failed [of "ProducerFailed e"]) (simp_all add: transact_def rb)
      next
        case (accepted receipt p')
        with Inr active events
        have "transact X now t (prep t) = (Inr (r\<lparr>lr_capture := Some receipt\<rparr>), install X t p' b)"
          by (simp add: transact_def rb)
        then show thesis
          by (rule succeeded) (use install_ok [OF assms accepted(2) bok work accepted(3)] active in simp_all)
      qed
    qed
  qed
qed

end

end
