(* ===== verification/Tracker_Props.thy ===== *)
theory Tracker_Props
  imports Tracker_Inv Alert_Props Producer_Props
begin

text \<open>
  The properties of the tracker. The operations are interpretations of \<open>transaction\<close>;
  \<open>tracker_run\<close> is a tracker's life: any sequence of operations and rounds of the delivery
  worker, each with the clock's reading.
\<close>

section \<open>The operations as transactions\<close>

lemma prepare_commit_returns:
  "options_ok (tr_options t) \<Longrightarrow> batch_ok (tr_options t) st0 b \<Longrightarrow> prepare_commit X t observed b \<noteq> Inl Hangs"
  using prepare_commit_ok by blast

lemma prepare_commit_batch:
  "options_ok (tr_options t) \<Longrightarrow> batch_ok (tr_options t) st0 b \<Longrightarrow> prepare_commit X t observed b = Inr b'
   \<Longrightarrow> batch_ok (tr_options t) st0 b'"
  using prepare_commit_ok by blast

text \<open>A step that was selected and not rejected may be opened with any metrics and spans.\<close>

lemma selected_opened:
  assumes "options_ok (tr_options t)" and "batch_ok (tr_options t) st0 b"
    and "select_step X t target observed b = Inr (None, b1)"
  shows "batch_ok (tr_options t) st0 (b1\<lparr>bt_next := (bt_next b1)\<lparr>ts_open_step := Some target,
      ts_open_metrics := m, ts_open_spans := sps\<rparr>\<rparr>)"
  using select_step_ok [OF assms] open_step_ok by blast

lemma selected_rejected:
  assumes "options_ok (tr_options t)" and "batch_ok (tr_options t) st0 b"
    and "select_step X t target observed b = Inr (Some r, b1)"
  shows "batch_ok (tr_options t) st0 b1"
  using select_step_ok [OF assms] by blast

lemma prepare_log_ok:
  assumes opts: "options_ok (tr_options t)" and ok: "batch_ok (tr_options t) st0 b"
  shows "prepare_log X t m step commit observed b \<noteq> Inl Hangs
    \<and> (\<forall>r b'. prepare_log X t m step commit observed b = Inr (r, b') \<longrightarrow> batch_ok (tr_options t) st0 b')"
proof (cases "select_step X t (resolve_step (bt_next b) step) observed b")
  case (Inl f)
  then show ?thesis using select_step_returns [OF opts ok] by (auto simp: prepare_log_def Let_def)
next
  case (Inr sel)
  obtain rejected b1 where sel: "sel = (rejected, b1)" by force
  show ?thesis
  proof (cases rejected)
    case None
    let ?b2 = "b1\<lparr>bt_next := (bt_next b1)\<lparr>ts_open_step := Some (resolve_step (bt_next b) step),
        ts_open_metrics := bm_extend (ts_open_metrics (bt_next b1)) m\<rparr>\<rparr>"
    have "batch_ok (tr_options t) st0 ?b2"
      using selected_opened [OF opts ok Inr [unfolded sel None], where sps = "ts_open_spans (bt_next b1)"]
      by simp
    then show ?thesis
      using Inr sel None prepare_commit_returns [OF opts, of st0 ?b2] prepare_commit_batch [OF opts, of st0 ?b2]
      by (auto simp: prepare_log_def Let_def rbind_eq_Inl rbind_eq_Inr)
  next
    case (Some rej)
    with Inr sel selected_rejected [OF opts ok Inr [unfolded sel Some]] show ?thesis
      by (simp add: prepare_log_def Let_def)
  qed
qed

lemma prepare_span_ok:
  assumes opts: "options_ok (tr_options t)" and ok: "batch_ok (tr_options t) st0 b"
  shows "prepare_span X t spn step b \<noteq> Inl Hangs
    \<and> (\<forall>r b'. prepare_span X t spn step b = Inr (r, b') \<longrightarrow> batch_ok (tr_options t) st0 b')"
proof (cases "select_step X t (resolve_step (bt_next b) step) (sp_end_ns spn) b")
  case (Inl f)
  then show ?thesis using select_step_returns [OF opts ok] by (auto simp: prepare_span_def Let_def)
next
  case (Inr sel)
  obtain rejected b1 where sel: "sel = (rejected, b1)" by force
  show ?thesis
  proof (cases rejected)
    case None
    with Inr sel selected_opened [OF opts ok Inr [unfolded sel None]] show ?thesis
      by (simp add: prepare_span_def Let_def)
  next
    case (Some rej)
    with Inr sel selected_rejected [OF opts ok Inr [unfolded sel Some]] show ?thesis
      by (simp add: prepare_span_def Let_def)
  qed
qed

lemma batch_ok_fields:
  "batch_ok opts st0 b \<Longrightarrow> batch_ok opts st0 (b\<lparr>bt_next := (bt_next b)\<lparr>ts_alerts := g\<rparr>\<rparr>)"
  "batch_ok opts st0 b \<Longrightarrow> batch_ok opts st0 (b\<lparr>bt_next := (bt_next b)\<lparr>ts_status := s\<rparr>\<rparr>)"
  "batch_ok opts st0 b \<Longrightarrow> batch_ok opts st0 (b\<lparr>bt_next := (bt_next b)\<lparr>ts_finished := f\<rparr>\<rparr>)"
  by (simp_all add: batch_ok_def state_ok_def monotonic_ok_def)

interpretation log: transaction "\<lambda>t. prepare_log X t m step commit observed" for X m step commit observed
  by unfold_locales (blast dest: prepare_log_ok)+

interpretation flush: transaction "\<lambda>t b. rbind (prepare_commit X t observed b)
    (\<lambda>b'. Inr (log_accepted (ts_last_committed_step (bt_next b')), b'))" for X observed
  by unfold_locales (auto simp: rbind_eq_Inr rbind_eq_Inl dest: prepare_commit_batch prepare_commit_returns)

interpretation spans: transaction "\<lambda>t. prepare_span X t spn step" for X spn step
  by unfold_locales (blast dest: prepare_span_ok)+

interpretation event: transaction "\<lambda>t b. Inr (log_accepted (Some (event_step (bt_next b))),
    prepare_record X t observed (alerts (event_step (bt_next b))) artifacts b)" for X observed alerts artifacts
  by unfold_locales (auto simp: prepare_record_ok)

interpretation tick: transaction "\<lambda>t b.
    let st = bt_next b; step = event_step st;
        update = prepare_tick A (ts_alerts st) step observed;
        b' = b\<lparr>bt_next := st\<lparr>ts_alerts := apply_update (ts_alerts st) update\<rparr>\<rparr>
    in Inr (log_accepted (Some step),
            if au_events update = [] then b'
            else prepare_record X t observed (au_events update) [] b')" for A X observed
  by unfold_locales (auto simp: Let_def prepare_record_ok batch_ok_fields split: if_splits)

interpretation finish: transaction "\<lambda>t b. rbind (prepare_commit X t observed b) (\<lambda>b1.
    let b2 = b1\<lparr>bt_next := (bt_next b1)\<lparr>ts_status := if failed then ''failed'' else ''finished''\<rparr>\<rparr>;
        b3 = prepare_record X t observed [] [] b2;
        b4 = b3\<lparr>bt_next := (bt_next b3)\<lparr>ts_finished := True\<rparr>\<rparr>
    in Inr (log_accepted (ts_last_committed_step (bt_next b4)), b4))" for X observed failed
  by unfold_locales
    (auto simp: rbind_eq_Inr rbind_eq_Inl Let_def intro!: batch_ok_fields prepare_record_ok
      dest: prepare_commit_batch prepare_commit_returns)

section \<open>A tracker's life\<close>

text \<open>What every operation does: an error changes nothing, a result keeps the invariant.\<close>

definition kept :: "tracker_lib \<Rightarrow> tracker \<Rightarrow> (tracker_failure + 'r) \<times> tracker \<Rightarrow> bool" where
  "kept X t = (\<lambda>(res, t').
     case res of
       Inl f \<Rightarrow> t' = t \<and> f \<noteq> Hangs
     | Inr _ \<Rightarrow> tracker_ok X t' \<and> uncounted t' = uncounted t \<and> tr_options t' = tr_options t)"

lemma kept_error: "f \<noteq> Hangs \<Longrightarrow> kept X t (Inl f, t)"
  by (simp add: kept_def)

lemma kept_result:
  "tracker_ok X t' \<Longrightarrow> uncounted t' = uncounted t \<Longrightarrow> tr_options t' = tr_options t \<Longrightarrow> kept X t (Inr r, t')"
  by (simp add: kept_def)

lemma kept_after:
  assumes "kept X t res" and "tracker_ok X t"
  shows "tracker_ok X (snd res) \<and> uncounted (snd res) = uncounted t \<and> tr_options (snd res) = tr_options t"
  using assms by (cases res; cases "fst res") (auto simp: kept_def)

context transaction
begin

lemma transact_kept: "tracker_ok X t \<Longrightarrow> kept X t (transact X now t (prep t))"
  by (rule transact_outcome [of X t now]) (auto simp: kept_def)

end

datatype tracker_op =
    DoLog json "int option" "bool option" "int option"
  | DoFlush "int option"
  | DoSpan span_record "int option"
  | DoAlert string string alert_level "string list" "string list" "int option"
  | DoArtifact artifact_record "int option"
  | DoTick "int option"
  | DoAddRule alert_rule
  | DoRemoveRule string
  | DoFinish "int option" bool
  | DoDeliver

definition no_result :: "(tracker_failure + 'r) \<times> tracker \<Rightarrow> (tracker_failure + unit) \<times> tracker" where
  "no_result = map_prod (map_sum (\<lambda>f. f) (\<lambda>_. ())) (\<lambda>t. t)"

fun run_op :: "tracker_lib \<Rightarrow> int \<Rightarrow> tracker \<Rightarrow> tracker_op \<Rightarrow> (tracker_failure + unit) \<times> tracker" where
  "run_op X now t (DoLog m step commit observed) = no_result (tracker_log X now t m step commit observed)"
| "run_op X now t (DoFlush observed) = no_result (tracker_flush X now t observed)"
| "run_op X now t (DoSpan spn step) = no_result (tracker_record_span X now t spn step)"
| "run_op X now t (DoAlert title body level tags channels observed) =
     no_result (tracker_manual_alert X now t title body level tags channels observed)"
| "run_op X now t (DoArtifact a observed) = no_result (tracker_artifact X now t a observed)"
| "run_op X now t (DoTick observed) = no_result (tracker_tick X now t observed)"
| "run_op X now t (DoAddRule rule) = tracker_add_rule t rule"
| "run_op X now t (DoRemoveRule name) = no_result (tracker_remove_rule t name)"
| "run_op X now t (DoFinish observed failed) = no_result (tracker_finish X now t observed failed)"
| "run_op X now t DoDeliver = (Inr (), t\<lparr>tr_queue := map_option queue_work (tr_queue t)\<rparr>)"

definition tracker_run :: "tracker_lib \<Rightarrow> tracker \<Rightarrow> (int \<times> tracker_op) list \<Rightarrow> tracker" where
  "tracker_run X t ops = foldl (\<lambda>t (now, op). snd (run_op X now t op)) t ops"

lemma kept_no_result [simp]: "kept X t (no_result res) = kept X t res"
  by (cases res; cases "fst res") (auto simp: kept_def no_result_def)

lemma tracker_ok_fields:
  "tracker_ok X t \<Longrightarrow> tracker_ok X (t\<lparr>tr_watchdog := w\<rparr>)"
  "tracker_ok X t \<Longrightarrow> tracker_ok X (t\<lparr>tr_state := (tr_state t)\<lparr>ts_alerts := g\<rparr>\<rparr>)"
  "tracker_ok X t \<Longrightarrow> (\<And>q. queue_ok q \<Longrightarrow> queue_ok (f q)) \<Longrightarrow> tracker_ok X (t\<lparr>tr_queue := map_option f (tr_queue t)\<rparr>)"
  by (auto simp: tracker_ok_def state_ok_def monotonic_ok_def working_ok_def queues_ok_def split: option.split)

lemma uncounted_fields [simp]:
  "uncounted (t\<lparr>tr_watchdog := w\<rparr>) = uncounted t"
  "uncounted (t\<lparr>tr_state := (tr_state t)\<lparr>ts_alerts := g\<rparr>\<rparr>) = uncounted t"
  "uncounted (t\<lparr>tr_queue := q\<rparr>) = uncounted t"
  by (simp_all add: uncounted_def)

lemma validate_returns:
  "validate_step step \<noteq> Inl Hangs" "as_metrics v field \<noteq> Inl Hangs" "validate_metric_name n \<noteq> Inl Hangs"
  "validate_span spn \<noteq> Inl Hangs" "map_err (BadInputText \<circ> g) (validate_artifact a) \<noteq> Inl Hangs"
  by (auto simp: validate_step_def as_metrics_def validate_metric_name_def validate_span_def
      map_err_def ensure_eq_Inl rbind_eq_Inl split: json.split sum.split)

lemma for_each_returns: "(\<And>x. f x \<noteq> Inl e) \<Longrightarrow> for_each f xs \<noteq> Inl e"
  by (induction xs) (auto simp: rbind_eq_Inl)

text \<open>An operation that checks its input first.\<close>

lemma kept_checked:
  assumes "check \<noteq> Inl Hangs" and "\<And>x. check = Inr x \<Longrightarrow> kept X t (go x)"
  shows "kept X t (case check of Inl e \<Rightarrow> (Inl e, t) | Inr x \<Rightarrow> go x)"
  using assms by (cases check) (auto simp: kept_def)

lemma tracker_log_kept: "tracker_ok X t \<Longrightarrow> kept X t (tracker_log X now t m step commit observed)"
  unfolding tracker_log_def
  by (rule kept_checked)
    (auto simp: rbind_eq_Inl validate_returns for_each_returns intro: log.transact_kept)

lemma tracker_span_kept: "tracker_ok X t \<Longrightarrow> kept X t (tracker_record_span X now t spn step)"
  unfolding tracker_record_span_def
  by (rule kept_checked) (auto simp: rbind_eq_Inl validate_returns intro: spans.transact_kept)

lemma tracker_artifact_kept: "tracker_ok X t \<Longrightarrow> kept X t (tracker_artifact X now t a observed)"
  unfolding tracker_artifact_def
  by (rule kept_checked)
    (auto simp: validate_returns intro: event.transact_kept [where alerts = "\<lambda>_. []"])

lemma tracker_alert_kept:
  "tracker_ok X t \<Longrightarrow> kept X t (tracker_manual_alert X now t title body level tags channels observed)"
  using event.transact_kept [where X = X and t = t and now = now and artifacts = "[]" and observed = "or_now now observed" and
      alerts = "\<lambda>step. [manual \<lparr>ma_title = title, ma_text = body, ma_level = level, ma_step = step,
        ma_observed_at_ns = or_now now observed, ma_tags = tags, ma_channels = channels\<rparr>]"]
  by (simp add: tracker_manual_alert_def kept_error Let_def)

lemma kept_stopped:
  assumes "kept X t res"
  shows "kept X t (let (result, t') = res in case result of
      Inl e \<Rightarrow> (Inl e, t')
    | Inr r \<Rightarrow> (Inr r, t'\<lparr>tr_watchdog := False, tr_queue := map_option queue_stop (tr_queue t')\<rparr>))"
  using assms tracker_ok_fields(3) [OF tracker_ok_fields(1), where f = queue_stop, OF _ queue_ok_stop]
  by (cases res) (simp add: kept_def split: sum.splits)

lemma tracker_finish_kept: "tracker_ok X t \<Longrightarrow> kept X t (tracker_finish X now t observed failed)"
  using kept_stopped [OF finish.transact_kept [of X t now X "or_now now observed" failed]]
  by (cases "ts_finished (tr_state t)") (simp_all add: tracker_finish_def kept_result Let_def)

lemma run_op_kept: "tracker_ok X t \<Longrightarrow> kept X t (run_op X now t op)"
proof (cases op)
  case (DoAddRule rule)
  assume "tracker_ok X t"
  with DoAddRule show ?thesis
    using tracker_ok_fields(1) [OF tracker_ok_fields(2)]
    by (simp add: tracker_add_rule_def kept_error kept_result split: sum.split)
next
  case (DoRemoveRule name)
  assume "tracker_ok X t"
  with DoRemoveRule show ?thesis
    by (simp add: tracker_remove_rule_def kept_error kept_result tracker_ok_fields split: prod.split)
next
  case DoDeliver
  assume "tracker_ok X t"
  with DoDeliver show ?thesis by (simp add: kept_result tracker_ok_fields queue_ok_work)
qed (simp_all add: tracker_log_kept tracker_span_kept tracker_artifact_kept tracker_alert_kept
    tracker_finish_kept tracker_flush_def tracker_tick_def flush.transact_kept tick.transact_kept)

lemma tracker_run_snoc:
  "tracker_run X t (ops @ [(now, op)]) = snd (run_op X now (tracker_run X t ops) op)"
  by (simp add: tracker_run_def)

lemma tracker_run_ok:
  assumes "tracker_ok X t"
  shows "tracker_ok X (tracker_run X t ops) \<and> uncounted (tracker_run X t ops) = uncounted t
    \<and> tr_options (tracker_run X t ops) = tr_options t"
proof (induction ops rule: rev_induct)
  case (snoc step ops)
  obtain now op where step: "step = (now, op)" by force
  from snoc kept_after [OF run_op_kept [of X "tracker_run X t ops" now op]] show ?case
    by (simp add: step tracker_run_snoc)
qed (simp add: tracker_run_def assms)

lemma with_alert_sink_ok:
  assumes "producer_inv (tx_serde X) p" and "with_alert_sink X now p config opts rules sink = Inr t"
  shows "tracker_ok X t" and "tr_options t = opts" and "tr_producer t = p" and "ts_commits (tr_state t) = 0"
proof -
  show fields: "tr_options t = opts" "tr_producer t = p" "ts_commits (tr_state t) = 0"
    using assms(2) by (auto simp: with_alert_sink_def result_iffs Let_def initial_tracker_state_def)
  show "tracker_ok X t"
    using assms by (auto simp: with_alert_sink_def result_iffs Let_def initial_tracker_state_def
        tracker_ok_def options_ok_def state_ok_def monotonic_ok_def working_ok_def queues_ok_def queue_ok_new)
qed

text \<open>What a log without an explicit step commits: the open metrics extended by the logged ones.\<close>

definition log_row :: "tracker_state \<Rightarrow> metric_map \<Rightarrow> metric_map" where
  "log_row st m = bm_extend (ts_open_metrics st) m"

definition committed_row :: "tracker_state \<Rightarrow> int \<Rightarrow> metric_map \<Rightarrow> metric_map" where
  "committed_row st s row =
     (case find_step s (ts_history st) of
        None \<Rightarrow> row
      | Some e \<Rightarrow> bm_extend (cs_metrics (he_record e)) row)"

definition log_committed :: "tracker_state \<Rightarrow> metric_map \<Rightarrow> log_result \<Rightarrow> tracker_state \<Rightarrow> bool" where
  "log_committed st m r st' \<longleftrightarrow>
     (let s = resolve_step st None; row = log_row st m in
      lr_accepted r \<and> lr_step r = Some s \<and> lr_committed r = 1
      \<and> ts_open_step st' = None \<and> ts_last_committed_step st' = Some s
      \<and> ts_next_step st' = max (ts_next_step st) (s + 1)
      \<and> ts_summary st' = bm_extend (ts_summary st) row \<and> ts_history st' \<noteq> []
      \<and> cs_step (he_record (last (ts_history st'))) = s
      \<and> cs_metrics (he_record (last (ts_history st'))) = committed_row st s row)"

lemma decide_step_resolved: "decide_step st (resolve_step st None) policy = Keep"
  by (simp add: decide_step_def resolve_step_def split: option.split)

lemma merged_record_row:
  "cs_metrics (merged_record st r) = committed_row st (cs_step r) (cs_metrics r)"
  by (simp add: merged_record_def merge_record_def committed_row_def split: option.split)

lemma merged_record_step:
  "cs_step (merged_record st r) = cs_step r"
  by (auto simp: merged_record_def merge_record_def find_step_def find_Some_iff split: option.split)

lemma prepare_log_committed:
  assumes opts: "options_ok (tr_options t)" and st: "state_ok (tr_options t) st"
    and log: "prepare_log X t m None None observed \<lparr>bt_next = st, bt_events = [], bt_alerts = []\<rparr> = Inr (r, b)"
  shows "log_committed st m (r\<lparr>lr_committed := length (bt_events b)\<rparr>) (bt_next b)"
proof -
  define s where "s = resolve_step st None"
  define b2 where "b2 = \<lparr>bt_next = st\<lparr>ts_open_step := Some s, ts_open_metrics := log_row st m\<rparr>,
      bt_events = [], bt_alerts = []\<rparr>"
  have sel: "select_step X t s observed \<lparr>bt_next = st, bt_events = [], bt_alerts = []\<rparr>
      = Inr (None, \<lparr>bt_next = st, bt_events = [], bt_alerts = []\<rparr>)"
    by (simp add: select_step_def decide_step_resolved s_def)
  have com: "prepare_commit X t observed b2 = Inr b" and r: "r = log_accepted (Some s)"
    using log sel by (simp_all add: prepare_log_def Let_def rbind_eq_Inr s_def [symmetric] b2_def log_row_def)
  have open2: "ts_open_step (bt_next b2) = Some s" by (simp add: b2_def)
  have "batch_ok (tr_options t) st \<lparr>bt_next = st, bt_events = [], bt_alerts = []\<rparr>"
    using st by (simp add: batch_ok_def)
  from selected_opened [OF opts this sel, where m = "log_row st m" and sps = "ts_open_spans st"]
  have ok2: "batch_ok (tr_options t) st b2" by (simp add: b2_def)
  then have st2: "state_ok (tr_options t) (bt_next b2)" by (simp add: batch_ok_def)
  note last = prepare_commit_last [OF opts st2 open2 com]
  have "committed b2 b" using prepare_commit_ok [OF opts ok2] com by blast
  moreover have "committed_row (bt_next b2) s row = committed_row st s row" for row
    by (simp add: committed_row_def b2_def)
  ultimately show ?thesis
    using last open2
    by (simp add: log_committed_def Let_def r log_accepted_def s_def [symmetric] committed_def merged_record_row
        merged_record_step commit_record_def b2_def)
qed

lemma transact_Inr:
  assumes "transact X now t prep = (Inr r, t')"
  obtains r0 b where "prep \<lparr>bt_next = tr_state t, bt_events = [], bt_alerts = []\<rparr> = Inr (r0, b)"
    and "tr_state t' = bt_next b" 
    and "\<And>st m st'. log_committed st m r st' = log_committed st m (r0\<lparr>lr_committed := length (bt_events b)\<rparr>) st'"
  using assms
  by (auto simp: transact_def install_def rbind_eq_Inr log_committed_def Let_def split: if_splits sum.splits prod.splits option.splits)

section \<open>A concrete tracker\<close>

definition demo_lib :: tracker_lib where
  "demo_lib =
     \<lparr>tx_serde = ref_ext, tx_alert = demo_alert_ext, tx_record_bytes = \<lambda>r. Inr (1 + length (cs_metrics r)),
      tx_working_bytes = \<lambda>m s u c. Inr (1 + length m + length s + length u),
      tx_row_bytes = \<lambda>m. Inr (1 + length m), tx_event_bytes = \<lambda>e. Inr 1\<rparr>"

definition demo_options :: tracker_options where
  "demo_options = default_tracker_options\<lparr>to_max_metrics := 1\<rparr>"

definition demo_tracker :: tracker where
  "demo_tracker =
     \<lparr>tr_producer = demo_producer, tr_config = JObject [], tr_options = demo_options,
      tr_state = initial_tracker_state \<lparr>ae_rules = [], ae_series = [], ae_capacity = 1024,
        ae_started_at_ns = 0, ae_last_observed_at_ns = None\<rparr>,
      tr_queue = Some (new_queue 1024 8388608), tr_watchdog = False\<rparr>"

lemma demo_options_valid: "validate_options demo_options = Inr ()"
  by (simp add: validate_options_def demo_options_def default_tracker_options_def blank_def str_trim_def
      trim_start.simps trim_rev.simps ws1_def ws2_def ws3_def byte_def contains_nul_def)

lemma demo_tracker_new: "with_alert_sink demo_lib 0 demo_producer (JObject []) demo_options [] True = Inr demo_tracker"
  using demo_options_valid
  by (simp add: with_alert_sink_def new_engine_def demo_tracker_def check_working_budget_def demo_lib_def
      MAX_WINDOW_def has_time_rules_def check_series_budget_def initial_tracker_state_def)
    (simp add: demo_options_def default_tracker_options_def)

definition demo_ops :: "(int \<times> tracker_op) list" where
  "demo_ops =
     [(1, DoLog (JObject [(''loss'', JNumber ''1'')]) None None None), (2, DoFlush None),
      (3, DoFinish None False), (4, DoDeliver)]"

lemma demo_budget:
  "run_op demo_lib 5 demo_tracker (DoLog (JObject [(''a'', JNull), (''b'', JNull)]) (Some 3) None None)
   = (Inl (BadInputText ''tracker metric/span cardinality budget exceeded''), demo_tracker)"
  by (simp add: tracker_log_def as_metrics_def validate_metric_name_def bm_keys_def blank_letter ws1_def byte_def
      contains_nul_def validate_step_def transact_def prepare_log_def select_step_def decide_step_def
      resolve_step_def demo_tracker_def initial_tracker_state_def check_working_budget_def demo_options_def
      no_result_def)

section \<open>Properties\<close>

text \<open>
  C25. The tracker's state is consistent after any sequence of operations: the history's byte count
  is the sum of its entries and within the configured budget, it holds at most the configured
  number of steps, each once, in increasing order under the monotonic policy; the open metrics,
  the summary and the open spans are within their cardinality limits.
\<close>

theorem tracker_consistent:
  assumes "new d l = Inr p" and "with_alert_sink X now p config opts rules sink = Inr t0"
    and "st = tr_state (tracker_run X t0 ops)"
  shows "ts_history_bytes st = sum_list (map he_bytes (ts_history st))
    \<and> ts_history_bytes st \<le> to_max_history_bytes opts \<and> length (ts_history st) \<le> to_history_steps opts
    \<and> distinct (map (cs_step \<circ> he_record) (ts_history st))
    \<and> (to_step_policy opts = Monotonic \<longrightarrow> sorted (map (cs_step \<circ> he_record) (ts_history st)))
    \<and> length (ts_open_metrics st) \<le> to_max_metrics opts \<and> length (ts_summary st) \<le> to_max_metrics opts
    \<and> length (ts_open_spans st) \<le> to_max_spans opts"
proof -
  note t0 = with_alert_sink_ok [OF producer_inv_new [OF assms(1)] assms(2)]
  have "state_ok opts st" "working_ok opts st"
    using tracker_run_ok [OF t0(1), of ops] t0(2) assms(3) by (auto simp: tracker_ok_def)
  then show ?thesis
    by (auto simp: state_ok_def working_ok_def monotonic_ok_def entry_bytes_def entry_steps_def comp_def
        intro: strict_sorted_imp_sorted)
qed

theorem tracker_consistent_witness:
  "(let st = tr_state (tracker_run demo_lib demo_tracker demo_ops) in
    ts_history_bytes st = sum_list (map he_bytes (ts_history st)) \<and> length (ts_history st) \<le> 1024
    \<and> sorted (map (cs_step \<circ> he_record) (ts_history st)))"
  using tracker_consistent [OF demo_new demo_tracker_new refl, of demo_ops]
  by (simp add: Let_def demo_options_def default_tracker_options_def)

text \<open>
  C26. Operations are atomic: an operation that returns an error, at whatever point of its
  transaction, leaves the tracker as it was: the open step, the history, the alert engine, the
  producer and the delivery queue. No operation runs into the endless case of the trimming loop.
\<close>

theorem tracker_atomic:
  assumes "new d l = Inr p" and "with_alert_sink X now p config opts rules sink = Inr t0"
    and "t = tracker_run X t0 ops" and "run_op X clock t op = (Inl f, t')"
  shows "t' = t \<and> f \<noteq> Hangs"
proof -
  have "tracker_ok X t"
    using tracker_run_ok [OF with_alert_sink_ok(1) [OF producer_inv_new [OF assms(1)] assms(2)]] assms(3) by simp
  from run_op_kept [OF this, of clock op] assms(4) show ?thesis by (simp add: kept_def)
qed

theorem tracker_atomic_witness:
  "(let t = tracker_run demo_lib demo_tracker [] in
    snd (run_op demo_lib 5 t (DoLog (JObject [(''a'', JNull), (''b'', JNull)]) (Some 3) None None)) = t)"
  using tracker_atomic [OF demo_new demo_tracker_new, where ops = "[]", OF _ demo_budget]
  by (simp add: demo_budget tracker_run_def Let_def del: run_op.simps)

text \<open>
  C27. The tracker counts what it hands over: the producer's next sequence is always the number of
  the tracker's commits, so every commit is a captured snapshot and a rejected batch counts for
  nothing; a finished tracker has sealed its producer.
\<close>

theorem commits_captured:
  assumes "new d l = Inr p" and "with_alert_sink X now p config opts rules sink = Inr t0"
    and "t = tracker_run X t0 ops"
  shows "p_next_sequence (pr_state (tr_producer t)) = ts_commits (tr_state t)
    \<and> (ts_finished (tr_state t) \<longrightarrow> p_sealed (pr_state (tr_producer t)))"
proof -
  note t0 = with_alert_sink_ok [OF producer_inv_new [OF assms(1)] assms(2)]
  have "p_next_sequence (pr_state p) = 0" using assms(1) by (auto simp: new_def result_iffs initial_state_def)
  then have "uncounted t0 = 0" using t0(3,4) by (simp add: uncounted_def)
  then show ?thesis
    using tracker_run_ok [OF t0(1), of ops] assms(3) by (simp add: uncounted_def tracker_ok_def)
qed

theorem commits_captured_witness:
  "(let t = tracker_run demo_lib demo_tracker demo_ops in
    p_next_sequence (pr_state (tr_producer t)) = ts_commits (tr_state t))"
  using commits_captured [OF demo_new demo_tracker_new refl, of demo_ops] by (simp add: Let_def)

text \<open>
  C28. Alert delivery is accounted for: every alert the queue was offered is delivered, dropped or
  waiting, the alerts delivered are as many as counted, and the waiting ones are within the
  capacity and the byte budget of the queue, with their bytes counted exactly.
\<close>

theorem alert_delivery_accounted:
  assumes "new d l = Inr p" and "with_alert_sink X now p config opts rules sink = Inr t0"
    and "tr_queue (tracker_run X t0 ops) = Some q"
  shows "aq_accepted q = length (aq_delivered q) + aq_dropped q + queue_pending q
    \<and> queue_pending q = length (aq_waiting q) \<and> length (aq_waiting q) \<le> aq_capacity q
    \<and> aq_bytes q = sum_list (map snd (aq_waiting q)) \<and> aq_bytes q \<le> aq_max_bytes q"
proof -
  have "queue_ok q"
    using tracker_run_ok [OF with_alert_sink_ok(1) [OF producer_inv_new [OF assms(1)] assms(2)], of ops] assms(3)
    by (simp add: tracker_ok_def queues_ok_def)
  then show ?thesis by (simp add: queue_ok_def queue_pending_def)
qed

theorem alert_delivery_accounted_witness:
  "queue_pending (new_queue 1024 8388608) = length (aq_waiting (new_queue 1024 8388608))"
  using alert_delivery_accounted [OF demo_new demo_tracker_new, of "[]" "new_queue 1024 8388608"]
  by (simp add: tracker_run_def demo_tracker_def)

text \<open>
  Logging without a step commits: the call that succeeds reports the step it resolved (the open
  one, else the next) and one committed record, closes the step, moves the cursor past it, extends
  the summary by the row of open and logged metrics, and leaves as the newest entry of the history
  the record of that step with the row merged into what the step held before; a call that fails
  changes nothing.
\<close>

theorem log_commits:
  assumes "new d l = Inr p" and "with_alert_sink X now p config opts rules sink = Inr t0"
    and "t = tracker_run X t0 ops"
  shows "case tracker_log X clock t (JObject m) None None observed of
      (Inl f, t') \<Rightarrow> t' = t
    | (Inr r, t') \<Rightarrow> log_committed (tr_state t) m r (tr_state t')"
proof -
  have t: "tracker_ok X t"
    using tracker_run_ok [OF with_alert_sink_ok(1) [OF producer_inv_new [OF assms(1)] assms(2)]] assms(3) by simp
  obtain res t' where res: "tracker_log X clock t (JObject m) None None observed = (res, t')" by force
  show ?thesis
  proof (cases res)
    case (Inl f)
    with res tracker_log_kept [OF t, of clock "JObject m" None None observed] show ?thesis by (simp add: kept_def)
  next
    case (Inr r)
    with res have "transact X clock t (prepare_log X t m None None (or_now clock observed)) = (Inr r, t')"
      by (auto simp: tracker_log_def as_metrics_def result_iffs split: sum.splits)
    then obtain r0 b where "prepare_log X t m None None (or_now clock observed)
          \<lparr>bt_next = tr_state t, bt_events = [], bt_alerts = []\<rparr> = Inr (r0, b)"
      and r: "tr_state t' = bt_next b" "\<And>st m st'. log_committed st m r st' = log_committed st m (r0\<lparr>lr_committed := length (bt_events b)\<rparr>) st'"
      by (rule transact_Inr) blast
    from prepare_log_committed [OF _ _ this(1)] t
    have "log_committed (tr_state t) m (r0\<lparr>lr_committed := length (bt_events b)\<rparr>) (tr_state t')"
      by (simp add: tracker_ok_def r(1))
    with Inr res show ?thesis by (simp add: r(2))
  qed
qed

theorem log_commits_witness:
  "(case tracker_log demo_lib 9 (tracker_run demo_lib demo_tracker []) (JObject [(''loss'', JNumber ''1'')]) None None None of
      (Inl f, t') \<Rightarrow> t' = tracker_run demo_lib demo_tracker []
    | (Inr r, t') \<Rightarrow> log_committed (tr_state (tracker_run demo_lib demo_tracker [])) [(''loss'', JNumber ''1'')] r (tr_state t'))"
  by (rule log_commits [OF demo_new demo_tracker_new refl])

end
