(* ===== verification/Chart_Index.thy ===== *)
theory Chart_Index
  imports Store_Reads
begin

text \<open>
  The index of numeric fields (\<open>rust/rvx-engine/src/chart_index.rs\<close>), written beside every
  snapshot: which numeric fields a source has reported, their values per snapshot, the axes, and for
  each observation the subtrees that were not searched.

  \<^item> \<open>chart_index\<close> has one component per table, ordered by its primary key; \<open>sql_insert\<close> is an
    \<open>INSERT\<close> with the key's uniqueness.
  \<^item> \<open>discover\<close> carries the Rust function's four \<open>&mut\<close> arguments in a record.
  \<^item> \<open>json_pointer\<close> is \<open>serde_json::Value::pointer\<close>. The JSON text of the excluded paths goes through
    \<open>chart_ext\<close>.
\<close>

abbreviation (input) MAX_SOURCE_FIELDS :: nat where "MAX_SOURCE_FIELDS \<equiv> 4096"
abbreviation (input) MAX_OBJECT_FIELDS :: nat where "MAX_OBJECT_FIELDS \<equiv> 256"
abbreviation (input) MAX_DISCOVERY_NODES :: nat where "MAX_DISCOVERY_NODES \<equiv> 8192"

record chart_ext =
  strings_to_text :: "string list \<Rightarrow> string + string"
  strings_of_text :: "string \<Rightarrow> string + string list"

section \<open>Pointers\<close>

text \<open>\<open>str::split\<close> at a character, and \<open>str::replace\<close> of a pattern of two characters.\<close>

fun split_at_char :: "char \<Rightarrow> string \<Rightarrow> string list" where
  "split_at_char c [] = [[]]"
| "split_at_char c (x # s) =
     (if x = c then [] # split_at_char c s
      else case split_at_char c s of [] \<Rightarrow> [[x]] | w # ws \<Rightarrow> (x # w) # ws)"

fun replace_pair :: "char \<Rightarrow> char \<Rightarrow> char \<Rightarrow> string \<Rightarrow> string" where
  "replace_pair a b r (x # y # s) =
     (if x = a \<and> y = b then r # replace_pair a b r s else x # replace_pair a b r (y # s))"
| "replace_pair a b r s = s"

definition pointer_token :: "string \<Rightarrow> string" where
  "pointer_token t = replace_pair CHR ''~'' CHR ''0'' CHR ''~'' (replace_pair CHR ''~'' CHR ''1'' CHR ''/'' t)"

definition pointer_tokens :: "string \<Rightarrow> string list" where
  "pointer_tokens path = map pointer_token (tl (split_at_char CHR ''/'' path))"

definition digits_value :: "string \<Rightarrow> nat" where
  "digits_value s = foldl (\<lambda>n c. 10 * n + (byte c - 48)) 0 s"

definition parse_index :: "string \<Rightarrow> nat option" where
  "parse_index s =
     (if starts_with ''+'' s \<or> (starts_with ''0'' s \<and> length s \<noteq> 1) then None
      else if s \<noteq> [] \<and> list_all is_ascii_digit s \<and> digits_value s \<le> u64_max then Some (digits_value s) else None)"

fun pointer_walk :: "json \<Rightarrow> string list \<Rightarrow> json option" where
  "pointer_walk v [] = Some v"
| "pointer_walk v (t # ts) =
     (case v of
        JObject kvs \<Rightarrow> (case map_of kvs t of None \<Rightarrow> None | Some w \<Rightarrow> pointer_walk w ts)
      | JArray vs \<Rightarrow>
          (case parse_index t of
             None \<Rightarrow> None
           | Some i \<Rightarrow> (case list_get vs i of None \<Rightarrow> None | Some w \<Rightarrow> pointer_walk w ts))
      | _ \<Rightarrow> None)"

definition json_pointer :: "json \<Rightarrow> string \<Rightarrow> json option" where
  "json_pointer v path =
     (if path = [] then Some v
      else if \<not> starts_with ''/'' path then None
      else pointer_walk v (pointer_tokens path))"

text \<open>The finite number at a path.\<close>

definition finite_number :: "number_ext \<Rightarrow> json \<Rightarrow> f64 option" where
  "finite_number N v = (case as_f64 N v of Some x \<Rightarrow> if f64_is_finite x then Some x else None | None \<Rightarrow> None)"

definition numeric_at :: "number_ext \<Rightarrow> json \<Rightarrow> string \<Rightarrow> f64 option" where
  "numeric_at N v path = Option.bind (json_pointer v path) (finite_number N)"

section \<open>Discovery\<close>

record discovery =
  ds_fields :: "(string, f64) bmap"
  ds_nodes :: nat
  ds_truncated :: bool
  ds_exclusions :: "string list"

definition parent_path :: "string \<Rightarrow> string" where
  "parent_path path = rev (tl (dropWhile (\<lambda>c. c \<noteq> CHR ''/'') (rev path)))"

definition exclude_path :: "string \<Rightarrow> discovery \<Rightarrow> discovery" where
  "exclude_path path st = st\<lparr>ds_exclusions := insort_insert path (ds_exclusions st)\<rparr>"

definition exclude_truncated :: "string \<Rightarrow> discovery \<Rightarrow> discovery" where
  "exclude_truncated path st = exclude_path path (st\<lparr>ds_truncated := True\<rparr>)"

definition discover_number :: "number_ext \<Rightarrow> string \<Rightarrow> json \<Rightarrow> discovery \<Rightarrow> discovery" where
  "discover_number N path v st =
     (if MAX_SOURCE_FIELDS \<le> length (ds_fields st) then exclude_truncated path st
      else case finite_number N v of
          Some x \<Rightarrow> st\<lparr>ds_fields := bm_insert path x (ds_fields st)\<rparr>
        | None \<Rightarrow> st)"

function discover :: "number_ext \<Rightarrow> string \<Rightarrow> json \<Rightarrow> discovery \<Rightarrow> discovery"
  and discover_members :: "number_ext \<Rightarrow> string \<Rightarrow> (string \<times> json) list \<Rightarrow> discovery \<Rightarrow> discovery" where
  "discover N path v st =
     (let st = st\<lparr>ds_nodes := ds_nodes st + 1\<rparr> in
      if MAX_DISCOVERY_NODES < ds_nodes st \<or> 4096 < length path
      then exclude_truncated (parent_path path) st
      else case v of
          JObject kvs \<Rightarrow>
            if length kvs \<le> MAX_OBJECT_FIELDS then discover_members N path kvs st
            else exclude_truncated path st
        | JArray _ \<Rightarrow> exclude_path path st
        | JNumber _ \<Rightarrow> discover_number N path v st
        | _ \<Rightarrow> st)"
| "discover_members N path [] st = st"
| "discover_members N path ((key, v) # kvs) st =
     (if MAX_DISCOVERY_NODES \<le> ds_nodes st then exclude_truncated path st
      else discover_members N path kvs (discover N (path @ ''/'' @ escape_key key) v st))"
  by pat_completeness auto
termination
  by (relation "measure (case_sum (\<lambda>(N, path, v, st). 2 * size v)
      (\<lambda>(N, path, kvs, st). Suc (2 * size_list (size_prod (\<lambda>_. 0) size) kvs)))")
    (auto simp: prod.size_gen_o_map)

declare discover.simps [simp del]

definition initial_discovery :: discovery where
  "initial_discovery = \<lparr>ds_fields = [], ds_nodes = 0, ds_truncated = False, ds_exclusions = []\<rparr>"

section \<open>Tables\<close>

record run_summary =
  cr_snapshot_count :: nat
  cr_first_observed_at_ns :: int
  cr_last_observed_at_ns :: int
  cr_truncated :: bool

record chart_index =
  ci_fields :: "(string \<times> string \<times> string, int) bmap"
  ci_values :: "(int \<times> string, f64) bmap"
  ci_axes :: "(int \<times> string, int) bmap"
  ci_observations :: "(int, bool \<times> string) bmap"
  ci_runs :: "(string, run_summary) bmap"
  ci_source_axes :: "(string \<times> string \<times> string, unit) bmap"
  ci_last_id :: int

definition empty_chart_index :: chart_index where
  "empty_chart_index =
     \<lparr>ci_fields = [], ci_values = [], ci_axes = [], ci_observations = [], ci_runs = [],
      ci_source_axes = [], ci_last_id = 0\<rparr>"

definition sql_insert :: "'k::linorder \<Rightarrow> 'v \<Rightarrow> ('k, 'v) bmap \<Rightarrow> engine_error + ('k, 'v) bmap" where
  "sql_insert k v m =
     rbind (ensure (\<not> bm_contains m k) (Sqlite ''UNIQUE constraint failed'')) (\<lambda>_. Inr (bm_insert k v m))"

definition known_fields :: "chart_index \<Rightarrow> string \<Rightarrow> string \<Rightarrow> string list" where
  "known_fields ci run source =
     bset_of_list (map (\<lambda>((r, s, path), _). path) (filter (\<lambda>((r, s, path), _). r = run \<and> s = source) (ci_fields ci)))"

text \<open>The loop over the discovered paths: a new field while the source has room, else an exclusion.\<close>

record field_scan =
  fs_known :: "string list"
  fs_fields :: "(string \<times> string \<times> string, int) bmap"
  fs_truncated :: bool
  fs_exclusions :: "string list"

definition add_field :: "int \<Rightarrow> string \<Rightarrow> string \<Rightarrow> field_scan \<Rightarrow> string \<Rightarrow> engine_error + field_scan" where
  "add_field key run source st path =
     (if path \<in> set (fs_known st) then Inr st
      else if length (fs_known st) = MAX_SOURCE_FIELDS
      then Inr (st\<lparr>fs_truncated := True, fs_exclusions := insort_insert path (fs_exclusions st)\<rparr>)
      else rbind (sql_insert (run, source, path) key (fs_fields st)) (\<lambda>fields.
           Inr (st\<lparr>fs_fields := fields, fs_known := insort_insert path (fs_known st)\<rparr>)))"

definition add_value ::
  "number_ext \<Rightarrow> int \<Rightarrow> json \<Rightarrow> (int \<times> string, f64) bmap \<Rightarrow> string \<Rightarrow> engine_error + (int \<times> string, f64) bmap" where
  "add_value N key state values path =
     (case numeric_at N state path of
        Some x \<Rightarrow> sql_insert (key, path) x values
      | None \<Rightarrow> Inr values)"

text \<open>The loop over the axes: each is stored; the first 256 names of a source are listed.\<close>

record axis_scan =
  xs_axes :: "(int \<times> string, int) bmap"
  xs_source_axes :: "(string \<times> string \<times> string, unit) bmap"
  xs_known :: "string list"
  xs_truncated :: bool

definition add_axis :: "int \<Rightarrow> string \<Rightarrow> string \<Rightarrow> axis_scan \<Rightarrow> string \<times> int \<Rightarrow> engine_error + axis_scan" where
  "add_axis key run source st = (\<lambda>(name, v).
     if name = ''wall_time'' \<or> name = ''elapsed'' then Inr st
     else rbind (sql_insert (key, name) v (xs_axes st)) (\<lambda>axes.
       let st = st\<lparr>xs_axes := axes\<rparr> in
       if name \<in> set (xs_known st) then Inr st
       else if length (xs_known st) < 256
       then rbind (sql_insert (run, source, name) () (xs_source_axes st)) (\<lambda>sa.
            Inr (st\<lparr>xs_source_axes := sa, xs_known := insort_insert name (xs_known st)\<rparr>))
       else Inr (st\<lparr>xs_truncated := True\<rparr>)))"

definition known_axes :: "chart_index \<Rightarrow> string \<Rightarrow> string \<Rightarrow> string list" where
  "known_axes ci run source =
     bset_of_list (map (\<lambda>((r, s, name), _). name) (filter (\<lambda>((r, s, name), _). r = run \<and> s = source) (ci_source_axes ci)))"

definition all_excluded :: string where
  "all_excluded = [CHR ''['', CHR 34, CHR 34, CHR '']'']"

definition encode_exclusions :: "chart_ext \<Rightarrow> string list \<Rightarrow> bool \<Rightarrow> engine_error + bool \<times> string" where
  "encode_exclusions C exclusions truncated =
     rbind (map_err Json (strings_to_text C exclusions)) (\<lambda>text'.
     Inr (if 16384 < length text' then (True, all_excluded) else (truncated, text')))"

definition put_run :: "string \<Rightarrow> int \<Rightarrow> bool \<Rightarrow> (string, run_summary) bmap \<Rightarrow> (string, run_summary) bmap" where
  "put_run run observed truncated runs =
     bm_insert run
       (case bm_get runs run of
          None \<Rightarrow> \<lparr>cr_snapshot_count = 1, cr_first_observed_at_ns = observed,
                   cr_last_observed_at_ns = observed, cr_truncated = truncated\<rparr>
        | Some r \<Rightarrow> \<lparr>cr_snapshot_count = cr_snapshot_count r + 1,
                     cr_first_observed_at_ns = min (cr_first_observed_at_ns r) observed,
                     cr_last_observed_at_ns = max (cr_last_observed_at_ns r) observed,
                     cr_truncated = (cr_truncated r \<or> truncated)\<rparr>) runs"

definition chart_insert :: "serde_ext \<Rightarrow> chart_ext \<Rightarrow> chart_index projection" where
  "chart_insert X C key run source snapshot ci =
     rbind (map_err Protocol (is_tracker_event X (s_state snapshot))) (\<lambda>event.
     if event then Inr (ci\<lparr>ci_last_id := key\<rparr>)
     else
       let N = number_ext.truncate X;
           ds = discover N [] (s_state snapshot) initial_discovery
       in rbind (try_fold (add_field key run source)
                  \<lparr>fs_known = known_fields ci run source, fs_fields = ci_fields ci,
                   fs_truncated = ds_truncated ds, fs_exclusions = ds_exclusions ds\<rparr>
                  (bm_keys (ds_fields ds))) (\<lambda>fs.
          rbind (try_fold (add_value N key (s_state snapshot)) (ci_values ci) (fs_known fs)) (\<lambda>values.
          rbind (try_fold (add_axis key run source)
                  \<lparr>xs_axes = ci_axes ci, xs_source_axes = ci_source_axes ci,
                   xs_known = known_axes ci run source, xs_truncated = fs_truncated fs\<rparr>
                  (s_axes snapshot)) (\<lambda>xs.
          rbind (encode_exclusions C (fs_exclusions fs) (xs_truncated xs)) (\<lambda>(truncated, text').
          rbind (sql_insert key (truncated, text') (ci_observations ci)) (\<lambda>observations.
          Inr \<lparr>ci_fields = fs_fields fs, ci_values = values, ci_axes = xs_axes xs,
               ci_observations = observations,
               ci_runs = put_run run (s_observed_at_ns snapshot) truncated (ci_runs ci),
               ci_source_axes = xs_source_axes xs, ci_last_id = key\<rparr>))))))"

end
