(* ===== verification/Chart_Cover.thy ===== *)
theory Chart_Cover
  imports Chart_Index
begin

text \<open>
  What the index of numeric fields covers: every finite number of a state is either among the
  discovered fields or below a path that the discovery excluded.
\<close>

section \<open>Canonical pointers\<close>

text \<open>The pointer of a list of keys, as \<open>discover\<close> builds it.\<close>

fun canon :: "string list \<Rightarrow> string" where
  "canon [] = []"
| "canon (t # ts) = ''/'' @ escape_key t @ canon ts"

lemma canon_append: "canon (ts @ us) = canon ts @ canon us"
  by (induction ts) simp_all

lemma replace_pair_Cons: "x \<noteq> a \<Longrightarrow> replace_pair a b r (x # s) = x # replace_pair a b r s"
  by (cases s) simp_all

lemma unescape_slash:
  "replace_pair CHR ''~'' CHR ''1'' CHR ''/'' (escape_key t) = str_replace CHR ''~'' ''~0'' t"
  by (induction t) (simp_all add: replace_pair_Cons)

lemma unescape_tilde: "replace_pair CHR ''~'' CHR ''0'' CHR ''~'' (str_replace CHR ''~'' ''~0'' t) = t"
  by (induction t) (simp_all add: replace_pair_Cons)

lemma pointer_token_escape [simp]: "pointer_token (escape_key t) = t"
  by (simp add: pointer_token_def unescape_slash unescape_tilde)

lemma escape_no_slash: "CHR ''/'' \<notin> set (escape_key t)"
  by (induction t) auto

lemma split_at_char_nonempty [simp]: "split_at_char c s \<noteq> []"
  by (induction s) (auto split: list.split)

lemma split_at_char_append:
  "c \<notin> set s \<Longrightarrow> split_at_char c (s @ r) = (case split_at_char c r of [] \<Rightarrow> [s] | w # ws \<Rightarrow> (s @ w) # ws)"
  by (induction s) (auto split: list.splits)

lemma split_canon: "split_at_char CHR ''/'' (canon ts) = [] # map escape_key ts"
  by (induction ts) (simp_all add: split_at_char_append [OF escape_no_slash])

lemma pointer_tokens_canon [simp]: "pointer_tokens (canon ts) = ts"
  by (simp add: pointer_tokens_def split_canon comp_def)

lemma json_pointer_canon: "json_pointer v (canon ts) = pointer_walk v ts"
proof (cases ts)
  case (Cons t us)
  have "json_pointer v (canon ts) = pointer_walk v (pointer_tokens (canon ts))"
    unfolding json_pointer_def by (simp add: Cons starts_with_def)
  then show ?thesis by (simp only: pointer_tokens_canon)
qed (simp add: json_pointer_def)

lemma parent_path_canon: "parent_path (canon (us @ [u])) = canon us"
proof -
  have "rev (canon (us @ [u])) = rev (escape_key u) @ CHR ''/'' # rev (canon us)"
    by (simp add: canon_append)
  moreover have "dropWhile (\<lambda>c. c \<noteq> CHR ''/'') (rev (escape_key u) @ z) = dropWhile (\<lambda>c. c \<noteq> CHR ''/'') z" for z
    by (rule dropWhile_append2) (use escape_no_slash [of u] in auto)
  ultimately show ?thesis by (simp add: parent_path_def)
qed

section \<open>Coverage\<close>

lemma strip_prefix_Some: "strip_prefix p s = Some r \<longleftrightarrow> s = p @ r"
  by (auto simp: strip_prefix_def starts_with_def) (metis append_take_drop_id)

lemma starts_with_slash: "starts_with ''/'' s \<longleftrightarrow> (\<exists>r. s = ''/'' @ r)"
  by (cases s) (auto simp: starts_with_def)

lemma excludes_iff:
  "excludes ex path \<longleftrightarrow> (\<exists>p \<in> set ex. path = p \<or> (\<exists>r. path = p @ ''/'' @ r))"
proof -
  have "(case strip_prefix p path of None \<Rightarrow> False | Some s \<Rightarrow> starts_with ''/'' s) \<longleftrightarrow> (\<exists>r. path = p @ ''/'' @ r)" for p
    using strip_prefix_Some [of p path] strip_prefix_Some [of p "p @ r" r for r]
    by (cases "strip_prefix p path") (auto simp: starts_with_slash)
  then show ?thesis by (simp add: excludes_def list_ex_iff)
qed

lemma excludes_canon: "canon us \<in> set ex \<Longrightarrow> excludes ex (canon (us @ ts))"
  by (cases ts) (auto simp: excludes_iff canon_append)

definition covered :: "discovery \<Rightarrow> string \<Rightarrow> bool" where
  "covered st path \<longleftrightarrow> bm_contains (ds_fields st) path \<or> excludes (ds_exclusions st) path"

lemma covered_exclude [simp]:
  "covered (exclude_path p st) path \<longleftrightarrow> covered st path \<or> excludes [p] path"
  "covered (exclude_truncated p st) path \<longleftrightarrow> covered st path \<or> excludes [p] path"
  by (auto simp: covered_def exclude_path_def exclude_truncated_def excludes_iff set_insort_insert)

lemma covered_nodes [simp]: "covered (st\<lparr>ds_nodes := n\<rparr>) path = covered st path"
  by (simp add: covered_def)

lemma covered_number: "covered st path \<Longrightarrow> covered (discover_number N p v st) path"
  by (auto simp: discover_number_def covered_def bm_contains_iff set_bm_insert exclude_truncated_def
      exclude_path_def excludes_iff set_insort_insert split: option.split)

lemma covered_mono:
  "covered st path \<Longrightarrow> covered (discover N p v st) path"
  "covered st path \<Longrightarrow> covered (discover_members N p kvs st) path"
  by (induction N p v st and N p kvs st rule: discover_discover_members.induct)
    (simp_all add: discover.simps Let_def covered_number split: json.split)

text \<open>A finite number inside a value is covered once the value has been searched.\<close>

lemma excludes_below: "excludes [canon us] (canon (us @ ts))"
  by (rule excludes_canon) simp

lemma excludes_parent: "excludes [parent_path (canon us)] (canon (us @ ts))"
proof (cases us rule: rev_cases)
  case Nil
  then show ?thesis using excludes_below [of "[]" ts] by (simp add: parent_path_def)
next
  case (snoc vs u)
  then show ?thesis using excludes_below [of vs "u # ts"] by (simp add: parent_path_canon)
qed

lemma discover_number_covers: "finite_number N v \<noteq> None \<Longrightarrow> covered (discover_number N path v st) path"
  by (auto simp: discover_number_def covered_def bm_contains_iff set_bm_insert exclude_truncated_def
      exclude_path_def excludes_iff set_insort_insert)

lemma pointer_walk_leaf:
  "json_children v = [] \<Longrightarrow> (\<forall>kvs. v \<noteq> JObject kvs) \<Longrightarrow> (\<forall>vs. v \<noteq> JArray vs) \<Longrightarrow> pointer_walk v ts = Some w
   \<Longrightarrow> ts = [] \<and> w = v"
  by (cases ts; cases v) simp_all

lemma discover_covers:
  "path = canon us \<Longrightarrow> pointer_walk v ts = Some w \<Longrightarrow> finite_number N w \<noteq> None
   \<Longrightarrow> covered (discover N path v st) (canon (us @ ts))"
  "path = canon us \<Longrightarrow> map_of kvs t = Some v' \<Longrightarrow> pointer_walk v' ts = Some w \<Longrightarrow> finite_number N w \<noteq> None
   \<Longrightarrow> covered (discover_members N path kvs st) (canon (us @ t # ts))"
proof (induction N path v st and N path kvs st arbitrary: us ts and us t v' ts rule: discover_discover_members.induct)
  case (1 N path v st)
  let ?st = "st\<lparr>ds_nodes := ds_nodes st + 1\<rparr>"
  show ?case
  proof (cases "MAX_DISCOVERY_NODES < ds_nodes ?st \<or> 4096 < length path")
    case True
    then show ?thesis using excludes_parent by (simp add: discover.simps Let_def 1(2))
  next
    case False
    show ?thesis
    proof (cases v)
      case (JNumber n)
      then have "ts = []" "w = v" using pointer_walk_leaf [OF _ _ _ 1(3)] by simp_all
      then show ?thesis
        using False JNumber 1(2,4) discover_number_covers [of N v path ?st] by (simp add: discover.simps Let_def)
    next
      case (JArray vs)
      then show ?thesis using False excludes_below by (simp add: discover.simps Let_def 1(2))
    next
      case (JObject kvs)
      with 1(3,4) obtain t us' v' where ts: "ts = t # us'" "map_of kvs t = Some v'" "pointer_walk v' us' = Some w"
        by (cases ts) (auto simp: finite_number_def split: option.splits)
      show ?thesis
        using False JObject ts excludes_below 1(1) [OF refl False JObject _ 1(2) ts(2,3) 1(4)]
        by (simp add: discover.simps Let_def 1(2))
    qed (use pointer_walk_leaf [OF _ _ _ 1(3)] 1(4) in \<open>simp_all add: finite_number_def\<close>)
  qed
next
  case (3 N path key v kvs st)
  show ?case
  proof (cases "MAX_DISCOVERY_NODES \<le> ds_nodes st")
    case True
    then show ?thesis using excludes_below by (simp add: 3(3))
  next
    case False
    have key: "path @ ''/'' @ escape_key key = canon (us @ [key])" by (simp add: 3(3) canon_append)
    show ?thesis
    proof (cases "key = t")
      case True
      then have "v' = v" using 3(4) by simp
      with 3(1) [OF False key _ 3(6)] 3(5) True
      have "covered (discover N (path @ ''/'' @ escape_key key) v st) (canon (us @ t # ts))" by simp
      then show ?thesis using False covered_mono(2) by simp
    next
      case ne: False
      then show ?thesis using False 3(2) [OF False 3(3) _ 3(5,6)] 3(4) by simp
    qed
  qed
qed simp

text \<open>All the numbers of a state.\<close>

lemma discovery_complete:
  assumes "numeric_at N v (canon ts) \<noteq> None"
  shows "covered (discover N [] v initial_discovery) (canon ts)"
proof -
  obtain w where "pointer_walk v ts = Some w" "finite_number N w \<noteq> None"
    using assms by (cases "pointer_walk v ts") (auto simp: numeric_at_def json_pointer_canon)
  from discover_covers(1) [of "[]" "[]", OF _ this] show ?thesis by simp
qed

text \<open>The discovered fields are canonical pointers.\<close>

lemma discover_canonical:
  "path \<in> range canon \<Longrightarrow> set (bm_keys (ds_fields st)) \<subseteq> range canon
   \<Longrightarrow> set (bm_keys (ds_fields (discover N path v st))) \<subseteq> range canon"
  "path \<in> range canon \<Longrightarrow> set (bm_keys (ds_fields st)) \<subseteq> range canon
   \<Longrightarrow> set (bm_keys (ds_fields (discover_members N path kvs st))) \<subseteq> range canon"
proof (induction N path v st and N path kvs st rule: discover_discover_members.induct)
  case (1 N path v st)
  then show ?case
    by (auto simp: discover.simps Let_def discover_number_def exclude_truncated_def exclude_path_def
        bm_keys_def set_bm_insert split: json.split option.split)
next
  case (3 N path key v kvs st)
  have "path @ ''/'' @ escape_key key \<in> range canon"
  proof -
    obtain us where "path = canon us" using 3(3) by blast
    then have "path @ ''/'' @ escape_key key = canon (us @ [key])" by (simp add: canon_append)
    then show ?thesis by blast
  qed
  then show ?case using 3 by (simp add: exclude_truncated_def exclude_path_def)
qed simp

end
