(* ===== verification/Store_Index.thy ===== *)
theory Store_Index
  imports Chart_Cover
begin

text \<open>
  The derived indexes stay in step with the snapshots. \<open>index_invariant\<close> is the interface between an
  index and the store that writes it: a relation between the rows and the index that appending one row
  keeps holds for every store that ingestion builds. The index of numeric fields provides it with
  \<open>chart_ok\<close>.
\<close>

section \<open>The interface\<close>

definition fresh_row :: "serde_ext \<Rightarrow> snap_row list \<Rightarrow> state_snapshot \<Rightarrow> snap_row \<Rightarrow> bool" where
  "fresh_row X rows s r \<longleftrightarrow>
     to_vec_snapshot X s = Inr (row_json r) \<and> row_observed_at_ns r = s_observed_at_ns s
     \<and> row_sequence r = s_sequence s \<and> (\<forall>q \<in> set rows. row_id q < row_id r)"

text \<open>Stores that write transactions build from an empty one with a given index.\<close>

inductive store_from :: "serde_ext \<Rightarrow> 'ix projection \<Rightarrow> 'ix \<Rightarrow> 'ix store \<Rightarrow> bool" for X project ix where
  from_empty: "store_from X project ix (empty_store ix)"
| from_batch: "store_from X project ix db \<Longrightarrow>
    store_from X project ix (snd (ingest_batch X project clock db pages))"

lemma store_from_inv: "store_from X project ix db \<Longrightarrow> store_inv db"
  by (induction rule: store_from.induct) (simp_all add: store_inv_empty store_inv_ingest_batch)

locale index_invariant =
  fixes X :: serde_ext and project :: "'ix projection" and good :: "snap_row list \<Rightarrow> 'ix \<Rightarrow> bool"
  assumes good_append: "good rows ix \<Longrightarrow> fresh_row X rows s r
      \<Longrightarrow> project (row_id r) (row_run_id r) (row_source_id r) s ix = Inr ix' \<Longrightarrow> good (rows @ [r]) ix'"
begin

definition good_store :: "'ix store \<Rightarrow> bool" where
  "good_store db \<longleftrightarrow> good (st_rows db) (st_index db) \<and> (\<forall>r \<in> set (st_rows db). row_id r \<le> st_last_id db)"

lemma good_snapshot:
  assumes good: "good_store db"
    and ing: "ingest_snapshot X project clock source ses c (acc, db) (i, s) = Inr (acc', db')"
  shows "good_store db'"
proof (cases "find_row db (src_id source) ses (s_sequence s)")
  case (Some r)
  with ing good show ?thesis by (auto simp: ingest_snapshot_eq result_iffs split: if_splits)
next
  case None
  then obtain enc ix where enc: "to_vec_snapshot X s = Inr enc"
      and ix: "project (st_last_id db + 1) (src_run_id source) (src_id source) s (st_index db) = Inr ix"
      and rows: "st_rows db' = st_rows db @ [\<lparr>row_id = st_last_id db + 1, row_run_id = src_run_id source,
        row_source_id = src_id source, row_session_id = ses, row_sequence = s_sequence s,
        row_observed_at_ns = s_observed_at_ns s, row_ingested_at_ns = clock i, row_json = enc\<rparr>]"
        "st_index db' = ix" "st_last_id db' = st_last_id db + 1"
    using ing by (auto simp: ingest_snapshot_eq insert_row_def result_iffs Let_def split: if_splits)
  let ?r = "\<lparr>row_id = st_last_id db + 1, row_run_id = src_run_id source,
        row_source_id = src_id source, row_session_id = ses, row_sequence = s_sequence s,
        row_observed_at_ns = s_observed_at_ns s, row_ingested_at_ns = clock i, row_json = enc\<rparr>"
  have "fresh_row X (st_rows db) s ?r"
    using good enc by (force simp: fresh_row_def good_store_def)
  from good_append [OF _ this, of "st_index db" ix] good ix have "good (st_rows db') (st_index db')"
    by (simp add: rows good_store_def)
  then show ?thesis using good by (force simp: good_store_def rows)
qed

lemma good_page:
  assumes "good_store db" and "ingest_page X project clock db source descriptor page = Inr (k, db')"
  shows "good_store db'"
proof -
  let ?c = "cursor db (src_id source) (h_source_session_id page)"
  obtain n db1 where f: "try_fold (ingest_snapshot X project clock source (h_source_session_id page) ?c) (0, db)
        (enumerate 0 (h_snapshots page)) = Inr (n, db1)"
    and db': "st_rows db' = st_rows db1" "st_index db' = st_index db1" "st_last_id db' = st_last_id db1"
    using assms(2) by (auto simp: ingest_page_eq result_iffs Let_def put_cursor_def record_gap_def split: if_splits)
  have "good_store (snd (n, db1))"
  proof (rule try_fold_invariant [where P = "\<lambda>a. good_store (snd a)", OF _ _ f])
    fix a x a'
    assume "good_store (snd a)"
      and "ingest_snapshot X project clock source (h_source_session_id page) ?c a x = Inr a'"
    then show "good_store (snd a')" by (metis good_snapshot prod.collapse)
  qed (simp add: assms(1))
  then show ?thesis by (simp add: good_store_def db')
qed

lemma good_batch: "good_store db \<Longrightarrow> good_store (snd (ingest_batch X project clock db pages))"
proof (induction pages arbitrary: db clock)
  case (Cons entry pages)
  obtain source descriptor page where entry: "entry = (source, descriptor, page)" by (cases entry)
  show ?case
    using Cons good_page [OF Cons.prems, of "clock 0" source descriptor page]
    by (simp add: entry split: sum.split prod.split)
qed simp

text \<open>Every store that ingestion builds is in step with its index.\<close>

lemma good_reachable: "store_from X project ix db \<Longrightarrow> good [] ix \<Longrightarrow> good (st_rows db) (st_index db)"
proof -
  assume "store_from X project ix db" and "good [] ix"
  then have "good_store db"
    by (induction rule: store_from.induct) (simp_all add: good_batch, simp add: good_store_def empty_store_def)
  then show ?thesis by (simp add: good_store_def)
qed

end

section \<open>The index of numeric fields\<close>

definition chart_codec :: "chart_ext \<Rightarrow> bool" where
  "chart_codec C \<longleftrightarrow>
     (\<forall>xs text'. strings_to_text C xs = Inr text' \<longrightarrow> strings_of_text C text' = Inr xs)
     \<and> strings_of_text C all_excluded = Inr [[]]"

text \<open>A value is right, or it is missing below an exclusion that predates the field.\<close>

definition accurate :: "number_ext \<Rightarrow> chart_index \<Rightarrow> snap_row \<Rightarrow> json \<Rightarrow> string list \<Rightarrow> string \<Rightarrow> bool" where
  "accurate N ci r state ex path \<longleftrightarrow>
     bm_get (ci_values ci) (row_id r, path) = numeric_at N state path
     \<or> bm_get (ci_values ci) (row_id r, path) = None \<and> excludes ex path
        \<and> (case bm_get (ci_fields ci) (row_run_id r, row_source_id r, path) of
             None \<Rightarrow> True | Some first \<Rightarrow> row_id r < first)"

definition row_indexed :: "serde_ext \<Rightarrow> chart_ext \<Rightarrow> chart_index \<Rightarrow> snap_row \<Rightarrow> state_snapshot \<Rightarrow> bool" where
  "row_indexed X C ci r s \<longleftrightarrow>
     (case bm_get (ci_observations ci) (row_id r) of
        None \<Rightarrow> is_tracker_event X (s_state s) = Inr True
      | Some (truncated, text') \<Rightarrow>
          is_tracker_event X (s_state s) = Inr False
          \<and> (\<exists>ex. strings_of_text C text' = Inr ex
               \<and> (\<forall>ts. accurate (number_ext.truncate X) ci r (s_state s) ex (canon ts))))"

definition chart_ok :: "serde_ext \<Rightarrow> chart_ext \<Rightarrow> snap_row list \<Rightarrow> chart_index \<Rightarrow> bool" where
  "chart_ok X C rows ci \<longleftrightarrow>
     bm_sorted (ci_fields ci) \<and> bm_sorted (ci_values ci) \<and> bm_sorted (ci_observations ci)
     \<and> (\<forall>(run, source, path) \<in> set (bm_keys (ci_fields ci)). path \<in> range canon)
     \<and> fst ` set (bm_keys (ci_values ci)) \<subseteq> row_id ` set rows
     \<and> set (bm_keys (ci_observations ci)) \<subseteq> row_id ` set rows
     \<and> (\<forall>r \<in> set rows. \<exists>s. to_vec_snapshot X s = Inr (row_json r) \<and> row_indexed X C ci r s)"

lemma chart_ok_empty: "chart_ok X C [] empty_chart_index"
  by (simp add: chart_ok_def empty_chart_index_def bm_keys_def)

lemma sql_insert_Inr: "sql_insert k v m = Inr m' \<longleftrightarrow> bm_get m k = None \<and> m' = bm_insert k v m"
  by (auto simp: sql_insert_def result_iffs bm_contains_def)

text \<open>The loop over the discovered fields.\<close>

definition fields_grow :: "int \<Rightarrow> string \<Rightarrow> string \<Rightarrow> field_scan \<Rightarrow> string list \<Rightarrow> field_scan \<Rightarrow> bool" where
  "fields_grow key run source a ps b \<longleftrightarrow>
     bm_sorted (fs_fields b)
     \<and> (\<forall>p. p \<in> set (fs_known b) \<longleftrightarrow> bm_get (fs_fields b) (run, source, p) \<noteq> None)
     \<and> (\<forall>k. bm_get (fs_fields b) k = bm_get (fs_fields a) k
            \<or> bm_get (fs_fields a) k = None \<and> bm_get (fs_fields b) k = Some key
               \<and> k \<in> (\<lambda>p. (run, source, p)) ` set ps)
     \<and> set (fs_exclusions a) \<subseteq> set (fs_exclusions b)
     \<and> (\<forall>p \<in> set ps. p \<in> set (fs_known b) \<union> set (fs_exclusions b))"

lemma add_field_grows:
  assumes "bm_sorted (fs_fields a)"
    and "\<forall>p. p \<in> set (fs_known a) \<longleftrightarrow> bm_get (fs_fields a) (run, source, p) \<noteq> None"
    and "add_field key run source a p = Inr b"
  shows "fields_grow key run source a [p] b"
  using assms
  by (auto simp: add_field_def fields_grow_def rbind_eq_Inr sql_insert_Inr bm_sorted_insert bm_get_insert
      set_insort_insert split: if_splits)

lemma fields_grow_trans:
  assumes ab: "fields_grow key run source a ps b" and bc: "fields_grow key run source b qs c"
  shows "fields_grow key run source a (ps @ qs) c"
proof -
  have get: "bm_get (fs_fields c) k = bm_get (fs_fields a) k
      \<or> bm_get (fs_fields a) k = None \<and> bm_get (fs_fields c) k = Some key
         \<and> k \<in> (\<lambda>p. (run, source, p)) ` set (ps @ qs)" for k
  proof -
    have "bm_get (fs_fields b) k = bm_get (fs_fields a) k
        \<or> bm_get (fs_fields a) k = None \<and> bm_get (fs_fields b) k = Some key
           \<and> k \<in> (\<lambda>p. (run, source, p)) ` set ps"
      "bm_get (fs_fields c) k = bm_get (fs_fields b) k
        \<or> bm_get (fs_fields b) k = None \<and> bm_get (fs_fields c) k = Some key
           \<and> k \<in> (\<lambda>p. (run, source, p)) ` set qs"
      using ab bc unfolding fields_grow_def by blast+
    then show ?thesis by auto
  qed
  have "p \<in> set (fs_known c)" if "p \<in> set (fs_known b)" for p
  proof -
    have "bm_get (fs_fields b) (run, source, p) \<noteq> None" using that ab unfolding fields_grow_def by blast
    then have "bm_get (fs_fields c) (run, source, p) \<noteq> None" using bc unfolding fields_grow_def by metis
    then show ?thesis using bc unfolding fields_grow_def by blast
  qed
  moreover have "set (fs_exclusions b) \<subseteq> set (fs_exclusions c)" using bc unfolding fields_grow_def by blast
  ultimately have "p \<in> set (fs_known c) \<union> set (fs_exclusions c)" if "p \<in> set (ps @ qs)" for p
    using that ab bc unfolding fields_grow_def by (metis UnE UnI1 UnI2 set_append subsetD)
  with get ab bc show ?thesis unfolding fields_grow_def by (intro conjI) blast+
qed

lemma add_fields_grow:
  assumes "bm_sorted (fs_fields a)"
    and "\<forall>p. p \<in> set (fs_known a) \<longleftrightarrow> bm_get (fs_fields a) (run, source, p) \<noteq> None"
    and "try_fold (add_field key run source) a ps = Inr b"
  shows "fields_grow key run source a ps b"
  using assms
proof (induction ps arbitrary: a)
  case Nil
  then show ?case by (simp add: fields_grow_def)
next
  case (Cons p ps)
  then obtain a1 where a1: "add_field key run source a p = Inr a1"
    and rest: "try_fold (add_field key run source) a1 ps = Inr b"
    by (auto simp: rbind_eq_Inr)
  note one = add_field_grows [OF Cons.prems(1,2) a1]
  then have "bm_sorted (fs_fields a1)"
      "\<forall>p. p \<in> set (fs_known a1) \<longleftrightarrow> bm_get (fs_fields a1) (run, source, p) \<noteq> None"
    unfolding fields_grow_def by blast+
  with one Cons.IH [OF _ _ rest] show ?case using fields_grow_trans [of key run source a "[p]" a1 ps b] by simp
qed

text \<open>The loop over the values.\<close>

lemma add_values:
  assumes "try_fold (add_value N key state) vals ps = Inr vals'" and "bm_sorted vals"
  shows "bm_sorted vals' \<and> (\<forall>i p. bm_get vals' (i, p)
    = (if i = key \<and> p \<in> set ps \<and> numeric_at N state p \<noteq> None then numeric_at N state p else bm_get vals (i, p)))"
  using assms
proof (induction ps arbitrary: vals)
  case (Cons p ps)
  then obtain vals1 where one: "add_value N key state vals p = Inr vals1"
    and rest: "try_fold (add_value N key state) vals1 ps = Inr vals'"
    by (auto simp: rbind_eq_Inr)
  have vals1: "bm_sorted vals1" "bm_get vals1 (i, q)
      = (if i = key \<and> q = p \<and> numeric_at N state q \<noteq> None then numeric_at N state q else bm_get vals (i, q))" for i q
    using one Cons.prems(2)
    by (auto simp: add_value_def sql_insert_Inr bm_sorted_insert bm_get_insert split: option.splits)
  from Cons.IH [OF rest vals1(1)] show ?case by (auto simp: vals1(2))
qed simp

lemma known_fields_iff:
  "p \<in> set (known_fields ci run source) \<longleftrightarrow> bm_get (ci_fields ci) (run, source, p) \<noteq> None"
  unfolding known_fields_def bm_get_def by (force simp: image_iff map_of_eq_None_iff)

lemma excludes_mono: "excludes ex path \<Longrightarrow> set ex \<subseteq> set ex' \<Longrightarrow> excludes ex' path"
  by (auto simp: excludes_iff)

lemma excludes_root: "excludes [[]] (canon ts)"
  using excludes_below [of "[]" ts] by simp

lemma encode_exclusions_covers:
  assumes "chart_codec C" and "encode_exclusions C ex tr = Inr (tr', text')"
  obtains ex' where "strings_of_text C text' = Inr ex'"
    and "\<And>ts. excludes ex (canon ts) \<Longrightarrow> excludes ex' (canon ts)"
proof (cases "text' = all_excluded")
  case True
  then show thesis using assms(1) excludes_root by (intro that [of "[[]]"]) (auto simp: chart_codec_def)
next
  case False
  then have "strings_of_text C text' = Inr ex"
    using assms by (auto simp: encode_exclusions_def result_iffs chart_codec_def split: if_splits)
  then show thesis by (rule that) simp
qed

text \<open>What one insertion does: the old observations keep their entries, the new one gets its own.\<close>

lemma chart_insert_tables:
  assumes "chart_insert X C key run source s ci = Inr ci'" and "is_tracker_event X (s_state s) = Inr False"
    and "bm_sorted (ci_fields ci)" and "bm_sorted (ci_values ci)"
  obtains fs truncated text' where
    "fields_grow key run source \<lparr>fs_known = known_fields ci run source, fs_fields = ci_fields ci,
        fs_truncated = ds_truncated (discover (number_ext.truncate X) [] (s_state s) initial_discovery),
        fs_exclusions = ds_exclusions (discover (number_ext.truncate X) [] (s_state s) initial_discovery)\<rparr>
      (bm_keys (ds_fields (discover (number_ext.truncate X) [] (s_state s) initial_discovery))) fs"
    and "ci_fields ci' = fs_fields fs" and "bm_sorted (ci_values ci')"
    and "\<And>i p. bm_get (ci_values ci') (i, p)
      = (if i = key \<and> p \<in> set (fs_known fs) \<and> numeric_at (number_ext.truncate X) (s_state s) p \<noteq> None
         then numeric_at (number_ext.truncate X) (s_state s) p else bm_get (ci_values ci) (i, p))"
    and "ci_observations ci' = bm_insert key (truncated, text') (ci_observations ci)"
    and "\<exists>tr. encode_exclusions C (fs_exclusions fs) tr = Inr (truncated, text')"
proof -
  let ?ds = "discover (number_ext.truncate X) [] (s_state s) initial_discovery"
  let ?fs0 = "\<lparr>fs_known = known_fields ci run source, fs_fields = ci_fields ci,
      fs_truncated = ds_truncated ?ds, fs_exclusions = ds_exclusions ?ds\<rparr>"
  from assms(1,2) obtain fs vs' tr truncated text' where
      fs: "try_fold (add_field key run source) ?fs0 (bm_keys (ds_fields ?ds)) = Inr fs"
    and vals: "try_fold (add_value (number_ext.truncate X) key (s_state s)) (ci_values ci) (fs_known fs) = Inr vs'"
    and enc: "encode_exclusions C (fs_exclusions fs) tr = Inr (truncated, text')"
    and ci': "ci_fields ci' = fs_fields fs" "ci_values ci' = vs'"
      "ci_observations ci' = bm_insert key (truncated, text') (ci_observations ci)"
    by (auto simp: chart_insert_def rbind_eq_Inr Let_def sql_insert_Inr)
  have "fields_grow key run source ?fs0 (bm_keys (ds_fields ?ds)) fs"
    by (rule add_fields_grow [OF _ _ fs]) (simp_all add: assms(3) known_fields_iff)
  with add_values [OF vals assms(4)] enc ci' show thesis by (intro that [of fs truncated text']) auto
qed

lemma chart_insert_event:
  "chart_insert X C key run source s ci = Inr ci' \<Longrightarrow> is_tracker_event X (s_state s) = Inr True
   \<Longrightarrow> ci' = ci\<lparr>ci_last_id := key\<rparr>"
  by (simp add: chart_insert_def)

lemma chart_insert_checked:
  assumes "chart_insert X C key run source s ci = Inr ci'"
  obtains ev where "is_tracker_event X (s_state s) = Inr ev"
  using assms by (auto simp: chart_insert_def rbind_eq_Inr map_err_eq_Inr)

lemma accurate_kept:
  assumes "accurate N ci r state ex path"
    and "bm_get (ci_values ci') (row_id r, path) = bm_get (ci_values ci) (row_id r, path)"
    and "bm_get (ci_fields ci') (row_run_id r, row_source_id r, path)
        = bm_get (ci_fields ci) (row_run_id r, row_source_id r, path)
      \<or> bm_get (ci_fields ci') (row_run_id r, row_source_id r, path) = Some key \<and> row_id r < key"
  shows "accurate N ci' r state ex path"
  using assms by (auto simp: accurate_def split: option.splits)

text \<open>The values of the new observation.\<close>

lemma accurate_new:
  assumes "chart_codec C" and "encode_exclusions C (fs_exclusions fs) tr = Inr (truncated, text')"
    and grow: "fields_grow key run source \<lparr>fs_known = known_fields ci run source, fs_fields = ci_fields ci,
        fs_truncated = ds_truncated ds, fs_exclusions = ds_exclusions ds\<rparr> (bm_keys (ds_fields ds)) fs"
    and ds: "ds = discover N [] state initial_discovery"
    and fields: "ci_fields ci' = fs_fields fs"
    and vals: "\<And>p. bm_get (ci_values ci') (key, p)
      = (if p \<in> set (fs_known fs) \<and> numeric_at N state p \<noteq> None then numeric_at N state p else None)"
    and r: "row_id r = key" "row_run_id r = run" "row_source_id r = source"
  shows "\<exists>ex. strings_of_text C text' = Inr ex \<and> (\<forall>ts. accurate N ci' r state ex (canon ts))"
proof -
  obtain ex where ex: "strings_of_text C text' = Inr ex"
      "\<And>ts. excludes (fs_exclusions fs) (canon ts) \<Longrightarrow> excludes ex (canon ts)"
    using encode_exclusions_covers [OF assms(1,2)] by blast
  have "accurate N ci' r state ex (canon ts)" for ts
  proof (cases "canon ts \<in> set (fs_known fs) \<or> numeric_at N state (canon ts) = None")
    case True
    then show ?thesis by (auto simp: accurate_def r vals)
  next
    case False
    then have "covered ds (canon ts)" by (simp add: ds discovery_complete)
    moreover have "canon ts \<in> set (fs_exclusions fs)" if "bm_contains (ds_fields ds) (canon ts)"
      using that grow False by (auto simp: fields_grow_def bm_contains_iff bm_keys_def)
    moreover have "set (ds_exclusions ds) \<subseteq> set (fs_exclusions fs)" using grow by (simp add: fields_grow_def)
    ultimately have "excludes (fs_exclusions fs) (canon ts)"
      by (auto simp: covered_def excludes_iff)
    moreover have "bm_get (ci_fields ci') (run, source, canon ts) = None"
      using grow False fields by (simp add: fields_grow_def)
    ultimately show ?thesis using False ex(2) by (simp add: accurate_def r vals)
  qed
  with ex(1) show ?thesis by blast
qed

lemma bm_get_None_keys: "bm_get m k = None \<longleftrightarrow> k \<notin> set (bm_keys m)"
  by (simp add: bm_get_def bm_keys_def map_of_eq_None_iff)

lemma chart_okD:
  assumes "chart_ok X C rows ci" and "fresh_row X rows s r"
  shows "bm_get (ci_observations ci) (row_id r) = None" and "bm_get (ci_values ci) (row_id r, p) = None"
proof -
  have new: "row_id r \<notin> row_id ` set rows" using assms(2) by (force simp: fresh_row_def)
  show "bm_get (ci_observations ci) (row_id r) = None"
    using assms(1) new by (auto simp: chart_ok_def bm_get_None_keys)
  show "bm_get (ci_values ci) (row_id r, p) = None"
    using assms(1) new unfolding chart_ok_def bm_get_None_keys by (metis fst_conv image_eqI subsetD)
qed

lemma chart_ok_event:
  assumes ok: "chart_ok X C rows ci" and row: "fresh_row X rows s r"
    and ev: "is_tracker_event X (s_state s) = Inr True" and ci': "ci' = ci\<lparr>ci_last_id := row_id r\<rparr>"
  shows "chart_ok X C (rows @ [r]) ci'"
proof -
  have "accurate N ci' q state ex path = accurate N ci q state ex path" for N q state ex path
    by (simp add: accurate_def ci')
  then have same: "row_indexed X C ci' q s' = row_indexed X C ci q s'" for q s'
    by (simp add: row_indexed_def ci' split: option.split prod.split)
  have "row_indexed X C ci r s" using chart_okD [OF ok row] ev by (simp add: row_indexed_def)
  moreover have "to_vec_snapshot X s = Inr (row_json r)" using row by (simp add: fresh_row_def)
  ultimately have "\<exists>s. to_vec_snapshot X s = Inr (row_json r) \<and> row_indexed X C ci r s" by blast
  then show ?thesis
    using ok unfolding chart_ok_def same by (auto simp: ci')
qed

lemma chart_ok_observation:
  assumes ok: "chart_ok X C rows ci" and row: "fresh_row X rows s r" and codec: "chart_codec C"
    and ev: "is_tracker_event X (s_state s) = Inr False"
    and ins: "chart_insert X C (row_id r) (row_run_id r) (row_source_id r) s ci = Inr ci'"
  shows "chart_ok X C (rows @ [r]) ci'"
proof -
  let ?N = "number_ext.truncate X"
  let ?ds = "discover ?N [] (s_state s) initial_discovery"
  have srt: "bm_sorted (ci_fields ci)" "bm_sorted (ci_values ci)" "bm_sorted (ci_observations ci)"
    using ok by (simp_all add: chart_ok_def)
  obtain fs truncated text' where
      grow: "fields_grow (row_id r) (row_run_id r) (row_source_id r)
        \<lparr>fs_known = known_fields ci (row_run_id r) (row_source_id r), fs_fields = ci_fields ci,
         fs_truncated = ds_truncated ?ds, fs_exclusions = ds_exclusions ?ds\<rparr> (bm_keys (ds_fields ?ds)) fs"
    and fields: "ci_fields ci' = fs_fields fs" and vsrt: "bm_sorted (ci_values ci')"
    and vals: "\<And>i p. bm_get (ci_values ci') (i, p)
        = (if i = row_id r \<and> p \<in> set (fs_known fs) \<and> numeric_at ?N (s_state s) p \<noteq> None
           then numeric_at ?N (s_state s) p else bm_get (ci_values ci) (i, p))"
    and obs: "ci_observations ci' = bm_insert (row_id r) (truncated, text') (ci_observations ci)"
    and enc: "\<exists>tr. encode_exclusions C (fs_exclusions fs) tr = Inr (truncated, text')"
    by (rule chart_insert_tables [OF ins ev srt(1,2)], rule that)
  have get_field: "bm_get (ci_fields ci') k = bm_get (ci_fields ci) k
      \<or> bm_get (ci_fields ci') k = Some (row_id r)
        \<and> k \<in> (\<lambda>p. (row_run_id r, row_source_id r, p)) ` set (bm_keys (ds_fields ?ds))" for k
    using grow fields unfolding fields_grow_def by (metis field_scan.select_convs(2))
  have canonical: "\<forall>(run, source, path) \<in> set (bm_keys (ci_fields ci')). path \<in> range canon"
  proof clarify
    fix run source path assume k: "(run, source, path) \<in> set (bm_keys (ci_fields ci'))"
    have "set (bm_keys (ds_fields ?ds)) \<subseteq> range canon"
      by (rule discover_canonical(1)) (auto simp: initial_discovery_def bm_keys_def intro: range_eqI [of _ _ "[]"])
    moreover have "(run, source, path) \<in> set (bm_keys (ci_fields ci))
        \<or> path \<in> set (bm_keys (ds_fields ?ds))"
      using k get_field [of "(run, source, path)"] bm_get_None_keys [of "ci_fields ci'" "(run, source, path)"]
        bm_get_None_keys [of "ci_fields ci" "(run, source, path)"] by auto
    ultimately show "path \<in> range canon" using ok by (auto simp: chart_ok_def)
  qed
  have old: "row_indexed X C ci' q s'" if q: "q \<in> set rows" "row_indexed X C ci q s'" for q s'
  proof -
    have lt: "row_id q < row_id r" using row q(1) by (simp add: fresh_row_def)
    have "accurate ?N ci' q (s_state s') ex path" if "accurate ?N ci q (s_state s') ex path" for ex path
      using that
    proof (rule accurate_kept [where key = "row_id r"])
      show "bm_get (ci_values ci') (row_id q, path) = bm_get (ci_values ci) (row_id q, path)"
        using lt vals by simp
      show "bm_get (ci_fields ci') (row_run_id q, row_source_id q, path)
          = bm_get (ci_fields ci) (row_run_id q, row_source_id q, path)
        \<or> bm_get (ci_fields ci') (row_run_id q, row_source_id q, path) = Some (row_id r) \<and> row_id q < row_id r"
        using lt get_field [of "(row_run_id q, row_source_id q, path)"] by auto
    qed
    then show ?thesis using q(2) lt srt(3) by (auto simp: row_indexed_def obs bm_get_insert split: option.splits prod.splits)
  qed
  have "\<exists>ex. strings_of_text C text' = Inr ex \<and> (\<forall>ts. accurate ?N ci' r (s_state s) ex (canon ts))"
    using enc accurate_new [OF codec _ grow refl fields] vals chart_okD(2) [OF ok row] by auto
  then have new: "row_indexed X C ci' r s" using ev srt(3) by (simp add: row_indexed_def obs bm_get_insert)
  have "fst ` set (bm_keys (ci_values ci')) \<subseteq> row_id ` set (rows @ [r])"
  proof clarify
    fix i p assume "(i, p) \<in> set (bm_keys (ci_values ci'))"
    then have "bm_get (ci_values ci') (i, p) \<noteq> None" by (simp add: bm_get_None_keys)
    then have "i = row_id r \<or> (i, p) \<in> set (bm_keys (ci_values ci))"
      using vals bm_get_None_keys by metis
    then show "fst (i, p) \<in> row_id ` set (rows @ [r])" using ok by (auto simp: chart_ok_def)
  qed
  moreover have "set (bm_keys (ci_observations ci')) \<subseteq> row_id ` set (rows @ [r])"
    using ok by (auto simp: chart_ok_def obs bm_keys_def set_bm_insert)
  moreover have "bm_sorted (ci_fields ci')" using grow fields by (simp add: fields_grow_def)
  moreover have "\<exists>s. to_vec_snapshot X s = Inr (row_json q) \<and> row_indexed X C ci' q s" if "q \<in> set (rows @ [r])" for q
  proof (cases "q = r")
    case True
    then show ?thesis using new row by (auto simp: fresh_row_def)
  next
    case False
    then have "q \<in> set rows" using that by simp
    then show ?thesis using ok old unfolding chart_ok_def by blast
  qed
  ultimately show ?thesis
    using canonical vsrt srt(3) unfolding chart_ok_def obs by (auto simp: bm_sorted_insert)
qed

lemma chart_ok_append:
  assumes "chart_codec C" and "chart_ok X C rows ci" and "fresh_row X rows s r"
    and "chart_insert X C (row_id r) (row_run_id r) (row_source_id r) s ci = Inr ci'"
  shows "chart_ok X C (rows @ [r]) ci'"
proof -
  obtain ev where ev: "is_tracker_event X (s_state s) = Inr ev" by (rule chart_insert_checked [OF assms(4)])
  show ?thesis
    using chart_ok_event [OF assms(2,3)] chart_insert_event [OF assms(4)]
      chart_ok_observation [OF assms(2,3,1) _ assms(4)] ev by (cases ev) simp_all
qed

end
