(* ===== verification/Artifact_Index.thy ===== *)
theory Artifact_Index
  imports Store_Index Artifacts
begin

text \<open>
  The index of artifact records (\<open>rust/rvx-engine/src/artifact_index.rs\<close>): the records that trackers
  put into their snapshots, by run, source, name and alias, with the records that could not be read.

  \<^item> The tables are lists in insertion order, which is the order of their primary keys.
  \<^item> \<open>artifact_ext\<close> is what the source takes from \<open>serde_json\<close>.
\<close>

record lineage_entry =
  al_snapshot_id :: int
  al_artifact_index :: nat
  al_run_id :: string
  al_source_id :: string
  al_observed_at_ns :: int
  al_step :: int
  al_action :: artifact_action
  al_name :: string
  al_digest :: string
  al_json :: string

record alias_entry =
  aa_snapshot_id :: int
  aa_artifact_index :: nat
  aa_run_id :: string
  aa_source_id :: string
  aa_name :: string
  aa_alias :: string

record exclusion_entry =
  ae_snapshot_id :: int
  ae_artifact_index :: int
  ae_run_id :: string
  ae_source_id :: string
  ae_reason :: string

record artifact_index =
  ai_lineage :: "lineage_entry list"
  ai_aliases :: "alias_entry list"
  ai_exclusions :: "exclusion_entry list"
  ai_last_id :: int

record lineage_record =
  lg_snapshot_id :: int
  lg_artifact_index :: nat
  lg_run_id :: string
  lg_source_id :: string
  lg_observed_at_ns :: int
  lg_step :: "int option"
  lg_record :: artifact_record

record artifact_ext =
  ax_as_i64 :: "json \<Rightarrow> int option"
  ax_of_value :: "json \<Rightarrow> string + artifact_record"
  ax_to_text :: "artifact_record \<Rightarrow> string + string"
  ax_of_text :: "string \<Rightarrow> string + artifact_record"
  ax_lineage_bytes :: "lineage_record \<Rightarrow> string + nat"

definition empty_artifact_index :: artifact_index where
  "empty_artifact_index = \<lparr>ai_lineage = [], ai_aliases = [], ai_exclusions = [], ai_last_id = 0\<rparr>"

section \<open>Insertion\<close>

text \<open>\<open>chars().take(n)\<close>.\<close>

fun take_chars :: "nat \<Rightarrow> string \<Rightarrow> string" where
  "take_chars n [] = []"
| "take_chars n (c # s) =
     (if 128 \<le> byte c \<and> byte c < 192 then c # take_chars n s
      else case n of 0 \<Rightarrow> [] | Suc m \<Rightarrow> c # take_chars m s)"

definition add_lineage :: "lineage_entry \<Rightarrow> artifact_index \<Rightarrow> engine_error + artifact_index" where
  "add_lineage e ix =
     rbind (ensure (\<not> list_ex (\<lambda>d. al_snapshot_id d = al_snapshot_id e \<and> al_artifact_index d = al_artifact_index e)
                       (ai_lineage ix))
              (Sqlite ''UNIQUE constraint failed'')) (\<lambda>_.
     Inr (ix\<lparr>ai_lineage := ai_lineage ix @ [e]\<rparr>))"

definition add_alias :: "alias_entry \<Rightarrow> artifact_index \<Rightarrow> engine_error + artifact_index" where
  "add_alias e ix =
     rbind (ensure (\<not> list_ex (\<lambda>d. aa_snapshot_id d = aa_snapshot_id e \<and> aa_artifact_index d = aa_artifact_index e
                                   \<and> aa_alias d = aa_alias e) (ai_aliases ix))
              (Sqlite ''UNIQUE constraint failed'')) (\<lambda>_.
     Inr (ix\<lparr>ai_aliases := ai_aliases ix @ [e]\<rparr>))"

definition exclude_record ::
  "int \<Rightarrow> int \<Rightarrow> string \<Rightarrow> string \<Rightarrow> string \<Rightarrow> artifact_index \<Rightarrow> engine_error + artifact_index" where
  "exclude_record key index run source reason ix =
     rbind (ensure (\<not> list_ex (\<lambda>d. ae_snapshot_id d = key \<and> ae_artifact_index d = index) (ai_exclusions ix))
              (Sqlite ''UNIQUE constraint failed'')) (\<lambda>_.
     Inr (ix\<lparr>ai_exclusions := ai_exclusions ix @
       [\<lparr>ae_snapshot_id = key, ae_artifact_index = index, ae_run_id = run, ae_source_id = source,
         ae_reason = take_chars 512 reason\<rparr>]\<rparr>))"

definition read_record :: "artifact_ext \<Rightarrow> json \<Rightarrow> string + artifact_record" where
  "read_record A v =
     rbind (ax_of_value A v) (\<lambda>r.
     rbind (map_err protocol_error_text (validate_artifact r)) (\<lambda>_. Inr r))"

definition insert_record ::
  "artifact_ext \<Rightarrow> int \<Rightarrow> string \<Rightarrow> string \<Rightarrow> int \<Rightarrow> int \<Rightarrow> artifact_index \<Rightarrow> nat \<times> json
   \<Rightarrow> engine_error + artifact_index" where
  "insert_record A key run source observed step ix = (\<lambda>(index, v).
     rbind (ensure (int index \<le> i64_max) (EngineInvalid ''artifact index overflow'')) (\<lambda>_.
     case read_record A v of
       Inr r \<Rightarrow>
         rbind (map_err Json (ax_to_text A r)) (\<lambda>text'.
         rbind (add_lineage \<lparr>al_snapshot_id = key, al_artifact_index = index, al_run_id = run,
                  al_source_id = source, al_observed_at_ns = observed, al_step = step,
                  al_action = af_action r, al_name = af_name r, al_digest = af_digest r,
                  al_json = text'\<rparr> ix) (\<lambda>ix.
         if af_action r = LogArtifact
         then try_fold (\<lambda>ix alias. add_alias \<lparr>aa_snapshot_id = key, aa_artifact_index = index,
                          aa_run_id = run, aa_source_id = source, aa_name = af_name r, aa_alias = alias\<rparr> ix) ix (af_aliases r)
         else Inr ix))
     | Inl reason \<Rightarrow> exclude_record key (int index) run source reason ix))"

definition artifact_insert :: "artifact_ext \<Rightarrow> artifact_index projection" where
  "artifact_insert A key run source snapshot ix =
     rbind (case Option.bind (json_pointer (s_state snapshot) ''/tracker/step'') (ax_as_i64 A) of
              None \<Rightarrow> Inr ix
            | Some step \<Rightarrow>
                (case json_get (s_state snapshot) ''artifacts'' of
                   None \<Rightarrow> Inr ix
                 | Some (JArray records) \<Rightarrow>
                     try_fold (insert_record A key run source (s_observed_at_ns snapshot) step) ix
                       (enumerate 0 records)
                 | Some _ \<Rightarrow> exclude_record key (- 1) run source ''artifacts must be an array'' ix)) (\<lambda>ix.
     Inr (ix\<lparr>ai_last_id := key\<rparr>))"

section \<open>Queries\<close>

record artifact_cursor =
  ac_snapshot_id :: int
  ac_artifact_index :: nat

record lineage_request =
  lq_runs :: "string list"
  lq_sources :: "string list"
  lq_name :: "string option"
  lq_digest :: "string option"
  lq_action :: "artifact_action option"
  lq_before :: "artifact_cursor option"
  lq_page_limit :: nat

record artifact_coverage =
  cv_complete :: bool
  cv_excluded_records :: nat

record lineage_page =
  lp_artifacts :: "lineage_record list"
  lp_next_before :: "artifact_cursor option"
  lp_coverage :: artifact_coverage

record resolve_request =
  rq_runs :: "string list"
  rq_sources :: "string list"
  rq_name :: string
  rq_alias :: string

record resolve_response =
  rz_artifact :: lineage_record
  rz_coverage :: artifact_coverage

definition validate_selection :: "string list \<Rightarrow> string list \<Rightarrow> engine_error + unit" where
  "validate_selection runs sources =
     ensure (\<not> (runs = [] \<or> 64 < length runs \<or> 256 < length sources
                 \<or> list_ex (\<lambda>v. \<not> artifact_text v) (runs @ sources)))
       (EngineInvalid ''artifact query requires 1..64 runs and at most 256 sources'')"

definition in_scope :: "string list \<Rightarrow> string list \<Rightarrow> string \<Rightarrow> string \<Rightarrow> bool" where
  "in_scope runs sources run source \<longleftrightarrow> id_filter runs run \<and> id_filter sources source"

definition index_coverage :: "artifact_index \<Rightarrow> string list \<Rightarrow> string list \<Rightarrow> artifact_coverage" where
  "index_coverage ix runs sources =
     (let n = length (filter (\<lambda>e. in_scope runs sources (ae_run_id e) (ae_source_id e)) (ai_exclusions ix))
      in \<lparr>cv_complete = (n = 0), cv_excluded_records = n\<rparr>)"

definition read_lineage :: "artifact_ext \<Rightarrow> lineage_entry \<Rightarrow> engine_error + lineage_record" where
  "read_lineage A e =
     rbind (ensure (al_artifact_index e \<le> 4294967295) (EngineInvalid ''invalid artifact index'')) (\<lambda>_.
     rbind (map_err Json (ax_of_text A (al_json e))) (\<lambda>r.
     Inr \<lparr>lg_snapshot_id = al_snapshot_id e, lg_artifact_index = al_artifact_index e,
          lg_run_id = al_run_id e, lg_source_id = al_source_id e,
          lg_observed_at_ns = al_observed_at_ns e, lg_step = Some (al_step e), lg_record = r\<rparr>))"

definition before_cursor :: "artifact_cursor \<Rightarrow> lineage_entry \<Rightarrow> bool" where
  "before_cursor c e \<longleftrightarrow>
     al_snapshot_id e < ac_snapshot_id c
     \<or> al_snapshot_id e = ac_snapshot_id c \<and> al_artifact_index e < ac_artifact_index c"

definition lineage_filter :: "lineage_request \<Rightarrow> lineage_entry \<Rightarrow> bool" where
  "lineage_filter q e \<longleftrightarrow>
     in_scope (lq_runs q) (lq_sources q) (al_run_id e) (al_source_id e)
     \<and> (case lq_name q of None \<Rightarrow> True | Some n \<Rightarrow> al_name e = n)
     \<and> (case lq_digest q of None \<Rightarrow> True | Some d \<Rightarrow> al_digest e = d)
     \<and> (case lq_action q of None \<Rightarrow> True | Some a \<Rightarrow> al_action e = a)
     \<and> (case lq_before q of None \<Rightarrow> True | Some c \<Rightarrow> before_cursor c e)"

fun lineage_rows ::
  "artifact_ext \<Rightarrow> nat \<Rightarrow> lineage_record list \<Rightarrow> nat \<Rightarrow> lineage_entry list
   \<Rightarrow> engine_error + lineage_record list \<times> bool" where
  "lineage_rows A limit artifacts bytes [] = Inr (artifacts, False)"
| "lineage_rows A limit artifacts bytes (e # es) =
     (let full = (if artifacts = [] then Inl (EngineInvalid ''artifact record exceeds response budget'')
                  else Inr (artifacts, True)) in
      if length artifacts = limit then Inr (artifacts, True)
      else if MAX_SNAPSHOT_PAGE_BYTES < length (al_json e) + bytes + 16384 then full
      else rbind (read_lineage A e) (\<lambda>r.
           rbind (map_err Json (ax_lineage_bytes A r)) (\<lambda>n.
           if MAX_SNAPSHOT_PAGE_BYTES < bytes + (n + 1) then full
           else lineage_rows A limit (artifacts @ [r]) (bytes + (n + 1)) es)))"

definition artifact_lineage :: "artifact_ext \<Rightarrow> artifact_index \<Rightarrow> lineage_request \<Rightarrow> engine_error + lineage_page" where
  "artifact_lineage A ix q =
     rbind (validate_selection (lq_runs q) (lq_sources q)) (\<lambda>_.
     rbind (ensure (\<not> (lq_page_limit q = 0 \<or> 1000 < lq_page_limit q
                       \<or> (case lq_before q of None \<Rightarrow> False | Some c \<Rightarrow> ac_snapshot_id c \<le> 0)))
              (EngineInvalid ''invalid artifact page limit or cursor'')) (\<lambda>_.
     rbind (ensure (\<not> list_ex (\<lambda>v. case v of None \<Rightarrow> False | Some s \<Rightarrow> \<not> artifact_text s) [lq_name q, lq_digest q])
              (EngineInvalid ''invalid artifact filter'')) (\<lambda>_.
     rbind (lineage_rows A (lq_page_limit q) [] 16384
              (take (lq_page_limit q + 1) (filter (lineage_filter q) (rev (ai_lineage ix))))) (\<lambda>(artifacts, more).
     Inr \<lparr>lp_artifacts = artifacts,
          lp_next_before = (if more then Some \<lparr>ac_snapshot_id = lg_snapshot_id (last artifacts),
                                             ac_artifact_index = lg_artifact_index (last artifacts)\<rparr> else None),
          lp_coverage = index_coverage ix (lq_runs q) (lq_sources q)\<rparr>))))"

definition has_alias :: "artifact_index \<Rightarrow> string \<Rightarrow> lineage_entry \<Rightarrow> bool" where
  "has_alias ix alias e \<longleftrightarrow>
     list_ex (\<lambda>a. aa_snapshot_id a = al_snapshot_id e \<and> aa_artifact_index a = al_artifact_index e
                  \<and> aa_run_id a = al_run_id e \<and> aa_name a = al_name e \<and> aa_alias a = alias) (ai_aliases ix)"

definition resolves :: "artifact_index \<Rightarrow> resolve_request \<Rightarrow> lineage_entry \<Rightarrow> bool" where
  "resolves ix q e \<longleftrightarrow>
     al_action e = LogArtifact \<and> al_name e = rq_name q
     \<and> in_scope (rq_runs q) (rq_sources q) (al_run_id e) (al_source_id e)
     \<and> (rq_alias q = ''latest'' \<or> has_alias ix (rq_alias q) e)"

definition artifact_resolve :: "artifact_ext \<Rightarrow> artifact_index \<Rightarrow> resolve_request \<Rightarrow> engine_error + resolve_response" where
  "artifact_resolve A ix q =
     rbind (validate_selection (rq_runs q) (rq_sources q)) (\<lambda>_.
     rbind (ensure (artifact_text (rq_name q) \<and> artifact_text (rq_alias q))
              (EngineInvalid ''invalid artifact name/alias'')) (\<lambda>_.
     let coverage = index_coverage ix (rq_runs q) (rq_sources q) in
     rbind (ensure (cv_complete coverage)
              (EngineInvalid ''artifact index coverage is incomplete in this scope; inspect lineage coverage before resolving'')) (\<lambda>_.
     rbind (ok_or (EngineInvalid ''unknown artifact name/alias'')
              (List.find (resolves ix q) (rev (ai_lineage ix)))) (\<lambda>e.
     rbind (read_lineage A e) (\<lambda>r.
     Inr \<lparr>rz_artifact = r, rz_coverage = coverage\<rparr>)))))"

section \<open>What the index holds\<close>

text \<open>The entries that the snapshot of a row contributes to the tables.\<close>

definition artifact_values :: "artifact_ext \<Rightarrow> state_snapshot \<Rightarrow> (int \<times> nat \<times> json) list" where
  "artifact_values A s =
     (case Option.bind (json_pointer (s_state s) ''/tracker/step'') (ax_as_i64 A) of
        None \<Rightarrow> []
      | Some step \<Rightarrow>
          (case json_get (s_state s) ''artifacts'' of
             Some (JArray records) \<Rightarrow> map (\<lambda>iv. (step, iv)) (enumerate 0 records)
           | _ \<Rightarrow> []))"

definition lineage_at :: "artifact_ext \<Rightarrow> snap_row \<Rightarrow> int \<times> nat \<times> json \<Rightarrow> lineage_entry list" where
  "lineage_at A r = (\<lambda>(step, i, v).
     case read_record A v of
       Inl _ \<Rightarrow> []
     | Inr rec \<Rightarrow>
         [\<lparr>al_snapshot_id = row_id r, al_artifact_index = i, al_run_id = row_run_id r,
           al_source_id = row_source_id r, al_observed_at_ns = row_observed_at_ns r, al_step = step,
           al_action = af_action rec, al_name = af_name rec, al_digest = af_digest rec,
           al_json = projr (ax_to_text A rec)\<rparr>])"

definition aliases_at :: "artifact_ext \<Rightarrow> snap_row \<Rightarrow> int \<times> nat \<times> json \<Rightarrow> alias_entry list" where
  "aliases_at A r = (\<lambda>(step, i, v).
     case read_record A v of
       Inl _ \<Rightarrow> []
     | Inr rec \<Rightarrow>
         if af_action rec = LogArtifact
         then map (\<lambda>alias. \<lparr>aa_snapshot_id = row_id r, aa_artifact_index = i, aa_run_id = row_run_id r,
                aa_source_id = row_source_id r, aa_name = af_name rec, aa_alias = alias\<rparr>) (af_aliases rec)
         else [])"

definition exclusions_at :: "artifact_ext \<Rightarrow> snap_row \<Rightarrow> int \<times> nat \<times> json \<Rightarrow> exclusion_entry list" where
  "exclusions_at A r = (\<lambda>(step, i, v).
     case read_record A v of
       Inl reason \<Rightarrow> [\<lparr>ae_snapshot_id = row_id r, ae_artifact_index = int i, ae_run_id = row_run_id r,
                       ae_source_id = row_source_id r, ae_reason = take_chars 512 reason\<rparr>]
     | Inr _ \<Rightarrow> [])"

definition not_an_array :: "artifact_ext \<Rightarrow> snap_row \<Rightarrow> state_snapshot \<Rightarrow> exclusion_entry list" where
  "not_an_array A r s =
     (case (Option.bind (json_pointer (s_state s) ''/tracker/step'') (ax_as_i64 A), json_get (s_state s) ''artifacts'') of
        (Some _, Some v) \<Rightarrow>
          if (case v of JArray _ \<Rightarrow> True | _ \<Rightarrow> False) then []
          else [\<lparr>ae_snapshot_id = row_id r, ae_artifact_index = - 1, ae_run_id = row_run_id r,
                 ae_source_id = row_source_id r, ae_reason = take_chars 512 ''artifacts must be an array''\<rparr>]
      | _ \<Rightarrow> [])"

definition index_of :: "artifact_ext \<Rightarrow> (snap_row \<times> state_snapshot) list \<Rightarrow> artifact_index \<Rightarrow> bool" where
  "index_of A rss ix \<longleftrightarrow>
     ai_lineage ix = concat (map (\<lambda>(r, s). concat (map (lineage_at A r) (artifact_values A s))) rss)
     \<and> ai_aliases ix = concat (map (\<lambda>(r, s). concat (map (aliases_at A r) (artifact_values A s))) rss)
     \<and> ai_exclusions ix = concat (map (\<lambda>(r, s). concat (map (exclusions_at A r) (artifact_values A s)) @ not_an_array A r s) rss)"

definition artifact_ok :: "serde_ext \<Rightarrow> artifact_ext \<Rightarrow> snap_row list \<Rightarrow> artifact_index \<Rightarrow> bool" where
  "artifact_ok X A rows ix \<longleftrightarrow>
     (\<exists>rss. map fst rss = rows \<and> (\<forall>(r, s) \<in> set rss. to_vec_snapshot X s = Inr (row_json r)) \<and> index_of A rss ix)"

lemma artifact_ok_empty: "artifact_ok X A [] empty_artifact_index"
  by (simp add: artifact_ok_def index_of_def empty_artifact_index_def)

lemma add_alias_Inr: "add_alias e ix = Inr ix' \<Longrightarrow> ix' = ix\<lparr>ai_aliases := ai_aliases ix @ [e]\<rparr>"
  by (auto simp: add_alias_def rbind_eq_Inr)

lemma add_aliases:
  assumes "try_fold (\<lambda>ix alias. add_alias (f alias) ix) ix as = Inr ix'"
  shows "ix' = ix\<lparr>ai_aliases := ai_aliases ix @ map f as\<rparr>"
  using assms
proof (induction as arbitrary: ix)
  case (Cons a as)
  then obtain ix1 where "add_alias (f a) ix = Inr ix1" and rest: "try_fold (\<lambda>ix alias. add_alias (f alias) ix) ix1 as = Inr ix'"
    by (auto simp: rbind_eq_Inr)
  then show ?case using Cons.IH [OF rest] add_alias_Inr by fastforce
qed simp

lemma exclude_record_Inr:
  "exclude_record key index run source reason ix = Inr ix' \<Longrightarrow>
   ix' = ix\<lparr>ai_exclusions := ai_exclusions ix @ [\<lparr>ae_snapshot_id = key, ae_artifact_index = index, ae_run_id = run,
     ae_source_id = source, ae_reason = take_chars 512 reason\<rparr>]\<rparr>"
  by (auto simp: exclude_record_def rbind_eq_Inr)

lemma insert_record_appends:
  assumes "insert_record A (row_id r) (row_run_id r) (row_source_id r) (row_observed_at_ns r) step ix iv = Inr ix'"
  shows "ix' = ix\<lparr>ai_lineage := ai_lineage ix @ lineage_at A r (step, iv),
      ai_aliases := ai_aliases ix @ aliases_at A r (step, iv),
      ai_exclusions := ai_exclusions ix @ exclusions_at A r (step, iv)\<rparr>"
proof (cases "read_record A (snd iv)")
  case (Inl reason)
  with assms show ?thesis
    by (cases iv) (auto simp: insert_record_def rbind_eq_Inr lineage_at_def aliases_at_def exclusions_at_def
        dest!: exclude_record_Inr)
next
  case (Inr rec)
  with assms show ?thesis
    by (cases iv) (auto simp: insert_record_def result_iffs add_lineage_def lineage_at_def aliases_at_def
        exclusions_at_def dest!: add_aliases split: if_splits)
qed

lemma insert_records_append:
  assumes "try_fold (insert_record A (row_id r) (row_run_id r) (row_source_id r) (row_observed_at_ns r) step) ix ivs = Inr ix'"
  shows "ix' = ix\<lparr>ai_lineage := ai_lineage ix @ concat (map (lineage_at A r) (map (Pair step) ivs)),
      ai_aliases := ai_aliases ix @ concat (map (aliases_at A r) (map (Pair step) ivs)),
      ai_exclusions := ai_exclusions ix @ concat (map (exclusions_at A r) (map (Pair step) ivs))\<rparr>"
  using assms
proof (induction ivs arbitrary: ix)
  case (Cons iv ivs)
  then obtain ix1 where one: "insert_record A (row_id r) (row_run_id r) (row_source_id r) (row_observed_at_ns r) step ix iv = Inr ix1"
    and rest: "try_fold (insert_record A (row_id r) (row_run_id r) (row_source_id r) (row_observed_at_ns r) step) ix1 ivs = Inr ix'"
    by (auto simp: rbind_eq_Inr)
  from Cons.IH [OF rest] show ?case by (simp add: insert_record_appends [OF one])
qed simp

lemma artifact_insert_appends:
  assumes "artifact_insert A (row_id r) (row_run_id r) (row_source_id r) s ix = Inr ix'"
    and "row_observed_at_ns r = s_observed_at_ns s"
  shows "ai_lineage ix' = ai_lineage ix @ concat (map (lineage_at A r) (artifact_values A s))
    \<and> ai_aliases ix' = ai_aliases ix @ concat (map (aliases_at A r) (artifact_values A s))
    \<and> ai_exclusions ix' = ai_exclusions ix @ concat (map (exclusions_at A r) (artifact_values A s)) @ not_an_array A r s"
proof -
  let ?step = "Option.bind (json_pointer (s_state s) ''/tracker/step'') (ax_as_i64 A)"
  show ?thesis
  proof (cases ?step)
    case None
    with assms(1) show ?thesis by (auto simp: artifact_insert_def artifact_values_def not_an_array_def)
  next
    case step: (Some step)
    show ?thesis
    proof (cases "json_get (s_state s) ''artifacts''")
      case None
      with assms(1) step show ?thesis by (auto simp: artifact_insert_def artifact_values_def not_an_array_def)
    next
      case (Some v)
      show ?thesis
      proof (cases "\<exists>vs. v = JArray vs")
        case True
        then obtain vs where vs: "v = JArray vs" by blast
        with assms step Some obtain ix1 where "ix' = ix1\<lparr>ai_last_id := row_id r\<rparr>"
          and "try_fold (insert_record A (row_id r) (row_run_id r) (row_source_id r) (row_observed_at_ns r) step) ix
                (enumerate 0 vs) = Inr ix1"
          by (auto simp: artifact_insert_def rbind_eq_Inr)
        with insert_records_append [OF this(2)] step Some vs show ?thesis
          by (simp add: artifact_values_def not_an_array_def)
      next
        case False
        with assms(1) step Some obtain ix1 where ix1: "ix' = ix1\<lparr>ai_last_id := row_id r\<rparr>"
          and "exclude_record (row_id r) (- 1) (row_run_id r) (row_source_id r) ''artifacts must be an array'' ix = Inr ix1"
          by (cases v) (auto simp: artifact_insert_def rbind_eq_Inr)
        with exclude_record_Inr [OF this(2)] step Some False show ?thesis
          by (cases v) (auto simp: artifact_values_def not_an_array_def)
      qed
    qed
  qed
qed

lemma artifact_ok_append:
  assumes "artifact_ok X A rows ix" and "fresh_row X rows s r"
    and "artifact_insert A (row_id r) (row_run_id r) (row_source_id r) s ix = Inr ix'"
  shows "artifact_ok X A (rows @ [r]) ix'"
proof -
  obtain rss where rss: "map fst rss = rows" "\<forall>(r, s) \<in> set rss. to_vec_snapshot X s = Inr (row_json r)"
      "index_of A rss ix"
    using assms(1) by (auto simp: artifact_ok_def)
  have "index_of A (rss @ [(r, s)]) ix'"
    using artifact_insert_appends [OF assms(3)] assms(2) rss(3) by (simp add: index_of_def fresh_row_def)
  moreover have "\<forall>(r, s) \<in> set (rss @ [(r, s)]). to_vec_snapshot X s = Inr (row_json r)"
    using rss(2) assms(2) by (simp add: fresh_row_def)
  moreover have "map fst (rss @ [(r, s)]) = rows @ [r]" using rss(1) by simp
  ultimately show ?thesis unfolding artifact_ok_def by blast
qed

end
