(* ===== verification/Chart_Query.thy ===== *)
theory Chart_Query
  imports Artifact_Index
begin

text \<open>
  Chart queries (\<open>projection\<close>, \<open>query_page\<close> of \<open>snapshot_store.rs\<close> and \<open>snapshot_store/query.rs\<close>):
  the numeric fields of the selected observations, grouped by run and source, ordered by an axis and
  sampled, with a long history split into windows.

  \<^item> \<open>store_index\<close> is the pair of derived indexes and \<open>project_indexes\<close> what ingestion writes to them.
  \<^item> A \<open>SELECT\<close> is the list of rows it returns; \<open>joined\<close> is a row of the projection's join, one for
    each value of a snapshot, or one without a value.
  \<^item> Requests are modelled as they run when they are not cancelled.
\<close>

abbreviation (input) MAX_QUERY_SCAN_ROWS :: nat where "MAX_QUERY_SCAN_ROWS \<equiv> 100000"
abbreviation (input) MAX_QUERY_SCAN_BYTES :: nat where "MAX_QUERY_SCAN_BYTES \<equiv> 268435456"
abbreviation (input) MAX_QUERY_OUTPUT_POINTS :: nat where "MAX_QUERY_OUTPUT_POINTS \<equiv> 100000"
abbreviation (input) MAX_SNAPSHOT_QUERY_RUNS :: nat where "MAX_SNAPSHOT_QUERY_RUNS \<equiv> 64"
abbreviation (input) MAX_SNAPSHOT_QUERY_PATHS :: nat where "MAX_SNAPSHOT_QUERY_PATHS \<equiv> 64"
abbreviation (input) MAX_SNAPSHOT_QUERY_POINTS :: nat where "MAX_SNAPSHOT_QUERY_POINTS \<equiv> 10000"
abbreviation (input) MAX_QUERY_WINDOWS :: nat where "MAX_QUERY_WINDOWS \<equiv> 64"

section \<open>The indexes of a store\<close>

record store_index =
  si_charts :: chart_index
  si_artifacts :: artifact_index

definition empty_store_index :: store_index where
  "empty_store_index = \<lparr>si_charts = empty_chart_index, si_artifacts = empty_artifact_index\<rparr>"

definition project_indexes :: "serde_ext \<Rightarrow> chart_ext \<Rightarrow> artifact_ext \<Rightarrow> store_index projection" where
  "project_indexes X C A key run source snapshot ix =
     rbind (chart_insert X C key run source snapshot (si_charts ix)) (\<lambda>charts.
     rbind (artifact_insert A key run source snapshot (si_artifacts ix)) (\<lambda>artifacts.
     Inr \<lparr>si_charts = charts, si_artifacts = artifacts\<rparr>))"

interpretation charts: index_invariant X "project_indexes X C A"
  "\<lambda>rows ix. chart_codec C \<longrightarrow> chart_ok X C rows (si_charts ix)" for X C A
  by unfold_locales (auto simp: project_indexes_def rbind_eq_Inr intro: chart_ok_append)

interpretation artifacts: index_invariant X "project_indexes X C A"
  "\<lambda>rows ix. artifact_ok X A rows (si_artifacts ix)" for X C A
  by unfold_locales (auto simp: project_indexes_def rbind_eq_Inr intro: artifact_ok_append)

section \<open>Requests\<close>

record query_request =
  qr_run_ids :: "string list"
  qr_paths :: "string list"
  qr_source_ids :: "string list"
  qr_axis :: string
  qr_from :: "int option"
  qr_to :: "int option"
  qr_max_points :: nat

record query_series =
  qs_run_id :: string
  qs_source_id :: string
  qs_path :: string
  qs_snapshot_ids :: "int list"
  qs_session_ids :: "string list"
  qs_sequences :: "nat list"
  qs_axes :: "int list"
  qs_observed_at_ns :: "int list"
  qs_values :: "f64 option list"

record query_response =
  qp_axis :: string
  qp_series :: "query_series list"

record query_ext =
  qx_debug :: "string \<Rightarrow> string"
  qx_key_bytes :: "string \<times> string \<times> string \<Rightarrow> string + nat"
  qx_session_bytes :: "string \<Rightarrow> string + nat"
  qx_response_bytes :: "query_response \<Rightarrow> string + nat"

definition check_request :: "query_request \<Rightarrow> engine_error + unit" where
  "check_request q =
     rbind (check_ids (qr_run_ids q) MAX_SNAPSHOT_QUERY_RUNS) (\<lambda>_.
     rbind (check_ids (qr_source_ids q) MAX_SNAPSHOT_SOURCE_IDS) (\<lambda>_.
     rbind (ensure (\<not> (qr_run_ids q = [] \<or> qr_paths q = [] \<or> MAX_SNAPSHOT_QUERY_PATHS < length (qr_paths q)))
              (EngineInvalid ''query requires 1..64 run_ids and 1..64 paths'')) (\<lambda>_.
     rbind (ensure (\<not> (qr_max_points q = 0 \<or> MAX_SNAPSHOT_QUERY_POINTS < qr_max_points q))
              (EngineInvalid ''max_points must be 1..10000'')) (\<lambda>_.
     rbind (check_ids [qr_axis q] 1) (\<lambda>_.
     rbind (for_each (\<lambda>path. map_err Protocol (validate_snapshot_pointer path)) (qr_paths q)) (\<lambda>_.
     rbind (ensure (distinct (qr_paths q)) (EngineInvalid ''duplicate query paths'')) (\<lambda>_.
     validate_range (qr_from q) (qr_to q))))))))"

section \<open>Selection\<close>

definition in_range :: "int option \<Rightarrow> int option \<Rightarrow> int \<Rightarrow> bool" where
  "in_range from' to' x \<longleftrightarrow>
     (case from' of None \<Rightarrow> True | Some a \<Rightarrow> a \<le> x) \<and> (case to' of None \<Rightarrow> True | Some b \<Rightarrow> x \<le> b)"

definition shift_bound :: "int \<Rightarrow> int option \<Rightarrow> engine_error + int option" where
  "shift_bound baseline bound =
     (case bound of
        None \<Rightarrow> Inr None
      | Some b \<Rightarrow> map_sum (\<lambda>e. e) Some
          (ok_or (EngineInvalid ''elapsed range overflows observation time i64'') (checked_add_i64 baseline b)))"

text \<open>The elapsed range of each selected run that has observations, as a range of observation times.\<close>

fun elapsed_ranges ::
  "chart_index \<Rightarrow> int option \<Rightarrow> int option \<Rightarrow> string list
   \<Rightarrow> engine_error + (string \<times> int option \<times> int option) list" where
  "elapsed_ranges ci from' to' [] = Inr []"
| "elapsed_ranges ci from' to' (run # runs) =
     (case bm_get (ci_runs ci) run of
        None \<Rightarrow> elapsed_ranges ci from' to' runs
      | Some summary \<Rightarrow>
          rbind (shift_bound (cr_first_observed_at_ns summary) from') (\<lambda>lo.
          rbind (shift_bound (cr_first_observed_at_ns summary) to') (\<lambda>hi.
          rbind (elapsed_ranges ci from' to' runs) (\<lambda>ranges. Inr ((run, lo, hi) # ranges)))))"

definition axis_filter ::
  "chart_index \<Rightarrow> query_request \<Rightarrow> (string \<times> int option \<times> int option) list \<Rightarrow> snap_row \<Rightarrow> bool" where
  "axis_filter ci q ranges r \<longleftrightarrow>
     (if qr_axis q = ''wall_time'' then in_range (qr_from q) (qr_to q) (row_observed_at_ns r)
      else if qr_axis q = ''elapsed''
      then qr_from q = None \<and> qr_to q = None
           \<or> list_ex (\<lambda>(run, lo, hi). row_run_id r = run \<and> in_range lo hi (row_observed_at_ns r)) ranges
      else (case bm_get (ci_axes ci) (row_id r, qr_axis q) of
              None \<Rightarrow> False | Some x \<Rightarrow> in_range (qr_from q) (qr_to q) x))"

definition row_filter ::
  "chart_index \<Rightarrow> query_request \<Rightarrow> (string \<times> int option \<times> int option) list \<Rightarrow> snap_row \<Rightarrow> bool" where
  "row_filter ci q ranges r \<longleftrightarrow>
     id_filter (qr_run_ids q) (row_run_id r) \<and> id_filter (qr_source_ids q) (row_source_id r)
     \<and> axis_filter ci q ranges r \<and> bm_contains (ci_observations ci) (row_id r)"

definition selected_rows ::
  "chart_index \<Rightarrow> query_request \<Rightarrow> (string \<times> int option \<times> int option) list \<Rightarrow> snap_row list \<Rightarrow> snap_row list" where
  "selected_rows ci q ranges rows =
     filter (\<lambda>r. bm_contains (ci_runs ci) (row_run_id r))
       (take (MAX_QUERY_SCAN_ROWS + 1)
         (sort_key (\<lambda>r. (row_run_id r, row_source_id r, row_observed_at_ns r, row_id r))
           (filter (row_filter ci q ranges) rows)))"

text \<open>The fields of the selected sources, with the size of the scan.\<close>

type_synonym known_fields_map = "(string \<times> string \<times> string, int) bmap"

definition scan_field ::
  "nat \<times> known_fields_map \<Rightarrow> (string \<times> string \<times> string) \<times> int \<Rightarrow> engine_error + nat \<times> known_fields_map" where
  "scan_field = (\<lambda>(bytes, known) ((run, source, path), first).
     let bytes = bytes + (length path + length run + length source + 128) in
     rbind (ensure (\<not> MAX_QUERY_SCAN_BYTES < bytes)
              (EngineInvalid ''snapshot field scope exceeds query byte budget'')) (\<lambda>_.
     let known = bm_insert (run, source, path) first known in
     rbind (ensure (\<not> 1000000 < length known)
              (EngineInvalid ''snapshot field scope exceeds query budget'')) (\<lambda>_.
     Inr (bytes, known))))"

definition field_filter :: "query_request \<Rightarrow> (string \<times> string \<times> string) \<times> int \<Rightarrow> bool" where
  "field_filter q = (\<lambda>((run, source, path), first).
     id_filter (qr_run_ids q) run \<and> id_filter (qr_source_ids q) source \<and> id_filter (qr_paths q) path)"

definition scan_fields :: "query_ext \<Rightarrow> chart_index \<Rightarrow> query_request \<Rightarrow> engine_error + nat \<times> known_fields_map" where
  "scan_fields Q ci q =
     rbind (try_fold scan_field (0, []) (take 1000001 (filter (field_filter q) (ci_fields ci)))) (\<lambda>(bytes, known).
     rbind (for_each (\<lambda>path.
              ensure (path \<in> set (map (\<lambda>((run, source, p), _). p) known))
                (EngineInvalid (''field '' @ qx_debug Q path
                   @ '' is not an indexed numeric field in the selected sources/runs''))) (qr_paths q)) (\<lambda>_.
     Inr (bytes, known)))"

section \<open>Projection\<close>

record joined =
  jn_row :: snap_row
  jn_first :: int
  jn_axis :: "int option"
  jn_exclusions :: string
  jn_cell :: "(string \<times> f64) option"

definition row_cells :: "chart_index \<Rightarrow> string list \<Rightarrow> snap_row \<Rightarrow> (string \<times> f64) list" where
  "row_cells ci paths r =
     map (\<lambda>((key, path), v). (path, v))
       (filter (\<lambda>((key, path), v). key = row_id r \<and> path \<in> set paths) (ci_values ci))"

definition join_row :: "chart_index \<Rightarrow> query_request \<Rightarrow> snap_row \<Rightarrow> joined list" where
  "join_row ci q r =
     (case (bm_get (ci_runs ci) (row_run_id r), bm_get (ci_observations ci) (row_id r)) of
        (Some summary, Some (truncated, text')) \<Rightarrow>
          (let cells = row_cells ci (qr_paths q) r in
           map (\<lambda>cell. \<lparr>jn_row = r, jn_first = cr_first_observed_at_ns summary,
                  jn_axis = bm_get (ci_axes ci) (row_id r, qr_axis q), jn_exclusions = text', jn_cell = cell\<rparr>)
             (if cells = [] then [None] else map Some cells))
      | _ \<Rightarrow> [])"

record projected =
  pt_id :: int
  pt_session :: string
  pt_sequence :: nat
  pt_axis :: int
  pt_observed :: int
  pt_exclusions :: "string list"
  pt_values :: "f64 option list"

type_synonym point_groups = "(string \<times> string, projected list) bmap"

record scan_state =
  sc_groups :: point_groups
  sc_bytes :: nat
  sc_rows :: nat
  sc_last :: "int option"

definition axis_value :: "query_request \<Rightarrow> joined \<Rightarrow> engine_error + int option" where
  "axis_value q j =
     (if qr_axis q = ''wall_time'' then Inr (Some (row_observed_at_ns (jn_row j)))
      else if qr_axis q = ''elapsed''
      then map_sum (\<lambda>e. e) Some
             (ok_or (EngineInvalid ''elapsed observation time overflows i64'')
                (checked_add_i64 (row_observed_at_ns (jn_row j)) (- jn_first j)))
      else Inr (jn_axis j))"

text \<open>The first row of a snapshot counts it against the budgets.\<close>

definition count_snapshot :: "query_request \<Rightarrow> joined \<Rightarrow> scan_state \<Rightarrow> engine_error + scan_state" where
  "count_snapshot q j st =
     (let r = jn_row j; rows = sc_rows st + 1;
          bytes = sc_bytes st + (length (row_run_id r) + length (row_source_id r) + length (row_session_id r) + 128)
                  + length (jn_exclusions j)
      in rbind (ensure (\<not> (MAX_QUERY_SCAN_ROWS < rows \<or> MAX_QUERY_SCAN_BYTES < bytes))
                  (EngineInvalid ''snapshot query scan budget exceeded; narrow run/source/time filters'')) (\<lambda>_.
         rbind (ensure (\<not> MAX_QUERY_OUTPUT_POINTS * 10 < rows * length (qr_paths q))
                  (EngineInvalid ''snapshot projection budget exceeded; narrow query'')) (\<lambda>_.
         Inr (st\<lparr>sc_last := Some (row_id r), sc_rows := rows, sc_bytes := bytes\<rparr>))))"

definition new_point :: "chart_ext \<Rightarrow> query_request \<Rightarrow> joined \<Rightarrow> int \<Rightarrow> engine_error + projected" where
  "new_point C q j axis =
     rbind (map_err Json (strings_of_text C (jn_exclusions j))) (\<lambda>exclusions.
     Inr \<lparr>pt_id = row_id (jn_row j), pt_session = row_session_id (jn_row j),
          pt_sequence = row_sequence (jn_row j), pt_axis = axis,
          pt_observed = row_observed_at_ns (jn_row j), pt_exclusions = exclusions,
          pt_values = replicate (length (qr_paths q)) None\<rparr>)"

fun position_of :: "'a \<Rightarrow> 'a list \<Rightarrow> nat" where
  "position_of x [] = 0"
| "position_of x (y # ys) = (if x = y then 0 else Suc (position_of x ys))"

definition set_last_value :: "query_request \<Rightarrow> string \<Rightarrow> f64 \<Rightarrow> projected list \<Rightarrow> engine_error + projected list" where
  "set_last_value q path v points =
     (if points = [] then Inl (Runtime ''called Option::unwrap() on a None value'')
      else Inr (butlast points @ [(last points)\<lparr>pt_values := (pt_values (last points))[position_of path (qr_paths q) := Some v]\<rparr>]))"

definition scan_joined :: "chart_ext \<Rightarrow> query_request \<Rightarrow> scan_state \<Rightarrow> joined \<Rightarrow> engine_error + scan_state" where
  "scan_joined C q st j =
     rbind (axis_value q j) (\<lambda>axis.
     let key = (row_run_id (jn_row j), row_source_id (jn_row j)); is_new = (sc_last st \<noteq> Some (row_id (jn_row j)))
     in rbind (if is_new then count_snapshot q j st else Inr st) (\<lambda>st.
        case axis of
          None \<Rightarrow> Inr st
        | Some axis \<Rightarrow>
            if \<not> in_range (qr_from q) (qr_to q) axis then Inr st
            else
              let points = (case bm_get (sc_groups st) key of Some ps \<Rightarrow> ps | None \<Rightarrow> [])
              in rbind (if is_new then rbind (new_point C q j axis) (\<lambda>p. Inr (points @ [p])) else Inr points) (\<lambda>points.
                 case jn_cell j of
                   None \<Rightarrow> Inr (st\<lparr>sc_groups := bm_insert key points (sc_groups st)\<rparr>)
                 | Some (path, v) \<Rightarrow>
                     let bytes = sc_bytes st + (length path + 8) in
                     rbind (ensure (\<not> MAX_QUERY_SCAN_BYTES < bytes)
                              (EngineInvalid ''snapshot query scan byte budget exceeded; narrow query'')) (\<lambda>_.
                     rbind (set_last_value q path v points) (\<lambda>points.
                     Inr (st\<lparr>sc_bytes := bytes, sc_groups := bm_insert key points (sc_groups st)\<rparr>))))))"

definition projection ::
  "chart_ext \<Rightarrow> query_ext \<Rightarrow> snap_row list \<Rightarrow> chart_index \<Rightarrow> query_request
   \<Rightarrow> engine_error + known_fields_map \<times> point_groups" where
  "projection C Q rows ci q =
     rbind (check_request q) (\<lambda>_.
     rbind (if qr_axis q = ''elapsed'' \<and> (qr_from q \<noteq> None \<or> qr_to q \<noteq> None)
            then elapsed_ranges ci (qr_from q) (qr_to q) (bset_of_list (qr_run_ids q)) else Inr []) (\<lambda>ranges.
     rbind (scan_fields Q ci q) (\<lambda>(bytes, known).
     rbind (try_fold (scan_joined C q) \<lparr>sc_groups = [], sc_bytes = bytes, sc_rows = 0, sc_last = None\<rparr>
              (concat (map (join_row ci q) (selected_rows ci q ranges rows)))) (\<lambda>st.
     Inr (known, sc_groups st)))))"

section \<open>One page\<close>

record page_state =
  pg_series :: "query_series list"
  pg_points :: nat
  pg_bytes :: nat

text \<open>A source may be read for a path when no observation of it hides the path.\<close>

definition path_readable :: "known_fields_map \<Rightarrow> string \<times> string \<Rightarrow> string \<Rightarrow> nat \<Rightarrow> projected list \<Rightarrow> engine_error + bool" where
  "path_readable known key path index points =
     (case bm_get known (fst key, snd key, path) of
        None \<Rightarrow>
          if list_ex (\<lambda>p. excludes (pt_exclusions p) path) points
          then Inl (EngineInvalid ''selected source has an incomplete field index; select indexed source/fields'')
          else Inr False
      | Some first \<Rightarrow>
          if list_ex (\<lambda>p. excludes (pt_exclusions p) path \<and> pt_id p < first \<and> pt_values p ! index = None) points
          then Inl (EngineInvalid
                 ''field coverage is incomplete in a truncated snapshot index; narrow source/time filters'')
          else Inr True)"

definition charge_point :: "query_ext \<Rightarrow> projected list \<Rightarrow> nat \<Rightarrow> nat \<Rightarrow> engine_error + nat" where
  "charge_point Q points bytes position =
     rbind (map_err Json (qx_session_bytes Q (pt_session (points ! position)))) (\<lambda>n.
     let bytes = bytes + (n + 128) in
     rbind (ensure (\<not> MAX_SNAPSHOT_PAGE_BYTES < bytes)
              (EngineInvalid ''snapshot query response exceeds 16 MiB; narrow query'')) (\<lambda>_. Inr bytes))"

definition series_at ::
  "string \<times> string \<Rightarrow> string \<Rightarrow> nat \<Rightarrow> projected list \<Rightarrow> nat list \<Rightarrow> query_series" where
  "series_at key path index points positions =
     (let ps = map (\<lambda>i. points ! i) positions in
      \<lparr>qs_run_id = fst key, qs_source_id = snd key, qs_path = path, qs_snapshot_ids = map pt_id ps,
       qs_session_ids = map pt_session ps, qs_sequences = map pt_sequence ps, qs_axes = map pt_axis ps,
       qs_observed_at_ns = map pt_observed ps, qs_values = map (\<lambda>p. pt_values p ! index) ps\<rparr>)"

definition page_path ::
  "query_ext \<Rightarrow> query_request \<Rightarrow> known_fields_map \<Rightarrow> string \<times> string \<Rightarrow> projected list \<Rightarrow> page_state
   \<Rightarrow> nat \<times> string \<Rightarrow> engine_error + page_state" where
  "page_path Q q known key points st = (\<lambda>(index, path).
     rbind (path_readable known key path index points) (\<lambda>readable.
     if \<not> readable then Inr st
     else
       let count = min (length points) (qr_max_points q); output = pg_points st + count in
       rbind (ensure (\<not> MAX_QUERY_OUTPUT_POINTS < output)
                (EngineInvalid ''snapshot query output budget exceeded; narrow query'')) (\<lambda>_.
       rbind (map_err Json (qx_key_bytes Q (fst key, snd key, path))) (\<lambda>n.
       let positions = sample_positions (length points) count (\<lambda>i. pt_values (points ! i) ! index = None) in
       rbind (try_fold (charge_point Q points) (pg_bytes st + (n + 256)) positions) (\<lambda>bytes.
       Inr \<lparr>pg_series = pg_series st @ [series_at key path index points positions],
            pg_points = output, pg_bytes = bytes\<rparr>)))))"

definition page_group ::
  "query_ext \<Rightarrow> query_request \<Rightarrow> known_fields_map \<Rightarrow> page_state \<Rightarrow> (string \<times> string) \<times> projected list
   \<Rightarrow> engine_error + page_state" where
  "page_group Q q known st = (\<lambda>(key, points).
     try_fold (page_path Q q known key (sort_key (\<lambda>p. (pt_axis p, pt_observed p, pt_sequence p)) points)) st
       (enumerate 0 (qr_paths q)))"

definition query_page ::
  "chart_ext \<Rightarrow> query_ext \<Rightarrow> snap_row list \<Rightarrow> chart_index \<Rightarrow> query_request \<Rightarrow> engine_error + query_response" where
  "query_page C Q rows ci q =
     rbind (projection C Q rows ci q) (\<lambda>(known, groups).
     rbind (try_fold (page_group Q q known) \<lparr>pg_series = [], pg_points = 0, pg_bytes = PAGE_ENVELOPE_RESERVE\<rparr> groups) (\<lambda>st.
     let response = \<lparr>qp_axis = qr_axis q, qp_series = pg_series st\<rparr> in
     rbind (map_err Json (qx_response_bytes Q response)) (\<lambda>n.
     rbind (ensure (\<not> MAX_SNAPSHOT_PAGE_BYTES < n)
              (EngineInvalid ''snapshot query response exceeds 16 MiB; narrow query'')) (\<lambda>_. Inr response))))"

section \<open>Long histories\<close>

definition scan_budget :: "engine_error \<Rightarrow> bool" where
  "scan_budget e =
     (case e of
        EngineInvalid message \<Rightarrow>
          starts_with ''snapshot query scan budget exceeded'' message
          \<or> starts_with ''snapshot query scan byte budget exceeded'' message
          \<or> starts_with ''snapshot projection budget exceeded'' message
      | _ \<Rightarrow> False)"

text \<open>The value of the axis for a row that has been indexed.\<close>

definition indexed_axis :: "chart_index \<Rightarrow> query_request \<Rightarrow> snap_row \<Rightarrow> int option" where
  "indexed_axis ci q r =
     (case (bm_get (ci_runs ci) (row_run_id r), bm_get (ci_observations ci) (row_id r)) of
        (Some summary, Some _) \<Rightarrow>
          if qr_axis q = ''wall_time'' then Some (row_observed_at_ns r)
          else if qr_axis q = ''elapsed'' then Some (row_observed_at_ns r - cr_first_observed_at_ns summary)
          else bm_get (ci_axes ci) (row_id r, qr_axis q)
      | _ \<Rightarrow> None)"

definition query_bounds :: "snap_row list \<Rightarrow> chart_index \<Rightarrow> query_request \<Rightarrow> engine_error + int \<times> int \<times> nat" where
  "query_bounds rows ci q =
     (let xs = filter (in_range (qr_from q) (qr_to q))
                 (List.map_filter (indexed_axis ci q)
                   (filter (\<lambda>r. id_filter (qr_run_ids q) (row_run_id r) \<and> id_filter (qr_source_ids q) (row_source_id r)) rows))
      in case xs of
           [] \<Rightarrow> Inl (EngineInvalid ''chart history has no splittable observation range; narrow source/field filters'')
         | x # _ \<Rightarrow> Inr (foldl min x xs, foldl max x xs, length xs))"

definition window_count :: "nat \<Rightarrow> nat \<Rightarrow> int \<Rightarrow> nat" where
  "window_count paths count span' =
     (let page_rows = min (MAX_QUERY_SCAN_ROWS div 2) (MAX_QUERY_OUTPUT_POINTS * 5 div paths);
          pages = min (max ((count + page_rows - 1) div page_rows) 2) MAX_QUERY_WINDOWS
      in nat (min (int pages) span'))"

definition query_windows :: "int \<Rightarrow> int \<Rightarrow> nat \<Rightarrow> (int \<times> int) list" where
  "query_windows from' span' pages =
     map (\<lambda>i. (from' + span' * int i div int pages, from' + span' * int (i + 1) div int pages - 1)) [0..<pages]"

definition window_request :: "query_request \<Rightarrow> int \<Rightarrow> int \<times> int \<Rightarrow> query_request" where
  "window_request q span' = (\<lambda>(start, end').
     q\<lparr>qr_from := Some start, qr_to := Some end',
       qr_max_points := nat (max ((int (qr_max_points q) * (end' - start + 1) + span' - 1) div span') 2)\<rparr>)"

type_synonym query_series_map = "(string \<times> string \<times> string, query_series) bmap"

definition append_series :: "query_series \<Rightarrow> query_series \<Rightarrow> query_series" where
  "append_series a b =
     a\<lparr>qs_snapshot_ids := qs_snapshot_ids a @ qs_snapshot_ids b, qs_session_ids := qs_session_ids a @ qs_session_ids b,
       qs_sequences := qs_sequences a @ qs_sequences b, qs_axes := qs_axes a @ qs_axes b,
       qs_observed_at_ns := qs_observed_at_ns a @ qs_observed_at_ns b, qs_values := qs_values a @ qs_values b\<rparr>"

definition merge_part :: "nat \<Rightarrow> nat \<times> query_series_map \<Rightarrow> query_series \<Rightarrow> engine_error + nat \<times> query_series_map" where
  "merge_part bytes = (\<lambda>(points, series) part.
     let points = points + length (qs_values part) in
     rbind (ensure (\<not> (MAX_QUERY_OUTPUT_POINTS * 2 < points \<or> MAX_QUERY_SCAN_BYTES < bytes))
              (EngineInvalid ''partitioned chart working set exceeds budget; narrow run/source/field filters'')) (\<lambda>_.
     let key = (qs_run_id part, qs_source_id part, qs_path part)
     in Inr (points, bm_insert key (case bm_get series key of Some s \<Rightarrow> append_series s part | None \<Rightarrow> part) series)))"

function query_parts ::
  "(query_request \<Rightarrow> engine_error + query_response) \<Rightarrow> (query_response \<Rightarrow> string + nat) \<Rightarrow> query_request \<Rightarrow> int
   \<Rightarrow> nat \<Rightarrow> nat \<Rightarrow> nat \<Rightarrow> query_series_map \<Rightarrow> (int \<times> int) list \<Rightarrow> engine_error + query_series_map" where
  "query_parts page size' q span' reads points bytes series [] = Inr series"
| "query_parts page size' q span' reads points bytes series ((start, end') # windows) =
     (if MAX_QUERY_WINDOWS < reads + 1
      then Inl (EngineInvalid ''chart history exceeds 64 bounded scans; narrow run/source/time filters'')
      else case page (window_request q span' (start, end')) of
          Inr response \<Rightarrow>
            rbind (map_err Json (size' response)) (\<lambda>n.
            rbind (try_fold (merge_part (bytes + n)) (points, series) (qp_series response)) (\<lambda>(points, series).
            query_parts page size' q span' (reads + 1) points (bytes + n) series windows))
        | Inl e \<Rightarrow>
            if scan_budget e \<and> start < end'
            then let middle = start + (end' - start) div 2
                 in query_parts page size' q span' (reads + 1) points bytes series
                      ((start, middle) # (middle + 1, end') # windows)
            else Inl e)"
  by pat_completeness auto
termination
  by (relation "measure (\<lambda>(page, size', q, span', reads, points, bytes, series, windows). 65 - reads)") auto

definition sample_series :: "nat \<Rightarrow> query_series \<Rightarrow> query_series" where
  "sample_series max_points s =
     (let positions = sample_positions (length (qs_values s)) (min max_points (length (qs_values s)))
            (\<lambda>i. qs_values s ! i = None)
      in s\<lparr>qs_snapshot_ids := map (\<lambda>i. qs_snapshot_ids s ! i) positions,
           qs_session_ids := map (\<lambda>i. qs_session_ids s ! i) positions,
           qs_sequences := map (\<lambda>i. qs_sequences s ! i) positions,
           qs_axes := map (\<lambda>i. qs_axes s ! i) positions,
           qs_observed_at_ns := map (\<lambda>i. qs_observed_at_ns s ! i) positions,
           qs_values := map (\<lambda>i. qs_values s ! i) positions\<rparr>)"

definition output_series :: "nat \<Rightarrow> nat \<times> query_series list \<Rightarrow> query_series \<Rightarrow> engine_error + nat \<times> query_series list" where
  "output_series max_points = (\<lambda>(output, series) item.
     let s = sample_series max_points item; output = output + length (qs_values s) in
     rbind (ensure (\<not> MAX_QUERY_OUTPUT_POINTS < output)
              (EngineInvalid ''snapshot query output budget exceeded; narrow query'')) (\<lambda>_.
     Inr (output, series @ [s])))"

definition store_query ::
  "chart_ext \<Rightarrow> query_ext \<Rightarrow> snap_row list \<Rightarrow> chart_index \<Rightarrow> query_request \<Rightarrow> engine_error + query_response" where
  "store_query C Q rows ci q =
     (case query_page C Q rows ci q of
        Inr response \<Rightarrow> Inr response
      | Inl e \<Rightarrow>
          if \<not> scan_budget e then Inl e
          else
            rbind (query_bounds rows ci q) (\<lambda>(from', to', count).
            let span' = to' - from' + 1; pages = window_count (length (qr_paths q)) count span' in
            rbind (query_parts (query_page C Q rows ci) (qx_response_bytes Q) q span' 0 0 0 []
                     (query_windows from' span' pages)) (\<lambda>series.
            rbind (try_fold (output_series (qr_max_points q)) (0, []) (map snd series)) (\<lambda>(_, out).
            let response = \<lparr>qp_axis = qr_axis q, qp_series = out\<rparr> in
            rbind (map_err Json (qx_response_bytes Q response)) (\<lambda>n.
            rbind (ensure (\<not> MAX_SNAPSHOT_PAGE_BYTES < n)
                     (EngineInvalid ''snapshot query response exceeds 16 MiB; narrow query'')) (\<lambda>_. Inr response))))))"

end
