(* ===== verification/Chart_Query_Props.thy ===== *)
theory Chart_Query_Props
  imports Chart_Query Store_Props
begin

text \<open>
  Chart queries report what the snapshots hold: every value of a series is the finite number at its
  path in the stored state, and a missing value means that there is none.
\<close>

section \<open>The cells of a row\<close>

definition update_cells :: "string list \<Rightarrow> f64 option list \<Rightarrow> (string \<times> f64) list \<Rightarrow> f64 option list" where
  "update_cells paths vals cells = foldl (\<lambda>vs (path, v). vs[position_of path paths := Some v]) vals cells"

lemma position_of_nth: "distinct paths \<Longrightarrow> k < length paths \<Longrightarrow> position_of (paths ! k) paths = k"
  by (induction paths arbitrary: k) (auto simp: nth_Cons split: nat.splits)

lemma nth_position_of: "p \<in> set paths \<Longrightarrow> position_of p paths < length paths \<and> paths ! position_of p paths = p"
  by (induction paths) auto

lemma update_cells_simps [simp]:
  "update_cells paths vals [] = vals"
  "update_cells paths vals ((path, v) # cells) = update_cells paths (vals[position_of path paths := Some v]) cells"
  by (simp_all add: update_cells_def)

lemma length_update_cells [simp]: "length (update_cells paths vals cells) = length vals"
  by (induction cells arbitrary: vals) auto

lemma update_cells_nth:
  assumes "distinct paths" and "length vals = length paths" and "k < length paths"
    and "\<forall>c \<in> set cells. fst c \<in> set paths" and "distinct (map fst cells)"
  shows "update_cells paths vals cells ! k = (case map_of cells (paths ! k) of Some v \<Rightarrow> Some v | None \<Rightarrow> vals ! k)"
  using assms(2,4,5)
proof (induction cells arbitrary: vals)
  case (Cons c cells)
  obtain path v where c: "c = (path, v)" by force
  have pos: "position_of path paths < length paths" "paths ! position_of path paths = path"
    using Cons.prems(2) nth_position_of [of path paths] by (auto simp: c)
  have "position_of path paths = k \<longleftrightarrow> paths ! k = path"
    using pos assms(1,3) by (metis position_of_nth)
  moreover have "map_of cells path = None" using Cons.prems(3) by (simp add: c map_of_eq_None_iff)
  ultimately show ?case
    using Cons.IH [of "vals[position_of path paths := Some v]"] Cons.prems assms(3) pos
    by (auto simp: c nth_list_update split: option.split)
qed simp

lemma map_of_cells:
  "map_of (map (\<lambda>((key, path), v). (path, v)) (filter (\<lambda>((key, path), v). key = i \<and> path \<in> S) m)) p
   = (if p \<in> S then map_of m (i, p) else None)"
  by (induction m) auto

lemma row_cells_facts:
  assumes "bm_sorted (ci_values ci)"
  shows "\<forall>c \<in> set (row_cells ci paths r). fst c \<in> set paths" and "distinct (map fst (row_cells ci paths r))"
    and "p \<in> set paths \<Longrightarrow> map_of (row_cells ci paths r) p = bm_get (ci_values ci) (row_id r, p)"
proof -
  show "\<forall>c \<in> set (row_cells ci paths r). fst c \<in> set paths" by (auto simp: row_cells_def)
  show "p \<in> set paths \<Longrightarrow> map_of (row_cells ci paths r) p = bm_get (ci_values ci) (row_id r, p)"
    by (simp add: row_cells_def map_of_cells bm_get_def)
  let ?m = "filter (\<lambda>((key, path), v). key = row_id r \<and> path \<in> set paths) (ci_values ci)"
  have "distinct (map fst ?m)"
    using assms bm.entries_distinct by (intro distinct_map_filter) blast
  moreover have "map fst (row_cells ci paths r) = map snd (map fst ?m)"
    by (auto simp: row_cells_def)
  moreover have "inj_on snd (set (map fst ?m))" by (auto simp: inj_on_def)
  ultimately show "distinct (map fst (row_cells ci paths r))" by (simp only: distinct_map)
qed

section \<open>Scanning\<close>

text \<open>What a point says of the row it was read from.\<close>

definition row_point :: "chart_ext \<Rightarrow> chart_index \<Rightarrow> query_request \<Rightarrow> snap_row \<Rightarrow> projected \<Rightarrow> bool" where
  "row_point C ci q r p \<longleftrightarrow>
     pt_id p = row_id r \<and> pt_session p = row_session_id r \<and> pt_sequence p = row_sequence r
     \<and> pt_observed p = row_observed_at_ns r \<and> in_range (qr_from q) (qr_to q) (pt_axis p)
     \<and> (\<exists>tr text'. bm_get (ci_observations ci) (row_id r) = Some (tr, text')
          \<and> strings_of_text C text' = Inr (pt_exclusions p))
     \<and> pt_values p = update_cells (qr_paths q) (replicate (length (qr_paths q)) None) (row_cells ci (qr_paths q) r)"

definition group_of :: "scan_state \<Rightarrow> snap_row \<Rightarrow> projected list" where
  "group_of st r = (case bm_get (sc_groups st) (row_run_id r, row_source_id r) of Some ps \<Rightarrow> ps | None \<Rightarrow> [])"

lemma axis_value_cell:
  "axis_value q \<lparr>jn_row = r, jn_first = f, jn_axis = a, jn_exclusions = x, jn_cell = cell\<rparr>
   = axis_value q \<lparr>jn_row = r, jn_first = f, jn_axis = a, jn_exclusions = x, jn_cell = None\<rparr>"
  unfolding axis_value_def by simp

text \<open>The later rows of a snapshot set the remaining values of its point.\<close>

lemma scan_later:
  assumes "sc_last st = Some (row_id r)" and "bm_sorted (sc_groups st)" and "group_of st r = ps @ [p]"
    and "axis_value q \<lparr>jn_row = r, jn_first = f, jn_axis = a, jn_exclusions = x, jn_cell = None\<rparr> = Inr (Some axis)"
    and "in_range (qr_from q) (qr_to q) axis"
    and "bm_get (sc_groups st) (row_run_id r, row_source_id r) \<noteq> None"
    and "try_fold (scan_joined C q) st
      (map (\<lambda>cell. \<lparr>jn_row = r, jn_first = f, jn_axis = a, jn_exclusions = x, jn_cell = Some cell\<rparr>) cells) = Inr st'"
  shows "sc_last st' = Some (row_id r) \<and> bm_sorted (sc_groups st')
    \<and> (\<forall>k. bm_get (sc_groups st') k = (if k = (row_run_id r, row_source_id r)
         then Some (ps @ [p\<lparr>pt_values := update_cells (qr_paths q) (pt_values p) cells\<rparr>]) else bm_get (sc_groups st) k))"
  using assms(1,2,3,6,7)
proof (induction cells arbitrary: st p)
  case Nil
  then show ?case by (auto simp: group_of_def)
next
  case (Cons c cells)
  obtain path v where c: "c = (path, v)" by force
  let ?j = "\<lambda>cell. \<lparr>jn_row = r, jn_first = f, jn_axis = a, jn_exclusions = x, jn_cell = cell\<rparr>"
  have av: "axis_value q (?j cell) = Inr (Some axis)" for cell
    using assms(4) axis_value_cell [of q r f a x cell] by simp
  let ?p = "p\<lparr>pt_values := (pt_values p)[position_of path (qr_paths q) := Some v]\<rparr>"
  from Cons.prems(5) obtain st1 where one: "scan_joined C q st (?j (Some c)) = Inr st1"
    and rest: "try_fold (scan_joined C q) st1 (map (\<lambda>cell. ?j (Some cell)) cells) = Inr st'"
    by (auto simp: rbind_eq_Inr)
  from one Cons.prems(1,3) assms(5) have st1: "sc_last st1 = Some (row_id r)"
      "sc_groups st1 = bm_insert (row_run_id r, row_source_id r) (ps @ [?p]) (sc_groups st)"
    by (auto simp: scan_joined_def av rbind_eq_Inr Let_def c set_last_value_def group_of_def[symmetric])
  have srt: "bm_sorted (sc_groups st1)" using Cons.prems(2) by (simp add: st1 bm_sorted_insert)
  have "group_of st1 r = ps @ [?p]" "bm_get (sc_groups st1) (row_run_id r, row_source_id r) \<noteq> None"
    using Cons.prems(2) by (simp_all add: group_of_def st1 bm_get_insert)
  from Cons.IH [OF st1(1) srt this rest] show ?case
    using Cons.prems(2) by (simp add: st1(2) bm_get_insert c)
qed

text \<open>The first row of a snapshot opens its point, when its axis has a value in the range.\<close>

definition in_axis :: "query_request \<Rightarrow> joined \<Rightarrow> int \<Rightarrow> bool" where
  "in_axis q j axis \<longleftrightarrow> axis_value q j = Inr (Some axis) \<and> in_range (qr_from q) (qr_to q) axis"

lemma scan_outside:
  assumes "scan_joined C q st j = Inr st'" and "\<nexists>axis. in_axis q j axis"
  shows "sc_groups st' = sc_groups st \<and> sc_last st' = Some (row_id (jn_row j))"
  using assms by (auto simp: scan_joined_def in_axis_def count_snapshot_def result_iffs Let_def
      split: if_splits option.splits)

lemma scan_first:
  assumes "scan_joined C q st j = Inr st'" and "in_axis q j axis" and "sc_last st \<noteq> Some (row_id (jn_row j))"
  obtains p where "new_point C q j axis = Inr p" and "sc_last st' = Some (row_id (jn_row j))"
    and "sc_groups st' = bm_insert (row_run_id (jn_row j), row_source_id (jn_row j))
      (group_of st (jn_row j) @ [p\<lparr>pt_values := update_cells (qr_paths q) (pt_values p) (case jn_cell j of None \<Rightarrow> [] | Some c \<Rightarrow> [c])\<rparr>])
      (sc_groups st)"
proof -
  from assms(1,2) obtain st1 where axis: "axis_value q j = Inr (Some axis)" "in_range (qr_from q) (qr_to q) axis"
      and st1: "count_snapshot q j st = Inr st1"
    using assms(3) by (auto simp: scan_joined_def in_axis_def rbind_eq_Inr Let_def)
  have same: "sc_groups st1 = sc_groups st" "sc_last st1 = Some (row_id (jn_row j))"
    using st1 by (auto simp: count_snapshot_def result_iffs Let_def)
  obtain p where p: "new_point C q j axis = Inr p"
    using assms(1,3) by (auto simp: scan_joined_def axis rbind_eq_Inr Let_def st1)
  show thesis
  proof (rule that [OF p])
    show "sc_last st' = Some (row_id (jn_row j))"
      using assms(1,3) same by (auto simp: scan_joined_def axis result_iffs Let_def st1 p split: option.splits)
    show "sc_groups st' = bm_insert (row_run_id (jn_row j), row_source_id (jn_row j))
      (group_of st (jn_row j) @ [p\<lparr>pt_values := update_cells (qr_paths q) (pt_values p) (case jn_cell j of None \<Rightarrow> [] | Some c \<Rightarrow> [c])\<rparr>])
      (sc_groups st)"
      using assms(1,3) same
      by (auto simp: scan_joined_def axis result_iffs Let_def st1 p set_last_value_def group_of_def split: option.splits)
  qed
qed

text \<open>A row adds at most one point, to the group of its run and source.\<close>

definition charted :: "chart_index \<Rightarrow> query_request \<Rightarrow> snap_row \<Rightarrow> bool" where
  "charted ci q r \<longleftrightarrow> join_row ci q r \<noteq> [] \<and> (\<exists>axis. in_axis q (hd (join_row ci q r)) axis)"

definition row_scanned :: "chart_ext \<Rightarrow> chart_index \<Rightarrow> query_request \<Rightarrow> snap_row \<Rightarrow> scan_state \<Rightarrow> scan_state \<Rightarrow> bool" where
  "row_scanned C ci q r st st' \<longleftrightarrow>
     bm_sorted (sc_groups st') \<and> (sc_last st' = sc_last st \<or> sc_last st' = Some (row_id r))
     \<and> (if charted ci q r
        then \<exists>p. row_point C ci q r p \<and> (\<forall>k. bm_get (sc_groups st') k =
              (if k = (row_run_id r, row_source_id r) then Some (group_of st r @ [p]) else bm_get (sc_groups st) k))
        else \<forall>k. bm_get (sc_groups st') k = bm_get (sc_groups st) k)"

lemma scan_all_outside:
  assumes "try_fold (scan_joined C q) st js = Inr st'" and "\<forall>j \<in> set js. jn_row j = r \<and> (\<nexists>axis. in_axis q j axis)"
  shows "sc_groups st' = sc_groups st \<and> (sc_last st' = sc_last st \<or> sc_last st' = Some (row_id r))"
  using assms
proof (induction js arbitrary: st)
  case (Cons j js)
  then obtain st1 where "scan_joined C q st j = Inr st1" "try_fold (scan_joined C q) st1 js = Inr st'"
    by (auto simp: rbind_eq_Inr)
  with Cons scan_outside [of C q st j st1] show ?case by auto
qed simp

lemma join_row_parts:
  assumes "join_row ci q r \<noteq> []"
  obtains f a tr x where "bm_get (ci_observations ci) (row_id r) = Some (tr, x)"
    and "row_cells ci (qr_paths q) r = [] \<Longrightarrow> join_row ci q r
      = [\<lparr>jn_row = r, jn_first = f, jn_axis = a, jn_exclusions = x, jn_cell = None\<rparr>]"
    and "row_cells ci (qr_paths q) r \<noteq> [] \<Longrightarrow> join_row ci q r
      = map (\<lambda>cell. \<lparr>jn_row = r, jn_first = f, jn_axis = a, jn_exclusions = x, jn_cell = Some cell\<rparr>) (row_cells ci (qr_paths q) r)"
proof -
  from assms obtain s tr x where "bm_get (ci_runs ci) (row_run_id r) = Some s"
    and "bm_get (ci_observations ci) (row_id r) = Some (tr, x)"
    by (auto simp: join_row_def split: option.splits)
  then show thesis
    by (intro that [of tr x "cr_first_observed_at_ns s" "bm_get (ci_axes ci) (row_id r, qr_axis q)"])
      (simp_all add: join_row_def Let_def comp_def)
qed

lemma scan_row:
  assumes scan: "try_fold (scan_joined C q) st (join_row ci q r) = Inr st'"
    and last: "sc_last st \<noteq> Some (row_id r)" and srt: "bm_sorted (sc_groups st)"
  shows "row_scanned C ci q r st st'"
proof (cases "join_row ci q r = []")
  case True
  then show ?thesis using scan srt by (simp add: row_scanned_def charted_def)
next
  case False
  then obtain f a tr x where obs: "bm_get (ci_observations ci) (row_id r) = Some (tr, x)"
    and none: "row_cells ci (qr_paths q) r = [] \<Longrightarrow> join_row ci q r
      = [\<lparr>jn_row = r, jn_first = f, jn_axis = a, jn_exclusions = x, jn_cell = None\<rparr>]"
    and some: "row_cells ci (qr_paths q) r \<noteq> [] \<Longrightarrow> join_row ci q r
      = map (\<lambda>cell. \<lparr>jn_row = r, jn_first = f, jn_axis = a, jn_exclusions = x, jn_cell = Some cell\<rparr>) (row_cells ci (qr_paths q) r)"
    by (rule join_row_parts) (rule that)
  let ?j = "\<lambda>cell. \<lparr>jn_row = r, jn_first = f, jn_axis = a, jn_exclusions = x, jn_cell = cell\<rparr>"
  let ?key = "(row_run_id r, row_source_id r)"
  have cell: "in_axis q (?j c) axis = in_axis q (?j None) axis" for c axis
    unfolding in_axis_def by (subst axis_value_cell) (rule refl)
  obtain first rest where js: "join_row ci q r = ?j first # map (\<lambda>c. ?j (Some c)) rest"
    and cells: "row_cells ci (qr_paths q) r = (case first of None \<Rightarrow> [] | Some c \<Rightarrow> [c]) @ rest"
  proof (cases "row_cells ci (qr_paths q) r")
    case Nil
    then show thesis using none by (intro that [of None "[]"]) simp_all
  next
    case (Cons c cs)
    then show thesis using some by (intro that [of "Some c" cs]) simp_all
  qed
  have charted: "charted ci q r \<longleftrightarrow> (\<exists>axis. in_axis q (?j None) axis)" unfolding charted_def js using cell [of first] by auto
  show ?thesis
  proof (cases "\<exists>axis. in_axis q (?j None) axis")
    case False
    have "\<forall>j \<in> set (join_row ci q r). jn_row j = r \<and> (\<nexists>axis. in_axis q j axis)"
      using False cell by (auto simp: js)
    from scan_all_outside [OF scan this] show ?thesis using srt False by (simp add: row_scanned_def charted)
  next
    case True
    then obtain axis where axis: "in_axis q (?j None) axis" by blast
    from scan obtain st1 where one: "scan_joined C q st (?j first) = Inr st1"
      and more: "try_fold (scan_joined C q) st1 (map (\<lambda>c. ?j (Some c)) rest) = Inr st'"
      by (auto simp: js rbind_eq_Inr)
    obtain p where p: "new_point C q (?j first) axis = Inr p" and l1: "sc_last st1 = Some (row_id r)"
      and g1: "sc_groups st1 = bm_insert ?key
        (group_of st r @ [p\<lparr>pt_values := update_cells (qr_paths q) (pt_values p) (case first of None \<Rightarrow> [] | Some c \<Rightarrow> [c])\<rparr>])
        (sc_groups st)"
      using scan_first [OF one] axis last cell [of first axis] by auto
    let ?p = "p\<lparr>pt_values := update_cells (qr_paths q) (pt_values p) (case first of None \<Rightarrow> [] | Some c \<Rightarrow> [c])\<rparr>"
    have s1: "bm_sorted (sc_groups st1)" using srt by (simp add: g1 bm_sorted_insert)
    have grp: "group_of st1 r = group_of st r @ [?p]" "bm_get (sc_groups st1) ?key \<noteq> None"
      using srt by (simp_all add: group_of_def g1 bm_get_insert)
    have done': "sc_last st' = Some (row_id r) \<and> bm_sorted (sc_groups st')
      \<and> (\<forall>k. bm_get (sc_groups st') k = (if k = ?key
         then Some (group_of st r @ [?p\<lparr>pt_values := update_cells (qr_paths q) (pt_values ?p) rest\<rparr>])
         else bm_get (sc_groups st1) k))"
      using axis by (intro scan_later [OF l1 s1 grp(1) _ _ grp(2) more]) (auto simp: in_axis_def)
    have vals: "pt_values p = replicate (length (qr_paths q)) None" using p by (auto simp: new_point_def rbind_eq_Inr)
    have "update_cells (qr_paths q) (pt_values ?p) rest
        = update_cells (qr_paths q) (replicate (length (qr_paths q)) None) (row_cells ci (qr_paths q) r)"
      by (simp add: vals cells update_cells_def)
    then have "row_point C ci q r (?p\<lparr>pt_values := update_cells (qr_paths q) (pt_values ?p) rest\<rparr>)"
      using p axis obs by (auto simp: row_point_def new_point_def result_iffs in_axis_def)
    with done' True show ?thesis
      unfolding row_scanned_def charted using srt by (auto simp: g1 bm_get_insert intro!: exI)
  qed
qed

text \<open>The groups hold one point for each charted row, in the order of the rows.\<close>

definition group_at :: "point_groups \<Rightarrow> string \<times> string \<Rightarrow> projected list" where
  "group_at groups k = (case bm_get groups k of Some ps \<Rightarrow> ps | None \<Rightarrow> [])"

definition rows_at :: "chart_index \<Rightarrow> query_request \<Rightarrow> string \<times> string \<Rightarrow> snap_row list \<Rightarrow> snap_row list" where
  "rows_at ci q k rows = filter (\<lambda>r. (row_run_id r, row_source_id r) = k \<and> charted ci q r) rows"

lemma scan_rows:
  assumes "try_fold (scan_joined C q) st (concat (map (join_row ci q) rows)) = Inr st'"
    and "distinct (map row_id rows)" and "sc_last st \<notin> Some ` row_id ` set rows" and "bm_sorted (sc_groups st)"
  shows "bm_sorted (sc_groups st')
    \<and> (\<exists>new. group_at (sc_groups st') k = group_at (sc_groups st) k @ new
         \<and> list_all2 (row_point C ci q) (rows_at ci q k rows) new)"
  using assms
proof (induction rows arbitrary: st)
  case Nil
  then show ?case by (simp add: rows_at_def)
next
  case (Cons r rows)
  from Cons.prems(1) obtain st1 where one: "try_fold (scan_joined C q) st (join_row ci q r) = Inr st1"
    and more: "try_fold (scan_joined C q) st1 (concat (map (join_row ci q) rows)) = Inr st'"
    by (auto simp: try_fold_append rbind_eq_Inr)
  have sc: "row_scanned C ci q r st st1" by (rule scan_row [OF one _ Cons.prems(4)]) (use Cons.prems(3) in auto)
  then have "sc_last st1 \<notin> Some ` row_id ` set rows" "bm_sorted (sc_groups st1)"
    using Cons.prems(2,3) by (auto simp: row_scanned_def)
  from Cons.IH [OF more _ this] Cons.prems(2) obtain new where srt: "bm_sorted (sc_groups st')"
    and new: "group_at (sc_groups st') k = group_at (sc_groups st1) k @ new"
      "list_all2 (row_point C ci q) (rows_at ci q k rows) new" by auto
  show ?case
  proof (cases "charted ci q r \<and> (row_run_id r, row_source_id r) = k")
    case True
    then obtain p where p: "row_point C ci q r p" "bm_get (sc_groups st1) k = Some (group_of st r @ [p])"
      using sc by (auto simp: row_scanned_def)
    then have "group_at (sc_groups st1) k = group_at (sc_groups st) k @ [p]"
      using True by (auto simp: group_at_def group_of_def)
    then show ?thesis using srt new p(1) True by (intro conjI exI [of _ "p # new"]) (simp_all add: rows_at_def)
  next
    case False
    then have "bm_get (sc_groups st1) k = bm_get (sc_groups st) k"
      using sc by (cases k) (auto simp: row_scanned_def split: if_splits)
    then have "group_at (sc_groups st1) k = group_at (sc_groups st) k" by (simp add: group_at_def)
    then show ?thesis using srt new False by (intro conjI exI [of _ new]) (auto simp: rows_at_def)
  qed
qed

section \<open>What a page knows\<close>

lemma scan_fields_known:
  assumes "scan_fields Q ci q = Inr (bytes, known)"
  shows "bm_sorted known" and "bm_get known k = Some first \<Longrightarrow> (k, first) \<in> set (ci_fields ci)"
proof -
  from assms have fold: "try_fold scan_field (0, []) (take 1000001 (filter (field_filter q) (ci_fields ci))) = Inr (bytes, known)"
    by (auto simp: scan_fields_def result_iffs)
  let ?P = "\<lambda>st. bm_sorted (snd st) \<and> (\<forall>k first. bm_get (snd st) k = Some first \<longrightarrow> (k, first) \<in> set (ci_fields ci))"
  have "?P (bytes, known)"
  proof (rule try_fold_invariant [OF _ _ fold])
    fix st x st' assume st: "?P st" and x: "x \<in> set (take 1000001 (filter (field_filter q) (ci_fields ci)))"
      and step: "scan_field st x = Inr st'"
    obtain run source path first where x': "x = ((run, source, path), first)" by (metis prod_cases4 surj_pair)
    have "snd st' = bm_insert (run, source, path) first (snd st)"
      using step by (cases st) (auto simp: scan_field_def x' result_iffs Let_def)
    moreover have "((run, source, path), first) \<in> set (ci_fields ci)" using in_set_takeD [OF x] by (simp add: x')
    ultimately show "?P st'" using st by (simp add: bm_sorted_insert bm_get_insert)
  qed simp
  then show "bm_sorted known" and "bm_get known k = Some first \<Longrightarrow> (k, first) \<in> set (ci_fields ci)"
    by (simp, cases k, simp)
qed

lemma projection_groups:
  assumes "projection C Q rows ci q = Inr (known, groups)" and "distinct (map row_id rows)"
  obtains ranges where "check_request q = Inr ()" and "\<exists>bytes. scan_fields Q ci q = Inr (bytes, known)"
    and "bm_sorted groups"
    and "\<And>k. list_all2 (row_point C ci q) (rows_at ci q k (selected_rows ci q ranges rows)) (group_at groups k)"
proof -
  from assms(1) obtain ranges bytes st where check: "check_request q = Inr ()"
    and fields: "scan_fields Q ci q = Inr (bytes, known)"
    and fold: "try_fold (scan_joined C q) \<lparr>sc_groups = [], sc_bytes = bytes, sc_rows = 0, sc_last = None\<rparr>
        (concat (map (join_row ci q) (selected_rows ci q ranges rows))) = Inr st"
    and groups: "groups = sc_groups st"
    by (auto simp: projection_def rbind_eq_Inr)
  have "distinct (map row_id (selected_rows ci q ranges rows))"
    unfolding selected_rows_def using assms(2)
    by (intro distinct_map_filter) (simp add: take_map [symmetric] distinct_map distinct_take inj_on_def)
  from scan_rows [OF fold this] show thesis
    using check fields by (intro that [of ranges]) (auto simp: groups group_at_def)
qed

section \<open>The series of a response\<close>

text \<open>An entry of a series is the number at its path in an indexed snapshot.\<close>

definition entry_good ::
  "serde_ext \<Rightarrow> snap_row list \<Rightarrow> string \<Rightarrow> string \<Rightarrow> string \<Rightarrow> int \<Rightarrow> string \<Rightarrow> nat \<Rightarrow> int \<Rightarrow> f64 option \<Rightarrow> bool" where
  "entry_good X rows run source path key session sequence observed v \<longleftrightarrow>
     (\<exists>r \<in> set rows. \<exists>s. row_id r = key \<and> row_run_id r = run \<and> row_source_id r = source
        \<and> row_session_id r = session \<and> row_sequence r = sequence \<and> row_observed_at_ns r = observed
        \<and> to_vec_snapshot X s = Inr (row_json r) \<and> is_tracker_event X (s_state s) = Inr False
        \<and> v = numeric_at (number_ext.truncate X) (s_state s) path)"

definition series_good :: "serde_ext \<Rightarrow> snap_row list \<Rightarrow> query_series \<Rightarrow> bool" where
  "series_good X rows s \<longleftrightarrow>
     length (qs_snapshot_ids s) = length (qs_values s) \<and> length (qs_session_ids s) = length (qs_values s)
     \<and> length (qs_sequences s) = length (qs_values s) \<and> length (qs_axes s) = length (qs_values s)
     \<and> length (qs_observed_at_ns s) = length (qs_values s)
     \<and> (\<forall>i < length (qs_values s). entry_good X rows (qs_run_id s) (qs_source_id s) (qs_path s)
          (qs_snapshot_ids s ! i) (qs_session_ids s ! i) (qs_sequences s ! i) (qs_observed_at_ns s ! i) (qs_values s ! i))"

lemma series_good_append:
  assumes "series_good X rows a" and "series_good X rows b"
    and "qs_run_id a = qs_run_id b" and "qs_source_id a = qs_source_id b" and "qs_path a = qs_path b"
  shows "series_good X rows (append_series a b)"
  using assms by (auto simp: series_good_def append_series_def nth_append)

lemma sample_positions_sorted:
  assumes "count \<le> len"
  shows "sorted_wrt (<) (sample_positions len count missing)"
proof (cases "count = 0")
  case True
  then show ?thesis by (simp add: sample_positions_def)
next
  case False
  then show ?thesis
    using sample_positions_sampled(1) [of count len missing] assms
    by (simp add: sampled_from_def steps_up_def sorted_wrt_iff_nth_Suc_transp)
qed

lemma sample_positions_bound:
  assumes "count \<le> len" and "i \<in> set (sample_positions len count missing)"
  shows "i < len"
proof (cases "count = 0")
  case True
  then show ?thesis using assms(2) by (simp add: sample_positions_def)
next
  case False
  then obtain ps where "sample_positions len count missing = ps @ [len - 1]"
    using sample_positions_sampled(1) [of count len missing] assms(1)
    by (metis append_butlast_last_id neq0_conv sampled_from_def)
  then have "i \<le> len - 1" using sample_positions_sorted [OF assms(1), of missing] assms(2) by (auto simp: sorted_wrt_append)
  then show ?thesis using False assms(1) by simp
qed

lemma sample_positions_length: "count \<le> len \<Longrightarrow> length (sample_positions len count missing) = count"
  using sample_positions_sampled(2) by (cases "count = 0") (auto simp: sample_positions_def)

lemma series_good_sample: "series_good X rows s \<Longrightarrow> series_good X rows (sample_series m s)"
proof -
  assume good: "series_good X rows s"
  let ?ps = "sample_positions (length (qs_values s)) (min m (length (qs_values s))) (\<lambda>i. qs_values s ! i = None)"
  have "?ps ! i < length (qs_values s)" if "i < length ?ps" for i
    using sample_positions_bound [OF min.cobounded2 nth_mem [OF that]] .
  then show ?thesis using good unfolding series_good_def sample_series_def Let_def by simp
qed

text \<open>A readable path of a point has the value of the snapshot.\<close>

lemma row_point_value:
  assumes ok: "chart_ok X C rows ci" and r: "r \<in> set rows" and p: "row_point C ci q r p"
    and paths: "distinct (qr_paths q)" "index < length (qr_paths q)"
    and field: "((row_run_id r, row_source_id r, qr_paths q ! index), first) \<in> set (ci_fields ci)"
    and shown: "\<not> (excludes (pt_exclusions p) (qr_paths q ! index) \<and> pt_id p < first \<and> pt_values p ! index = None)"
  shows "entry_good X rows (row_run_id r) (row_source_id r) (qr_paths q ! index) (pt_id p) (pt_session p)
    (pt_sequence p) (pt_observed p) (pt_values p ! index)"
proof -
  let ?path = "qr_paths q ! index"
  have srt: "bm_sorted (ci_values ci)" "bm_sorted (ci_fields ci)" using ok by (simp_all add: chart_ok_def)
  have v: "pt_values p ! index = bm_get (ci_values ci) (row_id r, ?path)"
    using p paths row_cells_facts [OF srt(1), where paths = "qr_paths q" and r = r]
    by (auto simp: row_point_def update_cells_nth split: option.split)
  have first: "bm_get (ci_fields ci) (row_run_id r, row_source_id r, ?path) = Some first"
    by (rule bm.get_iff_entry [OF srt(2), THEN iffD2, OF field])
  have "(row_run_id r, row_source_id r, ?path) \<in> set (bm_keys (ci_fields ci))"
    using field by (force simp: bm_keys_def)
  moreover have "\<forall>(run, source, path) \<in> set (bm_keys (ci_fields ci)). path \<in> range canon"
    using ok unfolding chart_ok_def by blast
  ultimately obtain ts where canon: "?path = canon ts" by fastforce
  obtain s where s: "to_vec_snapshot X s = Inr (row_json r)" "row_indexed X C ci r s"
    using ok r unfolding chart_ok_def by blast
  then have ev: "is_tracker_event X (s_state s) = Inr False"
    and acc: "accurate (number_ext.truncate X) ci r (s_state s) (pt_exclusions p) ?path"
    using p unfolding row_indexed_def row_point_def canon by auto
  have "bm_get (ci_values ci) (row_id r, ?path) = numeric_at (number_ext.truncate X) (s_state s) ?path"
    using acc shown p by (auto simp: accurate_def first v row_point_def)
  with v s(1) ev p show ?thesis
    unfolding entry_good_def row_point_def by (intro bexI [OF _ r] exI [of _ s]) simp
qed

text \<open>A page lists good series.\<close>

lemma check_request_paths: "check_request q = Inr () \<Longrightarrow> distinct (qr_paths q)"
  by (auto simp: check_request_def rbind_eq_Inr ensure_eq_Inr)

lemma list_all2_set2: "list_all2 R xs ys \<Longrightarrow> y \<in> set ys \<Longrightarrow> \<exists>x \<in> set xs. R x y"
  by (induction rule: list_all2_induct) auto

lemma page_path_series:
  assumes "page_path Q q known key points st (index, path) = Inr st'"
  shows "pg_series st' = pg_series st \<or> (\<exists>first positions. bm_get known (fst key, snd key, path) = Some first
      \<and> (\<forall>p \<in> set points. \<not> (excludes (pt_exclusions p) path \<and> pt_id p < first \<and> pt_values p ! index = None))
      \<and> (\<forall>i \<in> set positions. i < length points) \<and> sorted_wrt (<) positions \<and> length positions \<le> qr_max_points q
      \<and> pg_series st' = pg_series st @ [series_at key path index points positions])"
proof (cases "bm_get known (fst key, snd key, path)")
  case None
  then show ?thesis using assms by (auto simp: page_path_def path_readable_def rbind_eq_Inr split: if_splits)
next
  case (Some first)
  let ?ps = "sample_positions (length points) (min (length points) (qr_max_points q))
      (\<lambda>i. pt_values (points ! i) ! index = None)"
  have shown: "\<forall>p \<in> set points. \<not> (excludes (pt_exclusions p) path \<and> pt_id p < first \<and> pt_values p ! index = None)"
    using assms Some
    by (auto simp: page_path_def path_readable_def rbind_eq_Inr list_ex_iff split: if_splits)
  then have "path_readable known key path index points = Inr True"
    using Some by (auto simp: path_readable_def list_ex_iff)
  with assms have "pg_series st' = pg_series st @ [series_at key path index points ?ps]"
    by (auto simp: page_path_def result_iffs Let_def)
  moreover have "\<forall>i \<in> set ?ps. i < length points" using sample_positions_bound [OF min.cobounded1] by blast
  moreover have "length ?ps \<le> qr_max_points q" "sorted_wrt (<) ?ps"
    by (simp_all add: sample_positions_length sample_positions_sorted)
  ultimately show ?thesis using Some shown by blast
qed

lemma series_at_good:
  assumes "\<forall>p \<in> set points. entry_good X rows (fst key) (snd key) path (pt_id p) (pt_session p)
      (pt_sequence p) (pt_observed p) (pt_values p ! index)" and "\<forall>i \<in> set positions. i < length points"
  shows "series_good X rows (series_at key path index points positions)"
  using assms by (auto simp: series_good_def series_at_def Let_def)

lemma page_group_good:
  assumes ok: "chart_ok X C rows ci" and paths: "distinct (qr_paths q)"
    and known: "\<And>k first. bm_get known k = Some first \<Longrightarrow> (k, first) \<in> set (ci_fields ci)"
    and points: "list_all2 (row_point C ci q) (rows_at ci q key sel) points" and sel: "set sel \<subseteq> set rows"
    and good: "\<forall>s \<in> set (pg_series st). series_good X rows s"
    and page: "page_group Q q known st (key, points) = Inr st'"
  shows "\<forall>s \<in> set (pg_series st'). series_good X rows s"
proof (rule try_fold_invariant [where P = "\<lambda>st. \<forall>s \<in> set (pg_series st). series_good X rows s"])
  let ?points = "sort_key (\<lambda>p. (pt_axis p, pt_observed p, pt_sequence p)) points"
  show "try_fold (page_path Q q known key ?points) st (enumerate 0 (qr_paths q)) = Inr st'"
    using page by (simp add: page_group_def)
  fix st x st' assume st: "\<forall>s \<in> set (pg_series st). series_good X rows s"
    and x: "x \<in> set (enumerate 0 (qr_paths q))" and step: "page_path Q q known key ?points st x = Inr st'"
  obtain index path where ip: "x = (index, path)" "index < length (qr_paths q)" "path = qr_paths q ! index"
    using x by (intro that [of "fst x" "snd x"]) (simp_all add: in_set_enumerate_eq)
  have "entry_good X rows (fst key) (snd key) path (pt_id p) (pt_session p) (pt_sequence p) (pt_observed p)
      (pt_values p ! index)"
    if first: "bm_get known (fst key, snd key, path) = Some first"
      and shown: "\<forall>p \<in> set ?points. \<not> (excludes (pt_exclusions p) path \<and> pt_id p < first \<and> pt_values p ! index = None)"
      and p: "p \<in> set ?points" for first p
  proof -
    obtain r where r: "r \<in> set (rows_at ci q key sel)" "row_point C ci q r p"
      using list_all2_set2 [OF points] p by auto
    then have "r \<in> set rows" "(row_run_id r, row_source_id r) = key" using sel by (auto simp: rows_at_def)
    then show ?thesis
      using row_point_value [OF ok _ r(2) paths ip(2)] known [OF first] shown p ip(3) by auto
  qed
  with page_path_series [of Q q known key ?points st index path st'] step st
  show "\<forall>s \<in> set (pg_series st'). series_good X rows s"
    unfolding ip(1) using series_at_good [of ?points X rows key path index] by auto
qed (rule good)

lemma selected_subset: "set (selected_rows ci q ranges rows) \<subseteq> set rows"
  unfolding selected_rows_def by (auto dest!: in_set_takeD)

lemma query_page_good:
  assumes ok: "chart_ok X C rows ci" and ids: "distinct (map row_id rows)"
    and page: "query_page C Q rows ci q = Inr resp" and s: "s \<in> set (qp_series resp)"
  shows "series_good X rows s"
proof -
  from page obtain known groups st where proj: "projection C Q rows ci q = Inr (known, groups)"
    and fold: "try_fold (page_group Q q known) \<lparr>pg_series = [], pg_points = 0, pg_bytes = PAGE_ENVELOPE_RESERVE\<rparr> groups = Inr st"
    and resp: "qp_series resp = pg_series st"
    by (auto simp: query_page_def result_iffs Let_def)
  obtain ranges where check: "check_request q = Inr ()" and fields: "\<exists>bytes. scan_fields Q ci q = Inr (bytes, known)"
    and srt: "bm_sorted groups"
    and points: "\<And>k. list_all2 (row_point C ci q) (rows_at ci q k (selected_rows ci q ranges rows)) (group_at groups k)"
    by (rule projection_groups [OF proj ids]) (rule that)
  have known: "bm_get known k = Some first \<Longrightarrow> (k, first) \<in> set (ci_fields ci)" for k first
    using fields scan_fields_known(2) by blast
  have "\<forall>s \<in> set (pg_series st). series_good X rows s"
  proof (rule try_fold_invariant [where P = "\<lambda>st. \<forall>s \<in> set (pg_series st). series_good X rows s", OF _ _ fold])
    fix st x st' assume st: "\<forall>s \<in> set (pg_series st). series_good X rows s" and x: "x \<in> set groups"
      and step: "page_group Q q known st x = Inr st'"
    obtain key ps where kp: "x = (key, ps)" by (cases x)
    then have "group_at groups key = ps"
      using bm.get_iff_entry [OF srt, of key ps] x by (simp add: group_at_def)
    then show "\<forall>s \<in> set (pg_series st'). series_good X rows s"
      using page_group_good [OF ok check_request_paths [OF check] known _ selected_subset st] points [of key] step
      by (simp add: kp)
  qed simp
  then show ?thesis using s resp by simp
qed

text \<open>So does a history read in parts.\<close>

definition map_good :: "serde_ext \<Rightarrow> snap_row list \<Rightarrow> query_series_map \<Rightarrow> bool" where
  "map_good X rows m \<longleftrightarrow> bm_sorted m
     \<and> (\<forall>k s. bm_get m k = Some s \<longrightarrow> k = (qs_run_id s, qs_source_id s, qs_path s) \<and> series_good X rows s)"

lemma merge_part_good:
  assumes "map_good X rows (snd a)" and "series_good X rows part" and "merge_part bytes a part = Inr b"
  shows "map_good X rows (snd b)"
proof -
  let ?key = "(qs_run_id part, qs_source_id part, qs_path part)"
  let ?s = "case bm_get (snd a) ?key of Some s \<Rightarrow> append_series s part | None \<Rightarrow> part"
  have b: "snd b = bm_insert ?key ?s (snd a)"
    using assms(3) by (cases a) (auto simp: merge_part_def result_iffs Let_def)
  have "series_good X rows ?s \<and> ?key = (qs_run_id ?s, qs_source_id ?s, qs_path ?s)"
  proof (cases "bm_get (snd a) ?key")
    case (Some s)
    then have "?key = (qs_run_id s, qs_source_id s, qs_path s)" "series_good X rows s"
      using assms(1) unfolding map_good_def by blast+
    then show ?thesis using assms(2) Some series_good_append [of X rows s part] by (simp add: append_series_def)
  qed (simp add: assms(2))
  then show ?thesis using assms(1) unfolding map_good_def b by (auto simp: bm_sorted_insert bm_get_insert)
qed

lemma query_parts_good:
  assumes "\<And>q resp s. page q = Inr resp \<Longrightarrow> s \<in> set (qp_series resp) \<Longrightarrow> series_good X rows s"
    and "map_good X rows series"
    and "query_parts page size' q span' reads points bytes series windows = Inr m"
  shows "map_good X rows m"
  using assms
proof (induction page size' q span' reads points bytes series windows rule: query_parts.induct)
  case (2 page size' q span' reads points bytes series start end' windows)
  then have few: "\<not> MAX_QUERY_WINDOWS < reads + 1" by (auto split: if_splits)
  show ?case
  proof (cases "page (window_request q span' (start, end'))")
    case (Inr resp)
    with 2(5) few obtain n points1 series1 where
        parts: "try_fold (merge_part (bytes + n)) (points, series) (qp_series resp) = Inr (points1, series1)"
      and n: "map_err Json (size' resp) = Inr n"
      and rest: "query_parts page size' q span' (reads + 1) points1 (bytes + n) series1 windows = Inr m"
      by (auto simp: rbind_eq_Inr)
    have "map_good X rows (snd (points1, series1))"
    proof (rule try_fold_invariant [where P = "\<lambda>a. map_good X rows (snd a)", OF _ _ parts])
      show "map_good X rows (snd (points, series))" using 2(4) by simp
    qed (rule merge_part_good [OF _ 2(3) [OF Inr]])
    then show ?thesis using 2(2) [OF few Inr n parts refl 2(3) _ rest] by simp
  next
    case (Inl e)
    then show ?thesis using 2(1) [OF few Inl _ refl] 2(3,4,5) few by (auto split: if_splits simp: Let_def)
  qed
qed simp

lemma output_good:
  assumes "try_fold (output_series max_points) (output, acc) items = Inr (output', out)"
    and "\<forall>s \<in> set acc. series_good X rows s" and "\<forall>s \<in> set items. series_good X rows s"
  shows "\<forall>s \<in> set out. series_good X rows s"
proof -
  have "\<forall>s \<in> set (snd (output', out)). series_good X rows s"
    by (rule try_fold_invariant [where P = "\<lambda>a. \<forall>s \<in> set (snd a). series_good X rows s", OF _ _ assms(1)])
      (use assms(2,3) in \<open>auto simp: output_series_def result_iffs Let_def series_good_sample\<close>)
  then show ?thesis by simp
qed

lemma store_query_good:
  assumes ok: "chart_ok X C rows ci" and ids: "distinct (map row_id rows)"
    and query: "store_query C Q rows ci q = Inr resp" and s: "s \<in> set (qp_series resp)"
  shows "series_good X rows s"
proof (cases "query_page C Q rows ci q")
  case (Inr r)
  then show ?thesis using query_page_good [OF ok ids] query s by (simp add: store_query_def)
next
  case (Inl e)
  with query obtain span' m windows total where
      parts: "query_parts (query_page C Q rows ci) (qx_response_bytes Q) q span' 0 0 0 [] windows = Inr m"
    and out: "try_fold (output_series (qr_max_points q)) (0, []) (map snd m) = Inr (total, qp_series resp)"
    by (auto simp: store_query_def result_iffs Let_def split: if_splits)
  have m: "map_good X rows m"
    by (rule query_parts_good [OF _ _ parts]) (use query_page_good [OF ok ids] in \<open>auto simp: map_good_def\<close>)
  have "\<forall>s \<in> set (map snd m). series_good X rows s"
  proof
    fix s assume "s \<in> set (map snd m)"
    then obtain k where "(k, s) \<in> set m" by auto
    then have "bm_get m k = Some s" using m bm.get_iff_entry [of m k s] by (simp add: map_good_def)
    then show "series_good X rows s" using m unfolding map_good_def by blast
  qed
  with output_good [OF out] s show ?thesis by simp
qed

section \<open>A concrete indexed store\<close>

definition demo_codec :: chart_ext where
  "demo_codec =
     \<lparr>strings_to_text = (\<lambda>xs. Inr (if xs = [[]] then all_excluded else enc_list enc_str xs)),
      strings_of_text = (\<lambda>t. if t = all_excluded then Inr [[]]
        else (case dec_list dec_str t of Some (xs, r) \<Rightarrow> Inr xs | None \<Rightarrow> Inl ''malformed paths''))\<rparr>"

lemma demo_chart_codec: "chart_codec demo_codec"
proof -
  have dec: "dec_list dec_str (enc_list enc_str xs) = Some (xs, [])" for xs
    using dec_enc_list [of xs dec_str enc_str "[]"] by simp
  have "dec_list dec_str all_excluded = None"
    by (simp add: dec_list_def dec_nat_def all_excluded_def)
  then have "enc_list enc_str xs \<noteq> all_excluded" for xs using dec [of xs] by auto
  then show ?thesis by (auto simp: chart_codec_def demo_codec_def dec split: if_splits)
qed

definition demo_artifacts :: artifact_ext where
  "demo_artifacts =
     \<lparr>ax_as_i64 = (\<lambda>v. None), ax_of_value = (\<lambda>v. Inl ''not a record''), ax_to_text = (\<lambda>r. Inl ''no text''),
      ax_of_text = (\<lambda>t. Inl ''not a record''), ax_lineage_bytes = (\<lambda>r. Inr 0)\<rparr>"

definition demo_query_ext :: query_ext where
  "demo_query_ext =
     \<lparr>qx_debug = (\<lambda>s. s), qx_key_bytes = (\<lambda>(a, b, c). Inr (length a + length b + length c)),
      qx_session_bytes = (\<lambda>s. Inr (length s)), qx_response_bytes = (\<lambda>r. Inr (length (qp_series r)))\<rparr>"

definition demo_charts :: chart_index where
  "demo_charts = \<lparr>ci_fields = [((''r'', ''x'', ''/loss''), 1)], ci_values = [((1, ''/loss''), f64_of_nat 2)],
     ci_axes = [], ci_observations = [(1, (False, enc_list enc_str []))],
     ci_runs = [(''r'', \<lparr>cr_snapshot_count = 1, cr_first_observed_at_ns = 7, cr_last_observed_at_ns = 7,
       cr_truncated = False\<rparr>)], ci_source_axes = [], ci_last_id = 1\<rparr>"

definition demo_index :: store_index where
  "demo_index = \<lparr>si_charts = demo_charts, si_artifacts = empty_artifact_index\<lparr>ai_last_id := 1\<rparr>\<rparr>"

definition demo_indexed :: "store_index store" where
  "demo_indexed = \<lparr>st_rows = st_rows demo_store, st_last_id = 1, st_heads = st_heads demo_store,
     st_cursors = st_cursors demo_store, st_gaps = st_gaps demo_store, st_index = demo_index\<rparr>"

lemma demo_number: "finite_number (number_ext.truncate ref_ext) (JNumber ''2'') = Some (f64_of_nat 2)"
  by (simp add: finite_number_def as_f64.simps number_ext.truncate_def ref_ext_def demo_token) code_simp

lemma demo_pointer: "json_pointer (JObject [(''loss'', v)]) ''/loss'' = Some v"
  by (simp add: json_pointer_def pointer_tokens_def pointer_token_def starts_with_def)

lemma demo_charts_ok:
  "chart_insert ref_ext demo_codec 1 ''r'' ''x'' (demo_snapshot ''2'' 1) empty_chart_index = Inr demo_charts"
proof -
  have esc: "escape_key ''loss'' = ''loss''" by (simp add: escape_key_def)
  have "discover (number_ext.truncate ref_ext) [] (s_state (demo_snapshot ''2'' 1)) initial_discovery
      = \<lparr>ds_fields = [(''/loss'', f64_of_nat 2)], ds_nodes = 2, ds_truncated = False, ds_exclusions = []\<rparr>"
    by (simp add: demo_snapshot_def discover.simps initial_discovery_def esc discover_number_def demo_number)
  moreover have "numeric_at (number_ext.truncate ref_ext) (s_state (demo_snapshot ''2'' 1)) ''/loss'' = Some (f64_of_nat 2)"
    by (simp add: numeric_at_def demo_snapshot_def demo_pointer demo_number)
  moreover have "is_tracker_event ref_ext (s_state (demo_snapshot ''2'' 1)) = Inr False"
    by (simp add: demo_snapshot_def demo_not_event)
  moreover have "length (enc_list enc_str []) < 16384" by (simp add: enc_list_def length_enc_nat ilog10_small)
  moreover have "bset_of_list ([] :: string list) = []" by (metis bset_of_list_set set_empty)
  ultimately show ?thesis
    by (simp add: chart_insert_def Let_def empty_chart_index_def bm_keys_def add_field_def known_fields_def
        known_axes_def sql_insert_def bm_contains_def add_value_def encode_exclusions_def demo_codec_def put_run_def
        demo_charts_def insort_insert_key_def) (simp add: demo_snapshot_def)
qed

lemma demo_project_indexes:
  "project_indexes ref_ext demo_codec demo_artifacts 1 ''r'' ''x'' (demo_snapshot ''2'' 1) empty_store_index = Inr demo_index"
proof -
  have "Option.bind x (ax_as_i64 demo_artifacts) = None" for x by (cases x) (simp_all add: demo_artifacts_def)
  then have "artifact_insert demo_artifacts 1 ''r'' ''x'' (demo_snapshot ''2'' 1) empty_artifact_index
      = Inr (empty_artifact_index\<lparr>ai_last_id := 1\<rparr>)"
    by (simp add: artifact_insert_def)
  then show ?thesis
    by (simp add: project_indexes_def empty_store_index_def demo_charts_ok [simplified] demo_index_def)
qed

lemma demo_ingest_indexed:
  "ingest_page ref_ext (project_indexes ref_ext demo_codec demo_artifacts) (\<lambda>_. 9) (empty_store empty_store_index)
     demo_source demo_descriptor demo_page = Inr (1, demo_indexed)"
proof -
  have "validate_snapshot_history_response ref_ext demo_page = Inr ()"
    using demo_page_accepted by (simp add: validate_history_response_iff)
  moreover have "to_vec_snapshot ref_ext (demo_snapshot ''2'' 1) = Inr (enc_snapshot (demo_snapshot ''2'' 1))"
    by (simp add: ref_ext_def)
  moreover have "is_tracker_event ref_ext (s_state (demo_snapshot ''2'' 1)) = Inr False"
    by (simp add: demo_snapshot_def demo_not_event)
  ultimately show ?thesis
    using demo_descriptor_ok
    by (simp add: ingest_page_eq Let_def cursor_def empty_store_def check_position_def check_ids_def
        ingest_snapshot_eq insert_row_def find_row_def put_cursor_def record_gap_def demo_project_indexes [simplified]
        demo_page_def demo_source_def demo_store_def demo_indexed_def demo_descriptor_def blank_letter ws1_def byte_def)
      (simp add: demo_snapshot_def)
qed

lemma demo_indexed_from:
  "store_from ref_ext (project_indexes ref_ext demo_codec demo_artifacts) empty_store_index demo_indexed"
proof -
  have "snd (ingest_batch ref_ext (project_indexes ref_ext demo_codec demo_artifacts) (\<lambda>_ _. 9)
      (empty_store empty_store_index) [(demo_source, demo_descriptor, demo_page)]) = demo_indexed"
    using demo_ingest_indexed by simp
  then show ?thesis by (metis from_empty from_batch)
qed

definition demo_query :: query_request where
  "demo_query = \<lparr>qr_run_ids = [''r''], qr_paths = [''/loss''], qr_source_ids = [], qr_axis = ''wall_time'',
     qr_from = None, qr_to = None, qr_max_points = 10\<rparr>"

definition demo_series :: query_series where
  "demo_series = \<lparr>qs_run_id = ''r'', qs_source_id = ''x'', qs_path = ''/loss'', qs_snapshot_ids = [1],
     qs_session_ids = [''s''], qs_sequences = [1], qs_axes = [7], qs_observed_at_ns = [7],
     qs_values = [Some (f64_of_nat 2)]\<rparr>"

lemma demo_query_fields:
  "qr_run_ids demo_query = [''r'']" "qr_paths demo_query = [''/loss'']" "qr_source_ids demo_query = []"
  "qr_axis demo_query = ''wall_time''" "qr_from demo_query = None" "qr_to demo_query = None"
  "qr_max_points demo_query = 10"
  by (simp_all add: demo_query_def)

lemma demo_check_request: "check_request demo_query = Inr ()"
proof -
  have "validate_snapshot_pointer ''/loss'' = Inr ()" "\<not> blank ''wall_time''" by code_simp+
  then show ?thesis
    by (simp add: check_request_def demo_query_def check_ids_def blank_letter ws1_def byte_def validate_range_def)
qed

lemma demo_scan_fields: "\<exists>bytes. bytes < 1000 \<and> scan_fields demo_query_ext demo_charts demo_query = Inr (bytes, [((''r'', ''x'', ''/loss''), 1)])"
  by (simp add: scan_fields_def demo_charts_def demo_query_def field_filter_def id_filter_def scan_field_def)

lemma demo_projection:
  "projection demo_codec demo_query_ext (st_rows demo_indexed) demo_charts demo_query
   = Inr ([((''r'', ''x'', ''/loss''), 1)], [((''r'', ''x''), [\<lparr>pt_id = 1, pt_session = ''s'', pt_sequence = 1,
       pt_axis = 7, pt_observed = 7, pt_exclusions = [], pt_values = [Some (f64_of_nat 2)]\<rparr>])])"
proof -
  let ?r = "\<lparr>row_id = 1, row_run_id = ''r'', row_source_id = ''x'', row_session_id = ''s'', row_sequence = 1,
       row_observed_at_ns = 7, row_ingested_at_ns = 9, row_json = enc_snapshot (demo_snapshot ''2'' 1)\<rparr>"
  let ?j = "\<lparr>jn_row = ?r, jn_first = 7, jn_axis = None, jn_exclusions = enc_list enc_str [],
       jn_cell = Some (''/loss'', f64_of_nat 2)\<rparr>"
  obtain bytes where bytes: "bytes < 1000"
      "scan_fields demo_query_ext demo_charts demo_query = Inr (bytes, [((''r'', ''x'', ''/loss''), 1)])"
    using demo_scan_fields by blast
  have "selected_rows demo_charts demo_query [] (st_rows demo_indexed) = [?r]"
    by (simp add: selected_rows_def demo_indexed_def demo_store_def row_filter_def demo_query_def id_filter_def
        axis_filter_def in_range_def demo_charts_def bm_contains_def bm_get_def)
  moreover have "join_row demo_charts demo_query ?r = [?j]"
    by (simp add: join_row_def demo_charts_def demo_query_def row_cells_def bm_get_def)
  moreover have "strings_of_text demo_codec (enc_list enc_str []) = Inr []"
  proof -
    have "strings_to_text demo_codec [] = Inr (enc_list enc_str [])" by (simp add: demo_codec_def)
    with demo_chart_codec show ?thesis unfolding chart_codec_def by blast
  qed
  moreover have "length (enc_list enc_str ([] :: string list)) < 100" by (simp add: enc_list_def length_enc_nat ilog10_small)
  ultimately show ?thesis
    using bytes by (simp add: projection_def demo_check_request scan_joined_def axis_value_def count_snapshot_def Let_def
        new_point_def in_range_def set_last_value_def demo_query_fields bm_get_def)
qed

lemma demo_store_query:
  "store_query demo_codec demo_query_ext (st_rows demo_indexed) demo_charts demo_query
   = Inr \<lparr>qp_axis = ''wall_time'', qp_series = [demo_series]\<rparr>"
  by (simp add: store_query_def query_page_def demo_projection)
    (simp add: page_group_def page_path_def path_readable_def bm_get_def demo_query_def demo_query_ext_def Let_def
      charge_point_def sample_positions_def base_position_def series_at_def demo_series_def)

section \<open>Properties\<close>

text \<open>
  C29. Chart queries report what was observed: every entry of every series that a query returns,
  read in one page or merged and sampled from many, belongs to a stored snapshot of the series' run and
  source, with its session, sequence number and time, and its value is the finite number at the path in
  that snapshot; a missing value means that the snapshot has none.
\<close>

theorem chart_values_exact:
  assumes "store_from X (project_indexes X C A) empty_store_index db" and "chart_codec C"
    and "store_query C Q (st_rows db) (si_charts (st_index db)) q = Inr resp"
    and "s \<in> set (qp_series resp)" and "i < length (qs_values s)"
  shows "\<exists>r \<in> set (st_rows db). \<exists>snapshot.
    row_id r = qs_snapshot_ids s ! i \<and> row_run_id r = qs_run_id s \<and> row_source_id r = qs_source_id s
    \<and> row_session_id r = qs_session_ids s ! i \<and> row_sequence r = qs_sequences s ! i
    \<and> row_observed_at_ns r = qs_observed_at_ns s ! i
    \<and> to_vec_snapshot X snapshot = Inr (row_json r) \<and> is_tracker_event X (s_state snapshot) = Inr False
    \<and> qs_values s ! i = numeric_at (number_ext.truncate X) (s_state snapshot) (qs_path s)"
proof -
  have "chart_ok X C (st_rows db) (si_charts (st_index db))"
    using charts.good_reachable [OF assms(1)] assms(2) by (simp add: empty_store_index_def chart_ok_empty)
  moreover have "distinct (map row_id (st_rows db))"
    using store_from_inv [OF assms(1)] by (simp add: store_inv_def)
  ultimately have "series_good X (st_rows db) s" using store_query_good [OF _ _ assms(3,4)] by blast
  then show ?thesis using assms(5) unfolding series_good_def entry_good_def by blast
qed

theorem chart_values_witness:
  "\<exists>r. r \<in> set (st_rows demo_indexed) \<and> row_id r = 1 \<and> row_source_id r = ''x''
    \<and> qs_values demo_series ! 0 = Some (f64_of_nat 2)"
proof -
  have q: "store_query demo_codec demo_query_ext (st_rows demo_indexed) (si_charts (st_index demo_indexed)) demo_query
      = Inr \<lparr>qp_axis = ''wall_time'', qp_series = [demo_series]\<rparr>"
    using demo_store_query by (simp add: demo_indexed_def demo_index_def)
  have "\<exists>r \<in> set (st_rows demo_indexed). row_id r = qs_snapshot_ids demo_series ! 0
      \<and> row_source_id r = qs_source_id demo_series"
    using chart_values_exact [OF demo_indexed_from demo_chart_codec q, of demo_series 0]
    by (auto simp: demo_series_def)
  then show ?thesis by (auto simp: demo_series_def)
qed

end
