(* ===== verification/Chart_Bounds.thy ===== *)
theory Chart_Bounds
  imports Chart_Query_Props
begin

text \<open>
  The shape of a chart response: its size, the order of its points, and the windows into which a long
  history is split.
\<close>

section \<open>Windows\<close>

text \<open>Windows that follow each other from \<open>lo\<close> on.\<close>

fun window_chain :: "int \<Rightarrow> (int \<times> int) list \<Rightarrow> bool" where
  "window_chain lo [] \<longleftrightarrow> True"
| "window_chain lo ((start, end') # ws) \<longleftrightarrow> lo \<le> start \<and> start \<le> end' \<and> window_chain (end' + 1) ws"

definition cut_at :: "int \<Rightarrow> nat \<Rightarrow> nat \<Rightarrow> int" where
  "cut_at span' pages i = span' * int i div int pages"

lemma cut_0 [simp]: "cut_at span' pages 0 = 0"
  by (simp add: cut_at_def)

lemma cut_pages [simp]: "0 < pages \<Longrightarrow> cut_at span' pages pages = span'"
  by (simp add: cut_at_def)

lemma cut_less:
  assumes "0 < pages" and "int pages \<le> span'"
  shows "cut_at span' pages i < cut_at span' pages (Suc i)"
proof -
  have "cut_at span' pages i + 1 = (span' * int i + int pages) div int pages" using assms(1) by (simp add: cut_at_def)
  also have "\<dots> \<le> (span' * int i + span') div int pages" using assms by (intro zdiv_mono1) auto
  also have "\<dots> = cut_at span' pages (Suc i)" by (simp add: cut_at_def algebra_simps)
  finally show ?thesis by simp
qed

lemma query_windows_cut:
  "query_windows from' span' pages
   = map (\<lambda>i. (from' + cut_at span' pages i, from' + cut_at span' pages (Suc i) - 1)) [0..<pages]"
  by (simp add: query_windows_def cut_at_def)

lemma query_windows_chain:
  assumes "0 < pages" and "int pages \<le> span'"
  shows "window_chain from' (query_windows from' span' pages)"
proof -
  have "window_chain (from' + cut_at span' pages (pages - n))
      (map (\<lambda>i. (from' + cut_at span' pages i, from' + cut_at span' pages (Suc i) - 1)) [pages - n..<pages])"
    if "n \<le> pages" for n
    using that
  proof (induction n)
    case (Suc n)
    have split: "[pages - Suc n..<pages] = (pages - Suc n) # [pages - n..<pages]"
      using Suc.prems by (simp add: upt_conv_Cons Suc_diff_Suc)
    have "Suc (pages - Suc n) = pages - n" using Suc.prems by simp
    then show ?case using Suc cut_less [OF assms, of "pages - Suc n"] by (simp add: split)
  qed simp
  from this [of pages] show ?thesis by (simp add: query_windows_cut)
qed

text \<open>Each value of the range lies in one window.\<close>

lemma cut_mono: "0 < pages \<Longrightarrow> int pages \<le> span' \<Longrightarrow> i \<le> j \<Longrightarrow> cut_at span' pages i \<le> cut_at span' pages j"
  by (rule lift_Suc_mono_le [of "cut_at span' pages"]) (auto intro: less_imp_le cut_less)

lemma cut_position:
  assumes "0 < pages" and "int pages \<le> span'" and "0 \<le> x" and "x < span'"
  shows "\<exists>!i. i < pages \<and> cut_at span' pages i \<le> x \<and> x < cut_at span' pages (Suc i)"
proof -
  define i where "i = (LEAST i. x < cut_at span' pages (Suc i))"
  have top: "x < cut_at span' pages (Suc (pages - 1))" using assms(1,4) by simp
  have up: "x < cut_at span' pages (Suc i)" unfolding i_def using top by (rule LeastI)
  have "i \<le> pages - 1" unfolding i_def using top by (rule Least_le)
  moreover have "cut_at span' pages i \<le> x"
  proof (cases i)
    case (Suc k)
    then have "\<not> x < cut_at span' pages (Suc k)"
      using not_less_Least [of k "\<lambda>i. x < cut_at span' pages (Suc i)"] by (simp add: i_def)
    then show ?thesis using Suc by simp
  qed (use assms(3) in simp)
  moreover have "j = k" if "cut_at span' pages j \<le> x" "x < cut_at span' pages (Suc j)"
      "cut_at span' pages k \<le> x" "x < cut_at span' pages (Suc k)" for j k
  proof (rule ccontr)
    assume "j \<noteq> k"
    then have "Suc j \<le> k \<or> Suc k \<le> j" by arith
    then show False using cut_mono [OF assms(1,2), of "Suc j" k] cut_mono [OF assms(1,2), of "Suc k" j] that by auto
  qed
  ultimately show ?thesis using up assms(1) by (intro ex_ex1I) (auto intro!: exI [of _ i])
qed

lemma window_count_bounds:
  assumes "0 < span'"
  shows "0 < window_count paths count span'" and "int (window_count paths count span') \<le> span'"
    and "window_count paths count span' \<le> MAX_QUERY_WINDOWS"
proof -
  obtain n where "window_count paths count span' = nat (min (int (min (max n 2) MAX_QUERY_WINDOWS)) span')"
    by (simp add: window_count_def Let_def)
  then show "0 < window_count paths count span'" and "int (window_count paths count span') \<le> span'"
    and "window_count paths count span' \<le> MAX_QUERY_WINDOWS"
    using assms by linarith+
qed

section \<open>The order of the points\<close>

definition series_shape :: "query_request \<Rightarrow> query_series \<Rightarrow> bool" where
  "series_shape q s \<longleftrightarrow> length (qs_axes s) = length (qs_values s) \<and> length (qs_values s) \<le> qr_max_points q
     \<and> sorted (qs_axes s) \<and> (\<forall>x \<in> set (qs_axes s). in_range (qr_from q) (qr_to q) x)"

lemma sorted_map_positions:
  assumes "sorted (map f points)" and "sorted_wrt (<) positions" and "\<forall>i \<in> set positions. i < length points"
  shows "sorted (map (\<lambda>i. f (points ! i)) positions)"
  using assms(2,3)
proof (induction positions)
  case (Cons i positions)
  have "f (points ! i) \<le> f (points ! j)" if "j \<in> set positions" for j
    using sorted_nth_mono [OF assms(1), of i j] that Cons.prems by auto
  then show ?case using Cons by auto
qed simp

lemma sorted_axes: "sorted (map pt_axis (sort_key (\<lambda>p. (pt_axis p, pt_observed p, pt_sequence p)) points))"
proof -
  have "sorted (map (\<lambda>p. (pt_axis p, pt_observed p, pt_sequence p)) (sort_key (\<lambda>p. (pt_axis p, pt_observed p, pt_sequence p)) points))"
    by (rule sorted_sort_key)
  then show ?thesis unfolding sorted_map by (rule sorted_wrt_mono_rel [rotated]) (auto simp: less_eq_prod_def)
qed

lemma page_group_shape:
  assumes points: "\<forall>p \<in> set points. in_range (qr_from q) (qr_to q) (pt_axis p)"
    and shape: "\<forall>s \<in> set (pg_series st). series_shape q s"
    and page: "page_group Q q known st (key, points) = Inr st'"
  shows "\<forall>s \<in> set (pg_series st'). series_shape q s"
proof (rule try_fold_invariant [where P = "\<lambda>st. \<forall>s \<in> set (pg_series st). series_shape q s"])
  let ?points = "sort_key (\<lambda>p. (pt_axis p, pt_observed p, pt_sequence p)) points"
  show "try_fold (page_path Q q known key ?points) st (enumerate 0 (qr_paths q)) = Inr st'"
    using page by (simp add: page_group_def)
  fix st x st' assume st: "\<forall>s \<in> set (pg_series st). series_shape q s"
    and step: "page_path Q q known key ?points st x = Inr st'"
  obtain index path where x: "x = (index, path)" by (cases x)
  have "series_shape q (series_at key path index ?points positions)"
    if "\<forall>i \<in> set positions. i < length ?points" "sorted_wrt (<) positions" "length positions \<le> qr_max_points q" for positions
    using that points sorted_map_positions [OF sorted_axes that(2,1)] nth_mem [of _ ?points]
    by (auto simp: series_shape_def series_at_def Let_def comp_def)
  with page_path_series [of Q q known key ?points st index path st'] step st x
  show "\<forall>s \<in> set (pg_series st'). series_shape q s" by auto
qed (rule shape)

lemma query_page_shape:
  assumes ids: "distinct (map row_id rows)"
    and page: "query_page C Q rows ci q = Inr resp" and s: "s \<in> set (qp_series resp)"
  shows "series_shape q s"
proof -
  from page obtain known groups st where proj: "projection C Q rows ci q = Inr (known, groups)"
    and fold: "try_fold (page_group Q q known) \<lparr>pg_series = [], pg_points = 0, pg_bytes = PAGE_ENVELOPE_RESERVE\<rparr> groups = Inr st"
    and resp: "qp_series resp = pg_series st"
    by (auto simp: query_page_def result_iffs Let_def)
  obtain ranges where srt: "bm_sorted groups"
    and points: "\<And>k. list_all2 (row_point C ci q) (rows_at ci q k (selected_rows ci q ranges rows)) (group_at groups k)"
    by (rule projection_groups [OF proj ids]) (rule that)
  have "\<forall>s \<in> set (pg_series st). series_shape q s"
  proof (rule try_fold_invariant [where P = "\<lambda>st. \<forall>s \<in> set (pg_series st). series_shape q s", OF _ _ fold])
    fix st x st' assume st: "\<forall>s \<in> set (pg_series st). series_shape q s" and x: "x \<in> set groups"
      and step: "page_group Q q known st x = Inr st'"
    obtain key ps where kp: "x = (key, ps)" by (cases x)
    then have "group_at groups key = ps"
      using bm.get_iff_entry [OF srt, of key ps] x by (simp add: group_at_def)
    then have "\<forall>p \<in> set ps. in_range (qr_from q) (qr_to q) (pt_axis p)"
      using list_all2_set2 [OF points [of key]] by (auto simp: row_point_def)
    then show "\<forall>s \<in> set (pg_series st'). series_shape q s"
      using page_group_shape [OF _ st] step by (simp add: kp)
  qed simp
  then show ?thesis using s resp by simp
qed

section \<open>One series per run, source and path\<close>

definition series_key :: "query_series \<Rightarrow> string \<times> string \<times> string" where
  "series_key s = (qs_run_id s, qs_source_id s, qs_path s)"

lemma try_fold_keys:
  assumes step: "\<And>st x st'. f st x = Inr st' \<Longrightarrow> x \<in> set xs \<Longrightarrow> \<exists>added. keys st' = keys st @ added \<and> distinct added \<and> set added \<subseteq> K x"
    and "try_fold f st xs = Inr st'" and "sorted_wrt (\<lambda>x y. K x \<inter> K y = {}) xs"
  shows "\<exists>added. keys st' = keys st @ added \<and> distinct added \<and> set added \<subseteq> \<Union> (K ` set xs)"
  using assms
proof (induction xs arbitrary: st)
  case (Cons x xs)
  then obtain st1 where one: "f st x = Inr st1" and more: "try_fold f st1 xs = Inr st'" by (auto simp: rbind_eq_Inr)
  obtain a1 where a1: "keys st1 = keys st @ a1" "distinct a1" "set a1 \<subseteq> K x" using Cons.prems(1) [OF one] by auto
  obtain a2 where a2: "keys st' = keys st1 @ a2" "distinct a2" "set a2 \<subseteq> \<Union> (K ` set xs)"
    using Cons.IH [OF _ more] Cons.prems(1,3) by auto
  have "set a1 \<inter> set a2 = {}" using a1(3) a2(3) Cons.prems(3) by fastforce
  then show ?case using a1 a2 by (intro exI [of _ "a1 @ a2"]) auto
qed simp

lemma page_group_keys:
  assumes "page_group Q q known st (key, points) = Inr st'" and "distinct (qr_paths q)"
  shows "\<exists>added. map series_key (pg_series st') = map series_key (pg_series st) @ added \<and> distinct added
    \<and> set added \<subseteq> {fst key} \<times> {snd key} \<times> UNIV"
proof -
  let ?points = "sort_key (\<lambda>p. (pt_axis p, pt_observed p, pt_sequence p)) points"
  let ?K = "\<lambda>x :: nat \<times> string. {(fst key, snd key, snd x)}"
  have fold: "try_fold (page_path Q q known key ?points) st (enumerate 0 (qr_paths q)) = Inr st'"
    using assms(1) by (simp add: page_group_def)
  have "distinct (map snd (enumerate 0 (qr_paths q)))" using assms(2) by simp
  then have disj: "sorted_wrt (\<lambda>x y. ?K x \<inter> ?K y = {}) (enumerate 0 (qr_paths q))"
    by (auto simp: distinct_conv_nth sorted_wrt_iff_nth_less nth_enumerate_eq)
  have "\<exists>added. map series_key (pg_series st') = map series_key (pg_series st) @ added \<and> distinct added
      \<and> set added \<subseteq> \<Union> (?K ` set (enumerate 0 (qr_paths q)))"
  proof (rule try_fold_keys [OF _ fold disj])
    fix st x st' assume step: "page_path Q q known key ?points st x = Inr st'"
    have key: "series_key (series_at key (snd x) (fst x) ?points ps) = (fst key, snd key, snd x)" for ps
      by (simp add: series_key_def series_at_def Let_def)
    show "\<exists>added. map series_key (pg_series st') = map series_key (pg_series st) @ added \<and> distinct added \<and> set added \<subseteq> ?K x"
      using page_path_series [of Q q known key ?points st "fst x" "snd x" st'] step key by auto
  qed
  then show ?thesis by fastforce
qed

lemma query_page_keys:
  assumes ids: "distinct (map row_id rows)" and page: "query_page C Q rows ci q = Inr resp"
  shows "distinct (map series_key (qp_series resp))"
proof -
  from page obtain known groups st where proj: "projection C Q rows ci q = Inr (known, groups)"
    and fold: "try_fold (page_group Q q known) \<lparr>pg_series = [], pg_points = 0, pg_bytes = PAGE_ENVELOPE_RESERVE\<rparr> groups = Inr st"
    and resp: "qp_series resp = pg_series st"
    by (auto simp: query_page_def result_iffs Let_def)
  have srt: "bm_sorted groups" and check: "check_request q = Inr ()"
    by (rule projection_groups [OF proj ids], assumption)+
  let ?K = "\<lambda>x :: (string \<times> string) \<times> projected list. {fst (fst x)} \<times> {snd (fst x)} \<times> (UNIV :: string set)"
  have "distinct (map fst groups)" by (rule bm.entries_distinct [OF srt])
  then have disj: "sorted_wrt (\<lambda>x y. ?K x \<inter> ?K y = {}) groups"
    by (fastforce simp: distinct_conv_nth sorted_wrt_iff_nth_less prod_eq_iff)
  have "\<exists>added. map series_key (pg_series st) = map series_key (pg_series \<lparr>pg_series = [], pg_points = 0,
      pg_bytes = PAGE_ENVELOPE_RESERVE\<rparr>) @ added \<and> distinct added \<and> set added \<subseteq> \<Union> (?K ` set groups)"
  proof (rule try_fold_keys [OF _ fold disj])
    fix st x st' assume "page_group Q q known st x = Inr st'"
    then show "\<exists>added. map series_key (pg_series st') = map series_key (pg_series st) @ added \<and> distinct added \<and> set added \<subseteq> ?K x"
      using page_group_keys [OF _ check_request_paths [OF check], of Q known st "fst x" "snd x" st'] by simp
  qed
  then show ?thesis by (auto simp: resp)
qed

section \<open>Histories read in windows\<close>

text \<open>The merged series of the windows below \<open>hi\<close>.\<close>

definition merged_shape :: "int \<Rightarrow> int \<Rightarrow> query_series \<Rightarrow> bool" where
  "merged_shape lo hi s \<longleftrightarrow> length (qs_axes s) = length (qs_values s) \<and> sorted (qs_axes s) \<and> set (qs_axes s) \<subseteq> {lo..<hi}"

definition map_shape :: "int \<Rightarrow> int \<Rightarrow> query_series_map \<Rightarrow> bool" where
  "map_shape lo hi m \<longleftrightarrow> bm_sorted m \<and> (\<forall>k s. bm_get m k = Some s \<longrightarrow> merged_shape lo hi s)"

lemma merge_parts:
  assumes "try_fold (merge_part bytes) a parts = Inr b" and "distinct (map series_key parts)" and "bm_sorted (snd a)"
  shows "bm_sorted (snd b) \<and> bm_get (snd b) k = (case List.find (\<lambda>p. series_key p = k) parts of
      None \<Rightarrow> bm_get (snd a) k
    | Some part \<Rightarrow> Some (case bm_get (snd a) k of Some s \<Rightarrow> append_series s part | None \<Rightarrow> part))"
  using assms
proof (induction parts arbitrary: a)
  case (Cons part parts)
  then obtain a1 where one: "merge_part bytes a part = Inr a1" and more: "try_fold (merge_part bytes) a1 parts = Inr b"
    by (auto simp: rbind_eq_Inr)
  have a1: "snd a1 = bm_insert (series_key part)
      (case bm_get (snd a) (series_key part) of Some s \<Rightarrow> append_series s part | None \<Rightarrow> part) (snd a)"
    using one by (cases a) (auto simp: merge_part_def result_iffs Let_def series_key_def)
  have none: "List.find (\<lambda>p. series_key p = series_key part) parts = None"
    using Cons.prems(2) by (auto simp: find_None_iff image_iff)
  have "bm_sorted (snd a1)" using Cons.prems(3) by (simp add: a1 bm_sorted_insert)
  moreover have "bm_get (snd a1) k = (if k = series_key part
      then Some (case bm_get (snd a) (series_key part) of Some s \<Rightarrow> append_series s part | None \<Rightarrow> part)
      else bm_get (snd a) k)"
    using Cons.prems(3) by (simp add: a1 bm_get_insert)
  ultimately show ?case using Cons.IH [OF more] Cons.prems(2) none by (auto split: option.split)
qed simp

lemma merged_shape_append:
  assumes "merged_shape lo mid s" and "merged_shape mid hi part" and "lo \<le> mid" and "mid \<le> hi"
  shows "merged_shape lo hi (append_series s part)"
  using assms by (fastforce simp: merged_shape_def append_series_def sorted_append)

lemma merged_shape_mono: "merged_shape lo hi s \<Longrightarrow> lo' \<le> lo \<Longrightarrow> hi \<le> hi' \<Longrightarrow> merged_shape lo' hi' s"
  by (fastforce simp: merged_shape_def)

lemma merge_parts_shape:
  assumes "try_fold (merge_part bytes) a parts = Inr b" and "distinct (map series_key parts)"
    and "map_shape lo mid (snd a)" and "\<forall>p \<in> set parts. merged_shape mid hi p" and "lo \<le> mid" and "mid \<le> hi"
  shows "map_shape lo hi (snd b)"
proof -
  have srt: "bm_sorted (snd a)" using assms(3) by (simp add: map_shape_def)
  note b = merge_parts [OF assms(1,2) srt]
  have "merged_shape lo hi s" if s: "bm_get (snd b) k = Some s" for k s
  proof (cases "List.find (\<lambda>p. series_key p = k) parts")
    case None
    then have "bm_get (snd a) k = Some s" using b s by simp
    then have "merged_shape lo mid s" using assms(3) unfolding map_shape_def by blast
    then show ?thesis using merged_shape_mono assms(6) by blast
  next
    case (Some part)
    then have part: "merged_shape mid hi part" using assms(4) by (auto simp: find_Some_iff)
    show ?thesis
    proof (cases "bm_get (snd a) k")
      case None
      then have "s = part" using b s Some by simp
      then show ?thesis using merged_shape_mono [OF part assms(5)] by simp
    next
      case (Some s0)
      then have "s = append_series s0 part" using b s \<open>List.find (\<lambda>p. series_key p = k) parts = Some part\<close> by simp
      moreover have "merged_shape lo mid s0" using assms(3) Some unfolding map_shape_def by blast
      ultimately show ?thesis using merged_shape_append [OF _ part assms(5,6)] by simp
    qed
  qed
  with b show ?thesis by (simp add: map_shape_def)
qed

lemma window_chain_mono: "window_chain lo ws \<Longrightarrow> lo' \<le> lo \<Longrightarrow> window_chain lo' ws"
  by (cases ws) auto

lemma window_split:
  assumes "window_chain lo ((start, end') # ws)" and "start < end'"
  shows "window_chain lo ((start, start + (end' - start) div 2) # (start + (end' - start) div 2 + 1, end') # ws)"
proof -
  have "0 \<le> (end' - start) div 2" "(end' - start) div 2 < end' - start" using assms(2) by auto
  then show ?thesis using assms(1) by auto
qed

lemma series_shape_window:
  assumes "series_shape (window_request q span' (start, end')) s"
  shows "merged_shape start (end' + 1) s"
  using assms by (auto simp: series_shape_def merged_shape_def window_request_def in_range_def)

lemma query_parts_shape:
  assumes "\<And>q resp. page q = Inr resp \<Longrightarrow> distinct (map series_key (qp_series resp)) \<and> (\<forall>s \<in> set (qp_series resp). series_shape q s)"
    and "map_shape lo mid series" and "window_chain mid windows" and "lo \<le> mid"
    and "\<forall>w \<in> set windows. snd w < hi" and "mid \<le> hi"
    and "query_parts page size' q span' reads points bytes series windows = Inr m"
  shows "map_shape lo hi m"
  using assms
proof (induction page size' q span' reads points bytes series windows arbitrary: mid rule: query_parts.induct)
  case (1 page size' q span' reads points bytes series)
  then show ?case using merged_shape_mono [of lo mid _ lo hi] unfolding map_shape_def by auto
next
  case (2 page size' q span' reads points bytes series start end' windows)
  then have few: "\<not> MAX_QUERY_WINDOWS < reads + 1" by (auto split: if_splits)
  have le: "mid \<le> start" "start \<le> end'" "window_chain (end' + 1) windows" "end' < hi" using 2(5,7) by auto
  show ?case
  proof (cases "page (window_request q span' (start, end'))")
    case (Inr resp)
    with 2(9) few obtain n points1 series1 where
        parts: "try_fold (merge_part (bytes + n)) (points, series) (qp_series resp) = Inr (points1, series1)"
      and n: "map_err Json (size' resp) = Inr n"
      and rest: "query_parts page size' q span' (reads + 1) points1 (bytes + n) series1 windows = Inr m"
      by (auto simp: rbind_eq_Inr)
    have page: "distinct (map series_key (qp_series resp))"
        "\<forall>s \<in> set (qp_series resp). merged_shape start (end' + 1) s"
      using 2(3) [OF Inr] series_shape_window by auto
    have "map_shape lo start series"
      using 2(4) le(1) merged_shape_mono [of lo mid _ lo start] unfolding map_shape_def by auto
    then have "map_shape lo (end' + 1) series1"
      using merge_parts_shape [OF parts page(1) _ page(2)] 2(6) le by simp
    then show ?thesis using 2(2) [OF few Inr n parts refl 2(3) _ le(3) _ _ _ rest] 2(6,7) le by simp
  next
    case (Inl e)
    then have split: "scan_budget e \<and> start < end'" and rest: "query_parts page size' q span' (reads + 1) points bytes series
        ((start, start + (end' - start) div 2) # (start + (end' - start) div 2 + 1, end') # windows) = Inr m"
      using 2(9) few by (auto simp: Let_def split: if_splits)
    have chain: "window_chain mid ((start, start + (end' - start) div 2) # (start + (end' - start) div 2 + 1, end') # windows)"
      using window_split [OF 2(5)] split by blast
    have "\<forall>w \<in> set ((start, start + (end' - start) div 2) # (start + (end' - start) div 2 + 1, end') # windows). snd w < hi"
      using 2(7) chain by auto
    from 2(1) [OF few Inl split refl 2(3) 2(4) chain 2(6) this 2(8) rest] show ?thesis .
  qed
qed

lemma query_parts_page:
  assumes ids: "distinct (map row_id rows)"
  shows "query_page C Q rows ci q = Inr resp \<Longrightarrow>
    distinct (map series_key (qp_series resp)) \<and> (\<forall>s \<in> set (qp_series resp). series_shape q s)"
  using query_page_keys [OF ids] query_page_shape [OF ids] by blast

lemma foldl_min_max:
  fixes x :: int
  shows "foldl min x xs \<in> insert x (set xs)" and "foldl max x xs \<in> insert x (set xs)"
    and "foldl min x xs \<le> x" and "x \<le> foldl max x xs"
proof -
  show "foldl min x xs \<in> insert x (set xs)" "foldl max x xs \<in> insert x (set xs)"
    by (induction xs arbitrary: x rule: rev_induct) (auto simp: min_def max_def)
  show "foldl min x xs \<le> x"
  proof (induction xs arbitrary: x)
    case (Cons y xs)
    then show ?case using Cons.IH [of "min x y"] by simp
  qed simp
  show "x \<le> foldl max x xs"
  proof (induction xs arbitrary: x)
    case (Cons y xs)
    have "x \<le> max x y" by simp
    also note Cons.IH [of "max x y"]
    finally show ?case by simp
  qed simp
qed

lemma query_bounds_range:
  assumes "query_bounds rows ci q = Inr (from', to', count)"
  shows "from' \<le> to'" and "in_range (qr_from q) (qr_to q) from'" and "in_range (qr_from q) (qr_to q) to'"
proof -
  let ?xs = "filter (in_range (qr_from q) (qr_to q)) (List.map_filter (indexed_axis ci q)
      (filter (\<lambda>r. id_filter (qr_run_ids q) (row_run_id r) \<and> id_filter (qr_source_ids q) (row_source_id r)) rows))"
  obtain x xs where x: "?xs = x # xs" and ft: "from' = foldl min x (x # xs)" "to' = foldl max x (x # xs)"
    using assms by (auto simp: query_bounds_def Let_def split: list.splits)
  have xs: "\<forall>y \<in> set (x # xs). in_range (qr_from q) (qr_to q) y" unfolding x [symmetric] by simp
  have "from' \<in> set (x # xs)" "to' \<in> set (x # xs)" "from' \<le> x" "x \<le> to'"
    unfolding ft using foldl_min_max [of x "x # xs"] by auto
  then show "from' \<le> to'" and "in_range (qr_from q) (qr_to q) from'" and "in_range (qr_from q) (qr_to q) to'"
    using xs by auto
qed

lemma sample_series_shape:
  assumes s: "merged_shape from' (to' + 1) s"
    and "in_range (qr_from q) (qr_to q) from'" and "in_range (qr_from q) (qr_to q) to'"
  shows "series_shape q (sample_series (qr_max_points q) s)"
proof -
  let ?len = "length (qs_values s)"
  let ?ps = "sample_positions ?len (min (qr_max_points q) ?len) (\<lambda>i. qs_values s ! i = None)"
  have len: "length (qs_axes s) = ?len" using s by (simp add: merged_shape_def)
  have ps: "\<forall>i \<in> set ?ps. i < length (qs_axes s)" "sorted_wrt (<) ?ps" "length ?ps \<le> qr_max_points q"
    unfolding len by (rule ballI, rule sample_positions_bound [OF min.cobounded2], assumption)
      (simp_all add: sample_positions_sorted sample_positions_length)
  have srt: "sorted (map (\<lambda>x. x) (qs_axes s))" using s by (simp add: merged_shape_def)
  have "in_range (qr_from q) (qr_to q) x" if "x \<in> set (qs_axes s)" for x
    using s that assms(2,3) by (force simp: merged_shape_def in_range_def split: option.splits)
  then show ?thesis
    using sorted_map_positions [OF srt ps(2,1)] ps(1,3)
    unfolding series_shape_def sample_series_def Let_def by simp
qed

lemma query_windows_end:
  assumes "0 < pages" and "int pages \<le> span'" and "w \<in> set (query_windows from' span' pages)"
  shows "snd w < from' + span'"
proof -
  obtain i where i: "i < pages" "w = (from' + cut_at span' pages i, from' + cut_at span' pages (Suc i) - 1)"
    using assms(3) by (auto simp: query_windows_cut)
  have "cut_at span' pages (Suc i) \<le> cut_at span' pages pages" by (rule cut_mono [OF assms(1,2)]) (use i(1) in simp)
  then show ?thesis using i assms(1) by simp
qed

lemma store_query_shape:
  assumes ids: "distinct (map row_id rows)"
    and query: "store_query C Q rows ci q = Inr resp" and s: "s \<in> set (qp_series resp)"
  shows "series_shape q s"
proof (cases "query_page C Q rows ci q")
  case (Inr r)
  then show ?thesis using query_page_shape [OF ids] query s by (simp add: store_query_def)
next
  case (Inl e)
  with query obtain from' to' count m tot where bounds: "query_bounds rows ci q = Inr (from', to', count)"
    and parts: "query_parts (query_page C Q rows ci) (qx_response_bytes Q) q (to' - from' + 1) 0 0 0 []
      (query_windows from' (to' - from' + 1) (window_count (length (qr_paths q)) count (to' - from' + 1))) = Inr m"
    and out: "try_fold (output_series (qr_max_points q)) (0, []) (map snd m) = Inr (tot, qp_series resp)"
    by (auto simp: store_query_def result_iffs Let_def split: if_splits)
  note range = query_bounds_range [OF bounds]
  let ?n = "window_count (length (qr_paths q)) count (to' - from' + 1)"
  have n: "0 < ?n" "int ?n \<le> to' - from' + 1" using window_count_bounds(1,2) range(1) by auto
  have m: "map_shape from' (to' + 1) m"
  proof (rule query_parts_shape [OF query_parts_page [OF ids] _ query_windows_chain [OF n] _ _ _ parts])
    show "map_shape from' from' []" by (simp add: map_shape_def)
    show "\<forall>w \<in> set (query_windows from' (to' - from' + 1) ?n). snd w < to' + 1"
      using query_windows_end [OF n] by fastforce
  qed (use range(1) in auto)
  have "merged_shape from' (to' + 1) (snd e)" if e: "e \<in> set m" for e
  proof -
    have "bm_get m (fst e) = Some (snd e)" using m bm.get_iff_entry [of m "fst e" "snd e"] e by (simp add: map_shape_def)
    then show ?thesis using m unfolding map_shape_def by blast
  qed
  then have "\<forall>s \<in> set (snd (tot, qp_series resp)). series_shape q s"
    by (intro try_fold_invariant [where P = "\<lambda>a. \<forall>s \<in> set (snd a). series_shape q s", OF _ _ out])
      (auto simp: output_series_def result_iffs Let_def sample_series_shape [OF _ range(2,3)])
  then show ?thesis using s by simp
qed

section \<open>The size of a response\<close>

abbreviation (input) total_points :: "query_series list \<Rightarrow> nat" where
  "total_points series \<equiv> sum_list (map (\<lambda>s. length (qs_values s)) series)"

lemma page_path_points:
  assumes "page_path Q q known key points st x = Inr st'" and "pg_points st = total_points (pg_series st)"
    and "pg_points st \<le> MAX_QUERY_OUTPUT_POINTS"
  shows "pg_points st' = total_points (pg_series st') \<and> pg_points st' \<le> MAX_QUERY_OUTPUT_POINTS"
proof (cases "path_readable known key (snd x) (fst x) points = Inr True")
  case True
  with assms(1) obtain bytes where st': "st' = \<lparr>pg_series = pg_series st @ [series_at key (snd x) (fst x) points
      (sample_positions (length points) (min (length points) (qr_max_points q)) (\<lambda>i. pt_values (points ! i) ! fst x = None))],
      pg_points = pg_points st + min (length points) (qr_max_points q), pg_bytes = bytes\<rparr>"
    and "pg_points st + min (length points) (qr_max_points q) \<le> MAX_QUERY_OUTPUT_POINTS"
    by (cases x) (auto simp: page_path_def result_iffs Let_def)
  then show ?thesis using assms(2) by (simp add: series_at_def Let_def sample_positions_length)
next
  case False
  then have "st' = st" using assms(1) by (cases x) (auto simp: page_path_def rbind_eq_Inr split: if_splits)
  then show ?thesis using assms(2,3) by simp
qed

lemma page_group_points:
  assumes "page_group Q q known st x = Inr st'" and "pg_points st = total_points (pg_series st)"
    and "pg_points st \<le> MAX_QUERY_OUTPUT_POINTS"
  shows "pg_points st' = total_points (pg_series st') \<and> pg_points st' \<le> MAX_QUERY_OUTPUT_POINTS"
proof (cases x)
  case (Pair key points)
  let ?P = "\<lambda>st. pg_points st = total_points (pg_series st) \<and> pg_points st \<le> MAX_QUERY_OUTPUT_POINTS"
  have "try_fold (page_path Q q known key (sort_key (\<lambda>p. (pt_axis p, pt_observed p, pt_sequence p)) points)) st
      (enumerate 0 (qr_paths q)) = Inr st'"
    using assms(1) by (simp add: page_group_def Pair)
  from try_fold_invariant [where P = ?P, OF _ _ this] show ?thesis using page_path_points assms(2,3) by blast
qed

lemma query_page_points:
  assumes "query_page C Q rows ci q = Inr resp"
  shows "total_points (qp_series resp) \<le> MAX_QUERY_OUTPUT_POINTS"
proof -
  from assms obtain known groups st where
      fold: "try_fold (page_group Q q known) \<lparr>pg_series = [], pg_points = 0, pg_bytes = PAGE_ENVELOPE_RESERVE\<rparr> groups = Inr st"
    and resp: "qp_series resp = pg_series st"
    by (auto simp: query_page_def result_iffs Let_def)
  let ?P = "\<lambda>st. pg_points st = total_points (pg_series st) \<and> pg_points st \<le> MAX_QUERY_OUTPUT_POINTS"
  have "?P st"
    by (rule try_fold_invariant [where P = ?P, OF _ _ fold]) (use page_group_points in \<open>blast, simp\<close>)
  then show ?thesis by (simp add: resp)
qed

lemma output_points:
  assumes "try_fold (output_series m) (0, []) items = Inr (tot, out)"
  shows "total_points out \<le> MAX_QUERY_OUTPUT_POINTS"
proof -
  let ?P = "\<lambda>a. fst a = total_points (snd a) \<and> fst a \<le> MAX_QUERY_OUTPUT_POINTS"
  have "?P (tot, out)"
    by (rule try_fold_invariant [where P = ?P, OF _ _ assms])
      (auto simp: output_series_def result_iffs Let_def)
  then show ?thesis by simp
qed

lemma store_query_points:
  assumes "store_query C Q rows ci q = Inr resp"
  shows "total_points (qp_series resp) \<le> MAX_QUERY_OUTPUT_POINTS"
proof (cases "query_page C Q rows ci q")
  case (Inr r)
  then show ?thesis using query_page_points assms by (simp add: store_query_def)
next
  case (Inl e)
  with assms show ?thesis
    by (auto simp: store_query_def result_iffs Let_def dest: output_points split: if_splits)
qed

section \<open>Properties\<close>

text \<open>
  C30. Chart responses are bounded and ordered: a query that succeeds on a store's index returns at
  most the requested number of points per series and 100000 points in all, and the points of every series
  are ordered by the axis and lie in the requested range, whether the history was read at once or in windows.
\<close>

theorem chart_response_shape:
  assumes "store_from X (project_indexes X C A) empty_store_index db"
    and "store_query C Q (st_rows db) (si_charts (st_index db)) q = Inr resp"
  shows "sum_list (map (\<lambda>s. length (qs_values s)) (qp_series resp)) \<le> MAX_QUERY_OUTPUT_POINTS
    \<and> (\<forall>s \<in> set (qp_series resp). length (qs_values s) \<le> qr_max_points q
         \<and> length (qs_axes s) = length (qs_values s) \<and> sorted (qs_axes s)
         \<and> (\<forall>x \<in> set (qs_axes s). in_range (qr_from q) (qr_to q) x))"
proof -
  have "distinct (map row_id (st_rows db))" using store_from_inv [OF assms(1)] by (simp add: store_inv_def)
  from store_query_shape [OF this assms(2)] store_query_points [OF assms(2)] show ?thesis
    by (simp add: series_shape_def)
qed

theorem chart_response_witness: "length (qs_values demo_series) \<le> 10 \<and> sorted (qs_axes demo_series)"
proof -
  have q: "store_query demo_codec demo_query_ext (st_rows demo_indexed) (si_charts (st_index demo_indexed)) demo_query
      = Inr \<lparr>qp_axis = ''wall_time'', qp_series = [demo_series]\<rparr>"
    using demo_store_query by (simp add: demo_indexed_def demo_index_def)
  from chart_response_shape [OF demo_indexed_from q] show ?thesis by (simp add: demo_query_def)
qed

text \<open>
  The windows of a long history tile its range: there are at most 64 of them, and every axis value
  of the range lies in one window.
\<close>

theorem query_windows_tile:
  assumes "from' \<le> x" and "x \<le> to'"
  shows "length (query_windows from' (to' - from' + 1) (window_count paths count (to' - from' + 1))) \<le> MAX_QUERY_WINDOWS
    \<and> (\<exists>!i. i < window_count paths count (to' - from' + 1)
         \<and> fst (query_windows from' (to' - from' + 1) (window_count paths count (to' - from' + 1)) ! i) \<le> x
         \<and> x \<le> snd (query_windows from' (to' - from' + 1) (window_count paths count (to' - from' + 1)) ! i))"
proof -
  let ?span = "to' - from' + 1"
  let ?n = "window_count paths count ?span"
  have n: "0 < ?n" "int ?n \<le> ?span" "?n \<le> MAX_QUERY_WINDOWS" using window_count_bounds assms by auto
  have nth: "query_windows from' ?span ?n ! i = (from' + cut_at ?span ?n i, from' + cut_at ?span ?n (Suc i) - 1)" if "i < ?n" for i
    using that by (simp add: query_windows_cut)
  have "(i < ?n \<and> fst (query_windows from' ?span ?n ! i) \<le> x \<and> x \<le> snd (query_windows from' ?span ?n ! i))
      = (i < ?n \<and> cut_at ?span ?n i \<le> x - from' \<and> x - from' < cut_at ?span ?n (Suc i))" for i
    using nth by auto
  moreover have "\<exists>!i. i < ?n \<and> cut_at ?span ?n i \<le> x - from' \<and> x - from' < cut_at ?span ?n (Suc i)"
    using cut_position [OF n(1,2)] assms by simp
  moreover have "length (query_windows from' ?span ?n) \<le> MAX_QUERY_WINDOWS" using n(3) by (simp add: query_windows_def)
  ultimately show ?thesis by simp
qed

theorem query_windows_witness: "query_windows 0 10 2 = [(0, 4), (5, 9)] \<and> length (query_windows 0 10 (window_count 1 7 10)) \<le> 64"
proof -
  have "query_windows 0 10 2 = [(0, 4), (5, 9)]" by code_simp
  with query_windows_tile [of 0 7 9 1 7] show ?thesis by simp
qed

end
