(* ===== verification/Artifact_Props.thy ===== *)
theory Artifact_Props
  imports Chart_Query_Props
begin

text \<open>
  The artifact index is what the stored snapshots say, and a name with an alias resolves to the newest
  record that carries it.
\<close>

section \<open>Order of the lineage\<close>

abbreviation (input) record_key :: "lineage_entry \<Rightarrow> int \<times> nat" where
  "record_key e \<equiv> (al_snapshot_id e, al_artifact_index e)"

definition row_lineage :: "artifact_ext \<Rightarrow> snap_row \<times> state_snapshot \<Rightarrow> lineage_entry list" where
  "row_lineage A = (\<lambda>(r, s). concat (map (lineage_at A r) (artifact_values A s)))"

lemma row_lineage_id: "e \<in> set (row_lineage A (r, s)) \<Longrightarrow> al_snapshot_id e = row_id r"
  by (auto simp: row_lineage_def lineage_at_def split: sum.splits)

lemma enumerate_lineage:
  "sorted_wrt (<) (map record_key (concat (map (lineage_at A r) (map (\<lambda>iv. (step, iv)) (enumerate n vs)))))
   \<and> (\<forall>e \<in> set (concat (map (lineage_at A r) (map (\<lambda>iv. (step, iv)) (enumerate n vs)))).
        al_snapshot_id e = row_id r \<and> n \<le> al_artifact_index e)"
proof (induction vs arbitrary: n)
  case (Cons v vs)
  define rest where "rest = concat (map (lineage_at A r) (map (\<lambda>iv. (step, iv)) (enumerate (Suc n) vs)))"
  have all: "concat (map (lineage_at A r) (map (\<lambda>iv. (step, iv)) (enumerate n (v # vs)))) = lineage_at A r (step, n, v) @ rest"
    by (simp add: rest_def)
  have first: "lineage_at A r (step, n, v) = [] \<or> (\<exists>e. lineage_at A r (step, n, v) = [e]
      \<and> al_snapshot_id e = row_id r \<and> al_artifact_index e = n)"
    by (simp add: lineage_at_def split: sum.split)
  have "sorted_wrt (<) (map record_key rest)" "\<forall>e \<in> set rest. al_snapshot_id e = row_id r \<and> Suc n \<le> al_artifact_index e"
    using Cons.IH [of "Suc n"] unfolding rest_def by blast+
  then have "sorted_wrt (<) (map record_key rest)"
    "\<forall>e \<in> set rest. al_snapshot_id e = row_id r \<and> n < al_artifact_index e"
    by auto
  with first show ?case unfolding all by auto
qed simp

lemma row_lineage_sorted: "sorted_wrt (<) (map record_key (row_lineage A (r, s)))"
proof (cases "artifact_values A s = []")
  case False
  then obtain step vs where "artifact_values A s = map (\<lambda>iv. (step, iv)) (enumerate 0 vs)"
    by (auto simp: artifact_values_def split: option.splits json.splits)
  then show ?thesis using enumerate_lineage [of A r step 0 vs] by (simp add: row_lineage_def)
qed (simp add: row_lineage_def)

lemma lineage_sorted:
  assumes "sorted_wrt (<) (map (\<lambda>rs. row_id (fst rs)) rss)"
  shows "sorted_wrt (<) (map record_key (concat (map (row_lineage A) rss)))"
  using assms
proof (induction rss)
  case (Cons rs rss)
  obtain r s where rs: "rs = (r, s)" by (cases rs)
  have "row_id r < al_snapshot_id d" if d: "d \<in> set (concat (map (row_lineage A) rss))" for d
  proof -
    obtain r' s' where "(r', s') \<in> set rss" "d \<in> set (row_lineage A (r', s'))" using d by auto
    then show ?thesis using Cons.prems row_lineage_id [of d A r' s'] by (auto simp: rs)
  qed
  moreover have "al_snapshot_id e = row_id r" if "e \<in> set (row_lineage A (r, s))" for e
    using row_lineage_id [OF that] .
  ultimately have "\<forall>e \<in> set (row_lineage A (r, s)). \<forall>d \<in> set (concat (map (row_lineage A) rss)). record_key e < record_key d"
    by (simp add: less_prod_def)
  moreover have "sorted_wrt (<) (map record_key (concat (map (row_lineage A) rss)))" using Cons by simp
  ultimately show ?case
    using row_lineage_sorted [of A r s] unfolding rs list.map concat.simps map_append sorted_wrt_append by auto
qed simp

lemma find_rev_last:
  fixes key :: "'a \<Rightarrow> 'b::linorder"
  assumes "List.find P (rev xs) = Some e" and "sorted_wrt (<) (map key xs)"
  shows "e \<in> set xs \<and> P e \<and> (\<forall>d \<in> set xs. P d \<longrightarrow> key d \<le> key e)"
  using assms
proof (induction xs rule: rev_induct)
  case (snoc x xs)
  then show ?case by (auto simp: sorted_wrt_append less_imp_le split: if_splits)
qed simp

lemma artifact_rows:
  assumes "store_from X (project_indexes X C A) empty_store_index db"
  obtains rss where "map fst rss = st_rows db" and "\<forall>(r, s) \<in> set rss. to_vec_snapshot X s = Inr (row_json r)"
    and "index_of A rss (si_artifacts (st_index db))"
proof -
  have "artifact_ok X A (st_rows db) (si_artifacts (st_index db))"
    using artifacts.good_reachable [OF assms] by (simp add: empty_store_index_def artifact_ok_empty)
  then show thesis unfolding artifact_ok_def using that by blast
qed

lemma store_lineage_sorted:
  assumes "store_from X (project_indexes X C A) empty_store_index db"
  shows "sorted_wrt (<) (map record_key (ai_lineage (si_artifacts (st_index db))))"
proof -
  obtain rss where rss: "map fst rss = st_rows db" "index_of A rss (si_artifacts (st_index db))"
    using artifact_rows [OF assms] by metis
  have "map row_id (st_rows db) = [1..st_last_id db]"
    using store_from_inv [OF assms] by (simp add: store_inv_def)
  then have "map (\<lambda>rs. row_id (fst rs)) rss = [1..st_last_id db]" by (simp add: rss(1) [symmetric] comp_def)
  moreover have "ai_lineage (si_artifacts (st_index db)) = concat (map (row_lineage A) rss)"
    using rss(2) unfolding index_of_def row_lineage_def by blast
  ultimately show ?thesis using lineage_sorted [of rss A] by simp
qed

section \<open>A store with an artifact\<close>

definition demo_record :: artifact_record where
  "demo_record = \<lparr>af_record_version = 1, af_action = LogArtifact, af_name = ''m'', af_kind = ''k'', af_digest = ''d'',
     af_size = 3, af_uri = ''u'', af_aliases = [''b''], af_metadata = JNull\<rparr>"

definition demo_artifact_ext :: artifact_ext where
  "demo_artifact_ext =
     \<lparr>ax_as_i64 = (\<lambda>v. Some 1), ax_of_value = (\<lambda>v. Inr demo_record), ax_to_text = (\<lambda>r. Inr (af_name r)),
      ax_of_text = (\<lambda>t. Inr (demo_record\<lparr>af_name := t\<rparr>)), ax_lineage_bytes = (\<lambda>r. Inr 0)\<rparr>"

definition artifact_snapshot :: state_snapshot where
  "artifact_snapshot = \<lparr>s_source_session_id = ''s'', s_sequence = 1, s_observed_at_ns = 7, s_schema_version = 1,
     s_axes = [], s_state = JObject [(''artifacts'', JArray [JNull]), (''tracker'', JObject [(''step'', JNumber ''1'')])]\<rparr>"

definition artifact_page :: snapshot_history_response where
  "artifact_page = demo_page\<lparr>h_snapshots := [artifact_snapshot]\<rparr>"

definition demo_entry :: lineage_entry where
  "demo_entry = \<lparr>al_snapshot_id = 1, al_artifact_index = 0, al_run_id = ''r'', al_source_id = ''x'',
     al_observed_at_ns = 7, al_step = 1, al_action = LogArtifact, al_name = ''m'', al_digest = ''d'', al_json = ''m''\<rparr>"

definition demo_artifact_index :: artifact_index where
  "demo_artifact_index = \<lparr>ai_lineage = [demo_entry],
     ai_aliases = [\<lparr>aa_snapshot_id = 1, aa_artifact_index = 0, aa_run_id = ''r'', aa_source_id = ''x'', aa_name = ''m'', aa_alias = ''b''\<rparr>],
     ai_exclusions = [], ai_last_id = 1\<rparr>"

lemma demo_artifact_insert:
  "artifact_insert demo_artifact_ext 1 ''r'' ''x'' artifact_snapshot empty_artifact_index = Inr demo_artifact_index"
proof -
  have "length (bset_of_list [''b'']) = length [''b'']" by (subst length_bset_of_list) simp
  then have "validate_artifact demo_record = Inr ()"
    by (simp add: validate_artifact_def demo_record_def artifact_text_def blank_letter ws1_def byte_def contains_nul_def)
  moreover have "json_pointer (s_state artifact_snapshot) ''/tracker/step'' = Some (JNumber ''1'')" by code_simp
  ultimately show ?thesis
    by (simp add: artifact_insert_def demo_artifact_ext_def)
      (simp add: artifact_snapshot_def insert_record_def read_record_def add_lineage_def add_alias_def
        empty_artifact_index_def demo_record_def demo_artifact_index_def demo_entry_def)
qed

lemma artifact_snapshot_accepted: "snapshot_accepted ref_ext artifact_snapshot"
proof -
  have "state_tree_ok ref_ext (s_state artifact_snapshot)"
    by (auto simp: artifact_snapshot_def state_tree_ok_def json_subvalues.simps number_leaf_ok_def number_ok_def ref_ext_def demo_token
      json_height_le [of "JObject kvs" for kvs] json_height_le [of "JArray vs" for vs] json_height_le [of "JNumber t" for t] json_height_le [of JNull])
  moreover have "length (enc_snapshot artifact_snapshot) \<le> 1000"
    by (simp add: enc_snapshot_def artifact_snapshot_def enc_list_def length_enc_nat enc_str_def enc_int_def ilog10_small ilog10.simps)
  ultimately show ?thesis
    by (simp add: snapshot_accepted_def ref_ext_def)
      (simp add: artifact_snapshot_def tracker_header_def blank_letter ws1_def byte_def)
qed

lemma artifact_page_accepted: "page_accepted ref_ext artifact_page"
proof -
  have "length (enc_page artifact_page) \<le> 16777216"
    by (simp add: artifact_page_def demo_page_def enc_page_def enc_str_def enc_list_def length_enc_nat ilog10_small
        enc_snapshot_def artifact_snapshot_def enc_int_def ilog10.simps)
  then show ?thesis
    using artifact_snapshot_accepted
    by (simp add: page_accepted_def artifact_page_def demo_page_def blank_letter ws1_def byte_def)
      (simp add: ref_ext_def artifact_snapshot_def numeral_2_eq_2)
qed

definition artifact_store_index :: store_index where
  "artifact_store_index = \<lparr>si_charts = empty_chart_index\<lparr>ci_fields := [((''r'', ''x'', ''/tracker/step''), 1)],
       ci_values := [((1, ''/tracker/step''), f64_of_nat 1)], ci_observations := [(1, (False, enc_list enc_str [''/artifacts'']))],
       ci_runs := [(''r'', \<lparr>cr_snapshot_count = 1, cr_first_observed_at_ns = 7, cr_last_observed_at_ns = 7, cr_truncated = False\<rparr>)],
       ci_last_id := 1\<rparr>,
     si_artifacts = demo_artifact_index\<rparr>"

lemma artifact_project:
  "project_indexes ref_ext demo_codec demo_artifact_ext 1 ''r'' ''x'' artifact_snapshot empty_store_index = Inr artifact_store_index"
proof -
  have num: "finite_number (number_ext.truncate ref_ext) (JNumber ''1'') = Some (f64_of_nat 1)"
    by (simp add: finite_number_def as_f64.simps number_ext.truncate_def ref_ext_def demo_token) code_simp
  have esc: "escape_key ''artifacts'' = ''artifacts''" "escape_key ''tracker'' = ''tracker''" "escape_key ''step'' = ''step''"
    by (simp_all add: escape_key_def)
  have "discover (number_ext.truncate ref_ext) [] (s_state artifact_snapshot) initial_discovery
      = \<lparr>ds_fields = [(''/tracker/step'', f64_of_nat 1)], ds_nodes = 4, ds_truncated = False, ds_exclusions = [''/artifacts'']\<rparr>"
    by (simp add: artifact_snapshot_def discover.simps initial_discovery_def esc discover_number_def num exclude_path_def
        insort_insert_key_def)
  moreover have "json_pointer (s_state artifact_snapshot) ''/tracker/step'' = Some (JNumber ''1'')" by code_simp
  then have "numeric_at (number_ext.truncate ref_ext) (s_state artifact_snapshot) ''/tracker/step'' = Some (f64_of_nat 1)"
    by (simp add: numeric_at_def num)
  moreover have "is_tracker_event ref_ext (s_state artifact_snapshot) = Inr False"
    by (simp add: is_tracker_event_def tracker_header_def artifact_snapshot_def)
  moreover have "length (enc_list enc_str [''/artifacts'']) < 16384"
    by (simp add: enc_list_def enc_str_def length_enc_nat ilog10_small ilog10.simps)
  moreover have "bset_of_list ([] :: string list) = []" by (metis bset_of_list_set set_empty)
  ultimately have "chart_insert ref_ext demo_codec 1 ''r'' ''x'' artifact_snapshot empty_chart_index = Inr (si_charts artifact_store_index)"
    by (simp add: chart_insert_def Let_def empty_chart_index_def bm_keys_def add_field_def known_fields_def
        known_axes_def sql_insert_def bm_contains_def add_value_def encode_exclusions_def demo_codec_def put_run_def
        artifact_store_index_def insort_insert_key_def) (simp add: artifact_snapshot_def)
  then show ?thesis
    by (simp add: project_indexes_def empty_store_index_def demo_artifact_insert artifact_store_index_def)
qed

definition artifact_store :: "store_index store" where
  "artifact_store = demo_indexed\<lparr>st_rows := [\<lparr>row_id = 1, row_run_id = ''r'', row_source_id = ''x'',
       row_session_id = ''s'', row_sequence = 1, row_observed_at_ns = 7, row_ingested_at_ns = 9,
       row_json = enc_snapshot artifact_snapshot\<rparr>], st_index := artifact_store_index\<rparr>"

lemma artifact_store_from:
  "store_from ref_ext (project_indexes ref_ext demo_codec demo_artifact_ext) empty_store_index artifact_store"
proof -
  have "validate_snapshot_history_response ref_ext artifact_page = Inr ()"
    using artifact_page_accepted by (simp add: validate_history_response_iff)
  moreover have "to_vec_snapshot ref_ext artifact_snapshot = Inr (enc_snapshot artifact_snapshot)"
    by (simp add: ref_ext_def)
  moreover have "is_tracker_event ref_ext (s_state artifact_snapshot) = Inr False"
    by (simp add: is_tracker_event_def tracker_header_def artifact_snapshot_def)
  moreover have "s_sequence artifact_snapshot = 1" "s_observed_at_ns artifact_snapshot = 7"
    by (simp_all add: artifact_snapshot_def)
  ultimately have "ingest_page ref_ext (project_indexes ref_ext demo_codec demo_artifact_ext) (\<lambda>_. 9) (empty_store empty_store_index)
      demo_source demo_descriptor artifact_page = Inr (1, artifact_store)"
    using demo_descriptor_ok
    by (simp add: ingest_page_eq Let_def cursor_def empty_store_def check_position_def check_ids_def
        ingest_snapshot_eq insert_row_def find_row_def put_cursor_def record_gap_def artifact_project
        artifact_page_def demo_page_def demo_source_def demo_store_def demo_indexed_def artifact_store_def
        demo_descriptor_def blank_letter ws1_def byte_def)
  then have "snd (ingest_batch ref_ext (project_indexes ref_ext demo_codec demo_artifact_ext) (\<lambda>_ _. 9)
      (empty_store empty_store_index) [(demo_source, demo_descriptor, artifact_page)]) = artifact_store" by simp
  then show ?thesis by (metis from_empty from_batch)
qed

section \<open>Properties\<close>

text \<open>
  C31. The artifact index refines the stored snapshots: in every store that ingestion builds, its three
  tables are exactly the records, the aliases and the rejected records of the stored snapshots, in order.
\<close>

theorem artifact_index_exact:
  assumes "store_from X (project_indexes X C A) empty_store_index db"
  shows "\<exists>rss. map fst rss = st_rows db \<and> list_all (\<lambda>(r, s). to_vec_snapshot X s = Inr (row_json r)) rss
    \<and> ai_lineage (si_artifacts (st_index db))
        = concat (map (\<lambda>(r, s). concat (map (lineage_at A r) (artifact_values A s))) rss)
    \<and> ai_aliases (si_artifacts (st_index db))
        = concat (map (\<lambda>(r, s). concat (map (aliases_at A r) (artifact_values A s))) rss)
    \<and> ai_exclusions (si_artifacts (st_index db))
        = concat (map (\<lambda>(r, s). concat (map (exclusions_at A r) (artifact_values A s)) @ not_an_array A r s) rss)"
proof -
  obtain rss where "map fst rss = st_rows db" "\<forall>(r, s) \<in> set rss. to_vec_snapshot X s = Inr (row_json r)"
      "index_of A rss (si_artifacts (st_index db))"
    using artifact_rows [OF assms] by metis
  then show ?thesis unfolding index_of_def list_all_iff by blast
qed

theorem artifact_index_witness:
  "\<exists>rss. map fst rss = st_rows artifact_store \<and> length rss = 1
    \<and> [demo_entry] = concat (map (\<lambda>(r, s). concat (map (lineage_at demo_artifact_ext r) (artifact_values demo_artifact_ext s))) rss)"
proof -
  have one: "length (st_rows artifact_store) = 1" "ai_lineage (si_artifacts (st_index artifact_store)) = [demo_entry]"
    by (simp_all add: artifact_store_def artifact_store_index_def demo_artifact_index_def)
  from artifact_index_exact [OF artifact_store_from] obtain rss where "map fst rss = st_rows artifact_store"
    and "ai_lineage (si_artifacts (st_index artifact_store))
        = concat (map (\<lambda>(r, s). concat (map (lineage_at demo_artifact_ext r) (artifact_values demo_artifact_ext s))) rss)"
    by blast
  then show ?thesis using one by (metis length_map)
qed

text \<open>
  C32. Resolution finds the newest artifact: the record that a name and alias resolve to is logged under
  that name and alias in the scope, no later record of the store is, and no record of the scope was
  rejected.
\<close>

theorem artifact_resolve_newest:
  assumes "store_from X (project_indexes X C A) empty_store_index db"
    and "artifact_resolve A (si_artifacts (st_index db)) q = Inr resp"
  shows "\<exists>e \<in> set (ai_lineage (si_artifacts (st_index db))).
    resolves (si_artifacts (st_index db)) q e \<and> read_lineage A e = Inr (rz_artifact resp)
    \<and> (\<forall>d \<in> set (ai_lineage (si_artifacts (st_index db))). resolves (si_artifacts (st_index db)) q d \<longrightarrow>
         (al_snapshot_id d, al_artifact_index d) \<le> (al_snapshot_id e, al_artifact_index e))
    \<and> (\<forall>x \<in> set (ai_exclusions (si_artifacts (st_index db))).
         \<not> in_scope (rq_runs q) (rq_sources q) (ae_run_id x) (ae_source_id x))"
proof -
  let ?ix = "si_artifacts (st_index db)"
  from assms(2) obtain e where e: "List.find (resolves ?ix q) (rev (ai_lineage ?ix)) = Some e"
      and read: "read_lineage A e = Inr (rz_artifact resp)"
      and cov: "cv_complete (index_coverage ?ix (rq_runs q) (rq_sources q))"
    by (auto simp: artifact_resolve_def result_iffs Let_def)
  have "\<forall>x \<in> set (ai_exclusions ?ix). \<not> in_scope (rq_runs q) (rq_sources q) (ae_run_id x) (ae_source_id x)"
    using cov by (simp add: index_coverage_def Let_def filter_empty_conv)
  with find_rev_last [OF e store_lineage_sorted [OF assms(1)]] read show ?thesis by blast
qed

theorem artifact_resolve_witness:
  "\<exists>resp. artifact_resolve demo_artifact_ext demo_artifact_index
      \<lparr>rq_runs = [''r''], rq_sources = [], rq_name = ''m'', rq_alias = ''b''\<rparr> = Inr resp
    \<and> read_lineage demo_artifact_ext demo_entry = Inr (rz_artifact resp)"
proof -
  let ?q = "\<lparr>rq_runs = [''r''], rq_sources = [], rq_name = ''m'', rq_alias = ''b''\<rparr>"
  have ix: "si_artifacts (st_index artifact_store) = demo_artifact_index"
    by (simp add: artifact_store_def artifact_store_index_def)
  have "is_ok (artifact_resolve demo_artifact_ext demo_artifact_index ?q)"
    by (simp add: artifact_resolve_def validate_selection_def artifact_text_def blank_letter ws1_def byte_def
        contains_nul_def index_coverage_def demo_artifact_index_def resolves_def demo_entry_def in_scope_def id_filter_def
        has_alias_def read_lineage_def demo_artifact_ext_def is_ok_def)
  then obtain resp where r: "artifact_resolve demo_artifact_ext demo_artifact_index ?q = Inr resp"
    by (auto simp: is_ok_iff)
  then have "artifact_resolve demo_artifact_ext (si_artifacts (st_index artifact_store)) ?q = Inr resp" by (simp add: ix)
  from artifact_resolve_newest [OF artifact_store_from this]
  have "read_lineage demo_artifact_ext demo_entry = Inr (rz_artifact resp)"
    by (simp add: ix demo_artifact_index_def)
  with r show ?thesis by blast
qed

end
