(* ===== verification/Snapshot_Views.thy ===== *)
theory Snapshot_Views
  imports Core_Snapshots
begin

text \<open>
  Views of a snapshot collection and the requests behind them (\<open>rust/rvx-core/src/snapshot_views.rs\<close>,
  with the filters and sort orders of \<open>tables.rs\<close>): what a view may be configured to show, and the
  limits every request is checked against before a snapshot is read. An identifier of a layout
  (\<open>valid_ui_id\<close> of \<open>rust/rvx-core/src/ui.rs\<close>) is defined here because the requests use it too.

  Decoding: the derived \<open>Deserialize\<close> instances are not modelled; the hand-written visitors are, over
  the entries that \<open>next_entry\<close> yields, each decoded or an error text.
\<close>

abbreviation (input) MAX_SNAPSHOT_GROUPS :: nat where "MAX_SNAPSHOT_GROUPS \<equiv> 50000"
abbreviation (input) MAX_SNAPSHOT_RECORDS_PAGE :: nat where "MAX_SNAPSHOT_RECORDS_PAGE \<equiv> 2048"
abbreviation (input) MAX_UI_ID_BYTES :: nat where "MAX_UI_ID_BYTES \<equiv> 256"

subsection \<open>Data\<close>

datatype table_filter_op = OpContains | OpEq | OpGt | OpLt

record table_filter =
  tf_path :: string
  tf_op :: table_filter_op
  tf_value :: string

datatype table_sort_direction = Asc | Desc

record table_sort =
  ts_path :: string
  ts_direction :: table_sort_direction

record table_rows_request =
  tr_run_ids :: "string list"
  tr_source_ids :: "string list"
  tr_path :: string
  tr_columns :: "string list option"
  tr_snapshot_ids :: "string list option"
  tr_search :: "string option"
  tr_filters :: "table_filter list"
  tr_sort :: "table_sort option"
  tr_offset :: nat
  tr_limit :: nat

datatype snapshot_aggregation = AggCount | AggSum | AggMin | AggMax

datatype bar_orientation = Horizontal | Vertical
datatype bar_layout = Grouped | Stacked
datatype bar_order = ValueDesc | ValueAsc | Label
datatype status_density = Comfortable | Compact
datatype shade_scale = Linear | Logarithmic

record bar_view =
  bv_category_path :: string
  bv_value_paths :: "string list"
  bv_aggregation :: snapshot_aggregation
  bv_orientation :: bar_orientation
  bv_layout :: bar_layout
  bv_order :: bar_order
  bv_limit :: nat
  bv_decimals :: "nat option"
  bv_unit :: "string option"

record status_grid =
  sw_id_paths :: "string list"
  sw_status_path :: string
  sw_label_path :: "string option"
  sw_group_path :: "string option"
  sw_value_path :: "string option"
  sw_shade_path :: "string option"
  sw_shade_scale :: "shade_scale option"
  sw_density :: status_density
  sw_sort :: "table_sort option"
  sw_columns :: "nat option"
  sw_cell_size :: "nat option"
  sw_gap :: "nat option"
  sw_colors :: "(string, string) bmap option"

datatype snapshot_view = Bar bar_view | StatusGrid status_grid

record snapshot_records_request =
  sq_run_ids :: "string list"
  sq_source_ids :: "string list"
  sq_path :: string
  sq_columns :: "string list option"
  sq_snapshot_ids :: "string list option"
  sq_search :: "string option"
  sq_filters :: "table_filter list"
  sq_sort :: "table_sort option"
  sq_offset :: nat
  sq_limit :: nat
  sq_identity_paths :: "string list"

record snapshot_measure =
  sm_id :: string
  sm_op :: snapshot_aggregation
  sm_path :: "string option"

record snapshot_aggregate_order =
  so_measure :: string
  so_direction :: table_sort_direction

record snapshot_aggregate_request =
  sa_run_ids :: "string list"
  sa_source_ids :: "string list"
  sa_path :: string
  sa_snapshot_ids :: "string list option"
  sa_search :: "string option"
  sa_filters :: "table_filter list"
  sa_group_by :: "string list"
  sa_measures :: "snapshot_measure list"
  sa_order :: "snapshot_aggregate_order option"
  sa_offset :: nat
  sa_limit :: nat

subsection \<open>Decoding of bounded maps\<close>

text \<open>
  The loop of the visitors \<open>Colors\<close>, \<open>RunColors\<close> and \<open>Selections\<close>: an entry beyond the limit or a
  key that is already there ends the decoding, so no entry silently replaces another.
\<close>

definition insert_distinct ::
  "nat \<Rightarrow> string \<Rightarrow> (string, string) bmap \<Rightarrow> string + (string \<times> string) \<Rightarrow> string + (string, string) bmap" where
  "insert_distinct limit message result entry =
     rbind entry (\<lambda>(key, value).
       if limit \<le> length result \<or> bm_contains result key then Inl message
       else Inr (bm_insert key value result))"

definition visit_map ::
  "nat \<Rightarrow> string \<Rightarrow> (string + (string \<times> string)) list \<Rightarrow> string + (string, string) bmap" where
  "visit_map limit message entries = try_fold (insert_distinct limit message) [] entries"

text \<open>\<open>present\<close>: an optional field that is there must decode as its own type, so a null is an error.\<close>

definition present :: "string + 'a \<Rightarrow> string + 'a option" where
  "present decoded = rbind decoded (\<lambda>x. Inr (Some x))"

definition status_colors :: "(string + (string \<times> string)) list \<Rightarrow> string + (string, string) bmap option" where
  "status_colors entries =
     rbind (visit_map 128 ''duplicate or excessive status colors'' entries) (\<lambda>m. Inr (Some m))"

definition records_limit :: nat where "records_limit = 1000"
definition aggregate_limit :: nat where "aggregate_limit = 50"

subsection \<open>Validation\<close>

definition valid_ui_id :: "string \<Rightarrow> bool" where
  "valid_ui_id value \<longleftrightarrow>
     value \<noteq> [] \<and> length value \<le> MAX_UI_ID_BYTES \<and> str_trim value = value \<and> \<not> has_control value"

text \<open>\<open>#RRGGBB\<close>; the status grid and the browser preferences test it with the same expression.\<close>

definition hex_color :: "string \<Rightarrow> bool" where
  "hex_color color \<longleftrightarrow>
     length color = 7 \<and> starts_with ''#'' color \<and> list_all is_ascii_hexdigit (drop 1 color)"

definition validate_snapshot_field :: "string \<Rightarrow> string + unit" where
  "validate_snapshot_field path =
     (if contains_nul path then Inl ''snapshot field paths must not contain null characters''
      else if path = ''$key'' \<or> path = ''$value'' then Inr ()
      else map_err protocol_error_text (validate_snapshot_pointer path))"

definition field_paths :: "string list \<Rightarrow> nat \<Rightarrow> nat \<Rightarrow> string + unit" where
  "field_paths values lo hi =
     (if \<not> (lo \<le> length values \<and> length values \<le> hi) \<or> \<not> distinct values
      then Inl (''field paths require '' @ show_nat lo @ ''..'' @ show_nat hi @ '' unique entries'')
      else for_each validate_snapshot_field values)"

definition validate_bar :: "bar_view \<Rightarrow> string + unit" where
  "validate_bar v =
     rbind (validate_snapshot_field (bv_category_path v)) (\<lambda>_.
     rbind (field_paths (bv_value_paths v) (if bv_aggregation v \<noteq> AggCount then 1 else 0)
              (if bv_aggregation v = AggCount then 0 else 8)) (\<lambda>_.
     rbind (ensure (\<not> (\<not> (1 \<le> bv_limit v \<and> bv_limit v \<le> 50)
                      \<or> (case bv_decimals v of None \<Rightarrow> False | Some d \<Rightarrow> 20 < d)))
              ''bar limit must be 1..50 and decimals must be 0..20'') (\<lambda>_.
     ensure (\<not> (case bv_unit v of None \<Rightarrow> False | Some u \<Rightarrow> 40 < chars_count u \<or> contains_nul u))
       ''bar unit must contain at most 40 characters'')))"

definition out_of_range :: "nat \<Rightarrow> nat \<Rightarrow> nat option \<Rightarrow> bool" where
  "out_of_range lo hi v = (case v of None \<Rightarrow> False | Some n \<Rightarrow> \<not> (lo \<le> n \<and> n \<le> hi))"

definition bad_colors :: "(string, string) bmap \<Rightarrow> bool" where
  "bad_colors colors \<longleftrightarrow>
     128 < length colors
     \<or> list_ex (\<lambda>(state, color). 256 < length state \<or> contains_nul state \<or> \<not> hex_color color) colors"

definition validate_status_grid :: "status_grid \<Rightarrow> string + unit" where
  "validate_status_grid v =
     rbind (field_paths (sw_id_paths v) 1 4) (\<lambda>_.
     rbind (validate_snapshot_field (sw_status_path v)) (\<lambda>_.
     rbind (for_each validate_snapshot_field
              (List.map_filter (\<lambda>p. p)
                 [sw_label_path v, sw_group_path v, sw_value_path v, sw_shade_path v])) (\<lambda>_.
     rbind (case sw_sort v of None \<Rightarrow> Inr () | Some s \<Rightarrow> validate_snapshot_field (ts_path s)) (\<lambda>_.
     rbind (ensure (\<not> (out_of_range 1 64 (sw_columns v) \<or> out_of_range 12 40 (sw_cell_size v)
                      \<or> out_of_range 2 12 (sw_gap v)))
              ''status grid columns must be 1..64, cell size 12..40, and gap 2..12'') (\<lambda>_.
     ensure (\<not> (case sw_colors v of None \<Rightarrow> False | Some colors \<Rightarrow> bad_colors colors))
       ''status colors require at most 128 bounded state keys and #RRGGBB values'')))))"

fun validate_view :: "snapshot_view \<Rightarrow> string + unit" where
  "validate_view (Bar v) = validate_bar v"
| "validate_view (StatusGrid v) = validate_status_grid v"

subsection \<open>Requests\<close>

definition table_request :: "snapshot_records_request \<Rightarrow> table_rows_request" where
  "table_request q = \<lparr>tr_run_ids = sq_run_ids q, tr_source_ids = sq_source_ids q, tr_path = sq_path q,
     tr_columns = sq_columns q, tr_snapshot_ids = sq_snapshot_ids q, tr_search = sq_search q,
     tr_filters = sq_filters q, tr_sort = sq_sort q, tr_offset = sq_offset q, tr_limit = sq_limit q\<rparr>"

definition validate_identity_paths :: "snapshot_records_request \<Rightarrow> string + unit" where
  "validate_identity_paths q = field_paths (sq_identity_paths q) 1 4"

definition check_measure :: "string list \<Rightarrow> snapshot_measure \<Rightarrow> string + string list" where
  "check_measure ids m =
     (if \<not> valid_ui_id (sm_id m) \<or> sm_id m \<in> set ids then Inl ''measure IDs must be unique and bounded''
      else rbind (case sm_path m of
                    Some path \<Rightarrow> validate_snapshot_field path
                  | None \<Rightarrow> ensure (sm_op m = AggCount) ''numeric measures require a path'') (\<lambda>_.
           Inr (sm_id m # ids)))"

definition validate_aggregate :: "snapshot_aggregate_request \<Rightarrow> string + unit" where
  "validate_aggregate q =
     rbind (field_paths (sa_group_by q) 1 2) (\<lambda>_.
     rbind (ensure (\<not> (sa_measures q = [] \<or> 8 < length (sa_measures q)
                      \<or> MAX_SNAPSHOT_GROUPS < sa_offset q \<or> \<not> (1 \<le> sa_limit q \<and> sa_limit q \<le> 256)))
              ''aggregate requires 1..8 measures, offset at most 50000, and limit 1..256'') (\<lambda>_.
     rbind (try_fold check_measure [] (sa_measures q)) (\<lambda>ids.
     ensure (\<not> (case sa_order q of None \<Rightarrow> False | Some order \<Rightarrow> so_measure order \<notin> set ids))
       ''aggregate order references an unknown measure'')))"

section \<open>Lemmas\<close>

text \<open>A visitor yields exactly the entries it was given, in key order, or an error.\<close>

lemma insert_distinct_Inr:
  "insert_distinct limit message m e = Inr m' \<longleftrightarrow>
     (\<exists>key v. e = Inr (key, v) \<and> length m < limit \<and> \<not> bm_contains m key \<and> m' = bm_insert key v m)"
  by (cases e) (auto simp: insert_distinct_def not_le split: if_splits)

lemma visit_map_fold:
  assumes "try_fold (insert_distinct limit message) m entries = Inr m'"
    and "bm_sorted m" and "length m \<le> limit"
  shows "\<exists>kvs. entries = map Inr kvs \<and> bm_sorted m' \<and> length m' \<le> limit
     \<and> set m' = set m \<union> set kvs \<and> distinct (map fst (kvs @ m))
     \<and> length m' = length m + length kvs"
  using assms
proof (induction entries arbitrary: m)
  case Nil
  have "distinct (map fst m)" using Nil.prems(2) by (rule bm.entries_distinct)
  with Nil.prems show ?case by auto
next
  case (Cons e entries)
  from Cons.prems(1) obtain key v where e: "e = Inr (key, v)"
      and lim: "length m < limit" and new: "\<not> bm_contains m key"
      and rest: "try_fold (insert_distinct limit message) (bm_insert key v m) entries = Inr m'"
    by (auto simp: rbind_eq_Inr insert_distinct_Inr)
  have s: "bm_sorted (bm_insert key v m)" using Cons.prems(2) by (rule bm_sorted_insert)
  have keyn: "key \<notin> fst ` set m" using new by (simp add: bm_contains_iff)
  have setm: "set (bm_insert key v m) = insert (key, v) (set m)"
  proof -
    have "(a, b) \<in> set (bm_insert key v m) \<longleftrightarrow> (a, b) \<in> insert (key, v) (set m)" for a b
    proof -
      have "(a, b) \<in> set (bm_insert key v m) \<longleftrightarrow> bm_get (bm_insert key v m) a = Some b"
        by (rule bm.get_iff_entry [OF s, symmetric])
      also have "\<dots> \<longleftrightarrow> (if a = key then Some v else bm_get m a) = Some b"
        using Cons.prems(2) by (simp add: bm_get_insert)
      also have "\<dots> \<longleftrightarrow> (a, b) \<in> insert (key, v) (set m)"
        using keyn bm.get_iff_entry [OF Cons.prems(2), of a b] by (auto simp: image_iff)
      finally show ?thesis .
    qed
    then show ?thesis by auto
  qed
  have d: "distinct (map fst (bm_insert key v m))" using s by (rule bm.entries_distinct)
  have dm: "distinct (map fst m)" using Cons.prems(2) by (rule bm.entries_distinct)
  have len: "length (bm_insert key v m) = Suc (length m)"
  proof -
    have "length (bm_insert key v m) = card (fst ` set (bm_insert key v m))"
      using d by (metis distinct_card length_map set_map)
    also have "\<dots> = Suc (card (fst ` set m))" using keyn by (simp add: set_bm_insert)
    also have "card (fst ` set m) = length m" using dm by (metis distinct_card length_map set_map)
    finally show ?thesis .
  qed
  from Cons.IH [OF rest s] lim len obtain kvs where kvs: "entries = map Inr kvs" "bm_sorted m'"
      "length m' \<le> limit" "set m' = set (bm_insert key v m) \<union> set kvs"
      "distinct (map fst (kvs @ bm_insert key v m))"
      "length m' = length (bm_insert key v m) + length kvs"
    by auto
  have "distinct (map fst (((key, v) # kvs) @ m))"
    using kvs(5) dm keyn setm by (auto simp: set_bm_insert)
  with kvs setm len show ?case
    by (intro exI [of _ "(key, v) # kvs"]) (auto simp: e)
qed

lemma visit_map_exact:
  assumes "visit_map limit message entries = Inr m"
  shows "\<exists>kvs. entries = map Inr kvs \<and> bm_sorted m \<and> length m \<le> limit
     \<and> set m = set kvs \<and> distinct (map fst kvs) \<and> length m = length kvs"
  using visit_map_fold [of limit message "[]" entries m] assms by (auto simp: visit_map_def)

lemma check_measure_Inr:
  "check_measure ids m = Inr ids' \<longleftrightarrow>
     valid_ui_id (sm_id m) \<and> sm_id m \<notin> set ids \<and> ids' = sm_id m # ids
     \<and> (case sm_path m of Some path \<Rightarrow> validate_snapshot_field path = Inr () | None \<Rightarrow> sm_op m = AggCount)"
  by (auto simp: check_measure_def result_iffs split: option.splits)

lemma check_measures_ids:
  "try_fold check_measure ids ms = Inr ids' \<Longrightarrow>
   set ids' = set ids \<union> sm_id ` set ms \<and> (distinct ids \<longrightarrow> distinct (map sm_id ms) \<and> distinct ids')"
proof (induction ms arbitrary: ids)
  case (Cons m ms)
  from Cons.prems have fresh: "sm_id m \<notin> set ids"
      and rest: "try_fold check_measure (sm_id m # ids) ms = Inr ids'"
    by (auto simp: rbind_eq_Inr check_measure_Inr)
  from Cons.IH [OF rest] have eq: "set ids' = set (sm_id m # ids) \<union> sm_id ` set ms"
    and d: "distinct (sm_id m # ids) \<longrightarrow> distinct (map sm_id ms) \<and> distinct ids'" by auto
  have "sm_id m \<notin> sm_id ` set ms"
  proof
    assume "sm_id m \<in> sm_id ` set ms"
    have "x \<in> set is \<Longrightarrow> x \<in> sm_id ` set ns \<Longrightarrow> try_fold check_measure is ns \<noteq> Inr ids'" for x "is" ns
    proof (induction ns arbitrary: "is")
      case (Cons n ns)
      show ?case
      proof
        assume "try_fold check_measure is (n # ns) = Inr ids'"
        then have "sm_id n \<notin> set is" "try_fold check_measure (sm_id n # is) ns = Inr ids'"
          by (auto simp: rbind_eq_Inr check_measure_Inr)
        with Cons show False by auto
      qed
    qed simp
    from this [of "sm_id m" "sm_id m # ids" ms] \<open>sm_id m \<in> sm_id ` set ms\<close> rest show False by simp
  qed
  with eq d fresh show ?case by auto
qed simp

end
