(* ===== verification/Ui_Documents.thy ===== *)
theory Ui_Documents
  imports Snapshot_Views F64
begin

text \<open>
  The documents of the user interface (\<open>rust/rvx-core/src/ui.rs\<close>): shared workspaces with their
  sections and panels, and the preferences of a browser. Sizes of machine integers are part of the
  decoding (\<open>u8\<close>, \<open>u16\<close>, \<open>u64\<close>), so they are naturals here. The derived serializers are a
  parameter of the store; the hand-written decoders are modelled over the fields they receive.
  \<open>HashSet::insert\<close> in a loop is a running list of what was seen.
\<close>

abbreviation (input) MAX_UI_REQUEST_BYTES :: nat where "MAX_UI_REQUEST_BYTES \<equiv> 2097152"
abbreviation (input) MAX_UI_REVISION :: nat where "MAX_UI_REVISION \<equiv> 9007199254740991"
abbreviation (input) MAX_WORKSPACE_SETS :: nat where "MAX_WORKSPACE_SETS \<equiv> 100"
abbreviation (input) MAX_UI_RUN_COLORS :: nat where "MAX_UI_RUN_COLORS \<equiv> 1000"
abbreviation (input) MAX_COLUMN_DECIMALS :: nat where "MAX_COLUMN_DECIMALS \<equiv> 20"

subsection \<open>Data\<close>

datatype theme = Light | Dark
datatype panel_size = NormalSize | Quarter | Third | Half | TwoThirds | ThreeQuarters | Wide
datatype chart_style = LineStyle | AreaStyle
datatype chart_legend = LegendAuto | LegendShow | LegendHide
datatype ui_filter_op = UiContains | UiEq | UiGt | UiLt
datatype ui_sort_direction = UiAsc | UiDesc
datatype ui_filter_display = Select | Radio

record chart_presentation =
  cp_title :: "string option"
  cp_style :: "chart_style option"
  cp_line_width :: "f64 option"
  cp_points :: "bool option"
  cp_legend :: "chart_legend option"
  cp_y_min :: "f64 option"
  cp_y_max :: "f64 option"

record column_preference =
  co_id :: string
  co_hidden :: "bool option"
  co_width :: "f64 option"
  co_decimals :: "nat option"

record ui_filter_option =
  uo_label :: string
  uo_value :: string

record ui_filter_group =
  ug_id :: string
  ug_name :: string
  ug_path :: string
  ug_display :: ui_filter_display
  ug_options :: "ui_filter_option list"
  ug_selected :: "string option"

record ui_table_filter =
  uf_path :: string
  uf_op :: ui_filter_op
  uf_value :: string
  uf_enabled :: "bool option"

record table_sort_preference =
  up_path :: string
  up_direction :: ui_sort_direction

record table_query_preference =
  uq_search :: "string option"
  uq_filters :: "ui_table_filter list option"
  uq_filter_groups :: "ui_filter_group list option"
  uq_sort :: "table_sort_preference option"

text \<open>The fields of the variants of \<open>PanelSpec\<close>, in their order.\<close>

datatype panel_spec =
    Chart (panel_id: string) (panel_section: string) (panel_size: panel_size) string
      "string list option" "chart_presentation option"
  | MetricTable (panel_id: string) (panel_section: string) (panel_size: panel_size) "string list"
      "string option" "string list option" "column_preference list option" "table_query_preference option"
  | SnapshotTable (panel_id: string) (panel_section: string) (panel_size: panel_size) string
      "string option" "string list option" "column_preference list option" "table_query_preference option"
      "snapshot_view option"

record section_spec =
  sp_id :: string
  sp_name :: string
  sp_collapsed :: bool

record workspace_set =
  wk_id :: string
  wk_name :: string
  wk_experiment_id :: string
  wk_panels :: "panel_spec list"
  wk_sections :: "section_spec list"

record workspace_document =
  wd_revision :: nat
  wd_sets :: "workspace_set list"

record browser_preferences =
  bp_revision :: nat
  bp_theme :: theme
  bp_sidebar_width :: nat
  bp_selected :: "(string, string) bmap"
  bp_run_colors :: "(string, string) bmap"

record ui_state =
  us_workspaces :: workspace_document
  us_browser :: browser_preferences

record save_workspaces_request =
  sv_revision :: nat
  sv_mutation_id :: string
  sv_sets :: "workspace_set list"

record save_browser_request =
  sb_revision :: nat
  sb_mutation_id :: string
  sb_theme :: theme
  sb_sidebar_width :: nat
  sb_selected :: "(string, string) bmap"
  sb_run_colors :: "(string, string) bmap"

definition default_browser :: browser_preferences where
  "default_browser = \<lparr>bp_revision = 0, bp_theme = Light, bp_sidebar_width = 280,
     bp_selected = [], bp_run_colors = []\<rparr>"

subsection \<open>Decoding\<close>

record panel_fields =
  pf_kind :: string
  pf_id :: string
  pf_section_id :: string
  pf_size :: panel_size
  pf_path :: "string option"
  pf_paths :: "string list option"
  pf_presentation :: "chart_presentation option"
  pf_title :: "string option"
  pf_source_ids :: "string list option"
  pf_columns :: "column_preference list option"
  pf_query :: "table_query_preference option"
  pf_view :: "snapshot_view option"

text \<open>The errors that \<open>serde::de::Error\<close> builds from its documented message formats.\<close>

definition missing_field :: "string \<Rightarrow> string" where
  "missing_field field = ''missing field `'' @ field @ ''`''"

definition unknown_panel_kind :: "string \<Rightarrow> string" where
  "unknown_panel_kind kind = ''unknown variant `'' @ kind
     @ ''`, expected one of `chart`, `metric-table`, `snapshot-table`''"

definition decode_panel :: "panel_fields \<Rightarrow> string + panel_spec" where
  "decode_panel f =
     (if pf_kind f = ''chart'' then
        if pf_title f \<noteq> None \<or> pf_source_ids f \<noteq> None \<or> pf_columns f \<noteq> None
           \<or> pf_query f \<noteq> None \<or> pf_view f \<noteq> None
        then Inl ''table-only fields are not valid chart configuration''
        else rbind (ok_or (missing_field ''path'') (pf_path f)) (\<lambda>path.
             Inr (Chart (pf_id f) (pf_section_id f) (pf_size f) path (pf_paths f) (pf_presentation f)))
      else if pf_kind f = ''metric-table'' then
        if pf_path f \<noteq> None \<or> pf_presentation f \<noteq> None \<or> pf_view f \<noteq> None
        then Inl ''path/presentation are not valid metric-table configuration''
        else rbind (ok_or (missing_field ''paths'') (pf_paths f)) (\<lambda>paths.
             Inr (MetricTable (pf_id f) (pf_section_id f) (pf_size f) paths (pf_title f)
                    (pf_source_ids f) (pf_columns f) (pf_query f)))
      else if pf_kind f = ''snapshot-table'' then
        if pf_paths f \<noteq> None \<or> pf_presentation f \<noteq> None
        then Inl ''paths/presentation are not valid snapshot-table configuration''
        else rbind (ok_or (missing_field ''path'') (pf_path f)) (\<lambda>path.
             Inr (SnapshotTable (pf_id f) (pf_section_id f) (pf_size f) path (pf_title f)
                    (pf_source_ids f) (pf_columns f) (pf_query f) (pf_view f)))
      else Inl (unknown_panel_kind (pf_kind f)))"

text \<open>The form that the derived \<open>Serialize\<close> writes: the tag and the fields of the variant.\<close>

fun panel_form :: "panel_spec \<Rightarrow> panel_fields" where
  "panel_form (Chart i s z p ps d) = \<lparr>pf_kind = ''chart'', pf_id = i, pf_section_id = s, pf_size = z,
     pf_path = Some p, pf_paths = ps, pf_presentation = d, pf_title = None, pf_source_ids = None,
     pf_columns = None, pf_query = None, pf_view = None\<rparr>"
| "panel_form (MetricTable i s z ps t src cs q) = \<lparr>pf_kind = ''metric-table'', pf_id = i, pf_section_id = s,
     pf_size = z, pf_path = None, pf_paths = Some ps, pf_presentation = None, pf_title = t,
     pf_source_ids = src, pf_columns = cs, pf_query = q, pf_view = None\<rparr>"
| "panel_form (SnapshotTable i s z p t src cs q v) = \<lparr>pf_kind = ''snapshot-table'', pf_id = i,
     pf_section_id = s, pf_size = z, pf_path = Some p, pf_paths = None, pf_presentation = None,
     pf_title = t, pf_source_ids = src, pf_columns = cs, pf_query = q, pf_view = v\<rparr>"

definition column_decimals :: "string + nat \<Rightarrow> string + nat option" where
  "column_decimals decoded =
     rbind decoded (\<lambda>decimals.
       if MAX_COLUMN_DECIMALS < decimals then Inl ''decimals must be an integer from 0 through 20''
       else Inr (Some decimals))"

definition decode_run_colors :: "(string + (string \<times> string)) list \<Rightarrow> string + (string, string) bmap" where
  "decode_run_colors = visit_map MAX_UI_RUN_COLORS ''duplicate or excessive run_colors overrides''"

definition decode_selections :: "(string + (string \<times> string)) list \<Rightarrow> string + (string, string) bmap" where
  "decode_selections = visit_map MAX_WORKSPACE_SETS ''duplicate or excessive workspace selections''"

subsection \<open>Validation of panels\<close>

definition ui_text :: "string \<Rightarrow> nat \<Rightarrow> bool" where
  "ui_text value max_chars \<longleftrightarrow>
     length value \<le> 4096 \<and> chars_count value \<le> max_chars \<and> \<not> contains_nul value"

definition ui_path :: "string \<Rightarrow> bool \<Rightarrow> bool" where
  "ui_path value with_root \<longleftrightarrow> ui_text value 4096 \<and> ((with_root \<and> value = []) \<or> starts_with ''/'' value)"

definition ui_paths :: "string list \<Rightarrow> bool" where
  "ui_paths values \<longleftrightarrow>
     values \<noteq> [] \<and> length values \<le> 64 \<and> list_all (\<lambda>v. ui_path v False) values \<and> distinct values"

definition panel_identity :: "panel_spec \<Rightarrow> string \<times> string" where
  "panel_identity p = (panel_id p, panel_section p)"

fun panel_source_ids :: "panel_spec \<Rightarrow> string list" where
  "panel_source_ids (Chart _ _ _ _ _ _) = []"
| "panel_source_ids (MetricTable _ _ _ _ _ source_ids _ _) = (case source_ids of None \<Rightarrow> [] | Some s \<Rightarrow> s)"
| "panel_source_ids (SnapshotTable _ _ _ _ _ source_ids _ _ _) = (case source_ids of None \<Rightarrow> [] | Some s \<Rightarrow> s)"

definition finite_between :: "rat \<Rightarrow> rat \<Rightarrow> f64 \<Rightarrow> bool" where
  "finite_between lo hi x \<longleftrightarrow> f64_is_finite x \<and> f64_le (Fin lo) x \<and> f64_le x (Fin hi)"

definition validate_presentation :: "chart_presentation \<Rightarrow> string + unit" where
  "validate_presentation d =
     rbind (case cp_title d of None \<Rightarrow> Inr ()
            | Some title \<Rightarrow> ensure (\<not> blank title \<and> ui_text title 120) ''invalid chart title'') (\<lambda>_.
     rbind (case cp_line_width d of None \<Rightarrow> Inr ()
            | Some width \<Rightarrow> ensure (finite_between (1 / 2) 6 width)
                             ''lineWidth must be finite and from 0.5 through 6'') (\<lambda>_.
     rbind (ensure ((case cp_y_min d of None \<Rightarrow> True | Some y \<Rightarrow> f64_is_finite y)
                    \<and> (case cp_y_max d of None \<Rightarrow> True | Some y \<Rightarrow> f64_is_finite y))
              ''chart bounds must be finite'') (\<lambda>_.
     (case (cp_y_min d, cp_y_max d) of
        (Some lo, Some hi) \<Rightarrow> ensure (f64_less lo hi) ''yMin must be less than yMax''
      | _ \<Rightarrow> Inr ()))))"

definition check_column :: "string list \<Rightarrow> column_preference \<Rightarrow> string + string list" where
  "check_column ids column =
     rbind (ensure (ui_text (co_id column) 4096 \<and> co_id column \<notin> set ids)
              ''invalid or duplicate column ID'') (\<lambda>_.
     rbind (case co_width column of None \<Rightarrow> Inr ()
            | Some width \<Rightarrow> ensure (finite_between 70 800 width)
                             ''column width must be finite and from 70 through 800'') (\<lambda>_.
     rbind (case co_decimals column of None \<Rightarrow> Inr ()
            | Some d \<Rightarrow> ensure (d \<le> MAX_COLUMN_DECIMALS)
                         ''decimals must be an integer from 0 through 20'') (\<lambda>_.
     Inr (co_id column # ids))))"

text \<open>\<open>all\<close> stops at the first option that fails, and so does the set of values seen.\<close>

fun filter_options_ok :: "string list \<Rightarrow> ui_filter_option list \<Rightarrow> bool" where
  "filter_options_ok values [] = True"
| "filter_options_ok values (x # xs) \<longleftrightarrow>
     \<not> blank (uo_label x) \<and> ui_text (uo_label x) 120 \<and> \<not> blank (uo_value x) \<and> ui_text (uo_value x) 4096
     \<and> uo_value x \<notin> set values \<and> filter_options_ok (uo_value x # values) xs"

definition check_group :: "string list \<Rightarrow> ui_filter_group \<Rightarrow> string + string list" where
  "check_group ids g =
     rbind (ensure (valid_ui_id (ug_id g) \<and> ug_id g \<notin> set ids \<and> \<not> blank (ug_name g)
                    \<and> ui_text (ug_name g) 120 \<and> ui_text (ug_path g) 4096)
              ''invalid or duplicate filter group'') (\<lambda>_.
     rbind (ensure (ug_options g \<noteq> [] \<and> length (ug_options g) \<le> 32 \<and> filter_options_ok [] (ug_options g))
              ''filter groups require 1 to 32 uniquely valued, nonempty options'') (\<lambda>_.
     rbind (ensure (case ug_selected g of None \<Rightarrow> True
                    | Some s \<Rightarrow> list_ex (\<lambda>x. uo_value x = s) (ug_options g))
              ''selected filter option is not defined'') (\<lambda>_.
     Inr (ug_id g # ids))))"

definition validate_table_query :: "table_query_preference \<Rightarrow> string + unit" where
  "validate_table_query q =
     rbind (ensure (case uq_search q of None \<Rightarrow> True | Some v \<Rightarrow> ui_text v 4096)
              ''table search exceeds 4096 bytes'') (\<lambda>_.
     rbind (case uq_sort q of None \<Rightarrow> Inr ()
            | Some s \<Rightarrow> ensure (ui_text (up_path s) 4096) ''sort path exceeds 4096 bytes'') (\<lambda>_.
     rbind (case uq_filters q of None \<Rightarrow> Inr ()
            | Some fs \<Rightarrow> ensure (length fs \<le> 32
                           \<and> list_all (\<lambda>f. ui_text (uf_path f) 4096 \<and> ui_text (uf_value f) 4096) fs)
                          ''at most 32 filters with 4096-byte strings are allowed'') (\<lambda>_.
     (case uq_filter_groups q of None \<Rightarrow> Inr ()
      | Some gs \<Rightarrow>
          rbind (ensure (length gs \<le> 16
                         \<and> length gs + (case uq_filters q of None \<Rightarrow> 0 | Some fs \<Rightarrow> length fs) \<le> 32)
                   ''at most 16 filter groups and 32 total filters are allowed'') (\<lambda>_.
          rbind (try_fold check_group [] gs) (\<lambda>_. Inr ()))))))"

definition validate_table ::
  "string option \<Rightarrow> string list option \<Rightarrow> column_preference list option \<Rightarrow> table_query_preference option
   \<Rightarrow> string + unit" where
  "validate_table title sources columns query =
     rbind (case title of None \<Rightarrow> Inr ()
            | Some t \<Rightarrow> ensure (ui_text t 120) ''table title exceeds 120 characters'') (\<lambda>_.
     rbind (case sources of None \<Rightarrow> Inr ()
            | Some ids \<Rightarrow> ensure (length ids \<le> 256 \<and> list_all valid_ui_id ids \<and> distinct ids)
                           ''invalid, duplicate, or excessive Source IDs'') (\<lambda>_.
     rbind (case columns of None \<Rightarrow> Inr ()
            | Some cs \<Rightarrow>
                rbind (ensure (length cs \<le> 131) ''at most 131 table columns are allowed'') (\<lambda>_.
                rbind (try_fold check_column [] cs) (\<lambda>_. Inr ()))) (\<lambda>_.
     (case query of None \<Rightarrow> Inr () | Some q \<Rightarrow> validate_table_query q))))"

fun validate_panel :: "panel_spec \<Rightarrow> string + unit" where
  "validate_panel (Chart _ _ _ metric metrics presentation) =
     rbind (ensure (ui_path metric False) ''invalid chart path'') (\<lambda>_.
     rbind (case metrics of None \<Rightarrow> Inr ()
            | Some ms \<Rightarrow> ensure (ui_paths ms \<and> metric \<in> set ms)
                          ''chart paths must be 1..64 unique metric paths including path'') (\<lambda>_.
     (case presentation of None \<Rightarrow> Inr () | Some d \<Rightarrow> validate_presentation d)))"
| "validate_panel (MetricTable _ _ _ metrics title source_ids columns query) =
     rbind (ensure (ui_paths metrics) ''table paths must be 1..64 unique metric paths'') (\<lambda>_.
     validate_table title source_ids columns query)"
| "validate_panel (SnapshotTable _ _ _ collection title source_ids columns query view) =
     rbind (ensure (ui_path collection True) ''invalid snapshot-table path'') (\<lambda>_.
     rbind (validate_table title source_ids columns query) (\<lambda>_.
     (case view of None \<Rightarrow> Inr () | Some v \<Rightarrow> validate_view v)))"

subsection \<open>Validation of requests\<close>

definition check_section :: "string list \<Rightarrow> section_spec \<Rightarrow> string + string list" where
  "check_section sections s =
     rbind (ensure (valid_ui_id (sp_id s) \<and> sp_id s \<notin> set sections)
              ''invalid or duplicate section ID'') (\<lambda>_.
     rbind (ensure (ui_text (sp_name s) 100) ''section name exceeds 100 characters'') (\<lambda>_.
     Inr (sp_id s # sections)))"

definition check_panel :: "string list \<Rightarrow> string list \<Rightarrow> panel_spec \<Rightarrow> string + string list" where
  "check_panel sections panels p =
     rbind (ensure (valid_ui_id (fst (panel_identity p)) \<and> fst (panel_identity p) \<notin> set panels)
              ''invalid or duplicate panel ID'') (\<lambda>_.
     rbind (ensure (snd (panel_identity p) \<in> set sections)
              ''panel references an unknown section'') (\<lambda>_.
     rbind (validate_panel p) (\<lambda>_.
     Inr (fst (panel_identity p) # panels))))"

type_synonym seen_sets = "string list \<times> (string \<times> string) list"

definition check_set :: "seen_sets \<Rightarrow> workspace_set \<Rightarrow> string + seen_sets" where
  "check_set seen w = (case seen of (ids, names) \<Rightarrow>
     rbind (ensure (valid_ui_id (wk_id w) \<and> valid_ui_id (wk_experiment_id w))
              ''invalid workspace or experiment ID'') (\<lambda>_.
     rbind (ensure (wk_id w \<notin> set ids) ''duplicate workspace ID'') (\<lambda>_.
     rbind (ensure (wk_name w \<noteq> [] \<and> str_trim (wk_name w) = wk_name w \<and> ui_text (wk_name w) 80)
              ''workspace name must be trimmed, nonempty, and at most 80 characters'') (\<lambda>_.
     rbind (ensure ((wk_experiment_id w, wk_name w) \<notin> set names)
              ''duplicate workspace name in experiment'') (\<lambda>_.
     rbind (ensure (1 \<le> length (wk_sections w) \<and> length (wk_sections w) \<le> 24 \<and> length (wk_panels w) \<le> 24)
              ''workspace requires 1..24 sections and at most 24 panels'') (\<lambda>_.
     rbind (try_fold check_section [] (wk_sections w)) (\<lambda>sections.
     rbind (try_fold (check_panel sections) [] (wk_panels w)) (\<lambda>_.
     Inr (wk_id w # ids, (wk_experiment_id w, wk_name w) # names)))))))))"

definition validate_workspaces :: "save_workspaces_request \<Rightarrow> string + unit" where
  "validate_workspaces q =
     rbind (ensure (sv_revision q \<le> MAX_UI_REVISION) ''revision exceeds JavaScript safe integer'') (\<lambda>_.
     rbind (ensure (valid_ui_id (sv_mutation_id q)) ''mutation_id must contain 1..256 bounded bytes'') (\<lambda>_.
     rbind (ensure (length (sv_sets q) \<le> MAX_WORKSPACE_SETS)
              ''at most 100 workspace sets are allowed'') (\<lambda>_.
     rbind (try_fold check_set ([], []) (sv_sets q)) (\<lambda>_. Inr ()))))"

definition validate_browser :: "save_browser_request \<Rightarrow> string + unit" where
  "validate_browser q =
     rbind (ensure (sb_revision q \<le> MAX_UI_REVISION) ''revision exceeds JavaScript safe integer'') (\<lambda>_.
     rbind (ensure (valid_ui_id (sb_mutation_id q)) ''invalid mutation_id'') (\<lambda>_.
     rbind (ensure (220 \<le> sb_sidebar_width q \<and> sb_sidebar_width q \<le> 520)
              ''sidebar_width must be an integer from 220 through 520'') (\<lambda>_.
     rbind (ensure (length (sb_selected q) \<le> MAX_WORKSPACE_SETS)
              ''at most 100 workspace selections are allowed'') (\<lambda>_.
     rbind (ensure (list_all (\<lambda>(e, w). valid_ui_id e \<and> valid_ui_id w) (sb_selected q))
              ''invalid selection identifier'') (\<lambda>_.
     rbind (ensure (length (sb_run_colors q) \<le> MAX_UI_RUN_COLORS)
              ''at most 1000 run_colors overrides are allowed; no overrides were evicted'') (\<lambda>_.
     ensure (list_all (\<lambda>(r, color). valid_ui_id r \<and> hex_color color) (sb_run_colors q))
       ''run_colors must map bounded Run IDs to six-digit #RRGGBB colors''))))))"

section \<open>What the validators accept\<close>

text \<open>
  A loop that inserts into a set and fails on a duplicate accepts exactly the lists whose elements
  pass on their own and whose keys are distinct.
\<close>

lemma try_fold_distinct:
  assumes "\<And>seen x seen'. step seen x = Inr seen' \<longleftrightarrow> P x \<and> key x \<notin> set seen \<and> seen' = key x # seen"
  shows "try_fold step seen xs = Inr seen' \<longleftrightarrow>
     (\<forall>x \<in> set xs. P x) \<and> distinct (map key xs) \<and> set seen \<inter> key ` set xs = {}
     \<and> seen' = rev (map key xs) @ seen"
proof (induction xs arbitrary: seen)
  case Nil
  then show ?case by auto
next
  case (Cons x xs)
  show ?case by (auto simp: rbind_eq_Inr assms Cons.IH)
qed

lemma filter_options_ok_iff:
  "filter_options_ok values xs \<longleftrightarrow>
     (\<forall>x \<in> set xs. \<not> blank (uo_label x) \<and> ui_text (uo_label x) 120
                \<and> \<not> blank (uo_value x) \<and> ui_text (uo_value x) 4096)
     \<and> distinct (map uo_value xs) \<and> set values \<inter> uo_value ` set xs = {}"
  by (induction xs arbitrary: "values") auto

definition column_ok :: "column_preference \<Rightarrow> bool" where
  "column_ok c \<longleftrightarrow> ui_text (co_id c) 4096
     \<and> (\<forall>w. co_width c = Some w \<longrightarrow> finite_between 70 800 w)
     \<and> (\<forall>d. co_decimals c = Some d \<longrightarrow> d \<le> MAX_COLUMN_DECIMALS)"

lemma check_column_Inr:
  "check_column ids c = Inr ids' \<longleftrightarrow> column_ok c \<and> co_id c \<notin> set ids \<and> ids' = co_id c # ids"
  by (auto simp: check_column_def column_ok_def result_iffs split: option.splits)

definition group_ok :: "ui_filter_group \<Rightarrow> bool" where
  "group_ok g \<longleftrightarrow> valid_ui_id (ug_id g) \<and> \<not> blank (ug_name g)
     \<and> ui_text (ug_name g) 120 \<and> ui_text (ug_path g) 4096
     \<and> ug_options g \<noteq> [] \<and> length (ug_options g) \<le> 32
     \<and> (\<forall>x \<in> set (ug_options g). \<not> blank (uo_label x) \<and> ui_text (uo_label x) 120
                \<and> \<not> blank (uo_value x) \<and> ui_text (uo_value x) 4096)
     \<and> distinct (map uo_value (ug_options g))
     \<and> (\<forall>s. ug_selected g = Some s \<longrightarrow> s \<in> uo_value ` set (ug_options g))"

lemma check_group_Inr:
  "check_group ids g = Inr ids' \<longleftrightarrow> group_ok g \<and> ug_id g \<notin> set ids \<and> ids' = ug_id g # ids"
  by (auto simp: check_group_def group_ok_def filter_options_ok_iff result_iffs list_ex_iff split: option.splits)

definition query_ok :: "table_query_preference \<Rightarrow> bool" where
  "query_ok q \<longleftrightarrow> (\<forall>v. uq_search q = Some v \<longrightarrow> ui_text v 4096)
     \<and> (\<forall>s. uq_sort q = Some s \<longrightarrow> ui_text (up_path s) 4096)
     \<and> (\<forall>fs. uq_filters q = Some fs \<longrightarrow>
          length fs \<le> 32 \<and> (\<forall>f \<in> set fs. ui_text (uf_path f) 4096 \<and> ui_text (uf_value f) 4096))
     \<and> (\<forall>gs. uq_filter_groups q = Some gs \<longrightarrow>
          length gs \<le> 16 \<and> length gs + length (case uq_filters q of None \<Rightarrow> [] | Some fs \<Rightarrow> fs) \<le> 32
          \<and> (\<forall>g \<in> set gs. group_ok g) \<and> distinct (map ug_id gs))"

lemma validate_table_query_ok: "validate_table_query q = Inr () \<longleftrightarrow> query_ok q"
  by (auto simp: validate_table_query_def query_ok_def result_iffs list_all_iff
        try_fold_distinct [where P = group_ok and key = ug_id, OF check_group_Inr] split: option.splits)

definition table_ok ::
  "string option \<Rightarrow> string list option \<Rightarrow> column_preference list option \<Rightarrow> table_query_preference option \<Rightarrow> bool" where
  "table_ok title sources columns query \<longleftrightarrow>
     (\<forall>t. title = Some t \<longrightarrow> ui_text t 120)
     \<and> (\<forall>ids. sources = Some ids \<longrightarrow> length ids \<le> 256 \<and> (\<forall>i \<in> set ids. valid_ui_id i) \<and> distinct ids)
     \<and> (\<forall>cs. columns = Some cs \<longrightarrow>
          length cs \<le> 131 \<and> (\<forall>c \<in> set cs. column_ok c) \<and> distinct (map co_id cs))
     \<and> (\<forall>q. query = Some q \<longrightarrow> query_ok q)"

lemma validate_table_ok: "validate_table title sources columns query = Inr () \<longleftrightarrow> table_ok title sources columns query"
  by (auto simp: validate_table_def table_ok_def result_iffs list_all_iff validate_table_query_ok
        try_fold_distinct [where P = column_ok and key = co_id, OF check_column_Inr] split: option.splits)

definition presentation_ok :: "chart_presentation \<Rightarrow> bool" where
  "presentation_ok d \<longleftrightarrow>
     (\<forall>t. cp_title d = Some t \<longrightarrow> \<not> blank t \<and> ui_text t 120)
     \<and> (\<forall>w. cp_line_width d = Some w \<longrightarrow> finite_between (1 / 2) 6 w)
     \<and> (\<forall>y. cp_y_min d = Some y \<or> cp_y_max d = Some y \<longrightarrow> f64_is_finite y)
     \<and> (\<forall>lo hi. cp_y_min d = Some lo \<longrightarrow> cp_y_max d = Some hi \<longrightarrow> f64_val lo < f64_val hi)"

lemma validate_presentation_ok: "validate_presentation d = Inr () \<longleftrightarrow> presentation_ok d"
  by (auto simp: validate_presentation_def presentation_ok_def result_iffs f64_less_finite split: option.splits)

text \<open>The limits of a collection view, stated on their own.\<close>

definition fields_ok :: "string list \<Rightarrow> nat \<Rightarrow> nat \<Rightarrow> bool" where
  "fields_ok fs lo hi \<longleftrightarrow> lo \<le> length fs \<and> length fs \<le> hi \<and> distinct fs
     \<and> (\<forall>f \<in> set fs. validate_snapshot_field f = Inr ())"

lemma field_paths_ok: "field_paths fs lo hi = Inr () \<longleftrightarrow> fields_ok fs lo hi"
  by (auto simp: field_paths_def fields_ok_def result_iffs split: if_splits)

definition within_limits :: "nat \<Rightarrow> nat \<Rightarrow> nat option \<Rightarrow> bool" where
  "within_limits lo hi v \<longleftrightarrow> (\<forall>n. v = Some n \<longrightarrow> lo \<le> n \<and> n \<le> hi)"

lemma out_of_range_iff: "out_of_range lo hi v \<longleftrightarrow> \<not> within_limits lo hi v"
  by (auto simp: out_of_range_def within_limits_def split: option.splits)

definition bar_ok :: "bar_view \<Rightarrow> bool" where
  "bar_ok v \<longleftrightarrow> validate_snapshot_field (bv_category_path v) = Inr ()
     \<and> (if bv_aggregation v = AggCount then bv_value_paths v = [] else fields_ok (bv_value_paths v) 1 8)
     \<and> 1 \<le> bv_limit v \<and> bv_limit v \<le> 50 \<and> within_limits 0 20 (bv_decimals v)
     \<and> (\<forall>u. bv_unit v = Some u \<longrightarrow> chars_count u \<le> 40 \<and> \<not> contains_nul u)"

lemma validate_bar_ok: "validate_bar v = Inr () \<longleftrightarrow> bar_ok v"
  by (auto simp: validate_bar_def bar_ok_def result_iffs field_paths_ok fields_ok_def within_limits_def
        split: option.splits)

definition grid_ok :: "status_grid \<Rightarrow> bool" where
  "grid_ok v \<longleftrightarrow> fields_ok (sw_id_paths v) 1 4
     \<and> (\<forall>f. f = sw_status_path v \<or> Some f \<in> {sw_label_path v, sw_group_path v, sw_value_path v, sw_shade_path v}
          \<or> (\<exists>s. sw_sort v = Some s \<and> f = ts_path s) \<longrightarrow> validate_snapshot_field f = Inr ())
     \<and> within_limits 1 64 (sw_columns v) \<and> within_limits 12 40 (sw_cell_size v) \<and> within_limits 2 12 (sw_gap v)
     \<and> (\<forall>m. sw_colors v = Some m \<longrightarrow> length m \<le> 128
          \<and> (\<forall>(state, color) \<in> set m. length state \<le> 256 \<and> \<not> contains_nul state \<and> hex_color color))"

lemma bad_colors_iff:
  "bad_colors m \<longleftrightarrow> \<not> (length m \<le> 128
     \<and> (\<forall>(state, color) \<in> set m. length state \<le> 256 \<and> \<not> contains_nul state \<and> hex_color color))"
  by (fastforce simp: bad_colors_def list_ex_iff not_le)

lemma set_map_filter_id: "set (List.map_filter (\<lambda>p. p) xs) = {x. Some x \<in> set xs}"
  by (induction xs) (auto simp: List.map_filter_simps split: option.splits)

lemma rbind_unit_eq_Inr: "rbind (m :: 'e + unit) f = Inr y \<longleftrightarrow> m = Inr () \<and> f () = Inr y"
  by (cases m) auto

lemma validate_grid_ok: "validate_status_grid v = Inr () \<longleftrightarrow> grid_ok v"
proof -
  let ?opt = "[sw_label_path v, sw_group_path v, sw_value_path v, sw_shade_path v]"
  have opts: "for_each validate_snapshot_field (List.map_filter (\<lambda>p. p) ?opt) = Inr ()
      \<longleftrightarrow> (\<forall>f. Some f \<in> set ?opt \<longrightarrow> validate_snapshot_field f = Inr ())"
    unfolding for_each_eq_Inr set_map_filter_id by blast
  have srt: "(case sw_sort v of None \<Rightarrow> Inr () | Some s \<Rightarrow> validate_snapshot_field (ts_path s)) = Inr ()
      \<longleftrightarrow> (\<forall>s. sw_sort v = Some s \<longrightarrow> validate_snapshot_field (ts_path s) = Inr ())"
    by (cases "sw_sort v") auto
  have col: "(case sw_colors v of None \<Rightarrow> False | Some m \<Rightarrow> bad_colors m)
      \<longleftrightarrow> \<not> (\<forall>m. sw_colors v = Some m \<longrightarrow> \<not> bad_colors m)"
    by (cases "sw_colors v") auto
  have "validate_status_grid v = Inr () \<longleftrightarrow> fields_ok (sw_id_paths v) 1 4
      \<and> validate_snapshot_field (sw_status_path v) = Inr ()
      \<and> (\<forall>f. Some f \<in> set ?opt \<longrightarrow> validate_snapshot_field f = Inr ())
      \<and> (\<forall>s. sw_sort v = Some s \<longrightarrow> validate_snapshot_field (ts_path s) = Inr ())
      \<and> (within_limits 1 64 (sw_columns v) \<and> within_limits 12 40 (sw_cell_size v) \<and> within_limits 2 12 (sw_gap v))
      \<and> (\<forall>m. sw_colors v = Some m \<longrightarrow> \<not> bad_colors m)"
    unfolding validate_status_grid_def rbind_unit_eq_Inr opts [symmetric] srt [symmetric] col ensure_eq_Inr
      field_paths_ok [symmetric] out_of_range_iff by blast
  then show ?thesis unfolding grid_ok_def bad_colors_iff by (simp only: list.set) blast
qed

fun view_ok :: "snapshot_view \<Rightarrow> bool" where
  "view_ok (Bar v) = bar_ok v"
| "view_ok (StatusGrid v) = grid_ok v"

lemma validate_view_ok: "validate_view v = Inr () \<longleftrightarrow> view_ok v"
  by (cases v) (simp_all add: validate_bar_ok validate_grid_ok)

fun panel_ok :: "panel_spec \<Rightarrow> bool" where
  "panel_ok (Chart _ _ _ metric metrics presentation) \<longleftrightarrow>
     ui_path metric False \<and> (\<forall>ms. metrics = Some ms \<longrightarrow> ui_paths ms \<and> metric \<in> set ms)
     \<and> (\<forall>d. presentation = Some d \<longrightarrow> presentation_ok d)"
| "panel_ok (MetricTable _ _ _ metrics title source_ids columns query) \<longleftrightarrow>
     ui_paths metrics \<and> table_ok title source_ids columns query"
| "panel_ok (SnapshotTable _ _ _ collection title source_ids columns query view) \<longleftrightarrow>
     ui_path collection True \<and> table_ok title source_ids columns query
     \<and> (\<forall>v. view = Some v \<longrightarrow> view_ok v)"

lemma validate_panel_ok: "validate_panel p = Inr () \<longleftrightarrow> panel_ok p"
  by (cases p) (auto simp: result_iffs validate_presentation_ok validate_table_ok validate_view_ok
                  split: option.splits)

text \<open>A workspace as it may be stored; no two workspaces of a document share an identifier or, within
  an experiment, a name.\<close>

definition set_ok :: "workspace_set \<Rightarrow> bool" where
  "set_ok w \<longleftrightarrow> valid_ui_id (wk_id w) \<and> valid_ui_id (wk_experiment_id w)
     \<and> wk_name w \<noteq> [] \<and> str_trim (wk_name w) = wk_name w \<and> ui_text (wk_name w) 80
     \<and> 1 \<le> length (wk_sections w) \<and> length (wk_sections w) \<le> 24 \<and> length (wk_panels w) \<le> 24
     \<and> (\<forall>s \<in> set (wk_sections w). valid_ui_id (sp_id s) \<and> ui_text (sp_name s) 100)
     \<and> distinct (map sp_id (wk_sections w))
     \<and> (\<forall>p \<in> set (wk_panels w). valid_ui_id (panel_id p) \<and> panel_section p \<in> sp_id ` set (wk_sections w)
                                  \<and> panel_ok p)
     \<and> distinct (map panel_id (wk_panels w))"

definition layout_ok :: "workspace_set list \<Rightarrow> bool" where
  "layout_ok ws \<longleftrightarrow> length ws \<le> MAX_WORKSPACE_SETS \<and> (\<forall>w \<in> set ws. set_ok w)
     \<and> distinct (map wk_id ws) \<and> distinct (map (\<lambda>w. (wk_experiment_id w, wk_name w)) ws)"

lemma check_section_Inr:
  "check_section ids s = Inr ids' \<longleftrightarrow>
     (valid_ui_id (sp_id s) \<and> ui_text (sp_name s) 100) \<and> sp_id s \<notin> set ids \<and> ids' = sp_id s # ids"
  by (auto simp: check_section_def result_iffs)

lemma check_panel_Inr:
  "check_panel sections ids p = Inr ids' \<longleftrightarrow>
     (valid_ui_id (panel_id p) \<and> panel_section p \<in> set sections \<and> panel_ok p)
     \<and> panel_id p \<notin> set ids \<and> ids' = panel_id p # ids"
  by (auto simp: check_panel_def panel_identity_def result_iffs validate_panel_ok)

lemma check_set_Inr:
  "check_set (ids, names) w = Inr seen \<longleftrightarrow>
     set_ok w \<and> wk_id w \<notin> set ids \<and> (wk_experiment_id w, wk_name w) \<notin> set names
     \<and> seen = (wk_id w # ids, (wk_experiment_id w, wk_name w) # names)"
  unfolding check_set_def set_ok_def
  by (simp add: result_iffs try_fold_distinct [OF check_section_Inr] try_fold_distinct [OF check_panel_Inr]) blast

lemma check_sets_Inr:
  "(\<exists>seen. try_fold check_set (ids, names) ws = Inr seen) \<longleftrightarrow>
     (\<forall>w \<in> set ws. set_ok w) \<and> distinct (map wk_id ws) \<and> set ids \<inter> wk_id ` set ws = {}
     \<and> distinct (map (\<lambda>w. (wk_experiment_id w, wk_name w)) ws)
     \<and> set names \<inter> (\<lambda>w. (wk_experiment_id w, wk_name w)) ` set ws = {}"
proof (induction ws arbitrary: ids names)
  case (Cons w ws)
  show ?case by (auto simp: rbind_eq_Inr check_set_Inr Cons.IH simp del: split_paired_Ex)
qed simp

lemma validate_workspaces_ok:
  "validate_workspaces q = Inr () \<longleftrightarrow>
     sv_revision q \<le> MAX_UI_REVISION \<and> valid_ui_id (sv_mutation_id q) \<and> layout_ok (sv_sets q)"
  by (simp add: validate_workspaces_def layout_ok_def result_iffs check_sets_Inr del: split_paired_Ex)

definition preferences_ok :: "nat \<Rightarrow> (string, string) bmap \<Rightarrow> (string, string) bmap \<Rightarrow> bool" where
  "preferences_ok width selected colors \<longleftrightarrow>
     220 \<le> width \<and> width \<le> 520 \<and> length selected \<le> MAX_WORKSPACE_SETS
     \<and> (\<forall>(e, w) \<in> set selected. valid_ui_id e \<and> valid_ui_id w)
     \<and> length colors \<le> MAX_UI_RUN_COLORS \<and> (\<forall>(r, c) \<in> set colors. valid_ui_id r \<and> hex_color c)"

lemma validate_browser_ok:
  "validate_browser q = Inr () \<longleftrightarrow>
     sb_revision q \<le> MAX_UI_REVISION \<and> valid_ui_id (sb_mutation_id q)
     \<and> preferences_ok (sb_sidebar_width q) (sb_selected q) (sb_run_colors q)"
  by (simp add: validate_browser_def preferences_ok_def result_iffs list_all_iff)

end
