(* ===== verification/Ui_Store.thy ===== *)
theory Ui_Store
  imports Ui_Documents Repo_Props
begin

text \<open>
  The stored documents of the user interface (\<open>rust/rvx-engine/src/repository/ui.rs\<close> and
  \<open>ui_state.rs\<close>): one row for the shared workspaces, one row per browser, in the database of the
  metadata repository (\<open>repo\<close>, which the operations only read). A row is the text of a document
  with the identifier and the text of the latest mutation. An operation is one transaction: an error
  leaves no new tables. The serializer is the parameter \<open>ui_serde\<close>; \<open>new_id\<close> is the argument \<open>nid\<close>.
\<close>

abbreviation (input) MAX_BROWSERS :: nat where "MAX_BROWSERS \<equiv> 10000"

definition BOOTSTRAP :: string where
  "BOOTSTRAP = ''missing, invalid, or unknown rvx_browser cookie; GET /api/ui/state to bootstrap before retrying''"

type_synonym stored = "string \<times> string option \<times> string option"

record ui_tables =
  ut_workspaces :: stored
  ut_browsers :: "(string \<times> stored) list"

record ui_serde =
  print_workspaces :: "workspace_document \<Rightarrow> string + string"
  parse_workspaces :: "string \<Rightarrow> string + workspace_document"
  workspaces_value :: "workspace_document \<Rightarrow> string + json"
  print_browser :: "browser_preferences \<Rightarrow> string + string"
  parse_browser :: "string \<Rightarrow> string + browser_preferences"
  browser_value :: "browser_preferences \<Rightarrow> string + json"
  workspaces_payload :: "save_workspaces_request \<Rightarrow> string + string"
  browser_payload :: "save_browser_request \<Rightarrow> string + string"

record ui_session =
  ss_browser_id :: string
  ss_initialized :: bool
  ss_state :: ui_state

definition EMPTY_WORKSPACES :: string where
  "EMPTY_WORKSPACES = ''{\"revision\":0,\"sets\":[]}''"

definition ui_initialize :: ui_tables where
  "ui_initialize = \<lparr>ut_workspaces = (EMPTY_WORKSPACES, None, None), ut_browsers = []\<rparr>"

subsection \<open>Rows\<close>

definition valid_browser_id :: "string \<Rightarrow> bool" where
  "valid_browser_id value \<longleftrightarrow>
     (case strip_prefix ''browser_'' value of
        None \<Rightarrow> False
      | Some suffix \<Rightarrow> length suffix = 32
          \<and> list_all (\<lambda>b. is_ascii_hexdigit b \<and> \<not> is_ascii_upper b) suffix)"

definition browser_row :: "ui_tables \<Rightarrow> string \<Rightarrow> stored option" where
  "browser_row t key = map_of (ut_browsers t) key"

definition require_browser :: "ui_tables \<Rightarrow> string \<Rightarrow> engine_error + stored" where
  "require_browser t key =
     (if \<not> valid_browser_id key then Inl (UiBootstrap BOOTSTRAP)
      else ok_or (UiBootstrap BOOTSTRAP) (browser_row t key))"

definition put_browser :: "string \<Rightarrow> stored \<Rightarrow> (string \<times> stored) list \<Rightarrow> (string \<times> stored) list" where
  "put_browser key row rows = map (\<lambda>(k, r). if k = key then (k, row) else (k, r)) rows"

definition bounded_payload :: "string + string \<Rightarrow> engine_error + string" where
  "bounded_payload printed =
     rbind (map_err Json printed) (\<lambda>payload.
       if MAX_UI_REQUEST_BYTES < length payload then Inl (EngineInvalid ''UI request exceeds 2 MiB'')
       else Inr payload)"

definition conflict :: "string + json \<Rightarrow> string \<Rightarrow> engine_error" where
  "conflict current error = (case current of Inl m \<Rightarrow> Json m | Inr v \<Rightarrow> UiConflict error v)"

definition retry :: "stored \<Rightarrow> string \<Rightarrow> string \<Rightarrow> string + json \<Rightarrow> engine_error + bool" where
  "retry row key payload current =
     (if fst (snd row) \<noteq> Some key then Inr False
      else if snd (snd row) \<noteq> Some payload
      then Inl (conflict current ''mutation_id was already used with a different payload'')
      else Inr True)"

definition revision_matches :: "nat \<Rightarrow> nat \<Rightarrow> string + json \<Rightarrow> engine_error + unit" where
  "revision_matches requested revision current =
     ensure (requested = revision)
       (conflict current ''stale revision; preserve your draft and reconcile with current'')"

definition next_revision :: "nat \<Rightarrow> engine_error + nat" where
  "next_revision revision =
     ok_or (EngineInvalid ''UI revision limit reached'')
       (Option.bind (checked_add_u64 revision 1) (\<lambda>n. if n \<le> MAX_UI_REVISION then Some n else None))"

subsection \<open>Equality of documents\<close>

text \<open>
  The derived \<open>PartialEq\<close> compares floats by \<open>==\<close>, so the negative zero equals zero and NaN equals
  nothing; everything else is compared exactly.
\<close>

definition opt_eq :: "('a \<Rightarrow> 'a \<Rightarrow> bool) \<Rightarrow> 'a option \<Rightarrow> 'a option \<Rightarrow> bool" where
  "opt_eq eq a b = (case (a, b) of (None, None) \<Rightarrow> True | (Some x, Some y) \<Rightarrow> eq x y | _ \<Rightarrow> False)"

definition presentation_eq :: "chart_presentation \<Rightarrow> chart_presentation \<Rightarrow> bool" where
  "presentation_eq a b \<longleftrightarrow> cp_title a = cp_title b \<and> cp_style a = cp_style b
     \<and> opt_eq f64_eq (cp_line_width a) (cp_line_width b) \<and> cp_points a = cp_points b
     \<and> cp_legend a = cp_legend b \<and> opt_eq f64_eq (cp_y_min a) (cp_y_min b)
     \<and> opt_eq f64_eq (cp_y_max a) (cp_y_max b)"

definition column_eq :: "column_preference \<Rightarrow> column_preference \<Rightarrow> bool" where
  "column_eq a b \<longleftrightarrow> co_id a = co_id b \<and> co_hidden a = co_hidden b
     \<and> opt_eq f64_eq (co_width a) (co_width b) \<and> co_decimals a = co_decimals b"

fun panel_eq :: "panel_spec \<Rightarrow> panel_spec \<Rightarrow> bool" where
  "panel_eq (Chart i s z p ps d) (Chart i' s' z' p' ps' d') \<longleftrightarrow>
     i = i' \<and> s = s' \<and> z = z' \<and> p = p' \<and> ps = ps' \<and> opt_eq presentation_eq d d'"
| "panel_eq (MetricTable i s z ps t src cs q) (MetricTable i' s' z' ps' t' src' cs' q') \<longleftrightarrow>
     i = i' \<and> s = s' \<and> z = z' \<and> ps = ps' \<and> t = t' \<and> src = src'
     \<and> opt_eq (list_all2 column_eq) cs cs' \<and> q = q'"
| "panel_eq (SnapshotTable i s z p t src cs q v) (SnapshotTable i' s' z' p' t' src' cs' q' v') \<longleftrightarrow>
     i = i' \<and> s = s' \<and> z = z' \<and> p = p' \<and> t = t' \<and> src = src'
     \<and> opt_eq (list_all2 column_eq) cs cs' \<and> q = q' \<and> v = v'"
| "panel_eq _ _ \<longleftrightarrow> False"

definition set_eq :: "workspace_set \<Rightarrow> workspace_set \<Rightarrow> bool" where
  "set_eq a b \<longleftrightarrow> wk_id a = wk_id b \<and> wk_name a = wk_name b \<and> wk_experiment_id a = wk_experiment_id b
     \<and> list_all2 panel_eq (wk_panels a) (wk_panels b) \<and> wk_sections a = wk_sections b"

definition sets_eq :: "workspace_set list \<Rightarrow> workspace_set list \<Rightarrow> bool" where
  "sets_eq = list_all2 set_eq"

subsection \<open>References\<close>

definition check_source_id :: "repo \<Rightarrow> string list \<Rightarrow> string \<Rightarrow> engine_error + string list" where
  "check_source_id db seen key =
     (if key \<in> set seen then Inr seen
      else if \<not> list_ex (\<lambda>s. sr_id s = key) (rp_sources db)
      then Inl (EngineInvalid ''panel references an unknown Source ID'')
      else Inr (key # seen))"

definition check_relations :: "repo \<Rightarrow> string list \<Rightarrow> workspace_set \<Rightarrow> engine_error + string list" where
  "check_relations db seen w =
     (if \<not> list_ex (\<lambda>e. ex_id e = wk_experiment_id w) (rp_experiments db)
      then Inl (EngineInvalid ''workspace references an unknown experiment'')
      else try_fold (check_source_id db) seen (concat (map panel_source_ids (wk_panels w))))"

definition validate_workspace_relations :: "repo \<Rightarrow> save_workspaces_request \<Rightarrow> engine_error + unit" where
  "validate_workspace_relations db input =
     rbind (try_fold (check_relations db) [] (sv_sets input)) (\<lambda>_. Inr ())"

definition validate_run_colors :: "repo \<Rightarrow> save_browser_request \<Rightarrow> engine_error + unit" where
  "validate_run_colors db input =
     for_each (\<lambda>r. ensure (list_ex (\<lambda>row. rr_id row = r) (rp_runs db))
                     (EngineInvalid ''run_colors must reference registered Run IDs''))
       (bm_keys (sb_run_colors input))"

text \<open>A \<open>HashMap\<close> collected from pairs: the last one for a key wins.\<close>

definition set_experiments :: "workspace_document \<Rightarrow> string \<rightharpoonup> string" where
  "set_experiments d = map_of (rev (map (\<lambda>w. (wk_id w, wk_experiment_id w)) (wd_sets d)))"

definition selects :: "(string \<rightharpoonup> string) \<Rightarrow> string \<times> string \<Rightarrow> bool" where
  "selects sets = (\<lambda>(e, w). sets w = Some e)"

definition prune_browser ::
  "ui_serde \<Rightarrow> (string \<rightharpoonup> string) \<Rightarrow> string \<times> stored \<Rightarrow> engine_error + (string \<times> stored)" where
  "prune_browser U sets = (\<lambda>(key, row).
     rbind (map_err Json (parse_browser U (fst row))) (\<lambda>b.
       let kept = filter (selects sets) (bp_selected b)
       in if length kept \<noteq> length (bp_selected b)
          then rbind (next_revision (bp_revision b)) (\<lambda>revision.
               rbind (map_err Json (print_browser U (b\<lparr>bp_selected := kept, bp_revision := revision\<rparr>))) (\<lambda>text.
               Inr (key, (text, None, None))))
          else Inr (key, row)))"

definition prune_selections ::
  "ui_serde \<Rightarrow> workspace_document \<Rightarrow> (string \<times> stored) list \<Rightarrow> engine_error + (string \<times> stored) list" where
  "prune_selections U d rows = try_map (prune_browser U (set_experiments d)) rows"

subsection \<open>Operations\<close>

definition requested_browser :: "string option \<Rightarrow> string option" where
  "requested_browser requested =
     (case requested of None \<Rightarrow> None | Some key \<Rightarrow> if valid_browser_id key then Some key else None)"

definition ui_theme :: "ui_serde \<Rightarrow> ui_tables \<Rightarrow> string option \<Rightarrow> engine_error + theme" where
  "ui_theme U t requested =
     (case requested_browser requested of
        None \<Rightarrow> Inr (bp_theme default_browser)
      | Some key \<Rightarrow>
          (case browser_row t key of
             Some row \<Rightarrow> rbind (map_err Json (parse_browser U (fst row))) (\<lambda>b. Inr (bp_theme b))
           | None \<Rightarrow> Inr (bp_theme default_browser)))"

text \<open>Registration of a browser: the count, the printed default, then the insertion.\<close>

definition register_browser :: "ui_serde \<Rightarrow> string \<Rightarrow> ui_tables \<Rightarrow> engine_error + ui_tables" where
  "register_browser U nid t =
     (if MAX_BROWSERS \<le> length (ut_browsers t)
      then Inl (EngineInvalid ''browser registry limit of 10000 reached; no preferences were evicted'')
      else rbind (map_err Json (print_browser U default_browser)) (\<lambda>text.
           rbind (ensure (browser_row t nid = None)
                    (Sqlite ''UNIQUE constraint failed: ui_browsers.browser_id'')) (\<lambda>_.
           Inr (t\<lparr>ut_browsers := ut_browsers t @ [(nid, (text, None, None))]\<rparr>))))"

definition load_ui_state ::
  "ui_serde \<Rightarrow> string \<Rightarrow> ui_tables \<Rightarrow> string option \<Rightarrow> engine_error + (ui_session \<times> ui_tables)" where
  "load_ui_state U nid t requested =
     (let workspaces = fst (ut_workspaces t);
          existing = (case requested_browser requested of
                        None \<Rightarrow> None
                      | Some key \<Rightarrow> map_option (\<lambda>row. (key, fst row)) (browser_row t key))
      in rbind (case existing of
                  Some (key, document) \<Rightarrow>
                    rbind (map_err Json (parse_browser U document)) (\<lambda>b. Inr (key, b, t))
                | None \<Rightarrow> rbind (register_browser U nid t) (\<lambda>t'. Inr (nid, default_browser, t')))
           (\<lambda>(browser_id, browser, t').
         rbind (map_err Json (parse_workspaces U workspaces)) (\<lambda>d.
         Inr (\<lparr>ss_browser_id = browser_id, ss_initialized = (existing = None),
               ss_state = \<lparr>us_workspaces = d, us_browser = browser\<rparr>\<rparr>, t'))))"

definition save_workspaces ::
  "ui_serde \<Rightarrow> repo \<Rightarrow> ui_tables \<Rightarrow> string \<Rightarrow> save_workspaces_request
   \<Rightarrow> engine_error + (workspace_document \<times> ui_tables)" where
  "save_workspaces U db t browser_id input =
     rbind (require_browser t browser_id) (\<lambda>_.
     rbind (map_err EngineInvalid (validate_workspaces input)) (\<lambda>_.
     rbind (bounded_payload (workspaces_payload U input)) (\<lambda>payload.
     let row = ut_workspaces t in
     rbind (map_err Json (parse_workspaces U (fst row))) (\<lambda>current.
     rbind (retry row (sv_mutation_id input) payload (workspaces_value U current)) (\<lambda>again.
     if again then Inr (current, t)
     else
     rbind (revision_matches (sv_revision input) (wd_revision current) (workspaces_value U current)) (\<lambda>_.
     rbind (validate_workspace_relations db input) (\<lambda>_.
     let changed = (\<not> sets_eq (wd_sets current) (sv_sets input)) in
     rbind (if changed then next_revision (wd_revision current) else Inr (wd_revision current)) (\<lambda>revision.
     let document = \<lparr>wd_revision = revision, wd_sets = sv_sets input\<rparr> in
     rbind (if changed then prune_selections U document (ut_browsers t) else Inr (ut_browsers t)) (\<lambda>browsers.
     rbind (map_err Json (print_workspaces U document)) (\<lambda>text.
     Inr (document, \<lparr>ut_workspaces = (text, Some (sv_mutation_id input), Some payload),
                     ut_browsers = browsers\<rparr>)))))))))))"

definition save_browser_preferences ::
  "ui_serde \<Rightarrow> repo \<Rightarrow> ui_tables \<Rightarrow> string \<Rightarrow> save_browser_request
   \<Rightarrow> engine_error + (browser_preferences \<times> ui_tables)" where
  "save_browser_preferences U db t browser_id input =
     rbind (require_browser t browser_id) (\<lambda>row.
     rbind (map_err EngineInvalid (validate_browser input)) (\<lambda>_.
     rbind (bounded_payload (browser_payload U input)) (\<lambda>payload.
     rbind (map_err Json (parse_browser U (fst row))) (\<lambda>current.
     rbind (retry row (sb_mutation_id input) payload (browser_value U current)) (\<lambda>again.
     if again then Inr (current, t)
     else
     rbind (revision_matches (sb_revision input) (bp_revision current) (browser_value U current)) (\<lambda>_.
     rbind (map_err Json (parse_workspaces U (fst (ut_workspaces t)))) (\<lambda>workspaces.
     rbind (ensure (list_all (selects (set_experiments workspaces)) (sb_selected input))
              (EngineInvalid ''selected must reference an existing workspace in the specified experiment'')) (\<lambda>_.
     rbind (validate_run_colors db input) (\<lambda>_.
     let changed = (bp_theme current \<noteq> sb_theme input \<or> bp_sidebar_width current \<noteq> sb_sidebar_width input
                    \<or> bp_selected current \<noteq> sb_selected input \<or> bp_run_colors current \<noteq> sb_run_colors input) in
     rbind (if changed then next_revision (bp_revision current) else Inr (bp_revision current)) (\<lambda>revision.
     let document = \<lparr>bp_revision = revision, bp_theme = sb_theme input,
                     bp_sidebar_width = sb_sidebar_width input, bp_selected = sb_selected input,
                     bp_run_colors = sb_run_colors input\<rparr> in
     rbind (map_err Json (print_browser U document)) (\<lambda>text.
     Inr (document, t\<lparr>ut_browsers := put_browser browser_id
                        (text, Some (sb_mutation_id input), Some payload) (ut_browsers t)\<rparr>))))))))))))"

end
