(* ===== verification/Ui_Inv.thy ===== *)
theory Ui_Inv
  imports Ui_Store
begin

text \<open>
  The laws of the interface documents. \<open>serde_ok\<close> states what the store relies on of \<open>serde_json\<close>:
  a printed document parses to the same document, where a workspace document may differ in the last
  digit of a float, since the crate is built without \<open>float_roundtrip\<close>; \<open>same_layout\<close> is equality
  up to the floats. The invariant \<open>ui_inv\<close> ties the documents to each other and to the rows of the
  metadata repository. A document behind compare-and-swap is the locale \<open>revisioned\<close>, interpreted for
  the workspaces and for every browser.
\<close>

section \<open>Documents up to floats\<close>

definition erase_presentation :: "chart_presentation \<Rightarrow> chart_presentation" where
  "erase_presentation d = d\<lparr>cp_line_width := map_option (\<lambda>_. f64_zero) (cp_line_width d),
     cp_y_min := map_option (\<lambda>_. f64_zero) (cp_y_min d), cp_y_max := map_option (\<lambda>_. f64_zero) (cp_y_max d)\<rparr>"

definition erase_column :: "column_preference \<Rightarrow> column_preference" where
  "erase_column c = c\<lparr>co_width := map_option (\<lambda>_. f64_zero) (co_width c)\<rparr>"

fun erase_panel :: "panel_spec \<Rightarrow> panel_spec" where
  "erase_panel (Chart i s z p ps d) = Chart i s z p ps (map_option erase_presentation d)"
| "erase_panel (MetricTable i s z ps t src cs q) = MetricTable i s z ps t src (map_option (map erase_column) cs) q"
| "erase_panel (SnapshotTable i s z p t src cs q v) =
     SnapshotTable i s z p t src (map_option (map erase_column) cs) q v"

definition erase_set :: "workspace_set \<Rightarrow> workspace_set" where
  "erase_set w = w\<lparr>wk_panels := map erase_panel (wk_panels w)\<rparr>"

definition same_layout :: "workspace_set list \<Rightarrow> workspace_set list \<Rightarrow> bool" where
  "same_layout ws ws' \<longleftrightarrow> map erase_set ws = map erase_set ws'"

text \<open>What other rows depend on: who owns a workspace, and what it refers to.\<close>

definition owners :: "workspace_set list \<Rightarrow> (string \<times> string) list" where
  "owners ws = map (\<lambda>w. (wk_id w, wk_experiment_id w)) ws"

definition references :: "workspace_set list \<Rightarrow> (string \<times> string list) list" where
  "references ws = map (\<lambda>w. (wk_experiment_id w, concat (map panel_source_ids (wk_panels w)))) ws"

lemma same_layout_refl [simp]: "same_layout ws ws"
  by (simp add: same_layout_def)

lemma same_layout_sym: "same_layout ws ws' \<Longrightarrow> same_layout ws' ws"
  by (simp add: same_layout_def)

lemma same_layout_trans: "same_layout ws ws' \<Longrightarrow> same_layout ws' ws'' \<Longrightarrow> same_layout ws ws''"
  by (simp add: same_layout_def)

lemma source_ids_erase [simp]: "panel_source_ids (erase_panel p) = panel_source_ids p"
  by (cases p) simp_all

lemma erase_set_simps [simp]:
  "wk_id (erase_set w) = wk_id w" "wk_experiment_id (erase_set w) = wk_experiment_id w"
  "wk_panels (erase_set w) = map erase_panel (wk_panels w)"
  by (simp_all add: erase_set_def)

lemma owners_erase: "owners (map erase_set ws) = owners ws"
  by (simp add: owners_def)

lemma references_erase: "references (map erase_set ws) = references ws"
  by (simp add: references_def comp_def)

lemma same_layout_owners: "same_layout ws ws' \<Longrightarrow> owners ws = owners ws'"
  by (metis same_layout_def owners_erase)

lemma same_layout_references: "same_layout ws ws' \<Longrightarrow> references ws = references ws'"
  by (metis same_layout_def references_erase)

lemma opt_eq_map:
  "opt_eq eq a b \<Longrightarrow> (\<And>x y. eq x y \<Longrightarrow> f x = f y) \<Longrightarrow> map_option f a = map_option f b"
  by (cases a; cases b) (simp_all add: opt_eq_def)

lemma list_all2_map_eq: "list_all2 eq xs ys \<Longrightarrow> (\<And>x y. eq x y \<Longrightarrow> f x = f y) \<Longrightarrow> map f xs = map f ys"
  by (induction rule: list_all2_induct) simp_all

lemma presentation_eq_erase: "presentation_eq a b \<Longrightarrow> erase_presentation a = erase_presentation b"
  by (cases a; cases b)
    (auto simp: presentation_eq_def erase_presentation_def intro: opt_eq_map [where eq = f64_eq])

lemma column_eq_erase: "column_eq a b \<Longrightarrow> erase_column a = erase_column b"
  by (cases a; cases b) (auto simp: column_eq_def erase_column_def intro: opt_eq_map [where eq = f64_eq])

lemma columns_eq_erase: "list_all2 column_eq cs ds \<Longrightarrow> map erase_column cs = map erase_column ds"
  by (erule list_all2_map_eq) (rule column_eq_erase)

lemma panel_eq_erase: "panel_eq a b \<Longrightarrow> erase_panel a = erase_panel b"
  by (induction a b rule: panel_eq.induct)
    (auto intro: opt_eq_map [OF _ presentation_eq_erase] opt_eq_map [OF _ columns_eq_erase])

lemma set_eq_erase: "set_eq a b \<Longrightarrow> erase_set a = erase_set b"
  by (cases a; cases b) (auto simp: set_eq_def erase_set_def intro: list_all2_map_eq panel_eq_erase)

lemma sets_eq_same: "sets_eq ws ws' \<Longrightarrow> same_layout ws ws'"
  unfolding sets_eq_def same_layout_def by (erule list_all2_map_eq) (rule set_eq_erase)

section \<open>The serializer\<close>

text \<open>A \<open>BTreeMap\<close> is sorted; these are the maps inside a request.\<close>

fun panel_wf :: "panel_spec \<Rightarrow> bool" where
  "panel_wf (SnapshotTable _ _ _ _ _ _ _ _ (Some (StatusGrid v))) \<longleftrightarrow>
     (case sw_colors v of None \<Rightarrow> True | Some m \<Rightarrow> bm_sorted m)"
| "panel_wf _ \<longleftrightarrow> True"

definition layout_wf :: "workspace_set list \<Rightarrow> bool" where
  "layout_wf ws \<longleftrightarrow> (\<forall>w \<in> set ws. \<forall>p \<in> set (wk_panels w). panel_wf p)"

definition document_ok :: "workspace_document \<Rightarrow> bool" where
  "document_ok d \<longleftrightarrow> wd_revision d \<le> MAX_UI_REVISION
     \<and> (\<exists>ws. layout_ok ws \<and> layout_wf ws \<and> same_layout (wd_sets d) ws)"

definition browser_ok :: "browser_preferences \<Rightarrow> bool" where
  "browser_ok b \<longleftrightarrow> bp_revision b \<le> MAX_UI_REVISION
     \<and> preferences_ok (bp_sidebar_width b) (bp_selected b) (bp_run_colors b)
     \<and> bm_sorted (bp_selected b) \<and> bm_sorted (bp_run_colors b)"

definition serde_ok :: "ui_serde \<Rightarrow> bool" where
  "serde_ok U \<longleftrightarrow>
     (\<forall>d text. wd_revision d \<le> MAX_UI_REVISION \<and> layout_ok (wd_sets d) \<and> layout_wf (wd_sets d)
        \<and> print_workspaces U d = Inr text \<longrightarrow>
        (\<exists>d'. parse_workspaces U text = Inr d' \<and> wd_revision d' = wd_revision d
             \<and> same_layout (wd_sets d') (wd_sets d)))
     \<and> (\<forall>b text. browser_ok b \<and> print_browser U b = Inr text \<longrightarrow> parse_browser U text = Inr b)
     \<and> parse_workspaces U EMPTY_WORKSPACES = Inr \<lparr>wd_revision = 0, wd_sets = []\<rparr>"

lemma serde_workspaces:
  assumes "serde_ok U" and "wd_revision d \<le> MAX_UI_REVISION" and "layout_ok (wd_sets d)"
    and "layout_wf (wd_sets d)" and "print_workspaces U d = Inr text"
  obtains d' where "parse_workspaces U text = Inr d'" and "wd_revision d' = wd_revision d"
    and "same_layout (wd_sets d') (wd_sets d)"
  using assms unfolding serde_ok_def by blast

lemma serde_browser:
  "serde_ok U \<Longrightarrow> browser_ok b \<Longrightarrow> print_browser U b = Inr text \<Longrightarrow> parse_browser U text = Inr b"
  unfolding serde_ok_def by blast

section \<open>The invariant\<close>

definition layout_refs :: "repo \<Rightarrow> workspace_set list \<Rightarrow> bool" where
  "layout_refs db ws \<longleftrightarrow> (\<forall>(e, sources) \<in> set (references ws).
     e \<in> ex_id ` set (rp_experiments db) \<and> set sources \<subseteq> sr_id ` set (rp_sources db))"

definition browser_refs :: "repo \<Rightarrow> workspace_set list \<Rightarrow> browser_preferences \<Rightarrow> bool" where
  "browser_refs db ws b \<longleftrightarrow> (\<forall>(e, w) \<in> set (bp_selected b). (w, e) \<in> set (owners ws))
     \<and> fst ` set (bp_run_colors b) \<subseteq> rr_id ` set (rp_runs db)"

definition browser_stored :: "ui_serde \<Rightarrow> repo \<Rightarrow> workspace_set list \<Rightarrow> stored \<Rightarrow> bool" where
  "browser_stored U db ws row \<longleftrightarrow>
     (\<exists>b. parse_browser U (fst row) = Inr b \<and> browser_ok b \<and> browser_refs db ws b)"

definition ui_inv :: "ui_serde \<Rightarrow> repo \<Rightarrow> ui_tables \<Rightarrow> bool" where
  "ui_inv U db t \<longleftrightarrow>
     (\<exists>d. parse_workspaces U (fst (ut_workspaces t)) = Inr d \<and> document_ok d \<and> layout_refs db (wd_sets d)
        \<and> (\<forall>row \<in> snd ` set (ut_browsers t). browser_stored U db (wd_sets d) row))
     \<and> distinct (map fst (ut_browsers t)) \<and> length (ut_browsers t) \<le> MAX_BROWSERS"

lemma ui_invE:
  assumes "ui_inv U db t"
  obtains d where "parse_workspaces U (fst (ut_workspaces t)) = Inr d" and "document_ok d"
    and "layout_refs db (wd_sets d)"
    and "\<forall>row \<in> snd ` set (ut_browsers t). browser_stored U db (wd_sets d) row"
    and "distinct (map fst (ut_browsers t))" and "length (ut_browsers t) \<le> MAX_BROWSERS"
  using assms unfolding ui_inv_def by blast

lemma ui_inv_initial: "serde_ok U \<Longrightarrow> ui_inv U db ui_initialize"
  by (auto simp: ui_inv_def ui_initialize_def serde_ok_def document_ok_def layout_ok_def layout_wf_def
        layout_refs_def references_def)
    (rule exI [of _ "[]"], simp)

lemma browser_row_mem: "browser_row t key = Some row \<Longrightarrow> row \<in> snd ` set (ut_browsers t)"
  by (auto simp: browser_row_def dest!: map_of_SomeD intro: rev_image_eqI)

lemma browser_refs_mono:
  assumes "browser_refs db ws b" and "set (owners ws) \<subseteq> set (owners ws')"
    and "rr_id ` set (rp_runs db) \<subseteq> rr_id ` set (rp_runs db')"
  shows "browser_refs db' ws' b"
  using assms unfolding browser_refs_def by blast

lemma browser_stored_mono:
  "browser_stored U db ws row \<Longrightarrow> set (owners ws) \<subseteq> set (owners ws') \<Longrightarrow>
   rr_id ` set (rp_runs db) \<subseteq> rr_id ` set (rp_runs db') \<Longrightarrow> browser_stored U db' ws' row"
  unfolding browser_stored_def by (blast intro: browser_refs_mono)

text \<open>Rows of the metadata tables are never deleted, so references to them stay.\<close>

lemma grows_keys:
  assumes "grows R xs ys" and "\<And>x y. R x y \<Longrightarrow> f y = f x"
  shows "f ` set xs \<subseteq> f ` set ys"
proof
  fix k
  assume "k \<in> f ` set xs"
  then obtain x where x: "x \<in> set xs" "k = f x" by blast
  from grows_row [OF assms(1) x(1)] obtain y where "y \<in> set ys" "R x y" .
  with x(2) assms(2) [of x y] show "k \<in> f ` set ys" by (metis imageI)
qed

lemma evolves_keys:
  assumes "evolves db db'"
  shows "ex_id ` set (rp_experiments db) \<subseteq> ex_id ` set (rp_experiments db')"
    and "rr_id ` set (rp_runs db) \<subseteq> rr_id ` set (rp_runs db')"
    and "sr_id ` set (rp_sources db) \<subseteq> sr_id ` set (rp_sources db')"
proof -
  have g: "grows (=) (rp_experiments db) (rp_experiments db')" "grows run_le (rp_runs db) (rp_runs db')"
      "grows src_le (rp_sources db) (rp_sources db')"
    using assms by (simp_all add: evolves_def)
  show "ex_id ` set (rp_experiments db) \<subseteq> ex_id ` set (rp_experiments db')"
    by (rule grows_keys [OF g(1)]) simp
  show "rr_id ` set (rp_runs db) \<subseteq> rr_id ` set (rp_runs db')"
    by (rule grows_keys [OF g(2)]) (simp add: run_le_def del: valid_run_transition.simps)
  show "sr_id ` set (rp_sources db) \<subseteq> sr_id ` set (rp_sources db')"
    by (rule grows_keys [OF g(3)]) (simp add: src_le_def)
qed

lemma ui_inv_evolves:
  assumes "ui_inv U db t" and "evolves db db'"
  shows "ui_inv U db' t"
proof -
  from assms(1) obtain d where d: "parse_workspaces U (fst (ut_workspaces t)) = Inr d" "document_ok d"
      "layout_refs db (wd_sets d)"
      "\<forall>row \<in> snd ` set (ut_browsers t). browser_stored U db (wd_sets d) row"
      "distinct (map fst (ut_browsers t))" "length (ut_browsers t) \<le> MAX_BROWSERS"
    by (rule ui_invE)
  have "layout_refs db' (wd_sets d)"
    using d(3) evolves_keys [OF assms(2)] unfolding layout_refs_def by fast
  moreover have "browser_stored U db' (wd_sets d) row" if "row \<in> snd ` set (ut_browsers t)" for row
    by (rule browser_stored_mono [OF _ order_refl evolves_keys(2) [OF assms(2)]]) (use d(4) that in blast)
  ultimately show ?thesis unfolding ui_inv_def using d(1,2,5,6) by blast
qed

section \<open>What an operation does when it succeeds\<close>

lemma require_browser_Inr:
  "require_browser t key = Inr row \<longleftrightarrow> valid_browser_id key \<and> browser_row t key = Some row"
  by (auto simp: require_browser_def ok_or_eq_Inr)

lemma next_revision_Inr: "next_revision r = Inr n \<longleftrightarrow> n = Suc r \<and> Suc r \<le> MAX_UI_REVISION"
  by (auto simp: next_revision_def ok_or_eq_Inr checked_add_u64_def split: if_splits option.splits)

lemma retry_Inr:
  "retry row key payload current = Inr again \<longleftrightarrow>
     (if again then snd row = (Some key, Some payload) else fst (snd row) \<noteq> Some key)"
  by (cases row) (auto simp: retry_def)

lemma check_source_ids_fold:
  "try_fold (check_source_id db) seen ids = Inr seen' \<Longrightarrow> set seen \<subseteq> sr_id ` set (rp_sources db) \<Longrightarrow>
   set seen' \<subseteq> sr_id ` set (rp_sources db) \<and> set ids \<subseteq> set seen' \<and> set seen \<subseteq> set seen'"
proof (induction ids arbitrary: seen)
  case (Cons i ids)
  from Cons.prems(1) obtain mid where m: "check_source_id db seen i = Inr mid"
      and rest: "try_fold (check_source_id db) mid ids = Inr seen'"
    by (auto simp: rbind_eq_Inr)
  from m Cons.prems(2) have "set mid = insert i (set seen)" "set mid \<subseteq> sr_id ` set (rp_sources db)"
    by (auto simp: check_source_id_def list_ex_iff split: if_splits)
  with Cons.IH [OF rest] show ?case by auto
qed simp

lemma check_relations_fold:
  "try_fold (check_relations db) seen ws = Inr seen' \<Longrightarrow> set seen \<subseteq> sr_id ` set (rp_sources db) \<Longrightarrow>
   layout_refs db ws"
proof (induction ws arbitrary: seen)
  case Nil
  then show ?case by (simp add: layout_refs_def references_def)
next
  case (Cons w ws)
  from Cons.prems(1) obtain mid where m: "check_relations db seen w = Inr mid"
      and rest: "try_fold (check_relations db) mid ws = Inr seen'"
    by (auto simp: rbind_eq_Inr)
  let ?ids = "concat (map panel_source_ids (wk_panels w))"
  from m have e: "wk_experiment_id w \<in> ex_id ` set (rp_experiments db)"
      and s: "try_fold (check_source_id db) seen ?ids = Inr mid"
    by (auto simp: check_relations_def list_ex_iff split: if_splits) (metis imageI)
  from check_source_ids_fold [OF s Cons.prems(2)] have "set mid \<subseteq> sr_id ` set (rp_sources db)"
      and "set ?ids \<subseteq> set mid" by auto
  with e Cons.IH [OF rest] show ?case by (auto simp: layout_refs_def references_def)
qed

lemma workspace_relations:
  "validate_workspace_relations db q = Inr () \<Longrightarrow> layout_refs db (sv_sets q)"
  by (auto simp: validate_workspace_relations_def rbind_eq_Inr intro: check_relations_fold [where seen = "[]"])

lemma run_color_relations:
  "validate_run_colors db q = Inr () \<Longrightarrow> fst ` set (sb_run_colors q) \<subseteq> rr_id ` set (rp_runs db)"
  by (auto simp: validate_run_colors_def for_each_eq_Inr ensure_eq_Inr bm_keys_def list_ex_iff) force

lemma set_experiments_owner: "set_experiments d w = Some e \<Longrightarrow> (w, e) \<in> set (owners (wd_sets d))"
  by (auto simp: set_experiments_def owners_def dest!: map_of_SomeD)

lemma save_workspaces_cases:
  assumes "save_workspaces U db t browser_id q = Inr (d, t')"
    and "parse_workspaces U (fst (ut_workspaces t)) = Inr current"
  obtains
    (again) payload where "t' = t" and "d = current" and "snd (ut_workspaces t) = (Some (sv_mutation_id q), Some payload)"
  | (written) payload browsers printed where "layout_ok (sv_sets q)" and "sv_revision q = wd_revision current"
      and "fst (snd (ut_workspaces t)) \<noteq> Some (sv_mutation_id q)" and "layout_refs db (sv_sets q)"
      and "wd_sets d = sv_sets q" and "print_workspaces U d = Inr printed"
      and "t' = \<lparr>ut_workspaces = (printed, Some (sv_mutation_id q), Some payload), ut_browsers = browsers\<rparr>"
      and "if sets_eq (wd_sets current) (sv_sets q)
           then wd_revision d = wd_revision current \<and> browsers = ut_browsers t
           else wd_revision d = Suc (wd_revision current) \<and> wd_revision d \<le> MAX_UI_REVISION
                \<and> prune_selections U d (ut_browsers t) = Inr browsers"
      and "bounded_payload (workspaces_payload U q) = Inr payload"
proof -
  let ?c = "sets_eq (wd_sets current) (sv_sets q)"
  from assms obtain payload b where v: "validate_workspaces q = Inr ()"
      and p: "bounded_payload (workspaces_payload U q) = Inr payload"
      and r: "retry (ut_workspaces t) (sv_mutation_id q) payload (workspaces_value U current) = Inr b"
      and rest: "(if b then Inr (current, t) else
        rbind (revision_matches (sv_revision q) (wd_revision current) (workspaces_value U current)) (\<lambda>_.
        rbind (validate_workspace_relations db q) (\<lambda>_.
        rbind (if \<not> ?c then next_revision (wd_revision current) else Inr (wd_revision current)) (\<lambda>n.
        rbind (if \<not> ?c then prune_selections U \<lparr>wd_revision = n, wd_sets = sv_sets q\<rparr> (ut_browsers t)
               else Inr (ut_browsers t)) (\<lambda>browsers.
        rbind (map_err Json (print_workspaces U \<lparr>wd_revision = n, wd_sets = sv_sets q\<rparr>)) (\<lambda>printed.
        Inr (\<lparr>wd_revision = n, wd_sets = sv_sets q\<rparr>,
          \<lparr>ut_workspaces = (printed, Some (sv_mutation_id q), Some payload), ut_browsers = browsers\<rparr>))))))) = Inr (d, t')"
    unfolding save_workspaces_def Let_def by (auto simp: rbind_eq_Inr map_err_eq_Inr)
  show thesis
  proof (cases b)
    case True
    with rest r show thesis by (intro again) (auto simp: retry_Inr)
  next
    case False
    with rest obtain n browsers printed where
        m: "revision_matches (sv_revision q) (wd_revision current) (workspaces_value U current) = Inr ()"
        and l: "validate_workspace_relations db q = Inr ()"
        and n: "(if \<not> ?c then next_revision (wd_revision current) else Inr (wd_revision current)) = Inr n"
        and pr: "(if \<not> ?c then prune_selections U \<lparr>wd_revision = n, wd_sets = sv_sets q\<rparr> (ut_browsers t)
               else Inr (ut_browsers t)) = Inr browsers"
        and tx: "print_workspaces U \<lparr>wd_revision = n, wd_sets = sv_sets q\<rparr> = Inr printed"
        and d: "d = \<lparr>wd_revision = n, wd_sets = sv_sets q\<rparr>"
        and t': "t' = \<lparr>ut_workspaces = (printed, Some (sv_mutation_id q), Some payload), ut_browsers = browsers\<rparr>"
      by (simp only: if_False rbind_unit_eq_Inr, simp only: rbind_eq_Inr map_err_eq_Inr Inr_inject prod.inject) blast
    show thesis
    proof (rule written [OF _ _ _ workspace_relations [OF l] _ _ t' _ p])
      show "layout_ok (sv_sets q)" using v by (simp add: validate_workspaces_ok)
      show "sv_revision q = wd_revision current" using m by (simp add: revision_matches_def ensure_eq_Inr)
      show "fst (snd (ut_workspaces t)) \<noteq> Some (sv_mutation_id q)" using r False by (simp add: retry_Inr)
      show "wd_sets d = sv_sets q" by (simp add: d)
      show "print_workspaces U d = Inr printed" using tx by (simp add: d)
      show "if ?c then wd_revision d = wd_revision current \<and> browsers = ut_browsers t
            else wd_revision d = Suc (wd_revision current) \<and> wd_revision d \<le> MAX_UI_REVISION
                 \<and> prune_selections U d (ut_browsers t) = Inr browsers"
        using n pr by (cases ?c) (simp_all add: d next_revision_Inr)
    qed
  qed
qed

lemma save_browser_cases:
  assumes "save_browser_preferences U db t key q = Inr (d, t')"
    and "browser_row t key = Some row" and "parse_browser U (fst row) = Inr current"
    and "parse_workspaces U (fst (ut_workspaces t)) = Inr ws"
  obtains
    (again) "t' = t" and "d = current"
  | (written) payload printed where
      "preferences_ok (sb_sidebar_width q) (sb_selected q) (sb_run_colors q)"
      and "sb_revision q = bp_revision current" and "fst (snd row) \<noteq> Some (sb_mutation_id q)"
      and "\<forall>(e, w) \<in> set (sb_selected q). (w, e) \<in> set (owners (wd_sets ws))"
      and "fst ` set (sb_run_colors q) \<subseteq> rr_id ` set (rp_runs db)"
      and "bp_theme d = sb_theme q \<and> bp_sidebar_width d = sb_sidebar_width q
           \<and> bp_selected d = sb_selected q \<and> bp_run_colors d = sb_run_colors q"
      and "print_browser U d = Inr printed"
      and "t' = t\<lparr>ut_browsers := put_browser key (printed, Some (sb_mutation_id q), Some payload) (ut_browsers t)\<rparr>"
      and "d = current \<or> bp_revision d = Suc (bp_revision current) \<and> bp_revision d \<le> MAX_UI_REVISION"
      and "bounded_payload (browser_payload U q) = Inr payload"
proof -
  let ?c = "bp_theme current \<noteq> sb_theme q \<or> bp_sidebar_width current \<noteq> sb_sidebar_width q
     \<or> bp_selected current \<noteq> sb_selected q \<or> bp_run_colors current \<noteq> sb_run_colors q"
  let ?doc = "\<lambda>n. \<lparr>bp_revision = n, bp_theme = sb_theme q, bp_sidebar_width = sb_sidebar_width q,
             bp_selected = sb_selected q, bp_run_colors = sb_run_colors q\<rparr>"
  from assms obtain payload b where v: "validate_browser q = Inr ()"
      and p: "bounded_payload (browser_payload U q) = Inr payload"
      and r: "retry row (sb_mutation_id q) payload (browser_value U current) = Inr b"
      and rest: "(if b then Inr (current, t) else
        rbind (revision_matches (sb_revision q) (bp_revision current) (browser_value U current)) (\<lambda>_.
        rbind (map_err Json (parse_workspaces U (fst (ut_workspaces t)))) (\<lambda>workspaces.
        rbind (ensure (list_all (selects (set_experiments workspaces)) (sb_selected q))
                 (EngineInvalid ''selected must reference an existing workspace in the specified experiment'')) (\<lambda>_.
        rbind (validate_run_colors db q) (\<lambda>_.
        rbind (if ?c then next_revision (bp_revision current) else Inr (bp_revision current)) (\<lambda>n.
        rbind (map_err Json (print_browser U (?doc n))) (\<lambda>printed.
        Inr (?doc n, t\<lparr>ut_browsers := put_browser key
                        (printed, Some (sb_mutation_id q), Some payload) (ut_browsers t)\<rparr>)))))))) = Inr (d, t')"
    unfolding save_browser_preferences_def Let_def by (auto simp: rbind_eq_Inr map_err_eq_Inr require_browser_Inr)
  show thesis
  proof (cases b)
    case True
    with rest show thesis by (intro again) auto
  next
    case False
    with rest obtain n printed where
        m: "revision_matches (sb_revision q) (bp_revision current) (browser_value U current) = Inr ()"
        and s: "list_all (selects (set_experiments ws)) (sb_selected q)"
        and l: "validate_run_colors db q = Inr ()"
        and n: "(if ?c then next_revision (bp_revision current) else Inr (bp_revision current)) = Inr n"
        and tx: "print_browser U (?doc n) = Inr printed" and d: "d = ?doc n"
        and t': "t' = t\<lparr>ut_browsers := put_browser key
                        (printed, Some (sb_mutation_id q), Some payload) (ut_browsers t)\<rparr>"
      by (simp only: if_False assms(4) map_err_simps rbind_simps rbind_unit_eq_Inr ensure_eq_Inr,
          simp only: rbind_eq_Inr map_err_eq_Inr Inr_inject prod.inject) blast
    show thesis
    proof (rule written [OF _ _ _ _ run_color_relations [OF l] _ _ t' _ p])
      show "preferences_ok (sb_sidebar_width q) (sb_selected q) (sb_run_colors q)"
        using v by (simp add: validate_browser_ok)
      show "sb_revision q = bp_revision current" using m by (simp add: revision_matches_def ensure_eq_Inr)
      show "fst (snd row) \<noteq> Some (sb_mutation_id q)" using r False by (simp add: retry_Inr)
      show "\<forall>(e, w) \<in> set (sb_selected q). (w, e) \<in> set (owners (wd_sets ws))"
        using s by (auto simp: list_all_iff selects_def dest!: set_experiments_owner)
      show "bp_theme d = sb_theme q \<and> bp_sidebar_width d = sb_sidebar_width q
          \<and> bp_selected d = sb_selected q \<and> bp_run_colors d = sb_run_colors q" by (simp add: d)
      show "print_browser U d = Inr printed" using tx by (simp add: d)
      show "d = current \<or> bp_revision d = Suc (bp_revision current) \<and> bp_revision d \<le> MAX_UI_REVISION"
        using n by (cases ?c) (auto simp: d next_revision_Inr)
    qed
  qed
qed

end
