(* ===== verification/Ui_Props.thy ===== *)
theory Ui_Props
  imports Ui_Inv
begin

text \<open>
  Properties of the interface documents over every state that the operations of the metadata
  database build, from an empty database on.
\<close>

section \<open>Steps\<close>

text \<open>One transaction on the metadata database: an operation of the repository or of the documents.
  The last two premises say that the maps of a request are \<open>BTreeMap\<close>s.\<close>

inductive meta_step :: "repo_env \<Rightarrow> ui_serde \<Rightarrow> repo \<times> ui_tables \<Rightarrow> repo \<times> ui_tables \<Rightarrow> bool" for X U where
  metadata: "repo_step X db db' \<Longrightarrow> meta_step X U (db, t) (db', t)"
| loaded: "load_ui_state U nid t requested = Inr (s, t') \<Longrightarrow> meta_step X U (db, t) (db, t')"
| workspaces_saved: "save_workspaces U db t browser_id q = Inr (d, t') \<Longrightarrow> layout_wf (sv_sets q) \<Longrightarrow>
    meta_step X U (db, t) (db, t')"
| browser_saved: "save_browser_preferences U db t browser_id p = Inr (b, t') \<Longrightarrow>
    bm_sorted (sb_selected p) \<Longrightarrow> bm_sorted (sb_run_colors p) \<Longrightarrow> meta_step X U (db, t) (db, t')"

inductive_cases meta_stepE: "meta_step X U (db, t) s'"

definition meta_reachable :: "repo_env \<Rightarrow> ui_serde \<Rightarrow> repo \<Rightarrow> ui_tables \<Rightarrow> bool" where
  "meta_reachable X U db t \<longleftrightarrow> (meta_step X U)\<^sup>*\<^sup>* (empty_repo, ui_initialize) (db, t)"

definition meta_inv :: "repo_env \<Rightarrow> ui_serde \<Rightarrow> repo \<times> ui_tables \<Rightarrow> bool" where
  "meta_inv X U = (\<lambda>(db, t). serde_ok U \<and> repo_inv X db \<and> ui_inv U db t)"

section \<open>The invariant is kept\<close>

lemma default_browser_ok: "browser_ok default_browser"
  by (simp add: browser_ok_def default_browser_def preferences_ok_def)

lemma ui_inv_load:
  assumes "load_ui_state U nid t requested = Inr (s, t')" and "ui_inv U db t" and "serde_ok U"
  shows "ui_inv U db t'"
proof -
  from assms(1) have "t' = t \<or> register_browser U nid t = Inr t'"
    by (auto simp: load_ui_state_def Let_def rbind_eq_Inr split: option.splits)
  then show ?thesis
  proof
    assume "register_browser U nid t = Inr t'"
    then obtain printed where p: "print_browser U default_browser = Inr printed"
        and fresh: "browser_row t nid = None" and count: "length (ut_browsers t) < MAX_BROWSERS"
        and t': "t' = t\<lparr>ut_browsers := ut_browsers t @ [(nid, (printed, None, None))]\<rparr>"
      by (auto simp: register_browser_def rbind_eq_Inr map_err_eq_Inr ensure_eq_Inr split: if_splits)
    have "browser_stored U db ws (printed, None, None)" for ws
      using serde_browser [OF assms(3) default_browser_ok p] default_browser_ok
      by (auto simp: browser_stored_def browser_refs_def default_browser_def)
    moreover have "nid \<notin> fst ` set (ut_browsers t)"
      using fresh by (auto simp: browser_row_def map_of_eq_None_iff)
    ultimately show ?thesis using assms(2) count by (auto simp: ui_inv_def t' Let_def)
  qed (use assms(2) in simp)
qed

lemma prune_browser_ok:
  assumes "prune_browser U sets (key, row) = Inr (key', row')" and "serde_ok U"
    and "parse_browser U (fst row) = Inr b" and "browser_ok b"
  obtains b' where "key' = key" and "parse_browser U (fst row') = Inr b'" and "browser_ok b'"
    and "bp_selected b' = filter (selects sets) (bp_selected b)" and "bp_run_colors b' = bp_run_colors b"
    and "b' = b \<and> row' = row \<or> bp_revision b' = Suc (bp_revision b)"
proof (cases "length (filter (selects sets) (bp_selected b)) = length (bp_selected b)")
  case True
  then have "filter (selects sets) (bp_selected b) = bp_selected b"
    by (metis filter_True length_filter_less nat_neq_iff)
  moreover have "key' = key" "row' = row" using assms(1,3) True by (simp_all add: prune_browser_def)
  ultimately show thesis using assms(3,4) by (intro that [of b]) simp_all
next
  case False
  let ?b = "b\<lparr>bp_selected := filter (selects sets) (bp_selected b), bp_revision := Suc (bp_revision b)\<rparr>"
  from False assms(1,3) obtain printed where p: "print_browser U ?b = Inr printed"
      and k: "key' = key" and r: "row' = (printed, None, None)" and n: "Suc (bp_revision b) \<le> MAX_UI_REVISION"
    by (auto simp: prune_browser_def rbind_eq_Inr map_err_eq_Inr next_revision_Inr)
  have "browser_ok ?b"
    using assms(4) n
    by (auto simp: browser_ok_def preferences_ok_def bm_sorted_def sorted_wrt_map sorted_wrt_filter
        intro: order_trans [OF length_filter_le])
  then show thesis using serde_browser [OF assms(2) _ p] by (intro that [of ?b]) (simp_all add: k r)
qed

lemma prune_selections_rows:
  assumes "prune_selections U d rows = Inr rows'"
  shows "list_all2 (\<lambda>x y. prune_browser U (set_experiments d) x = Inr y) rows rows'"
  using assms by (simp add: prune_selections_def try_map_eq_Inr)

lemma prune_selections_keys:
  assumes "prune_selections U d rows = Inr rows'"
  shows "map fst rows' = map fst rows"
proof -
  have "fst y = fst x" if "prune_browser U sets x = Inr y" for x y sets
    using that by (auto simp: prune_browser_def rbind_eq_Inr Let_def split: prod.splits if_splits)
  with prune_selections_rows [OF assms] show ?thesis
    by (induction rule: list_all2_induct) auto
qed

lemma list_all2_source:
  assumes "list_all2 R xs ys" and "y \<in> set ys"
  obtains x where "x \<in> set xs" and "R x y"
proof -
  from assms(2) obtain i where "i < length ys" "y = ys ! i" by (auto simp: in_set_conv_nth)
  with assms(1) that [of "xs ! i"] show thesis by (simp add: list_all2_conv_all_nth)
qed

lemma prune_selections_stored:
  assumes "prune_selections U d rows = Inr rows'" and "serde_ok U"
    and "\<forall>row \<in> snd ` set rows. browser_stored U db ws row"
  shows "\<forall>row \<in> snd ` set rows'. browser_stored U db (wd_sets d) row"
proof
  fix row'
  assume "row' \<in> snd ` set rows'"
  then obtain key' where "(key', row') \<in> set rows'" by auto
  then obtain x where "x \<in> set rows" and "prune_browser U (set_experiments d) x = Inr (key', row')"
    by (rule list_all2_source [OF prune_selections_rows [OF assms(1)]])
  then obtain key row where x: "(key, row) \<in> set rows"
      and p: "prune_browser U (set_experiments d) (key, row) = Inr (key', row')"
    by (metis surj_pair)
  from x assms(3) have "browser_stored U db ws row" by force
  then obtain b where b: "parse_browser U (fst row) = Inr b" "browser_ok b" "browser_refs db ws b"
    by (auto simp: browser_stored_def)
  from prune_browser_ok [OF p assms(2) b(1,2)] obtain b' where b': "parse_browser U (fst row') = Inr b'"
      "browser_ok b'" "bp_selected b' = filter (selects (set_experiments d)) (bp_selected b)"
      "bp_run_colors b' = bp_run_colors b" .
  have "browser_refs db (wd_sets d) b'"
    using b(3) b'(3,4) by (auto simp: browser_refs_def selects_def dest!: set_experiments_owner)
  with b'(1,2) show "browser_stored U db (wd_sets d) row'" by (auto simp: browser_stored_def)
qed

lemma browser_stored_same:
  "browser_stored U db ws row \<Longrightarrow> same_layout ws ws' \<Longrightarrow> browser_stored U db ws' row"
  by (erule browser_stored_mono) (simp_all add: same_layout_owners)

lemma layout_refs_same: "layout_refs db ws \<Longrightarrow> same_layout ws ws' \<Longrightarrow> layout_refs db ws'"
  by (simp add: layout_refs_def same_layout_references)

text \<open>A successful write leaves the document it returned, up to floats, in the row.\<close>

lemma workspaces_written:
  assumes "serde_ok U" and "layout_ok (sv_sets q)" and "layout_wf (sv_sets q)" and "wd_sets d = sv_sets q"
    and "print_workspaces U d = Inr printed" and "wd_revision d \<le> MAX_UI_REVISION"
  obtains d' where "parse_workspaces U printed = Inr d'" and "wd_revision d' = wd_revision d"
    and "same_layout (wd_sets d') (sv_sets q)" and "document_ok d'"
proof -
  obtain d' where d': "parse_workspaces U printed = Inr d'" "wd_revision d' = wd_revision d"
      "same_layout (wd_sets d') (wd_sets d)"
    by (rule serde_workspaces [OF assms(1,6) _ _ assms(5)]) (simp_all add: assms(2,3,4))
  moreover have "document_ok d'" using d' assms(2,3,4,6) by (auto simp: document_ok_def)
  ultimately show thesis using assms(4) by (intro that) simp_all
qed

lemma ui_inv_save_workspaces:
  assumes "save_workspaces U db t browser_id q = Inr (d, t')" and "layout_wf (sv_sets q)"
    and "ui_inv U db t" and "serde_ok U"
  shows "ui_inv U db t'"
proof -
  from assms(3) obtain current where c: "parse_workspaces U (fst (ut_workspaces t)) = Inr current"
      "document_ok current" "layout_refs db (wd_sets current)"
      "\<forall>row \<in> snd ` set (ut_browsers t). browser_stored U db (wd_sets current) row"
      "distinct (map fst (ut_browsers t))" "length (ut_browsers t) \<le> MAX_BROWSERS"
    by (rule ui_invE)
  from assms(1) c(1) show ?thesis
  proof (cases rule: save_workspaces_cases)
    case again
    then show ?thesis using assms(3) by simp
  next
    case (written payload browsers printed)
    have rev: "wd_revision d \<le> MAX_UI_REVISION"
      using written(8) c(2) by (auto simp: document_ok_def split: if_splits)
    obtain d' where d': "parse_workspaces U printed = Inr d'" "same_layout (wd_sets d') (sv_sets q)" "document_ok d'"
      by (rule workspaces_written [OF assms(4) written(1) assms(2) written(5,6) rev])
    have "\<forall>row \<in> snd ` set browsers. browser_stored U db (wd_sets d') row"
    proof (cases "sets_eq (wd_sets current) (sv_sets q)")
      case True
      then have "same_layout (wd_sets current) (wd_sets d')"
        using d'(2) by (blast intro: same_layout_trans same_layout_sym sets_eq_same)
      then show ?thesis using c(4) written(8) True by (auto intro: browser_stored_same)
    next
      case False
      have "prune_selections U d (ut_browsers t) = Inr browsers" using written(8) False by simp
      from prune_selections_stored [OF this assms(4) c(4)]
      have "\<forall>row \<in> snd ` set browsers. browser_stored U db (sv_sets q) row" by (simp add: written(5))
      then show ?thesis using d'(2) by (blast intro: browser_stored_same same_layout_sym)
    qed
    moreover have "map fst browsers = map fst (ut_browsers t)"
      using written(8) by (auto split: if_splits dest: prune_selections_keys)
    moreover have "layout_refs db (wd_sets d')"
      by (rule layout_refs_same [OF written(4) same_layout_sym [OF d'(2)]])
    ultimately show ?thesis using d'(1,3) c(5,6) by (auto simp: ui_inv_def written(7) dest: map_eq_imp_length_eq)
  qed
qed

lemma put_browser_keys [simp]: "map fst (put_browser key row rows) = map fst rows"
  by (auto simp: put_browser_def comp_def split: prod.splits)

lemma put_browser_rows: "r \<in> snd ` set (put_browser key row rows) \<Longrightarrow> r = row \<or> r \<in> snd ` set rows"
  by (force simp: put_browser_def split: if_splits)

lemma put_browser_get:
  "map_of (put_browser key row rows) k =
     (if k = key \<and> key \<in> fst ` set rows then Some row else map_of rows k)"
proof (induction rows)
  case (Cons r rows)
  obtain a x where r: "r = (a, x)" by (cases r)
  from Cons.IH show ?case by (cases "a = key"; cases "a = k") (simp_all add: put_browser_def r)
qed (simp add: put_browser_def)

text \<open>The document that a write of preferences leaves is valid and refers to existing rows.\<close>

lemma browser_written:
  assumes "preferences_ok (sb_sidebar_width q) (sb_selected q) (sb_run_colors q)"
    and "bm_sorted (sb_selected q)" and "bm_sorted (sb_run_colors q)"
    and "bp_theme d = sb_theme q \<and> bp_sidebar_width d = sb_sidebar_width q
         \<and> bp_selected d = sb_selected q \<and> bp_run_colors d = sb_run_colors q"
    and "d = current \<or> bp_revision d = Suc (bp_revision current) \<and> bp_revision d \<le> MAX_UI_REVISION"
    and "browser_ok current"
  shows "browser_ok d"
proof -
  have "bp_revision d \<le> MAX_UI_REVISION" using assms(5,6) by (auto simp: browser_ok_def)
  then show ?thesis using assms(1,2,3,4) by (simp add: browser_ok_def)
qed

lemma ui_inv_save_browser:
  assumes "save_browser_preferences U db t key q = Inr (d, t')"
    and "bm_sorted (sb_selected q)" and "bm_sorted (sb_run_colors q)"
    and "ui_inv U db t" and "serde_ok U"
  shows "ui_inv U db t'"
proof -
  from assms(4) obtain ws where c: "parse_workspaces U (fst (ut_workspaces t)) = Inr ws"
      "document_ok ws" "layout_refs db (wd_sets ws)"
      "\<forall>row \<in> snd ` set (ut_browsers t). browser_stored U db (wd_sets ws) row"
      "distinct (map fst (ut_browsers t))" "length (ut_browsers t) \<le> MAX_BROWSERS"
    by (rule ui_invE)
  from assms(1) obtain row where r: "browser_row t key = Some row"
    by (auto simp: save_browser_preferences_def rbind_eq_Inr require_browser_Inr)
  then have "browser_stored U db (wd_sets ws) row" using c(4) browser_row_mem by blast
  then obtain current where cur: "parse_browser U (fst row) = Inr current" "browser_ok current"
    by (auto simp: browser_stored_def)
  from assms(1) r cur(1) c(1) show ?thesis
  proof (cases rule: save_browser_cases)
    case again
    then show ?thesis using assms(4) by simp
  next
    case (written payload printed)
    have ok: "browser_ok d" by (rule browser_written [OF written(1) assms(2,3) written(6,9) cur(2)])
    have sel: "bp_selected d = sb_selected q" "bp_run_colors d = sb_run_colors q"
      using written(6) by simp_all
    have "browser_stored U db (wd_sets ws) (printed, Some (sb_mutation_id q), Some payload)"
      unfolding browser_stored_def browser_refs_def
      using serde_browser [OF assms(5) ok written(7)] ok written(4,5)
      by (intro exI [of _ d]) (simp add: sel)
    note stored = this
    have "browser_stored U db (wd_sets ws) r" if "r \<in> snd ` set (ut_browsers t')" for r
    proof -
      from that have "r \<in> snd ` set (put_browser key (printed, Some (sb_mutation_id q), Some payload) (ut_browsers t))"
        by (simp add: written(8))
      from put_browser_rows [OF this] show ?thesis using stored c(4) by blast
    qed
    moreover have "map fst (ut_browsers t') = map fst (ut_browsers t)" by (simp add: written(8))
    moreover from this have "length (ut_browsers t') = length (ut_browsers t)" by (rule map_eq_imp_length_eq)
    moreover have "ut_workspaces t' = ut_workspaces t" by (simp add: written(8))
    ultimately show ?thesis using c unfolding ui_inv_def by simp
  qed
qed

lemma meta_inv_step: "meta_step X U s s' \<Longrightarrow> meta_inv X U s \<Longrightarrow> meta_inv X U s'"
proof (induction rule: meta_step.induct)
  case (metadata db db' t)
  then show ?case using repo_step_ok [OF metadata.hyps]
    by (auto simp: meta_inv_def step_ok_def intro: ui_inv_evolves)
qed (auto simp: meta_inv_def intro: ui_inv_load ui_inv_save_workspaces ui_inv_save_browser)

lemma meta_inv_steps: "(meta_step X U)\<^sup>*\<^sup>* s s' \<Longrightarrow> meta_inv X U s \<Longrightarrow> meta_inv X U s'"
  by (induction rule: rtranclp_induct) (auto intro: meta_inv_step)

lemma meta_inv_initial: "serde_ok U \<Longrightarrow> meta_inv X U (empty_repo, ui_initialize)"
  by (simp add: meta_inv_def repo_inv_empty ui_inv_initial)

lemma meta_reachable_inv: "serde_ok U \<Longrightarrow> meta_reachable X U db t \<Longrightarrow> meta_inv X U (db, t)"
  unfolding meta_reachable_def by (erule meta_inv_steps) (rule meta_inv_initial)

text \<open>A write that returns what was there had the latest mutation; one that writes stores its own.\<close>

lemma saved_revision:
  assumes "save_workspaces U db t browser_id q = Inr (d, t')" and "serde_ok U" and "layout_wf (sv_sets q)"
    and "ui_inv U db t"
  obtains d' where "parse_workspaces U (fst (ut_workspaces t')) = Inr d'" and "wd_revision d' = wd_revision d"
    and "same_layout (wd_sets d') (wd_sets d)"
proof -
  from assms(4) obtain current where c: "parse_workspaces U (fst (ut_workspaces t)) = Inr current" "document_ok current"
    by (rule ui_invE)
  from assms(1) c(1) show thesis
  proof (cases rule: save_workspaces_cases)
    case again
    then show thesis using c(1) that [of current] by simp
  next
    case (written payload browsers printed)
    have "wd_revision d \<le> MAX_UI_REVISION"
      using written(8) c(2) by (auto simp: document_ok_def split: if_splits)
    from workspaces_written [OF assms(2) written(1) assms(3) written(5,6) this] that show thesis
      by (simp add: written(5,7)) blast
  qed
qed

section \<open>Documents behind compare-and-swap\<close>

text \<open>
  A document with a revision: a step leaves it as it is or advances its revision by one. Then the
  revision names the content, and a draft based on an older revision can be told from the current one.
\<close>

locale revisioned =
  fixes step :: "'s \<Rightarrow> 's \<Rightarrow> bool"
    and inv :: "'s \<Rightarrow> bool"
    and revision :: "'s \<Rightarrow> nat"
    and content :: "'s \<Rightarrow> 'c"
  assumes inv_step: "step s s' \<Longrightarrow> inv s \<Longrightarrow> inv s'"
    and advance: "step s s' \<Longrightarrow> inv s \<Longrightarrow>
      revision s' = revision s \<and> content s' = content s \<or> revision s' = Suc (revision s)"
begin

lemma inv_steps: "step\<^sup>*\<^sup>* s s' \<Longrightarrow> inv s \<Longrightarrow> inv s'"
  by (induction rule: rtranclp_induct) (auto intro: inv_step)

lemma revision_mono: "step\<^sup>*\<^sup>* s s' \<Longrightarrow> inv s \<Longrightarrow> revision s \<le> revision s'"
proof (induction rule: rtranclp_induct)
  case (step s' s'')
  then have "revision s' \<le> revision s''" using advance [OF step.hyps(2) inv_steps [OF step.hyps(1)]] by auto
  with step show ?case by simp
qed simp

lemma revision_names_content:
  "step\<^sup>*\<^sup>* s s' \<Longrightarrow> inv s \<Longrightarrow> revision s' = revision s \<Longrightarrow> content s' = content s"
proof (induction rule: rtranclp_induct)
  case (step s' s'')
  have "revision s \<le> revision s'" by (rule revision_mono [OF step.hyps(1) step.prems(1)])
  with advance [OF step.hyps(2) inv_steps [OF step.hyps(1) step.prems(1)]] step.prems(2)
  have "revision s' = revision s" "content s'' = content s'" by auto
  with step show ?case by simp
qed simp

end

definition workspaces_revision :: "ui_serde \<Rightarrow> repo \<times> ui_tables \<Rightarrow> nat" where
  "workspaces_revision U = (\<lambda>(db, t).
     case parse_workspaces U (fst (ut_workspaces t)) of Inr d \<Rightarrow> wd_revision d | Inl _ \<Rightarrow> 0)"

definition workspaces_content :: "ui_serde \<Rightarrow> repo \<times> ui_tables \<Rightarrow> workspace_set list" where
  "workspaces_content U = (\<lambda>(db, t).
     case parse_workspaces U (fst (ut_workspaces t)) of Inr d \<Rightarrow> map erase_set (wd_sets d) | Inl _ \<Rightarrow> [])"

definition browser_document :: "ui_serde \<Rightarrow> string \<Rightarrow> repo \<times> ui_tables \<Rightarrow> browser_preferences" where
  "browser_document U key = (\<lambda>(db, t).
     case browser_row t key of
       None \<Rightarrow> default_browser
     | Some row \<Rightarrow> (case parse_browser U (fst row) of Inr b \<Rightarrow> b | Inl _ \<Rightarrow> default_browser))"

lemma workspaces_advance:
  assumes "meta_step X U s s'" and "meta_inv X U s"
  shows "workspaces_revision U s' = workspaces_revision U s \<and> workspaces_content U s' = workspaces_content U s
     \<or> workspaces_revision U s' = Suc (workspaces_revision U s)"
  using assms
proof (cases rule: meta_step.cases)
  case (metadata db db' t)
  then show ?thesis by (simp add: workspaces_revision_def workspaces_content_def)
next
  case (loaded nid t requested ss t' db)
  then have "ut_workspaces t' = ut_workspaces t"
    by (auto simp: load_ui_state_def register_browser_def Let_def rbind_eq_Inr split: option.splits if_splits)
  then show ?thesis by (simp add: loaded(1,2) workspaces_revision_def workspaces_content_def)
next
  case (browser_saved db t browser_id p b t')
  then have "ut_workspaces t' = ut_workspaces t"
    by (auto simp: save_browser_preferences_def Let_def rbind_eq_Inr split: if_splits)
  then show ?thesis by (simp add: browser_saved(1,2) workspaces_revision_def workspaces_content_def)
next
  case (workspaces_saved db t browser_id q d t')
  from assms(2) have inv: "serde_ok U" "ui_inv U db t" by (simp_all add: meta_inv_def workspaces_saved(1))
  from inv(2) obtain current where c: "parse_workspaces U (fst (ut_workspaces t)) = Inr current" "document_ok current"
    by (rule ui_invE)
  from workspaces_saved(3) c(1) show ?thesis
  proof (cases rule: save_workspaces_cases)
    case again
    then show ?thesis by (simp add: workspaces_saved(1,2))
  next
    case (written payload browsers printed)
    have "wd_revision d \<le> MAX_UI_REVISION"
      using written(8) c(2) by (auto simp: document_ok_def split: if_splits)
    then obtain d' where d': "parse_workspaces U printed = Inr d'" "wd_revision d' = wd_revision d"
        "same_layout (wd_sets d') (sv_sets q)"
      by (rule workspaces_written [OF inv(1) written(1) workspaces_saved(4) written(5,6)])
    show ?thesis
    proof (cases "sets_eq (wd_sets current) (sv_sets q)")
      case True
      then have "same_layout (wd_sets d') (wd_sets current)"
        using d'(3) by (blast intro: same_layout_trans same_layout_sym sets_eq_same)
      with True written(8) show ?thesis
        by (simp add: workspaces_saved(1,2) workspaces_revision_def workspaces_content_def c(1) d'(1,2)
            written(7) same_layout_def)
    qed (use written(8) in \<open>simp add: workspaces_saved(1,2) workspaces_revision_def c(1) d'(1,2) written(7)\<close>)
  qed
qed

interpretation workspaces: revisioned "meta_step X U" "meta_inv X U" "workspaces_revision U" "workspaces_content U"
  for X U
  by unfold_locales (blast intro: meta_inv_step, rule workspaces_advance)

text \<open>The preferences of one browser, from its registration on.\<close>

definition browser_inv :: "repo_env \<Rightarrow> ui_serde \<Rightarrow> string \<Rightarrow> repo \<times> ui_tables \<Rightarrow> bool" where
  "browser_inv X U key s \<longleftrightarrow> meta_inv X U s \<and> key \<in> fst ` set (ut_browsers (snd s))"

lemma browser_registered:
  assumes "ui_inv U db t" and "key \<in> fst ` set (ut_browsers t)"
  obtains row b where "browser_row t key = Some row" and "parse_browser U (fst row) = Inr b" and "browser_ok b"
    and "browser_document U key (db, t) = b"
proof -
  from assms(2) obtain row where r: "browser_row t key = Some row"
    unfolding browser_row_def by (metis map_of_eq_None_iff option.exhaust)
  then have "row \<in> snd ` set (ut_browsers t)" by (rule browser_row_mem)
  with assms(1) obtain b where "parse_browser U (fst row) = Inr b" "browser_ok b"
    unfolding ui_inv_def browser_stored_def by blast
  with r that show thesis by (simp add: browser_document_def)
qed

lemma map_of_list_all2:
  assumes "list_all2 (\<lambda>x y. fst y = fst x \<and> R (snd x) (snd y)) xs ys" and "map_of xs k = Some v"
  shows "\<exists>w. map_of ys k = Some w \<and> R v w"
  using assms
proof (induction rule: list_all2_induct)
  case (Cons x xs y ys)
  then show ?case by (cases x; cases y) (auto split: if_splits)
qed simp

lemma browser_pruned:
  assumes "prune_selections U d rows = Inr rows'" and "serde_ok U"
    and "map_of rows key = Some row" and "parse_browser U (fst row) = Inr b" and "browser_ok b"
  shows "\<exists>row' b'. map_of rows' key = Some row' \<and> parse_browser U (fst row') = Inr b'
     \<and> (b' = b \<or> bp_revision b' = Suc (bp_revision b))"
proof -
  have "list_all2 (\<lambda>x y. fst y = fst x \<and> prune_browser U (set_experiments d) (fst x, snd x) = Inr (fst y, snd y)) rows rows'"
    using prune_selections_rows [OF assms(1)]
    by (rule list_all2_mono) (auto simp: prune_browser_def rbind_eq_Inr Let_def split: if_splits)
  then have "list_all2 (\<lambda>x y. fst y = fst x \<and> (\<exists>k. prune_browser U (set_experiments d) (k, snd x) = Inr (k, snd y))) rows rows'"
    by (rule list_all2_mono) metis
  from map_of_list_all2 [OF this assms(3)] obtain row' k where r: "map_of rows' key = Some row'"
      and p: "prune_browser U (set_experiments d) (k, row) = Inr (k, row')" by blast
  from prune_browser_ok [OF p assms(2,4,5)] obtain b' where b': "parse_browser U (fst row') = Inr b'"
      "b' = b \<and> row' = row \<or> bp_revision b' = Suc (bp_revision b)" .
  then show ?thesis using r by (intro exI [of _ row'] exI [of _ b']) auto
qed

text \<open>What a transaction does to the row of a registered browser.\<close>

lemma browser_kept_workspaces:
  assumes "save_workspaces U db t browser_id q = Inr (d, t')" and "key \<in> fst ` set (ut_browsers t)"
    and "serde_ok U" and "ui_inv U db t"
  shows "key \<in> fst ` set (ut_browsers t')
     \<and> (browser_document U key (db, t') = browser_document U key (db, t)
        \<or> bp_revision (browser_document U key (db, t')) = Suc (bp_revision (browser_document U key (db, t))))"
proof -
  note inv = assms(3,4)
  obtain row b where b: "browser_row t key = Some row" "parse_browser U (fst row) = Inr b" "browser_ok b"
      "browser_document U key (db, t) = b"
    by (rule browser_registered [OF inv(2) assms(2)])
  from inv(2) obtain current where c: "parse_workspaces U (fst (ut_workspaces t)) = Inr current"
    by (rule ui_invE)
  from assms(1) c show ?thesis
  proof (cases rule: save_workspaces_cases)
    case again
    then show ?thesis using assms(2) by simp
  next
    case (written payload browsers printed)
    show ?thesis
    proof (cases "sets_eq (wd_sets current) (sv_sets q)")
      case True
      then show ?thesis using assms(2) written(7,8) by (simp add: browser_document_def browser_row_def)
    next
      case False
      then have p: "prune_selections U d (ut_browsers t) = Inr browsers" using written(8) by simp
      from browser_pruned [OF p inv(1) b(1) [unfolded browser_row_def] b(2,3)] obtain row' b' where
          b': "map_of browsers key = Some row'" "parse_browser U (fst row') = Inr b'"
          "b' = b \<or> bp_revision b' = Suc (bp_revision b)" by blast
      have "browser_document U key (db, t') = b'"
        using b'(1,2) by (simp add: browser_document_def browser_row_def written(7))
      moreover have "key \<in> fst ` set (ut_browsers t')"
        using b'(1) by (auto simp: written(7) dest!: map_of_SomeD intro: rev_image_eqI)
      ultimately show ?thesis using b(4) b'(3) by auto
    qed
  qed
qed

lemma browser_kept_browser:
  assumes "save_browser_preferences U db t browser_id p = Inr (d, t')" and "key \<in> fst ` set (ut_browsers t)"
    and "serde_ok U" and "ui_inv U db t" and "bm_sorted (sb_selected p)" and "bm_sorted (sb_run_colors p)"
  shows "key \<in> fst ` set (ut_browsers t')
     \<and> (browser_document U key (db, t') = browser_document U key (db, t)
        \<or> bp_revision (browser_document U key (db, t')) = Suc (bp_revision (browser_document U key (db, t))))"
proof -
  note inv = assms(3,4)
  from assms(1) obtain row where r: "browser_row t browser_id = Some row"
    by (auto simp: save_browser_preferences_def rbind_eq_Inr require_browser_Inr)
  then have "browser_id \<in> fst ` set (ut_browsers t)"
    by (auto simp: browser_row_def dest!: map_of_SomeD intro: rev_image_eqI)
  from browser_registered [OF inv(2) this] r obtain current where
      cur: "parse_browser U (fst row) = Inr current" "browser_ok current"
      "browser_document U browser_id (db, t) = current" by auto
  from inv(2) obtain ws where ws: "parse_workspaces U (fst (ut_workspaces t)) = Inr ws" by (rule ui_invE)
  from assms(1) r cur(1) ws show ?thesis
  proof (cases rule: save_browser_cases)
    case again
    then show ?thesis using assms(2) by simp
  next
    case (written payload printed)
    have ok: "browser_ok d" by (rule browser_written [OF written(1) assms(5,6) written(6,9) cur(2)])
    have keys: "fst ` set (ut_browsers t') = fst ` set (ut_browsers t)"
      by (metis list.set_map put_browser_keys ui_tables.select_convs(2) ui_tables.surjective
          ui_tables.update_convs(2) written(8))
    show ?thesis
    proof (cases "key = browser_id")
      case True
      then have "browser_document U key (db, t') = d"
        using assms(2) serde_browser [OF inv(1) ok written(7)]
        by (simp add: browser_document_def browser_row_def written(8) put_browser_get)
      then show ?thesis using written(9) assms(2) keys cur(3) True by auto
    next
      case False
      then have "browser_document U key (db, t') = browser_document U key (db, t)"
        by (simp add: browser_document_def browser_row_def written(8) put_browser_get)
      then show ?thesis using assms(2) keys by simp
    qed
  qed
qed

lemma browser_step:
  assumes "meta_step X U s s'" and "browser_inv X U key s"
  shows "key \<in> fst ` set (ut_browsers (snd s'))
     \<and> (browser_document U key s' = browser_document U key s
        \<or> bp_revision (browser_document U key s') = Suc (bp_revision (browser_document U key s)))"
  using assms(1)
proof (cases rule: meta_step.cases)
  case (metadata db db' t)
  then show ?thesis using assms(2) by (simp add: browser_inv_def browser_document_def)
next
  case (loaded nid t requested ss t' db)
  have k: "key \<in> fst ` set (ut_browsers t)" using assms(2) by (simp add: browser_inv_def loaded(1))
  from loaded(3) have "\<exists>rest. ut_browsers t' = ut_browsers t @ rest"
    by (auto simp: load_ui_state_def register_browser_def Let_def rbind_eq_Inr split: option.splits if_splits)
  then obtain rest where rest: "ut_browsers t' = ut_browsers t @ rest" ..
  then have "browser_row t' key = browser_row t key"
    using k by (auto simp: browser_row_def map_add_def dest: map_of_SomeD split: option.splits)
      (metis map_of_eq_None_iff option.distinct(1) imageI fst_conv)
  then show ?thesis using k rest by (simp add: loaded(1,2) browser_document_def image_Un)
next
  case (workspaces_saved db t browser_id q d t')
  then show ?thesis using assms(2) browser_kept_workspaces [OF workspaces_saved(3), of key]
    by (simp add: browser_inv_def meta_inv_def)
next
  case (browser_saved db t browser_id p d t')
  then show ?thesis using assms(2) browser_kept_browser [OF browser_saved(3), of key]
    by (simp add: browser_inv_def meta_inv_def)
qed

interpretation browsers: revisioned "meta_step X U" "browser_inv X U key"
    "\<lambda>s. bp_revision (browser_document U key s)" "browser_document U key"
  for X U key
proof
  show "browser_inv X U key s'" if "meta_step X U s s'" "browser_inv X U key s" for s s'
    using browser_step [OF that] meta_inv_step [OF that(1)] that(2) by (simp add: browser_inv_def)
qed (auto dest: browser_step)

end
