(* ===== verification/Ui_Codec.thy ===== *)
theory Ui_Codec
  imports Ui_Props
begin

text \<open>
  A concrete serializer for the interface documents and a concrete history of the metadata database,
  with which the properties are applied. The text format is length-prefixed; it covers layouts of
  charts of normal size without options and fails, as a serializer may, on other panels.
\<close>

section \<open>Encoding\<close>

fun plain_panel :: "panel_spec \<Rightarrow> bool" where
  "plain_panel (Chart _ _ NormalSize _ None None) \<longleftrightarrow> True"
| "plain_panel _ \<longleftrightarrow> False"

fun enc_panel :: "panel_spec \<Rightarrow> string" where
  "enc_panel (Chart i s _ p _ _) = enc_str i @ enc_str s @ enc_str p"
| "enc_panel _ = []"

definition dec_panel :: "string \<Rightarrow> (panel_spec \<times> string) option" where
  "dec_panel s =
     Option.bind (dec_str s) (\<lambda>(i, s). Option.bind (dec_str s) (\<lambda>(sec, s).
     Option.bind (dec_str s) (\<lambda>(p, s). Some (Chart i sec NormalSize p None None, s))))"

definition enc_section :: "section_spec \<Rightarrow> string" where
  "enc_section s = enc_str (sp_id s) @ enc_str (sp_name s) @ enc_nat (if sp_collapsed s then 1 else 0)"

definition dec_section :: "string \<Rightarrow> (section_spec \<times> string) option" where
  "dec_section s =
     Option.bind (dec_str s) (\<lambda>(i, s). Option.bind (dec_str s) (\<lambda>(n, s).
     Option.bind (dec_nat s) (\<lambda>(c, s). Some (\<lparr>sp_id = i, sp_name = n, sp_collapsed = (c = 1)\<rparr>, s))))"

definition enc_set :: "workspace_set \<Rightarrow> string" where
  "enc_set w = enc_str (wk_id w) @ enc_str (wk_name w) @ enc_str (wk_experiment_id w)
     @ enc_list enc_panel (wk_panels w) @ enc_list enc_section (wk_sections w)"

definition dec_set :: "string \<Rightarrow> (workspace_set \<times> string) option" where
  "dec_set s =
     Option.bind (dec_str s) (\<lambda>(i, s). Option.bind (dec_str s) (\<lambda>(n, s). Option.bind (dec_str s) (\<lambda>(e, s).
     Option.bind (dec_list dec_panel s) (\<lambda>(ps, s). Option.bind (dec_list dec_section s) (\<lambda>(ss, s).
     Some (\<lparr>wk_id = i, wk_name = n, wk_experiment_id = e, wk_panels = ps, wk_sections = ss\<rparr>, s))))))"

definition plain_sets :: "workspace_set list \<Rightarrow> bool" where
  "plain_sets ws \<longleftrightarrow> list_all (\<lambda>w. list_all plain_panel (wk_panels w)) ws"

definition enc_document :: "workspace_document \<Rightarrow> string" where
  "enc_document d = CHR ''w'' # enc_nat (wd_revision d) @ enc_list enc_set (wd_sets d)"

definition dec_document :: "string \<Rightarrow> string + workspace_document" where
  "dec_document s =
     (if s = EMPTY_WORKSPACES then Inr \<lparr>wd_revision = 0, wd_sets = []\<rparr>
      else ok_or ''malformed document''
        (Option.bind (dec_nat (drop 1 s)) (\<lambda>(r, s). Option.bind (dec_list dec_set s) (\<lambda>(ws, s).
         if s = [] then Some \<lparr>wd_revision = r, wd_sets = ws\<rparr> else None))))"

definition enc_pair :: "string \<times> string \<Rightarrow> string" where
  "enc_pair kv = enc_str (fst kv) @ enc_str (snd kv)"

definition enc_browser :: "browser_preferences \<Rightarrow> string" where
  "enc_browser b = enc_nat (bp_revision b) @ enc_nat (if bp_theme b = Dark then 1 else 0)
     @ enc_nat (bp_sidebar_width b) @ enc_list enc_pair (bp_selected b) @ enc_list enc_pair (bp_run_colors b)"

definition dec_browser :: "string \<Rightarrow> string + browser_preferences" where
  "dec_browser s = ok_or ''malformed preferences''
     (Option.bind (dec_nat s) (\<lambda>(r, s). Option.bind (dec_nat s) (\<lambda>(t, s). Option.bind (dec_nat s) (\<lambda>(w, s).
      Option.bind (dec_list (dec_pair dec_str) s) (\<lambda>(sel, s).
      Option.bind (dec_list (dec_pair dec_str) s) (\<lambda>(col, s).
      if s = [] then Some \<lparr>bp_revision = r, bp_theme = (if t = 1 then Dark else Light),
        bp_sidebar_width = w, bp_selected = sel, bp_run_colors = col\<rparr> else None))))))"

definition demo_serde :: ui_serde where
  "demo_serde = \<lparr>
     print_workspaces = (\<lambda>d. if plain_sets (wd_sets d) then Inr (enc_document d) else Inl ''unsupported panel''),
     parse_workspaces = dec_document,
     workspaces_value = (\<lambda>d. Inr (JString (enc_document d))),
     print_browser = (\<lambda>b. Inr (enc_browser b)),
     parse_browser = dec_browser,
     browser_value = (\<lambda>b. Inr (JString (enc_browser b))),
     workspaces_payload = (\<lambda>q. if plain_sets (sv_sets q)
        then Inr (enc_str (sv_mutation_id q) @ enc_document \<lparr>wd_revision = sv_revision q, wd_sets = sv_sets q\<rparr>)
        else Inl ''unsupported panel''),
     browser_payload = (\<lambda>q. Inr (enc_str (sb_mutation_id q) @ enc_browser \<lparr>bp_revision = sb_revision q,
        bp_theme = sb_theme q, bp_sidebar_width = sb_sidebar_width q, bp_selected = sb_selected q,
        bp_run_colors = sb_run_colors q\<rparr>))\<rparr>"

section \<open>The laws\<close>

lemma dec_enc_panel: "plain_panel p \<Longrightarrow> dec_panel (enc_panel p @ r) = Some (p, r)"
  by (induction p rule: plain_panel.induct) (simp_all add: dec_panel_def)

lemma dec_enc_section: "dec_section (enc_section s @ r) = Some (s, r)"
  by (cases s) (simp add: dec_section_def enc_section_def)

lemma dec_enc_set:
  assumes "list_all plain_panel (wk_panels w)"
  shows "dec_set (enc_set w @ r) = Some (w, r)"
proof -
  have "dec_list dec_panel (enc_list enc_panel (wk_panels w) @ r) = Some (wk_panels w, r)" for r
    by (rule dec_enc_list) (use assms in \<open>auto simp: list_all_iff intro: dec_enc_panel\<close>)
  moreover have "dec_list dec_section (enc_list enc_section (wk_sections w) @ r) = Some (wk_sections w, r)" for r
    by (rule dec_enc_list) (rule dec_enc_section)
  ultimately show ?thesis by (simp add: dec_set_def enc_set_def)
qed

lemma dec_enc_document:
  assumes "plain_sets (wd_sets d)"
  shows "dec_document (enc_document d) = Inr d"
proof -
  have "dec_list dec_set (enc_list enc_set (wd_sets d) @ []) = Some (wd_sets d, [])"
    by (rule dec_enc_list) (use assms in \<open>auto simp: plain_sets_def list_all_iff intro: dec_enc_set\<close>)
  moreover have "enc_document d \<noteq> EMPTY_WORKSPACES" by (simp add: enc_document_def EMPTY_WORKSPACES_def)
  ultimately show ?thesis by (simp add: dec_document_def) (simp add: enc_document_def)
qed

lemma dec_enc_browser: "dec_browser (enc_browser b) = Inr b"
proof -
  have "dec_list (dec_pair dec_str) (enc_list enc_pair kvs @ r) = Some (kvs, r)" for kvs r
    by (rule dec_enc_list) (simp add: dec_pair_def enc_pair_def)
  from this [of _ "[]"] this show ?thesis
    by (cases b; cases "bp_theme b") (simp_all add: dec_browser_def enc_browser_def)
qed

lemma demo_printed:
  "print_workspaces demo_serde d = Inr printed \<longleftrightarrow> plain_sets (wd_sets d) \<and> printed = enc_document d"
  by (auto simp: demo_serde_def)

lemma demo_parsed [simp]:
  "plain_sets (wd_sets d) \<Longrightarrow> parse_workspaces demo_serde (enc_document d) = Inr d"
  "parse_workspaces demo_serde EMPTY_WORKSPACES = Inr \<lparr>wd_revision = 0, wd_sets = []\<rparr>"
  "parse_browser demo_serde (enc_browser b) = Inr b"
  "print_browser demo_serde b = Inr (enc_browser b)"
proof -
  show "parse_workspaces demo_serde EMPTY_WORKSPACES = Inr \<lparr>wd_revision = 0, wd_sets = []\<rparr>"
    by (simp add: demo_serde_def dec_document_def)
qed (simp_all add: demo_serde_def dec_enc_browser dec_enc_document)

lemma demo_serde_ok: "serde_ok demo_serde"
  unfolding serde_ok_def by (auto simp: demo_printed)

section \<open>A history\<close>

definition demo_browser :: string where
  "demo_browser = ''browser_'' @ replicate 32 CHR ''a''"

definition demo_layout :: "workspace_set list" where
  "demo_layout = [\<lparr>wk_id = ''w'', wk_name = ''n'', wk_experiment_id = ''e1'',
     wk_panels = [Chart ''p'' ''s'' NormalSize ''/x'' None None],
     wk_sections = [\<lparr>sp_id = ''s'', sp_name = ''t'', sp_collapsed = False\<rparr>]\<rparr>]"

definition demo_save :: "nat \<Rightarrow> string \<Rightarrow> workspace_set list \<Rightarrow> save_workspaces_request" where
  "demo_save r m ws = \<lparr>sv_revision = r, sv_mutation_id = m, sv_sets = ws\<rparr>"

definition demo_payload :: "save_workspaces_request \<Rightarrow> string" where
  "demo_payload q = enc_str (sv_mutation_id q) @ enc_document \<lparr>wd_revision = sv_revision q, wd_sets = sv_sets q\<rparr>"

definition demo_prefs :: save_browser_request where
  "demo_prefs = \<lparr>sb_revision = 0, sb_mutation_id = ''b'', sb_theme = Dark, sb_sidebar_width = 300,
     sb_selected = [(''e1'', ''w'')], sb_run_colors = [(''r'', ''#00ff00'')]\<rparr>"

definition demo_prefs_payload :: string where
  "demo_prefs_payload = enc_str ''b'' @ enc_browser \<lparr>bp_revision = 0, bp_theme = Dark, bp_sidebar_width = 300,
     bp_selected = [(''e1'', ''w'')], bp_run_colors = [(''r'', ''#00ff00'')]\<rparr>"

definition demo_document :: workspace_document where
  "demo_document = \<lparr>wd_revision = 1, wd_sets = demo_layout\<rparr>"

definition demo_chosen :: browser_preferences where
  "demo_chosen = \<lparr>bp_revision = 1, bp_theme = Dark, bp_sidebar_width = 300,
     bp_selected = [(''e1'', ''w'')], bp_run_colors = [(''r'', ''#00ff00'')]\<rparr>"

definition demo_opened :: ui_tables where
  "demo_opened = \<lparr>ut_workspaces = (EMPTY_WORKSPACES, None, None),
     ut_browsers = [(demo_browser, (enc_browser default_browser, None, None))]\<rparr>"

definition demo_shared :: ui_tables where
  "demo_shared = demo_opened\<lparr>ut_workspaces :=
     (enc_document demo_document, Some ''m'', Some (demo_payload (demo_save 0 ''m'' demo_layout)))\<rparr>"

definition demo_selected :: ui_tables where
  "demo_selected = demo_shared\<lparr>ut_browsers :=
     [(demo_browser, (enc_browser demo_chosen, Some ''b'', Some demo_prefs_payload))]\<rparr>"

definition demo_cleared :: ui_tables where
  "demo_cleared = \<lparr>ut_workspaces = (enc_document \<lparr>wd_revision = 2, wd_sets = []\<rparr>, Some ''z'',
       Some (demo_payload (demo_save 1 ''z'' []))),
     ut_browsers = [(demo_browser,
       (enc_browser (demo_chosen\<lparr>bp_revision := 2, bp_selected := []\<rparr>), None, None))]\<rparr>"

lemma demo_ids [simp]:
  "valid_browser_id demo_browser" "valid_ui_id ''w''" "valid_ui_id ''m''" "valid_ui_id ''z''" "valid_ui_id ''b''"
  "valid_ui_id ''p''" "valid_ui_id ''s''" "valid_ui_id ''r''" "valid_ui_id ''e1''"
  by (simp_all add: valid_browser_id_def demo_browser_def strip_prefix_def starts_with_def is_ascii_hexdigit_def
      is_ascii_digit_def is_ascii_upper_def byte_def valid_ui_id_def str_trim_def trim_start.simps
      trim_rev.simps ws1_def ws2_def numeral_eq_Suc)

lemma demo_layout_valid: "layout_ok demo_layout" "plain_sets demo_layout" "layout_wf demo_layout"
  by (simp_all add: layout_ok_def demo_layout_def set_ok_def trim_letter ws1_def byte_def ui_text_def ui_path_def
      chars_count_def contains_nul_def starts_with_def plain_sets_def layout_wf_def)

lemma demo_payload_bounded:
  "bounded_payload (workspaces_payload demo_serde (demo_save r [c] ws)) = Inr (demo_payload (demo_save r [c] ws))"
  if "plain_sets ws" and "length (demo_payload (demo_save r [c] ws)) \<le> MAX_UI_REQUEST_BYTES"
  using that by (simp add: bounded_payload_def demo_serde_def demo_payload_def demo_save_def)

lemma demo_payload_lengths:
  "length (demo_payload (demo_save 0 ''m'' demo_layout)) \<le> MAX_UI_REQUEST_BYTES"
  "length (demo_payload (demo_save 1 ''z'' [])) \<le> MAX_UI_REQUEST_BYTES"
  "length (demo_payload (demo_save 0 ''z'' [])) \<le> MAX_UI_REQUEST_BYTES"
  "length demo_prefs_payload \<le> MAX_UI_REQUEST_BYTES"
  by (simp_all add: demo_payload_def demo_save_def enc_document_def enc_str_def length_enc_nat enc_list_def
      enc_set_def demo_layout_def enc_section_def demo_prefs_payload_def enc_browser_def enc_pair_def ilog10.simps)

lemma demo_open:
  "load_ui_state demo_serde demo_browser ui_initialize None = Inr
     (\<lparr>ss_browser_id = demo_browser, ss_initialized = True,
       ss_state = \<lparr>us_workspaces = \<lparr>wd_revision = 0, wd_sets = []\<rparr>, us_browser = default_browser\<rparr>\<rparr>, demo_opened)"
  by (simp add: load_ui_state_def requested_browser_def register_browser_def ui_initialize_def browser_row_def
      demo_opened_def)

lemma demo_share:
  "save_workspaces demo_serde demo_repo demo_opened demo_browser (demo_save 0 ''m'' demo_layout)
     = Inr (demo_document, demo_shared)"
proof -
  have v: "validate_workspaces (demo_save 0 ''m'' demo_layout) = Inr ()"
    by (simp add: validate_workspaces_ok demo_layout_valid) (simp add: demo_save_def demo_layout_valid)
  have rel: "validate_workspace_relations demo_repo (demo_save 0 ''m'' demo_layout) = Inr ()"
    by (simp add: validate_workspace_relations_def demo_save_def demo_layout_def check_relations_def demo_repo_def)
  have pr: "prune_selections demo_serde \<lparr>wd_revision = 1, wd_sets = demo_layout\<rparr> (ut_browsers demo_opened)
      = Inr (ut_browsers demo_opened)"
    by (simp add: prune_selections_def prune_browser_def demo_opened_def default_browser_def)
  have c: "\<not> sets_eq [] demo_layout" by (simp add: sets_eq_def demo_layout_def)
  have n: "next_revision 0 = Inr 1" by (simp add: next_revision_Inr)
  show ?thesis
    using v rel c n pr demo_payload_bounded [OF demo_layout_valid(2) demo_payload_lengths(1)]
    by (simp add: save_workspaces_def require_browser_def browser_row_def demo_opened_def demo_save_def
        retry_def revision_matches_def demo_document_def demo_shared_def demo_printed
        demo_layout_valid(2) iffD2 [OF demo_printed] Let_def)
qed

lemma demo_choose:
  "save_browser_preferences demo_serde demo_repo demo_shared demo_browser demo_prefs = Inr (demo_chosen, demo_selected)"
proof -
  have v: "validate_browser demo_prefs = Inr ()"
    by (simp add: validate_browser_ok demo_prefs_def preferences_ok_def hex_color_def starts_with_def
        is_ascii_hexdigit_def is_ascii_digit_def byte_def)
  have c: "validate_run_colors demo_repo demo_prefs = Inr ()"
    by (simp add: validate_run_colors_def demo_prefs_def bm_keys_def demo_repo_def)
  have p: "bounded_payload (browser_payload demo_serde demo_prefs) = Inr demo_prefs_payload"
    using demo_payload_lengths(4)
    by (simp add: bounded_payload_def demo_serde_def demo_prefs_def demo_prefs_payload_def)
  have n: "next_revision 0 = Inr 1" by (simp add: next_revision_Inr)
  have s: "list_all (selects (set_experiments demo_document)) (sb_selected demo_prefs)"
    by (simp add: demo_prefs_def selects_def set_experiments_def demo_document_def demo_layout_def)
  have d: "parse_workspaces demo_serde (enc_document demo_document) = Inr demo_document"
    by (simp add: demo_document_def demo_layout_valid)
  show ?thesis
    using v c p n s d
    by (simp add: save_browser_preferences_def require_browser_def browser_row_def demo_shared_def demo_opened_def
        demo_prefs_def retry_def revision_matches_def default_browser_def demo_chosen_def demo_selected_def
        put_browser_def Let_def)
qed

text \<open>Removing the layout prunes the selection and clears the mutation of the browser.\<close>

lemma demo_clear:
  "save_workspaces demo_serde demo_repo demo_selected demo_browser (demo_save 1 ''z'' [])
     = Inr (\<lparr>wd_revision = 2, wd_sets = []\<rparr>, demo_cleared)"
proof -
  have v: "validate_workspaces (demo_save 1 ''z'' []) = Inr ()"
    by (simp add: validate_workspaces_ok demo_save_def layout_ok_def)
  have rel: "validate_workspace_relations demo_repo (demo_save 1 ''z'' []) = Inr ()"
    by (simp add: validate_workspace_relations_def demo_save_def)
  have pr: "prune_selections demo_serde \<lparr>wd_revision = 2, wd_sets = []\<rparr> (ut_browsers demo_selected)
      = Inr (ut_browsers demo_cleared)"
    by (simp add: prune_selections_def prune_browser_def demo_selected_def demo_cleared_def demo_chosen_def
        selects_def set_experiments_def next_revision_def checked_add_u64_def numeral_2_eq_2)
  have c: "\<not> sets_eq demo_layout []" by (simp add: sets_eq_def demo_layout_def)
  have n: "next_revision 1 = Inr 2" by (simp add: next_revision_Inr)
  have d: "parse_workspaces demo_serde (enc_document demo_document) = Inr demo_document"
    by (simp add: demo_document_def demo_layout_valid)
  have pl: "plain_sets []" by (simp add: plain_sets_def)
  show ?thesis
    using v rel c n [simplified] pr d demo_payload_bounded [OF pl demo_payload_lengths(2)] pl
    by (simp add: save_workspaces_def require_browser_def browser_row_def demo_selected_def demo_shared_def
        demo_opened_def demo_save_def retry_def revision_matches_def demo_document_def demo_cleared_def
        iffD2 [OF demo_printed] Let_def)
qed

lemma demo_steps:
  "meta_reachable demo_env demo_serde demo_repo demo_opened"
  "meta_step demo_env demo_serde (demo_repo, demo_opened) (demo_repo, demo_shared)"
  "meta_step demo_env demo_serde (demo_repo, demo_shared) (demo_repo, demo_selected)"
  "meta_step demo_env demo_serde (demo_repo, demo_selected) (demo_repo, demo_cleared)"
proof -
  have "meta_step demo_env demo_serde (empty_repo, ui_initialize) (demo_repo, ui_initialize)"
    by (rule meta_step.metadata [OF repo_step.configured [OF demo_configured]])
  moreover have "meta_step demo_env demo_serde (demo_repo, ui_initialize) (demo_repo, demo_opened)"
    by (rule meta_step.loaded [OF demo_open])
  ultimately show "meta_reachable demo_env demo_serde demo_repo demo_opened"
    unfolding meta_reachable_def by (meson r_into_rtranclp rtranclp_trans)
  show "meta_step demo_env demo_serde (demo_repo, demo_opened) (demo_repo, demo_shared)"
    by (rule meta_step.workspaces_saved [OF demo_share]) (simp add: demo_save_def demo_layout_valid)
  show "meta_step demo_env demo_serde (demo_repo, demo_shared) (demo_repo, demo_selected)"
    by (rule meta_step.browser_saved [OF demo_choose]) (simp_all add: demo_prefs_def bm_sorted_def)
  show "meta_step demo_env demo_serde (demo_repo, demo_selected) (demo_repo, demo_cleared)"
    by (rule meta_step.workspaces_saved [OF demo_clear]) (simp add: demo_save_def layout_wf_def)
qed

lemma demo_ui_reachable:
  "meta_reachable demo_env demo_serde demo_repo demo_shared"
  "meta_reachable demo_env demo_serde demo_repo demo_selected"
  "meta_reachable demo_env demo_serde demo_repo demo_cleared"
  using demo_steps unfolding meta_reachable_def by (auto intro: rtranclp.rtrancl_into_rtrancl)

end
