(* ===== verification/Ui_Contracts.thy ===== *)
theory Ui_Contracts
  imports Ui_Codec
begin

text \<open>
  The contracts of the interface documents: what the validators accept, what is stored, and what
  compare-and-swap guarantees to clients that edit concurrently.
\<close>

text \<open>
  A request for shared workspaces is accepted by validation exactly when its revision and mutation
  identifier are in range, there are at most 100 workspaces with distinct identifiers and, within an
  experiment, distinct names, and each workspace is well-formed: bounded trimmed names, 1 to 24
  sections and at most 24 panels with distinct identifiers, every panel in a section of its
  workspace, and every panel within the limits of its kind (\<open>set_ok\<close>, \<open>panel_ok\<close>, \<open>table_ok\<close>, \<open>view_ok\<close>).
\<close>

theorem workspaces_accepted:
  "validate_workspaces q = Inr () \<longleftrightarrow>
     sv_revision q \<le> MAX_UI_REVISION \<and> valid_ui_id (sv_mutation_id q)
     \<and> length (sv_sets q) \<le> MAX_WORKSPACE_SETS \<and> distinct (map wk_id (sv_sets q))
     \<and> distinct (map (\<lambda>w. (wk_experiment_id w, wk_name w)) (sv_sets q)) \<and> list_all set_ok (sv_sets q)"
  by (auto simp: validate_workspaces_ok layout_ok_def list_all_iff)

text \<open>
  The decoder of panels inverts the tagged form: fields decode to a panel exactly when they are
  that panel's own fields under its kind, so a field of another kind, a missing path or an unknown
  kind is an error and nothing is dropped.
\<close>

theorem panel_decoding_exact: "decode_panel f = Inr p \<longleftrightarrow> f = panel_form p"
proof
  show "decode_panel f = Inr p" if "f = panel_form p"
    by (cases p) (simp_all add: decode_panel_def that)
  show "f = panel_form p" if "decode_panel f = Inr p"
    using that by (cases f) (auto simp: decode_panel_def result_iffs split: if_splits)
qed

text \<open>
  C33. In every state of the metadata database that its operations reach, the stored workspaces parse
  to a document that differs at most in its floats from one the validators accept, refers only to
  existing experiments and sources, and carries a revision that browsers represent exactly; there are
  at most 10000 browsers, and every stored preference document is within its limits, selects only
  workspaces that exist in the given experiment and colours only registered runs.
\<close>

theorem ui_consistent:
  assumes "serde_ok U" and "meta_reachable X U db t"
  shows "\<exists>d. parse_workspaces U (fst (ut_workspaces t)) = Inr d \<and> wd_revision d \<le> MAX_UI_REVISION
     \<and> (\<exists>ws. layout_ok ws \<and> same_layout (wd_sets d) ws)
     \<and> (\<forall>w \<in> set (wd_sets d). wk_experiment_id w \<in> ex_id ` set (rp_experiments db)
          \<and> (\<forall>p \<in> set (wk_panels w). set (panel_source_ids p) \<subseteq> sr_id ` set (rp_sources db)))
     \<and> length (ut_browsers t) \<le> MAX_BROWSERS \<and> distinct (map fst (ut_browsers t))
     \<and> (\<forall>(key, row) \<in> set (ut_browsers t). \<exists>b. parse_browser U (fst row) = Inr b
          \<and> bp_revision b \<le> MAX_UI_REVISION
          \<and> preferences_ok (bp_sidebar_width b) (bp_selected b) (bp_run_colors b)
          \<and> (\<forall>(e, i) \<in> set (bp_selected b). \<exists>w \<in> set (wd_sets d). wk_id w = i \<and> wk_experiment_id w = e)
          \<and> fst ` set (bp_run_colors b) \<subseteq> rr_id ` set (rp_runs db))"
proof -
  have "ui_inv U db t" using meta_reachable_inv [OF assms] by (simp add: meta_inv_def)
  then obtain d where d: "parse_workspaces U (fst (ut_workspaces t)) = Inr d" "document_ok d"
      "layout_refs db (wd_sets d)"
      "\<forall>row \<in> snd ` set (ut_browsers t). browser_stored U db (wd_sets d) row"
      "distinct (map fst (ut_browsers t))" "length (ut_browsers t) \<le> MAX_BROWSERS"
    by (rule ui_invE)
  have refs: "wk_experiment_id w \<in> ex_id ` set (rp_experiments db)
      \<and> (\<forall>p \<in> set (wk_panels w). set (panel_source_ids p) \<subseteq> sr_id ` set (rp_sources db))"
    if "w \<in> set (wd_sets d)" for w
    using d(3) that unfolding layout_refs_def references_def by fastforce
  have rows: "\<exists>b. parse_browser U (fst row) = Inr b \<and> bp_revision b \<le> MAX_UI_REVISION
      \<and> preferences_ok (bp_sidebar_width b) (bp_selected b) (bp_run_colors b)
      \<and> (\<forall>(e, i) \<in> set (bp_selected b). \<exists>w \<in> set (wd_sets d). wk_id w = i \<and> wk_experiment_id w = e)
      \<and> fst ` set (bp_run_colors b) \<subseteq> rr_id ` set (rp_runs db)" if "(key, row) \<in> set (ut_browsers t)" for key row
  proof -
    have "row \<in> snd ` set (ut_browsers t)" using that by force
    with d(4) obtain b where b: "parse_browser U (fst row) = Inr b" "browser_ok b" "browser_refs db (wd_sets d) b"
      unfolding browser_stored_def by blast
    have "\<forall>(e, i) \<in> set (bp_selected b). \<exists>w \<in> set (wd_sets d). wk_id w = i \<and> wk_experiment_id w = e"
      using b(3) unfolding browser_refs_def owners_def by fastforce
    then show ?thesis using b by (auto simp: browser_ok_def browser_refs_def)
  qed
  show ?thesis
  proof (intro exI [of _ d] conjI)
    show "\<forall>(key, row) \<in> set (ut_browsers t). \<exists>b. parse_browser U (fst row) = Inr b \<and> bp_revision b \<le> MAX_UI_REVISION
      \<and> preferences_ok (bp_sidebar_width b) (bp_selected b) (bp_run_colors b)
      \<and> (\<forall>(e, i) \<in> set (bp_selected b). \<exists>w \<in> set (wd_sets d). wk_id w = i \<and> wk_experiment_id w = e)
      \<and> fst ` set (bp_run_colors b) \<subseteq> rr_id ` set (rp_runs db)"
      using rows by blast
  qed (use d refs in \<open>auto simp: document_ok_def\<close>)
qed

theorem ui_consistent_witness:
  "length (ut_browsers demo_selected) \<le> MAX_BROWSERS \<and> distinct (map fst (ut_browsers demo_selected))
   \<and> parse_browser demo_serde (fst (snd (hd (ut_browsers demo_selected)))) = Inr demo_chosen
   \<and> bp_selected demo_chosen = [(''e1'', ''w'')]"
  using ui_consistent [OF demo_serde_ok demo_ui_reachable(2)]
  by (auto simp: demo_selected_def demo_chosen_def)

text \<open>
  C35. Revisions name documents: over any sequence of transactions, revisions never go back, and as
  long as the revision of the workspaces, or of a registered browser, is the same, so is the document
  (up to floats for the workspaces), and a registered browser stays registered. A client that holds a
  revision therefore knows what it is about to replace.
\<close>

theorem revisions_name_documents:
  assumes "serde_ok U" and "meta_reachable X U db t" and "(meta_step X U)\<^sup>*\<^sup>* (db, t) (db', t')"
    and "key \<in> fst ` set (ut_browsers t)"
  shows "workspaces_revision U (db, t) \<le> workspaces_revision U (db', t')
     \<and> (workspaces_revision U (db', t') = workspaces_revision U (db, t) \<longrightarrow>
          workspaces_content U (db', t') = workspaces_content U (db, t))
     \<and> key \<in> fst ` set (ut_browsers t')
     \<and> bp_revision (browser_document U key (db, t)) \<le> bp_revision (browser_document U key (db', t'))
     \<and> (bp_revision (browser_document U key (db', t')) = bp_revision (browser_document U key (db, t)) \<longrightarrow>
          browser_document U key (db', t') = browser_document U key (db, t))"
proof -
  have inv: "meta_inv X U (db, t)" by (rule meta_reachable_inv [OF assms(1,2)])
  then have binv: "browser_inv X U key (db, t)" using assms(4) by (simp add: browser_inv_def)
  have "key \<in> fst ` set (ut_browsers t')" using browsers.inv_steps [OF assms(3) binv] by (simp add: browser_inv_def)
  moreover have "browser_document U key (db', t') = browser_document U key (db, t)"
    if "bp_revision (browser_document U key (db', t')) = bp_revision (browser_document U key (db, t))"
    by (rule browsers.revision_names_content [OF assms(3) binv that])
  ultimately show ?thesis
    using workspaces.revision_mono [OF assms(3) inv] workspaces.revision_names_content [OF assms(3) inv]
      browsers.revision_mono [OF assms(3) binv] by blast
qed

theorem revisions_name_documents_witness:
  "bp_revision (browser_document demo_serde demo_browser (demo_repo, demo_opened))
     \<le> bp_revision (browser_document demo_serde demo_browser (demo_repo, demo_cleared))
   \<and> bp_revision (browser_document demo_serde demo_browser (demo_repo, demo_cleared)) = 2"
proof -
  have "(meta_step demo_env demo_serde)\<^sup>*\<^sup>* (demo_repo, demo_opened) (demo_repo, demo_cleared)"
    using demo_steps(2,3,4) by (meson rtranclp.rtrancl_into_rtrancl rtranclp.rtrancl_refl)
  moreover have "demo_browser \<in> fst ` set (ut_browsers demo_opened)" by (simp add: demo_opened_def)
  ultimately show ?thesis using revisions_name_documents [OF demo_serde_ok demo_steps(1), of demo_repo demo_cleared demo_browser]
    by (simp add: browser_document_def demo_cleared_def browser_row_def)
qed

text \<open>
  C34. No update is lost: after a write has advanced the workspaces past the revision it was based on,
  and after any further transactions, a request based on that same old revision changes nothing; the
  only one that succeeds at all is the repetition of the latest mutation.
\<close>

theorem no_lost_update:
  assumes "serde_ok U" and "meta_reachable X U db t" and "layout_wf (sv_sets q1)"
    and "save_workspaces U db t b1 q1 = Inr (d1, t1)" and "sv_revision q1 < wd_revision d1"
    and "(meta_step X U)\<^sup>*\<^sup>* (db, t1) (db2, t2)"
    and "sv_revision q2 = sv_revision q1" and "save_workspaces U db2 t2 b2 q2 = Inr (d2, t3)"
  shows "t3 = t2 \<and> fst (snd (ut_workspaces t2)) = Some (sv_mutation_id q2)
     \<and> parse_workspaces U (fst (ut_workspaces t2)) = Inr d2"
proof -
  have inv: "serde_ok U" "ui_inv U db t" and inv1: "meta_inv X U (db, t1)"
    using meta_inv_step [OF meta_step.workspaces_saved [OF assms(4,3)]] meta_reachable_inv [OF assms(1,2)]
    by (auto simp: meta_inv_def)
  from saved_revision [OF assms(4) inv(1) assms(3) inv(2)] have "workspaces_revision U (db, t1) = wd_revision d1"
    unfolding workspaces_revision_def by (metis (no_types, lifting) prod.case sum.case(2))
  then have later: "sv_revision q2 < workspaces_revision U (db2, t2)"
    using workspaces.revision_mono [OF assms(6) inv1] assms(5,7) by simp
  have "ui_inv U db2 t2" using workspaces.inv_steps [OF assms(6) inv1] by (simp add: meta_inv_def)
  then obtain current where c: "parse_workspaces U (fst (ut_workspaces t2)) = Inr current" by (rule ui_invE)
  from assms(8) c show ?thesis
  proof (cases rule: save_workspaces_cases)
    case (again payload)
    then show ?thesis using c by simp
  next
    case (written payload browsers printed)
    then show ?thesis using later c by (simp add: workspaces_revision_def)
  qed
qed

theorem no_lost_update_witness:
  "\<nexists>d t'. t' \<noteq> demo_shared \<and> save_workspaces demo_serde demo_repo demo_shared demo_browser (demo_save 0 ''z'' []) = Inr (d, t')"
proof
  assume "\<exists>d t'. t' \<noteq> demo_shared
    \<and> save_workspaces demo_serde demo_repo demo_shared demo_browser (demo_save 0 ''z'' []) = Inr (d, t')"
  then obtain d t' where s: "t' \<noteq> demo_shared"
      "save_workspaces demo_serde demo_repo demo_shared demo_browser (demo_save 0 ''z'' []) = Inr (d, t')" by blast
  have "layout_wf (sv_sets (demo_save 0 ''m'' demo_layout))" by (simp add: demo_save_def demo_layout_valid)
  from no_lost_update [OF demo_serde_ok demo_steps(1) this demo_share _ rtranclp.rtrancl_refl _ s(2)]
  show False using s(1) by (simp add: demo_save_def demo_document_def)
qed

text \<open>
  C36. A successful write is acknowledged again: repeating the same request right away succeeds, changes
  nothing and returns the document that was stored, so a client that missed the first answer can
  safely retry.
\<close>

theorem write_can_be_retried:
  assumes "serde_ok U" and "meta_reachable X U db t" and "layout_wf (sv_sets q)"
    and "save_workspaces U db t browser_id q = Inr (d, t')"
  shows "\<exists>d'. save_workspaces U db t' browser_id q = Inr (d', t') \<and> wd_revision d' = wd_revision d
     \<and> same_layout (wd_sets d') (wd_sets d)"
proof -
  have inv: "ui_inv U db t" using meta_reachable_inv [OF assms(1,2)] by (simp add: meta_inv_def)
  then obtain current where c: "parse_workspaces U (fst (ut_workspaces t)) = Inr current" by (rule ui_invE)
  obtain d' where d': "parse_workspaces U (fst (ut_workspaces t')) = Inr d'" "wd_revision d' = wd_revision d"
      "same_layout (wd_sets d') (wd_sets d)"
    by (rule saved_revision [OF assms(4,1,3) inv])
  from assms(4) have req: "valid_browser_id browser_id" "browser_row t browser_id \<noteq> None"
      "validate_workspaces q = Inr ()"
    by (auto simp: save_workspaces_def rbind_eq_Inr require_browser_Inr map_err_eq_Inr)
  from assms(4) c show ?thesis
  proof (cases rule: save_workspaces_cases)
    case (again payload)
    then show ?thesis using assms(4) by auto
  next
    case (written payload browsers printed)
    have "map fst (ut_browsers t') = map fst (ut_browsers t)"
      using written(7,8) by (auto split: if_splits dest: prune_selections_keys)
    then have "fst ` set (ut_browsers t') = fst ` set (ut_browsers t)" by (metis list.set_map)
    then obtain row where "browser_row t' browser_id = Some row"
      using req(2) unfolding browser_row_def by (metis map_of_eq_None_iff option.exhaust)
    then have "require_browser t' browser_id = Inr row" using req(1) by (simp add: require_browser_Inr)
    moreover have "retry (ut_workspaces t') (sv_mutation_id q) payload (workspaces_value U d') = Inr True"
      by (simp add: retry_Inr written(7))
    ultimately have "save_workspaces U db t' browser_id q = Inr (d', t')"
      using req(3) written(9) d'(1) by (simp add: save_workspaces_def)
    with d'(2,3) show ?thesis by blast
  qed
qed

theorem write_can_be_retried_witness:
  "\<exists>d. save_workspaces demo_serde demo_repo demo_cleared demo_browser (demo_save 1 ''z'' []) = Inr (d, demo_cleared)
     \<and> wd_revision d = 2"
proof -
  have "layout_wf (sv_sets (demo_save 1 ''z'' []))" by (simp add: demo_save_def layout_wf_def)
  from write_can_be_retried [OF demo_serde_ok demo_ui_reachable(2) this demo_clear] show ?thesis by auto
qed

end
