(* ===== verification/Auth_Sessions.thy ===== *)
theory Auth_Sessions
  imports Engine_Types
begin

text \<open>
  Login sessions (\<open>rust/rvx-engine/src/repository/auth.rs\<close>, \<open>auth_sessions.rs\<close>): the digest of the key
  under which sessions are valid, and the digests of the sessions with their expiry. A session
  belongs to the current key; a new key deletes all of them in the same transaction. Digests are byte
  strings; the clock in seconds is an argument of each operation.
\<close>

abbreviation (input) AUTH_SESSION_SECONDS :: int where "AUTH_SESSION_SECONDS \<equiv> 604800"
abbreviation (input) MAX_AUTH_SESSIONS :: nat where "MAX_AUTH_SESSIONS \<equiv> 10000"

record auth_tables =
  at_key :: "string option"
  at_sessions :: "(string \<times> int) list"

definition auth_initialize :: auth_tables where
  "auth_initialize = \<lparr>at_key = None, at_sessions = []\<rparr>"

definition configure_auth_sessions :: "string \<Rightarrow> auth_tables \<Rightarrow> auth_tables" where
  "configure_auth_sessions key t =
     (if at_key t \<noteq> Some key then \<lparr>at_key = Some key, at_sessions = []\<rparr> else t)"

definition live_sessions :: "int \<Rightarrow> string option \<Rightarrow> (string \<times> int) list \<Rightarrow> (string \<times> int) list" where
  "live_sessions now previous sessions =
     (let unexpired = filter (\<lambda>(d, expires). \<not> expires \<le> now) sessions
      in case previous of None \<Rightarrow> unexpired | Some p \<Rightarrow> filter (\<lambda>(d, _). d \<noteq> p) unexpired)"

definition create_auth_session ::
  "int \<Rightarrow> string \<Rightarrow> string \<Rightarrow> string option \<Rightarrow> auth_tables \<Rightarrow> engine_error + auth_tables" where
  "create_auth_session now key digest previous t =
     (if at_key t \<noteq> Some key then Inl AuthSessionUnavailable
      else let sessions = live_sessions now previous (at_sessions t)
           in if MAX_AUTH_SESSIONS \<le> length sessions then Inl AuthSessionUnavailable
              else if digest \<in> fst ` set sessions then Inl (Sqlite ''UNIQUE constraint failed: auth_sessions.digest'')
              else Inr (t\<lparr>at_sessions := sessions @ [(digest, now + AUTH_SESSION_SECONDS)]\<rparr>))"

definition auth_session_active :: "int \<Rightarrow> string \<Rightarrow> string \<Rightarrow> auth_tables \<Rightarrow> bool" where
  "auth_session_active now key digest t \<longleftrightarrow>
     list_ex (\<lambda>(d, expires). d = digest \<and> now < expires) (at_sessions t) \<and> at_key t = Some key"

definition revoke_auth_session :: "string \<Rightarrow> auth_tables \<Rightarrow> auth_tables" where
  "revoke_auth_session digest t = t\<lparr>at_sessions := filter (\<lambda>(d, _). d \<noteq> digest) (at_sessions t)\<rparr>"

section \<open>Histories\<close>

text \<open>A sequence of operations, each a transaction; one that fails changes nothing.\<close>

datatype auth_op =
    Configure string
  | Login int string string "string option"
  | Revoke string

fun auth_step :: "auth_tables \<Rightarrow> auth_op \<Rightarrow> auth_tables" where
  "auth_step t (Configure key) = configure_auth_sessions key t"
| "auth_step t (Login now key digest previous) =
     (case create_auth_session now key digest previous t of Inl _ \<Rightarrow> t | Inr t' \<Rightarrow> t')"
| "auth_step t (Revoke digest) = revoke_auth_session digest t"

definition auth_run :: "auth_op list \<Rightarrow> auth_tables" where
  "auth_run ops = foldl auth_step auth_initialize ops"

lemma auth_run_snoc: "auth_run (ops @ [op]) = auth_step (auth_run ops) op"
  by (simp add: auth_run_def)

lemma auth_run_Nil [simp]: "auth_run [] = auth_initialize"
  by (simp add: auth_run_def)

lemma set_live_sessions:
  "(d, e) \<in> set (live_sessions now previous ss) \<longleftrightarrow> (d, e) \<in> set ss \<and> now < e \<and> previous \<noteq> Some d"
  by (cases previous) (auto simp: live_sessions_def Let_def not_le)

lemma create_auth_session_Inr:
  "create_auth_session now key digest previous t = Inr t' \<longleftrightarrow>
     at_key t = Some key \<and> length (live_sessions now previous (at_sessions t)) < MAX_AUTH_SESSIONS
     \<and> digest \<notin> fst ` set (live_sessions now previous (at_sessions t))
     \<and> t' = t\<lparr>at_sessions := live_sessions now previous (at_sessions t) @ [(digest, now + AUTH_SESSION_SECONDS)]\<rparr>"
  by (auto simp: create_auth_session_def Let_def not_le split: if_splits)

text \<open>Where a row of the session table comes from: a login under the key that is still current, after
  which nothing removed it.\<close>

definition granted_by :: "auth_op list \<Rightarrow> string \<Rightarrow> string \<Rightarrow> int \<Rightarrow> bool" where
  "granted_by ops key digest expires \<longleftrightarrow>
     (\<exists>before later now previous. ops = before @ [Login now key digest previous] @ later
        \<and> (\<exists>t. create_auth_session now key digest previous (auth_run before) = Inr t)
        \<and> expires = now + AUTH_SESSION_SECONDS
        \<and> Revoke digest \<notin> set later \<and> (\<forall>k. Configure k \<in> set later \<longrightarrow> k = key))"

lemma granted_by_snoc:
  "granted_by ops key digest e \<Longrightarrow> op \<noteq> Revoke digest \<Longrightarrow> (\<And>k. op = Configure k \<Longrightarrow> k = key) \<Longrightarrow>
   granted_by (ops @ [op]) key digest e"
proof -
  assume op: "op \<noteq> Revoke digest" "\<And>k. op = Configure k \<Longrightarrow> k = key"
  assume "granted_by ops key digest e"
  then obtain before later now previous where
      "ops = before @ [Login now key digest previous] @ later"
      "\<exists>t. create_auth_session now key digest previous (auth_run before) = Inr t"
      "e = now + AUTH_SESSION_SECONDS" "Revoke digest \<notin> set later"
      "\<forall>k. Configure k \<in> set later \<longrightarrow> k = key"
    unfolding granted_by_def by blast
  with op show "granted_by (ops @ [op]) key digest e"
    unfolding granted_by_def
    by (intro exI [of _ before] exI [of _ "later @ [op]"] exI [of _ now] exI [of _ previous]) auto
qed

lemma session_granted:
  "(digest, e) \<in> set (at_sessions (auth_run ops)) \<Longrightarrow>
   \<exists>key. at_key (auth_run ops) = Some key \<and> granted_by ops key digest e"
proof (induction ops arbitrary: digest e rule: rev_induct)
  case Nil
  then show ?case by (simp add: auth_initialize_def)
next
  case (snoc op ops)
  show ?case
  proof (cases op)
    case (Configure k)
    with snoc.prems have same: "at_key (auth_run ops) = Some k" "(digest, e) \<in> set (at_sessions (auth_run ops))"
      by (auto simp: auth_run_snoc configure_auth_sessions_def split: if_splits)
    with snoc.IH [OF same(2)] show ?thesis
      by (auto simp: Configure auth_run_snoc configure_auth_sessions_def intro!: granted_by_snoc)
  next
    case (Revoke d)
    with snoc.prems have "(digest, e) \<in> set (at_sessions (auth_run ops))" "d \<noteq> digest"
      by (auto simp: auth_run_snoc revoke_auth_session_def)
    with snoc.IH [OF this(1)] show ?thesis
      by (auto simp: Revoke auth_run_snoc revoke_auth_session_def intro!: granted_by_snoc)
  next
    case (Login now key d previous)
    show ?thesis
    proof (cases "create_auth_session now key d previous (auth_run ops)")
      case (Inl err)
      with snoc.prems snoc.IH show ?thesis by (auto simp: Login auth_run_snoc intro!: granted_by_snoc)
    next
      case (Inr t)
      then have k: "at_key (auth_run ops) = Some key" and t: "t = (auth_run ops)\<lparr>at_sessions :=
          live_sessions now previous (at_sessions (auth_run ops)) @ [(d, now + AUTH_SESSION_SECONDS)]\<rparr>"
        by (simp_all add: create_auth_session_Inr)
      have run: "auth_run (ops @ [op]) = t" by (simp add: Login auth_run_snoc Inr)
      show ?thesis
      proof (cases "(digest, e) \<in> set (at_sessions (auth_run ops))")
        case True
        then have "granted_by ops key digest e" using snoc.IH k by auto
        then have "granted_by (ops @ [op]) key digest e" by (rule granted_by_snoc) (simp_all add: Login)
        then show ?thesis using k by (simp add: run t)
      next
        case False
        with snoc.prems have "digest = d" "e = now + AUTH_SESSION_SECONDS"
          by (auto simp: run t set_live_sessions)
        then have "granted_by (ops @ [op]) key digest e"
          unfolding granted_by_def using Inr by (intro exI [of _ ops] exI [of _ "[]"]) (auto simp: Login)
        with k show ?thesis by (simp add: run t)
      qed
    qed
  qed
qed

lemma sessions_bounded:
  "length (at_sessions (auth_run ops)) \<le> MAX_AUTH_SESSIONS \<and> distinct (map fst (at_sessions (auth_run ops)))"
proof (induction ops rule: rev_induct)
  case Nil
  then show ?case by (simp add: auth_initialize_def)
next
  case (snoc op ops)
  have live: "distinct (map fst (live_sessions now p (at_sessions (auth_run ops))))" for now p
    using snoc.IH by (cases p) (simp_all add: live_sessions_def Let_def distinct_map_filter)
  show ?case
  proof (cases op)
    case (Login now key d previous)
    show ?thesis
    proof (cases "create_auth_session now key d previous (auth_run ops)")
      case (Inr t)
      then show ?thesis using live unfolding create_auth_session_Inr by (auto simp: Login auth_run_snoc Inr)
    qed (use snoc.IH in \<open>simp add: Login auth_run_snoc\<close>)
  next
    case (Configure k)
    then show ?thesis using snoc.IH by (simp add: auth_run_snoc configure_auth_sessions_def)
  next
    case (Revoke d)
    then show ?thesis using snoc.IH
      by (auto simp: auth_run_snoc revoke_auth_session_def distinct_map_filter intro: order_trans [OF length_filter_le])
  qed
qed

text \<open>
  A session is honoured only if a login granted it: whenever a lookup under a key succeeds, there was
  a successful login with that digest under that key less than seven days ago, and since then the
  session was not revoked and no other key was configured. At most 10000 sessions exist, and a
  digest names at most one of them.
\<close>

theorem active_session_was_granted:
  assumes "auth_session_active now key digest (auth_run ops)"
  shows "\<exists>before later begun previous. ops = before @ [Login begun key digest previous] @ later
     \<and> (\<exists>t. create_auth_session begun key digest previous (auth_run before) = Inr t)
     \<and> now < begun + AUTH_SESSION_SECONDS
     \<and> Revoke digest \<notin> set later \<and> (\<forall>k. Configure k \<in> set later \<longrightarrow> k = key)
     \<and> length (at_sessions (auth_run ops)) \<le> MAX_AUTH_SESSIONS
     \<and> distinct (map fst (at_sessions (auth_run ops)))"
proof -
  from assms obtain e where e: "(digest, e) \<in> set (at_sessions (auth_run ops))" "now < e"
      and k: "at_key (auth_run ops) = Some key"
    by (auto simp: auth_session_active_def list_ex_iff)
  from session_granted [OF e(1)] k have "granted_by ops key digest e" by simp
  with e(2) sessions_bounded [of ops] show ?thesis unfolding granted_by_def by blast
qed

theorem active_session_witness:
  "auth_session_active 8 ''k'' ''d'' (auth_run [Configure ''k'', Login 5 ''k'' ''d'' None, Revoke ''x''])
   \<and> (\<exists>begun. 8 < begun + AUTH_SESSION_SECONDS)"
proof -
  have a: "auth_session_active 8 ''k'' ''d'' (auth_run [Configure ''k'', Login 5 ''k'' ''d'' None, Revoke ''x''])"
    by (simp add: auth_run_def auth_initialize_def configure_auth_sessions_def create_auth_session_def
        live_sessions_def revoke_auth_session_def auth_session_active_def)
  from active_session_was_granted [OF a] a show ?thesis by blast
qed

end
