(* ===== verification/Access.thy ===== *)
theory Access
  imports Auth_Sessions F64_Text "HOL-Library.AList"
begin

text \<open>
  Who may use the server (\<open>rust/rvx-server/src/access.rs\<close>, \<open>auth.rs\<close>): the access policy, the decision that
  \<open>protect\<close> takes before any handler runs, and the limit on login attempts.

  A request is what the HTTP layer hands over: method, path, query and the header fields in order, names
  in lower case. URL parsing, SHA-256, HMAC, base64 and the query encoder are third-party code
  (\<open>access_ext\<close>); parsing of IP addresses is written out. \<open>Instant\<close> is a time in nanoseconds, whose
  \<open>duration_since\<close> saturates at zero. Response headers are not modelled, nor is the handler that a
  forwarded request reaches.
\<close>

subsection \<open>The libraries\<close>

text \<open>What the code reads of a parsed URL. An opaque origin (\<open>None\<close>) equals no other origin.\<close>

record url_parts =
  up_scheme :: string
  up_host :: "string option"
  up_username :: string
  up_password :: "string option"
  up_path :: string
  up_query :: "string option"
  up_fragment :: "string option"
  up_origin :: "string option"

record access_ext =
  parse_url :: "string \<Rightarrow> url_parts option"
  sha256 :: "string \<Rightarrow> string"
  hmac_sha256 :: "string \<Rightarrow> string \<Rightarrow> string"
  base64_decode :: "string \<Rightarrow> string option"
  encode_next :: "string \<Rightarrow> string"

record request =
  rq_method :: string
  rq_path :: string
  rq_query :: "string option"
  rq_headers :: "(string \<times> string) list"

definition get_all :: "request \<Rightarrow> string \<Rightarrow> string list" where
  "get_all q name = map snd (filter (\<lambda>(n, _). n = name) (rq_headers q))"

definition get_header :: "request \<Rightarrow> string \<Rightarrow> string option" where
  "get_header q name = map_of (rq_headers q) name"

text \<open>\<open>HeaderValue::to_str\<close>: visible ASCII and tabs only.\<close>

definition to_str :: "string \<Rightarrow> string option" where
  "to_str v = (if list_all (\<lambda>c. byte c = 9 \<or> (32 \<le> byte c \<and> byte c < 127)) v then Some v else None)"

definition str_header :: "request \<Rightarrow> string \<Rightarrow> string option" where
  "str_header q name = Option.bind (get_header q name) to_str"

fun split_char :: "char \<Rightarrow> string \<Rightarrow> string list" where
  "split_char c [] = [[]]"
| "split_char c (x # s) =
     (if x = c then [] # split_char c s
      else (case split_char c s of [] \<Rightarrow> [[x]] | a # rest \<Rightarrow> (x # a) # rest))"

definition eq_ignore_case :: "string \<Rightarrow> string \<Rightarrow> bool" where
  "eq_ignore_case a b \<longleftrightarrow> to_ascii_lowercase a = to_ascii_lowercase b"

subsection \<open>IP addresses\<close>

datatype ip_addr = V4 "nat list" | V6 "nat list"

definition is_loopback :: "ip_addr \<Rightarrow> bool" where
  "is_loopback ip = (case ip of V4 ds \<Rightarrow> hd ds = 127 | V6 gs \<Rightarrow> gs = [0, 0, 0, 0, 0, 0, 0, 1])"

text \<open>\<open>read_number\<close> of the standard parser: digits in a base, at most so many, within the limit.\<close>

definition hex_val :: "char \<Rightarrow> nat" where
  "hex_val c = (if is_ascii_digit c then byte c - 48 else byte (ascii_lower c) - 87)"

definition read_decimal :: "string \<Rightarrow> (nat \<times> string) option" where
  "read_decimal s =
     (let ds = takeWhile is_ascii_digit s; v = digits_val ds
      in if ds = [] \<or> 3 < length ds \<or> (hd ds = CHR ''0'' \<and> 1 < length ds) \<or> 255 < v then None
         else Some (v, drop (length ds) s))"

definition read_group :: "string \<Rightarrow> (nat \<times> string) option" where
  "read_group s =
     (let ds = takeWhile is_ascii_hexdigit s
      in if ds = [] \<or> 4 < length ds then None
         else Some (foldl (\<lambda>n c. 16 * n + hex_val c) 0 ds, drop (length ds) s))"

definition read_char :: "char \<Rightarrow> string \<Rightarrow> string option" where
  "read_char c s = (case s of [] \<Rightarrow> None | x # r \<Rightarrow> if x = c then Some r else None)"

definition read_separated :: "char \<Rightarrow> nat \<Rightarrow> (string \<Rightarrow> ('a \<times> string) option) \<Rightarrow> string \<Rightarrow> ('a \<times> string) option" where
  "read_separated c index f s = Option.bind (if index = 0 then Some s else read_char c s) f"

definition read_ipv4 :: "string \<Rightarrow> (nat list \<times> string) option" where
  "read_ipv4 s =
     Option.bind (read_separated CHR ''.'' 0 read_decimal s) (\<lambda>(a, s).
     Option.bind (read_separated CHR ''.'' 1 read_decimal s) (\<lambda>(b, s).
     Option.bind (read_separated CHR ''.'' 2 read_decimal s) (\<lambda>(c, s).
     Option.bind (read_separated CHR ''.'' 3 read_decimal s) (\<lambda>(d, s). Some ([a, b, c, d], s)))))"

text \<open>\<open>read_groups\<close>: groups of an IPv6 address up to a limit, the last two of which may be written as an
  IPv4 address; the second component says whether they were.\<close>

function read_groups :: "nat \<Rightarrow> nat \<Rightarrow> string \<Rightarrow> nat list \<times> bool \<times> string" where
  "read_groups index limit s =
     (if limit \<le> index then ([], False, s)
      else case (if index + 1 < limit then read_separated CHR '':'' index read_ipv4 s else None) of
        Some (ds, r) \<Rightarrow> ([ds ! 0 * 256 + ds ! 1, ds ! 2 * 256 + ds ! 3], True, r)
      | None \<Rightarrow>
          (case read_separated CHR '':'' index read_group s of
             None \<Rightarrow> ([], False, s)
           | Some (g, r) \<Rightarrow> (let (gs, v4, r') = read_groups (index + 1) limit r in (g # gs, v4, r'))))"
  by pat_completeness auto
termination by (relation "measure (\<lambda>(index, limit, s). limit - index)") auto

declare read_groups.simps [simp del]

definition read_ipv6 :: "string \<Rightarrow> (nat list \<times> string) option" where
  "read_ipv6 s =
     (case read_groups 0 8 s of (front, v4, r) \<Rightarrow>
        if length front = 8 then Some (front, r)
        else if v4 then None
        else Option.bind (read_char CHR '':'' r) (\<lambda>r. Option.bind (read_char CHR '':'' r) (\<lambda>r.
             case read_groups 0 (8 - (length front + 1)) r of (back, _, r') \<Rightarrow>
               Some (front @ replicate (8 - length front - length back) 0 @ back, r'))))"

definition parse_ip :: "string \<Rightarrow> ip_addr option" where
  "parse_ip s =
     (case (case read_ipv4 s of Some (ds, r) \<Rightarrow> Some (V4 ds, r) | None \<Rightarrow>
            (case read_ipv6 s of Some (gs, r) \<Rightarrow> Some (V6 gs, r) | None \<Rightarrow> None)) of
        Some (ip, []) \<Rightarrow> Some ip | _ \<Rightarrow> None)"

subsection \<open>The policy\<close>

record access_policy =
  ac_token :: "string option"
  ac_password_hash :: "string option"
  ac_public_origin :: "url_parts option"

definition local_only :: access_policy where
  "local_only = \<lparr>ac_token = None, ac_password_hash = None, ac_public_origin = None\<rparr>"

definition parse_origin :: "access_ext \<Rightarrow> string \<Rightarrow> string + url_parts" where
  "parse_origin X value =
     rbind (ok_or ''RVX_PUBLIC_ORIGIN must be an absolute HTTP(S) origin'' (parse_url X value)) (\<lambda>u.
     if up_scheme u \<notin> {''http'', ''https''} \<or> up_host u = None \<or> up_username u \<noteq> [] \<or> up_password u \<noteq> None
        \<or> up_path u \<noteq> ''/'' \<or> up_query u \<noteq> None \<or> up_fragment u \<noteq> None
     then Inl ''RVX_PUBLIC_ORIGIN must contain only HTTP(S) scheme, host, and optional port''
     else Inr u)"

definition is_ascii_graphic :: "char \<Rightarrow> bool" where
  "is_ascii_graphic c \<longleftrightarrow> 33 \<le> byte c \<and> byte c \<le> 126"

definition authenticated :: "access_ext \<Rightarrow> string \<Rightarrow> string option \<Rightarrow> string + access_policy" where
  "authenticated X token origin =
     (if \<not> (32 \<le> length token \<and> length token \<le> 256) \<or> \<not> list_all is_ascii_graphic token
      then Inl ''RVX_API_TOKEN must contain 32..256 printable ASCII characters without whitespace''
      else rbind (case origin of None \<Rightarrow> Inr None | Some v \<Rightarrow> rbind (parse_origin X v) (\<lambda>u. Inr (Some u))) (\<lambda>u.
           Inr \<lparr>ac_token = Some token, ac_password_hash = Some (sha256 X token), ac_public_origin = u\<rparr>))"

text \<open>\<open>std::env::var\<close>\<close>

datatype env_var = Present string | NotPresent | NotUnicode

definition optional_env :: "(string \<Rightarrow> env_var) \<Rightarrow> string \<Rightarrow> string + string option" where
  "optional_env env name =
     (case env name of
        Present v \<Rightarrow> Inr (Some v)
      | NotPresent \<Rightarrow> Inr None
      | NotUnicode \<Rightarrow> Inl (name @ '' must be valid Unicode''))"

definition from_env :: "access_ext \<Rightarrow> (string \<Rightarrow> env_var) \<Rightarrow> string + access_policy" where
  "from_env X env =
     rbind (optional_env env ''RVX_PUBLIC_ORIGIN'') (\<lambda>origin.
     rbind (optional_env env ''RVX_API_TOKEN'') (\<lambda>token.
     case token of
       Some t \<Rightarrow> authenticated X t origin
     | None \<Rightarrow> if origin \<noteq> None then Inl ''RVX_PUBLIC_ORIGIN requires RVX_API_TOKEN'' else Inr local_only))"

definition validate_listener :: "access_policy \<Rightarrow> ip_addr \<Rightarrow> string + unit" where
  "validate_listener P ip =
     ensure (\<not> (\<not> is_loopback ip \<and> ac_token P = None))
       ''non-loopback listeners require RVX_API_TOKEN; configure a protected environment file''"

definition password_matches :: "access_ext \<Rightarrow> access_policy \<Rightarrow> string \<Rightarrow> bool" where
  "password_matches X P candidate =
     (case ac_password_hash P of None \<Rightarrow> False | Some expected \<Rightarrow> sha256 X candidate = expected)"

definition keyed_digest :: "access_ext \<Rightarrow> access_policy \<Rightarrow> string \<Rightarrow> string \<Rightarrow> string option" where
  "keyed_digest X P domain message =
     (case ac_token P of None \<Rightarrow> None | Some token \<Rightarrow> Some (hmac_sha256 X token (domain @ message)))"

definition session_key_digest :: "access_ext \<Rightarrow> access_policy \<Rightarrow> string option" where
  "session_key_digest X P = keyed_digest X P (''rvx:session-key:v1'' @ [char_of (0::nat)]) []"

definition session_digest :: "access_ext \<Rightarrow> access_policy \<Rightarrow> string \<Rightarrow> string option" where
  "session_digest X P nonce = keyed_digest X P (''rvx:session-cookie:v1'' @ [char_of (0::nat)]) nonce"

text \<open>One cookie of a header: a second session cookie or a malformed one refuses the request.\<close>

definition read_cookie :: "string option \<Rightarrow> string \<Rightarrow> unit + string option" where
  "read_cookie nonce cookie =
     (case split_once ''='' (str_trim cookie) of
        None \<Rightarrow> Inr nonce
      | Some (name, value) \<Rightarrow>
          if name = ''rvx_session'' then
            if nonce \<noteq> None \<or> length value \<noteq> 64
               \<or> \<not> list_all (\<lambda>b. is_ascii_hexdigit b \<and> \<not> is_ascii_upper b) value
            then Inl () else Inr (Some value)
          else Inr nonce)"

definition read_cookies :: "string option \<Rightarrow> string \<Rightarrow> unit + string option" where
  "read_cookies nonce field =
     rbind (ok_or () (to_str field)) (\<lambda>s. try_fold read_cookie nonce (split_char CHR '';'' s))"

definition cookie_digest :: "access_ext \<Rightarrow> access_policy \<Rightarrow> request \<Rightarrow> string option" where
  "cookie_digest X P q =
     (case try_fold read_cookies None (get_all q ''cookie'') of
        Inl _ \<Rightarrow> None
      | Inr None \<Rightarrow> None
      | Inr (Some nonce) \<Rightarrow> session_digest X P nonce)"

definition secure_browser_cookie :: "access_policy \<Rightarrow> bool" where
  "secure_browser_cookie P = (case ac_public_origin P of None \<Rightarrow> False | Some u \<Rightarrow> up_scheme u = ''https'')"

definition basic_credential :: "access_ext \<Rightarrow> access_policy \<Rightarrow> string \<Rightarrow> bool" where
  "basic_credential X P credential =
     (case base64_decode X (str_trim credential) of
        None \<Rightarrow> False
      | Some decoded \<Rightarrow>
          (case split_at_char (\<lambda>c. c = CHR '':'') decoded of
             (_, None) \<Rightarrow> False
           | (user, Some password) \<Rightarrow> user = ''rvx'' \<and> password_matches X P password))"

definition authorized :: "access_ext \<Rightarrow> access_policy \<Rightarrow> request \<Rightarrow> bool" where
  "authorized X P q =
     (if ac_token P = None then True
      else case str_header q ''authorization'' of
        None \<Rightarrow> False
      | Some value \<Rightarrow>
          if 2048 < length value then False
          else (case split_once '' '' value of
            None \<Rightarrow> False
          | Some (scheme, credential) \<Rightarrow>
              if eq_ignore_case scheme ''Bearer'' then password_matches X P (str_trim credential)
              else if eq_ignore_case scheme ''Basic'' then
                \<not> list_ex (\<lambda>(n, _). starts_with ''sec-fetch-'' n) (rq_headers q) \<and> basic_credential X P credential
              else False))"

definition same_url_origin :: "string option \<Rightarrow> string option \<Rightarrow> bool" where
  "same_url_origin a b \<longleftrightarrow> a \<noteq> None \<and> a = b"

definition origin_matches :: "access_ext \<Rightarrow> string option \<Rightarrow> request \<Rightarrow> string \<Rightarrow> bool" where
  "origin_matches X expected q name =
     (case get_header q name of
        None \<Rightarrow> True
      | Some value \<Rightarrow>
          (case parse_url X (case to_str value of None \<Rightarrow> [] | Some s \<Rightarrow> s) of
             None \<Rightarrow> False
           | Some u \<Rightarrow> same_url_origin (up_origin u) expected))"

definition same_origin :: "access_ext \<Rightarrow> access_policy \<Rightarrow> request \<Rightarrow> url_parts \<Rightarrow> bool" where
  "same_origin X P q base =
     ((case get_header q ''sec-fetch-site'' of None \<Rightarrow> True | Some site \<Rightarrow> site = ''same-origin'' \<or> site = ''none'')
      \<and> (let expected = up_origin (case ac_public_origin P of None \<Rightarrow> base | Some u \<Rightarrow> u)
         in list_all (origin_matches X expected q) [''origin'', ''referer'']))"

definition required_origin :: "access_ext \<Rightarrow> access_policy \<Rightarrow> request \<Rightarrow> url_parts \<Rightarrow> bool" where
  "required_origin X P q base \<longleftrightarrow>
     length (get_all q ''origin'') = 1
     \<and> (case str_header q ''origin'' of None \<Rightarrow> False | Some v \<Rightarrow> is_ok (parse_origin X v))
     \<and> same_origin X P q base"

definition request_origin :: "access_ext \<Rightarrow> request \<Rightarrow> url_parts option" where
  "request_origin X q =
     Option.bind (str_header q ''host'') (\<lambda>host.
     Option.bind (parse_url X (''http://'' @ host)) (\<lambda>u.
     if up_host u \<noteq> None \<and> up_username u = [] \<and> up_password u = None \<and> up_path u = ''/''
        \<and> up_query u = None \<and> up_fragment u = None
     then Some u else None))"

definition trim_brackets :: "string \<Rightarrow> string" where
  "trim_brackets s = (let b = (\<lambda>c. c = CHR ''['' \<or> c = CHR '']'') in rev (dropWhile b (rev (dropWhile b s))))"

definition loopback_host :: "url_parts \<Rightarrow> bool" where
  "loopback_host u =
     (case up_host u of
        None \<Rightarrow> False
      | Some host \<Rightarrow> eq_ignore_case host ''localhost''
          \<or> (case parse_ip (trim_brackets host) of None \<Rightarrow> False | Some ip \<Rightarrow> is_loopback ip))"

subsection \<open>Login attempts\<close>

abbreviation (input) ATTEMPT_WINDOW :: nat where "ATTEMPT_WINDOW \<equiv> 60000000000"
abbreviation (input) MAX_ATTEMPTS :: nat where "MAX_ATTEMPTS \<equiv> 10"
abbreviation (input) MAX_PEERS :: nat where "MAX_PEERS \<equiv> 4096"

record attempt_window =
  aw_began :: nat
  aw_attempts :: nat

record login_throttle =
  lt_peers :: "(ip_addr option \<times> attempt_window) list"
  lt_cleanup_at :: "nat option"

definition empty_throttle :: login_throttle where
  "empty_throttle = \<lparr>lt_peers = [], lt_cleanup_at = None\<rparr>"

definition clean_peers :: "nat \<Rightarrow> login_throttle \<Rightarrow> login_throttle" where
  "clean_peers now l =
     (if (case lt_cleanup_at l of None \<Rightarrow> True | Some deadline \<Rightarrow> deadline \<le> now)
      then \<lparr>lt_peers = filter (\<lambda>(_, w). now - aw_began w < ATTEMPT_WINDOW) (lt_peers l),
            lt_cleanup_at = Some (now + ATTEMPT_WINDOW)\<rparr>
      else l)"

definition put_peer :: "ip_addr option \<Rightarrow> attempt_window \<Rightarrow> login_throttle \<Rightarrow> login_throttle" where
  "put_peer peer w l = l\<lparr>lt_peers := AList.update peer w (lt_peers l)\<rparr>"

definition attempt :: "ip_addr option \<Rightarrow> nat \<Rightarrow> login_throttle \<Rightarrow> nat option \<times> login_throttle" where
  "attempt peer now l =
     (let l = clean_peers now l in
      if map_of (lt_peers l) peer = None \<and> MAX_PEERS \<le> length (lt_peers l) then (Some 60, l)
      else let w = (case map_of (lt_peers l) peer of
                      Some w \<Rightarrow> w | None \<Rightarrow> \<lparr>aw_began = now, aw_attempts = 0\<rparr>);
               w = (if ATTEMPT_WINDOW \<le> now - aw_began w then \<lparr>aw_began = now, aw_attempts = 0\<rparr> else w)
           in if MAX_ATTEMPTS \<le> aw_attempts w
              then (Some (min 60 ((ATTEMPT_WINDOW - (now - aw_began w)) div 1000000000 + 1)), put_peer peer w l)
              else (None, put_peer peer (w\<lparr>aw_attempts := aw_attempts w + 1\<rparr>) l))"

subsection \<open>The decision\<close>

text \<open>
  The session found for a request: none, the digest of an active one, or a failed lookup. \<open>active\<close> is the
  lookup \<open>Engine::auth_session_active\<close> at the time of the request.
\<close>

definition cookie_session ::
  "access_ext \<Rightarrow> access_policy \<Rightarrow> (string \<Rightarrow> string \<Rightarrow> engine_error + bool) \<Rightarrow> request
   \<Rightarrow> engine_error + string option" where
  "cookie_session X P active q =
     (case (cookie_digest X P q, session_key_digest X P) of
        (Some digest, Some key) \<Rightarrow> rbind (active key digest) (\<lambda>ok. Inr (if ok then Some digest else None))
      | _ \<Rightarrow> Inr None)"

definition public_request :: "request \<Rightarrow> bool" where
  "public_request q \<longleftrightarrow>
     (rq_method q = ''GET'' \<and> rq_path q = ''/api/auth/session'')
     \<or> (rq_method q = ''POST'' \<and> rq_path q \<in> {''/api/auth/login'', ''/api/auth/logout''})
     \<or> (rq_method q \<in> {''GET'', ''HEAD''}
        \<and> (rq_path q \<in> {''/login'', ''/login/''} \<or> starts_with ''/login/assets/'' (rq_path q)))"

text \<open>
  \<open>parse::<f32>\<close> of a quality, tested for \<open>> 0\<close> and \<open>\<le> 1\<close>: the exact decimal, above half the least
  positive \<open>f32\<close> and at most half a step above one (ties go to the even neighbour). A minus sign, an
  infinity or NaN fails the test.
\<close>

definition quality_ok :: "string \<Rightarrow> bool" where
  "quality_ok s =
     (let t = (case s of c # r \<Rightarrow> if c = CHR ''+'' then r else s | [] \<Rightarrow> []);
          (mantissa, exponent) = split_at_char (\<lambda>c. c = CHR ''e'' \<or> c = CHR ''E'') t;
          (whole, fraction) = split_at_char (\<lambda>c. c = CHR ''.'') mantissa;
          frac = (case fraction of None \<Rightarrow> [] | Some f \<Rightarrow> f);
          e = (case exponent of None \<Rightarrow> Some 0 | Some x \<Rightarrow> parse_exponent x)
      in if whole @ frac \<noteq> [] \<and> all_digits (whole @ frac)
         then (case e of None \<Rightarrow> False
               | Some e \<Rightarrow> let r = of_nat (digits_val (whole @ frac)) * power_int 10 (e - int (length frac)) :: rat
                           in 1 / 2 ^ 150 < r \<and> r \<le> 1 + 1 / 2 ^ 24)
         else False)"

definition accepts_html :: "string \<Rightarrow> bool" where
  "accepts_html part =
     (case map str_trim (split_char CHR '';'' part) of
        [] \<Rightarrow> False
      | mime # parameters \<Rightarrow> eq_ignore_case mime ''text/html''
          \<and> list_all (\<lambda>p. case split_once ''='' p of
                Some (name, value) \<Rightarrow> eq_ignore_case (str_trim name) ''q'' \<longrightarrow> quality_ok (str_trim value)
              | None \<Rightarrow> True) parameters)"

definition navigation :: "request \<Rightarrow> bool" where
  "navigation q \<longleftrightarrow>
     get_header q ''sec-fetch-dest'' = Some ''document''
     \<or> (case str_header q ''accept'' of None \<Rightarrow> False
        | Some value \<Rightarrow> list_ex accepts_html (split_char CHR '','' value))"

definition login_redirect :: "access_ext \<Rightarrow> request \<Rightarrow> string option" where
  "login_redirect X q =
     (if rq_method q \<notin> {''GET'', ''HEAD''} \<or> \<not> navigation q
         \<or> \<not> (rq_path q \<in> {''/'', ''/rvx''} \<or> starts_with ''/rvx/'' (rq_path q))
      then None
      else Some (''/login?'' @ encode_next X (rq_path q
             @ (case rq_query q of None \<Rightarrow> [] | Some s \<Rightarrow> ''?'' @ s))))"

datatype verdict =
    Refused nat string
  | Throttled nat
  | Unavailable
  | Redirected string
  | Forwarded "string option"

definition auth_write :: "request \<Rightarrow> bool" where
  "auth_write q \<longleftrightarrow> rq_method q = ''POST'' \<and> rq_path q \<in> {''/api/auth/login'', ''/api/auth/logout''}"

definition check_login_shape :: "access_ext \<Rightarrow> access_policy \<Rightarrow> request \<Rightarrow> url_parts \<Rightarrow> verdict option" where
  "check_login_shape X P q base =
     (if auth_write q \<and> \<not> required_origin X P q base
      then Some (Refused 403 ''Authentication requests require the same-origin Origin header'')
      else if auth_write q \<and> rq_query q \<noteq> None
      then Some (Refused 400 ''Authentication requests must not use query parameters'')
      else None)"

definition check_target :: "access_ext \<Rightarrow> access_policy \<Rightarrow> request \<Rightarrow> url_parts \<Rightarrow> verdict option" where
  "check_target X P q base =
     (if rq_path q = ''/api/ui/connection'' \<and> rq_query q \<noteq> None
      then Some (Refused 400 ''WebSocket connection URL must not contain query parameters'')
      else if rq_path q = ''/api/ui/connection'' \<and> \<not> required_origin X P q base
      then Some (Refused 403 ''WebSocket requires the same-origin Origin header'')
      else if rq_method q \<notin> {''GET'', ''HEAD'', ''OPTIONS''} \<and> \<not> same_origin X P q base
      then Some (Refused 403 ''requests must use the same origin'')
      else None)"

definition admit_request ::
  "access_ext \<Rightarrow> access_policy \<Rightarrow> (string \<Rightarrow> string \<Rightarrow> engine_error + bool) \<Rightarrow> request \<Rightarrow> url_parts \<Rightarrow> verdict" where
  "admit_request X P active q base =
     (let on_session = (\<lambda>s. case check_target X P q base of Some v \<Rightarrow> v | None \<Rightarrow> Forwarded s)
      in if \<not> public_request q \<and> \<not> authorized X P q then
           (case cookie_session X P active q of
              Inr (Some digest) \<Rightarrow> on_session (Some digest)
            | Inr None \<Rightarrow>
                (case login_redirect X q of
                   Some location \<Rightarrow> Redirected location
                 | None \<Rightarrow> Refused 401 ''RVX authentication required'')
            | Inl _ \<Rightarrow> Unavailable)
         else on_session None)"

definition protect ::
  "access_ext \<Rightarrow> access_policy \<Rightarrow> (string \<Rightarrow> string \<Rightarrow> engine_error + bool) \<Rightarrow> ip_addr option \<Rightarrow> nat \<Rightarrow> request
   \<Rightarrow> login_throttle \<Rightarrow> verdict \<times> login_throttle" where
  "protect X P active peer now q l =
     (case request_origin X q of
        None \<Rightarrow> (Refused 403 ''invalid request host'', l)
      | Some base \<Rightarrow>
          if ac_token P = None \<and> \<not> loopback_host base
          then (Refused 403 ''unauthenticated access is limited to loopback hosts'', l)
          else (case check_login_shape X P q base of
            Some v \<Rightarrow> (v, l)
          | None \<Rightarrow>
              if rq_method q = ''POST'' \<and> rq_path q = ''/api/auth/login'' then
                (case attempt peer now l of
                   (Some delay, l') \<Rightarrow> (Throttled delay, l')
                 | (None, l') \<Rightarrow> (admit_request X P active q base, l'))
              else (admit_request X P active q base, l)))"

subsection \<open>Login, logout and session status\<close>

text \<open>\<open>AuthState::new\<close>: a policy with a password makes its key the current one.\<close>

definition start_auth :: "access_ext \<Rightarrow> access_policy \<Rightarrow> auth_tables \<Rightarrow> auth_tables" where
  "start_auth X P t = (case session_key_digest X P of None \<Rightarrow> t | Some key \<Rightarrow> configure_auth_sessions key t)"

datatype auth_reply =
    SessionStatus bool bool "string option"
  | InvalidInput
  | InvalidPassword
  | AuthUnavailable
  | LoggedOut string

definition session_cookie :: "string \<Rightarrow> int \<Rightarrow> bool \<Rightarrow> string" where
  "session_cookie nonce max_age secure =
     ''rvx_session='' @ nonce @ ''; HttpOnly; SameSite=Strict; Path=/; Max-Age='' @ show_int max_age
     @ (if secure then ''; Secure'' else [])"

definition session_status ::
  "access_ext \<Rightarrow> access_policy \<Rightarrow> (string \<Rightarrow> string \<Rightarrow> engine_error + bool) \<Rightarrow> request \<Rightarrow> auth_reply" where
  "session_status X P active q =
     (let needed = (ac_token P \<noteq> None)
      in if needed then
           (case cookie_session X P active q of
              Inl _ \<Rightarrow> AuthUnavailable
            | Inr s \<Rightarrow> SessionStatus (s \<noteq> None) needed None)
         else SessionStatus True needed None)"

text \<open>
  The body is \<open>None\<close> when it is not the JSON that the handler expects; \<open>nonce\<close> is the drawn one. \<open>fault\<close> is
  an error of SQLite or of the worker thread, if one occurs: the transaction is then rolled back.
\<close>

definition faulted :: "engine_error option \<Rightarrow> engine_error + 'a \<Rightarrow> engine_error + 'a" where
  "faulted fault result = (case fault of None \<Rightarrow> result | Some e \<Rightarrow> Inl e)"

definition login ::
  "access_ext \<Rightarrow> access_policy \<Rightarrow> engine_error option \<Rightarrow> int \<Rightarrow> string \<Rightarrow> request \<Rightarrow> string option \<Rightarrow> auth_tables
   \<Rightarrow> auth_reply \<times> auth_tables" where
  "login X P fault now nonce q body t =
     (case body of
        None \<Rightarrow> (InvalidInput, t)
      | Some password \<Rightarrow>
          if ac_token P = None then (SessionStatus True False None, t)
          else if \<not> password_matches X P password then (InvalidPassword, t)
          else (case (session_digest X P nonce, session_key_digest X P) of
                  (Some digest, Some key) \<Rightarrow>
                    (case faulted fault (create_auth_session now key digest (cookie_digest X P q) t) of
                       Inl _ \<Rightarrow> (AuthUnavailable, t)
                     | Inr t' \<Rightarrow> (SessionStatus True True
                         (Some (session_cookie nonce AUTH_SESSION_SECONDS (secure_browser_cookie P))), t'))
                | _ \<Rightarrow> (AuthUnavailable, t)))"

definition logout ::
  "access_ext \<Rightarrow> access_policy \<Rightarrow> engine_error option \<Rightarrow> request \<Rightarrow> auth_tables \<Rightarrow> auth_reply \<times> auth_tables" where
  "logout X P fault q t =
     (let cleared = LoggedOut (session_cookie [] 0 (secure_browser_cookie P))
      in case cookie_digest X P q of
           None \<Rightarrow> (cleared, t)
         | Some digest \<Rightarrow>
             (case faulted fault (Inr (revoke_auth_session digest t)) of
                Inl _ \<Rightarrow> (AuthUnavailable, t)
              | Inr t' \<Rightarrow> (cleared, t')))"

end
