(* ===== verification/Access_Props.thy ===== *)
theory Access_Props
  imports Access
begin

text \<open>
  Properties of the access boundary: what a request that reaches a handler has shown, how many login
  attempts a peer gets, and that a login opens and a logout closes the session of a cookie.
\<close>

section \<open>Login attempts over time\<close>

text \<open>A sequence of attempts, each with its peer and time, and the log of those that were permitted.\<close>

definition throttle_step ::
  "login_throttle \<times> (ip_addr option \<times> nat) list \<Rightarrow> ip_addr option \<times> nat \<Rightarrow> login_throttle \<times> (ip_addr option \<times> nat) list" where
  "throttle_step s x = (case attempt (fst x) (snd x) (fst s) of
     (delay, l) \<Rightarrow> (l, if delay = None then snd s @ [x] else snd s))"

definition throttle_run :: "(ip_addr option \<times> nat) list \<Rightarrow> login_throttle \<times> (ip_addr option \<times> nat) list" where
  "throttle_run xs = foldl throttle_step (empty_throttle, []) xs"

definition permitted :: "(ip_addr option \<times> nat) list \<Rightarrow> ip_addr option \<Rightarrow> nat list" where
  "permitted log_entries peer = map snd (filter (\<lambda>(p, _). p = peer) log_entries)"

definition count_from :: "nat list \<Rightarrow> nat \<Rightarrow> nat" where
  "count_from ts lo = length (filter (\<lambda>t. lo \<le> t) ts)"

definition count_in :: "nat list \<Rightarrow> nat \<Rightarrow> nat \<Rightarrow> nat" where
  "count_in ts lo hi = length (filter (\<lambda>t. lo \<le> t \<and> t < hi) ts)"

lemma count_from_snoc: "count_from (ts @ [now]) lo = count_from ts lo + (if lo \<le> now then 1 else 0)"
  by (simp add: count_from_def)

lemma count_in_snoc: "count_in (ts @ [now]) lo hi = count_in ts lo hi + (if lo \<le> now \<and> now < hi then 1 else 0)"
  by (simp add: count_in_def)

lemma length_filter_imp: "(\<And>t. t \<in> set ts \<Longrightarrow> P t \<Longrightarrow> Q t) \<Longrightarrow> length (filter P ts) \<le> length (filter Q ts)"
  by (induction ts) auto

lemma count_split: "count_in ts lo hi \<le> count_in ts lo b + count_from ts b"
  unfolding count_in_def count_from_def by (induction ts) auto

lemma count_in_le_from: "b \<le> lo \<Longrightarrow> count_in ts lo hi \<le> count_from ts b"
  unfolding count_in_def count_from_def by (rule length_filter_imp) simp

lemma count_in_mono: "lo \<le> lo' \<Longrightarrow> count_in ts lo' hi \<le> count_in ts lo hi"
  unfolding count_in_def by (rule length_filter_imp) simp

text \<open>
  \<open>rate_ok b ts\<close>: the window that began at \<open>b\<close> and the one before it saw at most ten permitted attempts
  each, and no span of a window's length saw more than twenty.
\<close>

definition rate_ok :: "nat \<Rightarrow> nat list \<Rightarrow> bool" where
  "rate_ok b ts \<longleftrightarrow> (\<forall>t \<in> set ts. t < b + ATTEMPT_WINDOW) \<and> count_from ts b \<le> MAX_ATTEMPTS
     \<and> count_in ts (b - ATTEMPT_WINDOW) b \<le> MAX_ATTEMPTS
     \<and> (\<forall>x. count_in ts x (x + ATTEMPT_WINDOW) \<le> 2 * MAX_ATTEMPTS)"

lemma rate_ok_within:
  assumes "rate_ok b ts" and "b \<le> now" and "now < b + ATTEMPT_WINDOW" and "count_from ts b < MAX_ATTEMPTS"
  shows "rate_ok b (ts @ [now])"
proof -
  have "count_in (ts @ [now]) x (x + ATTEMPT_WINDOW) \<le> 2 * MAX_ATTEMPTS" for x
  proof (cases "x \<le> now \<and> now < x + ATTEMPT_WINDOW")
    case True
    then have "b - ATTEMPT_WINDOW \<le> x" using assms(2) by linarith
    then have "count_in ts x b \<le> MAX_ATTEMPTS"
      using assms(1) count_in_mono [of "b - ATTEMPT_WINDOW" x ts b] by (simp add: rate_ok_def)
    with assms(4) count_split [of ts x "x + ATTEMPT_WINDOW" b] show ?thesis by (simp add: count_in_snoc)
  next
    case False
    then show ?thesis using assms(1) unfolding rate_ok_def count_in_snoc by auto
  qed
  then show ?thesis using assms by (simp add: rate_ok_def count_from_snoc count_in_snoc)
qed

lemma rate_ok_new:
  assumes "rate_ok b ts" and "b + ATTEMPT_WINDOW \<le> now"
  shows "rate_ok now (ts @ [now])" and "count_from ts now = 0"
proof -
  have old: "\<forall>t \<in> set ts. t < now" using assms by (auto simp: rate_ok_def)
  then have none: "filter (\<lambda>t. now \<le> t) ts = []" by (auto simp: filter_empty_conv)
  then show zero: "count_from ts now = 0" by (simp add: count_from_def)
  have before: "count_in ts x y \<le> MAX_ATTEMPTS" if "now < x + ATTEMPT_WINDOW \<or> now - ATTEMPT_WINDOW \<le> x" for x y
  proof -
    have "b \<le> x" using that assms(2) by auto
    with assms(1) count_in_le_from [of b x ts y] show ?thesis by (simp add: rate_ok_def)
  qed
  have "count_in (ts @ [now]) x (x + ATTEMPT_WINDOW) \<le> 2 * MAX_ATTEMPTS" for x
  proof (cases "x \<le> now \<and> now < x + ATTEMPT_WINDOW")
    case True
    with before [of x "x + ATTEMPT_WINDOW"] show ?thesis by (simp add: count_in_snoc)
  next
    case False
    then show ?thesis using assms(1) unfolding rate_ok_def count_in_snoc by auto
  qed
  moreover have "count_in ts (now - ATTEMPT_WINDOW) now \<le> MAX_ATTEMPTS" by (rule before) simp
  ultimately show "rate_ok now (ts @ [now])" using old zero
    by (auto simp: rate_ok_def count_from_snoc count_in_snoc)
qed

text \<open>The entry of a peer agrees with its permitted attempts; without an entry its last window is over.\<close>

definition peer_ok :: "nat \<Rightarrow> attempt_window option \<Rightarrow> nat list \<Rightarrow> bool" where
  "peer_ok last_time entry ts \<longleftrightarrow>
     (case entry of
        Some w \<Rightarrow> aw_began w \<le> last_time \<and> aw_attempts w = count_from ts (aw_began w) \<and> rate_ok (aw_began w) ts
      | None \<Rightarrow> ts = [] \<or> (\<exists>b. b + ATTEMPT_WINDOW \<le> last_time \<and> rate_ok b ts))"

lemma peer_ok_later: "peer_ok t entry ts \<Longrightarrow> t \<le> t' \<Longrightarrow> peer_ok t' entry ts"
  by (cases entry) (auto simp: peer_ok_def)

lemma rate_ok_first: "rate_ok now [now]"
  by (auto simp: rate_ok_def count_from_def count_in_def)

lemma peer_ok_new:
  assumes "peer_ok now None ts"
  shows "peer_ok now (Some \<lparr>aw_began = now, aw_attempts = 1\<rparr>) (ts @ [now])"
proof (cases "ts = []")
  case True
  then show ?thesis by (simp add: peer_ok_def rate_ok_first count_from_def)
next
  case False
  with assms obtain b where "rate_ok b ts" "b + ATTEMPT_WINDOW \<le> now" by (auto simp: peer_ok_def)
  from rate_ok_new [OF this] show ?thesis by (simp add: peer_ok_def count_from_snoc)
qed

lemma peer_ok_expired:
  "peer_ok now (Some w) ts \<Longrightarrow> ATTEMPT_WINDOW \<le> now - aw_began w \<Longrightarrow> peer_ok now None ts"
  unfolding peer_ok_def by (auto intro!: exI [of _ "aw_began w"])

text \<open>What the map lookup says of an attempt.\<close>

lemma clean_peers_get:
  assumes "distinct (map fst (lt_peers l))"
  shows "map_of (lt_peers (clean_peers now l)) p = map_of (lt_peers l) p
     \<or> (\<exists>w. map_of (lt_peers l) p = Some w \<and> ATTEMPT_WINDOW \<le> now - aw_began w
          \<and> map_of (lt_peers (clean_peers now l)) p = None)"
proof -
  have "map_of (filter (\<lambda>(_, w). now - aw_began w < ATTEMPT_WINDOW) xs) p =
      (case map_of xs p of Some w \<Rightarrow> if now - aw_began w < ATTEMPT_WINDOW then Some w else None | None \<Rightarrow> None)"
    if "distinct (map fst xs)" for xs :: "(ip_addr option \<times> attempt_window) list"
    using that
    by (induction xs) (auto split: option.splits simp: map_of_eq_None_iff dest: map_of_SomeD)
  from this [OF assms] show ?thesis
    by (auto simp: clean_peers_def not_less split: option.splits)
qed

lemma clean_peers_ok:
  "distinct (map fst (lt_peers l)) \<Longrightarrow> peer_ok now (map_of (lt_peers l) p) ts \<Longrightarrow>
   peer_ok now (map_of (lt_peers (clean_peers now l)) p) ts"
  using clean_peers_get [of l now p] peer_ok_expired by auto

lemma attempt_refused:
  assumes "attempt peer now l = (Some delay, l')"
  shows "l' = clean_peers now l \<or> (\<exists>w. map_of (lt_peers (clean_peers now l)) peer = Some w
     \<and> l' = put_peer peer w (clean_peers now l))"
  using assms by (auto simp: attempt_def Let_def split: option.splits if_splits)

lemma attempt_permitted:
  assumes "attempt peer now l = (None, l')"
  obtains w where "l' = put_peer peer w (clean_peers now l)"
    and "map_of (lt_peers (clean_peers now l)) peer \<noteq> None \<or> length (lt_peers (clean_peers now l)) < MAX_PEERS"
    and "(\<exists>v. map_of (lt_peers (clean_peers now l)) peer = Some v \<and> now - aw_began v < ATTEMPT_WINDOW
            \<and> aw_attempts v < MAX_ATTEMPTS \<and> w = v\<lparr>aw_attempts := aw_attempts v + 1\<rparr>)
       \<or> w = \<lparr>aw_began = now, aw_attempts = 1\<rparr>
         \<and> (\<forall>v. map_of (lt_peers (clean_peers now l)) peer = Some v \<longrightarrow> ATTEMPT_WINDOW \<le> now - aw_began v)"
  using assms by (auto simp: attempt_def Let_def not_le split: option.splits if_splits)

definition throttle_ok :: "nat \<Rightarrow> login_throttle \<times> (ip_addr option \<times> nat) list \<Rightarrow> bool" where
  "throttle_ok last_time s \<longleftrightarrow> distinct (map fst (lt_peers (fst s))) \<and> length (lt_peers (fst s)) \<le> MAX_PEERS
     \<and> (\<forall>p. peer_ok last_time (map_of (lt_peers (fst s)) p) (permitted (snd s) p))"

lemma length_map_fst: "length xs = length (map fst xs)"
  by simp

lemma put_peer_bounded:
  assumes "distinct (map fst (lt_peers l))" and "length (lt_peers l) \<le> MAX_PEERS"
    and "map_of (lt_peers l) peer \<noteq> None \<or> length (lt_peers l) < MAX_PEERS"
  shows "distinct (map fst (lt_peers (put_peer peer w l))) \<and> length (lt_peers (put_peer peer w l)) \<le> MAX_PEERS"
proof -
  have "map fst (AList.update peer w xs) = (if peer \<in> fst ` set xs then map fst xs else map fst xs @ [peer])"
    for xs :: "(ip_addr option \<times> attempt_window) list"
    by (simp add: update_keys)
  with assms show ?thesis
    by (subst length_map_fst) (auto simp: put_peer_def map_of_eq_None_iff distinct_update)
qed

lemma clean_peers_bounded:
  assumes "distinct (map fst (lt_peers l))" and "length (lt_peers l) \<le> MAX_PEERS"
  shows "distinct (map fst (lt_peers (clean_peers now l)))" and "length (lt_peers (clean_peers now l)) \<le> MAX_PEERS"
  using assms by (auto simp: clean_peers_def distinct_map_filter intro: order_trans [OF length_filter_le])

lemma put_peer_get: "map_of (lt_peers (put_peer peer w l)) p = (if p = peer then Some w else map_of (lt_peers l) p)"
  by (simp add: put_peer_def update_conv')

lemma permitted_snoc: "permitted (es @ [(p, t)]) q = permitted es q @ (if p = q then [t] else [])"
  by (simp add: permitted_def)

lemma throttle_step_ok:
  assumes "throttle_ok last_time (l, es)" and "last_time \<le> now"
  shows "throttle_ok now (throttle_step (l, es) (peer, now))"
proof -
  let ?l = "clean_peers now l"
  have b: "distinct (map fst (lt_peers ?l))" "length (lt_peers ?l) \<le> MAX_PEERS"
    using assms(1) clean_peers_bounded [of l now] by (simp_all add: throttle_ok_def)
  have pk: "peer_ok now (map_of (lt_peers ?l) p) (permitted es p)" for p
    using assms clean_peers_ok [of l now p] by (auto simp: throttle_ok_def intro: peer_ok_later)
  obtain r l' where a: "attempt peer now l = (r, l')" by (cases "attempt peer now l")
  show ?thesis
  proof (cases r)
    case (Some delay)
    from attempt_refused [OF a [unfolded Some]] show ?thesis
    proof
      assume "l' = ?l"
      then show ?thesis using b pk by (simp add: throttle_step_def a Some throttle_ok_def)
    next
      assume "\<exists>w. map_of (lt_peers ?l) peer = Some w \<and> l' = put_peer peer w ?l"
      then obtain w where w: "map_of (lt_peers ?l) peer = Some w" "l' = put_peer peer w ?l" by blast
      have "map_of (lt_peers l') p = map_of (lt_peers ?l) p" for p by (simp add: w put_peer_get)
      then show ?thesis using pk put_peer_bounded [OF b, of peer w] w
        by (simp add: throttle_step_def a Some throttle_ok_def)
    qed
  next
    case None
    from attempt_permitted [OF a [unfolded None]] obtain w where w: "l' = put_peer peer w ?l"
        "map_of (lt_peers ?l) peer \<noteq> None \<or> length (lt_peers ?l) < MAX_PEERS"
      and c: "(\<exists>v. map_of (lt_peers ?l) peer = Some v \<and> now - aw_began v < ATTEMPT_WINDOW
            \<and> aw_attempts v < MAX_ATTEMPTS \<and> w = v\<lparr>aw_attempts := aw_attempts v + 1\<rparr>)
       \<or> w = \<lparr>aw_began = now, aw_attempts = 1\<rparr>
         \<and> (\<forall>v. map_of (lt_peers ?l) peer = Some v \<longrightarrow> ATTEMPT_WINDOW \<le> now - aw_began v)" .
    have new: "peer_ok now (Some w) (permitted es peer @ [now])"
      using c
    proof (elim disjE exE conjE)
      fix v
      assume v: "map_of (lt_peers ?l) peer = Some v" "now - aw_began v < ATTEMPT_WINDOW"
        "aw_attempts v < MAX_ATTEMPTS" "w = v\<lparr>aw_attempts := aw_attempts v + 1\<rparr>"
      with pk [of peer] have "aw_began v \<le> now" "aw_attempts v = count_from (permitted es peer) (aw_began v)"
        "rate_ok (aw_began v) (permitted es peer)" by (simp_all add: peer_ok_def)
      with v show ?thesis
        using rate_ok_within [of "aw_began v" "permitted es peer" now] by (simp add: peer_ok_def count_from_snoc)
    next
      assume v: "w = \<lparr>aw_began = now, aw_attempts = 1\<rparr>"
        "\<forall>v. map_of (lt_peers ?l) peer = Some v \<longrightarrow> ATTEMPT_WINDOW \<le> now - aw_began v"
      have "peer_ok now None (permitted es peer)"
        using pk [of peer] v(2) by (cases "map_of (lt_peers ?l) peer") (auto intro: peer_ok_expired)
      then show ?thesis unfolding v(1) by (rule peer_ok_new)
    qed
    have "peer_ok now (map_of (lt_peers l') p) (permitted (es @ [(peer, now)]) p)" for p
      using new pk [of p] by (simp add: w(1) put_peer_get permitted_snoc)
    then show ?thesis using put_peer_bounded [OF b w(2), of w]
      by (simp add: throttle_step_def a None throttle_ok_def w(1))
  qed
qed

text \<open>
  C38. Login attempts are limited: over any sequence of attempts at non-decreasing times, no peer is
  permitted more than twenty attempts within any sixty seconds (ten in each of the at most two
  windows that such a span meets), and at most 4096 peers are remembered.
\<close>

theorem login_attempts_limited:
  assumes "sorted (map snd xs)"
  shows "count_in (permitted (snd (throttle_run xs)) peer) start (start + ATTEMPT_WINDOW) \<le> 20
     \<and> length (lt_peers (fst (throttle_run xs))) \<le> MAX_PEERS"
proof -
  have "throttle_ok (if xs = [] then 0 else snd (last xs)) (throttle_run xs)"
    using assms
  proof (induction xs rule: rev_induct)
    case Nil
    then show ?case by (simp add: throttle_run_def throttle_ok_def empty_throttle_def peer_ok_def permitted_def)
  next
    case (snoc x xs)
    have "throttle_ok (if xs = [] then 0 else snd (last xs)) (throttle_run xs)"
      using snoc by (simp add: sorted_append)
    moreover have "(if xs = [] then 0 else snd (last xs)) \<le> snd x"
      using snoc.prems by (auto simp: sorted_append)
    ultimately have "throttle_ok (snd x) (throttle_step (fst (throttle_run xs), snd (throttle_run xs)) (fst x, snd x))"
      by (intro throttle_step_ok) simp_all
    then show ?case by (simp add: throttle_run_def)
  qed
  then have "peer_ok (if xs = [] then 0 else snd (last xs)) (map_of (lt_peers (fst (throttle_run xs))) peer)
      (permitted (snd (throttle_run xs)) peer)" and "length (lt_peers (fst (throttle_run xs))) \<le> MAX_PEERS"
    unfolding throttle_ok_def by blast+
  moreover from this(1) have "count_in (permitted (snd (throttle_run xs)) peer) start (start + ATTEMPT_WINDOW) \<le> 20"
    by (auto simp: peer_ok_def rate_ok_def count_in_def split: option.splits)
  ultimately show ?thesis by blast
qed

theorem login_attempts_witness:
  "permitted (snd (throttle_run [(None, 1), (None, 2)])) None = [1, 2]
   \<and> count_in (permitted (snd (throttle_run [(None, 1), (None, 2)])) None) 0 ATTEMPT_WINDOW \<le> 20"
proof -
  have "sorted (map snd [(None :: ip_addr option, 1), (None, 2 :: nat)])" by simp
  from login_attempts_limited [OF this, of None 0] show ?thesis
    by (simp add: throttle_run_def throttle_step_def empty_throttle_def attempt_def clean_peers_def put_peer_def
        permitted_def)
qed

section \<open>Admission\<close>

text \<open>The lookup of a session in the tables, which may fail.\<close>

definition session_lookup ::
  "engine_error option \<Rightarrow> int \<Rightarrow> auth_tables \<Rightarrow> string \<Rightarrow> string \<Rightarrow> engine_error + bool" where
  "session_lookup fault now t key digest = faulted fault (Inr (auth_session_active now key digest t))"

text \<open>
  What happens to the session tables over the life of a data directory: the server starts with the
  environment of the moment (and exits when it is malformed), handles logins and handles logouts. The
  state is the policy in force and the tables.
\<close>

datatype access_event =
    Started "string \<Rightarrow> env_var"
  | LoginRequest "engine_error option" int string request "string option"
  | LogoutRequest "engine_error option" request

fun access_step :: "access_ext \<Rightarrow> access_policy \<times> auth_tables \<Rightarrow> access_event \<Rightarrow> access_policy \<times> auth_tables" where
  "access_step X (P, t) (Started env) =
     (case from_env X env of Inl _ \<Rightarrow> (P, t) | Inr P' \<Rightarrow> (P', start_auth X P' t))"
| "access_step X (P, t) (LoginRequest fault now nonce q body) = (P, snd (login X P fault now nonce q body t))"
| "access_step X (P, t) (LogoutRequest fault q) = (P, snd (logout X P fault q t))"

definition access_run :: "access_ext \<Rightarrow> access_event list \<Rightarrow> access_policy \<times> auth_tables" where
  "access_run X events = foldl (access_step X) (local_only, auth_initialize) events"

lemma access_run_snoc: "access_run X (events @ [ev]) = access_step X (access_run X events) ev"
  by (simp add: access_run_def)

lemma access_run_Nil [simp]: "access_run X [] = (local_only, auth_initialize)"
  by (simp add: access_run_def)

text \<open>Where a session comes from: a login that succeeded, after which nothing ended it.\<close>

definition opened_by :: "access_ext \<Rightarrow> access_event list \<Rightarrow> string \<Rightarrow> string \<Rightarrow> int \<Rightarrow> bool" where
  "opened_by X events key digest expires \<longleftrightarrow>
     (\<exists>before later begun nonce q password P t cookie t'.
        events = before @ [LoginRequest None begun nonce q (Some password)] @ later
        \<and> access_run X before = (P, t)
        \<and> login X P None begun nonce q (Some password) t = (SessionStatus True True (Some cookie), t')
        \<and> session_digest X P nonce = Some digest \<and> session_key_digest X P = Some key
        \<and> expires = begun + AUTH_SESSION_SECONDS
        \<and> (\<forall>mid r rest. later = mid @ [LogoutRequest None r] @ rest \<longrightarrow>
             cookie_digest X (fst (access_run X (before @ [LoginRequest None begun nonce q (Some password)] @ mid))) r
               \<noteq> Some digest)
        \<and> (\<forall>env P'. Started env \<in> set later \<longrightarrow> from_env X env = Inr P' \<longrightarrow>
             session_key_digest X P' \<in> {None, Some key}))"

lemma opened_by_snoc:
  assumes "opened_by X events key digest expires"
    and "\<And>r. ev = LogoutRequest None r \<Longrightarrow> cookie_digest X (fst (access_run X events)) r \<noteq> Some digest"
    and "\<And>env P'. ev = Started env \<Longrightarrow> from_env X env = Inr P' \<Longrightarrow> session_key_digest X P' \<in> {None, Some key}"
  shows "opened_by X (events @ [ev]) key digest expires"
proof -
  from assms(1) obtain before later begun nonce q password P t cookie t' where
    e: "events = before @ [LoginRequest None begun nonce q (Some password)] @ later"
    and l: "access_run X before = (P, t)"
      "login X P None begun nonce q (Some password) t = (SessionStatus True True (Some cookie), t')"
      "session_digest X P nonce = Some digest" "session_key_digest X P = Some key"
      "expires = begun + AUTH_SESSION_SECONDS"
    and out: "\<And>mid r rest. later = mid @ [LogoutRequest None r] @ rest \<Longrightarrow>
        cookie_digest X (fst (access_run X (before @ [LoginRequest None begun nonce q (Some password)] @ mid))) r
          \<noteq> Some digest"
    and k: "\<And>env P'. Started env \<in> set later \<Longrightarrow> from_env X env = Inr P' \<Longrightarrow>
        session_key_digest X P' \<in> {None, Some key}"
    unfolding opened_by_def by blast
  have "cookie_digest X (fst (access_run X (before @ [LoginRequest None begun nonce q (Some password)] @ mid))) r
          \<noteq> Some digest" if "later @ [ev] = mid @ [LogoutRequest None r] @ rest" for mid r rest
  proof (cases rest rule: rev_cases)
    case Nil
    with that assms(2) e show ?thesis by simp
  next
    case (snoc ys y)
    with that show ?thesis by (intro out [of mid r ys]) simp
  qed
  moreover have "session_key_digest X P' \<in> {None, Some key}"
    if "Started env \<in> set (later @ [ev])" "from_env X env = Inr P'" for env P'
    using that k assms(3) by fastforce
  ultimately show ?thesis unfolding opened_by_def
    by (intro exI [of _ before] exI [of _ "later @ [ev]"] exI [of _ begun] exI [of _ nonce] exI [of _ q]
        exI [of _ password] exI [of _ P] exI [of _ t] exI [of _ cookie] exI [of _ t'])
      (use e l in \<open>simp only: append_assoc, blast\<close>)
qed

lemma login_cases:
  "login X P fault now nonce q body t = (reply, t') \<Longrightarrow>
   t' = t \<or> (\<exists>password digest key. body = Some password \<and> fault = None \<and> password_matches X P password
     \<and> session_digest X P nonce = Some digest \<and> session_key_digest X P = Some key
     \<and> create_auth_session now key digest (cookie_digest X P q) t = Inr t'
     \<and> reply = SessionStatus True True
         (Some (session_cookie nonce AUTH_SESSION_SECONDS (secure_browser_cookie P))))"
  by (auto simp: login_def faulted_def split: option.splits if_splits sum.splits)

lemma session_opened:
  "(digest, e) \<in> set (at_sessions (snd (access_run X events))) \<Longrightarrow>
   \<exists>key. at_key (snd (access_run X events)) = Some key \<and> opened_by X events key digest e"
proof (induction events arbitrary: digest e rule: rev_induct)
  case Nil
  then show ?case by (simp add: auth_initialize_def)
next
  case (snoc ev events)
  obtain P t where run: "access_run X events = (P, t)" by (cases "access_run X events")
  have old: "\<exists>key. at_key t = Some key \<and> opened_by X (events @ [ev]) key digest e"
    if "(digest, e) \<in> set (at_sessions t)" "\<And>r. ev = LogoutRequest None r \<Longrightarrow> cookie_digest X P r \<noteq> Some digest"
      "\<And>env P' key. ev = Started env \<Longrightarrow> from_env X env = Inr P' \<Longrightarrow> at_key t = Some key \<Longrightarrow>
         session_key_digest X P' \<in> {None, Some key}"
  proof -
    from snoc.IH [of digest e] that(1) obtain key where k: "at_key t = Some key" "opened_by X events key digest e"
      by (auto simp: run)
    then have "opened_by X (events @ [ev]) key digest e"
      by (intro opened_by_snoc) (use that k run in auto)
    with k(1) show ?thesis by blast
  qed
  show ?case
  proof (cases ev)
    case (Started env)
    have "snd (access_run X (events @ [ev])) = (case from_env X env of Inl _ \<Rightarrow> t | Inr P' \<Rightarrow> start_auth X P' t)"
      by (simp add: Started access_run_snoc run split: sum.splits)
    with snoc.prems have "(digest, e) \<in> set (at_sessions t) \<and> at_key (snd (access_run X (events @ [ev]))) = at_key t
        \<and> (\<forall>P' key. from_env X env = Inr P' \<longrightarrow> at_key t = Some key \<longrightarrow> session_key_digest X P' \<in> {None, Some key})"
      by (auto simp: start_auth_def configure_auth_sessions_def split: sum.splits option.splits if_splits)
    with old show ?thesis by (simp add: Started)
  next
    case (LogoutRequest fault r)
    have "(digest, e) \<in> set (at_sessions t) \<and> at_key (snd (access_run X (events @ [ev]))) = at_key t
        \<and> (fault = None \<longrightarrow> cookie_digest X P r \<noteq> Some digest)"
      using snoc.prems
      by (auto simp: LogoutRequest access_run_snoc run logout_def faulted_def revoke_auth_session_def Let_def
          split: option.splits sum.splits)
    with old show ?thesis by (simp add: LogoutRequest)
  next
    case (LoginRequest fault now nonce q body)
    obtain reply t' where l: "login X P fault now nonce q body t = (reply, t')"
      by (cases "login X P fault now nonce q body t")
    have run': "snd (access_run X (events @ [ev])) = t'" by (simp add: LoginRequest access_run_snoc run l)
    from login_cases [OF l] show ?thesis
    proof (elim disjE exE conjE)
      assume "t' = t"
      with snoc.prems old show ?thesis unfolding run' by (simp add: LoginRequest)
    next
      fix password d key
      assume ok: "body = Some password" "fault = None" "password_matches X P password"
        "session_digest X P nonce = Some d" "session_key_digest X P = Some key"
        "create_auth_session now key d (cookie_digest X P q) t = Inr t'"
        "reply = SessionStatus True True (Some (session_cookie nonce AUTH_SESSION_SECONDS (secure_browser_cookie P)))"
      then have key: "at_key t' = at_key t" "at_key t = Some key" by (auto simp: create_auth_session_Inr)
      show ?thesis
      proof (cases "(digest, e) \<in> set (at_sessions t)")
        case True
        with old key show ?thesis unfolding run' by (simp add: LoginRequest)
      next
        case False
        with snoc.prems ok(6) have "digest = d" "e = now + AUTH_SESSION_SECONDS"
          unfolding run' by (auto simp: create_auth_session_Inr set_live_sessions)
        moreover have "opened_by X (events @ [ev]) key d (now + AUTH_SESSION_SECONDS)"
          unfolding opened_by_def using l ok run
          by (intro exI [of _ events] exI [of _ "[] :: access_event list"] exI [of _ now] exI [of _ nonce] exI [of _ q]
              exI [of _ password] exI [of _ P] exI [of _ t] exI [of _ t']
              exI [of _ "session_cookie nonce AUTH_SESSION_SECONDS (secure_browser_cookie P)"])
            (simp add: LoginRequest)
        ultimately show ?thesis by (simp add: run' key)
      qed
    qed
  qed
qed

text \<open>A policy comes from the environment: the stored hash is the hash of the configured password.\<close>

lemma policy_password:
  "ac_token (fst (access_run X events)) = Some token \<Longrightarrow>
   ac_password_hash (fst (access_run X events)) = Some (sha256 X token)
   \<and> 32 \<le> length token \<and> length token \<le> 256"
proof (induction events arbitrary: token rule: rev_induct)
  case Nil
  then show ?case by (simp add: local_only_def)
next
  case (snoc ev events)
  obtain P t where run: "access_run X events = (P, t)" by (cases "access_run X events")
  show ?case
  proof (cases ev)
    case (Started env)
    with snoc run show ?thesis
      by (auto simp: access_run_snoc from_env_def authenticated_def local_only_def rbind_def
          split: sum.splits option.splits if_splits)
  qed (use snoc run in \<open>auto simp: access_run_snoc\<close>)
qed

lemma cookie_session_Some:
  "cookie_session X P (session_lookup fault now t) q = Inr (Some digest) \<longleftrightarrow>
     fault = None \<and> cookie_digest X P q = Some digest
     \<and> (\<exists>key. session_key_digest X P = Some key \<and> auth_session_active now key digest t)"
  by (auto simp: cookie_session_def session_lookup_def faulted_def split: option.splits)

lemma login_shape_refuses: "check_login_shape X P q base \<noteq> Some (Forwarded s)"
  by (simp add: check_login_shape_def)

lemma admit_request_forwarded:
  assumes "admit_request X P active q base = Forwarded s"
  shows "check_target X P q base = None
     \<and> (s = None \<and> (public_request q \<or> authorized X P q)
        \<or> (\<exists>digest. s = Some digest \<and> cookie_session X P active q = Inr (Some digest)))"
  using assms
  by (auto simp: admit_request_def Let_def check_target_def split: if_splits sum.splits option.splits)

lemma split_once_space: "split_once '' '' s = Some (a, b) \<Longrightarrow> CHR '' '' \<notin> set a"
  by (induction s arbitrary: a) (auto simp: starts_with_def split: if_splits)

lemma split_at_char_parts: "split_at_char f s = (a, Some b) \<Longrightarrow> \<exists>c. f c \<and> s = a @ c # b"
proof (induction s arbitrary: a)
  case (Cons x s)
  then show ?case by (cases "split_at_char f s") (auto split: if_splits)
qed simp

text \<open>What an \<open>Authorization\<close> header that is accepted must contain.\<close>

lemma authorized_header:
  assumes "authorized X P q" and "ac_token P = Some token" and "ac_password_hash P = Some (sha256 X token)"
  shows "\<exists>scheme credential. get_header q ''authorization'' = Some (scheme @ '' '' @ credential)
     \<and> CHR '' '' \<notin> set scheme \<and> length (scheme @ '' '' @ credential) \<le> 2048
     \<and> (to_ascii_lowercase scheme = ''bearer'' \<and> sha256 X (str_trim credential) = sha256 X token
        \<or> to_ascii_lowercase scheme = ''basic''
          \<and> list_all (\<lambda>(n, _). \<not> starts_with ''sec-fetch-'' n) (rq_headers q)
          \<and> (\<exists>password. base64_decode X (str_trim credential) = Some (''rvx:'' @ password)
                \<and> sha256 X password = sha256 X token))"
proof -
  have lower: "to_ascii_lowercase ''Bearer'' = ''bearer''" "to_ascii_lowercase ''Basic'' = ''basic''" by code_simp+
  from assms(1,2) obtain hv scheme credential where h: "str_header q ''authorization'' = Some hv"
      "length hv \<le> 2048" "split_once '' '' hv = Some (scheme, credential)"
    by (auto simp: authorized_def not_less split: option.splits if_splits prod.splits)
  have v: "get_header q ''authorization'' = Some hv"
    using h(1) by (auto simp: str_header_def to_str_def bind_eq_Some_conv split: if_splits)
  note parts = split_once_append [OF h(3)] split_once_space [OF h(3)]
  have "eq_ignore_case scheme ''Bearer'' \<and> password_matches X P (str_trim credential)
      \<or> eq_ignore_case scheme ''Basic'' \<and> \<not> list_ex (\<lambda>(n, _). starts_with ''sec-fetch-'' n) (rq_headers q)
        \<and> basic_credential X P credential"
    using assms(1,2) h by (auto simp: authorized_def split: if_splits)
  then have "to_ascii_lowercase scheme = ''bearer'' \<and> sha256 X (str_trim credential) = sha256 X token
      \<or> to_ascii_lowercase scheme = ''basic''
        \<and> list_all (\<lambda>(n, _). \<not> starts_with ''sec-fetch-'' n) (rq_headers q)
        \<and> (\<exists>password. base64_decode X (str_trim credential) = Some (''rvx:'' @ password)
              \<and> sha256 X password = sha256 X token)"
  proof (elim disjE conjE)
    assume "eq_ignore_case scheme ''Basic''" "basic_credential X P credential"
      and n: "\<not> list_ex (\<lambda>(n, _). starts_with ''sec-fetch-'' n) (rq_headers q)"
    moreover from this(2) obtain decoded password where d: "base64_decode X (str_trim credential) = Some decoded"
        "split_at_char (\<lambda>c. c = CHR '':'') decoded = (''rvx'', Some password)" "password_matches X P password"
      by (auto simp: basic_credential_def split: option.splits prod.splits)
    moreover have "decoded = ''rvx:'' @ password" using split_at_char_parts [OF d(2)] by auto
    ultimately show ?thesis
      by (auto simp: eq_ignore_case_def lower password_matches_def assms(3) list_all_iff list_ex_iff)
  next
    assume "eq_ignore_case scheme ''Bearer''" "password_matches X P (str_trim credential)"
    then show ?thesis by (simp add: eq_ignore_case_def lower password_matches_def assms(3))
  qed
  then show ?thesis using v h(2) parts by auto
qed

lemma same_origin_headers:
  assumes "same_origin X P q base" and "name \<in> {''origin'', ''referer''}" and "get_header q name = Some v"
  shows "\<exists>u. parse_url X (case to_str v of None \<Rightarrow> [] | Some s \<Rightarrow> s) = Some u \<and> up_origin u \<noteq> None
     \<and> up_origin u = up_origin (case ac_public_origin P of None \<Rightarrow> base | Some o' \<Rightarrow> o')"
proof -
  have "origin_matches X (up_origin (case ac_public_origin P of None \<Rightarrow> base | Some o' \<Rightarrow> o')) q name"
    using assms(1,2) by (auto simp: same_origin_def Let_def)
  then obtain u where "parse_url X (case to_str v of None \<Rightarrow> [] | Some s \<Rightarrow> s) = Some u"
      "same_url_origin (up_origin u) (up_origin (case ac_public_origin P of None \<Rightarrow> base | Some o' \<Rightarrow> o'))"
    using assms(3) unfolding origin_matches_def by (simp split: option.splits)
  then show ?thesis unfolding same_url_origin_def by blast
qed

lemma get_all_first: "get_all q name = v # vs \<Longrightarrow> get_header q name = Some v"
proof -
  have "map snd (filter (\<lambda>(n, _). n = name) hs) = v # vs \<Longrightarrow> map_of hs name = Some v" for hs
    by (induction hs) (auto split: if_splits)
  then show "get_all q name = v # vs \<Longrightarrow> get_header q name = Some v" unfolding get_all_def get_header_def .
qed

lemma required_origin_header:
  assumes "required_origin X P q base"
  shows "\<exists>v u. get_all q ''origin'' = [v] \<and> parse_url X v = Some u \<and> up_scheme u \<in> {''http'', ''https''}
     \<and> up_origin u \<noteq> None
     \<and> up_origin u = up_origin (case ac_public_origin P of None \<Rightarrow> base | Some o' \<Rightarrow> o')"
proof -
  from assms obtain v where v: "get_all q ''origin'' = [v]"
    by (auto simp: required_origin_def length_Suc_conv)
  note first = get_all_first [OF v]
  from assms obtain w where w: "str_header q ''origin'' = Some w" "is_ok (parse_origin X w)"
    by (auto simp: required_origin_def split: option.splits)
  with first have str: "to_str v = Some v" "w = v"
    by (auto simp: str_header_def to_str_def split: if_splits)
  obtain u where "parse_url X v = Some u" "up_scheme u \<in> {''http'', ''https''}"
    using w(2) str(2) by (auto simp: parse_origin_def is_ok_def rbind_def ok_or_def split: sum.splits option.splits if_splits)
  moreover have so: "same_origin X P q base" using assms by (simp add: required_origin_def)
  have "''origin'' \<in> {''origin'', ''referer''}" by simp
  from same_origin_headers [OF so this first] obtain u'
    where "parse_url X (case to_str v of None \<Rightarrow> [] | Some s \<Rightarrow> s) = Some u'" "up_origin u' \<noteq> None"
      "up_origin u' = up_origin (case ac_public_origin P of None \<Rightarrow> base | Some o' \<Rightarrow> o')"
    by (elim exE conjE) (rule that)
  ultimately show ?thesis
    by (intro exI [of _ v] exI [of _ u'] conjI v) (simp_all only: str option.case option.inject not_False_eq_True)
qed

text \<open>
  C37. A request reaches a handler only with credentials. Its host is well-formed. Without a configured
  password the host is a loopback host. With one, either the path is public; or the first
  Authorization header, of at most 2048 bytes, is a Bearer credential that has the hash of the
  configured password, or a Basic credential of the user \<open>rvx\<close> whose password has that hash, in a
  request without Fetch metadata; or the session cookie names a session that a login request with that
  password opened, less than seven days ago, which no logout request and no start of the server under
  another password ended. A request that may change something comes from the server's own origin as
  far as its headers say, WebSockets and login requests carry exactly one Origin header, of that
  origin, and a login is within its limit.
\<close>

theorem admission_requires_credentials:
  assumes "access_run X events = (P, t)"
    and "protect X P (session_lookup fault now t) peer instant q l = (Forwarded s, l')"
  shows "\<exists>base. request_origin X q = Some base
     \<and> (case ac_token P of
          None \<Rightarrow> loopback_host base \<and> s = None
        | Some token \<Rightarrow>
            s = None \<and> public_request q
            \<or> s = None \<and> (\<exists>scheme credential. get_header q ''authorization'' = Some (scheme @ '' '' @ credential)
                \<and> CHR '' '' \<notin> set scheme \<and> length (scheme @ '' '' @ credential) \<le> 2048
                \<and> (to_ascii_lowercase scheme = ''bearer'' \<and> sha256 X (str_trim credential) = sha256 X token
                   \<or> to_ascii_lowercase scheme = ''basic''
                     \<and> list_all (\<lambda>(n, _). \<not> starts_with ''sec-fetch-'' n) (rq_headers q)
                     \<and> (\<exists>password. base64_decode X (str_trim credential) = Some (''rvx:'' @ password)
                           \<and> sha256 X password = sha256 X token)))
            \<or> (\<exists>digest key before later begun nonce q' password P' token' t0 cookie t1.
                s = Some digest \<and> cookie_digest X P q = Some digest
                \<and> session_key_digest X P = Some key \<and> session_key_digest X P' = Some key
                \<and> events = before @ [LoginRequest None begun nonce q' (Some password)] @ later
                \<and> access_run X before = (P', t0)
                \<and> login X P' None begun nonce q' (Some password) t0 = (SessionStatus True True (Some cookie), t1)
                \<and> ac_token P' = Some token' \<and> sha256 X password = sha256 X token'
                \<and> session_digest X P' nonce = Some digest
                \<and> now < begun + AUTH_SESSION_SECONDS
                \<and> (\<forall>mid r rest. later = mid @ [LogoutRequest None r] @ rest \<longrightarrow>
                     cookie_digest X (fst (access_run X
                       (before @ [LoginRequest None begun nonce q' (Some password)] @ mid))) r \<noteq> Some digest)
                \<and> (\<forall>env P''. Started env \<in> set later \<longrightarrow> from_env X env = Inr P'' \<longrightarrow>
                     session_key_digest X P'' \<in> {None, Some key})))
     \<and> (rq_method q \<notin> {''GET'', ''HEAD'', ''OPTIONS''} \<longrightarrow>
          get_header q ''sec-fetch-site'' \<in> {None, Some ''same-origin'', Some ''none''}
          \<and> (\<forall>name v. name \<in> {''origin'', ''referer''} \<longrightarrow> get_header q name = Some v \<longrightarrow>
               (\<exists>u. parse_url X (case to_str v of None \<Rightarrow> [] | Some s \<Rightarrow> s) = Some u \<and> up_origin u \<noteq> None
                  \<and> up_origin u = up_origin (case ac_public_origin P of None \<Rightarrow> base | Some o' \<Rightarrow> o'))))
     \<and> (rq_path q = ''/api/ui/connection'' \<or> auth_write q \<longrightarrow>
          (\<exists>v u. get_all q ''origin'' = [v] \<and> parse_url X v = Some u \<and> up_scheme u \<in> {''http'', ''https''}
             \<and> up_origin u \<noteq> None
             \<and> up_origin u = up_origin (case ac_public_origin P of None \<Rightarrow> base | Some o' \<Rightarrow> o')))
     \<and> (rq_method q = ''POST'' \<and> rq_path q = ''/api/auth/login'' \<longrightarrow> fst (attempt peer instant l) = None)"
proof -
  from assms(2) obtain base where base: "request_origin X q = Some base" "ac_token P = None \<longrightarrow> loopback_host base"
      "check_login_shape X P q base = None"
      and adm: "admit_request X P (session_lookup fault now t) q base = Forwarded s"
      and att: "rq_method q = ''POST'' \<and> rq_path q = ''/api/auth/login'' \<longrightarrow> fst (attempt peer instant l) = None"
    using login_shape_refuses [of X P q]
    by (auto simp: protect_def split: option.splits if_splits prod.splits)
  from admit_request_forwarded [OF adm] have target: "check_target X P q base = None"
    and cred: "s = None \<and> (public_request q \<or> authorized X P q)
      \<or> (\<exists>digest. s = Some digest \<and> cookie_session X P (session_lookup fault now t) q = Inr (Some digest))"
    by auto
  have m: "rq_method q \<notin> {''GET'', ''HEAD'', ''OPTIONS''} \<Longrightarrow> same_origin X P q base"
    using target by (auto simp: check_target_def split: if_splits)
  have w: "rq_path q = ''/api/ui/connection'' \<or> auth_write q \<Longrightarrow> required_origin X P q base"
    using target base(3) by (auto simp: check_target_def check_login_shape_def split: if_splits)
  have site: "same_origin X P q base \<Longrightarrow> get_header q ''sec-fetch-site'' \<in> {None, Some ''same-origin'', Some ''none''}"
    by (auto simp: same_origin_def split: option.splits)
  have sess: "\<exists>key. session_key_digest X P = Some key \<and> cookie_digest X P q = Some digest
      \<and> (\<exists>e. opened_by X events key digest e \<and> now < e)"
    if c: "cookie_session X P (session_lookup fault now t) q = Inr (Some digest)" for digest
  proof -
    from c obtain key where k: "cookie_digest X P q = Some digest" "session_key_digest X P = Some key"
        "auth_session_active now key digest t"
      by (auto simp: cookie_session_Some)
    then obtain e where "(digest, e) \<in> set (at_sessions t)" "now < e" "at_key t = Some key"
      by (auto simp: auth_session_active_def list_ex_iff)
    with session_opened [of digest e X events] k show ?thesis by (auto simp: assms(1))
  qed
  have pw: "\<exists>token'. ac_token P' = Some token' \<and> sha256 X password = sha256 X token'"
    if "access_run X before = (P', t0)"
      "login X P' None begun nonce q' (Some password) t0 = (SessionStatus True True (Some cookie), t1)"
    for before P' t0 begun nonce q' password cookie t1
    using that policy_password [of X before]
    by (auto simp: login_def password_matches_def split: if_splits option.splits)
  show ?thesis
  proof (rule exI [of _ base], intro conjI impI allI, goal_cases)
    case 2
    show ?case
      using cred
    proof (elim disjE exE conjE)
      assume "s = None" "authorized X P q"
      then show ?thesis
        using base(2) authorized_header policy_password [of X events] assms(1)
        by (auto split: option.splits)
    next
      fix digest assume s: "s = Some digest" "cookie_session X P (session_lookup fault now t) q = Inr (Some digest)"
      from sess [OF s(2)] obtain key e where k: "session_key_digest X P = Some key" "cookie_digest X P q = Some digest"
        and o: "opened_by X events key digest e" "now < e" by blast
      from k(1) obtain token where token: "ac_token P = Some token"
        by (auto simp: session_key_digest_def keyed_digest_def split: option.splits)
      from o(1) obtain before later begun nonce q' password P' t0 cookie t1 where
        opened: "events = before @ [LoginRequest None begun nonce q' (Some password)] @ later"
        "access_run X before = (P', t0)"
        "login X P' None begun nonce q' (Some password) t0 = (SessionStatus True True (Some cookie), t1)"
        "session_digest X P' nonce = Some digest" "session_key_digest X P' = Some key"
        "e = begun + AUTH_SESSION_SECONDS"
        "\<forall>mid r rest. later = mid @ [LogoutRequest None r] @ rest \<longrightarrow>
             cookie_digest X (fst (access_run X (before @ [LoginRequest None begun nonce q' (Some password)] @ mid))) r
               \<noteq> Some digest"
        "\<forall>env P'. Started env \<in> set later \<longrightarrow> from_env X env = Inr P' \<longrightarrow>
             session_key_digest X P' \<in> {None, Some key}"
        unfolding opened_by_def by (elim exE conjE) (rule that)
      from pw [OF opened(2,3)] obtain token' where pass: "ac_token P' = Some token'" "sha256 X password = sha256 X token'"
        by blast
      have age: "now < begun + AUTH_SESSION_SECONDS" using o(2) opened(6) by simp
      show ?thesis unfolding token option.case
        by (intro disjI2 exI [of _ digest] exI [of _ key] exI [of _ before] exI [of _ later] exI [of _ begun]
            exI [of _ nonce] exI [of _ q'] exI [of _ password] exI [of _ P'] exI [of _ token'] exI [of _ t0]
            exI [of _ cookie] exI [of _ t1] conjI) (fact s(1) k opened pass age)+
    qed (use base(2) in \<open>auto split: option.splits\<close>)
  next
    case 1
    show ?case by (rule base(1))
  next
    case 3
    then show ?case by (rule site [OF m])
  next
    case (4 name v)
    then show ?case using same_origin_headers [OF m] by simp
  next
    case 5
    then show ?case by (rule required_origin_header [OF w])
  next
    case 6
    with att show ?case by simp
  qed
qed

text \<open>Libraries and requests for the witnesses.\<close>

definition demo_access :: access_ext where
  "demo_access = \<lparr>
     parse_url = (\<lambda>s. if starts_with ''http://'' s then Some \<lparr>up_scheme = ''http'', up_host = Some (drop 7 s),
         up_username = [], up_password = None, up_path = ''/'', up_query = None, up_fragment = None,
         up_origin = Some s\<rparr> else None),
     sha256 = (\<lambda>s. s), hmac_sha256 = (\<lambda>k m. k @ m), base64_decode = Some, encode_next = (\<lambda>s. ''next='' @ s)\<rparr>"

definition demo_policy :: access_policy where
  "demo_policy = \<lparr>ac_token = Some (replicate 32 CHR ''k''), ac_password_hash = Some (replicate 32 CHR ''k''),
     ac_public_origin = None\<rparr>"

definition demo_env :: "string \<Rightarrow> env_var" where
  "demo_env name = (if name = ''RVX_API_TOKEN'' then Present (replicate 32 CHR ''k'') else NotPresent)"

lemma demo_started: "access_run demo_access [Started demo_env] = (demo_policy, start_auth demo_access demo_policy auth_initialize)"
  by (simp add: access_run_def from_env_def optional_env_def demo_env_def authenticated_def is_ascii_graphic_def
      list_all_iff rbind_def byte_def demo_policy_def demo_access_def)

definition demo_nonce :: string where
  "demo_nonce = replicate 64 CHR ''a''"

definition demo_request :: "string \<Rightarrow> string \<Rightarrow> (string \<times> string) list \<Rightarrow> request" where
  "demo_request method path hs = \<lparr>rq_method = method, rq_path = path, rq_query = None,
     rq_headers = (''host'', ''h'') # hs\<rparr>"

definition demo_cookie :: string where
  "demo_cookie = ''rvx_session='' @ demo_nonce"

lemma demo_bearer:
  "protect demo_access demo_policy (session_lookup None 5 (snd (access_run demo_access [Started demo_env]))) None 0
     (demo_request ''GET'' ''/api/runs'' [(''authorization'', ''Bearer '' @ replicate 32 CHR ''k'')]) empty_throttle
   = (Forwarded None, empty_throttle)"
  by (simp add: protect_def request_origin_def str_header_def get_header_def demo_request_def to_str_def byte_def
      demo_access_def demo_policy_def starts_with_def check_login_shape_def auth_write_def admit_request_def public_request_def
      authorized_def eq_ignore_case_def to_ascii_lowercase_def ascii_lower_def is_ascii_upper_def
      password_matches_def check_target_def str_trim_def trim_start.simps trim_rev.simps ws1_def ws2_def ws3_def
      numeral_eq_Suc)

theorem admission_witness:
  "\<exists>base. request_origin demo_access
      (demo_request ''GET'' ''/api/runs'' [(''authorization'', ''Bearer '' @ replicate 32 CHR ''k'')]) = Some base"
  using admission_requires_credentials [OF demo_started demo_bearer [unfolded demo_started snd_conv]]
  by (elim exE conjE) (rule exI)

section \<open>Login and logout\<close>

definition nonce_ok :: "string \<Rightarrow> bool" where
  "nonce_ok nonce \<longleftrightarrow> length nonce = 64 \<and> list_all (\<lambda>b. is_ascii_hexdigit b \<and> \<not> is_ascii_upper b) nonce"

lemma hex_byte: "is_ascii_hexdigit c \<Longrightarrow> 48 \<le> byte c \<and> byte c \<le> 102"
  by (auto simp: is_ascii_hexdigit_def is_ascii_digit_def)

lemma split_char_none: "c \<notin> set s \<Longrightarrow> split_char c s = [s]"
  by (induction s) auto

lemma trim_cookie:
  assumes "nonce_ok nonce"
  shows "str_trim (''rvx_session='' @ nonce) = ''rvx_session='' @ nonce"
proof -
  have "\<exists>a b c rest. s = a # b # c # rest" if "3 \<le> length s" for s :: string
    using that by (auto simp: numeral_3_eq_3 Suc_le_length_iff)
  from this [of "rev nonce"] obtain a b c rest where r: "rev nonce = a # b # c # rest"
    using assms by (auto simp: nonce_ok_def)
  then have "a \<in> set nonce" "b \<in> set nonce" "c \<in> set nonce" by (metis list.set_intros set_rev)+
  with assms have "48 \<le> byte a \<and> byte a \<le> 102" "48 \<le> byte b \<and> byte b \<le> 102" "48 \<le> byte c \<and> byte c \<le> 102"
    by (auto simp: nonce_ok_def list_all_iff dest!: hex_byte)
  then have "ws_len_rev (rev nonce @ rev ''rvx_session='') = 0"
    by (simp add: r ws1_def ws2_def ws3_def)
  then have "trim_rev (rev (''rvx_session='' @ nonce)) = rev (''rvx_session='' @ nonce)"
    by (subst trim_rev.simps) simp
  moreover have "trim_start (''rvx_session='' @ nonce) = ''rvx_session='' @ nonce"
    by (subst trim_start.simps) (cases nonce; simp add: ws1_def ws2_def ws3_def byte_def)
  ultimately show ?thesis by (simp only: str_trim_def rev_rev_ident)
qed

lemma cookie_digest_nonce:
  assumes "nonce_ok nonce" and "get_all q ''cookie'' = [''rvx_session='' @ nonce]"
  shows "cookie_digest X P q = session_digest X P nonce"
proof -
  have visible: "32 \<le> byte c \<and> byte c < 127 \<and> c \<noteq> CHR '';''" if "c \<in> set nonce" for c
  proof -
    have "48 \<le> byte c \<and> byte c \<le> 102 \<and> (byte c \<le> 57 \<or> 65 \<le> byte c)"
      using assms(1) that
      by (auto simp: nonce_ok_def list_all_iff is_ascii_hexdigit_def is_ascii_digit_def)
    moreover have "byte CHR '';'' = 59" by (simp add: byte_def)
    ultimately show ?thesis by auto
  qed
  have "to_str (''rvx_session='' @ nonce) = Some (''rvx_session='' @ nonce)"
    using visible by (auto simp: to_str_def list_all_iff byte_def)
  moreover have "split_char CHR '';'' (''rvx_session='' @ nonce) = [''rvx_session='' @ nonce]"
    by (rule split_char_none) (use visible in auto)
  moreover have "split_once ''='' (''rvx_session='' @ nonce) = Some (''rvx_session'', nonce)"
    by (simp add: starts_with_def)
  then have "read_cookie None (''rvx_session='' @ nonce) = Inr (Some nonce)"
    unfolding read_cookie_def trim_cookie [OF assms(1)] using assms(1) by (simp only: nonce_ok_def) simp
  ultimately show ?thesis by (simp add: cookie_digest_def assms(2) read_cookies_def)
qed

text \<open>A digest that is not in the table stays out of it until a login draws it again.\<close>

lemma session_stays_out:
  assumes "digest \<notin> fst ` set (at_sessions t)" and "\<And>now key p. Login now key digest p \<notin> set ops"
  shows "digest \<notin> fst ` set (at_sessions (foldl auth_step t ops))"
  using assms
proof (induction ops arbitrary: t)
  case (Cons op ops)
  have "digest \<notin> fst ` set (at_sessions (auth_step t op))"
    using Cons.prems
    by (cases op) (auto simp: configure_auth_sessions_def revoke_auth_session_def create_auth_session_Inr
        set_live_sessions split: sum.splits)
  with Cons show ?case by simp
qed simp

lemma session_attributes:
  "takeWhile (\<lambda>c. c \<noteq> CHR '';'') (session_cookie nonce 604800 secure) = ''rvx_session='' @ nonce"
  if "nonce_ok nonce"
proof -
  have "c \<noteq> CHR '';''" if "c \<in> set (''rvx_session='' @ nonce)" for c
    using that \<open>nonce_ok nonce\<close> by (auto simp: nonce_ok_def list_all_iff is_ascii_hexdigit_def is_ascii_digit_def byte_def)
  then have "takeWhile (\<lambda>c. c \<noteq> CHR '';'') ((''rvx_session='' @ nonce) @ CHR '';'' # rest) = ''rvx_session='' @ nonce"
    for rest by (simp add: takeWhile_tail)
  then show ?thesis unfolding session_cookie_def by (metis append.assoc append_Cons)
qed

text \<open>
  C39. A login opens and a logout closes the session of its cookie. The cookie of a successful login is
  HTTP-only, same-site strict, for the whole site and for seven days, and secure exactly when the
  public origin is HTTPS. A request that carries back the part of it before its first semicolon is
  recognised, under one digest, exactly until seven days have passed since the login, and so is every
  other session that was live before, unless it is the one of the login request itself. When such a
  request logs out, the cookie is cleared, the other sessions stay as they are, and the session is not
  recognised again whatever happens to the tables, short of a login that draws the same digest. When
  revoking fails, the answer is an error and nothing has changed. The nonce is 64 lower-case
  hexadecimal digits, as two random UUIDs are.
\<close>

theorem login_opens_logout_closes:
  assumes "login X P fault begun nonce q body t = (SessionStatus True True (Some cookie), t')"
    and "nonce_ok nonce" and "get_all r ''cookie'' = [takeWhile (\<lambda>c. c \<noteq> CHR '';'') cookie]"
  shows "cookie = takeWhile (\<lambda>c. c \<noteq> CHR '';'') cookie @ ''; HttpOnly; SameSite=Strict; Path=/; Max-Age=604800''
       @ (if (case ac_public_origin P of None \<Rightarrow> False | Some u \<Rightarrow> up_scheme u = ''https'') then ''; Secure'' else [])
     \<and> (\<exists>digest t''.
          (\<forall>now. cookie_session X P (session_lookup None now t') r =
             (if now < begun + 604800 then Inr (Some digest) else Inr None))
        \<and> (\<forall>now key d. begun \<le> now \<longrightarrow> d \<noteq> digest \<longrightarrow> cookie_digest X P q \<noteq> Some d \<longrightarrow>
             auth_session_active now key d t' = auth_session_active now key d t)
        \<and> logout X P None r t' =
            (LoggedOut (''rvx_session=; HttpOnly; SameSite=Strict; Path=/; Max-Age=0''
               @ (if (case ac_public_origin P of None \<Rightarrow> False | Some u \<Rightarrow> up_scheme u = ''https'')
                  then ''; Secure'' else [])), t'')
        \<and> (\<forall>now key d. d \<noteq> digest \<longrightarrow> auth_session_active now key d t'' = auth_session_active now key d t')
        \<and> (\<forall>ops now. (\<forall>n key p. Login n key digest p \<notin> set ops) \<longrightarrow>
             cookie_session X P (session_lookup None now (foldl auth_step t'' ops)) r = Inr None)
        \<and> (\<forall>e. logout X P (Some e) r t' = (AuthUnavailable, t')))"
proof -
  from assms(1) obtain digest key where d: "session_digest X P nonce = Some digest"
      "session_key_digest X P = Some key"
      "create_auth_session begun key digest (cookie_digest X P q) t = Inr t'"
      and cookie: "cookie = session_cookie nonce 604800 (secure_browser_cookie P)"
    by (auto simp: login_def faulted_def split: option.splits if_splits sum.splits)
  note part = session_attributes [OF assms(2), of "secure_browser_cookie P"]
  have c: "cookie_digest X P r = Some digest"
    using cookie_digest_nonce [OF assms(2)] assms(3) part d(1) by (simp add: cookie)
  have ages: "show_int 604800 = ''604800''" "show_int 0 = ''0''"
    by (simp add: show_int_def show_nat.simps, code_simp)+
  have key: "at_key t = Some key" "at_key t' = Some key" and fresh: "digest \<notin> fst ` set (live_sessions begun (cookie_digest X P q) (at_sessions t))"
    and rows: "at_sessions t' = live_sessions begun (cookie_digest X P q) (at_sessions t) @ [(digest, begun + 604800)]"
    using d(3) by (auto simp: create_auth_session_Inr)
  have opens: "auth_session_active now key digest t' \<longleftrightarrow> now < begun + 604800" for now
    using fresh by (auto simp: auth_session_active_def key rows list_ex_iff image_iff)
  have others: "auth_session_active now k x t' = auth_session_active now k x t"
    if "begun \<le> now" "x \<noteq> digest" "cookie_digest X P q \<noteq> Some x" for now k x
    using that by (auto simp: auth_session_active_def key rows list_ex_iff set_live_sessions)
  have out: "digest \<notin> fst ` set (at_sessions (revoke_auth_session digest t'))"
    by (auto simp: revoke_auth_session_def)
  have revoked: "auth_session_active now k x (revoke_auth_session digest t') = auth_session_active now k x t'"
    if "x \<noteq> digest" for now k x
    using that by (auto simp: revoke_auth_session_def auth_session_active_def list_ex_iff)
  have closed: "cookie_session X P (session_lookup None now (foldl auth_step (revoke_auth_session digest t') ops)) r = Inr None"
    if "\<forall>n k p. Login n k digest p \<notin> set ops" for ops now
    using session_stays_out [OF out, of ops] that c d(2)
    by (auto simp: cookie_session_def session_lookup_def faulted_def auth_session_active_def list_ex_iff image_iff)
  show ?thesis
  proof (intro conjI exI [of _ digest] exI [of _ "revoke_auth_session digest t'"], goal_cases)
    case 1
    show ?case unfolding cookie part by (simp add: session_cookie_def ages secure_browser_cookie_def)
  next
    case 2
    show ?case using c d(2) opens by (simp add: cookie_session_def session_lookup_def faulted_def)
  next
    case 4
    show ?case using c by (simp add: logout_def faulted_def session_cookie_def ages secure_browser_cookie_def Let_def)
  next
    case 7
    show ?case using c by (simp add: logout_def faulted_def Let_def)
  next
    case 3
    show ?case using others by simp
  next
    case 5
    show ?case using revoked by simp
  next
    case 6
    show ?case using closed by simp
  qed
qed

definition demo_key :: string where
  "demo_key = the (session_key_digest demo_access demo_policy)"

definition demo_login :: "auth_reply \<times> auth_tables" where
  "demo_login = login demo_access demo_policy None 5 demo_nonce (demo_request ''POST'' ''/api/auth/login'' [])
     (Some (replicate 32 CHR ''k'')) (start_auth demo_access demo_policy auth_initialize)"

lemma demo_logged_in:
  "demo_login = (SessionStatus True True (Some (session_cookie demo_nonce 604800 False)), snd demo_login)"
  by (simp add: demo_login_def login_def demo_policy_def password_matches_def demo_access_def session_digest_def
      session_key_digest_def keyed_digest_def cookie_digest_def demo_request_def get_all_def create_auth_session_def
      start_auth_def configure_auth_sessions_def auth_initialize_def live_sessions_def faulted_def
      secure_browser_cookie_def)

lemma demo_nonce_ok: "nonce_ok demo_nonce"
  by (simp add: nonce_ok_def demo_nonce_def is_ascii_hexdigit_def is_ascii_digit_def is_ascii_upper_def byte_def
      list_all_length)

theorem login_opens_witness:
  "\<exists>digest. cookie_session demo_access demo_policy (session_lookup None 100 (snd demo_login))
     (demo_request ''GET'' ''/api/runs'' [(''cookie'', demo_cookie)]) = Inr (Some digest)"
proof -
  obtain cookie where l: "demo_login = (SessionStatus True True (Some cookie), snd demo_login)"
    and c: "takeWhile (\<lambda>c. c \<noteq> CHR '';'') cookie = demo_cookie"
    using demo_logged_in session_attributes [OF demo_nonce_ok] by (auto simp: demo_cookie_def)
  have "get_all (demo_request ''GET'' ''/api/runs'' [(''cookie'', demo_cookie)]) ''cookie''
      = [takeWhile (\<lambda>c. c \<noteq> CHR '';'') cookie]"
    by (simp add: get_all_def demo_request_def c)
  note opened = login_opens_logout_closes [OF l [unfolded demo_login_def] demo_nonce_ok this, folded demo_login_def]
  obtain digest where "\<forall>now. cookie_session demo_access demo_policy (session_lookup None now (snd demo_login))
     (demo_request ''GET'' ''/api/runs'' [(''cookie'', demo_cookie)])
       = (if now < 5 + 604800 then Inr (Some digest) else Inr None)"
    using opened by (elim exE conjE) (rule that)
  from spec [OF this, of 100] show ?thesis by (intro exI [of _ digest]) simp
qed

end
