(* ===== verification/Rust_Ord.thy ===== *)
theory Rust_Ord
  imports Rvx_Prelude "HOL-Library.Multiset"
begin

text \<open>
  \<open>std::cmp::Ordering\<close> and sorting by a comparison. A comparison is lawful on a set of values when it
  is a total preorder there; sorting distinguishes values only as far as the comparison does.

  \<open>select_nth_unstable_by\<close> leaves the order of the two sides open. Its contract is the locale
  \<open>nth_selection\<close>; what is proved in it holds for every implementation, and the model uses the one
  that sorts.
\<close>

datatype ordering = Less | Equal | Greater

definition cmp :: "'a::linorder \<Rightarrow> 'a \<Rightarrow> ordering" where
  "cmp a b = (if a < b then Less else if a = b then Equal else Greater)"

fun reverse_order :: "ordering \<Rightarrow> ordering" where
  "reverse_order Less = Greater"
| "reverse_order Equal = Equal"
| "reverse_order Greater = Less"

fun then_with :: "ordering \<Rightarrow> ordering \<Rightarrow> ordering" where
  "then_with Equal r = r"
| "then_with Less r = Less"
| "then_with Greater r = Greater"

fun insert_by :: "('a \<Rightarrow> 'a \<Rightarrow> ordering) \<Rightarrow> 'a \<Rightarrow> 'a list \<Rightarrow> 'a list" where
  "insert_by c x [] = [x]"
| "insert_by c x (y # ys) = (if c x y = Greater then y # insert_by c x ys else x # y # ys)"

definition sort_by :: "('a \<Rightarrow> 'a \<Rightarrow> ordering) \<Rightarrow> 'a list \<Rightarrow> 'a list" where
  "sort_by c xs = foldr (insert_by c) xs []"

definition select_nth :: "('a \<Rightarrow> 'a \<Rightarrow> ordering) \<Rightarrow> nat \<Rightarrow> 'a list \<Rightarrow> 'a list" where
  "select_nth c i xs = sort_by c xs"

section \<open>Lemmas on orderings\<close>

lemma cmp_simps [simp]:
  "cmp a b = Less \<longleftrightarrow> a < b" "cmp a b = Equal \<longleftrightarrow> a = b" "cmp a b = Greater \<longleftrightarrow> b < a"
  "Less = cmp a b \<longleftrightarrow> a < b" "Equal = cmp a b \<longleftrightarrow> a = b" "Greater = cmp a b \<longleftrightarrow> b < a"
  by (auto simp: cmp_def)

lemma cmp_self [simp]: "cmp a a = Equal"
  by (simp add: cmp_def)

lemma reverse_cmp [simp]: "reverse_order (cmp a b) = cmp b a"
  by (auto simp: cmp_def)

lemma reverse_order_eq [simp]:
  "reverse_order r = Less \<longleftrightarrow> r = Greater" "reverse_order r = Equal \<longleftrightarrow> r = Equal"
  "reverse_order r = Greater \<longleftrightarrow> r = Less" "reverse_order (reverse_order r) = r"
  by (cases r; simp)+

lemma then_with_eq [simp]:
  "then_with a b = Less \<longleftrightarrow> a = Less \<or> a = Equal \<and> b = Less"
  "then_with a b = Equal \<longleftrightarrow> a = Equal \<and> b = Equal"
  "then_with a b = Greater \<longleftrightarrow> a = Greater \<or> a = Equal \<and> b = Greater"
  by (cases a; simp)+

lemma then_with_Equal [simp]: "then_with a Equal = a"
  by (cases a) simp_all

lemma reverse_then_with: "reverse_order (then_with a b) = then_with (reverse_order a) (reverse_order b)"
  by (cases a) simp_all

lemma cmp_mono: "strict_mono f \<Longrightarrow> cmp (f a) (f b) = cmp a b"
  by (auto simp: cmp_def strict_mono_less strict_mono_eq)

section \<open>Sorting\<close>

definition lawful :: "('a \<Rightarrow> 'a \<Rightarrow> ordering) \<Rightarrow> 'a set \<Rightarrow> bool" where
  "lawful c S \<longleftrightarrow>
     (\<forall>x \<in> S. \<forall>y \<in> S. c y x = reverse_order (c x y))
     \<and> (\<forall>x \<in> S. \<forall>y \<in> S. \<forall>z \<in> S. c x y \<noteq> Greater \<longrightarrow> c y z \<noteq> Greater \<longrightarrow> c x z \<noteq> Greater)"

lemma lawfulI:
  assumes "\<And>x y. x \<in> S \<Longrightarrow> y \<in> S \<Longrightarrow> c y x = reverse_order (c x y)"
    and "\<And>x y z. x \<in> S \<Longrightarrow> y \<in> S \<Longrightarrow> z \<in> S \<Longrightarrow> c x y \<noteq> Greater \<Longrightarrow> c y z \<noteq> Greater \<Longrightarrow> c x z \<noteq> Greater"
  shows "lawful c S"
  unfolding lawful_def by (intro conjI ballI impI; fact assms)

lemma lawful_flip: "lawful c S \<Longrightarrow> x \<in> S \<Longrightarrow> y \<in> S \<Longrightarrow> c y x = reverse_order (c x y)"
  unfolding lawful_def by (drule conjunct1) (drule bspec, assumption, drule bspec, assumption, assumption)

lemma lawful_trans:
  assumes "lawful c S" "x \<in> S" "y \<in> S" "z \<in> S" "c x y \<noteq> Greater" "c y z \<noteq> Greater"
  shows "c x z \<noteq> Greater"
  using conjunct2 [OF assms(1) [unfolded lawful_def], THEN bspec, OF assms(2), THEN bspec, OF assms(3),
      THEN bspec, OF assms(4)] assms(5,6) by simp

text \<open>A comparison that agrees with an order on keys is lawful.\<close>

lemma lawful_key:
  assumes "\<And>x y. x \<in> S \<Longrightarrow> y \<in> S \<Longrightarrow> c x y = cmp (f x) (f y)"
  shows "lawful c S"
proof (rule lawfulI)
  fix x y assume "x \<in> S" "y \<in> S"
  then show "c y x = reverse_order (c x y)" using assms [of x y] assms [of y x] by simp
next
  fix x y z assume s: "x \<in> S" "y \<in> S" "z \<in> S" and "c x y \<noteq> Greater" "c y z \<noteq> Greater"
  then have "f x \<le> f y" "f y \<le> f z" using assms [of x y] assms [of y z] by simp_all
  then have "f x \<le> f z" by (rule order_trans)
  then show "c x z \<noteq> Greater" using assms [OF s(1,3)] by simp
qed

lemma lawful_subset:
  assumes "lawful c S" and "T \<subseteq> S"
  shows "lawful c T"
proof (rule lawfulI)
  fix x y assume "x \<in> T" "y \<in> T"
  then show "c y x = reverse_order (c x y)" by (intro lawful_flip [OF assms(1)] subsetD [OF assms(2)])
next
  fix x y z assume "x \<in> T" "y \<in> T" "z \<in> T" "c x y \<noteq> Greater" "c y z \<noteq> Greater"
  then show "c x z \<noteq> Greater"
    using lawful_trans [OF assms(1) subsetD [OF assms(2)] subsetD [OF assms(2)] subsetD [OF assms(2)]] by fast
qed

lemma lawful_reverse:
  assumes "lawful c S"
  shows "lawful (\<lambda>x y. reverse_order (c x y)) S"
proof (rule lawfulI)
  fix x y assume "x \<in> S" "y \<in> S"
  then show "reverse_order (c y x) = reverse_order (reverse_order (c x y))"
    by (intro arg_cong [where f = reverse_order] lawful_flip [OF assms])
next
  fix x y z
  assume s: "x \<in> S" "y \<in> S" "z \<in> S"
    and a: "reverse_order (c x y) \<noteq> Greater" "reverse_order (c y z) \<noteq> Greater"
  then have "c y x \<noteq> Greater" "c z y \<noteq> Greater"
    using lawful_flip [OF assms, of x y] lawful_flip [OF assms, of y z] by simp_all
  then have "c z x \<noteq> Greater" using lawful_trans [OF assms s(3,2,1)] by simp
  then show "reverse_order (c x z) \<noteq> Greater" using lawful_flip [OF assms s(1,3)] by simp
qed

text \<open>Ties are broken by a second comparison.\<close>

lemma lawful_then:
  assumes c: "lawful c S" and d: "lawful d S"
  shows "lawful (\<lambda>x y. then_with (c x y) (d x y)) S"
proof (rule lawfulI)
  fix x y assume "x \<in> S" "y \<in> S"
  then show "then_with (c y x) (d y x) = reverse_order (then_with (c x y) (d x y))"
    using lawful_flip [OF c, of x y] lawful_flip [OF d, of x y] by (simp add: reverse_then_with)
next
  fix x y z
  assume s: "x \<in> S" "y \<in> S" "z \<in> S"
    and xy: "then_with (c x y) (d x y) \<noteq> Greater" and yz: "then_with (c y z) (d y z) \<noteq> Greater"
  have xz: "c x z \<noteq> Greater" using lawful_trans [OF c s] xy yz by auto
  show "then_with (c x z) (d x z) \<noteq> Greater"
  proof (cases "c x z = Equal")
    case True
    then have zx: "c z x \<noteq> Greater" using lawful_flip [OF c s(1,3)] by simp
    have "c y x \<noteq> Greater" using lawful_trans [OF c s(2,3,1) _ zx] yz by auto
    moreover have "c z y \<noteq> Greater" using lawful_trans [OF c s(3,1,2) zx] xy by auto
    ultimately have "c x y = Equal" "c y z = Equal"
      using lawful_flip [OF c s(1,2)] lawful_flip [OF c s(2,3)] xy yz
      by (cases "c x y"; cases "c y z"; auto)+
    with xy yz have "d x z \<noteq> Greater" using lawful_trans [OF d s] by auto
    with True show ?thesis by simp
  qed (use xz in simp)
qed

definition sorted_by :: "('a \<Rightarrow> 'a \<Rightarrow> ordering) \<Rightarrow> 'a list \<Rightarrow> bool" where
  "sorted_by c xs = sorted_wrt (\<lambda>x y. c x y \<noteq> Greater) xs"

lemma mset_insert_by [simp]: "mset (insert_by c x xs) = add_mset x (mset xs)"
  by (induction xs) simp_all

lemma mset_sort_by [simp]: "mset (sort_by c xs) = mset xs"
  by (induction xs) (simp_all add: sort_by_def)

lemma set_insert_by [simp]: "set (insert_by c x xs) = insert x (set xs)"
  by (metis mset_insert_by set_mset_add_mset_insert set_mset_mset)

lemma set_sort_by [simp]: "set (sort_by c xs) = set xs"
  by (metis mset_sort_by set_mset_mset)

lemma length_sort_by [simp]: "length (sort_by c xs) = length xs"
  by (metis mset_sort_by size_mset)

lemma sorted_insert_by:
  "lawful c S \<Longrightarrow> x \<in> S \<Longrightarrow> set ys \<subseteq> S \<Longrightarrow> sorted_by c ys \<Longrightarrow> sorted_by c (insert_by c x ys)"
proof (induction ys)
  case Nil
  then show ?case by (simp add: sorted_by_def)
next
  case (Cons y ys)
  show ?case
  proof (cases "c x y = Greater")
    case True
    then have "c y x \<noteq> Greater" using lawful_flip [of c S x y] Cons.prems by simp
    with True Cons show ?thesis by (auto simp: sorted_by_def)
  next
    case False
    have "c x z \<noteq> Greater" if "z \<in> set ys" for z
      using lawful_trans [of c S x y z] Cons.prems that False by (auto simp: sorted_by_def)
    with False Cons.prems show ?thesis by (auto simp: sorted_by_def)
  qed
qed

lemma sorted_sort_by: "lawful c (set xs) \<Longrightarrow> sorted_by c (sort_by c xs)"
proof (induction xs)
  case Nil
  then show ?case by (simp add: sort_by_def sorted_by_def)
next
  case (Cons x xs)
  have "sorted_by c (sort_by c xs)" using Cons lawful_subset by (metis set_subset_Cons)
  then show ?case using sorted_insert_by [OF Cons.prems, of x "sort_by c xs"]
    by (auto simp: sort_by_def set_sort_by [unfolded sort_by_def])
qed

text \<open>Where no two values tie, the sorted order is unique.\<close>

lemma sorted_by_unique:
  assumes "lawful c (set xs)" and "mset xs = mset ys" and "sorted_by c xs" and "sorted_by c ys"
    and "\<And>x y. x \<in> set xs \<Longrightarrow> y \<in> set xs \<Longrightarrow> c x y = Equal \<Longrightarrow> x = y"
  shows "xs = ys"
  using assms
proof (induction xs arbitrary: ys)
  case (Cons x xs)
  then obtain y ys' where ys: "ys = y # ys'" by (cases ys) auto
  have sets: "set (x # xs) = set (y # ys')"
    using Cons.prems(2) ys by (metis set_mset_mset)
  have "x = y"
  proof (rule ccontr)
    assume ne: "x \<noteq> y"
    then have "y \<in> set xs" "x \<in> set ys'" using sets by auto
    then have "c x y \<noteq> Greater" "c y x \<noteq> Greater"
      using Cons.prems(3,4) ys by (auto simp: sorted_by_def)
    then have "c x y = Equal"
      using lawful_flip [OF Cons.prems(1), of x y] \<open>y \<in> set xs\<close> by (cases "c x y") auto
    then show False using Cons.prems(5) [of x y] \<open>y \<in> set xs\<close> ne by simp
  qed
  moreover have "xs = ys'"
  proof (rule Cons.IH)
    show "lawful c (set xs)" using Cons.prems(1) by (rule lawful_subset) auto
    show "mset xs = mset ys'" using Cons.prems(2) ys \<open>x = y\<close> by simp
    show "sorted_by c xs" "sorted_by c ys'" using Cons.prems(3,4) ys by (simp_all add: sorted_by_def)
  qed (use Cons.prems(5) in auto)
  ultimately show ?case using ys by simp
qed simp

section \<open>Selection of a position\<close>

locale nth_selection =
  fixes selection :: "('a \<Rightarrow> 'a \<Rightarrow> ordering) \<Rightarrow> nat \<Rightarrow> 'a list \<Rightarrow> 'a list"
  assumes selection_permutes: "mset (selection c i xs) = mset xs"
    and selection_left: "lawful c (set xs) \<Longrightarrow> i < length xs \<Longrightarrow> j < i \<Longrightarrow>
      c (selection c i xs ! j) (selection c i xs ! i) \<noteq> Greater"
    and selection_right: "lawful c (set xs) \<Longrightarrow> i < length xs \<Longrightarrow> i < j \<Longrightarrow> j < length xs \<Longrightarrow>
      c (selection c i xs ! i) (selection c i xs ! j) \<noteq> Greater"
begin

lemma selection_length: "length (selection c i xs) = length xs"
  by (metis selection_permutes size_mset)

lemma selection_set: "set (selection c i xs) = set xs"
  by (metis selection_permutes set_mset_mset)

text \<open>The two sides may be sorted separately.\<close>

lemma selection_splits:
  assumes "lawful c (set xs)" and "i < length xs"
    and "x \<in> set (take i (selection c i xs))" and "y \<in> set (drop i (selection c i xs))"
  shows "c x y \<noteq> Greater"
proof -
  let ?s = "selection c i xs"
  note len = selection_length [of c i xs] and sets = selection_set [of c i xs]
  obtain j where j: "j < i" "x = ?s ! j" using assms(2,3) len by (auto simp: in_set_conv_nth)
  obtain k where k: "k < length ?s - i" "y = ?s ! (i + k)" using assms(4) len by (auto simp: in_set_conv_nth)
  have mem: "?s ! n \<in> set xs" if "n < length xs" for n using that len sets by (metis nth_mem)
  have l: "c x (?s ! i) \<noteq> Greater" using selection_left [OF assms(1,2) j(1)] j(2) by simp
  show ?thesis
  proof (cases "k = 0")
    case False
    have "c (?s ! i) y \<noteq> Greater"
      using selection_right [OF assms(1,2), of "i + k"] False k len by simp
    with l show ?thesis
      using lawful_trans [OF assms(1) mem [of j] mem [of i] mem [of "i + k"]] j k assms(2) len by simp
  qed (use l k in simp)
qed

lemma selection_sorted:
  assumes law: "lawful c (set xs)" and i: "i < length xs"
    and tie: "\<And>x y. x \<in> set xs \<Longrightarrow> y \<in> set xs \<Longrightarrow> c x y = Equal \<Longrightarrow> x = y"
  shows "sort_by c xs = sort_by c (take i (selection c i xs)) @ sort_by c (drop i (selection c i xs))"
    (is "_ = ?l @ ?r")
proof (rule sorted_by_unique)
  let ?s = "selection c i xs"
  have sub: "set (take i ?s) \<subseteq> set xs" "set (drop i ?s) \<subseteq> set xs"
    using set_take_subset [of i ?s] set_drop_subset [of i ?s] by (auto simp: selection_set)
  show "lawful c (set (sort_by c xs))" using law by simp
  show "mset (sort_by c xs) = mset (?l @ ?r)"
    using selection_permutes [of c i xs] by (metis append_take_drop_id mset_append mset_sort_by)
  show "sorted_by c (sort_by c xs)" using law by (rule sorted_sort_by)
  have "sorted_by c ?l" "sorted_by c ?r"
    using law lawful_subset sub by (auto intro!: sorted_sort_by)
  then show "sorted_by c (?l @ ?r)"
    using selection_splits [OF law i] by (auto simp: sorted_by_def sorted_wrt_append)
qed (use tie in auto)

text \<open>
  A window of the sorted list is found by separating what comes after it and what comes before it, and
  sorting what is left.
\<close>

lemma window_sorted:
  assumes law: "lawful c (set xs)" and range: "start < stop" "stop \<le> length xs"
    and tie: "\<And>x y. x \<in> set xs \<Longrightarrow> y \<in> set xs \<Longrightarrow> c x y = Equal \<Longrightarrow> x = y"
  defines "below \<equiv> take stop (if stop < length xs then selection c stop xs else xs)"
  shows "sort_by c (drop start (if 0 < start then selection c start below else below))
     = take (stop - start) (drop start (sort_by c xs))"
proof -
  have len: "length below = stop" using range by (simp add: below_def selection_length)
  have sub: "set below \<subseteq> set xs"
    using set_take_subset [of stop "selection c stop xs"] set_take_subset [of stop xs]
    by (auto simp: below_def selection_set)
  have below: "sort_by c below = take stop (sort_by c xs)"
  proof (cases "stop < length xs")
    case True
    have e: "sort_by c xs = sort_by c below @ sort_by c (drop stop (selection c stop xs))"
      unfolding below_def if_P [OF True] by (rule selection_sorted [OF law True tie])
    show ?thesis unfolding e using len by simp
  next
    case False
    then show ?thesis using range by (simp add: below_def)
  qed
  have lawb: "lawful c (set below)" using law sub by (rule lawful_subset)
  have "sort_by c (drop start (if 0 < start then selection c start below else below)) = drop start (sort_by c below)"
  proof (cases "0 < start")
    case True
    have i: "start < length below" using len range by simp
    have e: "sort_by c below = sort_by c (take start (selection c start below)) @ sort_by c (drop start (selection c start below))"
      by (rule selection_sorted [OF lawb i]) (use sub tie in blast)
    show ?thesis unfolding e using True len range by (simp add: selection_length)
  qed simp
  then show ?thesis by (simp add: below drop_take)
qed

end

lemma select_nth_splits:
  assumes "lawful c (set xs)" and "i < j" and "j < length xs"
  shows "c (select_nth c k xs ! i) (select_nth c k xs ! j) \<noteq> Greater"
  using sorted_sort_by [OF assms(1)] assms(2,3)
  by (simp add: select_nth_def sorted_by_def sorted_wrt_iff_nth_less)

interpretation sorting: nth_selection select_nth
  by unfold_locales (auto simp: select_nth_splits, simp add: select_nth_def)

end
