(* ===== verification/Table_Numbers.thy ===== *)
theory Table_Numbers
  imports Rust_Ord F64_Text
begin

text \<open>
  The order of JSON numbers in tables (\<open>NumericKey\<close>, \<open>DecimalExponent\<close> of
  \<open>rust/rvx-engine/src/snapshot_store/tables.rs\<close>, \<open>canonical_number\<close> of \<open>tables/views.rs\<close>). A number is
  its decimal token, of any length and with any exponent; the comparison is exact. It works on the
  digits, with exponents that do not fit an \<open>i64\<close> kept as text.

  \<open>token_value\<close> is the rational that a token denotes, the reference that the comparison is measured
  against. The classification of integers is what \<open>serde_json::Number\<close> answers: \<open>number_view\<close>.
\<close>

section \<open>The code\<close>

record number_view =
  nv_as_i64 :: "string \<Rightarrow> int option"
  nv_as_u64 :: "string \<Rightarrow> nat option"

text \<open>\<open>number.as_i64().map(i128::from).or_else(|| number.as_u64().map(i128::from))\<close>\<close>

definition number_integer :: "number_view \<Rightarrow> string \<Rightarrow> int option" where
  "number_integer V t =
     (case nv_as_i64 V t of Some i \<Rightarrow> Some i | None \<Rightarrow> map_option int (nv_as_u64 V t))"

text \<open>\<open>i64::from_str\<close>\<close>

definition parse_i64 :: "string \<Rightarrow> int option" where
  "parse_i64 s = (case parse_exponent s of None \<Rightarrow> None | Some v \<Rightarrow> if in_i64 v then Some v else None)"

datatype decimal_exponent = Small int | Large bool string

record numeric_key =
  nk_integer :: "int option"
  nk_negative :: bool
  nk_magnitude :: decimal_exponent
  nk_digits :: string

definition is_sign :: "char \<Rightarrow> bool" where
  "is_sign c \<longleftrightarrow> c = CHR ''-'' \<or> c = CHR ''+''"

definition trim_zeros :: "string \<Rightarrow> string" where
  "trim_zeros s = dropWhile (\<lambda>c. c = CHR ''0'') s"

text \<open>
  The loop over \<open>digits.iter_mut().rev()\<close>: the digits come last first, \<open>carry\<close> is added to them or
  taken from them.
\<close>

fun shift_digits :: "bool \<Rightarrow> nat \<Rightarrow> string \<Rightarrow> string \<times> nat" where
  "shift_digits up carry [] = ([], carry)"
| "shift_digits up carry (d # ds) =
     (if carry = 0 then (d # ds, 0)
      else let part = carry mod 10; rest = carry div 10; v = digit_val d;
               (e, c) = (if up then (digit_char ((v + part) mod 10), rest + (if 10 \<le> v + part then 1 else 0))
                         else if v < part then (digit_char (v + 10 - part), rest + 1)
                         else (digit_char (v - part), rest));
               (es, c') = shift_digits up c ds
           in (e # es, c'))"

definition shifted_text :: "string \<Rightarrow> int \<Rightarrow> decimal_exponent" where
  "shifted_text token offset =
     (let negative = starts_with ''-'' token;
          digits = trim_zeros (dropWhile is_sign token);
          adjustment = (if negative then - offset else offset);
          (shifted, carry) = shift_digits (0 \<le> adjustment) (nat \<bar>adjustment\<bar>) (rev digits);
          suffix = rev shifted;
          digits' = (if 0 < carry then show_nat carry @ suffix else trim_zeros suffix)
      in case parse_i64 (if negative then ''-'' @ digits' else digits') of
           Some v \<Rightarrow> Small v | None \<Rightarrow> Large negative digits')"

definition shifted :: "string \<Rightarrow> int \<Rightarrow> decimal_exponent" where
  "shifted token offset =
     (case Option.bind (parse_i64 token) (\<lambda>v. checked_add_i64 v offset) of
        Some v \<Rightarrow> Small v | None \<Rightarrow> shifted_text token offset)"

definition cmp_length_text :: "string \<Rightarrow> string \<Rightarrow> ordering" where
  "cmp_length_text a b = then_with (cmp (length a) (length b)) (cmp a b)"

fun compare_exponent :: "decimal_exponent \<Rightarrow> decimal_exponent \<Rightarrow> ordering" where
  "compare_exponent (Small a) (Small b) = cmp a b"
| "compare_exponent (Large neg _) (Small _) = (if neg then Less else Greater)"
| "compare_exponent (Small _) (Large neg _) = (if neg then Greater else Less)"
| "compare_exponent (Large m a) (Large n b) =
     (if m \<noteq> n then (if m then Less else Greater)
      else if m then reverse_order (cmp_length_text a b) else cmp_length_text a b)"

definition is_exponent_mark :: "char \<Rightarrow> bool" where
  "is_exponent_mark c \<longleftrightarrow> c = CHR ''e'' \<or> c = CHR ''E''"

definition is_point :: "char \<Rightarrow> bool" where
  "is_point c \<longleftrightarrow> c = CHR ''.''"

definition from_token :: "string \<Rightarrow> int option \<Rightarrow> numeric_key" where
  "from_token token integer =
     (let unsigned = (case strip_prefix ''-'' token of Some s \<Rightarrow> s | None \<Rightarrow> token);
          (mantissa, after) = split_at_char is_exponent_mark unsigned;
          exponent = (case after of Some s \<Rightarrow> s | None \<Rightarrow> ''0'');
          point = length (takeWhile (\<lambda>c. \<not> is_point c) mantissa);
          first = length (takeWhile (\<lambda>c. c = CHR ''0'' \<or> is_point c) mantissa)
      in if first = length mantissa
         then \<lparr>nk_integer = Some 0, nk_negative = False, nk_magnitude = Small 0, nk_digits = []\<rparr>
         else let leading = first - (if point < first then 1 else 0)
              in \<lparr>nk_integer = integer, nk_negative = starts_with ''-'' token,
                  nk_magnitude = shifted exponent (int point - int leading),
                  nk_digits = drop first mantissa\<rparr>)"

definition numeric_key_of :: "number_view \<Rightarrow> string \<Rightarrow> numeric_key" where
  "numeric_key_of V t = from_token t (number_integer V t)"

text \<open>The shorter list of digits is read as if it went on with zeros.\<close>

fun cmp_digits :: "string \<Rightarrow> string \<Rightarrow> ordering" where
  "cmp_digits [] [] = Equal"
| "cmp_digits (a # as) [] = then_with (cmp a CHR ''0'') (cmp_digits as [])"
| "cmp_digits [] (b # bs) = then_with (cmp CHR ''0'' b) (cmp_digits [] bs)"
| "cmp_digits (a # as) (b # bs) = then_with (cmp a b) (cmp_digits as bs)"

definition plain_digits :: "numeric_key \<Rightarrow> string" where
  "plain_digits k = filter (\<lambda>c. \<not> is_point c) (nk_digits k)"

definition compare_key :: "numeric_key \<Rightarrow> numeric_key \<Rightarrow> ordering" where
  "compare_key k l =
     (case (nk_integer k, nk_integer l) of
        (Some a, Some b) \<Rightarrow> cmp a b
      | _ \<Rightarrow>
          if nk_digits k = [] then (if nk_digits l = [] then Equal else if nk_negative l then Greater else Less)
          else if nk_digits l = [] then (if nk_negative k then Less else Greater)
          else if nk_negative k \<noteq> nk_negative l then (if nk_negative k then Less else Greater)
          else let order = then_with (compare_exponent (nk_magnitude k) (nk_magnitude l))
                             (cmp_digits (plain_digits k) (plain_digits l))
               in if nk_negative k then reverse_order order else order)"

definition trim_end_zeros :: "string \<Rightarrow> string" where
  "trim_end_zeros s = rev (trim_zeros (rev s))"

fun exponent_text :: "decimal_exponent \<Rightarrow> string" where
  "exponent_text (Small v) = show_int v"
| "exponent_text (Large neg digits) = (if neg then ''-'' else []) @ digits"

definition canonical_number :: "number_view \<Rightarrow> string \<Rightarrow> string" where
  "canonical_number V t =
     (let k = numeric_key_of V t
      in if nk_digits k = [] then ''0''
         else (if nk_negative k then ''-'' else []) @ ''0.'' @ trim_end_zeros (plain_digits k) @ ''e''
              @ exponent_text (nk_magnitude k))"

section \<open>The reference\<close>

text \<open>The parts of a token, and the number it denotes.\<close>

definition token_parts :: "string \<Rightarrow> bool \<times> string \<times> string \<times> string" where
  "token_parts t =
     (let unsigned = (case strip_prefix ''-'' t of Some s \<Rightarrow> s | None \<Rightarrow> t);
          (mantissa, exponent) = split_at_char is_exponent_mark unsigned;
          (whole, fraction) = split_at_char is_point mantissa
      in (starts_with ''-'' t, whole, (case fraction of None \<Rightarrow> [] | Some f \<Rightarrow> f),
          (case exponent of None \<Rightarrow> ''0'' | Some e \<Rightarrow> e)))"

definition json_number :: "string \<Rightarrow> bool" where
  "json_number t \<longleftrightarrow>
     (case token_parts t of (neg, whole, part, exponent) \<Rightarrow>
        whole \<noteq> [] \<and> all_digits (whole @ part) \<and> parse_exponent exponent \<noteq> None)"

definition token_value :: "string \<Rightarrow> rat" where
  "token_value t =
     (case token_parts t of (neg, whole, part, exponent) \<Rightarrow>
        (if neg then - 1 else 1) * of_nat (digits_val (whole @ part))
        * power_int 10 (the (parse_exponent exponent) - int (length part)))"

text \<open>What the comparison relies on of \<open>serde_json\<close>: an integer it reports is the number's value.\<close>

definition number_laws :: "number_view \<Rightarrow> bool" where
  "number_laws V \<longleftrightarrow> (\<forall>t i. json_number t \<longrightarrow> number_integer V t = Some i \<longrightarrow> token_value t = of_int i)"

section \<open>Digits\<close>

lemma digit_val_char [simp]: "n < 10 \<Longrightarrow> digit_val (digit_char n) = n"
  by (simp add: digit_val_def byte_def of_char_digit_char)

lemma digit_char_digit [simp]: "n < 10 \<Longrightarrow> is_ascii_digit (digit_char n)"
  by (simp add: is_ascii_digit_def byte_def of_char_digit_char)

lemma digit_val_less [simp]: "is_ascii_digit c \<Longrightarrow> digit_val c < 10"
  by (auto simp: is_ascii_digit_def digit_val_def)

lemma digit_val_le: "is_ascii_digit c \<Longrightarrow> digit_val c \<le> 9"
  using digit_val_less [of c] by linarith

lemma char_less_byte: "(c::char) < d \<longleftrightarrow> byte c < byte d"
  by (simp add: less_char_def byte_def)

lemma byte_eq_iff: "byte c = byte d \<longleftrightarrow> c = d"
  by (simp add: byte_def)

lemma digit_order:
  assumes "is_ascii_digit c" "is_ascii_digit d"
  shows "c < d \<longleftrightarrow> digit_val c < digit_val d" and "digit_val c = digit_val d \<longleftrightarrow> c = d"
proof -
  show "c < d \<longleftrightarrow> digit_val c < digit_val d"
    using assms by (auto simp: char_less_byte is_ascii_digit_def digit_val_def)
  have "digit_val c = digit_val d \<longleftrightarrow> byte c = byte d"
    using assms by (auto simp: is_ascii_digit_def digit_val_def)
  then show "digit_val c = digit_val d \<longleftrightarrow> c = d" by (simp add: byte_eq_iff)
qed

lemma cmp_digit:
  "is_ascii_digit c \<Longrightarrow> is_ascii_digit d \<Longrightarrow> cmp c d = cmp (digit_val c) (digit_val d)"
  using digit_order [of c d] by (auto simp: cmp_def)

lemma zero_digit [simp]: "is_ascii_digit CHR ''0''" "digit_val CHR ''0'' = 0"
  by (simp_all add: is_ascii_digit_def digit_val_def byte_def)

lemma zero_digit_iff: "is_ascii_digit c \<Longrightarrow> digit_val c = 0 \<longleftrightarrow> c = CHR ''0''"
  using digit_order(2) [of c "CHR ''0''"] by simp

lemma not_digits [simp]:
  "\<not> is_ascii_digit CHR ''-''" "\<not> is_ascii_digit CHR ''+''" "\<not> is_ascii_digit CHR ''.''"
  "\<not> is_ascii_digit CHR ''e''" "\<not> is_ascii_digit CHR ''E''"
  by (simp_all add: is_ascii_digit_def byte_def)

lemma all_digits_simps [simp]:
  "all_digits []" "all_digits (c # s) \<longleftrightarrow> is_ascii_digit c \<and> all_digits s"
  "all_digits (s @ t) \<longleftrightarrow> all_digits s \<and> all_digits t" "all_digits (rev s) = all_digits s"
  by (auto simp: all_digits_def list_all_iff)

lemma digits_val_Nil [simp]: "digits_val [] = 0"
  by (simp add: digits_val_def)

lemma digits_val_snoc [simp]: "digits_val (s @ [d]) = 10 * digits_val s + digit_val d"
  by (simp add: digits_val_def)

lemma digits_val_append: "digits_val (s @ t) = digits_val s * 10 ^ length t + digits_val t"
proof (induction t rule: rev_induct)
  case (snoc d t)
  then show ?case using digits_val_snoc [of "s @ t" d] by (simp add: algebra_simps)
qed simp

lemma digits_val_Cons: "digits_val (d # s) = digit_val d * 10 ^ length s + digits_val s"
  using digits_val_append [of "[d]" s] digits_val_snoc [of "[]" d] by simp

lemma digits_val_less: "all_digits s \<Longrightarrow> digits_val s < 10 ^ length s"
proof (induction s)
  case (Cons d s)
  then have d: "digit_val d \<le> 9" and s: "digits_val s < 10 ^ length s" by (simp_all add: digit_val_le)
  have "digit_val d * 10 ^ length s + digits_val s < 9 * 10 ^ length s + 10 ^ length s"
    using mult_right_mono [OF d, of "10 ^ length s"] s by (intro add_le_less_mono) simp_all
  then show ?case by (simp add: digits_val_Cons)
qed simp

lemma digits_val_trim [simp]: "digits_val (trim_zeros s) = digits_val s"
  by (induction s) (auto simp: trim_zeros_def digits_val_Cons)

lemma all_digits_trim: "all_digits s \<Longrightarrow> all_digits (trim_zeros s)"
  by (auto simp: trim_zeros_def all_digits_def list_all_iff dest: set_dropWhileD)

lemma hd_trim: "trim_zeros s = c # r \<Longrightarrow> c \<noteq> CHR ''0''"
  unfolding trim_zeros_def by (drule dropWhile_eq_Cons_conv [THEN iffD1]) simp

lemma digits_val_show_nat [simp]: "digits_val (show_nat n) = n"
proof (induction n rule: show_nat.induct)
  case (1 n)
  then show ?case
    using digits_val_snoc [of "[]" "digit_char n"] by (cases "n < 10") (simp_all add: show_nat.simps [of n])
qed

lemma all_digits_show_nat [simp]: "all_digits (show_nat n)"
proof (induction n rule: show_nat.induct)
  case (1 n)
  then show ?case by (cases "n < 10") (simp_all add: show_nat.simps [of n])
qed

lemma hd_digits_nonzero:
  "all_digits (c # s) \<Longrightarrow> c \<noteq> CHR ''0'' \<Longrightarrow> 10 ^ length s \<le> digits_val (c # s)"
  using zero_digit_iff [of c] by (cases "digit_val c") (auto simp: digits_val_Cons)

lemma hd_show_nat: "0 < n \<Longrightarrow> show_nat n = c # s \<Longrightarrow> c \<noteq> CHR ''0''"
proof (induction n arbitrary: c s rule: show_nat.induct)
  case (1 n)
  show ?case
  proof (cases "n < 10")
    case True
    with 1 have c: "c = digit_char n" by (simp add: show_nat.simps [of n])
    have "digit_val (digit_char n) = n" using True by simp
    then show ?thesis using c 1(2) by auto
  next
    case False
    obtain d r where d: "show_nat (n div 10) = d # r" using show_nat_nonempty by (meson list.exhaust)
    then have "c = d" using False 1(3) by (simp add: show_nat.simps [of n])
    with 1(1) [OF False _ d] False show ?thesis by simp
  qed
qed

text \<open>Digits without leading zeros are compared by length first.\<close>

definition no_leading_zero :: "string \<Rightarrow> bool" where
  "no_leading_zero s \<longleftrightarrow> all_digits s \<and> (\<exists>c r. s = c # r \<and> c \<noteq> CHR ''0'')"

lemma cmp_same_length:
  "length a = length b \<Longrightarrow> all_digits a \<Longrightarrow> all_digits b \<Longrightarrow> cmp a b = cmp (digits_val a) (digits_val b)"
proof (induction a b rule: list_induct2)
  case (Cons x xs y ys)
  then have ih: "cmp xs ys = cmp (digits_val xs) (digits_val ys)" by simp
  have lt: "digits_val xs < 10 ^ length ys" "digits_val ys < 10 ^ length ys"
    using digits_val_less [of xs] digits_val_less [of ys] Cons by simp_all
  have xy: "cmp x y = cmp (digit_val x) (digit_val y)" using Cons by (simp add: cmp_digit)
  have "cmp (x # xs) (y # ys) = then_with (cmp x y) (cmp xs ys)"
    by (auto simp: cmp_def)
  also have "\<dots> = cmp (digit_val x * 10 ^ length ys + digits_val xs) (digit_val y * 10 ^ length ys + digits_val ys)"
  proof (cases "digit_val x" "digit_val y" rule: linorder_cases)
    case less
    then have "(digit_val x + 1) * 10 ^ length ys \<le> digit_val y * 10 ^ length ys" by (intro mult_right_mono) simp_all
    then have "digit_val x * 10 ^ length ys + digits_val xs < digit_val y * 10 ^ length ys + digits_val ys"
      using lt by simp
    then have "cmp (digit_val x * 10 ^ length ys + digits_val xs) (digit_val y * 10 ^ length ys + digits_val ys) = Less"
      by (simp only: cmp_simps)
    moreover have "cmp x y = Less" using less by (simp only: xy cmp_simps)
    ultimately show ?thesis by (simp only: then_with.simps)
  next
    case greater
    then have "(digit_val y + 1) * 10 ^ length ys \<le> digit_val x * 10 ^ length ys" by (intro mult_right_mono) simp_all
    then have "digit_val y * 10 ^ length ys + digits_val ys < digit_val x * 10 ^ length ys + digits_val xs"
      using lt by simp
    then have "cmp (digit_val x * 10 ^ length ys + digits_val xs) (digit_val y * 10 ^ length ys + digits_val ys) = Greater"
      by (simp only: cmp_simps)
    moreover have "cmp x y = Greater" using greater by (simp only: xy cmp_simps)
    ultimately show ?thesis by (simp only: then_with.simps)
  next
    case equal
    then have "cmp x y = Equal" by (simp only: xy cmp_simps)
    moreover have "cmp (k + a) (k + b) = cmp a b" for k a b :: nat by (simp add: cmp_def)
    ultimately show ?thesis using equal by (simp only: then_with.simps ih)
  qed
  finally show ?case using Cons by (simp add: digits_val_Cons)
qed simp

lemma cmp_length_text_val:
  assumes a: "no_leading_zero a" and b: "no_leading_zero b"
  shows "cmp_length_text a b = cmp (digits_val a) (digits_val b)"
proof -
  have shorter: "digits_val x < digits_val y"
    if "length x < length y" "no_leading_zero x" "no_leading_zero y" for x y
  proof -
    from that(3) obtain c r where y: "y = c # r" "c \<noteq> CHR ''0''" "all_digits (c # r)" by (auto simp: no_leading_zero_def)
    have "digits_val x < 10 ^ length x" using that by (simp add: no_leading_zero_def digits_val_less)
    also have "(10::nat) ^ length x \<le> 10 ^ length r" using that y by (intro power_increasing) simp_all
    also have "\<dots> \<le> digits_val y" using hd_digits_nonzero [of c r] y by simp
    finally show ?thesis .
  qed
  show ?thesis
  proof (cases "length a" "length b" rule: linorder_cases)
    case less
    with shorter [OF _ a b] show ?thesis by (simp add: cmp_length_text_def cmp_def)
  next
    case equal
    with a b cmp_same_length [of a b] show ?thesis by (simp add: cmp_length_text_def no_leading_zero_def)
  next
    case greater
    with shorter [OF _ b a] show ?thesis by (simp add: cmp_length_text_def cmp_def)
  qed
qed

section \<open>Exponents\<close>

text \<open>The loop adds to, or takes from, the number that the digits denote.\<close>

abbreviation rev_val :: "string \<Rightarrow> nat" where
  "rev_val ds \<equiv> digits_val (rev ds)"

lemma shift_digits_shape:
  "shift_digits up c ds = (es, c') \<Longrightarrow> all_digits ds \<Longrightarrow> length es = length ds \<and> all_digits es"
proof (induction ds arbitrary: c es c')
  case (Cons d ds)
  show ?case
  proof (cases "c = 0")
    case False
    let ?p = "c mod 10"
    let ?v = "digit_val d"
    let ?e = "if up then digit_char ((?v + ?p) mod 10) else if ?v < ?p then digit_char (?v + 10 - ?p) else digit_char (?v - ?p)"
    let ?c = "if up then c div 10 + (if 10 \<le> ?v + ?p then 1 else 0) else if ?v < ?p then c div 10 + 1 else c div 10"
    obtain fs c2 where rest: "shift_digits up ?c ds = (fs, c2)" by (meson surj_pair)
    then have es: "es = ?e # fs" using Cons.prems(1) False by (auto simp: Let_def split: if_splits)
    have "?v < 10" using Cons.prems(2) by simp
    then have "is_ascii_digit ?e" by auto
    then show ?thesis using Cons.IH [OF rest] Cons.prems(2) es by simp
  qed (use Cons in simp)
qed simp

lemma shift_digits_up:
  "shift_digits True c ds = (es, c') \<Longrightarrow> all_digits ds \<Longrightarrow>
   rev_val es + c' * 10 ^ length ds = rev_val ds + c"
proof (induction ds arbitrary: c es c')
  case (Cons d ds)
  show ?case
  proof (cases "c = 0")
    case False
    let ?s = "digit_val d + c mod 10"
    have s: "?s < 20" using Cons.prems(2) digit_val_le [of d] mod_less_divisor [of 10 c] by (simp del: mod_less_divisor)
    obtain fs c2 where rest: "shift_digits True (c div 10 + (if 10 \<le> ?s then 1 else 0)) ds = (fs, c2)"
      by (meson surj_pair)
    have e: "es = digit_char (?s mod 10) # fs" "c' = c2"
      using Cons.prems(1) False rest by (simp_all add: Let_def)
    have ih: "rev_val fs + c2 * 10 ^ length ds = rev_val ds + (c div 10 + (if 10 \<le> ?s then 1 else 0))"
      using Cons.IH [OF rest] Cons.prems(2) by simp
    have "n mod 10 + 10 * (if 10 \<le> n then 1 else 0) = n" if "n < 20" for n :: nat
      using that by (auto simp: le_mod_geq)
    note carry = this [OF s]
    have sum: "10 * (r + (q + b)) + m = 10 * r + v + n" if "m + 10 * b = v + p" "n = 10 * q + p" for r q b m v n p :: nat
      using that by (simp add: algebra_simps)
    have "10 * (rev_val fs + c2 * 10 ^ length ds) + ?s mod 10 = 10 * rev_val ds + digit_val d + c"
      unfolding ih by (rule sum [OF carry]) simp
    then show ?thesis by (simp add: e algebra_simps)
  qed (use Cons in simp)
qed simp

lemma shift_digits_down:
  "shift_digits False c ds = (es, c') \<Longrightarrow> all_digits ds \<Longrightarrow>
   rev_val es + c = rev_val ds + c' * 10 ^ length ds"
proof (induction ds arbitrary: c es c')
  case (Cons d ds)
  show ?case
  proof (cases "c = 0")
    case False
    let ?p = "c mod 10"
    let ?v = "digit_val d"
    let ?b = "if ?v < ?p then 1 else 0 :: nat"
    have v: "?v < 10" using Cons.prems(2) by simp
    obtain fs c2 where rest: "shift_digits False (c div 10 + ?b) ds = (fs, c2)" by (meson surj_pair)
    have e: "es = digit_char (?v + 10 * ?b - ?p) # fs" "c' = c2"
      using Cons.prems(1) False rest by (auto simp: Let_def split: if_splits)
    have lt: "?v + 10 * ?b - ?p < 10" "?p \<le> ?v + 10 * ?b" using v by auto
    have ih: "rev_val fs + (c div 10 + ?b) = rev_val ds + c2 * 10 ^ length ds"
      using Cons.IH [OF rest] Cons.prems(2) by simp
    have difference: "10 * f + (v + 10 * b - p) + n = 10 * g + v"
      if "f + (q + b) = g" "p \<le> v + 10 * b" "n = 10 * q + p" for f g q b v n p :: nat
      using that by linarith
    have "10 * rev_val fs + (?v + 10 * ?b - ?p) + c = 10 * (rev_val ds + c2 * 10 ^ length ds) + ?v"
      by (rule difference [OF ih lt(2)]) simp
    then show ?thesis using lt(1) by (simp add: e algebra_simps)
  qed (use Cons in simp)
qed simp

lemma shift_digits_no_borrow:
  assumes "shift_digits False c ds = (es, c')" "all_digits ds" "c \<le> rev_val ds"
  shows "c' = 0"
proof -
  have "rev_val es < 10 ^ length ds"
    using shift_digits_shape [OF assms(1,2)] digits_val_less [of "rev es"] by simp
  moreover have "c' * 10 ^ length ds \<le> rev_val es"
    using shift_digits_down [OF assms(1,2)] assms(3) by simp
  ultimately show ?thesis by (cases c') auto
qed


text \<open>The exponent that a key holds; every exponent has one representation.\<close>

definition signed_val :: "bool \<Rightarrow> string \<Rightarrow> int" where
  "signed_val neg ds = (if neg then - int (digits_val ds) else int (digits_val ds))"

fun exponent_val :: "decimal_exponent \<Rightarrow> int" where
  "exponent_val (Small v) = v"
| "exponent_val (Large neg ds) = signed_val neg ds"

fun exponent_ok :: "decimal_exponent \<Rightarrow> bool" where
  "exponent_ok (Small v) \<longleftrightarrow> in_i64 v"
| "exponent_ok (Large neg ds) \<longleftrightarrow> no_leading_zero ds \<and> \<not> in_i64 (signed_val neg ds)"

definition sign_text :: "bool \<Rightarrow> string" where
  "sign_text neg = (if neg then ''-'' else [])"

lemma parse_exponent_digits:
  "all_digits ds \<Longrightarrow> ds \<noteq> [] \<Longrightarrow> parse_exponent (sign_text neg @ ds) = Some (signed_val neg ds)"
  by (cases ds) (auto simp: parse_exponent_def sign_text_def signed_val_def Let_def)

lemma parse_exponent_SomeE:
  assumes "parse_exponent s = Some v"
  obtains neg ds where "all_digits ds" "ds \<noteq> []" "v = signed_val neg ds"
    "starts_with ''-'' s = neg" "dropWhile is_sign s = ds"
proof (cases s)
  case Nil
  with assms show ?thesis by (simp add: parse_exponent_def)
next
  case (Cons c r)
  have keep: "dropWhile is_sign (d # ds) = d # ds" if "is_ascii_digit d" for d ds
    using that by (auto simp: is_sign_def)
  consider (minus) "c = CHR ''-''" | (plus) "c = CHR ''+''" | (digit) "c \<noteq> CHR ''-''" "c \<noteq> CHR ''+''" by blast
  then show ?thesis
  proof cases
    case minus
    with assms Cons have "all_digits r" "r \<noteq> []" "v = - int (digits_val r)"
      by (auto simp: parse_exponent_def split: if_splits)
    with minus Cons keep show ?thesis
      by (intro that [of r True]) (auto simp: signed_val_def starts_with_def is_sign_def neq_Nil_conv)
  next
    case plus
    with assms Cons have "all_digits r" "r \<noteq> []" "v = int (digits_val r)"
      by (auto simp: parse_exponent_def split: if_splits)
    with plus Cons keep show ?thesis
      by (intro that [of r False]) (auto simp: signed_val_def starts_with_def is_sign_def neq_Nil_conv)
  next
    case digit
    with assms Cons have "all_digits s" "v = int (digits_val s)"
      by (auto simp: parse_exponent_def split: if_splits)
    with digit Cons keep show ?thesis
      by (intro that [of s False]) (auto simp: signed_val_def starts_with_def is_sign_def)
  qed
qed

lemma parse_i64_digits:
  "all_digits ds \<Longrightarrow> ds \<noteq> [] \<Longrightarrow>
   parse_i64 (if neg then ''-'' @ ds else ds) = (if in_i64 (signed_val neg ds) then Some (signed_val neg ds) else None)"
  using parse_exponent_digits [of ds neg] by (auto simp: parse_i64_def sign_text_def split: if_splits)

lemma no_leading_zero_trim: "all_digits s \<Longrightarrow> 0 < digits_val s \<Longrightarrow> no_leading_zero (trim_zeros s)"
proof -
  assume s: "all_digits s" "0 < digits_val s"
  then have "trim_zeros s \<noteq> []" using digits_val_trim [of s] by fastforce
  then obtain c r where "trim_zeros s = c # r" by (cases "trim_zeros s") auto
  then show ?thesis
    unfolding no_leading_zero_def using all_digits_trim [OF s(1)] hd_trim by blast
qed

lemma shifted_digits:
  assumes d: "all_digits d" and shift: "shift_digits (0 \<le> a) (nat \<bar>a\<bar>) (rev d) = (es, c)"
    and sum: "0 < int (digits_val d) + a" and bound: "a < 0 \<longrightarrow> nat \<bar>a\<bar> \<le> digits_val d"
  defines "ds \<equiv> (if 0 < c then show_nat c @ rev es else trim_zeros (rev es))"
  shows "no_leading_zero ds" and "int (digits_val ds) = int (digits_val d) + a"
proof -
  have es: "length es = length d" "all_digits es" using shift_digits_shape [OF shift] d by simp_all
  have "int (digits_val ds) = int (digits_val d) + a \<and> no_leading_zero ds"
  proof (cases "0 \<le> a")
    case True
    then have val: "digits_val (rev es) + c * 10 ^ length d = digits_val d + nat a"
      using shift_digits_up [of "nat \<bar>a\<bar>" "rev d" es c] shift d by simp
    show ?thesis
    proof (cases "0 < c")
      case True
      obtain x r where xr: "show_nat c = x # r" by (cases "show_nat c") auto
      have "digits_val ds = digits_val d + nat a"
        using True val es(1) by (simp add: ds_def digits_val_append)
      moreover have "no_leading_zero ds"
        using True es(2) xr hd_show_nat [OF True xr] all_digits_show_nat [of c]
        by (simp add: ds_def no_leading_zero_def del: all_digits_show_nat)
      ultimately show ?thesis using \<open>0 \<le> a\<close> by simp
    next
      case False
      then have "int (digits_val (rev es)) = int (digits_val d) + a" using val \<open>0 \<le> a\<close> by simp
      moreover from this have "0 < digits_val (rev es)" using sum by linarith
      ultimately show ?thesis
        using False es(2) no_leading_zero_trim [of "rev es"] by (simp add: ds_def)
    qed
  next
    case False
    then have sh: "shift_digits False (nat \<bar>a\<bar>) (rev d) = (es, c)" using shift by simp
    have "c = 0" using shift_digits_no_borrow [OF sh] d bound False by simp
    then have "digits_val (rev es) + nat \<bar>a\<bar> = digits_val d"
      using shift_digits_down [OF sh] d by simp
    then have "int (digits_val (rev es)) = int (digits_val d) + a" using False by simp
    moreover from this have "0 < digits_val (rev es)" using sum by linarith
    ultimately show ?thesis
      using \<open>c = 0\<close> es(2) no_leading_zero_trim [of "rev es"] by (simp add: ds_def)
  qed
  then show "no_leading_zero ds" "int (digits_val ds) = int (digits_val d) + a" by simp_all
qed

lemma shifted_exact:
  assumes token: "parse_exponent token = Some v" and offset: "\<bar>offset\<bar> \<le> i64_max"
  shows "exponent_ok (shifted token offset) \<and> exponent_val (shifted token offset) = v + offset"
proof (cases "Option.bind (parse_i64 token) (\<lambda>v. checked_add_i64 v offset)")
  case (Some w)
  then have "in_i64 v" "w = v + offset" "in_i64 w"
    using token by (auto simp: parse_i64_def checked_add_i64_Some bind_eq_Some_conv split: if_splits)
  then show ?thesis by (simp add: shifted_def Some)
next
  case None
  have out: "\<not> in_i64 v \<or> \<not> in_i64 (v + offset)"
    using None token by (auto simp: parse_i64_def checked_add_i64_def in_i64_def split: if_splits)
  from token obtain neg d where d: "all_digits d" "d \<noteq> []" and v: "v = signed_val neg d"
      and neg: "starts_with ''-'' token = neg" and drop: "dropWhile is_sign token = d"
    by (rule parse_exponent_SomeE)
  define a where "a = (if neg then - offset else offset)"
  obtain es c where shift: "shift_digits (0 \<le> a) (nat \<bar>a\<bar>) (rev (trim_zeros d)) = (es, c)" by (meson surj_pair)
  define ds where "ds = (if 0 < c then show_nat c @ rev es else trim_zeros (rev es))"
  have va: "v + offset = (if neg then - (int (digits_val d) + a) else int (digits_val d) + a)"
    by (simp add: v a_def signed_val_def)
  have big: "nat \<bar>a\<bar> \<le> digits_val d" if "a < 0"
  proof (rule ccontr)
    assume "\<not> ?thesis"
    then show False using that out offset by (auto simp: v a_def signed_val_def in_i64_def split: if_splits)
  qed
  have pos: "0 < int (digits_val d) + a"
    using out offset big by (auto simp: v a_def signed_val_def in_i64_def split: if_splits)
  have ds: "no_leading_zero ds" "int (digits_val ds) = int (digits_val d) + a"
    unfolding ds_def using shifted_digits [OF all_digits_trim [OF d(1)] shift] pos big by simp_all
  have val: "signed_val neg ds = v + offset" using ds(2) va by (simp add: signed_val_def)
  have nz: "all_digits ds" "ds \<noteq> []" using ds(1) by (auto simp: no_leading_zero_def)
  have "shifted_text token offset =
      (case parse_i64 (if neg then ''-'' @ ds else ds) of Some v \<Rightarrow> Small v | None \<Rightarrow> Large neg ds)"
    unfolding shifted_text_def neg drop Let_def a_def [symmetric] shift prod.case ds_def [symmetric] by (rule refl)
  also have "\<dots> = (if in_i64 (v + offset) then Small (v + offset) else Large neg ds)"
    unfolding parse_i64_digits [OF nz] val by simp
  finally have "shifted token offset = (if in_i64 (v + offset) then Small (v + offset) else Large neg ds)"
    by (simp add: shifted_def None)
  then show ?thesis using ds(1) val by simp
qed

lemma in_i64_large: "\<not> in_i64 (signed_val neg ds) \<Longrightarrow> in_i64 v \<Longrightarrow> if neg then signed_val neg ds < v else v < signed_val neg ds"
  by (auto simp: in_i64_def signed_val_def)

lemma compare_exponent_exact:
  "exponent_ok a \<Longrightarrow> exponent_ok b \<Longrightarrow> compare_exponent a b = cmp (exponent_val a) (exponent_val b)"
proof (induction a b rule: compare_exponent.induct)
  case (2 neg ds b)
  then show ?case using in_i64_large [of neg ds b] by (auto simp: cmp_def split: if_splits)
next
  case (3 a neg ds)
  then show ?case using in_i64_large [of neg ds a] by (auto simp: cmp_def split: if_splits)
next
  case (4 m a n b)
  have pos: "0 < digits_val x" if "no_leading_zero x" for x
  proof -
    from that obtain c r where "x = c # r" "c \<noteq> CHR ''0''" "all_digits (c # r)" by (auto simp: no_leading_zero_def)
    with hd_digits_nonzero [of c r] show ?thesis by (cases "digits_val x") auto
  qed
  have "cmp_length_text a b = cmp (digits_val a) (digits_val b)" using 4 by (simp add: cmp_length_text_val)
  moreover have "cmp (int i) (int j) = cmp i j" "cmp (- int i) (- int j) = cmp j i" for i j
    by (simp_all add: cmp_def)
  ultimately show ?case using 4 pos [of a] pos [of b] by (auto simp: signed_val_def cmp_def)
qed simp

section \<open>Keys\<close>

text \<open>The digits after the point.\<close>

fun fraction_val :: "string \<Rightarrow> rat" where
  "fraction_val [] = 0"
| "fraction_val (d # ds) = (of_nat (digit_val d) + fraction_val ds) / 10"

lemma fraction_val_digits: "fraction_val ds = of_nat (digits_val ds) / 10 ^ length ds"
  by (induction ds) (simp_all add: digits_val_Cons field_simps)

lemma fraction_val_bounds: "all_digits ds \<Longrightarrow> 0 \<le> fraction_val ds \<and> fraction_val ds < 1"
proof (induction ds)
  case (Cons d ds)
  then have "(of_nat (digit_val d) :: rat) \<le> of_nat 9" by (intro of_nat_mono) (simp add: digit_val_le)
  with Cons show ?case by simp
qed simp

lemma fraction_val_lower: "no_leading_zero ds \<Longrightarrow> 1 / 10 \<le> fraction_val ds"
proof -
  assume "no_leading_zero ds"
  then obtain c r where ds: "ds = c # r" "c \<noteq> CHR ''0''" "is_ascii_digit c" "all_digits r"
    by (auto simp: no_leading_zero_def)
  then have "digit_val c \<noteq> 0" by (simp add: zero_digit_iff)
  then have "(1::rat) \<le> of_nat (digit_val c)" by (simp add: Suc_leI flip: One_nat_def)
  with ds fraction_val_bounds [of r] show ?thesis by simp
qed

lemma cmp_then_digit:
  assumes "is_ascii_digit a" "is_ascii_digit b" "0 \<le> x" "x < 1" "0 \<le> y" "y < (1::rat)"
  shows "then_with (cmp a b) (cmp x y) = cmp ((of_nat (digit_val a) + x) / 10) ((of_nat (digit_val b) + y) / 10)"
proof (cases "digit_val a" "digit_val b" rule: linorder_cases)
  case less
  then have "(of_nat (digit_val a) + 1 :: rat) \<le> of_nat (digit_val b)"
    by (simp flip: of_nat_Suc)
  with assms have r: "cmp ((of_nat (digit_val a) + x) / 10) ((of_nat (digit_val b) + y) / 10) = Less" by simp
  have "cmp a b = Less" using less by (simp only: cmp_digit [OF assms(1,2)] cmp_simps)
  then show ?thesis by (simp only: r then_with.simps)
next
  case equal
  then have "a = b" using digit_order(2) [OF assms(1,2)] by simp
  then show ?thesis by (simp add: cmp_def)
next
  case greater
  then have "(of_nat (digit_val b) + 1 :: rat) \<le> of_nat (digit_val a)"
    by (simp flip: of_nat_Suc)
  with assms have r: "cmp ((of_nat (digit_val a) + x) / 10) ((of_nat (digit_val b) + y) / 10) = Greater" by simp
  have "cmp a b = Greater" using greater by (simp only: cmp_digit [OF assms(1,2)] cmp_simps)
  then show ?thesis by (simp only: r then_with.simps)
qed

lemma cmp_digits_exact:
  "all_digits a \<Longrightarrow> all_digits b \<Longrightarrow> cmp_digits a b = cmp (fraction_val a) (fraction_val b)"
proof (induction a b rule: cmp_digits.induct)
  case (2 a as)
  then show ?case using cmp_then_digit [of a "CHR ''0''" "fraction_val as" 0] fraction_val_bounds [of as] by simp
next
  case (3 b bs)
  then show ?case using cmp_then_digit [of "CHR ''0''" b 0 "fraction_val bs"] fraction_val_bounds [of bs] by simp
next
  case (4 a as b bs)
  then show ?case
    using cmp_then_digit [of a b "fraction_val as" "fraction_val bs"] fraction_val_bounds [of as] fraction_val_bounds [of bs]
    by simp
qed simp

text \<open>What a key says: \<open>0.d1d2... * 10 ^ e\<close> with a first digit that is not zero.\<close>

definition key_ok :: "numeric_key \<Rightarrow> bool" where
  "key_ok k \<longleftrightarrow> (nk_digits k \<noteq> [] \<longrightarrow> no_leading_zero (plain_digits k) \<and> exponent_ok (nk_magnitude k))"

definition key_magnitude :: "numeric_key \<Rightarrow> rat" where
  "key_magnitude k = fraction_val (plain_digits k) * power_int 10 (exponent_val (nk_magnitude k))"

definition key_value :: "numeric_key \<Rightarrow> rat" where
  "key_value k =
     (if nk_digits k = [] then 0 else (if nk_negative k then - key_magnitude k else key_magnitude k))"

lemma magnitude_bounds:
  assumes "no_leading_zero ds"
  shows "power_int 10 (e - 1) \<le> fraction_val ds * power_int 10 e" and "fraction_val ds * power_int 10 e < power_int 10 e"
proof -
  have "power_int (10::rat) (e - 1) = 1 / 10 * power_int 10 e" by (simp add: power_int_diff)
  also have "\<dots> \<le> fraction_val ds * power_int 10 e"
    using fraction_val_lower [OF assms] by (intro mult_right_mono) simp_all
  finally show "power_int 10 (e - 1) \<le> fraction_val ds * power_int 10 e" .
  have "fraction_val ds < 1" using fraction_val_bounds assms by (auto simp: no_leading_zero_def)
  then show "fraction_val ds * power_int 10 e < power_int 10 e"
    using mult_strict_right_mono [of "fraction_val ds" 1 "power_int 10 e"] by simp
qed

lemma cmp_magnitude:
  assumes "no_leading_zero a" "no_leading_zero b"
  shows "then_with (cmp i j) (cmp (fraction_val a) (fraction_val b))
     = cmp (fraction_val a * power_int 10 i) (fraction_val b * power_int 10 j)"
proof -
  have below: "fraction_val x * power_int 10 m < fraction_val y * power_int 10 n"
    if "m < n" "no_leading_zero x" "no_leading_zero y" for x y m n
  proof -
    have "fraction_val x * power_int 10 m < power_int 10 m" using that(2) by (rule magnitude_bounds)
    also have "\<dots> \<le> power_int 10 (n - 1)" using that(1) by (intro power_int_increasing) simp_all
    also have "\<dots> \<le> fraction_val y * power_int 10 n" using that(3) by (rule magnitude_bounds)
    finally show ?thesis .
  qed
  show ?thesis
  proof (cases i j rule: linorder_cases)
    case less
    have "cmp i j = Less" "cmp (fraction_val a * power_int 10 i) (fraction_val b * power_int 10 j) = Less"
      using less below [OF less assms] by (simp_all only: cmp_simps)
    then show ?thesis by (simp only: then_with.simps)
  next
    case equal
    then show ?thesis by (simp add: cmp_def)
  next
    case greater
    have "cmp i j = Greater" "cmp (fraction_val a * power_int 10 i) (fraction_val b * power_int 10 j) = Greater"
      using greater below [OF greater assms(2,1)] by (simp_all only: cmp_simps)
    then show ?thesis by (simp only: then_with.simps)
  qed
qed

lemma key_magnitude_pos: "key_ok k \<Longrightarrow> nk_digits k \<noteq> [] \<Longrightarrow> 0 < key_magnitude k"
  using fraction_val_lower [of "plain_digits k"] by (simp add: key_magnitude_def key_ok_def)

lemma compare_key_exact:
  assumes ok: "key_ok k" "key_ok l"
    and ints: "\<And>i. nk_integer k = Some i \<Longrightarrow> key_value k = of_int i" "\<And>i. nk_integer l = Some i \<Longrightarrow> key_value l = of_int i"
  shows "compare_key k l = cmp (key_value k) (key_value l)"
proof (cases "nk_integer k \<noteq> None \<and> nk_integer l \<noteq> None")
  case True
  then obtain i j where "nk_integer k = Some i" "nk_integer l = Some j" by auto
  with ints show ?thesis by (simp add: compare_key_def) (simp add: cmp_def)
next
  case False
  let ?order = "then_with (compare_exponent (nk_magnitude k) (nk_magnitude l)) (cmp_digits (plain_digits k) (plain_digits l))"
  have c: "compare_key k l =
     (if nk_digits k = [] then (if nk_digits l = [] then Equal else if nk_negative l then Greater else Less)
      else if nk_digits l = [] then (if nk_negative k then Less else Greater)
      else if nk_negative k \<noteq> nk_negative l then (if nk_negative k then Less else Greater)
      else if nk_negative k then reverse_order ?order else ?order)"
    using False by (auto simp: compare_key_def Let_def split: option.splits)
  show ?thesis
  proof (cases "nk_digits k = [] \<or> nk_digits l = []")
    case True
    then show ?thesis
      using key_magnitude_pos [OF ok(1)] key_magnitude_pos [OF ok(2)]
      by (auto simp: c key_value_def cmp_def split: if_splits)
  next
    case False
    then have pos: "0 < key_magnitude k" "0 < key_magnitude l"
      using key_magnitude_pos ok by simp_all
    have plain: "all_digits (plain_digits k)" "all_digits (plain_digits l)" "no_leading_zero (plain_digits k)" "no_leading_zero (plain_digits l)"
      using ok False by (auto simp: key_ok_def no_leading_zero_def)
    have "?order = cmp (key_magnitude k) (key_magnitude l)"
      using ok False plain
      by (simp add: compare_exponent_exact key_ok_def cmp_digits_exact cmp_magnitude key_magnitude_def)
    moreover have "cmp (- x) (- y) = cmp y x" for x y :: rat by (simp add: cmp_def)
    ultimately show ?thesis
      using False pos by (auto simp: c key_value_def)
  qed
qed

section \<open>Tokens\<close>

lemma split_at_char_None:
  "split_at_char P s = (a, None) \<Longrightarrow> s = a \<and> (\<forall>c \<in> set s. \<not> P c)"
  by (induction s arbitrary: a) (auto split: if_splits prod.splits)

lemma split_at_char_Some:
  "split_at_char P s = (a, Some b) \<Longrightarrow> (\<exists>c. s = a @ c # b \<and> P c) \<and> (\<forall>c \<in> set a. \<not> P c)"
  by (induction s arbitrary: a) (auto split: if_splits prod.splits)

text \<open>The mantissa without its point is the whole part followed by the fraction.\<close>

lemma mantissa_parts:
  assumes "split_at_char is_point m = (whole, fraction)" and "part = (case fraction of None \<Rightarrow> [] | Some f \<Rightarrow> f)"
    and "all_digits (whole @ part)"
  shows "filter (\<lambda>c. \<not> is_point c) m = whole @ part" and "length (takeWhile (\<lambda>c. \<not> is_point c) m) = length whole"
    and "length (filter is_point m) \<le> 1" and "set m \<subseteq> set (whole @ part) \<union> {CHR ''.''}"
proof -
  have np: "\<not> is_point c" if "c \<in> set (whole @ part)" for c
  proof -
    have "is_ascii_digit c" using assms(3) that by (simp add: all_digits_def list_all_iff del: all_digits_simps)
    then show ?thesis by (auto simp: is_point_def)
  qed
  have "(filter (\<lambda>c. \<not> is_point c) m = whole @ part \<and> length (takeWhile (\<lambda>c. \<not> is_point c) m) = length whole)
     \<and> length (filter is_point m) \<le> 1 \<and> set m \<subseteq> set (whole @ part) \<union> {CHR ''.''}"
  proof (cases fraction)
    case None
    with assms split_at_char_None [of is_point m whole] np show ?thesis
      by (auto simp: takeWhile_eq_all_conv [THEN iffD2] filter_empty_conv [THEN iffD2] filter_id_conv)
  next
    case (Some f)
    with assms split_at_char_Some [of is_point m whole f] obtain c where m: "m = whole @ c # f" "is_point c" by auto
    have f: "part = f" using assms(2) Some by simp
    have e: "filter is_point whole = []" "filter is_point f = []" "filter (\<lambda>c. \<not> is_point c) whole = whole"
        "filter (\<lambda>c. \<not> is_point c) f = f" "takeWhile (\<lambda>c. \<not> is_point c) whole = whole"
      using np f by (auto simp: filter_empty_conv filter_id_conv takeWhile_eq_all_conv)
    show ?thesis using m e np by (simp add: f takeWhile_append) (auto simp: is_point_def)
  qed
  then show "filter (\<lambda>c. \<not> is_point c) m = whole @ part" "length (takeWhile (\<lambda>c. \<not> is_point c) m) = length whole"
    "length (filter is_point m) \<le> 1" "set m \<subseteq> set (whole @ part) \<union> {CHR ''.''}" by simp_all
qed

lemma digits_val_zeros: "\<forall>c \<in> set s. c = CHR ''0'' \<Longrightarrow> digits_val (s @ t) = digits_val t"
  by (induction s) (simp_all add: digits_val_Cons)

text \<open>Where the first digit that is not zero stands.\<close>

lemma first_digit:
  assumes count: "length (filter is_point m) \<le> 1"
  defines "pre \<equiv> takeWhile (\<lambda>c. c = CHR ''0'' \<or> is_point c) m"
    and "post \<equiv> dropWhile (\<lambda>c. c = CHR ''0'' \<or> is_point c) m"
  shows "drop (length pre) m = post"
    and "length (filter (\<lambda>c. \<not> is_point c) pre)
       = length pre - (if length (takeWhile (\<lambda>c. \<not> is_point c) m) < length pre then 1 else 0)"
    and "\<forall>c \<in> set (filter (\<lambda>c. \<not> is_point c) pre). c = CHR ''0''"
    and "post \<noteq> [] \<Longrightarrow> hd post \<noteq> CHR ''0'' \<and> \<not> is_point (hd post)"
proof -
  have m: "m = pre @ post" by (simp add: pre_def post_def)
  then show "drop (length pre) m = post" by simp
  have pre: "c = CHR ''0'' \<or> is_point c" if "c \<in> set pre" for c
    using that set_takeWhileD unfolding pre_def by fast
  then show "\<forall>c \<in> set (filter (\<lambda>c. \<not> is_point c) pre). c = CHR ''0''" by auto
  show "hd post \<noteq> CHR ''0'' \<and> \<not> is_point (hd post)" if "post \<noteq> []"
    using that hd_dropWhile unfolding post_def by fast
  have "length (filter is_point pre) \<le> 1" using count m by simp
  moreover have "length (filter is_point pre) + length (filter (\<lambda>c. \<not> is_point c) pre) = length pre"
    by (simp add: sum_length_filter_compl)
  moreover have "length (filter is_point pre) = 0 \<longleftrightarrow> \<not> length (takeWhile (\<lambda>c. \<not> is_point c) m) < length pre"
  proof (cases "\<exists>c \<in> set pre. is_point c")
    case True
    then have "takeWhile (\<lambda>c. \<not> is_point c) m = takeWhile (\<lambda>c. \<not> is_point c) pre"
      unfolding m by (auto intro: takeWhile_append1)
    moreover have "length (takeWhile (\<lambda>c. \<not> is_point c) pre) < length pre"
      using True by (metis length_takeWhile_le nat_less_le set_takeWhileD takeWhile_eq_take take_all_iff le_refl)
    ultimately show ?thesis using True by (auto simp: filter_empty_conv)
  next
    case False
    then have "length (takeWhile (\<lambda>c. \<not> is_point c) m) = length pre + length (takeWhile (\<lambda>c. \<not> is_point c) post)"
      unfolding m by (subst takeWhile_append2) auto
    with False show ?thesis by (auto simp: filter_empty_conv)
  qed
  moreover have "b = l - (if p then 1 else 0)" if "a \<le> 1" "a + b = l" "a = 0 \<longleftrightarrow> \<not> p" for a b l :: nat and p
    using that by (cases p) auto
  ultimately show "length (filter (\<lambda>c. \<not> is_point c) pre)
       = length pre - (if length (takeWhile (\<lambda>c. \<not> is_point c) m) < length pre then 1 else 0)"
    by blast
qed

lemma from_token_parts:
  fixes i :: "int option"
  assumes json: "json_number t" and len: "length t \<le> i64_max_u"
    and parts: "token_parts t = (neg, whole, part, exponent)"
  defines "k \<equiv> from_token t i"
  shows "key_ok k \<and> token_value t = key_value k
    \<and> (nk_digits k = [] \<longrightarrow> nk_integer k = Some 0) \<and> (nk_digits k \<noteq> [] \<longrightarrow> nk_integer k = i)"
proof -
  define unsigned where "unsigned = (case strip_prefix ''-'' t of Some s \<Rightarrow> s | None \<Rightarrow> t)"
  obtain m after where split: "split_at_char is_exponent_mark unsigned = (m, after)" by (meson surj_pair)
  obtain fraction where frac: "split_at_char is_point m = (whole, fraction)"
      and part: "part = (case fraction of None \<Rightarrow> [] | Some f \<Rightarrow> f)"
      and ex: "exponent = (case after of None \<Rightarrow> ''0'' | Some e \<Rightarrow> e)" and neg: "neg = starts_with ''-'' t"
    using parts by (auto simp: token_parts_def Let_def split simp flip: unsigned_def split: prod.splits)
  from json parts obtain v where digits: "all_digits (whole @ part)" and v: "parse_exponent exponent = Some v"
    by (auto simp: json_number_def)
  note mant = mantissa_parts [OF frac part digits]
  define pre where "pre = takeWhile (\<lambda>c. c = CHR ''0'' \<or> is_point c) m"
  define post where "post = dropWhile (\<lambda>c. c = CHR ''0'' \<or> is_point c) m"
  define point where "point = length (takeWhile (\<lambda>c. \<not> is_point c) m)"
  define leading where "leading = length pre - (if point < length pre then 1 else 0)"
  note first = first_digit [OF mant(3), folded pre_def post_def point_def]
  have m: "m = pre @ post" by (simp add: pre_def post_def)
  define zs where "zs = filter (\<lambda>c. \<not> is_point c) pre"
  define D where "D = filter (\<lambda>c. \<not> is_point c) post"
  have ds: "whole @ part = zs @ D" using mant(1) m by (simp add: zs_def D_def)
  have zs: "length zs = leading" "\<forall>c \<in> set zs. c = CHR ''0''"
    using first(2,3) by (simp_all add: zs_def leading_def)
  have val: "digits_val (whole @ part) = digits_val D" unfolding ds using zs(2) by (rule digits_val_zeros)
  have D: "all_digits D" using digits by (metis all_digits_simps(3) ds)
  have token: "token_value t = (if neg then - 1 else 1) * of_nat (digits_val D) * power_int 10 (v - int (length part))"
    using parts v val by (simp add: token_value_def)
  have k: "k = (if post = [] then \<lparr>nk_integer = Some 0, nk_negative = False, nk_magnitude = Small 0, nk_digits = []\<rparr>
      else \<lparr>nk_integer = i, nk_negative = neg, nk_magnitude = shifted exponent (int point - int leading), nk_digits = post\<rparr>)"
  proof -
    have "k = (if length pre = length m
        then \<lparr>nk_integer = Some 0, nk_negative = False, nk_magnitude = Small 0, nk_digits = []\<rparr>
        else \<lparr>nk_integer = i, nk_negative = neg, nk_magnitude = shifted exponent (int point - int leading),
           nk_digits = drop (length pre) m\<rparr>)"
      unfolding k_def from_token_def Let_def unsigned_def [symmetric] split prod.case ex [symmetric] neg [symmetric]
        pre_def [symmetric] point_def [symmetric] leading_def [symmetric] by (rule refl)
    moreover have "length pre = length m \<longleftrightarrow> post = []" using m by auto
    ultimately show ?thesis by (simp only: first(1))
  qed
  show ?thesis
  proof (cases "post = []")
    case True
    then show ?thesis using token by (simp add: k key_ok_def key_value_def D_def)
  next
    case False
    then obtain c r where post: "post = c # r" by (cases post) auto
    with first(4) have hd: "c \<noteq> CHR ''0''" "\<not> is_point c" by simp_all
    have nl: "no_leading_zero D" using D hd by (simp add: no_leading_zero_def D_def post)
    have lens: "length whole + length part = leading + length D" using ds zs(1) by (metis length_append)
    have point: "point = length whole" using mant(2) by (simp add: point_def)
    have size: "length m \<le> length t"
    proof -
      have "length unsigned \<le> length t" by (auto simp: unsigned_def strip_prefix_def split: option.splits)
      moreover have "length m \<le> length unsigned"
        using split split_at_char_None [of is_exponent_mark unsigned m] split_at_char_Some [of is_exponent_mark unsigned m]
        by (cases after) auto
      ultimately show ?thesis by simp
    qed
    have "point \<le> length m" "leading \<le> length m"
      using length_takeWhile_le [of _ m] m by (auto simp: point_def leading_def)
    then have "\<bar>int point - int leading\<bar> \<le> i64_max" using size len by linarith
    note sh = shifted_exact [OF v this]
    have "fraction_val D * power_int 10 (v + (int point - int leading))
        = of_nat (digits_val D) * power_int 10 (v - int (length part))"
    proof -
      have "v + (int point - int leading) = v - int (length part) + int (length D)" using lens point by simp
      then show ?thesis by (simp add: fraction_val_digits power_int_add power_int_diff)
    qed
    with False sh nl token show ?thesis
      by (simp add: k key_ok_def key_value_def key_magnitude_def plain_digits_def flip: D_def)
  qed
qed

lemma numeric_key_exact:
  assumes "number_laws V" "json_number t" "length t \<le> i64_max_u"
  shows "key_ok (numeric_key_of V t)" and "token_value t = key_value (numeric_key_of V t)"
    and "nk_integer (numeric_key_of V t) = Some i \<Longrightarrow> key_value (numeric_key_of V t) = of_int i"
proof -
  obtain neg whole part exponent where "token_parts t = (neg, whole, part, exponent)" by (rule prod_cases4)
  note k = from_token_parts [OF assms(2,3) this, of "number_integer V t", folded numeric_key_of_def]
  show "key_ok (numeric_key_of V t)" and v: "token_value t = key_value (numeric_key_of V t)" using k by simp_all
  assume i: "nk_integer (numeric_key_of V t) = Some i"
  show "key_value (numeric_key_of V t) = of_int i"
  proof (cases "nk_digits (numeric_key_of V t) = []")
    case True
    with k i show ?thesis by (auto simp: key_value_def)
  next
    case False
    with k i have "number_integer V t = Some i" by simp
    with assms(1,2) v show ?thesis by (simp add: number_laws_def)
  qed
qed

lemma compare_numbers_exact:
  "number_laws V \<Longrightarrow> json_number t \<Longrightarrow> length t \<le> i64_max_u \<Longrightarrow> json_number u \<Longrightarrow> length u \<le> i64_max_u \<Longrightarrow>
   compare_key (numeric_key_of V t) (numeric_key_of V u) = cmp (token_value t) (token_value u)"
  using compare_key_exact numeric_key_exact by simp

section \<open>Canonical text\<close>

lemma fraction_val_append_zeros: "\<forall>c \<in> set z. c = CHR ''0'' \<Longrightarrow> fraction_val (s @ z) = fraction_val s"
proof (induction s)
  case Nil
  then show ?case by (induction z) simp_all
qed simp

lemma trim_end_zeros_split: "\<exists>z. s = trim_end_zeros s @ z \<and> (\<forall>c \<in> set z. c = CHR ''0'')"
proof -
  let ?z = "takeWhile (\<lambda>c. c = CHR ''0'') (rev s)"
  have "rev s = ?z @ trim_zeros (rev s)" by (simp add: trim_zeros_def)
  then have "s = trim_end_zeros s @ rev ?z" unfolding trim_end_zeros_def by (metis rev_append rev_rev_ident)
  moreover have "\<forall>c \<in> set (rev ?z). c = CHR ''0''" by (auto dest: set_takeWhileD)
  ultimately show ?thesis by blast
qed

lemma fraction_val_trim_end [simp]: "fraction_val (trim_end_zeros s) = fraction_val s"
  using trim_end_zeros_split [of s] fraction_val_append_zeros by metis

lemma all_digits_trim_end: "all_digits s \<Longrightarrow> all_digits (trim_end_zeros s)"
  using trim_end_zeros_split [of s] by (metis all_digits_simps(3))

lemma last_trim_end: "trim_end_zeros s \<noteq> [] \<Longrightarrow> last (trim_end_zeros s) \<noteq> CHR ''0''"
  using hd_trim [of "rev s"] by (cases "trim_zeros (rev s)") (simp_all add: trim_end_zeros_def)

lemma digits_unique:
  "cmp_digits a b = Equal \<Longrightarrow> (a \<noteq> [] \<Longrightarrow> last a \<noteq> CHR ''0'') \<Longrightarrow> (b \<noteq> [] \<Longrightarrow> last b \<noteq> CHR ''0'') \<Longrightarrow> a = b"
proof (induction a b rule: cmp_digits.induct)
  case (2 a as)
  have "as = []" using 2 by (cases as) auto
  with 2 show ?case by simp
next
  case (3 b bs)
  have "bs = []" using 3 by (cases bs) auto
  with 3 show ?case by simp
next
  case (4 a as b bs)
  then show ?case by (auto split: if_splits)
qed simp

lemma trim_end_unique:
  assumes "all_digits a" "all_digits b"
  shows "trim_end_zeros a = trim_end_zeros b \<longleftrightarrow> fraction_val a = fraction_val b"
proof
  assume "fraction_val a = fraction_val b"
  then have "cmp_digits (trim_end_zeros a) (trim_end_zeros b) = Equal"
    using assms by (simp add: cmp_digits_exact all_digits_trim_end)
  then show "trim_end_zeros a = trim_end_zeros b" by (rule digits_unique) (simp_all add: last_trim_end)
qed (metis fraction_val_trim_end)

lemma exponent_unique: "exponent_ok a \<Longrightarrow> exponent_ok b \<Longrightarrow> exponent_val a = exponent_val b \<Longrightarrow> a = b"
proof -
  assume ok: "exponent_ok a" "exponent_ok b" and eq: "exponent_val a = exponent_val b"
  show "a = b"
  proof (cases a; cases b)
    fix m x n y
    assume ab: "a = Large m x" "b = Large n y"
    have "compare_exponent a b = Equal" using compare_exponent_exact [OF ok] eq by simp
    with ab show "a = b" by (auto simp: cmp_length_text_def split: if_splits)
  qed (use ok eq in auto)
qed

lemma parse_exponent_text: "exponent_ok e \<Longrightarrow> parse_exponent (exponent_text e) = Some (exponent_val e)"
proof (cases e)
  case (Small v)
  have "parse_exponent (show_int v) = Some v"
    using parse_exponent_digits [of "show_nat (nat \<bar>v\<bar>)" "v < 0"]
    by (auto simp: show_int_def sign_text_def signed_val_def split: if_splits)
  with Small show ?thesis by simp
next
  case (Large neg ds)
  assume "exponent_ok e"
  with Large show ?thesis
    using parse_exponent_digits [of ds neg] by (auto simp: sign_text_def no_leading_zero_def split: if_splits)
qed

lemma split_at_mark:
  assumes "all_digits a" "all_digits b" "a @ ''e'' @ x = b @ ''e'' @ y"
  shows "a = b \<and> x = y"
proof -
  have t: "takeWhile is_ascii_digit (c @ ''e'' @ z) = c" if "all_digits c" for c z
    using that by (induction c) simp_all
  from assms t have "a = b" by metis
  with assms(3) show ?thesis by simp
qed

lemma key_text_unique:
  assumes ok: "key_ok k" "key_ok l" and nz: "nk_digits k \<noteq> []" "nk_digits l \<noteq> []"
  shows "sign_text (nk_negative k) @ ''0.'' @ trim_end_zeros (plain_digits k) @ ''e'' @ exponent_text (nk_magnitude k)
     = sign_text (nk_negative l) @ ''0.'' @ trim_end_zeros (plain_digits l) @ ''e'' @ exponent_text (nk_magnitude l)
     \<longleftrightarrow> key_value k = key_value l" (is "?s k = ?s l \<longleftrightarrow> _")
proof -
  have d: "no_leading_zero (plain_digits k)" "no_leading_zero (plain_digits l)"
      "exponent_ok (nk_magnitude k)" "exponent_ok (nk_magnitude l)" using ok nz by (simp_all add: key_ok_def)
  then have digits: "all_digits (plain_digits k)" "all_digits (plain_digits l)" by (simp_all add: no_leading_zero_def)
  have pos: "0 < key_magnitude k" "0 < key_magnitude l" using key_magnitude_pos ok nz by simp_all
  have same: "key_magnitude k = key_magnitude l \<longleftrightarrow>
      trim_end_zeros (plain_digits k) = trim_end_zeros (plain_digits l) \<and> nk_magnitude k = nk_magnitude l"
  proof -
    have "key_magnitude k = key_magnitude l \<longleftrightarrow>
        then_with (cmp (exponent_val (nk_magnitude k)) (exponent_val (nk_magnitude l)))
          (cmp (fraction_val (plain_digits k)) (fraction_val (plain_digits l))) = Equal"
      unfolding cmp_magnitude [OF d(1,2)] by (simp add: key_magnitude_def)
    then show ?thesis using trim_end_unique [OF digits] exponent_unique [OF d(3,4)] by auto
  qed
  have val: "key_value k = key_value l \<longleftrightarrow> nk_negative k = nk_negative l \<and> key_magnitude k = key_magnitude l"
    using pos nz by (auto simp: key_value_def)
  show ?thesis
  proof
    assume eq: "?s k = ?s l"
    have neg: "nk_negative k = nk_negative l" using eq by (auto simp: sign_text_def split: if_splits)
    with eq have "trim_end_zeros (plain_digits k) @ ''e'' @ exponent_text (nk_magnitude k)
        = trim_end_zeros (plain_digits l) @ ''e'' @ exponent_text (nk_magnitude l)" by simp
    from split_at_mark [OF _ _ this] have t: "trim_end_zeros (plain_digits k) = trim_end_zeros (plain_digits l)"
        and e: "exponent_text (nk_magnitude k) = exponent_text (nk_magnitude l)"
      using digits by (simp_all add: all_digits_trim_end)
    have "exponent_val (nk_magnitude k) = exponent_val (nk_magnitude l)"
      using parse_exponent_text [OF d(3)] parse_exponent_text [OF d(4)] e by simp
    with d(3,4) have "nk_magnitude k = nk_magnitude l" by (rule exponent_unique)
    with t neg show "key_value k = key_value l" by (simp add: val same)
  qed (simp add: val same)
qed

lemma canonical_number_exact:
  assumes "number_laws V" "json_number t" "length t \<le> i64_max_u" "json_number u" "length u \<le> i64_max_u"
  shows "canonical_number V t = canonical_number V u \<longleftrightarrow> token_value t = token_value u"
proof -
  let ?k = "numeric_key_of V t" and ?l = "numeric_key_of V u"
  note k = numeric_key_exact [OF assms(1,2,3)] and l = numeric_key_exact [OF assms(1,4,5)]
  have shape: "canonical_number V x = (let k = numeric_key_of V x in if nk_digits k = [] then ''0'' else
      sign_text (nk_negative k) @ ''0.'' @ trim_end_zeros (plain_digits k) @ ''e'' @ exponent_text (nk_magnitude k))" for x
    by (simp only: canonical_number_def sign_text_def)
  show ?thesis
  proof (cases "nk_digits ?k = [] \<or> nk_digits ?l = []")
    case True
    then show ?thesis
      using key_magnitude_pos [OF k(1)] key_magnitude_pos [OF l(1)]
      by (auto simp: shape Let_def k(2) l(2) key_value_def sign_text_def)
  next
    case False
    then show ?thesis using key_text_unique [OF k(1) l(1)] by (simp add: shape Let_def k(2) l(2))
  qed
qed

section \<open>The classification of serde_json\<close>

text \<open>With arbitrary precision, \<open>as_i64\<close> and \<open>as_u64\<close> parse the token as an integer.\<close>

definition parse_u64 :: "string \<Rightarrow> nat option" where
  "parse_u64 s = (if s \<noteq> [] \<and> all_digits s \<and> digits_val s \<le> u64_max then Some (digits_val s) else None)"

definition token_view :: number_view where
  "token_view = \<lparr>nv_as_i64 = parse_i64, nv_as_u64 = parse_u64\<rparr>"

lemma split_at_char_none: "\<forall>c \<in> set s. \<not> P c \<Longrightarrow> split_at_char P s = (s, None)"
  by (induction s) simp_all

lemma token_parts_integer:
  assumes "all_digits ds" "ds \<noteq> []"
  shows "token_parts (sign_text neg @ ds) = (neg, ds, [], ''0'')"
proof -
  have "\<forall>c \<in> set ds. \<not> is_exponent_mark c \<and> \<not> is_point c"
    using assms(1) by (auto simp: all_digits_def list_all_iff is_exponent_mark_def is_point_def)
  moreover have "starts_with ''-'' (sign_text neg @ ds) = neg"
    using assms by (cases ds) (auto simp: starts_with_def sign_text_def)
  moreover have "(case strip_prefix ''-'' (sign_text neg @ ds) of Some s \<Rightarrow> s | None \<Rightarrow> sign_text neg @ ds) = ds"
    using assms by (cases ds) (auto simp: strip_prefix_def starts_with_def sign_text_def)
  ultimately show ?thesis by (simp add: token_parts_def split_at_char_none)
qed

lemma token_value_integer: "all_digits ds \<Longrightarrow> ds \<noteq> [] \<Longrightarrow> token_value (sign_text neg @ ds) = of_int (signed_val neg ds)"
  by (simp add: token_value_def token_parts_integer parse_exponent_def signed_val_def digits_val_Cons)

lemma token_view_laws: "number_laws token_view"
  unfolding number_laws_def
proof (intro allI impI)
  fix t i
  assume json: "json_number t" and "number_integer token_view t = Some i"
  then consider (signed) "parse_i64 t = Some i" | (unsigned) n where "parse_u64 t = Some n" "i = int n"
    by (auto simp: number_integer_def token_view_def split: option.splits)
  then show "token_value t = of_int i"
  proof cases
    case signed
    then have "parse_exponent t = Some i" by (auto simp: parse_i64_def split: option.splits if_splits)
    then obtain neg ds where ds: "all_digits ds" "ds \<noteq> []" "i = signed_val neg ds"
        "starts_with ''-'' t = neg" "dropWhile is_sign t = ds"
      by (rule parse_exponent_SomeE)
    obtain c r where t: "t = c # r" using ds by (cases t) auto
    have c: "c \<noteq> CHR ''+''"
    proof
      assume "c = CHR ''+''"
      then show False using json t
        by (auto simp: json_number_def token_parts_def strip_prefix_def starts_with_def is_exponent_mark_def is_point_def
            split: prod.splits option.splits)
    qed
    have "t = sign_text neg @ ds"
    proof (cases neg)
      case True
      then have m: "c = CHR ''-''" using ds(4) t by (simp add: starts_with_def)
      then have "ds = dropWhile is_sign r" using ds(5) t by (simp add: is_sign_def)
      moreover have "parse_exponent t = Some i" using signed by (auto simp: parse_i64_def split: option.splits if_splits)
      then have "all_digits r" "r \<noteq> []" using t m by (auto simp: parse_exponent_def split: if_splits)
      then have "dropWhile is_sign r = r" by (cases r) (auto simp: is_sign_def)
      ultimately show ?thesis using t m True by (simp add: sign_text_def)
    next
      case False
      then have "c \<noteq> CHR ''-''" using ds(4) t by (simp add: starts_with_def)
      with c have "dropWhile is_sign t = t" using t by (simp add: is_sign_def)
      then show ?thesis using ds(5) False by (simp add: sign_text_def)
    qed
    then show ?thesis using token_value_integer [OF ds(1,2)] ds(3) by simp
  next
    case unsigned
    then have "all_digits t" "t \<noteq> []" "i = int (digits_val t)" by (auto simp: parse_u64_def split: if_splits)
    then show ?thesis using token_value_integer [of t False] by (simp add: sign_text_def signed_val_def)
  qed
qed

section \<open>Numbers in tables\<close>

text \<open>
  C40. Numbers in tables are compared and grouped by the rationals that their decimal tokens denote,
  without rounding: for JSON numbers of any length and with any exponent, also beyond \<open>i64\<close>, the
  comparison of the cached keys is the comparison of the values, and two numbers have the same canonical
  text exactly when they are equal.
\<close>

theorem table_numbers_exact:
  assumes "number_laws V"
    and "json_number t" and "length t \<le> i64_max_u" and "json_number u" and "length u \<le> i64_max_u"
  shows "compare_key (numeric_key_of V t) (numeric_key_of V u) = cmp (token_value t) (token_value u)
    \<and> (canonical_number V t = canonical_number V u \<longleftrightarrow> token_value t = token_value u)"
  using compare_numbers_exact [OF assms] canonical_number_exact [OF assms] by simp

text \<open>Two tokens whose exponents do not fit an \<open>i64\<close>, and an integer beside a float of the same value.\<close>

lemma demo_tokens:
  "json_number ''-12.50e+99999999999999999999''" "json_number ''-0.125E100000000000000000001''"
  "json_number ''250''" "json_number ''2.5e2''"
  by (simp_all add: json_number_def token_parts_def strip_prefix_def starts_with_def is_exponent_mark_def
      is_point_def parse_exponent_def is_ascii_digit_def byte_def)

lemma demo_lengths:
  "length ''-12.50e+99999999999999999999'' \<le> i64_max_u" "length ''-0.125E100000000000000000001'' \<le> i64_max_u"
  "length ''250'' \<le> i64_max_u" "length ''2.5e2'' \<le> i64_max_u"
  by simp_all

theorem table_numbers_witness:
  "compare_key (numeric_key_of token_view ''-12.50e+99999999999999999999'')
      (numeric_key_of token_view ''-0.125E100000000000000000001'')
     = cmp (token_value ''-12.50e+99999999999999999999'') (token_value ''-0.125E100000000000000000001'')
   \<and> (canonical_number token_view ''250'' = canonical_number token_view ''2.5e2''
        \<longleftrightarrow> token_value ''250'' = token_value ''2.5e2'')"
proof (rule conjI)
  show "compare_key (numeric_key_of token_view ''-12.50e+99999999999999999999'')
      (numeric_key_of token_view ''-0.125E100000000000000000001'')
     = cmp (token_value ''-12.50e+99999999999999999999'') (token_value ''-0.125E100000000000000000001'')"
    by (rule table_numbers_exact [OF token_view_laws demo_tokens(1) _ demo_tokens(2), THEN conjunct1]) (simp_all only: demo_lengths)
  show "canonical_number token_view ''250'' = canonical_number token_view ''2.5e2''
      \<longleftrightarrow> token_value ''250'' = token_value ''2.5e2''"
    by (rule table_numbers_exact [OF token_view_laws demo_tokens(3) _ demo_tokens(4), THEN conjunct2]) (simp_all only: demo_lengths)
qed

end
