(* ===== verification/Tables.thy ===== *)
theory Tables
  imports Table_Numbers Chart_Query Snapshot_Views Repository
begin

text \<open>
  Table reads (\<open>rust/rvx-engine/src/snapshot_store/tables.rs\<close>, \<open>tables/scan.rs\<close>): a collection inside the
  snapshots of the selected sources is read as a table, its rows are filtered, searched, sorted and paged.

  \<^item> A cell is a value of the record, its key, or missing. A column path is decoded once per request
    (\<open>field_path\<close>).
  \<^item> The budget of a request is passed from step to step. Its lengths are bounded by the scan limit, far
    below the range of \<open>usize\<close>. Cancellation and the deadline are not modelled.
  \<^item> \<open>table_ext\<close> is what the source takes from \<open>serde_json\<close> and from the Unicode tables of the
    standard library (\<open>to_lowercase\<close>).
\<close>

abbreviation (input) MAX_TABLE_NODES :: nat where "MAX_TABLE_NODES \<equiv> 1000000"
abbreviation (input) MAX_TABLE_SCAN_BYTES :: nat where "MAX_TABLE_SCAN_BYTES \<equiv> 67108864"
abbreviation (input) MAX_COLUMNS :: nat where "MAX_COLUMNS \<equiv> 128"
abbreviation (input) MAX_CELL_BYTES :: nat where "MAX_CELL_BYTES \<equiv> 1024"
abbreviation (input) MAX_TEXT_WORK :: nat where "MAX_TEXT_WORK \<equiv> 67108864"

section \<open>Data\<close>

datatype table_cell_kind = TMissing | TNull | TNumber | TString | TBoolean | TObject | TArray

datatype table_collection_kind = CollectionArray | CollectionObject

record table_column =
  tl_path :: string
  tl_name :: string
  tl_kinds :: "table_cell_kind list option"

record table_source =
  to_run_id :: string
  to_source_id :: string
  to_label :: string
  to_role :: string
  to_rank :: "int option"
  to_node_id :: "string option"
  to_snapshot_id :: string
  to_observed_at_ns :: int
  to_row_count :: nat

record table_cell =
  te_kind :: table_cell_kind
  te_text :: string
  te_truncated :: bool

record table_data_row =
  dr_run_id :: string
  dr_source_id :: string
  dr_snapshot_id :: string
  dr_row_key :: string
  dr_cells :: "(string, table_cell) bmap"

record table_rows_response =
  rp_columns :: "table_column list"
  rp_data_rows :: "table_data_row list"
  rp_total :: nat
  rp_offset :: nat
  rp_limit :: nat
  rp_snapshots :: "table_source list"

record table_ext =
  tx_view :: number_view
  tx_finite :: "string \<Rightarrow> bool"
  tx_parse_number :: "string \<Rightarrow> string option"
  tx_lowercase :: "string \<Rightarrow> string"
  tx_debug :: "string \<Rightarrow> string"
  tx_rows_bytes :: "table_rows_response \<Rightarrow> string + nat"
  tx_row_bytes :: "table_data_row \<Rightarrow> string + nat"

definition f64_abs :: "f64 \<Rightarrow> f64" where
  "f64_abs x = (if f64_sign_neg x then f64_neg x else x)"

section \<open>Work budget\<close>

record work_budget =
  wb_nodes :: nat
  wb_text_bytes :: nat

definition new_budget :: work_budget where
  "new_budget = \<lparr>wb_nodes = 0, wb_text_bytes = 0\<rparr>"

definition visit :: "work_budget \<Rightarrow> engine_error + work_budget" where
  "visit b =
     (let b' = b\<lparr>wb_nodes := wb_nodes b + 1\<rparr>
      in if MAX_TABLE_NODES < wb_nodes b'
         then Inl (EngineInvalid ''table scan exceeds 1000000 visited nodes; narrow Sources/columns/filters'')
         else Inr b')"

definition charge_text :: "nat \<Rightarrow> work_budget \<Rightarrow> engine_error + work_budget" where
  "charge_text bytes b =
     (let b' = b\<lparr>wb_text_bytes := wb_text_bytes b + bytes\<rparr>
      in if MAX_TEXT_WORK < wb_text_bytes b'
         then Inl (EngineInvalid ''table search/filter/sort exceeds 64 MiB of text work; narrow Sources/filters or sort by a shorter column'')
         else Inr b')"

fun visit_tree :: "json \<Rightarrow> work_budget \<Rightarrow> engine_error + work_budget"
  and visit_trees :: "json list \<Rightarrow> work_budget \<Rightarrow> engine_error + work_budget"
  and visit_members :: "(string \<times> json) list \<Rightarrow> work_budget \<Rightarrow> engine_error + work_budget" where
  "visit_tree v b =
     rbind (visit b) (\<lambda>b. case v of JArray vs \<Rightarrow> visit_trees vs b | JObject kvs \<Rightarrow> visit_members kvs b | _ \<Rightarrow> Inr b)"
| "visit_trees [] b = Inr b"
| "visit_trees (v # vs) b = rbind (visit_tree v b) (visit_trees vs)"
| "visit_members [] b = Inr b"
| "visit_members ((k, v) # kvs) b = rbind (visit_tree v b) (visit_members kvs)"

definition saturating_mul_usize :: "nat \<Rightarrow> nat \<Rightarrow> nat" where
  "saturating_mul_usize a b = min u64_max (a * b)"

text \<open>\<open>usize::ilog2\<close> of a positive number.\<close>

fun ilog2 :: "nat \<Rightarrow> nat" where
  "ilog2 n = (if n < 2 then 0 else Suc (ilog2 (n div 2)))"

declare ilog2.simps [simp del]

definition sort_levels :: "nat \<Rightarrow> nat" where
  "sort_levels n = (if n = 0 then 0 else ilog2 n + 1)"

section \<open>Cells\<close>

datatype cell = CellMissing | CellKey string | CellValue json

record table_record =
  rc_snapshot :: stored_snapshot
  rc_key :: string
  rc_position :: nat
  rc_value :: json

definition pointed_cell :: "json option \<Rightarrow> cell" where
  "pointed_cell v = (case v of None \<Rightarrow> CellMissing | Some w \<Rightarrow> CellValue w)"

definition record_cell :: "string \<Rightarrow> table_record \<Rightarrow> cell" where
  "record_cell path r =
     (if path = ''$key'' then CellKey (rc_key r)
      else if path = ''$value'' then (if is_object (rc_value r) then CellMissing else CellValue (rc_value r))
      else pointed_cell (json_pointer (rc_value r) path))"

datatype path_kind = PathKey | PathValue | PathPointer "string list"

definition field_path :: "string \<Rightarrow> path_kind" where
  "field_path path =
     (if path = ''$key'' then PathKey
      else if path = ''$value'' then PathValue
      else if path = [] then PathPointer []
      else PathPointer (map pointer_token (Chart_Index.split_at_char CHR ''/'' (drop 1 path))))"

fun follow :: "json \<Rightarrow> string list \<Rightarrow> json option" where
  "follow v [] = Some v"
| "follow v (part # parts) =
     (case (case v of
              JObject kvs \<Rightarrow> map_of kvs part
            | JArray vs \<Rightarrow>
                if \<not> starts_with ''+'' part \<and> \<not> (starts_with ''0'' part \<and> 1 < length part)
                then Option.bind (parse_usize part) (list_get vs) else None
            | _ \<Rightarrow> None) of
        None \<Rightarrow> None | Some w \<Rightarrow> follow w parts)"

fun field_cell :: "path_kind \<Rightarrow> table_record \<Rightarrow> cell" where
  "field_cell PathKey r = CellKey (rc_key r)"
| "field_cell PathValue r = (if is_object (rc_value r) then CellMissing else CellValue (rc_value r))"
| "field_cell (PathPointer parts) r = pointed_cell (follow (rc_value r) parts)"

fun value_kind :: "json option \<Rightarrow> string" where
  "value_kind None = ''missing''"
| "value_kind (Some JNull) = ''null''"
| "value_kind (Some (JBool _)) = ''boolean''"
| "value_kind (Some (JNumber _)) = ''number''"
| "value_kind (Some (JString _)) = ''string''"
| "value_kind (Some (JArray _)) = ''array''"
| "value_kind (Some (JObject _)) = ''object''"

fun cell_kind :: "cell \<Rightarrow> table_cell_kind" where
  "cell_kind CellMissing = TMissing"
| "cell_kind (CellKey _) = TString"
| "cell_kind (CellValue (JString _)) = TString"
| "cell_kind (CellValue JNull) = TNull"
| "cell_kind (CellValue (JBool _)) = TBoolean"
| "cell_kind (CellValue (JNumber _)) = TNumber"
| "cell_kind (CellValue (JArray _)) = TArray"
| "cell_kind (CellValue (JObject _)) = TObject"

text \<open>The longest prefix of at most \<open>n\<close> bytes that ends between two characters.\<close>

definition is_char_boundary :: "string \<Rightarrow> nat \<Rightarrow> bool" where
  "is_char_boundary s n \<longleftrightarrow>
     n = 0 \<or> n = length s \<or> (n < length s \<and> \<not> (128 \<le> byte (s ! n) \<and> byte (s ! n) < 192))"

fun boundary_below :: "string \<Rightarrow> nat \<Rightarrow> nat" where
  "boundary_below s 0 = 0"
| "boundary_below s (Suc n) = (if is_char_boundary s (Suc n) then Suc n else boundary_below s n)"

definition show_bool :: "bool \<Rightarrow> string" where
  "show_bool b = (if b then ''true'' else ''false'')"

definition preview :: "cell \<Rightarrow> table_cell" where
  "preview c =
     (let s = (case c of CellKey s \<Rightarrow> s | CellValue (JString s) \<Rightarrow> s | CellMissing \<Rightarrow> []
               | CellValue JNull \<Rightarrow> ''null'' | CellValue (JBool b) \<Rightarrow> show_bool b | CellValue (JNumber n) \<Rightarrow> n
               | CellValue (JArray a) \<Rightarrow> ''['' @ show_nat (length a) @ '' items]''
               | CellValue (JObject o') \<Rightarrow> ''{'' @ show_nat (length o') @ '' fields}'');
          container = (cell_kind c = TArray \<or> cell_kind c = TObject);
          stop = boundary_below s (min (length s) MAX_CELL_BYTES)
      in \<lparr>te_kind = cell_kind c, te_text = take stop s,
          te_truncated = (if cell_kind c = TString then stop \<noteq> length s else container \<or> MAX_CELL_BYTES < length s)\<rparr>)"

fun cell_bytes :: "cell \<Rightarrow> nat" where
  "cell_bytes (CellKey s) = length s"
| "cell_bytes (CellValue (JString s)) = length s"
| "cell_bytes (CellValue (JNumber n)) = length n"
| "cell_bytes _ = 0"

section \<open>Search and filters\<close>

text \<open>\<open>str::contains\<close>\<close>

fun str_contains :: "string \<Rightarrow> string \<Rightarrow> bool" where
  "str_contains p [] = (p = [])"
| "str_contains p (c # s) \<longleftrightarrow> starts_with p (c # s) \<or> str_contains p s"

definition contains_in :: "string \<Rightarrow> string \<Rightarrow> string \<Rightarrow> work_budget \<Rightarrow> engine_error + bool \<times> work_budget" where
  "contains_in needle s haystack b = rbind (charge_text (length s) b) (\<lambda>b. Inr (str_contains needle haystack, b))"

definition contains_key :: "table_ext \<Rightarrow> string \<Rightarrow> string \<Rightarrow> work_budget \<Rightarrow> engine_error + bool \<times> work_budget" where
  "contains_key T needle s b = rbind (visit b) (contains_in needle s (tx_lowercase T s))"

fun contains_value :: "table_ext \<Rightarrow> string \<Rightarrow> json \<Rightarrow> work_budget \<Rightarrow> engine_error + bool \<times> work_budget"
  and contains_values :: "table_ext \<Rightarrow> string \<Rightarrow> json list \<Rightarrow> work_budget \<Rightarrow> engine_error + bool \<times> work_budget"
  and contains_members :: "table_ext \<Rightarrow> string \<Rightarrow> (string \<times> json) list \<Rightarrow> work_budget \<Rightarrow> engine_error + bool \<times> work_budget" where
  "contains_value T needle v b =
     rbind (visit b) (\<lambda>b. case v of
         JString s \<Rightarrow> contains_in needle s (tx_lowercase T s) b
       | JArray vs \<Rightarrow> contains_values T needle vs b
       | JObject kvs \<Rightarrow> contains_members T needle kvs b
       | JNull \<Rightarrow> contains_in needle ''null'' ''null'' b
       | JBool c \<Rightarrow> contains_in needle (show_bool c) (show_bool c) b
       | JNumber n \<Rightarrow> contains_in needle n n b)"
| "contains_values T needle [] b = Inr (False, b)"
| "contains_values T needle (v # vs) b =
     rbind (contains_value T needle v b) (\<lambda>(hit, b). if hit then Inr (True, b) else contains_values T needle vs b)"
| "contains_members T needle [] b = Inr (False, b)"
| "contains_members T needle ((k, v) # kvs) b =
     rbind (contains_key T needle k b) (\<lambda>(hit, b).
     if hit then Inr (True, b)
     else rbind (contains_value T needle v b) (\<lambda>(hit, b).
          if hit then Inr (True, b) else contains_members T needle kvs b))"

fun contains_cell :: "table_ext \<Rightarrow> string \<Rightarrow> cell \<Rightarrow> work_budget \<Rightarrow> engine_error + bool \<times> work_budget" where
  "contains_cell T needle CellMissing b = rbind (visit b) (\<lambda>b. Inr (False, b))"
| "contains_cell T needle (CellKey s) b = contains_key T needle s b"
| "contains_cell T needle (CellValue v) b = contains_value T needle v b"

record compiled_filter =
  cf_filter :: table_filter
  cf_number :: "numeric_key option"
  cf_contains :: string

definition compile_filter :: "table_ext \<Rightarrow> table_filter \<Rightarrow> engine_error + compiled_filter" where
  "compile_filter T f =
     (let number = tx_parse_number T (tf_value f)
      in rbind (ensure (\<not> (tf_op f \<noteq> OpContains \<and> (case number of Some t \<Rightarrow> \<not> tx_finite T t | None \<Rightarrow> False)))
                  (EngineInvalid ''numeric filters require a finite JSON number'')) (\<lambda>_.
         rbind (ensure (\<not> ((tf_op f = OpGt \<or> tf_op f = OpLt) \<and> number = None))
                  (EngineInvalid ''gt/lt filters require a finite JSON number'')) (\<lambda>_.
         Inr \<lparr>cf_filter = f,
              cf_number = map_option (\<lambda>t. from_token (str_trim (tf_value f)) (number_integer (tx_view T) t)) number,
              cf_contains = tx_lowercase T (tf_value f)\<rparr>)))"

text \<open>A number against the operand, with the text of both charged.\<close>

definition compare_operand ::
  "table_ext \<Rightarrow> compiled_filter \<Rightarrow> string \<Rightarrow> numeric_key \<Rightarrow> ordering \<Rightarrow> work_budget \<Rightarrow> engine_error + bool \<times> work_budget" where
  "compare_operand T c n key wanted b =
     rbind (charge_text (saturating_add_u64 (length n) (length (tf_value (cf_filter c)))) b) (\<lambda>b.
     Inr (compare_key (numeric_key_of (tx_view T) n) key = wanted, b))"

definition filter_matches ::
  "table_ext \<Rightarrow> compiled_filter \<Rightarrow> cell \<Rightarrow> work_budget \<Rightarrow> engine_error + bool \<times> work_budget" where
  "filter_matches T c cell b =
     (let value = tf_value (cf_filter c) in
      rbind (visit b) (\<lambda>b.
      case tf_op (cf_filter c) of
        OpContains \<Rightarrow> contains_cell T (cf_contains c) cell b
      | OpEq \<Rightarrow>
          (case cell of
             CellMissing \<Rightarrow> Inr (False, b)
           | CellKey s \<Rightarrow> rbind (charge_text (length s) b) (\<lambda>b. Inr (s = value, b))
           | CellValue JNull \<Rightarrow> Inr (value = ''null'', b)
           | CellValue (JBool c) \<Rightarrow> Inr (value = show_bool c, b)
           | CellValue (JNumber n) \<Rightarrow>
               (case cf_number c of Some key \<Rightarrow> compare_operand T c n key Equal b | None \<Rightarrow> Inr (False, b))
           | CellValue (JString s) \<Rightarrow> rbind (charge_text (length s) b) (\<lambda>b. Inr (s = value, b))
           | CellValue _ \<Rightarrow>
               Inl (EngineInvalid ''eq on an array/object is unsupported; select a scalar column or use contains''))
      | order \<Rightarrow>
          (case cell of
             CellValue (JNumber n) \<Rightarrow>
               (case cf_number c of
                  Some key \<Rightarrow> compare_operand T c n key (if order = OpGt then Greater else Less) b
                | None \<Rightarrow> Inl (Runtime ''called Option::unwrap() on a None value''))
           | _ \<Rightarrow> Inr (False, b))))"

section \<open>Sorting\<close>

datatype table_sort_key =
    KeyMissing
  | KeyNull
  | KeyBoolean bool
  | KeyNumber numeric_key
  | KeyString string
  | KeyArray nat
  | KeyObject nat

fun sort_key_of :: "number_view \<Rightarrow> cell \<Rightarrow> table_sort_key" where
  "sort_key_of V CellMissing = KeyMissing"
| "sort_key_of V (CellKey s) = KeyString s"
| "sort_key_of V (CellValue JNull) = KeyNull"
| "sort_key_of V (CellValue (JBool b)) = KeyBoolean b"
| "sort_key_of V (CellValue (JNumber n)) = KeyNumber (numeric_key_of V n)"
| "sort_key_of V (CellValue (JString s)) = KeyString s"
| "sort_key_of V (CellValue (JArray vs)) = KeyArray (length vs)"
| "sort_key_of V (CellValue (JObject kvs)) = KeyObject (length kvs)"

fun key_rank :: "table_sort_key \<Rightarrow> nat" where
  "key_rank KeyMissing = 0"
| "key_rank KeyNull = 1"
| "key_rank (KeyBoolean _) = 2"
| "key_rank (KeyNumber _) = 3"
| "key_rank (KeyString _) = 4"
| "key_rank (KeyArray _) = 5"
| "key_rank (KeyObject _) = 6"

fun compare_same_rank :: "table_sort_key \<Rightarrow> table_sort_key \<Rightarrow> ordering" where
  "compare_same_rank (KeyBoolean a) (KeyBoolean b) = cmp a b"
| "compare_same_rank (KeyNumber a) (KeyNumber b) = compare_key a b"
| "compare_same_rank (KeyString a) (KeyString b) = cmp a b"
| "compare_same_rank (KeyArray a) (KeyArray b) = cmp a b"
| "compare_same_rank (KeyObject a) (KeyObject b) = cmp a b"
| "compare_same_rank _ _ = Equal"

definition compare_sort_key :: "table_sort_key \<Rightarrow> table_sort_key \<Rightarrow> ordering" where
  "compare_sort_key a b = then_with (cmp (key_rank a) (key_rank b)) (compare_same_rank a b)"

text \<open>
  A page of the sorted entries: the positions before and after it are separated from it first, so that
  only the page itself is sorted.
\<close>

definition select_page :: "('a \<Rightarrow> 'a \<Rightarrow> ordering) \<Rightarrow> nat \<Rightarrow> nat \<Rightarrow> 'a list \<Rightarrow> 'a list" where
  "select_page c offset limit entries =
     (let start = min offset (length entries);
          stop = min (saturating_add_u64 start limit) (length entries)
      in if start = stop then []
         else let entries = (if stop < length entries then select_nth c stop entries else entries);
                  before = take stop entries;
                  before = (if 0 < start then select_nth c start before else before)
              in sort_by c (drop start before))"

definition direct_order :: "table_sort_direction \<Rightarrow> ordering \<Rightarrow> ordering" where
  "direct_order d r = (if d = Desc then reverse_order r else r)"

definition row_place :: "table_record \<Rightarrow> string \<times> string \<times> nat" where
  "row_place r = (ss_run_id (rc_snapshot r), ss_source_id (rc_snapshot r), rc_position r)"

definition compare_rows :: "table_record list \<Rightarrow> table_sort \<Rightarrow> nat \<times> table_sort_key \<Rightarrow> nat \<times> table_sort_key \<Rightarrow> ordering" where
  "compare_rows rows sort' a b =
     then_with (direct_order (ts_direction sort') (compare_sort_key (snd a) (snd b)))
       (cmp (row_place (rows ! fst a)) (row_place (rows ! fst b)))"

definition charge_sort :: "nat \<Rightarrow> cell \<Rightarrow> work_budget \<Rightarrow> engine_error + work_budget" where
  "charge_sort n c b = charge_text (saturating_mul_usize (cell_bytes c) (2 * sort_levels n + 2)) b"

definition table_page_order ::
  "number_view \<Rightarrow> table_record list \<Rightarrow> table_rows_request \<Rightarrow> work_budget \<Rightarrow> engine_error + nat list \<times> work_budget" where
  "table_page_order V rows q b =
     (let start = min (tr_offset q) (length rows);
          stop = min (saturating_add_u64 start (tr_limit q)) (length rows)
      in case tr_sort q of
           None \<Rightarrow> Inr ([start..<stop], b)
         | Some s \<Rightarrow>
             rbind (try_fold (\<lambda>b r. charge_sort (length rows) (record_cell (ts_path s) r) b) b rows) (\<lambda>b.
             let keyed = zip [0..<length rows] (map (\<lambda>r. sort_key_of V (record_cell (ts_path s) r)) rows)
             in if start = stop then Inr ([], b)
                else Inr (map fst (select_page (compare_rows rows s) (tr_offset q) (tr_limit q) keyed), b)))"

section \<open>Requests and snapshots\<close>

definition unique_ids :: "string list \<Rightarrow> nat \<Rightarrow> engine_error + unit" where
  "unique_ids ids maximum =
     rbind (check_ids ids maximum) (\<lambda>_.
     ensure (length (bset_of_list ids) = length ids) (EngineInvalid ''duplicate identifiers are not allowed''))"

definition validate_table_selection :: "string list \<Rightarrow> string list \<Rightarrow> engine_error + unit" where
  "validate_table_selection runs sources =
     rbind (unique_ids runs MAX_SNAPSHOT_QUERY_RUNS) (\<lambda>_.
     rbind (unique_ids sources MAX_SNAPSHOT_SOURCE_IDS) (\<lambda>_.
     ensure (runs \<noteq> []) (EngineInvalid ''tables require 1..64 run_ids'')))"

definition validate_column :: "string \<Rightarrow> engine_error + unit" where
  "validate_column path =
     (if path = ''$key'' \<or> path = ''$value'' then Inr ()
      else map_err Protocol (validate_snapshot_pointer path))"

definition check_columns :: "string list \<Rightarrow> engine_error + unit" where
  "check_columns columns =
     rbind (ensure (columns \<noteq> [] \<and> length columns \<le> MAX_COLUMNS)
              (EngineInvalid ''columns must contain 1..128 column pointers'')) (\<lambda>_.
     rbind (ensure (length (bset_of_list columns) = length columns)
              (EngineInvalid ''duplicate columns are not allowed'')) (\<lambda>_.
     for_each validate_column columns))"

definition check_filter :: "table_filter \<Rightarrow> engine_error + unit" where
  "check_filter f =
     rbind (validate_column (tf_path f)) (\<lambda>_.
     ensure (\<not> 4096 < length (tf_value f)) (EngineInvalid ''table filter value exceeds 4096 bytes''))"

definition validate_rows_limit :: "table_rows_request \<Rightarrow> nat \<Rightarrow> engine_error + unit" where
  "validate_rows_limit q maximum =
     rbind (map_err Protocol (validate_snapshot_pointer (tr_path q))) (\<lambda>_.
     rbind (ensure (\<not> (tr_limit q = 0 \<or> maximum < tr_limit q))
              (EngineInvalid (''table limit must be 1..'' @ show_nat maximum))) (\<lambda>_.
     rbind (ensure (\<not> MAX_TABLE_NODES < tr_offset q)
              (EngineInvalid ''table offset must be at most 1000000'')) (\<lambda>_.
     rbind (case tr_columns q of None \<Rightarrow> Inr () | Some columns \<Rightarrow> check_columns columns) (\<lambda>_.
     rbind (ensure (\<not> 32 < length (tr_filters q))
              (EngineInvalid ''at most 32 table filters are supported'')) (\<lambda>_.
     rbind (for_each check_filter (tr_filters q)) (\<lambda>_.
     rbind (case tr_sort q of None \<Rightarrow> Inr () | Some s \<Rightarrow> validate_column (ts_path s)) (\<lambda>_.
     ensure (\<not> (case tr_search q of None \<Rightarrow> False | Some s \<Rightarrow> 4096 < length s))
       (EngineInvalid ''table search exceeds 4096 bytes''))))))))"

definition validate_rows :: "table_rows_request \<Rightarrow> engine_error + unit" where
  "validate_rows q = validate_rows_limit q MAX_SNAPSHOT_HISTORY_LIMIT"

text \<open>A pinned snapshot is named by its decimal number, written the one way it is printed.\<close>

definition pinned_id :: "string \<Rightarrow> engine_error + int" where
  "pinned_id text' =
     ok_or (EngineInvalid ''snapshot_ids must be canonical positive decimal strings'')
       (case parse_i64 text' of
          Some n \<Rightarrow> if 0 < n \<and> show_int n = text' then Some n else None
        | None \<Rightarrow> None)"

definition head_id :: "table_ext \<Rightarrow> bool \<Rightarrow> 'ix store \<Rightarrow> source \<Rightarrow> engine_error + int list" where
  "head_id T require_all db s =
     (case bm_get (st_heads db) (src_run_id s, src_id s) of
        Some key \<Rightarrow> Inr [key]
      | None \<Rightarrow> if require_all
                then Inl (EngineInvalid (''Source '' @ tx_debug T (src_id s) @ '' has no completed snapshot''))
                else Inr [])"

record load_state =
  ld_result :: "stored_snapshot list"
  ld_bytes :: nat
  ld_nodes :: work_budget
  ld_seen :: "string list"

definition load_snapshot ::
  "serde_ext \<Rightarrow> 'ix store \<Rightarrow> source list \<Rightarrow> load_state \<Rightarrow> int \<Rightarrow> engine_error + load_state" where
  "load_snapshot X db sources st key =
     rbind (ok_or (EngineInvalid (''unknown snapshot ID '' @ show_int key))
              (List.find (\<lambda>r. row_id r = key) (st_rows db))) (\<lambda>r.
     rbind (ensure (list_ex (\<lambda>s. src_id s = row_source_id r \<and> src_run_id s = row_run_id r) sources)
              (EngineInvalid (''snapshot '' @ show_int key @ '' does not belong to selected run_ids/source_ids''))) (\<lambda>_.
     rbind (ensure (row_source_id r \<notin> set (ld_seen st))
              (EngineInvalid ''snapshot_ids must contain exactly one snapshot per selected Source'')) (\<lambda>_.
     let bytes = ld_bytes st + length (row_json r) in
     rbind (ensure (\<not> MAX_TABLE_SCAN_BYTES < bytes)
              (EngineInvalid ''table snapshot scan exceeds 64 MiB; narrow run_ids/source_ids'')) (\<lambda>_.
     rbind (from_row X r) (\<lambda>snapshot.
     rbind (visit_tree (s_state (ss_snapshot snapshot)) (ld_nodes st)) (\<lambda>nodes.
     Inr \<lparr>ld_result = ld_result st @ [snapshot], ld_bytes = bytes, ld_nodes = nodes,
          ld_seen = row_source_id r # ld_seen st\<rparr>))))))"

definition table_snapshots ::
  "serde_ext \<Rightarrow> table_ext \<Rightarrow> 'ix store \<Rightarrow> source list \<Rightarrow> string list option \<Rightarrow> bool
   \<Rightarrow> engine_error + stored_snapshot list" where
  "table_snapshots X T db sources pinned require_all =
     rbind (case pinned of
              Some ids \<Rightarrow>
                rbind (unique_ids ids MAX_SNAPSHOT_SOURCE_IDS) (\<lambda>_.
                rbind (ensure (ids \<noteq> []) (EngineInvalid ''snapshot_ids must be nonempty when supplied'')) (\<lambda>_.
                try_map pinned_id ids))
            | None \<Rightarrow> rbind (try_map (head_id T require_all db) sources) (\<lambda>ids. Inr (concat ids))) (\<lambda>ids.
     rbind (try_fold (load_snapshot X db sources)
              \<lparr>ld_result = [], ld_bytes = 0, ld_nodes = new_budget, ld_seen = []\<rparr> ids) (\<lambda>st.
     rbind (ensure (\<not> (require_all \<and> (ld_result st = [] \<or> length (ld_seen st) \<noteq> length sources)))
              (EngineInvalid ''table rows require one completed snapshot for every selected Source; select source_ids explicitly'')) (\<lambda>_.
     Inr (sort_key (\<lambda>s. (ss_run_id s, ss_source_id s)) (ld_result st)))))"

section \<open>The scan\<close>

definition value_i64 :: "number_view \<Rightarrow> json \<Rightarrow> int option" where
  "value_i64 V v = (case v of JNumber t \<Rightarrow> nv_as_i64 V t | _ \<Rightarrow> None)"

definition or_else :: "'a option \<Rightarrow> 'a option \<Rightarrow> 'a option" where
  "or_else a b = (case a of None \<Rightarrow> b | Some x \<Rightarrow> Some x)"

definition separator_dot :: string where
  "separator_dot = [CHR '' '', CHR 0xC2, CHR 0xB7, CHR '' '']"

definition default_label :: "source \<Rightarrow> int option \<Rightarrow> string option \<Rightarrow> string" where
  "default_label s rank node =
     src_role s @ (case rank of None \<Rightarrow> [] | Some r \<Rightarrow> separator_dot @ ''rank '' @ show_int r)
       @ (case node of None \<Rightarrow> [] | Some n \<Rightarrow> separator_dot @ n)"

definition describe_source :: "number_view \<Rightarrow> stored_snapshot \<Rightarrow> source list \<Rightarrow> nat \<Rightarrow> engine_error + table_source" where
  "describe_source V snapshot sources n =
     rbind (ok_or (Runtime ''called Option::unwrap() on a None value'')
              (List.find (\<lambda>s. src_id s = ss_source_id snapshot) sources)) (\<lambda>s.
     let rank = or_else (Option.bind (Option.bind (src_descriptor s) (\<lambda>d. json_get d ''rank'')) (value_i64 V)) (src_rank s);
         node = or_else (Option.bind (Option.bind (src_descriptor s) (\<lambda>d. json_get d ''node_id'')) as_str) (src_node_id s);
         label = (case Option.bind (Option.bind (src_descriptor s) (\<lambda>d. json_pointer d ''/labels/name'')) as_str of
                    Some l \<Rightarrow> l | None \<Rightarrow> default_label s rank node)
     in Inr \<lparr>to_run_id = ss_run_id snapshot, to_source_id = src_id s, to_label = label, to_role = src_role s,
             to_rank = rank, to_node_id = node, to_snapshot_id = show_int (ss_id snapshot),
             to_observed_at_ns = s_observed_at_ns (ss_snapshot snapshot), to_row_count = n\<rparr>)"

fun collection_len :: "json option \<Rightarrow> nat option" where
  "collection_len (Some (JArray vs)) = Some (length vs)"
| "collection_len (Some (JObject kvs)) = Some (length kvs)"
| "collection_len _ = None"

fun collection :: "json \<Rightarrow> (string \<times> json) list" where
  "collection (JArray vs) = zip (map show_nat [0..<length vs]) vs"
| "collection (JObject kvs) = kvs"
| "collection _ = []"

definition bset_insert :: "string \<Rightarrow> string list \<Rightarrow> string list" where
  "bset_insert x xs = bm_keys (bm_insert x () (map (\<lambda>k. (k, ())) xs))"

definition row_paths :: "json \<Rightarrow> string list" where
  "row_paths v = (case v of JObject kvs \<Rightarrow> map (\<lambda>(k, _). ''/'' @ escape_key k) kvs | _ \<Rightarrow> [''$value''])"

definition add_column :: "nat \<Rightarrow> bool \<Rightarrow> string list \<times> bool \<Rightarrow> string \<Rightarrow> engine_error + string list \<times> bool" where
  "add_column cap trims = (\<lambda>(columns, truncated) path.
     if 4096 < length path \<or> (path \<notin> set columns \<and> cap \<le> length columns)
     then (if \<not> trims
           then Inl (EngineInvalid ''table schema exceeds 128 columns or 4096-byte pointers; select a narrower collection'')
           else Inr (columns, True))
     else Inr (bset_insert path columns, truncated))"

definition row_columns :: "json \<Rightarrow> string list \<Rightarrow> nat \<Rightarrow> bool \<Rightarrow> engine_error + string list \<times> bool" where
  "row_columns v columns cap trims = try_fold (add_column cap trims) (columns, False) (row_paths v)"

datatype scan_mode = ScanRows | ScanRecords | ScanProjection

type_synonym wanted_field = "string \<times> path_kind \<times> bool"

record table_scan =
  tn_rows :: "table_record list"
  tn_columns :: "string list"
  tn_snapshots :: "table_source list"
  tn_budget :: work_budget
  tn_all_objects :: bool

record scan_progress =
  sp_columns :: "string list"
  sp_fields :: "wanted_field list"
  sp_rows :: "table_record list"
  sp_evidence :: "table_source list"
  sp_budget :: work_budget
  sp_scanned :: nat
  sp_all_objects :: bool

text \<open>A field counts as found once a row has a cell for it.\<close>

fun note_fields :: "table_record \<Rightarrow> wanted_field list \<Rightarrow> work_budget \<Rightarrow> engine_error + wanted_field list \<times> work_budget" where
  "note_fields r [] b = Inr ([], b)"
| "note_fields r ((path, field, found) # fs) b =
     rbind (visit b) (\<lambda>b.
     rbind (note_fields r fs b) (\<lambda>(fs', b).
     Inr ((path, field, found \<or> field_cell field r \<noteq> CellMissing) # fs', b)))"

fun all_match ::
  "table_ext \<Rightarrow> table_record \<Rightarrow> (compiled_filter \<times> path_kind) list \<Rightarrow> work_budget \<Rightarrow> engine_error + bool \<times> work_budget" where
  "all_match T r [] b = Inr (True, b)"
| "all_match T r ((c, field) # fs) b =
     rbind (filter_matches T c (field_cell field r) b) (\<lambda>(hit, b).
     if hit then all_match T r fs b else Inr (False, b))"

definition search_matches ::
  "table_ext \<Rightarrow> string option \<Rightarrow> table_record \<Rightarrow> work_budget \<Rightarrow> engine_error + bool \<times> work_budget" where
  "search_matches T search r b =
     (case search of
        None \<Rightarrow> Inr (True, b)
      | Some s \<Rightarrow> rbind (contains_key T s (rc_key r) b) (\<lambda>(hit, b).
                    if hit then Inr (True, b) else contains_value T s (rc_value r) b))"

definition scan_table_row ::
  "table_ext \<Rightarrow> bool \<Rightarrow> (compiled_filter \<times> path_kind) list \<Rightarrow> string option \<Rightarrow> scan_progress \<Rightarrow> table_record
   \<Rightarrow> engine_error + scan_progress" where
  "scan_table_row T finds filters search st r =
     rbind (visit (sp_budget st)) (\<lambda>b.
     rbind (if finds then row_columns (rc_value r) (sp_columns st) MAX_COLUMNS False
            else Inr (sp_columns st, False)) (\<lambda>(columns, _).
     rbind (note_fields r (sp_fields st) b) (\<lambda>(fields', b).
     rbind (all_match T r filters b) (\<lambda>(hit, b).
     rbind (if hit then search_matches T search r b else Inr (False, b)) (\<lambda>(hit, b).
     Inr (st\<lparr>sp_columns := columns, sp_fields := fields', sp_budget := b, sp_scanned := sp_scanned st + 1,
            sp_rows := (if hit then sp_rows st @ [r] else sp_rows st)\<rparr>))))))"

definition snapshot_records_of :: "stored_snapshot \<Rightarrow> json \<Rightarrow> table_record list" where
  "snapshot_records_of snapshot v =
     map (\<lambda>(position, key, w). \<lparr>rc_snapshot = snapshot, rc_key = key, rc_position = position, rc_value = w\<rparr>)
       (List.enumerate 0 (collection v))"

definition scan_snapshot ::
  "table_ext \<Rightarrow> table_rows_request \<Rightarrow> source list \<Rightarrow> bool \<Rightarrow> (compiled_filter \<times> path_kind) list \<Rightarrow> string option
   \<Rightarrow> scan_progress \<Rightarrow> stored_snapshot \<Rightarrow> engine_error + scan_progress" where
  "scan_snapshot T q sources finds filters search st snapshot =
     (let value = json_pointer (s_state (ss_snapshot snapshot)) (tr_path q) in
      rbind (ok_or (EngineInvalid (''table path '' @ tx_debug T (tr_path q) @ '' is '' @ value_kind value
                 @ '' in Source '' @ tx_debug T (ss_source_id snapshot) @ '', snapshot '' @ show_int (ss_id snapshot)
                 @ ''; refresh the catalog or select compatible Sources''))
               (collection_len value)) (\<lambda>n.
      case value of
        None \<Rightarrow> Inl (Runtime ''called Option::unwrap() on a None value'')
      | Some v \<Rightarrow>
          rbind (describe_source (tx_view T) snapshot sources n) (\<lambda>evidence.
          try_fold (scan_table_row T finds filters search)
            (st\<lparr>sp_all_objects := sp_all_objects st \<and> is_object v, sp_evidence := sp_evidence st @ [evidence]\<rparr>)
            (snapshot_records_of snapshot v))))"

definition requested_paths :: "scan_mode \<Rightarrow> table_rows_request \<Rightarrow> string list" where
  "requested_paths mode q =
     bset_of_list (map tf_path (tr_filters q)
       @ (case tr_sort q of None \<Rightarrow> [] | Some s \<Rightarrow> [ts_path s])
       @ (if mode = ScanRows then (case tr_columns q of None \<Rightarrow> [] | Some columns \<Rightarrow> columns) else []))"

definition check_found :: "table_ext \<Rightarrow> string list \<Rightarrow> wanted_field \<Rightarrow> engine_error + unit" where
  "check_found T columns = (\<lambda>(path, _, found).
     ensure (found \<or> path \<in> set columns)
       (EngineInvalid (''unknown table column '' @ tx_debug T path @ '' in selected snapshots'')))"

definition scan_records ::
  "table_ext \<Rightarrow> stored_snapshot list \<Rightarrow> table_rows_request \<Rightarrow> source list \<Rightarrow> scan_mode \<Rightarrow> engine_error + table_scan" where
  "scan_records T snapshots q sources mode =
     (let finds = (mode = ScanRows \<or> mode = ScanRecords);
          allow_empty = (mode \<noteq> ScanRows);
          wanted = map (\<lambda>path. (path, field_path path, path = ''$key'')) (requested_paths mode q);
          search = (case tr_search q of None \<Rightarrow> None | Some s \<Rightarrow> if s = [] then None else Some (tx_lowercase T s))
      in rbind (try_map (\<lambda>f. rbind (compile_filter T f) (\<lambda>c. Inr (c, field_path (tf_path f)))) (tr_filters q)) (\<lambda>filters.
         rbind (try_fold (scan_snapshot T q sources (finds \<and> tr_columns q = None) filters search)
                  \<lparr>sp_columns = [''$key''], sp_fields = wanted, sp_rows = [], sp_evidence = [], sp_budget = new_budget,
                   sp_scanned = 0, sp_all_objects = True\<rparr> snapshots) (\<lambda>st.
         rbind (if 0 < sp_scanned st \<or> \<not> allow_empty
                then for_each (check_found T (sp_columns st)) (sp_fields st) else Inr ()) (\<lambda>_.
         Inr \<lparr>tn_rows = sp_rows st,
              tn_columns = (if finds then (case tr_columns q of None \<Rightarrow> sp_columns st | Some cs \<Rightarrow> cs) else []),
              tn_snapshots = sp_evidence st, tn_budget = sp_budget st, tn_all_objects = sp_all_objects st\<rparr>))))"

section \<open>Rows\<close>

definition column_name :: "string \<Rightarrow> string" where
  "column_name path =
     (if path = ''$key'' then ''Key''
      else if path = ''$value'' then ''Value''
      else if path = [] then ''Row''
      else pointer_token (dropWhile (\<lambda>c. c = CHR ''/'') path))"

definition column :: "string \<Rightarrow> table_column" where
  "column path = \<lparr>tl_path = path, tl_name = column_name path, tl_kinds = None\<rparr>"

text \<open>\<open>json_size\<close>: the bytes of a value, unless the response limit is reached while it is written.\<close>

definition json_size :: "string + nat \<Rightarrow> engine_error + nat" where
  "json_size bytes =
     rbind (map_err Json bytes) (\<lambda>n.
     if MAX_SNAPSHOT_PAGE_BYTES < n then Inl (EngineInvalid ''table response exceeds 16 MiB; narrow selection'') else Inr n)"

definition bounded_response :: "string + nat \<Rightarrow> engine_error + unit" where
  "bounded_response bytes = rbind (json_size bytes) (\<lambda>_. Inr ())"

definition data_row :: "string list \<Rightarrow> table_record \<Rightarrow> table_data_row" where
  "data_row columns r =
     \<lparr>dr_run_id = ss_run_id (rc_snapshot r), dr_source_id = ss_source_id (rc_snapshot r),
      dr_snapshot_id = show_int (ss_id (rc_snapshot r)), dr_row_key = rc_key r,
      dr_cells = bm_of_list (map (\<lambda>path. (path, preview (field_cell (field_path path) r))) columns)\<rparr>"

definition render_row ::
  "table_ext \<Rightarrow> table_record list \<Rightarrow> string list \<Rightarrow> table_rows_response \<times> nat \<Rightarrow> nat
   \<Rightarrow> engine_error + table_rows_response \<times> nat" where
  "render_row T rows columns = (\<lambda>(response, bytes) index.
     let output = data_row columns (rows ! index) in
     rbind (json_size (tx_row_bytes T output)) (\<lambda>n.
     let bytes = bytes + n + 1 in
     if MAX_SNAPSHOT_PAGE_BYTES < bytes
     then Inl (EngineInvalid ''table response exceeds 16 MiB; reduce limit or selected columns'')
     else Inr (response\<lparr>rp_data_rows := rp_data_rows response @ [output]\<rparr>, bytes)))"

definition render_rows ::
  "table_ext \<Rightarrow> table_record list \<Rightarrow> string list \<Rightarrow> table_source list \<Rightarrow> nat \<Rightarrow> nat \<Rightarrow> nat list
   \<Rightarrow> engine_error + table_rows_response" where
  "render_rows T rows columns snapshots offset limit page =
     (let response = \<lparr>rp_columns = map column columns, rp_data_rows = [], rp_total = length rows,
                      rp_offset = offset, rp_limit = limit, rp_snapshots = snapshots\<rparr>
      in rbind (json_size (tx_rows_bytes T response)) (\<lambda>bytes.
         rbind (try_fold (render_row T rows columns) (response, bytes) page) (\<lambda>(response, _).
         rbind (bounded_response (tx_rows_bytes T response)) (\<lambda>_.
         Inr response))))"

definition table_rows ::
  "serde_ext \<Rightarrow> table_ext \<Rightarrow> 'ix store \<Rightarrow> source list \<Rightarrow> table_rows_request \<Rightarrow> engine_error + table_rows_response" where
  "table_rows X T db sources q =
     rbind (validate_rows q) (\<lambda>_.
     rbind (table_snapshots X T db sources (tr_snapshot_ids q) True) (\<lambda>snapshots.
     rbind (scan_records T snapshots q sources ScanRows) (\<lambda>scan.
     rbind (table_page_order (tx_view T) (tn_rows scan) q (tn_budget scan)) (\<lambda>(page, _).
     render_rows T (tn_rows scan) (tn_columns scan) (tn_snapshots scan) (tr_offset q) (tr_limit q) page))))"

text \<open>\<open>Engine::table_rows_controlled\<close>\<close>

definition engine_table_rows ::
  "repo_env \<Rightarrow> serde_ext \<Rightarrow> table_ext \<Rightarrow> repo \<Rightarrow> 'ix store \<Rightarrow> table_rows_request \<Rightarrow> engine_error + table_rows_response" where
  "engine_table_rows E X T repo db q =
     rbind (validate_table_selection (tr_run_ids q) (tr_source_ids q)) (\<lambda>_.
     rbind (table_sources E repo (tr_run_ids q) (tr_source_ids q)) (\<lambda>sources.
     table_rows X T db sources q))"

end
