(* ===== verification/Table_Views.thy ===== *)
theory Table_Views
  imports Tables
begin

text \<open>
  Views of snapshot collections (\<open>rust/rvx-engine/src/snapshot_store/tables/views.rs\<close>,
  \<open>rust/rvx-engine/src/snapshot_views.rs\<close>): records with stable identities, paged over all sources in
  turn, and aggregates by category, source and measure.

  \<^item> \<open>view_ext\<close> is what the source takes from \<open>serde_json\<close>: the text of identities and group keys, the
    printing of floats, and the sizes of responses.
  \<^item> A \<open>HashMap\<close> of which only lookups, the size and a subsequently sorted iteration are used is a
    list in key order.
\<close>

section \<open>Data\<close>

type_synonym component = "string \<times> string option"

record snapshot_aggregate_value =
  av_value :: table_cell
  av_minimum_magnitude :: "table_cell option"
  av_count :: nat
  av_missing :: nat
  av_non_numeric :: nat
  av_approximate :: bool

record snapshot_aggregate_series =
  as_run_id :: string
  as_source_id :: string
  as_snapshot_id :: string
  as_measures :: "(string, snapshot_aggregate_value) bmap"

record snapshot_aggregate_group =
  ag_key :: string
  ag_cells :: "table_cell list"
  ag_series :: "snapshot_aggregate_series list"

record snapshot_aggregate_response =
  ap_groups :: "snapshot_aggregate_group list"
  ap_total_groups :: nat
  ap_matched_rows :: nat
  ap_offset :: nat
  ap_limit :: nat
  ap_snapshots :: "table_source list"

record snapshot_records_response =
  sr_table :: table_rows_response
  sr_identities :: "string list"

record view_ext =
  vx_components :: "component list \<Rightarrow> string + string"
  vx_identity :: "string \<Rightarrow> string \<Rightarrow> component list \<Rightarrow> string + string"
  vx_as_f64 :: "string \<Rightarrow> f64 option"
  vx_f64_text :: "f64 \<Rightarrow> string option"
  vx_records_bytes :: "snapshot_records_response \<Rightarrow> string + nat"
  vx_aggregate_bytes :: "snapshot_aggregate_response \<Rightarrow> string + nat"

text \<open>The components of a key or of an identity: a type tag keeps a number apart from its text.\<close>

definition scalar :: "number_view \<Rightarrow> bool \<Rightarrow> cell \<Rightarrow> engine_error + component" where
  "scalar V identity c =
     (case c of
        CellKey s \<Rightarrow> Inr (''string'', Some s)
      | CellValue (JString s) \<Rightarrow> Inr (''string'', Some s)
      | CellValue (JNumber n) \<Rightarrow>
          if identity
          then rbind (ok_or (EngineInvalid ''record identity values must not be floats'') (number_integer V n)) (\<lambda>i.
               Inr (''number'', Some (show_int i)))
          else Inr (''number'', Some (canonical_number V n))
      | _ \<Rightarrow>
          if identity
          then Inl (EngineInvalid ''record identity values require present, non-null strings or exact 64-bit integers'')
          else (case c of
                  CellValue (JBool b) \<Rightarrow> Inr (''boolean'', Some (show_bool b))
                | CellMissing \<Rightarrow> Inr (''missing'', None)
                | CellValue JNull \<Rightarrow> Inr (''null'', None)
                | _ \<Rightarrow> Inl (EngineInvalid ''group_by values must be scalar, missing, or null'')))"

section \<open>Records\<close>

datatype identity_part = PartNumber int | PartString string

fun part_key :: "identity_part \<Rightarrow> nat \<times> int \<times> string" where
  "part_key (PartNumber i) = (0, i, [])"
| "part_key (PartString s) = (1, 0, s)"

text \<open>The derived order: numbers before strings.\<close>

instantiation identity_part :: linorder
begin

definition less_eq_identity_part :: "identity_part \<Rightarrow> identity_part \<Rightarrow> bool" where
  "less_eq_identity_part a b \<longleftrightarrow> part_key a \<le> part_key b"

definition less_identity_part :: "identity_part \<Rightarrow> identity_part \<Rightarrow> bool" where
  "less_identity_part a b \<longleftrightarrow> part_key a < part_key b"

instance
proof
  fix x y z :: identity_part
  have inj: "part_key x = part_key y \<Longrightarrow> x = y" by (cases x; cases y) simp_all
  show "x < y \<longleftrightarrow> x \<le> y \<and> \<not> y \<le> x" by (auto simp: less_identity_part_def less_eq_identity_part_def)
  show "x \<le> x" by (simp add: less_eq_identity_part_def)
  show "x \<le> y \<Longrightarrow> y \<le> z \<Longrightarrow> x \<le> z" unfolding less_eq_identity_part_def by (rule order_trans)
  show "x \<le> y \<Longrightarrow> y \<le> x \<Longrightarrow> x = y" unfolding less_eq_identity_part_def using inj by (simp add: order_antisym)
  show "x \<le> y \<or> y \<le> x" unfolding less_eq_identity_part_def by (rule linear)
qed

end

record identity =
  id_scope :: nat
  id_parts :: "identity_part list"
  id_full :: string

definition identity_part_of :: "component \<Rightarrow> engine_error + identity_part" where
  "identity_part_of = (\<lambda>(kind, value).
     rbind (ok_or (Runtime ''validated identities are present'') value) (\<lambda>v.
     if kind = ''number''
     then rbind (ok_or (Runtime ''validated 64-bit integer identity'') (parse_exponent v)) (\<lambda>i. Inr (PartNumber i))
     else Inr (PartString v)))"

definition string_bytes :: "component list \<Rightarrow> nat" where
  "string_bytes cs = sum_list (map (\<lambda>(kind, v). if kind = ''string'' then (case v of None \<Rightarrow> 0 | Some s \<Rightarrow> length s) else 0) cs)"

definition scope_table :: "stored_snapshot list \<Rightarrow> (int \<times> nat) list" where
  "scope_table snapshots = rev (zip (map ss_id snapshots) [0..<length snapshots])"

record identity_state =
  is_identities :: "identity list"
  is_seen :: "(nat \<times> string) list"
  is_text_bytes :: nat
  is_budget :: work_budget

definition identity_components ::
  "number_view \<Rightarrow> path_kind list \<Rightarrow> table_record \<Rightarrow> work_budget \<Rightarrow> engine_error + component list \<times> work_budget" where
  "identity_components V fields' r b =
     try_fold (\<lambda>(cs, b) field.
         rbind (visit b) (\<lambda>b. rbind (scalar V True (field_cell field r)) (\<lambda>c. Inr (cs @ [c], b))))
       ([], b) fields'"

definition add_identity ::
  "view_ext \<Rightarrow> number_view \<Rightarrow> path_kind list \<Rightarrow> (int \<times> nat) list \<Rightarrow> identity_state \<Rightarrow> table_record
   \<Rightarrow> engine_error + identity_state" where
  "add_identity W V fields' scopes st r =
     rbind (identity_components V fields' r (is_budget st)) (\<lambda>(components, b).
     rbind (map_err Json (vx_components W components)) (\<lambda>local.
     rbind (ok_or (Runtime ''no entry found for key'') (map_of scopes (ss_id (rc_snapshot r)))) (\<lambda>scope.
     rbind (ensure ((scope, local) \<notin> set (is_seen st))
              (EngineInvalid ''duplicate record identity in the full filtered collection'')) (\<lambda>_.
     rbind (map_err Json (vx_identity W (ss_run_id (rc_snapshot r)) (ss_source_id (rc_snapshot r)) components)) (\<lambda>full.
     rbind (charge_text (saturating_add_u64 (length full) (length local)) b) (\<lambda>b.
     rbind (try_map identity_part_of components) (\<lambda>parts.
     Inr \<lparr>is_identities = is_identities st @ [\<lparr>id_scope = scope, id_parts = parts, id_full = full\<rparr>],
          is_seen = (scope, local) # is_seen st,
          is_text_bytes = saturating_add_u64 (is_text_bytes st) (string_bytes components), is_budget = b\<rparr>)))))))"

subsection \<open>Taking sources in turn\<close>

text \<open>The round in which a position falls, when every source gives one record per round.\<close>

definition round_prefix :: "nat list \<Rightarrow> nat \<Rightarrow> nat" where
  "round_prefix sizes r = sum_list (map (\<lambda>n. min n r) sizes)"

function round_search :: "nat list \<Rightarrow> nat \<Rightarrow> nat \<Rightarrow> nat \<Rightarrow> nat" where
  "round_search sizes position low high =
     (if \<not> low < high then low
      else let middle = low + (high - low + 1) div 2 in
           if round_prefix sizes middle \<le> position
           then round_search sizes position middle high
           else round_search sizes position low (middle - 1))"
  by pat_completeness auto
termination
  by (relation "measure (\<lambda>(_, _, low, high). high - low)") auto

declare round_search.simps [simp del]

definition identity_round :: "nat list \<Rightarrow> nat \<Rightarrow> nat" where
  "identity_round sizes position = round_search sizes position 0 (foldr max sizes 0)"

definition compare_parts :: "identity list \<Rightarrow> nat \<Rightarrow> nat \<Rightarrow> ordering" where
  "compare_parts ids a b = cmp (id_parts (ids ! a)) (id_parts (ids ! b))"

text \<open>The loop over the queue: each list in it is not empty.\<close>

function take_turns :: "nat list list \<Rightarrow> nat \<Rightarrow> nat \<Rightarrow> nat \<Rightarrow> nat list \<Rightarrow> nat list" where
  "take_turns queue position offset stop result =
     (case queue of
        [] \<Rightarrow> result
      | [] # rest \<Rightarrow> take_turns rest position offset stop result
      | (x # xs) # rest \<Rightarrow>
          let result = (if offset \<le> position then result @ [x] else result) in
          if position + 1 = stop then result
          else take_turns (if xs = [] then rest else rest @ [xs]) (position + 1) offset stop result)"
  by pat_completeness auto
termination
  by (relation "measure (\<lambda>(queue, _). sum_list (map length queue) + length queue)") auto

declare take_turns.simps [simp del]

definition buckets_of :: "identity list \<Rightarrow> nat \<Rightarrow> nat list list" where
  "buckets_of ids scopes = map (\<lambda>s. filter (\<lambda>i. id_scope (ids ! i) = s) [0..<length ids]) [0..<scopes]"

definition interleaved_identity_page :: "identity list \<Rightarrow> nat \<Rightarrow> nat \<Rightarrow> nat \<Rightarrow> nat list" where
  "interleaved_identity_page ids scopes offset limit =
     (if length ids \<le> offset then []
      else let stop = min (saturating_add_u64 offset limit) (length ids);
               buckets = buckets_of ids scopes;
               sizes = map length buckets;
               first = identity_round sizes offset;
               last = identity_round sizes (stop - 1);
               queue = filter (\<lambda>w. w \<noteq> []) (map (select_page (compare_parts ids) first (last - first + 1)) buckets)
           in take_turns queue (round_prefix sizes first) offset stop [])"

definition compare_sorted ::
  "table_sort \<Rightarrow> table_sort_key list \<Rightarrow> identity list \<Rightarrow> nat \<Rightarrow> nat \<Rightarrow> ordering" where
  "compare_sorted s keys ids a b =
     then_with (direct_order (ts_direction s) (compare_sort_key (keys ! a) (keys ! b)))
       (cmp (id_scope (ids ! a), id_parts (ids ! a)) (id_scope (ids ! b), id_parts (ids ! b)))"

definition sorted_keys ::
  "number_view \<Rightarrow> table_sort option \<Rightarrow> table_record list \<Rightarrow> work_budget \<Rightarrow> engine_error + table_sort_key list \<times> work_budget" where
  "sorted_keys V s rows b =
     (case s of
        None \<Rightarrow> Inr ([], b)
      | Some s \<Rightarrow>
          let field = field_path (ts_path s) in
          rbind (try_fold (\<lambda>b r. charge_sort (length rows) (field_cell field r) b) b rows) (\<lambda>b.
          Inr (map (\<lambda>r. sort_key_of V (field_cell field r)) rows, b)))"

definition records_page :: "snapshot_records_request \<Rightarrow> table_sort_key list \<Rightarrow> identity list \<Rightarrow> nat \<Rightarrow> nat list" where
  "records_page q keys ids scopes =
     (case sq_sort q of
        None \<Rightarrow> interleaved_identity_page ids scopes (sq_offset q) (sq_limit q)
      | Some s \<Rightarrow> select_page (compare_sorted s keys ids) (sq_offset q) (sq_limit q) [0..<length ids])"

definition snapshot_records ::
  "serde_ext \<Rightarrow> table_ext \<Rightarrow> view_ext \<Rightarrow> 'ix store \<Rightarrow> source list \<Rightarrow> snapshot_records_request
   \<Rightarrow> engine_error + snapshot_records_response" where
  "snapshot_records X T W db sources q =
     rbind (map_err EngineInvalid (validate_identity_paths q)) (\<lambda>_.
     let table = table_request q in
     rbind (validate_rows_limit table MAX_SNAPSHOT_RECORDS_PAGE) (\<lambda>_.
     rbind (table_snapshots X T db sources (sq_snapshot_ids q) True) (\<lambda>snapshots.
     rbind (scan_records T snapshots table sources ScanRecords) (\<lambda>scan.
     rbind (ensure (\<not> (\<not> tn_all_objects scan \<and> ''$key'' \<in> set (sq_identity_paths q)))
              (EngineInvalid ''$key identities require object collections, never array positions'')) (\<lambda>_.
     rbind (try_fold (add_identity W (tx_view T) (map field_path (sq_identity_paths q)) (scope_table snapshots))
              \<lparr>is_identities = [], is_seen = [], is_text_bytes = 0, is_budget = tn_budget scan\<rparr> (tn_rows scan)) (\<lambda>st.
     rbind (charge_text (saturating_mul_usize (is_text_bytes st) (2 * sort_levels (length (tn_rows scan)) + 2))
              (is_budget st)) (\<lambda>b.
     rbind (sorted_keys (tx_view T) (sq_sort q) (tn_rows scan) b) (\<lambda>(keys, b).
     let indices = records_page q keys (is_identities st) (length snapshots) in
     rbind (render_rows T (tn_rows scan) (tn_columns scan) (tn_snapshots scan) (sq_offset q) (sq_limit q) indices) (\<lambda>table.
     let response = \<lparr>sr_table = table, sr_identities = map (\<lambda>i. id_full (is_identities st ! i)) indices\<rparr> in
     rbind (bounded_response (vx_records_bytes W response)) (\<lambda>_. Inr response))))))))))"

section \<open>Aggregates\<close>

text \<open>Scaled Neumaier summation.\<close>

record stable_sum =
  su_scale :: f64
  su_sum :: f64
  su_correction :: f64

definition new_sum :: stable_sum where
  "new_sum = \<lparr>su_scale = Fin 0, su_sum = Fin 0, su_correction = Fin 0\<rparr>"

definition sum_add :: "stable_sum \<Rightarrow> f64 \<Rightarrow> stable_sum" where
  "sum_add s v =
     (if f64_eq v (Fin 0) then s
      else let s = (if f64_less (su_scale s) (f64_abs v)
                    then let factor = f64_div (su_scale s) (f64_abs v)
                         in \<lparr>su_scale = f64_abs v, su_sum = f64_mul (su_sum s) factor,
                             su_correction = f64_mul (su_correction s) factor\<rparr>
                    else s);
               part = f64_div v (su_scale s);
               next' = f64_add (su_sum s) part;
               correction = (if f64_le (f64_abs part) (f64_abs (su_sum s))
                             then f64_add (f64_sub (su_sum s) next') part
                             else f64_add (f64_sub part next') (su_sum s))
           in s\<lparr>su_correction := f64_add (su_correction s) correction, su_sum := next'\<rparr>)"

definition sum_total :: "stable_sum \<Rightarrow> f64" where
  "sum_total s = f64_mul (f64_add (su_sum s) (su_correction s)) (su_scale s)"

definition in_i128 :: "int \<Rightarrow> bool" where
  "in_i128 x \<longleftrightarrow> - (2 ^ 127) \<le> x \<and> x < 2 ^ 127"

record accumulator =
  ac_count :: nat
  ac_missing :: nat
  ac_non_numeric :: nat
  ac_integer_sum :: int
  ac_float_sum :: "stable_sum option"
  ac_bound :: "(string \<times> numeric_key) option"
  ac_minimum_magnitude :: "(string \<times> numeric_key) option"

definition new_accumulator :: accumulator where
  "new_accumulator = \<lparr>ac_count = 0, ac_missing = 0, ac_non_numeric = 0, ac_integer_sum = 0, ac_float_sum = None,
     ac_bound = None, ac_minimum_magnitude = None\<rparr>"

definition finite_input :: "view_ext \<Rightarrow> string \<Rightarrow> engine_error + f64" where
  "finite_input W n =
     ok_or (EngineInvalid ''aggregate sum requires finite inputs'')
       (case vx_as_f64 W n of Some x \<Rightarrow> if f64_is_finite x then Some x else None | None \<Rightarrow> None)"

definition add_to_sum :: "view_ext \<Rightarrow> number_view \<Rightarrow> string \<Rightarrow> accumulator \<Rightarrow> engine_error + accumulator" where
  "add_to_sum W V n a =
     (case (ac_float_sum a, number_integer V n) of
        (Some s, _) \<Rightarrow> rbind (finite_input W n) (\<lambda>x. Inr (a\<lparr>ac_float_sum := Some (sum_add s x)\<rparr>))
      | (None, Some i) \<Rightarrow>
          if in_i128 (ac_integer_sum a + i) then Inr (a\<lparr>ac_integer_sum := ac_integer_sum a + i\<rparr>)
          else Inl (EngineInvalid ''aggregate integer sum overflow'')
      | (None, None) \<Rightarrow>
          rbind (finite_input W n) (\<lambda>x.
          Inr (a\<lparr>ac_float_sum := Some (sum_add (sum_add new_sum (f64_of_int (ac_integer_sum a))) x)\<rparr>)))"

definition replaces :: "ordering \<Rightarrow> numeric_key \<Rightarrow> (string \<times> numeric_key) option \<Rightarrow> bool" where
  "replaces wanted key current = (case current of None \<Rightarrow> True | Some (_, k) \<Rightarrow> compare_key key k = wanted)"

definition absolute_key :: "numeric_key \<Rightarrow> numeric_key" where
  "absolute_key k = k\<lparr>nk_negative := False, nk_integer := map_option abs (nk_integer k)\<rparr>"

definition note_magnitude :: "number_view \<Rightarrow> string \<Rightarrow> accumulator \<Rightarrow> accumulator" where
  "note_magnitude V n a =
     (let key = absolute_key (numeric_key_of V n)
      in if nk_digits key \<noteq> [] \<and> replaces Less key (ac_minimum_magnitude a)
         then a\<lparr>ac_minimum_magnitude := Some (n, key)\<rparr> else a)"

definition add_number ::
  "view_ext \<Rightarrow> number_view \<Rightarrow> snapshot_aggregation \<Rightarrow> string \<Rightarrow> accumulator \<Rightarrow> work_budget
   \<Rightarrow> engine_error + accumulator \<times> work_budget" where
  "add_number W V op n a b =
     rbind (charge_text (saturating_mul_usize (length n) 2) b) (\<lambda>b.
     let a = a\<lparr>ac_count := ac_count a + 1\<rparr> in
     rbind (if op = AggMin then charge_text (saturating_mul_usize (length n) 2) b else Inr b) (\<lambda>b.
     let a = (if op = AggMin then note_magnitude V n a else a) in
     if op = AggSum then rbind (add_to_sum W V n a) (\<lambda>a. Inr (a, b))
     else let key = numeric_key_of V n
          in Inr (if replaces (if op = AggMin then Less else Greater) key (ac_bound a)
                  then a\<lparr>ac_bound := Some (n, key)\<rparr> else a, b)))"

definition accumulate_cell ::
  "view_ext \<Rightarrow> number_view \<Rightarrow> snapshot_measure \<Rightarrow> cell option \<Rightarrow> accumulator \<times> work_budget
   \<Rightarrow> engine_error + accumulator \<times> work_budget" where
  "accumulate_cell W V m c = (\<lambda>(a, b).
     if sm_op m = AggCount
     then Inr (if c = Some CellMissing \<or> c = Some (CellValue JNull)
               then a\<lparr>ac_missing := ac_missing a + 1\<rparr> else a\<lparr>ac_count := ac_count a + 1\<rparr>, b)
     else case c of
         Some (CellValue (JNumber n)) \<Rightarrow> add_number W V (sm_op m) n a b
       | Some CellMissing \<Rightarrow> Inr (a\<lparr>ac_missing := ac_missing a + 1\<rparr>, b)
       | Some (CellValue JNull) \<Rightarrow> Inr (a\<lparr>ac_missing := ac_missing a + 1\<rparr>, b)
       | None \<Rightarrow> Inr (a\<lparr>ac_missing := ac_missing a + 1\<rparr>, b)
       | Some _ \<Rightarrow> Inr (a\<lparr>ac_non_numeric := ac_non_numeric a + 1\<rparr>, b))"

definition numeric_cell :: "string \<Rightarrow> table_cell" where
  "numeric_cell s = \<lparr>te_kind = TNumber, te_text = s, te_truncated = False\<rparr>"

definition measured_text :: "view_ext \<Rightarrow> snapshot_aggregation \<Rightarrow> accumulator \<Rightarrow> engine_error + string" where
  "measured_text W op a =
     (if op = AggSum
      then (case ac_float_sum a of
              Some s \<Rightarrow> ok_or (EngineInvalid ''aggregate sum overflow or nonfinite result'')
                            (vx_f64_text W (sum_total s))
            | None \<Rightarrow> Inr (show_int (ac_integer_sum a)))
      else ok_or (Runtime ''called Option::unwrap() on a None value'') (map_option fst (ac_bound a)))"

definition finish_measure :: "view_ext \<Rightarrow> snapshot_measure \<Rightarrow> accumulator \<Rightarrow> engine_error + snapshot_aggregate_value" where
  "finish_measure W m a =
     rbind (if sm_op m = AggCount then Inr (numeric_cell (show_nat (ac_count a)))
            else if ac_count a = 0 then Inr (preview CellMissing)
            else rbind (measured_text W (sm_op m) a) (\<lambda>s. Inr (numeric_cell s))) (\<lambda>value.
     Inr \<lparr>av_value = value,
          av_minimum_magnitude =
            (if sm_op m = AggMin
             then Some (case ac_minimum_magnitude a of
                          None \<Rightarrow> preview CellMissing
                        | Some (n, _) \<Rightarrow> numeric_cell (dropWhile (\<lambda>c. c = CHR ''-'') n))
             else None),
          av_count = ac_count a, av_missing = ac_missing a, av_non_numeric = ac_non_numeric a,
          av_approximate = (ac_float_sum a \<noteq> None)\<rparr>)"

record aggregate_series =
  gs_snapshot :: stored_snapshot
  gs_measures :: "accumulator list"

record aggregate_group =
  gg_cells :: "table_cell list"
  gg_series :: "(string \<times> string, aggregate_series) bmap"

definition group_components ::
  "number_view \<Rightarrow> path_kind list \<Rightarrow> table_record \<Rightarrow> work_budget \<Rightarrow> engine_error + (component list \<times> cell list) \<times> work_budget" where
  "group_components V dimensions r b =
     try_fold (\<lambda>((cs, cells), b) dimension.
         rbind (visit b) (\<lambda>b.
         let cell = field_cell dimension r in
         rbind (scalar V False cell) (\<lambda>c. Inr ((cs @ [c], cells @ [cell]), b))))
       (([], []), b) dimensions"

fun accumulate_all ::
  "view_ext \<Rightarrow> number_view \<Rightarrow> table_record \<Rightarrow> accumulator list \<Rightarrow> (snapshot_measure \<times> path_kind option) list \<Rightarrow> work_budget
   \<Rightarrow> engine_error + accumulator list \<times> work_budget" where
  "accumulate_all W V r (a # as) ((m, path) # ms) b =
     rbind (visit b) (\<lambda>b.
     rbind (accumulate_cell W V m (map_option (\<lambda>p. field_cell p r) path) (a, b)) (\<lambda>(a, b).
     rbind (accumulate_all W V r as ms b) (\<lambda>(as, b). Inr (a # as, b))))"
| "accumulate_all W V r as _ b = Inr (as, b)"

definition aggregate_row ::
  "view_ext \<Rightarrow> number_view \<Rightarrow> path_kind list \<Rightarrow> (snapshot_measure \<times> path_kind option) list
   \<Rightarrow> (string, aggregate_group) bmap \<times> work_budget \<Rightarrow> table_record
   \<Rightarrow> engine_error + (string, aggregate_group) bmap \<times> work_budget" where
  "aggregate_row W V dimensions specs = (\<lambda>(groups, b) r.
     rbind (group_components V dimensions r b) (\<lambda>((components, cells), b).
     rbind (map_err Json (vx_components W components)) (\<lambda>key.
     rbind (charge_text (length key) b) (\<lambda>b.
     rbind (ensure (\<not> (\<not> bm_contains groups key \<and> MAX_SNAPSHOT_GROUPS \<le> length groups))
              (EngineInvalid ''aggregate exceeds 50000 groups; narrow Sources/filters'')) (\<lambda>_.
     let group = (case bm_get groups key of
                    Some g \<Rightarrow> g | None \<Rightarrow> \<lparr>gg_cells = map preview cells, gg_series = []\<rparr>);
         place = (ss_run_id (rc_snapshot r), ss_source_id (rc_snapshot r));
         series = (case bm_get (gg_series group) place of
                     Some s \<Rightarrow> s
                   | None \<Rightarrow> \<lparr>gs_snapshot = rc_snapshot r, gs_measures = map (\<lambda>_. new_accumulator) specs\<rparr>) in
     rbind (accumulate_all W V r (gs_measures series) specs b) (\<lambda>(accs, b).
     Inr (bm_insert key (group\<lparr>gg_series := bm_insert place (series\<lparr>gs_measures := accs\<rparr>) (gg_series group)\<rparr>) groups,
          b)))))))"

fun finish_measures ::
  "view_ext \<Rightarrow> (snapshot_measure \<times> accumulator) list \<Rightarrow> (string, snapshot_aggregate_value) bmap \<Rightarrow> work_budget
   \<Rightarrow> engine_error + (string, snapshot_aggregate_value) bmap \<times> work_budget" where
  "finish_measures W [] values' b = Inr (values', b)"
| "finish_measures W ((m, a) # rest) values' b =
     rbind (visit b) (\<lambda>b.
     rbind (finish_measure W m a) (\<lambda>v. finish_measures W rest (bm_insert (sm_id m) v values') b))"

definition finish_series ::
  "view_ext \<Rightarrow> snapshot_measure list \<Rightarrow> snapshot_aggregate_series list \<times> work_budget
   \<Rightarrow> (string \<times> string) \<times> aggregate_series \<Rightarrow> engine_error + snapshot_aggregate_series list \<times> work_budget" where
  "finish_series W specs = (\<lambda>(series, b) ((run, source), state).
     rbind (finish_measures W (zip specs (gs_measures state)) [] b) (\<lambda>(values', b).
     Inr (series @ [\<lparr>as_run_id = run, as_source_id = source, as_snapshot_id = show_int (ss_id (gs_snapshot state)),
                     as_measures = values'\<rparr>], b)))"

definition finish_group ::
  "view_ext \<Rightarrow> snapshot_measure list \<Rightarrow> snapshot_aggregate_group list \<times> work_budget
   \<Rightarrow> string \<times> aggregate_group \<Rightarrow> engine_error + snapshot_aggregate_group list \<times> work_budget" where
  "finish_group W specs = (\<lambda>(output, b) (key, group).
     rbind (try_fold (finish_series W specs) ([], b) (gg_series group)) (\<lambda>(series, b).
     Inr (output @ [\<lparr>ag_key = key, ag_cells = gg_cells group, ag_series = series\<rparr>], b)))"

definition raise_rank ::
  "table_ext \<Rightarrow> nat \<Rightarrow> string \<Rightarrow> string option \<times> work_budget \<Rightarrow> snapshot_aggregate_series
   \<Rightarrow> engine_error + string option \<times> work_budget" where
  "raise_rank T groups spec = (\<lambda>(maximum, b) series.
     rbind (visit b) (\<lambda>b.
     rbind (ok_or (Runtime ''no entry found for key'') (bm_get (as_measures series) spec)) (\<lambda>v.
     let value = av_value v in
     if te_kind value = TNumber
     then rbind (charge_text (saturating_mul_usize (length (te_text value)) (2 * sort_levels groups + 2)) b) (\<lambda>b.
          rbind (ok_or (Json ''invalid number'') (tx_parse_number T (te_text value))) (\<lambda>number.
          Inr (if replaces Greater (numeric_key_of (tx_view T) number)
                    (map_option (\<lambda>n. (n, numeric_key_of (tx_view T) n)) maximum)
               then Some number else maximum, b)))
     else Inr (maximum, b))))"

definition rank_categories ::
  "table_ext \<Rightarrow> snapshot_aggregate_group list \<Rightarrow> snapshot_aggregate_request \<Rightarrow> work_budget
   \<Rightarrow> engine_error + string option list \<times> work_budget" where
  "rank_categories T groups q b =
     (case sa_order q of
        None \<Rightarrow> Inr ([], b)
      | Some order \<Rightarrow>
          try_fold (\<lambda>(ranks, b) group.
              rbind (try_fold (raise_rank T (length groups) (so_measure order)) (None, b) (ag_series group)) (\<lambda>(m, b).
              Inr (ranks @ [m], b)))
            ([], b) groups)"

fun compare_ranks :: "table_sort_direction \<Rightarrow> numeric_key option \<Rightarrow> numeric_key option \<Rightarrow> ordering" where
  "compare_ranks d (Some a) (Some b) = direct_order d (compare_key a b)"
| "compare_ranks d None None = direct_order d Equal"
| "compare_ranks d None (Some _) = Greater"
| "compare_ranks d (Some _) None = Less"

definition compare_groups ::
  "number_view \<Rightarrow> snapshot_aggregate_request \<Rightarrow> string option list \<Rightarrow> snapshot_aggregate_group list \<Rightarrow> nat \<Rightarrow> nat \<Rightarrow> ordering" where
  "compare_groups V q ranks output a b =
     then_with
       (case sa_order q of
          None \<Rightarrow> Equal
        | Some spec \<Rightarrow> compare_ranks (so_direction spec) (map_option (numeric_key_of V) (ranks ! a))
                        (map_option (numeric_key_of V) (ranks ! b)))
       (cmp (ag_key (output ! a)) (ag_key (output ! b)))"

definition aggregate_table :: "snapshot_aggregate_request \<Rightarrow> table_rows_request" where
  "aggregate_table q = \<lparr>tr_run_ids = sa_run_ids q, tr_source_ids = sa_source_ids q, tr_path = sa_path q,
     tr_columns = None, tr_snapshot_ids = sa_snapshot_ids q, tr_search = sa_search q, tr_filters = sa_filters q,
     tr_sort = None, tr_offset = sa_offset q, tr_limit = sa_limit q\<rparr>"

definition snapshot_aggregate ::
  "serde_ext \<Rightarrow> table_ext \<Rightarrow> view_ext \<Rightarrow> 'ix store \<Rightarrow> source list \<Rightarrow> snapshot_aggregate_request
   \<Rightarrow> engine_error + snapshot_aggregate_response" where
  "snapshot_aggregate X T W db sources q =
     rbind (map_err EngineInvalid (validate_aggregate q)) (\<lambda>_.
     let table = aggregate_table q; V = tx_view T in
     rbind (validate_rows table) (\<lambda>_.
     rbind (table_snapshots X T db sources (sa_snapshot_ids q) True) (\<lambda>snapshots.
     rbind (scan_records T snapshots table sources ScanProjection) (\<lambda>scan.
     rbind (try_fold (aggregate_row W V (map field_path (sa_group_by q))
                       (map (\<lambda>m. (m, map_option field_path (sm_path m))) (sa_measures q)))
              ([], tn_budget scan) (tn_rows scan)) (\<lambda>(groups, b).
     rbind (try_fold (finish_group W (sa_measures q)) ([], b) groups) (\<lambda>(output, b).
     let key_bytes = foldl saturating_add_u64 0 (map (length \<circ> fst) groups) in
     rbind (charge_text (saturating_mul_usize key_bytes (2 * sort_levels (length output) + 2)) b) (\<lambda>b.
     rbind (rank_categories T output q b) (\<lambda>(ranks, b).
     let page = select_page (compare_groups V q ranks output) (sa_offset q) (sa_limit q) [0..<length output];
         response = \<lparr>ap_groups = map (\<lambda>i. output ! i) page, ap_total_groups = length output,
                     ap_matched_rows = length (tn_rows scan), ap_offset = sa_offset q, ap_limit = sa_limit q,
                     ap_snapshots = tn_snapshots scan\<rparr> in
     rbind (bounded_response (vx_aggregate_bytes W response)) (\<lambda>_. Inr response)))))))))"

section \<open>Requests to the engine\<close>

definition engine_snapshot_records ::
  "repo_env \<Rightarrow> serde_ext \<Rightarrow> table_ext \<Rightarrow> view_ext \<Rightarrow> repo \<Rightarrow> 'ix store \<Rightarrow> snapshot_records_request
   \<Rightarrow> engine_error + snapshot_records_response" where
  "engine_snapshot_records E X T W repo db q =
     rbind (validate_table_selection (sq_run_ids q) (sq_source_ids q)) (\<lambda>_.
     rbind (table_sources E repo (sq_run_ids q) (sq_source_ids q)) (\<lambda>sources.
     snapshot_records X T W db sources q))"

definition engine_snapshot_aggregate ::
  "repo_env \<Rightarrow> serde_ext \<Rightarrow> table_ext \<Rightarrow> view_ext \<Rightarrow> repo \<Rightarrow> 'ix store \<Rightarrow> snapshot_aggregate_request
   \<Rightarrow> engine_error + snapshot_aggregate_response" where
  "engine_snapshot_aggregate E X T W repo db q =
     rbind (validate_table_selection (sa_run_ids q) (sa_source_ids q)) (\<lambda>_.
     rbind (table_sources E repo (sa_run_ids q) (sa_source_ids q)) (\<lambda>sources.
     snapshot_aggregate X T W db sources q))"

end
