(* ===== verification/Table_Catalog.thy ===== *)
theory Table_Catalog
  imports Tables
begin

text \<open>
  Summaries and the catalog of tables (\<open>table_summary\<close>, \<open>table_catalog\<close>, \<open>Discovery\<close> of
  \<open>rust/rvx-engine/src/snapshot_store/tables.rs\<close>): statistics of the numeric fields of each source, and
  which collections the current snapshots offer as tables, with the columns of their rows.

  The walk over a snapshot stops at limits on nodes, tables, columns and path lengths, and at
  collections whose members are records of one kind. \<open>catalog_ext\<close> gives the sizes of encoded values.
\<close>

abbreviation (input) MAX_TABLES :: nat where "MAX_TABLES \<equiv> 256"
abbreviation (input) MAX_CATALOG_NODES :: nat where "MAX_CATALOG_NODES \<equiv> 50000"
abbreviation (input) MAX_WRAPPER_MEMBERS :: nat where "MAX_WRAPPER_MEMBERS \<equiv> 32"

section \<open>Summaries\<close>

record table_summary_request =
  tq_run_ids :: "string list"
  tq_paths :: "string list"
  tq_source_ids :: "string list"
  tq_axis :: string
  tq_from :: "int option"
  tq_to :: "int option"

record table_summary_row =
  tw_run_id :: string
  tw_source_id :: string
  tw_path :: string
  tw_observations :: nat
  tw_count :: nat
  tw_missing :: nat
  tw_current :: "f64 option"
  tw_minimum :: "f64 option"
  tw_average :: "f64 option"
  tw_p95 :: "f64 option"
  tw_maximum :: "f64 option"
  tw_snapshot_id :: "string option"
  tw_observed_at_ns :: "int option"

record table_summary_response =
  ty_axis :: string
  ty_rows :: "table_summary_row list"

record table_definition =
  td_path :: string
  td_name :: string
  td_columns :: "table_column list"
  td_sources :: "table_source list"
  td_collection_kinds :: "table_collection_kind list option"

record table_catalog_response =
  tc_tables :: "table_definition list"
  tc_truncated :: bool

record catalog_ext =
  gx_definition_bytes :: "table_definition \<Rightarrow> string + nat"
  gx_source_bytes :: "table_source \<Rightarrow> string + nat"
  gx_catalog_bytes :: "table_catalog_response \<Rightarrow> string + nat"
  gx_summary_bytes :: "table_summary_response \<Rightarrow> string + nat"

definition default_table_axis :: string where "default_table_axis = ''elapsed''"

definition clamp_f64 :: "f64 \<Rightarrow> f64 \<Rightarrow> f64 \<Rightarrow> f64" where
  "clamp_f64 lo hi x = (if f64_less x lo then lo else if f64_less hi x then hi else x)"

text \<open>Compensated summation of the values, scaled to the largest.\<close>

definition mean_step :: "f64 \<Rightarrow> f64 \<times> f64 \<Rightarrow> f64 \<Rightarrow> f64 \<times> f64" where
  "mean_step scale = (\<lambda>(s, correction) value.
     let part = f64_sub (f64_div value scale) correction;
         next' = f64_add s part
     in (next', f64_sub (f64_sub next' s) part))"

definition mean :: "f64 list \<Rightarrow> f64 option" where
  "mean xs =
     (let scale = foldl (\<lambda>a b. f64_max a (f64_abs b)) (Fin 0) xs
      in if xs = [] then None
         else if f64_eq scale (Fin 0) then Some (Fin 0)
         else Some (f64_mul (clamp_f64 (Fin (- 1)) (Fin 1)
                      (f64_div (fst (foldl (mean_step scale) (Fin 0, Fin 0) xs)) (f64_of_nat (length xs)))) scale))"

definition summary_query :: "table_summary_request \<Rightarrow> query_request" where
  "summary_query q = \<lparr>qr_run_ids = tq_run_ids q, qr_paths = tq_paths q, qr_source_ids = tq_source_ids q,
     qr_axis = tq_axis q, qr_from = tq_from q, qr_to = tq_to q, qr_max_points = 1\<rparr>"

definition point_value :: "nat \<Rightarrow> projected \<Rightarrow> f64 option" where
  "point_value index p = pt_values p ! index"

definition last_point :: "projected list \<Rightarrow> projected option" where
  "last_point ps = (if ps = [] then None else Some (last ps))"

definition percentile_95 :: "f64 list \<Rightarrow> f64 option" where
  "percentile_95 xs = (if xs = [] then None else Some (xs ! ((95 * length xs + 99) div 100 - 1)))"

definition summary_row :: "known_fields_map \<Rightarrow> source \<Rightarrow> projected list \<Rightarrow> nat \<times> string \<Rightarrow> engine_error + table_summary_row" where
  "summary_row known s points = (\<lambda>(index, path).
     let first = bm_get known (src_run_id s, src_id s, path) in
     rbind (ensure (\<not> list_ex (\<lambda>p. excludes (pt_exclusions p) path
                        \<and> (case first of None \<Rightarrow> True | Some f \<Rightarrow> pt_id p < f) \<and> point_value index p = None) points)
              (EngineInvalid ''summary field index coverage is incomplete; narrow source/time/field selection'')) (\<lambda>_.
     let values' = sort (List.map_filter (point_value index) points);
         n = length values'; latest = last_point points
     in Inr \<lparr>tw_run_id = src_run_id s, tw_source_id = src_id s, tw_path = path, tw_observations = length points,
             tw_count = n, tw_missing = length points - n,
             tw_current = Option.bind latest (point_value index),
             tw_minimum = (if values' = [] then None else Some (hd values')), tw_average = mean values',
             tw_p95 = percentile_95 values', tw_maximum = (if values' = [] then None else Some (last values')),
             tw_snapshot_id = map_option (\<lambda>p. show_int (pt_id p)) latest,
             tw_observed_at_ns = map_option pt_observed latest\<rparr>))"

definition source_points :: "point_groups \<Rightarrow> source \<Rightarrow> projected list" where
  "source_points groups s = (case bm_get groups (src_run_id s, src_id s) of None \<Rightarrow> [] | Some ps \<Rightarrow> ps)"

definition source_summary ::
  "known_fields_map \<Rightarrow> point_groups \<Rightarrow> string list \<Rightarrow> source \<Rightarrow> engine_error + table_summary_row list" where
  "source_summary known groups paths s = try_map (summary_row known s (source_points groups s)) (List.enumerate 0 paths)"

definition table_summary ::
  "chart_ext \<Rightarrow> query_ext \<Rightarrow> catalog_ext \<Rightarrow> snap_row list \<Rightarrow> chart_index \<Rightarrow> source list \<Rightarrow> table_summary_request
   \<Rightarrow> engine_error + table_summary_response" where
  "table_summary C Q G rows ci sources q =
     rbind (projection C Q rows ci (summary_query q)) (\<lambda>(known, groups).
     rbind (try_map (source_summary known groups (tq_paths q)) sources) (\<lambda>rows'.
     let response = \<lparr>ty_axis = tq_axis q, ty_rows = concat rows'\<rparr> in
     rbind (bounded_response (gx_summary_bytes G response)) (\<lambda>_. Inr response)))"

section \<open>Discovery\<close>

text \<open>The derived orders of the kinds.\<close>

fun cell_kind_rank :: "table_cell_kind \<Rightarrow> nat" where
  "cell_kind_rank TMissing = 0"
| "cell_kind_rank TNull = 1"
| "cell_kind_rank TNumber = 2"
| "cell_kind_rank TString = 3"
| "cell_kind_rank TBoolean = 4"
| "cell_kind_rank TObject = 5"
| "cell_kind_rank TArray = 6"

instantiation table_cell_kind :: linorder
begin

definition less_eq_table_cell_kind :: "table_cell_kind \<Rightarrow> table_cell_kind \<Rightarrow> bool" where
  "less_eq_table_cell_kind a b \<longleftrightarrow> cell_kind_rank a \<le> cell_kind_rank b"

definition less_table_cell_kind :: "table_cell_kind \<Rightarrow> table_cell_kind \<Rightarrow> bool" where
  "less_table_cell_kind a b \<longleftrightarrow> cell_kind_rank a < cell_kind_rank b"

instance
proof
  fix x y z :: table_cell_kind
  show "x < y \<longleftrightarrow> x \<le> y \<and> \<not> y \<le> x" by (auto simp: less_table_cell_kind_def less_eq_table_cell_kind_def)
  show "x \<le> x" by (simp add: less_eq_table_cell_kind_def)
  show "x \<le> y \<Longrightarrow> y \<le> z \<Longrightarrow> x \<le> z" by (simp add: less_eq_table_cell_kind_def)
  show "x \<le> y \<Longrightarrow> y \<le> x \<Longrightarrow> x = y" by (cases x; cases y) (simp_all add: less_eq_table_cell_kind_def)
  show "x \<le> y \<or> y \<le> x" by (auto simp: less_eq_table_cell_kind_def)
qed

end

fun collection_kind_rank :: "table_collection_kind \<Rightarrow> nat" where
  "collection_kind_rank CollectionArray = 0"
| "collection_kind_rank CollectionObject = 1"

text \<open>A hint is how many rows have a field, and the kinds seen in it.\<close>

record catalog_hints =
  ch_rows :: nat
  ch_fields :: "(string, nat \<times> table_cell_kind list) bmap"

record table_discovery =
  dy_tables :: "(string, table_definition) bmap"
  dy_hints :: "(string, catalog_hints) bmap"
  dy_nodes :: nat
  dy_truncated :: bool

definition empty_discovery :: table_discovery where
  "empty_discovery = \<lparr>dy_tables = [], dy_hints = [], dy_nodes = 0, dy_truncated = False\<rparr>"

text \<open>\<open>catalog_visit\<close>; running out of nodes ends the search for record maps with \<open>None\<close>.\<close>

definition catalog_visit :: "nat \<Rightarrow> (bool option \<times> nat) + nat" where
  "catalog_visit nodes = (if nodes + 1 \<le> MAX_CATALOG_NODES then Inr (nodes + 1) else Inl (None, nodes + 1))"

definition is_collection :: "json \<Rightarrow> bool" where
  "is_collection v \<longleftrightarrow> collection_len (Some v) \<noteq> None"

definition wrapper_field :: "nat \<Rightarrow> json \<Rightarrow> (bool option \<times> nat) + nat" where
  "wrapper_field nodes field =
     rbind (catalog_visit nodes) (\<lambda>nodes.
     case field of
       JObject document \<Rightarrow>
         try_fold (\<lambda>nodes v. rbind (catalog_visit nodes) (\<lambda>nodes.
             if is_collection v then Inl (Some False, nodes) else Inr nodes)) nodes (map snd document)
     | _ \<Rightarrow> Inr nodes)"

definition wrapper_member :: "nat \<Rightarrow> json \<Rightarrow> (bool option \<times> nat) + nat" where
  "wrapper_member nodes v =
     rbind (catalog_visit nodes) (\<lambda>nodes.
     case v of JObject row \<Rightarrow> try_fold wrapper_field nodes (map snd row) | _ \<Rightarrow> Inr nodes)"

definition common_keys :: "string list option \<Rightarrow> string list \<Rightarrow> string list" where
  "common_keys common keys = (case common of None \<Rightarrow> keys | Some previous \<Rightarrow> filter (\<lambda>k. k \<in> set keys) previous)"

definition record_member :: "string list option \<times> nat \<Rightarrow> json \<Rightarrow> (bool option \<times> nat) + (string list option \<times> nat)" where
  "record_member = (\<lambda>(common, nodes) v.
     rbind (catalog_visit nodes) (\<lambda>nodes.
     case v of
       JObject row \<Rightarrow>
         rbind (try_fold (\<lambda>nodes _. catalog_visit nodes) nodes row) (\<lambda>nodes.
         let common = common_keys common (map fst (filter (\<lambda>(k, w). \<not> is_collection w) row))
         in if common = [] then Inl (Some False, nodes) else Inr (Some common, nodes))
     | _ \<Rightarrow> Inl (Some False, nodes)))"

definition is_record_map :: "(string \<times> json) list \<Rightarrow> nat \<Rightarrow> bool option \<times> nat" where
  "is_record_map object nodes =
     (if object = [] then (Some False, nodes)
      else case rbind (if length object \<le> MAX_WRAPPER_MEMBERS
                       then try_fold wrapper_member nodes (map snd object) else Inr nodes) (\<lambda>nodes.
                try_fold record_member (None, nodes) (map snd object)) of
             Inl outcome \<Rightarrow> outcome
           | Inr (_, nodes) \<Rightarrow> (Some True, nodes))"

definition add_kind :: "table_cell_kind \<Rightarrow> table_cell_kind list \<Rightarrow> table_cell_kind list" where
  "add_kind k ks = bm_keys (bm_insert k () (map (\<lambda>k. (k, ())) ks))"

record row_state =
  rs_hints :: catalog_hints
  rs_nodes :: nat
  rs_truncated :: bool

definition row_fields :: "json \<Rightarrow> (string \<times> json) list" where
  "row_fields row = (case row of JObject kvs \<Rightarrow> map (\<lambda>(k, v). (''/'' @ escape_key k, v)) kvs | _ \<Rightarrow> [(''$value'', row)])"

text \<open>The fields of a row; \<open>Inl\<close> when the nodes ran out, and the row is not counted.\<close>

definition note_field :: "row_state \<Rightarrow> string \<times> json \<Rightarrow> row_state + row_state" where
  "note_field st = (\<lambda>(field, v).
     let st = st\<lparr>rs_nodes := rs_nodes st + 1\<rparr>; fields' = ch_fields (rs_hints st) in
     if MAX_CATALOG_NODES < rs_nodes st then Inl (st\<lparr>rs_truncated := True\<rparr>)
     else if 4096 < length field \<or> (\<not> bm_contains fields' field \<and> MAX_COLUMNS \<le> length fields')
     then Inr (st\<lparr>rs_truncated := True\<rparr>)
     else let (present', kinds) = (case bm_get fields' field of None \<Rightarrow> (0, []) | Some e \<Rightarrow> e)
          in Inr (st\<lparr>rs_hints := (rs_hints st)\<lparr>ch_fields :=
                 bm_insert field (present' + 1, add_kind (cell_kind (CellValue v)) kinds) fields'\<rparr>\<rparr>))"

definition count_row :: "catalog_hints \<Rightarrow> catalog_hints" where
  "count_row h =
     h\<lparr>ch_rows := ch_rows h + 1,
       ch_fields := (case bm_get (ch_fields h) ''$key'' of
                       None \<Rightarrow> ch_fields h
                     | Some (n, kinds) \<Rightarrow> bm_insert ''$key'' (n + 1, kinds) (ch_fields h))\<rparr>"

definition note_row :: "row_state \<Rightarrow> json \<Rightarrow> row_state + row_state" where
  "note_row st row =
     (let st = st\<lparr>rs_nodes := rs_nodes st + 1\<rparr> in
      if MAX_CATALOG_NODES < rs_nodes st then Inl (st\<lparr>rs_truncated := True\<rparr>)
      else rbind (try_fold note_field st (row_fields row)) (\<lambda>st.
           Inr (st\<lparr>rs_hints := count_row (rs_hints st)\<rparr>)))"

definition either :: "'a + 'a \<Rightarrow> 'a" where
  "either r = (case r of Inl a \<Rightarrow> a | Inr a \<Rightarrow> a)"

definition hint_column :: "nat \<Rightarrow> string \<times> nat \<times> table_cell_kind list \<Rightarrow> table_column" where
  "hint_column rows = (\<lambda>(path, present', kinds).
     (column path)\<lparr>tl_kinds := Some (if present' < rows then add_kind TMissing kinds else kinds)\<rparr>)"

definition new_definition :: "string \<Rightarrow> table_definition" where
  "new_definition path = \<lparr>td_path = path, td_name = (if path = [] then ''Root'' else column_name path), td_columns = [],
     td_sources = [], td_collection_kinds = Some []\<rparr>"

definition add_collection_kind :: "table_collection_kind \<Rightarrow> table_definition \<Rightarrow> table_definition" where
  "add_collection_kind k d =
     d\<lparr>td_collection_kinds := map_option (\<lambda>ks. if k \<in> set ks then ks else sort_key collection_kind_rank (ks @ [k]))
        (td_collection_kinds d)\<rparr>"

text \<open>The part of a visit that concerns the collection itself, when there is room for its table.\<close>

definition describe :: "string \<Rightarrow> json \<Rightarrow> table_discovery \<Rightarrow> table_discovery" where
  "describe path v d =
     (let table = add_collection_kind (case v of JArray _ \<Rightarrow> CollectionArray | _ \<Rightarrow> CollectionObject)
                    (case bm_get (dy_tables d) path of Some t \<Rightarrow> t | None \<Rightarrow> new_definition path);
          hints = (case bm_get (dy_hints d) path of Some h \<Rightarrow> h | None \<Rightarrow> \<lparr>ch_rows = 0, ch_fields = []\<rparr>);
          hints = (if bm_contains (ch_fields hints) ''$key'' then hints
                   else hints\<lparr>ch_fields := bm_insert ''$key'' (0, [TString]) (ch_fields hints)\<rparr>);
          st = either (try_fold note_row \<lparr>rs_hints = hints, rs_nodes = dy_nodes d, rs_truncated = dy_truncated d\<rparr>
                         (map snd (collection v)))
      in \<lparr>dy_tables = bm_insert path
             (table\<lparr>td_columns := map (hint_column (ch_rows (rs_hints st))) (ch_fields (rs_hints st))\<rparr>) (dy_tables d),
          dy_hints = bm_insert path (rs_hints st) (dy_hints d), dy_nodes = rs_nodes st, dy_truncated = rs_truncated st\<rparr>)"

text \<open>Whether the members of an object are rows, so that the walk stops at it.\<close>

definition stops_at :: "string \<Rightarrow> (string \<times> json) list \<Rightarrow> table_discovery \<Rightarrow> bool \<times> table_discovery" where
  "stops_at path object d =
     (if path = [] then (False, d)
      else case is_record_map object (dy_nodes d) of
             (Some records, nodes) \<Rightarrow> (records, d\<lparr>dy_nodes := nodes\<rparr>)
           | (None, nodes) \<Rightarrow> (True, d\<lparr>dy_nodes := nodes, dy_truncated := True\<rparr>))"

fun discover_tables :: "string \<Rightarrow> json \<Rightarrow> table_discovery \<Rightarrow> table_discovery"
  and discover_children :: "string \<Rightarrow> (string \<times> json) list \<Rightarrow> table_discovery \<Rightarrow> table_discovery" where
  "discover_tables path v d =
     (let d = d\<lparr>dy_nodes := dy_nodes d + 1\<rparr> in
      if MAX_CATALOG_NODES < dy_nodes d \<or> 4096 < length path then d\<lparr>dy_truncated := True\<rparr>
      else if \<not> is_collection v then d
      else if \<not> bm_contains (dy_tables d) path \<and> MAX_TABLES \<le> length (dy_tables d) then d\<lparr>dy_truncated := True\<rparr>
      else let d = describe path v d in
           if MAX_CATALOG_NODES \<le> dy_nodes d then d\<lparr>dy_truncated := True\<rparr>
           else case v of
               JObject object \<Rightarrow>
                 (let (stops, d) = stops_at path object d in if stops then d else discover_children path object d)
             | _ \<Rightarrow> d)"
| "discover_children path [] d = d"
| "discover_children path ((key, child) # rest) d =
     (if MAX_CATALOG_NODES \<le> dy_nodes d then d\<lparr>dy_truncated := True\<rparr>
      else discover_children path rest (discover_tables (path @ ''/'' @ escape_key key) child d))"

section \<open>The catalog\<close>

text \<open>The sources of a table, as far as the response has room.\<close>

fun list_sources_of ::
  "number_view \<Rightarrow> catalog_ext \<Rightarrow> source list \<Rightarrow> nat \<Rightarrow> table_definition \<times> nat \<Rightarrow> stored_snapshot list
   \<Rightarrow> engine_error + table_definition \<times> nat" where
  "list_sources_of V G sources bytes (table, table_bytes) [] = Inr (table, table_bytes)"
| "list_sources_of V G sources bytes (table, table_bytes) (snapshot # snapshots) =
     (case collection_len (json_pointer (s_state (ss_snapshot snapshot)) (td_path table)) of
        None \<Rightarrow> list_sources_of V G sources bytes (table, table_bytes) snapshots
      | Some n \<Rightarrow>
          rbind (describe_source V snapshot sources n) (\<lambda>source.
          rbind (map_err Json (gx_source_bytes G source)) (\<lambda>size'.
          let table_bytes = table_bytes + (size' + 1) in
          if MAX_SNAPSHOT_PAGE_BYTES < bytes + table_bytes then Inr (table, table_bytes)
          else list_sources_of V G sources bytes (table\<lparr>td_sources := td_sources table @ [source]\<rparr>, table_bytes) snapshots)))"

fun list_tables ::
  "number_view \<Rightarrow> catalog_ext \<Rightarrow> source list \<Rightarrow> stored_snapshot list \<Rightarrow> table_catalog_response \<Rightarrow> nat
   \<Rightarrow> table_definition list \<Rightarrow> engine_error + table_catalog_response" where
  "list_tables V G sources snapshots response bytes [] = Inr response"
| "list_tables V G sources snapshots response bytes (table # tables) =
     (let table = table\<lparr>td_sources := []\<rparr> in
      rbind (map_err Json (gx_definition_bytes G table)) (\<lambda>size'.
      rbind (list_sources_of V G sources bytes (table, size') snapshots) (\<lambda>(table, table_bytes).
      if MAX_SNAPSHOT_PAGE_BYTES < bytes + table_bytes then Inr (response\<lparr>tc_truncated := True\<rparr>)
      else list_tables V G sources snapshots (response\<lparr>tc_tables := tc_tables response @ [table]\<rparr>)
             (bytes + (table_bytes + 1)) tables)))"

definition table_catalog ::
  "serde_ext \<Rightarrow> table_ext \<Rightarrow> catalog_ext \<Rightarrow> 'ix store \<Rightarrow> source list \<Rightarrow> engine_error + table_catalog_response" where
  "table_catalog X T G db sources =
     rbind (table_snapshots X T db sources None False) (\<lambda>snapshots.
     let discovery = foldl (\<lambda>d s. discover_tables [] (s_state (ss_snapshot s)) d) empty_discovery snapshots in
     rbind (list_tables (tx_view T) G sources snapshots \<lparr>tc_tables = [], tc_truncated = dy_truncated discovery\<rparr>
              PAGE_ENVELOPE_RESERVE (map snd (dy_tables discovery))) (\<lambda>response.
     rbind (bounded_response (gx_catalog_bytes G response)) (\<lambda>_. Inr response)))"

section \<open>Requests to the engine\<close>

definition engine_table_summary ::
  "repo_env \<Rightarrow> chart_ext \<Rightarrow> query_ext \<Rightarrow> catalog_ext \<Rightarrow> repo \<Rightarrow> store_index store \<Rightarrow> table_summary_request
   \<Rightarrow> engine_error + table_summary_response" where
  "engine_table_summary E C Q G repo db q =
     rbind (validate_table_selection (tq_run_ids q) (tq_source_ids q)) (\<lambda>_.
     rbind (table_sources E repo (tq_run_ids q) (tq_source_ids q)) (\<lambda>sources.
     table_summary C Q G (st_rows db) (si_charts (st_index db)) sources q))"

definition engine_table_catalog ::
  "repo_env \<Rightarrow> serde_ext \<Rightarrow> table_ext \<Rightarrow> catalog_ext \<Rightarrow> repo \<Rightarrow> 'ix store \<Rightarrow> string list \<Rightarrow> string list
   \<Rightarrow> engine_error + table_catalog_response" where
  "engine_table_catalog E X T G repo db run_ids source_ids =
     rbind (validate_table_selection run_ids source_ids) (\<lambda>_.
     rbind (table_sources E repo run_ids source_ids) (\<lambda>sources.
     table_catalog X T G db sources))"

end
