(* ===== verification/Spec2Isabelle.thy ===== *)
theory Spec2Isabelle
  imports Scheduler Alert_Props Tracker_Props Chart_Bounds Artifact_Props Ui_Contracts Access_Props Table_Views Table_Catalog
begin

text \<open>
  Verification of \<open>rvx\<close>, a tracker of training runs, over its Rust sources (\<open>rust/\<close>).

  \<^bold>\<open>The program.\<close> A training process logs metrics, spans, events and artifacts through a tracker
  (\<open>rvx-tracker\<close>), which evaluates alert rules on them and commits them as snapshots into a bounded
  in-memory history (\<open>rvx-snapshots\<close>). A server (\<open>rvx-server\<close>) runs the engine (\<open>rvx-engine\<close>): its
  collector pulls the histories of the registered sources page by page over HTTP, a single worker
  writes the pages in groups to the snapshot store (SQLite), and a second database keeps the metadata
  (projects, experiments, runs, sources), the documents of the user interface and the login sessions.
  Browsers read the store through history, latest-value, artifact and chart queries. The wire types and
  their validators are \<open>rvx-core\<close>.

  \<^bold>\<open>How the model is made.\<close> Definitions follow the Rust functions one by one, with their checks in the
  order of the source. \<open>Result\<close> is a sum with the error on the left, state is passed explicitly, an
  SQLite table is the list of its rows or a map with the table's key, a transaction is a function on the
  database whose error carries no new database. Machine integers are naturals or integers, and every
  operation that can leave their range at run time is written out (\<open>checked_\<close> / \<open>saturating_\<close>
  functions of \<open>Rvx_Prelude\<close>). Strings are byte strings. \<open>f64\<close> is modelled exactly, by rationals that
  are rounded once.

  \<^bold>\<open>Theories.\<close>
  \<^item> Foundations: \<open>Rvx_Prelude\<close> (results, loops, integers, lists), \<open>Btree_Map\<close> (\<open>BTreeMap\<close>, interface
    \<open>ordered_map\<close>), \<open>Rust_Str\<close> (\<open>str\<close> on UTF-8 bytes), \<open>F64\<close> and \<open>F64_Text\<close> (arithmetic, order,
    parsing and printing of binary64), \<open>Json_Value\<close> (\<open>serde_json::Value\<close>), \<open>Eviction\<close> (interface
    \<open>eviction_loop\<close>: the loop that drops the oldest entries returns, after the fewest removals).
  \<^item> \<open>Core_Snapshots\<close>: the snapshot protocol (\<open>rvx-core/src/snapshots.rs\<close>, \<open>tracker.rs\<close>, \<open>lib.rs\<close>).
    \<open>Wire_Codec\<close>: a reference serializer that satisfies the laws assumed of the deployed one.
  \<^item> \<open>Producer\<close>, \<open>Producer_Props\<close>: \<open>rvx-snapshots/src/lib.rs\<close>. The invariant of the bounded history
    over every interleaving of captures, reads and sealing; the eviction loop ends; what a capture appends
    and what a page of history holds; the validator against its declarative form.
  \<^item> \<open>Snapshot_Store\<close>, \<open>Store_Ledger\<close>, \<open>Store_Props\<close>, \<open>Store_Reads\<close>: ingestion and reads of
    \<open>rvx-engine/src/snapshot_store.rs\<close>. Below the cursor every sequence number is stored or recorded
    as lost, exactly once; a bad page changes nothing and does not disturb its neighbours; what was
    ingested is read back; pages enumerate the history without repetition; the structural difference of two
    states is sound and complete.
  \<^item> \<open>Store_Index\<close> (interface \<open>index_invariant\<close>), \<open>Chart_Index\<close>, \<open>Chart_Cover\<close> (\<open>chart_index.rs\<close>),
    \<open>Chart_Query\<close>, \<open>Chart_Query_Props\<close>, \<open>Chart_Bounds\<close> (\<open>projection\<close>, \<open>query_page\<close>, \<open>query.rs\<close>):
    the index of numeric fields agrees with the stored states, chart values are exactly the finite numbers
    of the states, and responses keep their size and order.
  \<^item> \<open>Artifacts\<close>, \<open>Artifact_Index\<close>, \<open>Artifact_Props\<close> (\<open>rvx-core/src/artifacts.rs\<close>,
    \<open>artifact_index.rs\<close>): the index is a function of the stored snapshots; an alias resolves to the
    newest record.
  \<^item> \<open>Engine_Types\<close>, \<open>Repository\<close>, \<open>Repo_Lifecycle\<close> (interface \<open>lifecycle\<close>), \<open>Repo_Props\<close>:
    \<open>rvx-engine/src/repository.rs\<close>. Keys, references and legal states of the tables over every sequence of
    operations; final states stay final; a finished run stops its sources.
  \<^item> \<open>Engine_Control\<close> (control operations of \<open>rvx-engine/src/lib.rs\<close>), \<open>Ingestion\<close>,
    \<open>Ingestion_Props\<close> (\<open>ingestion.rs\<close>, \<open>diagnostics.rs\<close>): every admitted page is answered once, and
    only after it is durable. \<open>Pull\<close> composes producer, scrape and store: a page served by a producer is
    accepted, and repeated scrapes reach the producer's head. \<open>Scheduler\<close> is the collector's loop: no
    source that it knows is ever lost from the schedule.
  \<^item> \<open>Alert_Syntax\<close>, \<open>Alert_Parser\<close> (interface \<open>consuming_parser\<close>), \<open>Alert_Eval\<close>, \<open>Alert_Engine\<close>,
    \<open>Alert_Log\<close>, \<open>Alert_Props\<close>: \<open>rvx-tracker/src/alert/\<close>. Parsing inverts printing, evaluation yields
    the kind the checker computed, cooldowns and limits hold over whole replays, the state is bounded.
  \<^item> \<open>Tracker\<close>, \<open>Tracker_Inv\<close> (interface \<open>transaction\<close>), \<open>Tracker_Props\<close>: \<open>lib.rs\<close>, \<open>state.rs\<close>,
    \<open>snapshot.rs\<close>, \<open>model.rs\<close>, \<open>history.rs\<close>, \<open>delivery.rs\<close> of \<open>rvx-tracker\<close>. The state's invariant,
    all-or-nothing operations, one captured snapshot per counted commit, every alert accounted for as
    queued, delivered, failed or dropped.
  \<^item> \<open>Snapshot_Views\<close> (\<open>rvx-core/src/snapshot_views.rs\<close>, \<open>tables.rs\<close>): requests and view configurations
    with their limits. \<open>Rust_Ord\<close> (comparisons, sorting, interface \<open>nth_selection\<close>), \<open>Table_Numbers\<close>,
    \<open>Tables\<close>, \<open>Table_Catalog\<close> (\<open>snapshot_store/tables.rs\<close>, \<open>tables/scan.rs\<close>), \<open>Table_Views\<close>
    (\<open>tables/views.rs\<close>): collections inside snapshots as tables, with filters, search, sorting, pages,
    aggregates, statistics and the catalog. Decimal tokens are ordered and grouped by their exact values.
  \<^item> \<open>Ui_Documents\<close> (\<open>rvx-core/src/ui.rs\<close>), \<open>Ui_Store\<close> (\<open>repository/ui.rs\<close>, \<open>ui_state.rs\<close>), \<open>Ui_Inv\<close>
    (interface \<open>revisioned\<close>), \<open>Ui_Props\<close>, \<open>Ui_Codec\<close>, \<open>Ui_Contracts\<close>: what a workspace document may be,
    that the stored documents stay consistent with each other and with the metadata, that a revision names
    one document, and that compare-and-swap loses no update and can be retried.
  \<^item> \<open>Auth_Sessions\<close> (\<open>repository/auth.rs\<close>, \<open>auth_sessions.rs\<close>), \<open>Access\<close>, \<open>Access_Props\<close>
    (\<open>rvx-server/src/access.rs\<close>, \<open>auth.rs\<close>): a request reaches a handler only with credentials, login
    attempts are limited per peer, a login opens and a logout closes a session.

  \<^bold>\<open>Interfaces.\<close> Each locale above is interpreted on the model's own definitions in the theory of the
  component that provides it: \<open>ordered_map\<close> by the association lists; \<open>eviction_loop\<close> by the producer's
  queue; \<open>lifecycle\<close> by the statuses of runs and of sources; \<open>index_invariant\<close> by the index of numeric
  fields and the index of artifacts; \<open>nth_selection\<close> by sorting; \<open>consuming_parser\<close> by every depth of the alert grammar;
  \<open>transaction\<close> by the six transactions of the tracker; \<open>revisioned\<close> by the workspaces and by every browser.

  \<^bold>\<open>Parameters.\<close> Third-party code is an argument of the definitions that use it: \<open>serde_ext\<close>,
  \<open>number_ext\<close>, \<open>chart_ext\<close>, \<open>artifact_ext\<close>, \<open>query_ext\<close>, \<open>tracker_lib\<close>, \<open>ui_serde\<close>,
  \<open>number_view\<close>, \<open>table_ext\<close>, \<open>view_ext\<close> and \<open>catalog_ext\<close> (\<open>serde_json\<close>),
  \<open>repo_env\<close> (SQLite's foreign keys, rendering of strings), \<open>access_ext\<close> (SHA-256, HMAC, base64, URLs).
  Identifiers drawn at random and the readings of clocks are arguments per call. Where a property relies on
  the serializer, the law is a named hypothesis (\<open>ref_laws\<close> proves the ones of the protocol for
  \<open>Wire_Codec\<close>, \<open>Ui_Codec\<close> those of the interface documents), and the property's witness applies it to
  that instance.

  \<^bold>\<open>Termination and fuel.\<close> The parser of alert conditions recurses through parentheses with fuel;
  \<open>parse\<close> starts with more than the number of tokens allows to use (\<open>Alert_Parser\<close>). The eviction loops of
  the producer and of the tracker's history have an explicit value for divergence, which is shown not to
  occur in reachable states. All other recursion is structural or by a measure.

  \<^bold>\<open>Not modelled.\<close>
  \<^item> Input and output: sockets, routes and response encoding of \<open>rvx-server\<close>, the HTTP client of the
    collector (its results are arguments), threads and shutdown, the delivery of alerts over HTTP
    (\<open>rvx-alert-http\<close>), hashing and copying of artifact files (\<open>rvx-tracker/src/artifact.rs\<close>).
  \<^item> Front ends: the Python bindings (\<open>rvx-python\<close>), the command line and terminal interface (\<open>rvx-cli\<close>),
    the web application.
  \<^item> Derived serializers, and SQL itself: a statement is modelled by the rows it returns or changes;
    creation of the schema, migration and the rebuild of an index at start are not.
  \<^item> The catalog of numeric fields that \<open>chart_index.rs\<close> offers to the interface.
  \<^item> Cancellation and deadlines of a running query. Unicode lower-casing, which table searches use, is an
    argument.
\<close>

end
